(* ===== verification/Prelude.thy ===== *)
theory Prelude
  imports Complex_Main "HOL-Library.List_Lexorder" "HOL-Library.Char_ord"
begin

text \<open>
  What every component shares: results with errors as values, Python's \<^verbatim>\<open>str.strip\<close> and
  \<^verbatim>\<open>str.split\<close>, dictionaries as association lists in insertion order, and sorted sets.

  A Python string is a HOL \<^typ>\<open>string\<close>; a character stands for the code point
  \<open>of_char c\<close>, so code points from 256 on are not represented. The order of strings is
  Python's, lexicographic by code point (\<^verbatim>\<open>HOL-Library.List_Lexorder\<close> over
  \<^verbatim>\<open>Char_ord\<close>).
\<close>

named_theorems strip_simps "facts about stripped strings"
named_theorems result_simps "facts about results"

section \<open>Results\<close>

text \<open>\<open>Inl e\<close> is a raised exception, \<open>Inr v\<close> a returned value.\<close>

definition rbind :: "'e + 'a \<Rightarrow> ('a \<Rightarrow> 'e + 'b) \<Rightarrow> 'e + 'b" where
  "rbind m f = (case m of Inl e \<Rightarrow> Inl e | Inr v \<Rightarrow> f v)"

definition guard_else :: "'e \<Rightarrow> bool \<Rightarrow> 'e + unit" where
  "guard_else e b = (if b then Inr () else Inl e)"

fun rmap :: "('a \<Rightarrow> 'e + 'b) \<Rightarrow> 'a list \<Rightarrow> 'e + 'b list" where
  "rmap f [] = Inr []"
| "rmap f (x # xs) = rbind (f x) (\<lambda>y. rbind (rmap f xs) (\<lambda>ys. Inr (y # ys)))"

fun rfilter :: "('a \<Rightarrow> 'e + bool) \<Rightarrow> 'a list \<Rightarrow> 'e + 'a list" where
  "rfilter P [] = Inr []"
| "rfilter P (x # xs) =
     rbind (P x) (\<lambda>b. rbind (rfilter P xs) (\<lambda>ys. Inr (if b then x # ys else ys)))"

text \<open>
  A sequence of calls on an object by a caller that catches the exceptions: a call that raises
  leaves the object as it was.
\<close>

fun run_calls :: "('r \<Rightarrow> 'a \<Rightarrow> 'e + 'r) \<Rightarrow> 'a list \<Rightarrow> 'r \<Rightarrow> 'r" where
  "run_calls call [] r = r"
| "run_calls call (a # as) r =
     run_calls call as (case call r a of Inl e \<Rightarrow> r | Inr r' \<Rightarrow> r')"

lemma run_calls_invariant:
  assumes "\<And>r a r'. P r \<Longrightarrow> call r a = Inr r' \<Longrightarrow> P r'" and "P r"
  shows "P (run_calls call as r)"
  using assms(2) by (induction as arbitrary: r) (auto split: sum.splits intro: assms(1))

lemma rbind_simps [simp, result_simps]:
  "rbind (Inl e) f = Inl e"
  "rbind (Inr v) f = f v"
  by (simp_all add: rbind_def)

lemma rbind_Inr_iff [result_simps]: "rbind m f = Inr r \<longleftrightarrow> (\<exists>v. m = Inr v \<and> f v = Inr r)"
  by (cases m) auto

lemma rbind_Inl_iff: "rbind m f = Inl e \<longleftrightarrow> m = Inl e \<or> (\<exists>v. m = Inr v \<and> f v = Inl e)"
  by (cases m) auto

lemma guard_else_Inr [simp, result_simps]: "guard_else e b = Inr u \<longleftrightarrow> b"
  by (simp add: guard_else_def)

lemma guard_else_True [simp]: "guard_else e True = Inr ()"
  by (simp add: guard_else_def)

lemma guard_else_False [simp]: "guard_else e False = Inl e"
  by (simp add: guard_else_def)

lemma rmap_map_Inr: "(\<And>x. x \<in> set xs \<Longrightarrow> f (g x) = Inr x) \<Longrightarrow> rmap f (map g xs) = Inr xs"
  by (induction xs) auto

lemma rmap_Inr_list_all2: "rmap f xs = Inr ys \<Longrightarrow> list_all2 (\<lambda>x y. f x = Inr y) xs ys"
  by (induction xs arbitrary: ys) (auto simp: rbind_Inr_iff)

lemma rfilter_Inr: "rfilter P xs = Inr ys \<Longrightarrow> ys = filter (\<lambda>x. P x = Inr True) xs"
  by (induction xs arbitrary: ys) (auto simp: rbind_Inr_iff)

lemma rmap_Inr_set: "rmap f xs = Inr ys \<Longrightarrow> x \<in> set xs \<Longrightarrow> \<exists>y \<in> set ys. f x = Inr y"
  by (induction xs arbitrary: ys) (auto simp: rbind_Inr_iff)

lemma rmap_Inr_length: "rmap f xs = Inr ys \<Longrightarrow> length ys = length xs"
  by (induction xs arbitrary: ys) (auto simp: rbind_Inr_iff)

section \<open>Strings\<close>

definition code_point :: "char \<Rightarrow> nat" where
  "code_point c = of_char c"

text \<open>The code points below 256 that \<^verbatim>\<open>str.isspace\<close> accepts.\<close>

definition is_space :: "char \<Rightarrow> bool" where
  "is_space c =
     (let n = code_point c in 9 \<le> n \<and> n \<le> 13 \<or> 28 \<le> n \<and> n \<le> 32 \<or> n = 133 \<or> n = 160)"

definition strip :: "string \<Rightarrow> string" where
  "strip s = rev (dropWhile is_space (rev (dropWhile is_space s)))"

definition stripped :: "string \<Rightarrow> bool" where
  "stripped s \<longleftrightarrow> s \<noteq> [] \<and> \<not> is_space (hd s) \<and> \<not> is_space (last s)"

lemma strip_Nil [simp]: "strip [] = []"
  by (simp add: strip_def)

lemma strip_stripped [strip_simps]: "stripped s \<Longrightarrow> strip s = s"
proof -
  assume s: "stripped s"
  then have "dropWhile is_space s = s" by (cases s) (auto simp: stripped_def)
  moreover have "dropWhile is_space (rev s) = rev s"
    using s by (cases s rule: rev_cases) (auto simp: stripped_def)
  ultimately show ?thesis by (simp add: strip_def)
qed

lemma stripped_strip: "strip s \<noteq> [] \<Longrightarrow> stripped (strip s)"
proof -
  let ?t = "dropWhile is_space s"
  let ?r = "dropWhile is_space (rev ?t)"
  assume ne: "strip s \<noteq> []"
  then have r: "?r \<noteq> []" by (simp add: strip_def)
  then have t: "?t \<noteq> []" by (metis dropWhile.simps(1) rev.simps(1))
  have last: "\<not> is_space (last (strip s))"
    using hd_dropWhile [OF r] r by (simp add: strip_def last_rev)
  have "rev ?t = takeWhile is_space (rev ?t) @ ?r" by simp
  then have "?t = rev ?r @ rev (takeWhile is_space (rev ?t))"
    by (metis rev_append rev_rev_ident)
  then have "hd ?t = hd (rev ?r)" using r by (metis hd_append2 rev_is_Nil_conv)
  then have "hd (strip s) = hd ?t" by (simp add: strip_def)
  then have "\<not> is_space (hd (strip s))" using hd_dropWhile [OF t] by simp
  with ne last show ?thesis by (simp add: stripped_def)
qed

lemma strip_cases: "strip s = [] \<or> stripped (strip s)"
  using stripped_strip by blast

lemma strip_idem [simp, strip_simps]: "strip (strip s) = strip s"
  using strip_cases [of s] by (auto simp: strip_stripped)

lemma strip_eq_Nil_iff: "strip s = [] \<longleftrightarrow> (\<forall>c\<in>set s. is_space c)"
proof -
  have "strip s = [] \<longleftrightarrow> (\<forall>c\<in>set (dropWhile is_space s). is_space c)"
    by (simp add: strip_def dropWhile_eq_Nil_conv)
  also have "\<dots> \<longleftrightarrow> dropWhile is_space s = []"
    using hd_dropWhile [of is_space s] hd_in_set [of "dropWhile is_space s"]
    by (metis empty_iff list.set(1))
  finally show ?thesis by (simp add: dropWhile_eq_Nil_conv)
qed

text \<open>\<^verbatim>\<open>s.split()\<close>: the maximal runs of non-space characters.\<close>

fun split_ws_aux :: "string \<Rightarrow> string \<Rightarrow> string list" where
  "split_ws_aux acc [] = (if acc = [] then [] else [rev acc])"
| "split_ws_aux acc (c # cs) =
     (if is_space c then (if acc = [] then [] else [rev acc]) @ split_ws_aux [] cs
      else split_ws_aux (c # acc) cs)"

definition split_ws :: "string \<Rightarrow> string list" where
  "split_ws s = split_ws_aux [] s"

text \<open>\<^verbatim>\<open>s.rstrip()\<close>, \<^verbatim>\<open>sep.join(xs)\<close>, and \<^verbatim>\<open>s.replace(old, new)\<close> for a
  non-empty \<open>old\<close>, where the number counts the characters that a match still covers.\<close>

definition rstrip :: "string \<Rightarrow> string" where
  "rstrip s = rev (dropWhile is_space (rev s))"

fun join_with :: "string \<Rightarrow> string list \<Rightarrow> string" where
  "join_with sep [] = []"
| "join_with sep [x] = x"
| "join_with sep (x # y # xs) = x @ sep @ join_with sep (y # xs)"

text \<open>\<^verbatim>\<open>s.lower()\<close> and \<^verbatim>\<open>t in s\<close>.\<close>

definition lower_char :: "char \<Rightarrow> char" where
  "lower_char c =
     (let n = code_point c
      in if 65 \<le> n \<and> n \<le> 90 \<or> 192 \<le> n \<and> n \<le> 222 \<and> n \<noteq> 215 then char_of (n + 32) else c)"

definition lower :: "string \<Rightarrow> string" where
  "lower s = map lower_char s"

fun is_prefix :: "string \<Rightarrow> string \<Rightarrow> bool" where
  "is_prefix [] s = True"
| "is_prefix (c # cs) [] = False"
| "is_prefix (c # cs) (d # ds) = (c = d \<and> is_prefix cs ds)"

fun contains :: "string \<Rightarrow> string \<Rightarrow> bool" where
  "contains t [] = is_prefix t []"
| "contains t (c # cs) = (is_prefix t (c # cs) \<or> contains t cs)"

fun replace_from :: "string \<Rightarrow> string \<Rightarrow> nat \<Rightarrow> string \<Rightarrow> string" where
  "replace_from old new k [] = []"
| "replace_from old new (Suc k) (c # cs) = replace_from old new k cs"
| "replace_from old new 0 (c # cs) =
     (if is_prefix old (c # cs) then new @ replace_from old new (length old - 1) cs
      else c # replace_from old new 0 cs)"

definition replace_all :: "string \<Rightarrow> string \<Rightarrow> string \<Rightarrow> string" where
  "replace_all old new s = replace_from old new 0 s"

section \<open>Sorted sets\<close>

text \<open>\<^verbatim>\<open>sorted(set(xs))\<close>.\<close>

definition sorted_set :: "'a::linorder list \<Rightarrow> 'a list" where
  "sorted_set xs = sort (remdups xs)"

lemma set_sorted_set [simp]: "set (sorted_set xs) = set xs"
  by (simp add: sorted_set_def)

lemma sorted_sorted_set [simp]: "sorted (sorted_set xs)"
  by (simp add: sorted_set_def)

lemma distinct_sorted_set [simp]: "distinct (sorted_set xs)"
  by (simp add: sorted_set_def)

lemma sorted_set_eq_iff: "sorted_set xs = sorted_set ys \<longleftrightarrow> set xs = set ys"
  by (metis distinct_sorted_set set_sorted_set sorted_distinct_set_unique sorted_sorted_set)

lemma sorted_set_Nil [simp]: "sorted_set [] = []"
  by (simp add: sorted_set_def)

section \<open>Dictionaries\<close>

text \<open>
  A dictionary is an association list in insertion order: assigning to an existing key keeps its
  place, a new key goes to the end.
\<close>

fun dict_put :: "'k \<Rightarrow> 'v \<Rightarrow> ('k \<times> 'v) list \<Rightarrow> ('k \<times> 'v) list" where
  "dict_put k v [] = [(k, v)]"
| "dict_put k v ((k', v') # d) = (if k' = k then (k, v) # d else (k', v') # dict_put k v d)"

lemma map_of_dict_put [simp]: "map_of (dict_put k v d) = (map_of d)(k \<mapsto> v)"
  by (induction d) (auto simp: fun_eq_iff)

lemma keys_dict_put:
  "map fst (dict_put k v d) = (if k \<in> fst ` set d then map fst d else map fst d @ [k])"
proof (induction d)
  case (Cons x d)
  then show ?case by (cases x) simp
qed simp

lemma distinct_dict_put [simp]: "distinct (map fst d) \<Longrightarrow> distinct (map fst (dict_put k v d))"
  by (simp add: keys_dict_put)

lemma dict_put_subset: "set (dict_put k v d) \<subseteq> insert (k, v) (set d)"
  by (induction d) (auto split: if_splits)

lemma dict_put_key_set: "fst ` set (dict_put k v d) = insert k (fst ` set d)"
proof -
  have "set (map fst (dict_put k v d)) = insert k (set (map fst d))"
    unfolding keys_dict_put by auto
  then show ?thesis by simp
qed

end
