(* ===== verification/PyFloat.thy ===== *)
theory PyFloat
  imports Complex_Main "HOL-Library.Log_Nat"
begin

text \<open>
  The binary64 arithmetic of Python's \<^verbatim>\<open>float\<close>, as the scoring code uses it.

  A finite double is represented by the rational it denotes. Every arithmetic operation of the
  code rounds its exact result to the nearest double, ties to even (\<open>fl\<close>), as IEEE 754 and
  CPython do. \<open>py_round\<close> is the builtin \<^verbatim>\<open>round(x, n)\<close>: the exact value is
  rounded to \<open>n\<close> decimals, ties to even, and the decimal is read back as a double.
  \<open>py_sum\<close> is the builtin \<^verbatim>\<open>sum\<close> on floats, which is a compensated summation
  since Python 3.12, the version the repository requires.

  The exponent range is not bounded here: no operation of the modelled code comes near the
  overflow or the subnormal threshold. Infinities and NaN are not represented.
\<close>

section \<open>Rounding to an integer\<close>

definition round_half_even :: "rat \<Rightarrow> int" where
  "round_half_even x =
     (let f = \<lfloor>x\<rfloor>; d = x - of_int f
      in if d < 1 / 2 then f else if 1 / 2 < d then f + 1 else if even f then f else f + 1)"

lemma round_half_even_of_int [simp]: "round_half_even (of_int n) = n"
  by (simp add: round_half_even_def)

lemma round_half_even_of_nat [simp]: "round_half_even (of_nat n) = int n"
  using round_half_even_of_int [of "int n"] by simp

lemma round_half_even_mono:
  assumes "x \<le> y"
  shows "round_half_even x \<le> round_half_even y"
proof (cases "\<lfloor>x\<rfloor> = \<lfloor>y\<rfloor>")
  case True
  with assms show ?thesis by (auto simp: round_half_even_def Let_def)
next
  case False
  moreover from assms have "\<lfloor>x\<rfloor> \<le> \<lfloor>y\<rfloor>" by (rule floor_mono)
  ultimately have "\<lfloor>x\<rfloor> + 1 \<le> \<lfloor>y\<rfloor>" by simp
  then show ?thesis by (auto simp: round_half_even_def Let_def)
qed

lemma round_half_even_le:
  assumes "x \<le> of_int n"
  shows "round_half_even x \<le> n"
  using round_half_even_mono [OF assms] by simp

lemma round_half_even_ge:
  assumes "of_int n \<le> x"
  shows "n \<le> round_half_even x"
  using round_half_even_mono [OF assms] by simp

lemma round_half_even_minus: "round_half_even (- x) = - round_half_even x"
proof (cases "x = of_int \<lfloor>x\<rfloor>")
  case True
  then obtain n where "x = of_int n" by blast
  then show ?thesis
    using round_half_even_of_int [of "- n"] by simp
next
  case False
  have le: "of_int \<lfloor>x\<rfloor> \<le> x" and lt: "x < of_int \<lfloor>x\<rfloor> + 1" by linarith+
  with False have less: "of_int \<lfloor>x\<rfloor> < x" by linarith
  with lt have fm: "\<lfloor>- x\<rfloor> = - \<lfloor>x\<rfloor> - 1"
    by (simp add: floor_eq_iff)
  show ?thesis
    unfolding round_half_even_def Let_def fm by auto
qed

lemma round_half_even_near: "\<bar>of_int (round_half_even x) - x\<bar> \<le> 1 / 2"
proof -
  have "of_int \<lfloor>x\<rfloor> \<le> x" and "x < of_int \<lfloor>x\<rfloor> + 1" by linarith+
  then show ?thesis by (auto simp: round_half_even_def Let_def)
qed

section \<open>Rounding to a double\<close>

definition ilog2 :: "rat \<Rightarrow> int" where
  "ilog2 x =
     (let k = bitlen (fst (quotient_of x)) - bitlen (snd (quotient_of x))
      in if 2 powi k \<le> x then k else k - 1)"

definition fl :: "rat \<Rightarrow> rat" where
  "fl x =
     (if x = 0 then 0
      else let u = 2 powi (ilog2 \<bar>x\<bar> - 52) in of_int (round_half_even (x / u)) * u)"

lemma powi_2_add: "(2::rat) powi (a + b) = 2 powi a * 2 powi b"
  by (simp add: power_int_add)

lemma powi_2_le_iff: "(2::rat) powi a \<le> 2 powi b \<longleftrightarrow> a \<le> b"
proof
  assume "a \<le> b"
  then show "(2::rat) powi a \<le> 2 powi b" by (simp add: power_int_increasing)
next
  assume le: "(2::rat) powi a \<le> 2 powi b"
  show "a \<le> b"
  proof (rule ccontr)
    assume "\<not> a \<le> b"
    then have "(2::rat) powi b < 2 powi a" by (intro power_int_strict_increasing) auto
    with le show False by simp
  qed
qed

lemma powi_2_less_iff: "(2::rat) powi a < 2 powi b \<longleftrightarrow> a < b"
  using powi_2_le_iff [of b a] by (simp add: not_le [symmetric])

lemma powi_2_nat: "0 \<le> n \<Longrightarrow> (2::rat) powi n = of_int (2 ^ nat n)"
  by (simp add: power_int_def)

lemma powi_2_pos [simp]: "(0::rat) < 2 powi n"
  by simp

lemma bitlen_powi:
  assumes "0 < p"
  shows "(2::rat) powi (bitlen p - 1) \<le> of_int p" and "of_int p < (2::rat) powi bitlen p"
proof -
  have b: "2 ^ nat (bitlen p - 1) \<le> p" "p < 2 ^ nat (bitlen p)"
    using bitlen_bounds [OF assms] by auto
  have pos: "0 \<le> bitlen p - 1"
    using assms bitlen_eq_zero_iff [of p] bitlen_nonneg [of p] by linarith
  have "(2::rat) powi (bitlen p - 1) = of_int (2 ^ nat (bitlen p - 1))"
    using pos by (rule powi_2_nat)
  also have "\<dots> \<le> of_int p" using b(1) by (simp only: of_int_le_iff)
  finally show "(2::rat) powi (bitlen p - 1) \<le> of_int p" .
  have "(of_int p :: rat) < of_int (2 ^ nat (bitlen p))" using b(2) by (simp only: of_int_less_iff)
  also have "\<dots> = 2 powi bitlen p" using bitlen_nonneg by (simp only: powi_2_nat)
  finally show "of_int p < (2::rat) powi bitlen p" .
qed

lemma ilog2_bounds:
  assumes "0 < x"
  shows "2 powi ilog2 x \<le> x" and "x < 2 powi (ilog2 x + 1)"
proof -
  obtain p q where pq: "quotient_of x = (p, q)" by (cases "quotient_of x")
  then have q: "0 < q" and x: "x = of_int p / of_int q"
    by (auto intro: quotient_of_denom_pos quotient_of_div)
  with assms have p: "0 < p" by (simp add: zero_less_divide_iff)
  let ?k = "bitlen p - bitlen q"
  have "x < 2 powi bitlen p / 2 powi (bitlen q - 1)"
    unfolding x using bitlen_powi [OF p] bitlen_powi [OF q] p q
    by (intro frac_less) auto
  also have "\<dots> = 2 powi (?k + 1)" by (simp add: power_int_diff [symmetric] algebra_simps)
  finally have hi: "x < 2 powi (?k + 1)" .
  have "2 powi (bitlen p - 1) / 2 powi bitlen q \<le> x"
    unfolding x using bitlen_powi [OF p] bitlen_powi [OF q] p q
    by (intro frac_le) auto
  moreover have "2 powi (bitlen p - 1) / 2 powi bitlen q = (2::rat) powi (?k - 1)"
    by (simp add: power_int_diff [symmetric] algebra_simps)
  ultimately have lo: "2 powi (?k - 1) \<le> x" by simp
  show "2 powi ilog2 x \<le> x" and "x < 2 powi (ilog2 x + 1)"
    using hi lo by (auto simp: ilog2_def pq Let_def)
qed

lemma ilog2_mono:
  assumes "0 < x" "x \<le> y"
  shows "ilog2 x \<le> ilog2 y"
proof -
  have "2 powi ilog2 x \<le> x" using assms by (simp add: ilog2_bounds)
  also have "x \<le> y" by fact
  also have "y < 2 powi (ilog2 y + 1)" using assms by (intro ilog2_bounds) simp
  finally show ?thesis by (simp add: powi_2_less_iff)
qed

lemma ilog2_powi [simp]: "ilog2 (2 powi n) = n"
  using ilog2_bounds [of "2 powi n"] by (simp add: powi_2_le_iff powi_2_less_iff)

lemma fl_0 [simp]: "fl 0 = 0"
  by (simp add: fl_def)

lemma fl_minus [simp]: "fl (- x) = - fl x"
  by (simp add: fl_def Let_def round_half_even_minus)

text \<open>The scaled significand of a positive number, before and after rounding.\<close>

lemma fl_scaled:
  assumes "0 < x"
  defines "u \<equiv> 2 powi (ilog2 x - 52)"
  shows "2 ^ 52 \<le> x / u" and "x / u < 2 ^ 53"
proof -
  have u: "0 < u" by (simp add: u_def)
  have a: "2 ^ 52 * u = 2 powi ilog2 x"
    using powi_2_add [of 52 "ilog2 x - 52"] by (simp add: u_def)
  have b: "2 ^ 53 * u = 2 powi (ilog2 x + 1)"
    using powi_2_add [of 53 "ilog2 x - 52"] by (simp add: u_def add.commute)
  show "2 ^ 52 \<le> x / u"
    using ilog2_bounds(1) [OF assms(1)] u a by (simp add: pos_le_divide_eq)
  show "x / u < 2 ^ 53"
    using ilog2_bounds(2) [OF assms(1)] u b by (simp add: pos_divide_less_eq)
qed

lemma fl_pos_bounds:
  assumes "0 < x"
  shows "2 powi ilog2 x \<le> fl x" and "fl x \<le> 2 powi (ilog2 x + 1)"
proof -
  let ?u = "(2::rat) powi (ilog2 x - 52)"
  have fl: "fl x = of_int (round_half_even (x / ?u)) * ?u"
    using assms by (simp add: fl_def Let_def)
  have "2 ^ 52 \<le> round_half_even (x / ?u)"
    using fl_scaled(1) [OF assms] by (intro round_half_even_ge) simp
  then have "of_int (2 ^ 52) * ?u \<le> of_int (round_half_even (x / ?u)) * ?u"
    by (intro mult_right_mono) (auto simp only: of_int_le_iff powi_2_pos less_imp_le)
  then show "2 powi ilog2 x \<le> fl x"
    unfolding fl using powi_2_add [of 52 "ilog2 x - 52"] by simp
  have "round_half_even (x / ?u) \<le> 2 ^ 53"
    using fl_scaled(2) [OF assms] by (intro round_half_even_le) simp
  then have "of_int (round_half_even (x / ?u)) * ?u \<le> of_int (2 ^ 53) * ?u"
    by (intro mult_right_mono) (auto simp only: of_int_le_iff powi_2_pos less_imp_le)
  then show "fl x \<le> 2 powi (ilog2 x + 1)"
    unfolding fl using powi_2_add [of 53 "ilog2 x - 52"] by (simp add: add.commute)
qed

lemma fl_mono_pos:
  assumes "0 < x" "x \<le> y"
  shows "fl x \<le> fl y"
proof (cases "ilog2 x = ilog2 y")
  case True
  from assms have "x / 2 powi (ilog2 y - 52) \<le> y / 2 powi (ilog2 y - 52)"
    by (intro divide_right_mono) auto
  with True assms show ?thesis
    by (simp add: fl_def Let_def round_half_even_mono)
next
  case False
  with ilog2_mono [OF assms] have "ilog2 x + 1 \<le> ilog2 y" by simp
  then have "(2::rat) powi (ilog2 x + 1) \<le> 2 powi ilog2 y" by (simp only: powi_2_le_iff)
  moreover have "fl x \<le> 2 powi (ilog2 x + 1)" using assms by (simp add: fl_pos_bounds)
  moreover have "2 powi ilog2 y \<le> fl y" using assms by (intro fl_pos_bounds) simp
  ultimately show ?thesis by simp
qed

lemma fl_pos: "0 < x \<Longrightarrow> 0 < fl x"
  using fl_pos_bounds(1) [of x] powi_2_pos [of "ilog2 x"] by linarith

theorem fl_mono:
  assumes "x \<le> y"
  shows "fl x \<le> fl y"
proof (cases "0 < x \<or> y < 0")
  case True
  then show ?thesis
  proof
    assume "0 < x"
    then show ?thesis using assms by (rule fl_mono_pos)
  next
    assume "y < 0"
    then have "fl (- y) \<le> fl (- x)" using assms by (intro fl_mono_pos) auto
    then show ?thesis by simp
  qed
next
  case False
  then have "x \<le> 0" "0 \<le> y" by auto
  moreover have "fl x \<le> 0" if "x \<le> 0"
    using that fl_pos [of "- x"] by (cases "x = 0") auto
  moreover have "0 \<le> fl y" if "0 \<le> y"
    using that fl_pos [of y] by (cases "y = 0") auto
  ultimately show ?thesis by (meson order_trans)
qed

lemma fl_nonneg: "0 \<le> x \<Longrightarrow> 0 \<le> fl x"
  using fl_mono [of 0 x] by simp

text \<open>Numbers with a significand of at most 53 bits are doubles: rounding keeps them.\<close>

lemma fl_exact_pos:
  assumes "0 < m" "m \<le> 2 ^ 53"
  shows "fl (of_int m * 2 powi e) = of_int m * 2 powi e"
proof -
  let ?x = "(of_int m * 2 powi e) :: rat"
  let ?l = "ilog2 ?x"
  have x: "0 < ?x" using assms by simp
  have "?x \<le> of_int (2 ^ 53) * 2 powi e"
    using assms by (intro mult_right_mono) (auto simp only: of_int_le_iff powi_2_pos less_imp_le)
  also have "\<dots> = 2 powi (53 + e)" using powi_2_add [of 53 e] by simp
  finally have le: "?x \<le> 2 powi (53 + e)" .
  have "(2::rat) powi ?l \<le> 2 powi (53 + e)"
    using ilog2_bounds(1) [OF x] le by (rule order_trans)
  then have l: "?l \<le> 53 + e" by (simp only: powi_2_le_iff)
  have "\<exists>n. ?x / 2 powi (?l - 52) = of_int n"
  proof (cases "?l = 53 + e")
    case True
    with ilog2_bounds(1) [OF x] le have "?x = 2 powi ?l" by (simp add: order_antisym)
    then have "?x / 2 powi (?l - 52) = 2 powi ?l / 2 powi (?l - 52)" by (rule arg_cong)
    also have "\<dots> = of_int (2 ^ 52)" by (simp add: power_int_diff [symmetric])
    finally show ?thesis ..
  next
    case False
    with l have n: "0 \<le> e - (?l - 52)" by simp
    have "?x / 2 powi (?l - 52) = of_int m * 2 powi (e - (?l - 52))"
      by (simp add: power_int_diff)
    also have "\<dots> = of_int (m * 2 ^ nat (e - (?l - 52)))"
      using powi_2_nat [OF n] by simp
    finally show ?thesis ..
  qed
  then obtain n where n: "?x / 2 powi (?l - 52) = of_int n" ..
  then have "fl ?x = of_int n * 2 powi (?l - 52)"
    using x by (simp only: fl_def Let_def abs_of_pos round_half_even_of_int if_not_P less_imp_neq [symmetric] not_False_eq_True)
  also have "\<dots> = ?x" unfolding n [symmetric] by simp
  finally show ?thesis .
qed

lemma fl_exact:
  assumes "\<bar>m\<bar> \<le> 2 ^ 53"
  shows "fl (of_int m * 2 powi e) = of_int m * 2 powi e"
proof (cases m "0 :: int" rule: linorder_cases)
  case less
  with assms show ?thesis
    using fl_exact_pos [of "- m" e] by simp
next
  case greater
  with assms show ?thesis by (intro fl_exact_pos) auto
qed simp

lemma fl_of_int: "\<bar>m\<bar> \<le> 2 ^ 53 \<Longrightarrow> fl (of_int m) = of_int m"
  using fl_exact [of m 0] by simp

lemma fl_1 [simp]: "fl 1 = 1"
  using fl_of_int [of 1] by simp

lemma fl_numeral: "numeral k \<le> (2 ^ 53 :: int) \<Longrightarrow> fl (numeral k) = numeral k"
  using fl_of_int [of "numeral k"] by simp

theorem fl_idem [simp]: "fl (fl x) = fl x"
proof -
  have pos: "fl (fl y) = fl y" if y: "0 < y" for y
  proof -
    let ?u = "(2::rat) powi (ilog2 y - 52)"
    have "2 ^ 52 \<le> y / ?u" "y / ?u < 2 ^ 53" using fl_scaled [OF y] by auto
    then have "0 \<le> round_half_even (y / ?u)" "round_half_even (y / ?u) \<le> 2 ^ 53"
      by (auto intro!: round_half_even_ge round_half_even_le intro: order_trans [rotated])
    then have "fl (of_int (round_half_even (y / ?u)) * ?u) = of_int (round_half_even (y / ?u)) * ?u"
      by (intro fl_exact) simp
    moreover have "fl y = of_int (round_half_even (y / ?u)) * ?u"
      using y by (simp add: fl_def Let_def)
    ultimately show ?thesis by simp
  qed
  show ?thesis
    using pos [of x] pos [of "- x"] by (cases x "0 :: rat" rule: linorder_cases) auto
qed

lemma fl_between:
  assumes "of_int a \<le> x" "x \<le> of_int b" "\<bar>a\<bar> \<le> 2 ^ 53" "\<bar>b\<bar> \<le> 2 ^ 53"
  shows "of_int a \<le> fl x" and "fl x \<le> of_int b"
  using fl_mono [OF assms(1)] fl_mono [OF assms(2)] assms(3,4) by (simp_all add: fl_of_int)

lemma fl_le_1: "x \<le> 1 \<Longrightarrow> fl x \<le> 1"
  using fl_mono [of x 1] by simp

lemma fl_le_100: "x \<le> 100 \<Longrightarrow> fl x \<le> 100"
  using fl_mono [of x 100] fl_numeral [of "num.Bit0 (num.Bit0 (num.Bit1 (num.Bit0 (num.Bit0 (num.Bit1 num.One)))))"]
  by simp

text \<open>The rounding error: half a unit in the last place, so at most \<open>2\<^sup>-\<^sup>5\<^sup>3\<close> of the number.\<close>

lemma fl_error_pos:
  assumes "0 < x"
  shows "\<bar>fl x - x\<bar> \<le> x / 2 ^ 53"
proof -
  let ?u = "(2::rat) powi (ilog2 x - 52)"
  have u: "0 < ?u" by simp
  have f: "fl x = of_int (round_half_even (x / ?u)) * ?u"
    using assms by (simp add: fl_def Let_def)
  have "\<bar>of_int (round_half_even (x / ?u)) - x / ?u\<bar> * ?u \<le> 1 / 2 * ?u"
    by (rule mult_right_mono [OF round_half_even_near]) simp
  then have "\<bar>(of_int (round_half_even (x / ?u)) - x / ?u) * ?u\<bar> \<le> 1 / 2 * ?u"
    by (simp add: abs_mult)
  then have "\<bar>fl x - x\<bar> \<le> 1 / 2 * ?u" using u by (simp add: f left_diff_distrib)
  moreover have "2 ^ 52 * ?u \<le> x" using fl_scaled(1) [OF assms] u by (simp add: pos_le_divide_eq)
  ultimately show ?thesis by (simp add: field_simps)
qed

lemma fl_error: "\<bar>fl x - x\<bar> \<le> \<bar>x\<bar> / 2 ^ 53"
proof (cases x "0 :: rat" rule: linorder_cases)
  case less
  then have "\<bar>fl (- x) - (- x)\<bar> \<le> - x / 2 ^ 53" using fl_error_pos [of "- x"] by simp
  then show ?thesis using less by (simp add: abs_if split: if_splits)
qed (use fl_error_pos [of x] in simp_all)

lemma fl_upper: "fl x \<le> x + \<bar>x\<bar> / 2 ^ 53"
  using abs_le_D1 [OF fl_error [of x]] by linarith

lemma fl_lower: "x - \<bar>x\<bar> / 2 ^ 53 \<le> fl x"
  using abs_le_D2 [OF fl_error [of x]] by linarith

lemma fl_abs_le: "\<bar>fl x\<bar> \<le> 2 * \<bar>x\<bar>"
proof -
  have "\<bar>fl x - x\<bar> \<le> \<bar>x\<bar> / 2 ^ 53" by (rule fl_error)
  moreover have "\<bar>x\<bar> / 2 ^ 53 \<le> \<bar>x\<bar>" by (simp add: divide_le_eq mult_le_cancel_left1)
  ultimately show ?thesis by linarith
qed

text \<open>How an error bound on numbers of at most one passes through a literal and a sum.\<close>

definition near :: "rat \<Rightarrow> rat \<Rightarrow> rat \<Rightarrow> bool" where
  "near e a x \<longleftrightarrow> \<bar>a - x\<bar> \<le> e"

lemma near_fl: "\<bar>x\<bar> \<le> 1 \<Longrightarrow> near (1 / 2 ^ 53) (fl x) x"
  using fl_error [of x] by (simp add: near_def field_simps)

lemma near_refl: "near 0 x x"
  by (simp add: near_def)

lemma near_fadd:
  assumes "near d a x" "near e b y" "\<bar>x + y\<bar> \<le> 1" "d + e \<le> 1"
  shows "near (d + e + 1 / 2 ^ 52) (fl (a + b)) (x + y)"
proof -
  have "\<bar>fl (a + b) - (a + b)\<bar> \<le> \<bar>a + b\<bar> / 2 ^ 53" by (rule fl_error)
  moreover have ab: "\<bar>(a + b) - (x + y)\<bar> \<le> d + e" using assms(1,2) by (simp add: near_def)
  moreover have "\<bar>a + b\<bar> \<le> 2" using ab assms(3,4) by linarith
  then have "\<bar>a + b\<bar> / 2 ^ 53 \<le> 1 / 2 ^ 52" by (simp add: field_simps)
  ultimately show ?thesis unfolding near_def by linarith
qed

section \<open>The operations of the code\<close>

definition fadd :: "rat \<Rightarrow> rat \<Rightarrow> rat" where "fadd a b = fl (a + b)"
definition fsub :: "rat \<Rightarrow> rat \<Rightarrow> rat" where "fsub a b = fl (a - b)"
definition fmul :: "rat \<Rightarrow> rat \<Rightarrow> rat" where "fmul a b = fl (a * b)"
definition fdiv :: "rat \<Rightarrow> rat \<Rightarrow> rat" where "fdiv a b = fl (a / b)"

definition py_round :: "nat \<Rightarrow> rat \<Rightarrow> rat" where
  "py_round n x = fl (of_int (round_half_even (x * 10 ^ n)) / 10 ^ n)"

fun comp_sum :: "rat \<Rightarrow> rat \<Rightarrow> rat list \<Rightarrow> rat" where
  "comp_sum hi lo [] = (if lo = 0 then hi else fadd hi lo)"
| "comp_sum hi lo (x # xs) =
     (let t = fadd hi x
      in comp_sum t
           (if \<bar>x\<bar> \<le> \<bar>hi\<bar> then fadd lo (fadd (fsub hi t) x) else fadd lo (fadd (fsub x t) hi)) xs)"

definition py_sum :: "rat list \<Rightarrow> rat" where
  "py_sum xs = comp_sum 0 0 xs"

lemma fmul_nonneg: "0 \<le> a \<Longrightarrow> 0 \<le> b \<Longrightarrow> 0 \<le> fmul a b"
  by (simp add: fmul_def fl_nonneg)

lemma fadd_nonneg: "0 \<le> a \<Longrightarrow> 0 \<le> b \<Longrightarrow> 0 \<le> fadd a b"
  by (simp add: fadd_def fl_nonneg)

lemma fdiv_nonneg: "0 \<le> a \<Longrightarrow> 0 \<le> b \<Longrightarrow> 0 \<le> fdiv a b"
  by (simp add: fdiv_def fl_nonneg)

lemma fmul_le:
  assumes "0 \<le> a" "a \<le> b" "fl b = b" "0 \<le> x" "x \<le> 1"
  shows "fmul a x \<le> b"
proof -
  have "a * x \<le> b" using assms mult_mono [of a b x 1] by auto
  then show ?thesis using fl_mono assms(3) by (metis fmul_def)
qed

lemma fadd_mono: "a \<le> b \<Longrightarrow> c \<le> d \<Longrightarrow> fadd a c \<le> fadd b d"
  by (simp add: fadd_def fl_mono)

lemma py_round_mono: "x \<le> y \<Longrightarrow> py_round n x \<le> py_round n y"
  by (simp add: py_round_def fl_mono round_half_even_mono divide_right_mono)

lemma py_round_of_int:
  assumes "\<bar>m\<bar> \<le> 2 ^ 53"
  shows "py_round n (of_int m) = of_int m"
proof -
  have "of_int m * 10 ^ n = (of_int (m * 10 ^ n) :: rat)" by simp
  then have "round_half_even (of_int m * 10 ^ n) = m * 10 ^ n"
    by (simp only: round_half_even_of_int)
  then show ?thesis using fl_of_int [OF assms] by (simp add: py_round_def)
qed

lemma py_round_error: "\<bar>py_round n x - x\<bar> \<le> 1 / (2 * 10 ^ n) + (\<bar>x\<bar> + 1) / 2 ^ 53"
proof -
  let ?r = "of_int (round_half_even (x * 10 ^ n)) / 10 ^ n :: rat"
  have r: "\<bar>?r - x\<bar> \<le> 1 / (2 * 10 ^ n)"
  proof -
    have "\<bar>of_int (round_half_even (x * 10 ^ n)) - x * 10 ^ n\<bar> \<le> 1 / 2" by (rule round_half_even_near)
    moreover have "of_int (round_half_even (x * 10 ^ n)) - x * 10 ^ n = (?r - x) * 10 ^ n"
      by (simp add: field_simps)
    ultimately have "\<bar>?r - x\<bar> * 10 ^ n \<le> 1 / 2" by (simp add: abs_mult)
    then show ?thesis by (simp add: field_simps)
  qed
  have "(1 :: rat) \<le> 10 ^ n" by simp
  then have "(1 :: rat) \<le> 2 * 10 ^ n" by linarith
  then have "1 / (2 * 10 ^ n) \<le> (1 :: rat)" by simp
  then have "\<bar>?r\<bar> \<le> \<bar>x\<bar> + 1" using r by linarith
  then have "\<bar>?r\<bar> / 2 ^ 53 \<le> (\<bar>x\<bar> + 1) / 2 ^ 53" by (intro divide_right_mono) simp_all
  then show ?thesis using fl_error [of ?r] r unfolding py_round_def by linarith
qed

lemma py_round_0 [simp]: "py_round n 0 = 0"
  using py_round_of_int [of 0] by simp

lemma py_round_1 [simp]: "py_round n 1 = 1"
  using py_round_of_int [of 1] by simp

lemma py_round_between:
  assumes "of_int a \<le> x" "x \<le> of_int b" "\<bar>a\<bar> \<le> 2 ^ 53" "\<bar>b\<bar> \<le> 2 ^ 53"
  shows "of_int a \<le> py_round n x" and "py_round n x \<le> of_int b"
  using py_round_mono [OF assms(1), of n] py_round_mono [OF assms(2), of n]
    assms(3,4) by (simp_all add: py_round_of_int)

end
