(* ===== verification/PyValue.thy ===== *)
theory PyValue
  imports Prelude PyFloat
begin

text \<open>
  The dynamically typed values that the payload dictionaries of the research domain hold, the
  exceptions their conversions raise, and the conversions themselves: subscripting a payload,
  \<^verbatim>\<open>list(x)\<close>, \<^verbatim>\<open>dict(x)\<close>, \<^verbatim>\<open>bool(x)\<close>, \<^verbatim>\<open>float(x)\<close>,
  \<^verbatim>\<open>int(x)\<close>, \<^verbatim>\<open>str(x)\<close>, and the ISO format of \<^verbatim>\<open>datetime\<close>.

  A dictionary is an association list with string keys. Where a conversion accepts more than the
  model represents (the decimal text of a float, \<^verbatim>\<open>nan\<close>), the result is the error
  \<open>Unmodelled\<close>, so that no such case is mistaken for a value.
\<close>

section \<open>Values and errors\<close>

datatype pyval =
    VNone
  | VBool bool
  | VInt int
  | VFloat rat
  | VStr string
  | VList "pyval list"
  | VDict "(string \<times> pyval) list"

type_synonym payload = "(string \<times> pyval) list"

datatype py_error =
    ValueError string
  | EnumError
  | KeyError string
  | TypeError
  | AttributeError
  | Unmodelled

section \<open>Conversions\<close>

text \<open>\<^verbatim>\<open>payload[k]\<close>, and \<^verbatim>\<open>payload.get(k, default)\<close>.\<close>

definition subscript :: "payload \<Rightarrow> string \<Rightarrow> py_error + pyval" where
  "subscript d k = (case map_of d k of Some v \<Rightarrow> Inr v | None \<Rightarrow> Inl (KeyError k))"

definition get_or :: "payload \<Rightarrow> string \<Rightarrow> pyval \<Rightarrow> pyval" where
  "get_or d k v = (case map_of d k of Some w \<Rightarrow> w | None \<Rightarrow> v)"

fun py_list :: "pyval \<Rightarrow> py_error + pyval list" where
  "py_list (VList xs) = Inr xs"
| "py_list (VStr s) = Inr (map (\<lambda>c. VStr [c]) s)"
| "py_list (VDict d) = Inr (map (\<lambda>(k, _). VStr k) d)"
| "py_list _ = Inl TypeError"

fun py_dict :: "pyval \<Rightarrow> py_error + payload" where
  "py_dict (VDict d) = Inr d"
| "py_dict (VList []) = Inr []"
| "py_dict (VStr []) = Inr []"
| "py_dict (VList xs) = Inl Unmodelled"
| "py_dict (VStr s) = Inl (ValueError ''dictionary update sequence element #0 has length 1; 2 is required'')"
| "py_dict _ = Inl TypeError"

fun py_bool :: "pyval \<Rightarrow> bool" where
  "py_bool VNone = False"
| "py_bool (VBool b) = b"
| "py_bool (VInt i) = (i \<noteq> 0)"
| "py_bool (VFloat x) = (x \<noteq> 0)"
| "py_bool (VStr s) = (s \<noteq> [])"
| "py_bool (VList xs) = (xs \<noteq> [])"
| "py_bool (VDict d) = (d \<noteq> [])"

fun py_float :: "pyval \<Rightarrow> py_error + rat" where
  "py_float (VFloat x) = Inr x"
| "py_float (VInt i) = Inr (fl (of_int i))"
| "py_float (VBool b) = Inr (if b then 1 else 0)"
| "py_float (VStr s) = Inl (if strip s = [] then ValueError ''could not convert string to float'' else Unmodelled)"
| "py_float _ = Inl TypeError"

text \<open>The decimal digits of a natural number, and \<^verbatim>\<open>str\<close> of an integer.\<close>

definition digit_char :: "nat \<Rightarrow> char" where
  "digit_char n = char_of (48 + n)"

fun nat_str :: "nat \<Rightarrow> string" where
  "nat_str n = (if n < 10 then [digit_char n] else nat_str (n div 10) @ [digit_char (n mod 10)])"

declare nat_str.simps [simp del]

lemma nat_str_small: "n < 10 \<Longrightarrow> nat_str n = [digit_char n]"
  by (simp add: nat_str.simps)

definition int_str :: "int \<Rightarrow> string" where
  "int_str i = (if i < 0 then ''-'' @ nat_str (nat (- i)) else nat_str (nat i))"

text \<open>
  \<^verbatim>\<open>repr\<close>. A text is quoted with double quotes when it has single quotes and no double quotes; the
  quote, the backslash and the characters below 256 that are not printable are escaped. The text of a
  float, also inside a container, is \<open>Unmodelled\<close>.
\<close>

definition hex_digit :: "nat \<Rightarrow> char" where
  "hex_digit n = (if n < 10 then char_of (48 + n) else char_of (87 + n))"

definition repr_char :: "char \<Rightarrow> char \<Rightarrow> string" where
  "repr_char q c =
     (let n = code_point c in
      if c = q \<or> n = 92 then [char_of (92::nat), c]
      else if n = 9 then [char_of (92::nat), CHR ''t'']
      else if n = 10 then [char_of (92::nat), CHR ''n'']
      else if n = 13 then [char_of (92::nat), CHR ''r'']
      else if n < 32 \<or> 127 \<le> n \<and> n \<le> 160 \<or> n = 173
        then [char_of (92::nat), CHR ''x'', hex_digit (n div 16), hex_digit (n mod 16)]
      else [c])"

definition repr_str :: "string \<Rightarrow> string" where
  "repr_str s =
     (let single = char_of (39::nat); double = char_of (34::nat);
          q = (if single \<in> set s \<and> double \<notin> set s then double else single)
      in [q] @ concat (map (repr_char q) s) @ [q])"

fun py_repr :: "pyval \<Rightarrow> py_error + string"
  and reprs :: "pyval list \<Rightarrow> py_error + string list"
  and item_reprs :: "(string \<times> pyval) list \<Rightarrow> py_error + string list"
where
  "py_repr VNone = Inr ''None''"
| "py_repr (VBool b) = Inr (if b then ''True'' else ''False'')"
| "py_repr (VInt i) = Inr (int_str i)"
| "py_repr (VFloat x) = Inl Unmodelled"
| "py_repr (VStr s) = Inr (repr_str s)"
| "py_repr (VList xs) = rbind (reprs xs) (\<lambda>rs. Inr (''['' @ join_with '', '' rs @ '']''))"
| "py_repr (VDict d) = rbind (item_reprs d) (\<lambda>rs. Inr (''{'' @ join_with '', '' rs @ ''}''))"
| "reprs [] = Inr []"
| "reprs (x # xs) = rbind (py_repr x) (\<lambda>r. rbind (reprs xs) (\<lambda>rs. Inr (r # rs)))"
| "item_reprs [] = Inr []"
| "item_reprs ((k, v) # d) =
     rbind (py_repr v) (\<lambda>r. rbind (item_reprs d) (\<lambda>rs. Inr ((repr_str k @ '': '' @ r) # rs)))"

definition py_str :: "pyval \<Rightarrow> py_error + string" where
  "py_str v = (case v of VStr s \<Rightarrow> Inr s | _ \<Rightarrow> py_repr v)"

lemma py_str_simps [simp]:
  "py_str (VStr s) = Inr s"
  "py_str VNone = Inr ''None''"
  "py_str (VBool b) = Inr (if b then ''True'' else ''False'')"
  "py_str (VInt i) = Inr (int_str i)"
  "py_str (VFloat x) = Inl Unmodelled"
  "py_str (VList xs) = py_repr (VList xs)"
  "py_str (VDict d) = py_repr (VDict d)"
  by (simp_all add: py_str_def)

text \<open>A string method called on a value: only a string has it.\<close>

fun as_string :: "pyval \<Rightarrow> py_error + string" where
  "as_string (VStr s) = Inr s"
| "as_string _ = Inl AttributeError"

section \<open>Date and time\<close>

text \<open>
  A \<^verbatim>\<open>datetime\<close> with its offset from UTC in minutes, if it has one. \<open>isoformat\<close> and
  \<open>fromisoformat\<close> are the standard library's methods on the formats the first one writes;
  other strings that Python 3.12 accepts are \<open>Unmodelled\<close>.
\<close>

record datetime =
  year :: nat
  month :: nat
  day :: nat
  hour :: nat
  minute :: nat
  second :: nat
  microsecond :: nat
  utc_offset :: "int option"

definition leap_year :: "nat \<Rightarrow> bool" where
  "leap_year y \<longleftrightarrow> 4 dvd y \<and> (\<not> 100 dvd y \<or> 400 dvd y)"

definition days_in_month :: "nat \<Rightarrow> nat \<Rightarrow> nat" where
  "days_in_month y m =
     (if m = 2 then (if leap_year y then 29 else 28)
      else if m = 4 \<or> m = 6 \<or> m = 9 \<or> m = 11 then 30 else 31)"

definition valid_datetime :: "datetime \<Rightarrow> bool" where
  "valid_datetime t \<longleftrightarrow>
     1 \<le> year t \<and> year t \<le> 9999 \<and> 1 \<le> month t \<and> month t \<le> 12 \<and>
     1 \<le> day t \<and> day t \<le> days_in_month (year t) (month t) \<and>
     hour t \<le> 23 \<and> minute t \<le> 59 \<and> second t \<le> 59 \<and> microsecond t \<le> 999999 \<and>
     (case utc_offset t of None \<Rightarrow> True | Some z \<Rightarrow> - 1440 < z \<and> z < 1440)"

fun fixed_digits :: "nat \<Rightarrow> nat \<Rightarrow> string" where
  "fixed_digits 0 n = []"
| "fixed_digits (Suc w) n = fixed_digits w (n div 10) @ [digit_char (n mod 10)]"

definition offset_str :: "int \<Rightarrow> string" where
  "offset_str z =
     (if z < 0 then ''-'' else ''+'') @ fixed_digits 2 (nat \<bar>z\<bar> div 60) @ '':'' @ fixed_digits 2 (nat \<bar>z\<bar> mod 60)"

definition isoformat :: "datetime \<Rightarrow> string" where
  "isoformat t =
     fixed_digits 4 (year t) @ ''-'' @ fixed_digits 2 (month t) @ ''-'' @ fixed_digits 2 (day t) @ ''T'' @
     fixed_digits 2 (hour t) @ '':'' @ fixed_digits 2 (minute t) @ '':'' @ fixed_digits 2 (second t) @
     (if microsecond t = 0 then [] else ''.'' @ fixed_digits 6 (microsecond t)) @
     (case utc_offset t of None \<Rightarrow> [] | Some z \<Rightarrow> offset_str z)"

definition digit_value :: "char \<Rightarrow> nat option" where
  "digit_value c =
     (if 48 \<le> code_point c \<and> code_point c \<le> 57 then Some (code_point c - 48) else None)"

text \<open>
  \<^verbatim>\<open>int(x)\<close>. A text is digits, single underscores between them, with an optional sign and white
  space around it, of which a text of ASCII characters has six; Python refuses more than 4300 digits.
\<close>

definition int_blank :: "string \<Rightarrow> char \<Rightarrow> bool" where
  "int_blank s c =
     (if list_all (\<lambda>d. code_point d < 128) s then code_point c \<in> set [9, 10, 11, 12, 13, 32] else is_space c)"

fun digits_value :: "nat \<Rightarrow> string \<Rightarrow> nat option" where
  "digits_value n [] = Some n"
| "digits_value n (c # cs) =
     (case digit_value c of
        Some d \<Rightarrow> digits_value (10 * n + d) cs
      | None \<Rightarrow>
          if c = CHR ''_'' \<and> cs \<noteq> [] \<and> digit_value (hd cs) \<noteq> None then digits_value n cs else None)"

definition unsigned_value :: "string \<Rightarrow> nat option" where
  "unsigned_value s =
     (if s = [] \<or> digit_value (hd s) = None \<or> 4300 < length (filter (\<lambda>c. digit_value c \<noteq> None) s) then None
      else digits_value 0 s)"

definition int_of_text :: "string \<Rightarrow> int option" where
  "int_of_text s =
     (let t = rev (dropWhile (int_blank s) (rev (dropWhile (int_blank s) s))) in
      case t of
        [] \<Rightarrow> None
      | c # cs \<Rightarrow>
          if c = CHR ''-'' then map_option (\<lambda>n. - int n) (unsigned_value cs)
          else if c = CHR ''+'' then map_option int (unsigned_value cs)
          else map_option int (unsigned_value t))"

fun py_int :: "pyval \<Rightarrow> py_error + int" where
  "py_int (VInt i) = Inr i"
| "py_int (VBool b) = Inr (if b then 1 else 0)"
| "py_int (VFloat x) = Inr (if 0 \<le> x then \<lfloor>x\<rfloor> else - \<lfloor>- x\<rfloor>)"
| "py_int (VStr s) =
     (case int_of_text s of
        Some i \<Rightarrow> Inr i
      | None \<Rightarrow> Inl (ValueError ''invalid literal for int() with base 10''))"
| "py_int _ = Inl TypeError"

text \<open>The parsers consume a prefix and return the rest.\<close>

fun parse_digits :: "nat \<Rightarrow> nat \<Rightarrow> string \<Rightarrow> (nat \<times> string) option" where
  "parse_digits 0 acc s = Some (acc, s)"
| "parse_digits (Suc w) acc [] = None"
| "parse_digits (Suc w) acc (c # s) =
     Option.bind (digit_value c) (\<lambda>d. parse_digits w (10 * acc + d) s)"

fun parse_char :: "char \<Rightarrow> string \<Rightarrow> string option" where
  "parse_char c [] = None"
| "parse_char c (d # s) = (if c = d then Some s else None)"

definition parse_micro :: "string \<Rightarrow> (nat \<times> string) option" where
  "parse_micro s =
     (case s of c # s' \<Rightarrow> if c = CHR ''.'' then parse_digits 6 0 s' else Some (0, s)
      | [] \<Rightarrow> Some (0, []))"

definition parse_offset :: "string \<Rightarrow> int option option" where
  "parse_offset s =
     (case s of [] \<Rightarrow> Some None
      | c # s' \<Rightarrow>
          if c = CHR ''+'' \<or> c = CHR ''-'' then
            Option.bind (parse_digits 2 0 s') (\<lambda>(h, s1).
            Option.bind (parse_char CHR '':'' s1) (\<lambda>s2.
            Option.bind (parse_digits 2 0 s2) (\<lambda>(m, s3).
              if s3 = [] then Some (Some ((if c = CHR ''-'' then -1 else 1) * int (60 * h + m)))
              else None)))
          else None)"

definition parse_iso :: "string \<Rightarrow> datetime option" where
  "parse_iso s =
     Option.bind (parse_digits 4 0 s) (\<lambda>(y, s).
     Option.bind (parse_char CHR ''-'' s) (\<lambda>s.
     Option.bind (parse_digits 2 0 s) (\<lambda>(mo, s).
     Option.bind (parse_char CHR ''-'' s) (\<lambda>s.
     Option.bind (parse_digits 2 0 s) (\<lambda>(d, s).
     Option.bind (parse_char CHR ''T'' s) (\<lambda>s.
     Option.bind (parse_digits 2 0 s) (\<lambda>(h, s).
     Option.bind (parse_char CHR '':'' s) (\<lambda>s.
     Option.bind (parse_digits 2 0 s) (\<lambda>(mi, s).
     Option.bind (parse_char CHR '':'' s) (\<lambda>s.
     Option.bind (parse_digits 2 0 s) (\<lambda>(se, s).
     Option.bind (parse_micro s) (\<lambda>(us, s).
     Option.bind (parse_offset s) (\<lambda>z.
       Some \<lparr>year = y, month = mo, day = d, hour = h, minute = mi, second = se,
             microsecond = us, utc_offset = z\<rparr>)))))))))))))"

definition fromisoformat :: "pyval \<Rightarrow> py_error + datetime" where
  "fromisoformat v =
     (case v of
        VStr s \<Rightarrow>
          (case parse_iso s of
             None \<Rightarrow> Inl Unmodelled
           | Some t \<Rightarrow>
               if valid_datetime t then Inr t
               else Inl (ValueError ''isoformat field out of range''))
      | _ \<Rightarrow> Inl TypeError)"

lemma digit_value_digit_char: "d < 10 \<Longrightarrow> digit_value (digit_char d) = Some d"
  by (simp add: digit_value_def digit_char_def code_point_def)

lemma length_fixed_digits [simp]: "length (fixed_digits w n) = w"
  by (induction w arbitrary: n) auto

lemma parse_digits_add:
  "parse_digits (v + w) a s = Option.bind (parse_digits v a s) (\<lambda>(b, r). parse_digits w b r)"
proof (induction v arbitrary: a s)
  case (Suc v)
  then show ?case by (cases s) (auto split: Option.bind_splits)
qed simp

lemma parse_fixed_digits:
  "parse_digits w acc (fixed_digits w n @ s) = Some (10 ^ w * acc + n mod 10 ^ w, s)"
proof (induction w arbitrary: n s)
  case (Suc w)
  have "n mod (10 * 10 ^ w) = 10 * (n div 10 mod 10 ^ w) + n mod 10"
    by (rule mod_mult2_eq)
  then show ?case
    using parse_digits_add [of w 1 acc]
    by (simp add: Suc.IH digit_value_digit_char algebra_simps)
qed simp

lemma parse_fixed_digits_0 [simp]:
  "n < 10 ^ w \<Longrightarrow> parse_digits w 0 (fixed_digits w n @ s) = Some (n, s)"
  by (simp add: parse_fixed_digits)

lemma parse_micro_str:
  assumes "us \<le> 999999"
    and "\<And>c r. s = c # r \<Longrightarrow> c \<noteq> CHR ''.''"
  shows "parse_micro ((if us = 0 then [] else ''.'' @ fixed_digits 6 us) @ s) = Some (us, s)"
proof (cases "us = 0")
  case True
  with assms(2) show ?thesis by (cases s) (auto simp: parse_micro_def)
next
  case False
  with assms(1) show ?thesis by (simp add: parse_micro_def del: fixed_digits.simps)
qed

lemma parse_offset_str:
  assumes "- 1440 < z" "z < 1440"
  shows "parse_offset (offset_str z) = Some (Some z)"
proof -
  define n where "n = nat \<bar>z\<bar>"
  have n: "n < 1440" and z: "z = (if z < 0 then -1 else 1) * int (60 * (n div 60) + n mod 60)"
    using assms by (auto simp: n_def)
  have p1: "parse_digits 2 0 (fixed_digits 2 (n div 60) @ r) = Some (n div 60, r)" for r
    using n by (intro parse_fixed_digits_0) simp
  have p2: "parse_digits 2 0 (fixed_digits 2 (n mod 60)) = Some (n mod 60, [])"
    using n parse_fixed_digits_0 [of "n mod 60" 2 "[]"] by simp
  have "parse_offset (offset_str z) =
      Some (Some ((if z < 0 then -1 else 1) * int (60 * (n div 60) + n mod 60)))"
    unfolding parse_offset_def offset_str_def n_def [symmetric]
    by (simp add: p1 p2 del: fixed_digits.simps parse_digits.simps of_nat_add of_nat_mult
        mult_div_mod_eq)
  then show ?thesis using z by simp
qed

text \<open>Reading back what \<open>isoformat\<close> writes.\<close>

lemma parse_isoformat:
  assumes v: "valid_datetime t"
  shows "parse_iso (isoformat t) = Some t"
proof -
  let ?z = "case utc_offset t of None \<Rightarrow> [] | Some z \<Rightarrow> offset_str z"
  have z: "parse_offset ?z = Some (utc_offset t)"
    using v by (auto simp: valid_datetime_def parse_offset_str split: option.splits)
      (simp add: parse_offset_def)
  have nodot: "c \<noteq> CHR ''.''" if "?z = c # r" for c r
    using that by (auto simp: offset_str_def split: option.splits if_splits)
  have day: "day t < 10 ^ 2"
    using v by (auto simp: valid_datetime_def days_in_month_def split: if_splits)
  have small: "year t < 10 ^ 4" "month t < 10 ^ 2" "hour t < 10 ^ 2" "minute t < 10 ^ 2"
    "second t < 10 ^ 2"
    using v by (auto simp: valid_datetime_def)
  have us: "parse_micro ((if microsecond t = 0 then [] else ''.'' @ fixed_digits 6 (microsecond t)) @ ?z)
      = Some (microsecond t, ?z)"
    using v nodot by (intro parse_micro_str) (auto simp: valid_datetime_def)
  note digits = parse_fixed_digits_0 [OF small(1)] parse_fixed_digits_0 [OF small(2)]
    parse_fixed_digits_0 [OF day] parse_fixed_digits_0 [OF small(3)]
    parse_fixed_digits_0 [OF small(4)] parse_fixed_digits_0 [OF small(5)]
  define m where "m = (if microsecond t = 0 then [] else ''.'' @ fixed_digits 6 (microsecond t)) @ ?z"
  have iso: "isoformat t =
     fixed_digits 4 (year t) @ CHR ''-'' # fixed_digits 2 (month t) @ CHR ''-'' #
     fixed_digits 2 (day t) @ CHR ''T'' # fixed_digits 2 (hour t) @ CHR '':'' #
     fixed_digits 2 (minute t) @ CHR '':'' # fixed_digits 2 (second t) @ m"
    by (simp add: isoformat_def m_def)
  have "parse_micro m = Some (microsecond t, ?z)" using us by (simp only: m_def)
  then show ?thesis
    unfolding parse_iso_def iso
    by (simp add: digits z del: parse_digits.simps fixed_digits.simps)
qed

lemma fromisoformat_isoformat [simp]:
  "valid_datetime t \<Longrightarrow> fromisoformat (VStr (isoformat t)) = Inr t"
  by (simp add: fromisoformat_def parse_isoformat)

lemma fromisoformat_valid: "fromisoformat v = Inr t \<Longrightarrow> valid_datetime t"
  by (auto simp: fromisoformat_def split: pyval.splits option.splits if_splits)

end
