(* ===== verification/DomainEnums.thy ===== *)
theory DomainEnums
  imports Prelude PyValue
begin

text \<open>
  The enumerations of \<^verbatim>\<open>research_layer/domain/enums/research_enums.py\<close> and the status
  transition tables of \<^verbatim>\<open>research_layer/domain/models/research_domain.py\<close>.

  Every enumeration is a datatype with its members in the source's order, a list of the members
  and their string values; \<open>coerce_enum\<close> is the lookup by value that \<^verbatim>\<open>_coerce_enum\<close>
  and the call of an enumeration class perform (a member is a \<^verbatim>\<open>str\<close> equal to its value,
  so coercing a member is the same lookup). The interface \<open>str_enum\<close> states what makes the
  lookup invert the value, \<open>lifecycle\<close> what makes a transition table a life cycle: it never
  goes back to an earlier phase and its last status is never left.
\<close>

section \<open>Enumerations\<close>

definition coerce_enum :: "'a list \<Rightarrow> ('a \<Rightarrow> string) \<Rightarrow> pyval \<Rightarrow> py_error + 'a" where
  "coerce_enum members val_of v =
     (case v of
        VStr s \<Rightarrow>
          (case find (\<lambda>m. val_of m = s) members of
             Some m \<Rightarrow> Inr m
           | None \<Rightarrow> Inl EnumError)
      | _ \<Rightarrow> Inl EnumError)"

locale str_enum =
  fixes members :: "'a list" and val_of :: "'a \<Rightarrow> string"
  assumes complete: "m \<in> set members"
    and distinct_values: "val_of m = val_of m' \<Longrightarrow> m = m'"
begin

lemma coerce_value: "coerce_enum members val_of (VStr (val_of m)) = Inr m"
proof -
  have "\<exists>x. x \<in> set members \<and> val_of x = val_of m" using complete [of m] by blast
  then have "find (\<lambda>x. val_of x = val_of m) members \<noteq> None" by (simp add: find_None_iff)
  then obtain m' where m': "find (\<lambda>x. val_of x = val_of m) members = Some m'" by blast
  then have "val_of m' = val_of m" by (auto simp: find_Some_iff)
  then have "m' = m" by (rule distinct_values)
  with m' show ?thesis by (simp add: coerce_enum_def)
qed

lemma coerce_iff: "coerce_enum members val_of v = Inr m \<longleftrightarrow> v = VStr (val_of m)"
proof
  assume "coerce_enum members val_of v = Inr m"
  then show "v = VStr (val_of m)"
    by (auto simp: coerce_enum_def find_Some_iff split: pyval.splits option.splits)
next
  assume "v = VStr (val_of m)"
  then show "coerce_enum members val_of v = Inr m" by (simp add: coerce_value)
qed

end

datatype source_type = ST_PAPER | ST_NOTE | ST_FEEDBACK | ST_FAILURE_RECORD | ST_DIALOGUE

definition source_type_members :: "source_type list" where
  "source_type_members = [ST_PAPER, ST_NOTE, ST_FEEDBACK, ST_FAILURE_RECORD, ST_DIALOGUE]"

fun source_type_value :: "source_type \<Rightarrow> string" where
  "source_type_value ST_PAPER = ''paper''"
| "source_type_value ST_NOTE = ''note''"
| "source_type_value ST_FEEDBACK = ''feedback''"
| "source_type_value ST_FAILURE_RECORD = ''failure_record''"
| "source_type_value ST_DIALOGUE = ''dialogue''"

interpretation source_type: str_enum source_type_members source_type_value
proof unfold_locales
  fix m :: source_type
  show "m \<in> set source_type_members" by (cases m) (simp_all add: source_type_members_def)
next
  fix m m' :: source_type
  show "source_type_value m = source_type_value m' \<Longrightarrow> m = m'"
    by (cases m; cases m') simp_all
qed

datatype source_status = SS_RAW | SS_PARSED | SS_INDEXED | SS_EXTRACTED

definition source_status_members :: "source_status list" where
  "source_status_members = [SS_RAW, SS_PARSED, SS_INDEXED, SS_EXTRACTED]"

fun source_status_value :: "source_status \<Rightarrow> string" where
  "source_status_value SS_RAW = ''raw''"
| "source_status_value SS_PARSED = ''parsed''"
| "source_status_value SS_INDEXED = ''indexed''"
| "source_status_value SS_EXTRACTED = ''extracted''"

interpretation source_status: str_enum source_status_members source_status_value
proof unfold_locales
  fix m :: source_status
  show "m \<in> set source_status_members" by (cases m) (simp_all add: source_status_members_def)
next
  fix m m' :: source_status
  show "source_status_value m = source_status_value m' \<Longrightarrow> m = m'"
    by (cases m; cases m') simp_all
qed

datatype evidence_type = EV_CLAIM | EV_METHOD | EV_RESULT | EV_LIMITATION | EV_OBSERVATION

definition evidence_type_members :: "evidence_type list" where
  "evidence_type_members = [EV_CLAIM, EV_METHOD, EV_RESULT, EV_LIMITATION, EV_OBSERVATION]"

fun evidence_type_value :: "evidence_type \<Rightarrow> string" where
  "evidence_type_value EV_CLAIM = ''claim''"
| "evidence_type_value EV_METHOD = ''method''"
| "evidence_type_value EV_RESULT = ''result''"
| "evidence_type_value EV_LIMITATION = ''limitation''"
| "evidence_type_value EV_OBSERVATION = ''observation''"

interpretation evidence_type: str_enum evidence_type_members evidence_type_value
proof unfold_locales
  fix m :: evidence_type
  show "m \<in> set evidence_type_members" by (cases m) (simp_all add: evidence_type_members_def)
next
  fix m m' :: evidence_type
  show "evidence_type_value m = evidence_type_value m' \<Longrightarrow> m = m'"
    by (cases m; cases m') simp_all
qed

datatype prior_work_relation = PW_DIRECT_SUPPORT | PW_RECOMBINATION | PW_UPSTREAM_INSPIRATION

definition prior_work_relation_members :: "prior_work_relation list" where
  "prior_work_relation_members = [PW_DIRECT_SUPPORT, PW_RECOMBINATION, PW_UPSTREAM_INSPIRATION]"

fun prior_work_relation_value :: "prior_work_relation \<Rightarrow> string" where
  "prior_work_relation_value PW_DIRECT_SUPPORT = ''direct_support''"
| "prior_work_relation_value PW_RECOMBINATION = ''recombination''"
| "prior_work_relation_value PW_UPSTREAM_INSPIRATION = ''upstream_inspiration''"

interpretation prior_work_relation: str_enum prior_work_relation_members prior_work_relation_value
proof unfold_locales
  fix m :: prior_work_relation
  show "m \<in> set prior_work_relation_members" by (cases m) (simp_all add: prior_work_relation_members_def)
next
  fix m m' :: prior_work_relation
  show "prior_work_relation_value m = prior_work_relation_value m' \<Longrightarrow> m = m'"
    by (cases m; cases m') simp_all
qed

datatype assumption_type = AT_EXPLICIT | AT_IMPLICIT | AT_GENERATED

definition assumption_type_members :: "assumption_type list" where
  "assumption_type_members = [AT_EXPLICIT, AT_IMPLICIT, AT_GENERATED]"

fun assumption_type_value :: "assumption_type \<Rightarrow> string" where
  "assumption_type_value AT_EXPLICIT = ''explicit''"
| "assumption_type_value AT_IMPLICIT = ''implicit''"
| "assumption_type_value AT_GENERATED = ''generated''"

interpretation assumption_type: str_enum assumption_type_members assumption_type_value
proof unfold_locales
  fix m :: assumption_type
  show "m \<in> set assumption_type_members" by (cases m) (simp_all add: assumption_type_members_def)
next
  fix m m' :: assumption_type
  show "assumption_type_value m = assumption_type_value m' \<Longrightarrow> m = m'"
    by (cases m; cases m') simp_all
qed

datatype assumption_status = AS_ACTIVE | AS_CHALLENGED | AS_INVALIDATED | AS_ARCHIVED

definition assumption_status_members :: "assumption_status list" where
  "assumption_status_members = [AS_ACTIVE, AS_CHALLENGED, AS_INVALIDATED, AS_ARCHIVED]"

fun assumption_status_value :: "assumption_status \<Rightarrow> string" where
  "assumption_status_value AS_ACTIVE = ''active''"
| "assumption_status_value AS_CHALLENGED = ''challenged''"
| "assumption_status_value AS_INVALIDATED = ''invalidated''"
| "assumption_status_value AS_ARCHIVED = ''archived''"

interpretation assumption_status: str_enum assumption_status_members assumption_status_value
proof unfold_locales
  fix m :: assumption_status
  show "m \<in> set assumption_status_members" by (cases m) (simp_all add: assumption_status_members_def)
next
  fix m m' :: assumption_status
  show "assumption_status_value m = assumption_status_value m' \<Longrightarrow> m = m'"
    by (cases m; cases m') simp_all
qed

datatype conflict_severity = CS_LOW | CS_MEDIUM | CS_HIGH | CS_CRITICAL

definition conflict_severity_members :: "conflict_severity list" where
  "conflict_severity_members = [CS_LOW, CS_MEDIUM, CS_HIGH, CS_CRITICAL]"

fun conflict_severity_value :: "conflict_severity \<Rightarrow> string" where
  "conflict_severity_value CS_LOW = ''low''"
| "conflict_severity_value CS_MEDIUM = ''medium''"
| "conflict_severity_value CS_HIGH = ''high''"
| "conflict_severity_value CS_CRITICAL = ''critical''"

interpretation conflict_severity: str_enum conflict_severity_members conflict_severity_value
proof unfold_locales
  fix m :: conflict_severity
  show "m \<in> set conflict_severity_members" by (cases m) (simp_all add: conflict_severity_members_def)
next
  fix m m' :: conflict_severity
  show "conflict_severity_value m = conflict_severity_value m' \<Longrightarrow> m = m'"
    by (cases m; cases m') simp_all
qed

datatype failure_severity = FS_LOW | FS_MEDIUM | FS_HIGH | FS_CRITICAL

definition failure_severity_members :: "failure_severity list" where
  "failure_severity_members = [FS_LOW, FS_MEDIUM, FS_HIGH, FS_CRITICAL]"

fun failure_severity_value :: "failure_severity \<Rightarrow> string" where
  "failure_severity_value FS_LOW = ''low''"
| "failure_severity_value FS_MEDIUM = ''medium''"
| "failure_severity_value FS_HIGH = ''high''"
| "failure_severity_value FS_CRITICAL = ''critical''"

interpretation failure_severity: str_enum failure_severity_members failure_severity_value
proof unfold_locales
  fix m :: failure_severity
  show "m \<in> set failure_severity_members" by (cases m) (simp_all add: failure_severity_members_def)
next
  fix m m' :: failure_severity
  show "failure_severity_value m = failure_severity_value m' \<Longrightarrow> m = m'"
    by (cases m; cases m') simp_all
qed

datatype validation_level = VL_LOW | VL_MEDIUM | VL_HIGH

definition validation_level_members :: "validation_level list" where
  "validation_level_members = [VL_LOW, VL_MEDIUM, VL_HIGH]"

fun validation_level_value :: "validation_level \<Rightarrow> string" where
  "validation_level_value VL_LOW = ''low''"
| "validation_level_value VL_MEDIUM = ''medium''"
| "validation_level_value VL_HIGH = ''high''"

interpretation validation_level: str_enum validation_level_members validation_level_value
proof unfold_locales
  fix m :: validation_level
  show "m \<in> set validation_level_members" by (cases m) (simp_all add: validation_level_members_def)
next
  fix m m' :: validation_level
  show "validation_level_value m = validation_level_value m' \<Longrightarrow> m = m'"
    by (cases m; cases m') simp_all
qed

datatype novelty_level = NL_CONSERVATIVE | NL_INCREMENTAL | NL_NOVEL | NL_BREAKTHROUGH

definition novelty_level_members :: "novelty_level list" where
  "novelty_level_members = [NL_CONSERVATIVE, NL_INCREMENTAL, NL_NOVEL, NL_BREAKTHROUGH]"

fun novelty_level_value :: "novelty_level \<Rightarrow> string" where
  "novelty_level_value NL_CONSERVATIVE = ''conservative''"
| "novelty_level_value NL_INCREMENTAL = ''incremental''"
| "novelty_level_value NL_NOVEL = ''novel''"
| "novelty_level_value NL_BREAKTHROUGH = ''breakthrough''"

interpretation novelty_level: str_enum novelty_level_members novelty_level_value
proof unfold_locales
  fix m :: novelty_level
  show "m \<in> set novelty_level_members" by (cases m) (simp_all add: novelty_level_members_def)
next
  fix m m' :: novelty_level
  show "novelty_level_value m = novelty_level_value m' \<Longrightarrow> m = m'"
    by (cases m; cases m') simp_all
qed

datatype route_status = RS_CANDIDATE | RS_ACTIVE | RS_WEAKENED | RS_SUPERSEDED | RS_FAILED | RS_VALIDATED

definition route_status_members :: "route_status list" where
  "route_status_members = [RS_CANDIDATE, RS_ACTIVE, RS_WEAKENED, RS_SUPERSEDED, RS_FAILED, RS_VALIDATED]"

fun route_status_value :: "route_status \<Rightarrow> string" where
  "route_status_value RS_CANDIDATE = ''candidate''"
| "route_status_value RS_ACTIVE = ''active''"
| "route_status_value RS_WEAKENED = ''weakened''"
| "route_status_value RS_SUPERSEDED = ''superseded''"
| "route_status_value RS_FAILED = ''failed''"
| "route_status_value RS_VALIDATED = ''validated''"

interpretation route_status: str_enum route_status_members route_status_value
proof unfold_locales
  fix m :: route_status
  show "m \<in> set route_status_members" by (cases m) (simp_all add: route_status_members_def)
next
  fix m m' :: route_status
  show "route_status_value m = route_status_value m' \<Longrightarrow> m = m'"
    by (cases m; cases m') simp_all
qed

datatype graph_node_type = NT_CONCLUSION | NT_EVIDENCE | NT_ASSUMPTION | NT_CONFLICT | NT_FAILURE | NT_VALIDATION | NT_BRANCH | NT_GAP | NT_PRIVATE_DEPENDENCY

definition graph_node_type_members :: "graph_node_type list" where
  "graph_node_type_members = [NT_CONCLUSION, NT_EVIDENCE, NT_ASSUMPTION, NT_CONFLICT, NT_FAILURE, NT_VALIDATION, NT_BRANCH, NT_GAP, NT_PRIVATE_DEPENDENCY]"

fun graph_node_type_value :: "graph_node_type \<Rightarrow> string" where
  "graph_node_type_value NT_CONCLUSION = ''conclusion''"
| "graph_node_type_value NT_EVIDENCE = ''evidence''"
| "graph_node_type_value NT_ASSUMPTION = ''assumption''"
| "graph_node_type_value NT_CONFLICT = ''conflict''"
| "graph_node_type_value NT_FAILURE = ''failure''"
| "graph_node_type_value NT_VALIDATION = ''validation''"
| "graph_node_type_value NT_BRANCH = ''branch''"
| "graph_node_type_value NT_GAP = ''gap''"
| "graph_node_type_value NT_PRIVATE_DEPENDENCY = ''private_dependency''"

interpretation graph_node_type: str_enum graph_node_type_members graph_node_type_value
proof unfold_locales
  fix m :: graph_node_type
  show "m \<in> set graph_node_type_members" by (cases m) (simp_all add: graph_node_type_members_def)
next
  fix m m' :: graph_node_type
  show "graph_node_type_value m = graph_node_type_value m' \<Longrightarrow> m = m'"
    by (cases m; cases m') simp_all
qed

datatype visibility_level = VIS_PRIVATE | VIS_WORKSPACE | VIS_PACKAGE_PUBLIC

definition visibility_level_members :: "visibility_level list" where
  "visibility_level_members = [VIS_PRIVATE, VIS_WORKSPACE, VIS_PACKAGE_PUBLIC]"

fun visibility_level_value :: "visibility_level \<Rightarrow> string" where
  "visibility_level_value VIS_PRIVATE = ''private''"
| "visibility_level_value VIS_WORKSPACE = ''workspace''"
| "visibility_level_value VIS_PACKAGE_PUBLIC = ''package_public''"

interpretation visibility_level: str_enum visibility_level_members visibility_level_value
proof unfold_locales
  fix m :: visibility_level
  show "m \<in> set visibility_level_members" by (cases m) (simp_all add: visibility_level_members_def)
next
  fix m m' :: visibility_level
  show "visibility_level_value m = visibility_level_value m' \<Longrightarrow> m = m'"
    by (cases m; cases m') simp_all
qed

datatype graph_node_status = NS_ACTIVE | NS_WEAKENED | NS_CONFLICTED | NS_FAILED | NS_SUPERSEDED | NS_ARCHIVED

definition graph_node_status_members :: "graph_node_status list" where
  "graph_node_status_members = [NS_ACTIVE, NS_WEAKENED, NS_CONFLICTED, NS_FAILED, NS_SUPERSEDED, NS_ARCHIVED]"

fun graph_node_status_value :: "graph_node_status \<Rightarrow> string" where
  "graph_node_status_value NS_ACTIVE = ''active''"
| "graph_node_status_value NS_WEAKENED = ''weakened''"
| "graph_node_status_value NS_CONFLICTED = ''conflicted''"
| "graph_node_status_value NS_FAILED = ''failed''"
| "graph_node_status_value NS_SUPERSEDED = ''superseded''"
| "graph_node_status_value NS_ARCHIVED = ''archived''"

interpretation graph_node_status: str_enum graph_node_status_members graph_node_status_value
proof unfold_locales
  fix m :: graph_node_status
  show "m \<in> set graph_node_status_members" by (cases m) (simp_all add: graph_node_status_members_def)
next
  fix m m' :: graph_node_status
  show "graph_node_status_value m = graph_node_status_value m' \<Longrightarrow> m = m'"
    by (cases m; cases m') simp_all
qed

datatype graph_edge_type = ET_SUPPORTS | ET_REQUIRES | ET_CONFLICTS | ET_WEAKENS | ET_DERIVES | ET_VALIDATES | ET_BRANCHES_TO

definition graph_edge_type_members :: "graph_edge_type list" where
  "graph_edge_type_members = [ET_SUPPORTS, ET_REQUIRES, ET_CONFLICTS, ET_WEAKENS, ET_DERIVES, ET_VALIDATES, ET_BRANCHES_TO]"

fun graph_edge_type_value :: "graph_edge_type \<Rightarrow> string" where
  "graph_edge_type_value ET_SUPPORTS = ''supports''"
| "graph_edge_type_value ET_REQUIRES = ''requires''"
| "graph_edge_type_value ET_CONFLICTS = ''conflicts''"
| "graph_edge_type_value ET_WEAKENS = ''weakens''"
| "graph_edge_type_value ET_DERIVES = ''derives''"
| "graph_edge_type_value ET_VALIDATES = ''validates''"
| "graph_edge_type_value ET_BRANCHES_TO = ''branches_to''"

interpretation graph_edge_type: str_enum graph_edge_type_members graph_edge_type_value
proof unfold_locales
  fix m :: graph_edge_type
  show "m \<in> set graph_edge_type_members" by (cases m) (simp_all add: graph_edge_type_members_def)
next
  fix m m' :: graph_edge_type
  show "graph_edge_type_value m = graph_edge_type_value m' \<Longrightarrow> m = m'"
    by (cases m; cases m') simp_all
qed

datatype graph_edge_status = ES_ACTIVE | ES_WEAKENED | ES_CONFLICTED | ES_INVALIDATED | ES_SUPERSEDED | ES_ARCHIVED

definition graph_edge_status_members :: "graph_edge_status list" where
  "graph_edge_status_members = [ES_ACTIVE, ES_WEAKENED, ES_CONFLICTED, ES_INVALIDATED, ES_SUPERSEDED, ES_ARCHIVED]"

fun graph_edge_status_value :: "graph_edge_status \<Rightarrow> string" where
  "graph_edge_status_value ES_ACTIVE = ''active''"
| "graph_edge_status_value ES_WEAKENED = ''weakened''"
| "graph_edge_status_value ES_CONFLICTED = ''conflicted''"
| "graph_edge_status_value ES_INVALIDATED = ''invalidated''"
| "graph_edge_status_value ES_SUPERSEDED = ''superseded''"
| "graph_edge_status_value ES_ARCHIVED = ''archived''"

interpretation graph_edge_status: str_enum graph_edge_status_members graph_edge_status_value
proof unfold_locales
  fix m :: graph_edge_status
  show "m \<in> set graph_edge_status_members" by (cases m) (simp_all add: graph_edge_status_members_def)
next
  fix m m' :: graph_edge_status
  show "graph_edge_status_value m = graph_edge_status_value m' \<Longrightarrow> m = m'"
    by (cases m; cases m') simp_all
qed

datatype graph_trigger_type = GT_NEW_SOURCE | GT_CONFIRM_CANDIDATE | GT_MANUAL_EDIT | GT_FAILURE | GT_VALIDATION_RESULT | GT_RECOMPUTE

definition graph_trigger_type_members :: "graph_trigger_type list" where
  "graph_trigger_type_members = [GT_NEW_SOURCE, GT_CONFIRM_CANDIDATE, GT_MANUAL_EDIT, GT_FAILURE, GT_VALIDATION_RESULT, GT_RECOMPUTE]"

fun graph_trigger_type_value :: "graph_trigger_type \<Rightarrow> string" where
  "graph_trigger_type_value GT_NEW_SOURCE = ''new_source''"
| "graph_trigger_type_value GT_CONFIRM_CANDIDATE = ''confirm_candidate''"
| "graph_trigger_type_value GT_MANUAL_EDIT = ''manual_edit''"
| "graph_trigger_type_value GT_FAILURE = ''failure''"
| "graph_trigger_type_value GT_VALIDATION_RESULT = ''validation_result''"
| "graph_trigger_type_value GT_RECOMPUTE = ''recompute''"

interpretation graph_trigger_type: str_enum graph_trigger_type_members graph_trigger_type_value
proof unfold_locales
  fix m :: graph_trigger_type
  show "m \<in> set graph_trigger_type_members" by (cases m) (simp_all add: graph_trigger_type_members_def)
next
  fix m m' :: graph_trigger_type
  show "graph_trigger_type_value m = graph_trigger_type_value m' \<Longrightarrow> m = m'"
    by (cases m; cases m') simp_all
qed

lemmas enum_coerce_value [simp] =
  source_type.coerce_value
  source_status.coerce_value
  evidence_type.coerce_value
  prior_work_relation.coerce_value
  assumption_type.coerce_value
  assumption_status.coerce_value
  conflict_severity.coerce_value
  failure_severity.coerce_value
  validation_level.coerce_value
  novelty_level.coerce_value
  route_status.coerce_value
  graph_node_type.coerce_value
  visibility_level.coerce_value
  graph_node_status.coerce_value
  graph_edge_type.coerce_value
  graph_edge_status.coerce_value
  graph_trigger_type.coerce_value

lemmas enum_coerce_iff =
  source_type.coerce_iff
  source_status.coerce_iff
  evidence_type.coerce_iff
  prior_work_relation.coerce_iff
  assumption_type.coerce_iff
  assumption_status.coerce_iff
  conflict_severity.coerce_iff
  failure_severity.coerce_iff
  validation_level.coerce_iff
  novelty_level.coerce_iff
  route_status.coerce_iff
  graph_node_type.coerce_iff
  visibility_level.coerce_iff
  graph_node_status.coerce_iff
  graph_edge_type.coerce_iff
  graph_edge_status.coerce_iff
  graph_trigger_type.coerce_iff

section \<open>Transition tables\<close>

fun source_transitions :: "source_status \<Rightarrow> source_status set" where
  "source_transitions SS_RAW = {SS_RAW, SS_PARSED}"
| "source_transitions SS_PARSED = {SS_PARSED, SS_INDEXED}"
| "source_transitions SS_INDEXED = {SS_INDEXED, SS_EXTRACTED}"
| "source_transitions SS_EXTRACTED = {SS_EXTRACTED}"

fun assumption_transitions :: "assumption_status \<Rightarrow> assumption_status set" where
  "assumption_transitions AS_ACTIVE = {AS_ACTIVE, AS_CHALLENGED, AS_INVALIDATED, AS_ARCHIVED}"
| "assumption_transitions AS_CHALLENGED = {AS_CHALLENGED, AS_ACTIVE, AS_INVALIDATED, AS_ARCHIVED}"
| "assumption_transitions AS_INVALIDATED = {AS_INVALIDATED, AS_ARCHIVED}"
| "assumption_transitions AS_ARCHIVED = {AS_ARCHIVED}"

fun route_transitions :: "route_status \<Rightarrow> route_status set" where
  "route_transitions RS_CANDIDATE = {RS_CANDIDATE, RS_ACTIVE, RS_FAILED, RS_SUPERSEDED}"
| "route_transitions RS_ACTIVE = {RS_ACTIVE, RS_WEAKENED, RS_VALIDATED, RS_FAILED, RS_SUPERSEDED}"
| "route_transitions RS_WEAKENED = {RS_WEAKENED, RS_ACTIVE, RS_FAILED, RS_SUPERSEDED}"
| "route_transitions RS_VALIDATED = {RS_VALIDATED, RS_SUPERSEDED}"
| "route_transitions RS_FAILED = {RS_FAILED, RS_SUPERSEDED}"
| "route_transitions RS_SUPERSEDED = {RS_SUPERSEDED}"

fun graph_node_transitions :: "graph_node_status \<Rightarrow> graph_node_status set" where
  "graph_node_transitions NS_ACTIVE = {NS_ACTIVE, NS_WEAKENED, NS_CONFLICTED, NS_FAILED, NS_SUPERSEDED, NS_ARCHIVED}"
| "graph_node_transitions NS_WEAKENED = {NS_WEAKENED, NS_ACTIVE, NS_CONFLICTED, NS_FAILED, NS_SUPERSEDED, NS_ARCHIVED}"
| "graph_node_transitions NS_CONFLICTED = {NS_CONFLICTED, NS_WEAKENED, NS_FAILED, NS_SUPERSEDED, NS_ARCHIVED}"
| "graph_node_transitions NS_FAILED = {NS_FAILED, NS_SUPERSEDED, NS_ARCHIVED}"
| "graph_node_transitions NS_SUPERSEDED = {NS_SUPERSEDED, NS_ARCHIVED}"
| "graph_node_transitions NS_ARCHIVED = {NS_ARCHIVED}"

fun graph_edge_transitions :: "graph_edge_status \<Rightarrow> graph_edge_status set" where
  "graph_edge_transitions ES_ACTIVE = {ES_ACTIVE, ES_WEAKENED, ES_CONFLICTED, ES_INVALIDATED, ES_SUPERSEDED, ES_ARCHIVED}"
| "graph_edge_transitions ES_WEAKENED = {ES_WEAKENED, ES_ACTIVE, ES_CONFLICTED, ES_INVALIDATED, ES_SUPERSEDED, ES_ARCHIVED}"
| "graph_edge_transitions ES_CONFLICTED = {ES_CONFLICTED, ES_WEAKENED, ES_INVALIDATED, ES_SUPERSEDED, ES_ARCHIVED}"
| "graph_edge_transitions ES_INVALIDATED = {ES_INVALIDATED, ES_SUPERSEDED, ES_ARCHIVED}"
| "graph_edge_transitions ES_SUPERSEDED = {ES_SUPERSEDED, ES_ARCHIVED}"
| "graph_edge_transitions ES_ARCHIVED = {ES_ARCHIVED}"

text \<open>
  \<^verbatim>\<open>_check_transition\<close>, then the assignment of the new status: a refused transition raises
  before the object changes.
\<close>

definition check_transition ::
  "('s \<Rightarrow> string) \<Rightarrow> ('s \<Rightarrow> 's set) \<Rightarrow> 's \<Rightarrow> 's \<Rightarrow> py_error + unit" where
  "check_transition val_of table current target =
     (if target \<notin> table current
      then Inl (ValueError (''invalid transition: '' @ val_of current @ '' -> '' @ val_of target))
      else Inr ())"

text \<open>
  The statuses an object goes through under a sequence of attempted transitions. An attempt that
  is refused leaves the status as it was.
\<close>

definition attempt :: "('s \<Rightarrow> 's set) \<Rightarrow> 's \<Rightarrow> 's \<Rightarrow> 's" where
  "attempt table target current = (if target \<in> table current then target else current)"

definition attempts :: "('s \<Rightarrow> 's set) \<Rightarrow> 's list \<Rightarrow> 's \<Rightarrow> 's" where
  "attempts table targets current = fold (attempt table) targets current"

lemma attempts_simps [simp]:
  "attempts table [] s = s"
  "attempts table (t # ts) s = attempts table ts (attempt table t s)"
  by (simp_all add: attempts_def)

section \<open>Life cycles\<close>

locale lifecycle =
  fixes table :: "'s \<Rightarrow> 's set" and phase :: "'s \<Rightarrow> nat" and final :: "'s"
  assumes stay: "s \<in> table s"
    and forward: "t \<in> table s \<Longrightarrow> phase s \<le> phase t"
    and final_stuck: "table final = {final}"
    and towards_final: "s \<noteq> final \<Longrightarrow> \<exists>t\<in>table s. phase s < phase t"
    and final_last: "phase s \<le> phase final"
begin

lemma attempt_phase: "phase s \<le> phase (attempt table t s)"
  using forward by (simp add: attempt_def)

lemma attempts_phase: "phase s \<le> phase (attempts table ts s)"
proof (induction ts arbitrary: s)
  case (Cons t ts)
  have "phase s \<le> phase (attempt table t s)" by (rule attempt_phase)
  also have "\<dots> \<le> phase (attempts table ts (attempt table t s))" by (rule Cons.IH)
  finally show ?case by simp
qed simp

lemma attempts_final: "attempts table ts final = final"
  by (induction ts) (auto simp: attempt_def final_stuck)

lemma attempts_append: "attempts table (ts @ us) s = attempts table us (attempts table ts s)"
  by (simp add: attempts_def)

lemma final_reachable: "\<exists>ts. attempts table ts s = final"
proof (induction "phase final - phase s" arbitrary: s rule: less_induct)
  case less
  show ?case
  proof (cases "s = final")
    case True
    then show ?thesis by (auto intro: exI [of _ "[]"])
  next
    case False
    then obtain t where t: "t \<in> table s" "phase s < phase t" using towards_final by blast
    then have "phase final - phase t < phase final - phase s" using final_last [of t] by linarith
    then obtain ts where "attempts table ts t = final" using less by blast
    with t have "attempts table (t # ts) s = final" by (simp add: attempt_def)
    then show ?thesis by blast
  qed
qed

text \<open>A phase once left is never entered again.\<close>

lemma no_return:
  assumes "phase s < phase (attempts table ts s)"
  shows "attempts table us (attempts table ts s) \<noteq> s"
  using assms attempts_phase [of "attempts table ts s" us] by auto

end

text \<open>An object with a status that a method moves along the table.\<close>

locale status_object = lifecycle +
  fixes status :: "'r \<Rightarrow> 's" and transition_to :: "'r \<Rightarrow> pyval \<Rightarrow> py_error + 'r"
    and name_of :: "'s \<Rightarrow> string"
  assumes transition_ok: "transition_to r v = Inr r' \<Longrightarrow> status r' \<in> table (status r)"
    and accepted: "t \<in> table (status r) \<Longrightarrow>
      \<exists>r'. transition_to r (VStr (name_of t)) = Inr r' \<and> status r' = t"
    and refused: "t \<notin> table (status r) \<Longrightarrow> \<exists>e. transition_to r (VStr (name_of t)) = Inl e"
begin

text \<open>A run of the method on the names of statuses is the sequence of attempts.\<close>

lemma run_attempts:
  "status (run_calls transition_to (map (\<lambda>t. VStr (name_of t)) ts) r) = attempts table ts (status r)"
proof (induction ts arbitrary: r)
  case (Cons t ts)
  show ?case
  proof (cases "t \<in> table (status r)")
    case True
    then show ?thesis using accepted [OF True] Cons.IH by (auto simp: attempt_def)
  next
    case False
    then show ?thesis using refused [OF False] Cons.IH by (auto simp: attempt_def)
  qed
qed simp

lemma run_phase: "phase (status r) \<le> phase (status (run_calls transition_to vs r))"
proof -
  have "phase (status r) \<le> phase (status q')"
    if "phase (status r) \<le> phase (status q)" "transition_to q v = Inr q'" for q v q'
    using that forward [OF transition_ok] by (meson order_trans)
  then show ?thesis
    by (rule run_calls_invariant [where P = "\<lambda>q. phase (status r) \<le> phase (status q)"]) auto
qed

lemma run_final: "status r = final \<Longrightarrow> status (run_calls transition_to vs r) = final"
  by (rule run_calls_invariant [where P = "\<lambda>q. status q = final"])
    (use final_stuck transition_ok in force)+

lemma can_finish:
  "\<exists>ts. \<forall>vs. status (run_calls transition_to vs
      (run_calls transition_to (map (\<lambda>t. VStr (name_of t)) ts) r)) = final"
proof -
  obtain ts where "attempts table ts (status r) = final" using final_reachable by blast
  then have "status (run_calls transition_to (map (\<lambda>t. VStr (name_of t)) ts) r) = final"
    by (simp add: run_attempts)
  then show ?thesis using run_final by blast
qed

end

fun source_phase :: "source_status \<Rightarrow> nat" where
  "source_phase SS_RAW = 0"
| "source_phase SS_PARSED = 1"
| "source_phase SS_INDEXED = 2"
| "source_phase SS_EXTRACTED = 3"

fun assumption_phase :: "assumption_status \<Rightarrow> nat" where
  "assumption_phase AS_INVALIDATED = 1"
| "assumption_phase AS_ARCHIVED = 2"
| "assumption_phase _ = 0"

fun route_phase :: "route_status \<Rightarrow> nat" where
  "route_phase RS_CANDIDATE = 0"
| "route_phase RS_ACTIVE = 1"
| "route_phase RS_WEAKENED = 1"
| "route_phase RS_VALIDATED = 2"
| "route_phase RS_FAILED = 2"
| "route_phase RS_SUPERSEDED = 3"

fun node_phase :: "graph_node_status \<Rightarrow> nat" where
  "node_phase NS_FAILED = 1"
| "node_phase NS_SUPERSEDED = 2"
| "node_phase NS_ARCHIVED = 3"
| "node_phase _ = 0"

fun edge_phase :: "graph_edge_status \<Rightarrow> nat" where
  "edge_phase ES_INVALIDATED = 1"
| "edge_phase ES_SUPERSEDED = 2"
| "edge_phase ES_ARCHIVED = 3"
| "edge_phase _ = 0"

interpretation source_cycle: lifecycle source_transitions source_phase SS_EXTRACTED
proof unfold_locales
  fix s t :: source_status
  show "s \<in> source_transitions s" by (cases s) simp_all
  show "t \<in> source_transitions s \<Longrightarrow> source_phase s \<le> source_phase t" by (cases s) auto
  show "s \<noteq> SS_EXTRACTED \<Longrightarrow> \<exists>t\<in>source_transitions s. source_phase s < source_phase t"
    by (cases s) auto
  show "source_phase s \<le> source_phase SS_EXTRACTED" by (cases s) simp_all
qed simp

interpretation assumption_cycle: lifecycle assumption_transitions assumption_phase AS_ARCHIVED
proof unfold_locales
  fix s t :: assumption_status
  show "s \<in> assumption_transitions s" by (cases s) simp_all
  show "t \<in> assumption_transitions s \<Longrightarrow> assumption_phase s \<le> assumption_phase t"
    by (cases s) auto
  show "s \<noteq> AS_ARCHIVED \<Longrightarrow> \<exists>t\<in>assumption_transitions s. assumption_phase s < assumption_phase t"
    by (cases s) auto
  show "assumption_phase s \<le> assumption_phase AS_ARCHIVED" by (cases s) simp_all
qed simp

interpretation route_cycle: lifecycle route_transitions route_phase RS_SUPERSEDED
proof unfold_locales
  fix s t :: route_status
  show "s \<in> route_transitions s" by (cases s) simp_all
  show "t \<in> route_transitions s \<Longrightarrow> route_phase s \<le> route_phase t" by (cases s) auto
  show "s \<noteq> RS_SUPERSEDED \<Longrightarrow> \<exists>t\<in>route_transitions s. route_phase s < route_phase t"
    by (cases s) auto
  show "route_phase s \<le> route_phase RS_SUPERSEDED" by (cases s) simp_all
qed simp

interpretation node_cycle: lifecycle graph_node_transitions node_phase NS_ARCHIVED
proof unfold_locales
  fix s t :: graph_node_status
  show "s \<in> graph_node_transitions s" by (cases s) simp_all
  show "t \<in> graph_node_transitions s \<Longrightarrow> node_phase s \<le> node_phase t" by (cases s) auto
  show "s \<noteq> NS_ARCHIVED \<Longrightarrow> \<exists>t\<in>graph_node_transitions s. node_phase s < node_phase t"
    by (cases s) auto
  show "node_phase s \<le> node_phase NS_ARCHIVED" by (cases s) simp_all
qed simp

interpretation edge_cycle: lifecycle graph_edge_transitions edge_phase ES_ARCHIVED
proof unfold_locales
  fix s t :: graph_edge_status
  show "s \<in> graph_edge_transitions s" by (cases s) simp_all
  show "t \<in> graph_edge_transitions s \<Longrightarrow> edge_phase s \<le> edge_phase t" by (cases s) auto
  show "s \<noteq> ES_ARCHIVED \<Longrightarrow> \<exists>t\<in>graph_edge_transitions s. edge_phase s < edge_phase t"
    by (cases s) auto
  show "edge_phase s \<le> edge_phase ES_ARCHIVED" by (cases s) simp_all
qed simp

text \<open>The statuses of a source are linearly ordered by their stage in the pipeline.\<close>

instantiation source_status :: linorder
begin

definition less_eq_source_status :: "source_status \<Rightarrow> source_status \<Rightarrow> bool" where
  "less_eq_source_status s t \<longleftrightarrow> source_phase s \<le> source_phase t"

definition less_source_status :: "source_status \<Rightarrow> source_status \<Rightarrow> bool" where
  "less_source_status s t \<longleftrightarrow> source_phase s < source_phase t"

instance
proof
  fix s t u :: source_status
  show "s \<le> t \<Longrightarrow> t \<le> s \<Longrightarrow> s = t"
    by (cases s; cases t) (simp_all add: less_eq_source_status_def)
qed (auto simp: less_eq_source_status_def less_source_status_def)

end

end
