(* ===== verification/DomainModels.thy ===== *)
theory DomainModels
  imports DomainEnums
begin

text \<open>
  The value objects and the domain classes of
  \<^verbatim>\<open>research_layer/domain/value_objects/research_value_objects.py\<close> and
  \<^verbatim>\<open>research_layer/domain/models/research_domain.py\<close>.

  Every class is a record; \<open>C_new\<close> is its constructor with \<^verbatim>\<open>__post_init__\<close>: the
  arguments annotated \<^verbatim>\<open>str\<close> or with an enumeration are untyped values, as Python passes
  them, and the checks run in the source's order. \<open>C_to_dict\<close> and \<open>C_from_dict\<close> are the
  two serialisation methods; \<open>C_from_dict\<close> first evaluates the keyword arguments in their
  order, then runs the constructor. \<open>valid_C\<close> is what the constructor establishes. The
  interface \<open>serializable\<close> is the contract between the two methods, discharged for every
  class.
\<close>

section \<open>The serialisation contract\<close>

locale serializable =
  fixes to_dict :: "'r \<Rightarrow> payload" and from_dict :: "payload \<Rightarrow> py_error + 'r"
    and valid :: "'r \<Rightarrow> bool"
  assumes roundtrip: "valid r \<Longrightarrow> from_dict (to_dict r) = Inr r"
    and parsed_valid: "from_dict p = Inr r \<Longrightarrow> valid r"
begin

lemma reparse: "from_dict p = Inr r \<Longrightarrow> from_dict (to_dict r) = Inr r"
  by (rule roundtrip) (rule parsed_valid)

lemma to_dict_inject: "valid r \<Longrightarrow> valid s \<Longrightarrow> to_dict r = to_dict s \<Longrightarrow> r = s"
  by (metis roundtrip sum.inject(2))

lemma batch_roundtrip: "(\<And>r. r \<in> set rs \<Longrightarrow> valid r) \<Longrightarrow> rmap from_dict (map to_dict rs) = Inr rs"
  by (rule rmap_map_Inr) (rule roundtrip)

end

section \<open>Validation helpers\<close>

definition non_empty :: "pyval \<Rightarrow> string \<Rightarrow> py_error + string" where
  "non_empty v field_name =
     rbind (as_string v) (\<lambda>s.
       if strip s = [] then Inl (ValueError (field_name @ '' cannot be empty''))
       else Inr (strip s))"

definition alnum :: "char \<Rightarrow> bool" where
  "alnum c =
     (let n = code_point c
      in 65 \<le> n \<and> n \<le> 90 \<or> 97 \<le> n \<and> n \<le> 122 \<or> 48 \<le> n \<and> n \<le> 57)"

text \<open>The pattern \<^verbatim>\<open>^[A-Za-z0-9][A-Za-z0-9_\-:.]{2,63}$\<close> on a stripped string.\<close>

definition workspace_pattern :: "string \<Rightarrow> bool" where
  "workspace_pattern s =
     (case s of [] \<Rightarrow> False
      | c # cs \<Rightarrow>
          alnum c \<and> 2 \<le> length cs \<and> length cs \<le> 63 \<and>
          list_all (\<lambda>d. alnum d \<or> d \<in> {CHR ''_'', CHR ''-'', CHR '':'', CHR ''.''}) cs)"

definition validate_workspace_id :: "pyval \<Rightarrow> py_error + string" where
  "validate_workspace_id v =
     rbind (as_string v) (\<lambda>s.
       if \<not> workspace_pattern (strip s)
       then Inl (ValueError (''workspace_id must match ^[A-Za-z0-9][A-Za-z0-9_'' @ [CHR 0x5C] @ ''-:.]{2,63}$''))
       else Inr (strip s))"

definition workspace_id_ok :: "string \<Rightarrow> bool" where
  "workspace_id_ok s \<longleftrightarrow> workspace_pattern s \<and> strip s = s"

lemma non_empty_Inr_iff:
  "non_empty v f = Inr s \<longleftrightarrow> (\<exists>t. v = VStr t \<and> s = strip t \<and> strip t \<noteq> [])"
  by (cases v) (auto simp: non_empty_def)

lemma non_empty_stripped: "non_empty v f = Inr s \<Longrightarrow> stripped s"
  by (auto simp: non_empty_Inr_iff stripped_strip)

lemma non_empty_keeps: "stripped s \<Longrightarrow> non_empty (VStr s) f = Inr s"
  by (simp add: non_empty_def strip_stripped) (simp add: stripped_def)

lemma validate_workspace_id_ok: "validate_workspace_id v = Inr s \<Longrightarrow> workspace_id_ok s"
  by (cases v) (auto simp: validate_workspace_id_def workspace_id_ok_def split: if_splits)

lemma validate_workspace_id_keeps: "workspace_id_ok s \<Longrightarrow> validate_workspace_id (VStr s) = Inr s"
  by (simp add: validate_workspace_id_def workspace_id_ok_def)

lemma subscript_simps:
  "subscript ((k, v) # d) k' = (if k' = k then Inr v else subscript d k')"
  "subscript [] k' = Inl (KeyError k')"
  by (simp_all add: subscript_def)

lemmas roundtrip_simps = subscript_simps non_empty_keeps validate_workspace_id_keeps

lemmas parsed_simps = rbind_Inr_iff non_empty_stripped validate_workspace_id_ok fromisoformat_valid

section \<open>Value objects\<close>

text \<open>\<^verbatim>\<open>TopFactor\<close> and \<^verbatim>\<open>ScoreMeta\<close>.\<close>

record top_factor =
  tf_name :: string
  tf_score :: rat

record score_meta =
  sm_support :: rat
  sm_risk :: rat
  sm_progressability :: rat

definition unit_interval :: "rat \<Rightarrow> bool" where
  "unit_interval x \<longleftrightarrow> 0 \<le> x \<and> x \<le> 1"

definition top_factor_new :: "string \<Rightarrow> rat \<Rightarrow> py_error + top_factor" where
  "top_factor_new name score =
     (if strip name = [] then Inl (ValueError ''top factor name cannot be empty'')
      else if \<not> (0 \<le> score \<and> score \<le> 1) then Inl (ValueError ''top factor score must be in [0, 1]'')
      else Inr \<lparr>tf_name = strip name, tf_score = score\<rparr>)"

definition top_factor_to_dict :: "top_factor \<Rightarrow> payload" where
  "top_factor_to_dict f = [(''name'', VStr (tf_name f)), (''score'', VFloat (tf_score f))]"

definition top_factor_from_dict :: "payload \<Rightarrow> py_error + top_factor" where
  "top_factor_from_dict p =
     rbind (rbind (subscript p ''name'') py_str) (\<lambda>name.
     rbind (rbind (subscript p ''score'') py_float) (\<lambda>score.
       top_factor_new name score))"

definition valid_top_factor :: "top_factor \<Rightarrow> bool" where
  "valid_top_factor f \<longleftrightarrow> stripped (tf_name f) \<and> unit_interval (tf_score f)"

definition score_meta_new :: "rat \<Rightarrow> rat \<Rightarrow> rat \<Rightarrow> py_error + score_meta" where
  "score_meta_new support risk progressability =
     (if \<not> (0 \<le> support \<and> support \<le> 1) then Inl (ValueError ''support must be in [0, 1]'')
      else if \<not> (0 \<le> risk \<and> risk \<le> 1) then Inl (ValueError ''risk must be in [0, 1]'')
      else if \<not> (0 \<le> progressability \<and> progressability \<le> 1)
      then Inl (ValueError ''progressability must be in [0, 1]'')
      else Inr \<lparr>sm_support = support, sm_risk = risk, sm_progressability = progressability\<rparr>)"

definition score_meta_to_dict :: "score_meta \<Rightarrow> payload" where
  "score_meta_to_dict m =
     [(''support'', VFloat (sm_support m)),
      (''risk'', VFloat (sm_risk m)),
      (''progressability'', VFloat (sm_progressability m))]"

definition score_meta_from_dict :: "payload \<Rightarrow> py_error + score_meta" where
  "score_meta_from_dict p =
     rbind (rbind (subscript p ''support'') py_float) (\<lambda>support.
     rbind (rbind (subscript p ''risk'') py_float) (\<lambda>risk.
     rbind (rbind (subscript p ''progressability'') py_float) (\<lambda>progressability.
       score_meta_new support risk progressability)))"

definition valid_score_meta :: "score_meta \<Rightarrow> bool" where
  "valid_score_meta m \<longleftrightarrow>
     unit_interval (sm_support m) \<and> unit_interval (sm_risk m) \<and> unit_interval (sm_progressability m)"

interpretation top_factor: serializable top_factor_to_dict top_factor_from_dict valid_top_factor
proof unfold_locales
  fix f
  assume "valid_top_factor f"
  then show "top_factor_from_dict (top_factor_to_dict f) = Inr f"
    by (auto simp: top_factor_from_dict_def top_factor_to_dict_def top_factor_new_def
        valid_top_factor_def unit_interval_def subscript_simps strip_stripped)
      (simp add: stripped_def)
next
  fix p f
  assume "top_factor_from_dict p = Inr f"
  then show "valid_top_factor f"
    by (auto simp: top_factor_from_dict_def top_factor_new_def valid_top_factor_def
        unit_interval_def rbind_Inr_iff stripped_strip split: if_splits)
qed

interpretation score_meta: serializable score_meta_to_dict score_meta_from_dict valid_score_meta
proof unfold_locales
  fix m
  assume "valid_score_meta m"
  then show "score_meta_from_dict (score_meta_to_dict m) = Inr m"
    by (simp add: score_meta_from_dict_def score_meta_to_dict_def score_meta_new_def
        valid_score_meta_def unit_interval_def subscript_simps)
next
  fix p m
  assume "score_meta_from_dict p = Inr m"
  then show "valid_score_meta m"
    by (auto simp: score_meta_from_dict_def score_meta_new_def valid_score_meta_def
        unit_interval_def rbind_Inr_iff split: if_splits)
qed

section \<open>Domain classes\<close>

subsection \<open>ResearchSource\<close>

record research_source =
  src_source_id :: string
  src_workspace_id :: string
  src_source_type :: source_type
  src_title :: string
  src_raw_content :: string
  src_normalized_content :: string
  src_metadata :: payload
  src_status :: source_status
  src_created_at :: datetime
  src_updated_at :: datetime

definition research_source_new ::
  "pyval \<Rightarrow> pyval \<Rightarrow> pyval \<Rightarrow> pyval \<Rightarrow> pyval \<Rightarrow> pyval \<Rightarrow> payload \<Rightarrow> pyval \<Rightarrow> datetime \<Rightarrow> datetime \<Rightarrow> py_error + research_source"
where
  "research_source_new source_id workspace_id source_type title raw_content normalized_content metadata status created_at updated_at =
     rbind (non_empty source_id ''source_id'') (\<lambda>source_id.
     rbind (validate_workspace_id workspace_id) (\<lambda>workspace_id.
     rbind (coerce_enum source_type_members source_type_value source_type) (\<lambda>source_type.
     rbind (non_empty title ''title'') (\<lambda>title.
     rbind (non_empty raw_content ''raw_content'') (\<lambda>raw_content.
     rbind (non_empty normalized_content ''normalized_content'') (\<lambda>normalized_content.
     rbind (coerce_enum source_status_members source_status_value status) (\<lambda>status.
       Inr \<lparr>src_source_id = source_id,
            src_workspace_id = workspace_id,
            src_source_type = source_type,
            src_title = title,
            src_raw_content = raw_content,
            src_normalized_content = normalized_content,
            src_metadata = metadata,
            src_status = status,
            src_created_at = created_at,
            src_updated_at = updated_at\<rparr>)))))))"

definition valid_research_source :: "research_source \<Rightarrow> bool" where
  "valid_research_source r \<longleftrightarrow>
     stripped (src_source_id r) \<and>
     workspace_id_ok (src_workspace_id r) \<and>
     stripped (src_title r) \<and>
     stripped (src_raw_content r) \<and>
     stripped (src_normalized_content r) \<and>
     valid_datetime (src_created_at r) \<and>
     valid_datetime (src_updated_at r)"

definition research_source_to_dict :: "research_source \<Rightarrow> payload" where
  "research_source_to_dict r =
     [(''source_id'', VStr (src_source_id r)),
      (''workspace_id'', VStr (src_workspace_id r)),
      (''source_type'', VStr (source_type_value (src_source_type r))),
      (''title'', VStr (src_title r)),
      (''raw_content'', VStr (src_raw_content r)),
      (''normalized_content'', VStr (src_normalized_content r)),
      (''metadata'', VDict (src_metadata r)),
      (''status'', VStr (source_status_value (src_status r))),
      (''created_at'', VStr (isoformat (src_created_at r))),
      (''updated_at'', VStr (isoformat (src_updated_at r)))]"

definition research_source_from_dict :: "payload \<Rightarrow> py_error + research_source" where
  "research_source_from_dict p =
     rbind (subscript p ''source_id'') (\<lambda>source_id.
     rbind (subscript p ''workspace_id'') (\<lambda>workspace_id.
     rbind (rbind (subscript p ''source_type'') (coerce_enum source_type_members source_type_value)) (\<lambda>source_type.
     rbind (subscript p ''title'') (\<lambda>title.
     rbind (subscript p ''raw_content'') (\<lambda>raw_content.
     rbind (subscript p ''normalized_content'') (\<lambda>normalized_content.
     rbind (rbind (subscript p ''metadata'') py_dict) (\<lambda>metadata.
     rbind (rbind (subscript p ''status'') (coerce_enum source_status_members source_status_value)) (\<lambda>status.
     rbind (rbind (subscript p ''created_at'') fromisoformat) (\<lambda>created_at.
     rbind (rbind (subscript p ''updated_at'') fromisoformat) (\<lambda>updated_at.
       research_source_new source_id workspace_id (VStr (source_type_value source_type)) title raw_content normalized_content metadata (VStr (source_status_value status)) created_at updated_at))))))))))"

interpretation research_source: serializable research_source_to_dict research_source_from_dict valid_research_source
proof unfold_locales
  fix r
  assume "valid_research_source r"
  then show "research_source_from_dict (research_source_to_dict r) = Inr r"
    by (simp add: research_source_from_dict_def research_source_to_dict_def research_source_new_def valid_research_source_def roundtrip_simps)
next
  fix p r
  assume "research_source_from_dict p = Inr r"
  then show "valid_research_source r"
    by (clarsimp simp: research_source_from_dict_def research_source_new_def valid_research_source_def parsed_simps)
qed

subsection \<open>ResearchEvidence\<close>

record research_evidence =
  evd_evidence_id :: string
  evd_workspace_id :: string
  evd_source_id :: string
  evd_evidence_type :: evidence_type
  evd_span_text :: string
  evd_normalized_text :: string
  evd_citation_ref :: string
  evd_relation_to_prior_work :: prior_work_relation
  evd_user_confirmed :: bool
  evd_confidence_hint :: rat

definition research_evidence_new ::
  "pyval \<Rightarrow> pyval \<Rightarrow> pyval \<Rightarrow> pyval \<Rightarrow> pyval \<Rightarrow> pyval \<Rightarrow> pyval \<Rightarrow> pyval \<Rightarrow> bool \<Rightarrow> rat \<Rightarrow> py_error + research_evidence"
where
  "research_evidence_new evidence_id workspace_id source_id evidence_type span_text normalized_text citation_ref relation_to_prior_work user_confirmed confidence_hint =
     rbind (non_empty evidence_id ''evidence_id'') (\<lambda>evidence_id.
     rbind (validate_workspace_id workspace_id) (\<lambda>workspace_id.
     rbind (non_empty source_id ''source_id'') (\<lambda>source_id.
     rbind (coerce_enum evidence_type_members evidence_type_value evidence_type) (\<lambda>evidence_type.
     rbind (non_empty span_text ''span_text'') (\<lambda>span_text.
     rbind (non_empty normalized_text ''normalized_text'') (\<lambda>normalized_text.
     rbind (non_empty citation_ref ''citation_ref'') (\<lambda>citation_ref.
     rbind (coerce_enum prior_work_relation_members prior_work_relation_value relation_to_prior_work) (\<lambda>relation_to_prior_work.
     rbind (guard_else (ValueError ''confidence_hint must be in [0, 1]'') (0 \<le> confidence_hint \<and> confidence_hint \<le> 1)) (\<lambda>_.
       Inr \<lparr>evd_evidence_id = evidence_id,
            evd_workspace_id = workspace_id,
            evd_source_id = source_id,
            evd_evidence_type = evidence_type,
            evd_span_text = span_text,
            evd_normalized_text = normalized_text,
            evd_citation_ref = citation_ref,
            evd_relation_to_prior_work = relation_to_prior_work,
            evd_user_confirmed = user_confirmed,
            evd_confidence_hint = confidence_hint\<rparr>)))))))))"

definition valid_research_evidence :: "research_evidence \<Rightarrow> bool" where
  "valid_research_evidence r \<longleftrightarrow>
     stripped (evd_evidence_id r) \<and>
     workspace_id_ok (evd_workspace_id r) \<and>
     stripped (evd_source_id r) \<and>
     stripped (evd_span_text r) \<and>
     stripped (evd_normalized_text r) \<and>
     stripped (evd_citation_ref r) \<and>
     0 \<le> evd_confidence_hint r \<and> evd_confidence_hint r \<le> 1"

definition research_evidence_to_dict :: "research_evidence \<Rightarrow> payload" where
  "research_evidence_to_dict r =
     [(''evidence_id'', VStr (evd_evidence_id r)),
      (''workspace_id'', VStr (evd_workspace_id r)),
      (''source_id'', VStr (evd_source_id r)),
      (''evidence_type'', VStr (evidence_type_value (evd_evidence_type r))),
      (''span_text'', VStr (evd_span_text r)),
      (''normalized_text'', VStr (evd_normalized_text r)),
      (''citation_ref'', VStr (evd_citation_ref r)),
      (''relation_to_prior_work'', VStr (prior_work_relation_value (evd_relation_to_prior_work r))),
      (''user_confirmed'', VBool (evd_user_confirmed r)),
      (''confidence_hint'', VFloat (evd_confidence_hint r))]"

definition research_evidence_from_dict :: "payload \<Rightarrow> py_error + research_evidence" where
  "research_evidence_from_dict p =
     rbind (subscript p ''evidence_id'') (\<lambda>evidence_id.
     rbind (subscript p ''workspace_id'') (\<lambda>workspace_id.
     rbind (subscript p ''source_id'') (\<lambda>source_id.
     rbind (rbind (subscript p ''evidence_type'') (coerce_enum evidence_type_members evidence_type_value)) (\<lambda>evidence_type.
     rbind (subscript p ''span_text'') (\<lambda>span_text.
     rbind (subscript p ''normalized_text'') (\<lambda>normalized_text.
     rbind (subscript p ''citation_ref'') (\<lambda>citation_ref.
     rbind (rbind (subscript p ''relation_to_prior_work'') (coerce_enum prior_work_relation_members prior_work_relation_value)) (\<lambda>relation_to_prior_work.
     rbind (subscript p ''user_confirmed'') (\<lambda>user_confirmed.
     rbind (rbind (subscript p ''confidence_hint'') py_float) (\<lambda>confidence_hint.
       research_evidence_new evidence_id workspace_id source_id (VStr (evidence_type_value evidence_type)) span_text normalized_text citation_ref (VStr (prior_work_relation_value relation_to_prior_work)) (py_bool user_confirmed) confidence_hint))))))))))"

interpretation research_evidence: serializable research_evidence_to_dict research_evidence_from_dict valid_research_evidence
proof unfold_locales
  fix r
  assume "valid_research_evidence r"
  then show "research_evidence_from_dict (research_evidence_to_dict r) = Inr r"
    by (simp add: research_evidence_from_dict_def research_evidence_to_dict_def research_evidence_new_def valid_research_evidence_def roundtrip_simps)
next
  fix p r
  assume "research_evidence_from_dict p = Inr r"
  then show "valid_research_evidence r"
    by (clarsimp simp: research_evidence_from_dict_def research_evidence_new_def valid_research_evidence_def parsed_simps)
qed

subsection \<open>ResearchAssumption\<close>

record research_assumption =
  asm_assumption_id :: string
  asm_workspace_id :: string
  asm_text :: string
  asm_assumption_type :: assumption_type
  asm_depends_on_evidence_ids :: "pyval list"
  asm_burden_score :: rat
  asm_status :: assumption_status

definition research_assumption_new ::
  "pyval \<Rightarrow> pyval \<Rightarrow> pyval \<Rightarrow> pyval \<Rightarrow> pyval list \<Rightarrow> rat \<Rightarrow> pyval \<Rightarrow> py_error + research_assumption"
where
  "research_assumption_new assumption_id workspace_id text assumption_type depends_on_evidence_ids burden_score status =
     rbind (non_empty assumption_id ''assumption_id'') (\<lambda>assumption_id.
     rbind (validate_workspace_id workspace_id) (\<lambda>workspace_id.
     rbind (non_empty text ''text'') (\<lambda>text.
     rbind (coerce_enum assumption_type_members assumption_type_value assumption_type) (\<lambda>assumption_type.
     rbind (guard_else (ValueError ''burden_score must be >= 0'') (0 \<le> burden_score)) (\<lambda>_.
     rbind (coerce_enum assumption_status_members assumption_status_value status) (\<lambda>status.
       Inr \<lparr>asm_assumption_id = assumption_id,
            asm_workspace_id = workspace_id,
            asm_text = text,
            asm_assumption_type = assumption_type,
            asm_depends_on_evidence_ids = depends_on_evidence_ids,
            asm_burden_score = burden_score,
            asm_status = status\<rparr>))))))"

definition valid_research_assumption :: "research_assumption \<Rightarrow> bool" where
  "valid_research_assumption r \<longleftrightarrow>
     stripped (asm_assumption_id r) \<and>
     workspace_id_ok (asm_workspace_id r) \<and>
     stripped (asm_text r) \<and>
     0 \<le> asm_burden_score r"

definition research_assumption_to_dict :: "research_assumption \<Rightarrow> payload" where
  "research_assumption_to_dict r =
     [(''assumption_id'', VStr (asm_assumption_id r)),
      (''workspace_id'', VStr (asm_workspace_id r)),
      (''text'', VStr (asm_text r)),
      (''assumption_type'', VStr (assumption_type_value (asm_assumption_type r))),
      (''depends_on_evidence_ids'', VList (asm_depends_on_evidence_ids r)),
      (''burden_score'', VFloat (asm_burden_score r)),
      (''status'', VStr (assumption_status_value (asm_status r)))]"

definition research_assumption_from_dict :: "payload \<Rightarrow> py_error + research_assumption" where
  "research_assumption_from_dict p =
     rbind (subscript p ''assumption_id'') (\<lambda>assumption_id.
     rbind (subscript p ''workspace_id'') (\<lambda>workspace_id.
     rbind (subscript p ''text'') (\<lambda>text.
     rbind (rbind (subscript p ''assumption_type'') (coerce_enum assumption_type_members assumption_type_value)) (\<lambda>assumption_type.
     rbind (rbind (subscript p ''depends_on_evidence_ids'') py_list) (\<lambda>depends_on_evidence_ids.
     rbind (rbind (subscript p ''burden_score'') py_float) (\<lambda>burden_score.
     rbind (rbind (subscript p ''status'') (coerce_enum assumption_status_members assumption_status_value)) (\<lambda>status.
       research_assumption_new assumption_id workspace_id text (VStr (assumption_type_value assumption_type)) depends_on_evidence_ids burden_score (VStr (assumption_status_value status)))))))))"

interpretation research_assumption: serializable research_assumption_to_dict research_assumption_from_dict valid_research_assumption
proof unfold_locales
  fix r
  assume "valid_research_assumption r"
  then show "research_assumption_from_dict (research_assumption_to_dict r) = Inr r"
    by (simp add: research_assumption_from_dict_def research_assumption_to_dict_def research_assumption_new_def valid_research_assumption_def roundtrip_simps)
next
  fix p r
  assume "research_assumption_from_dict p = Inr r"
  then show "valid_research_assumption r"
    by (clarsimp simp: research_assumption_from_dict_def research_assumption_new_def valid_research_assumption_def parsed_simps)
qed

subsection \<open>FailureReport\<close>

record failure_report =
  flr_failure_id :: string
  flr_workspace_id :: string
  flr_attached_targets :: "pyval list"
  flr_observed_outcome :: string
  flr_expected_difference :: string
  flr_failure_reason :: string
  flr_severity :: failure_severity
  flr_reporter :: string
  flr_timestamp :: datetime

definition failure_report_new ::
  "pyval \<Rightarrow> pyval \<Rightarrow> pyval list \<Rightarrow> pyval \<Rightarrow> pyval \<Rightarrow> pyval \<Rightarrow> pyval \<Rightarrow> pyval \<Rightarrow> datetime \<Rightarrow> py_error + failure_report"
where
  "failure_report_new failure_id workspace_id attached_targets observed_outcome expected_difference failure_reason severity reporter timestamp =
     rbind (non_empty failure_id ''failure_id'') (\<lambda>failure_id.
     rbind (validate_workspace_id workspace_id) (\<lambda>workspace_id.
     rbind (guard_else (ValueError ''attached_targets cannot be empty'') (attached_targets \<noteq> [])) (\<lambda>_.
     rbind (non_empty observed_outcome ''observed_outcome'') (\<lambda>observed_outcome.
     rbind (non_empty expected_difference ''expected_difference'') (\<lambda>expected_difference.
     rbind (non_empty failure_reason ''failure_reason'') (\<lambda>failure_reason.
     rbind (coerce_enum failure_severity_members failure_severity_value severity) (\<lambda>severity.
     rbind (non_empty reporter ''reporter'') (\<lambda>reporter.
       Inr \<lparr>flr_failure_id = failure_id,
            flr_workspace_id = workspace_id,
            flr_attached_targets = attached_targets,
            flr_observed_outcome = observed_outcome,
            flr_expected_difference = expected_difference,
            flr_failure_reason = failure_reason,
            flr_severity = severity,
            flr_reporter = reporter,
            flr_timestamp = timestamp\<rparr>))))))))"

definition valid_failure_report :: "failure_report \<Rightarrow> bool" where
  "valid_failure_report r \<longleftrightarrow>
     stripped (flr_failure_id r) \<and>
     workspace_id_ok (flr_workspace_id r) \<and>
     flr_attached_targets r \<noteq> [] \<and>
     stripped (flr_observed_outcome r) \<and>
     stripped (flr_expected_difference r) \<and>
     stripped (flr_failure_reason r) \<and>
     stripped (flr_reporter r) \<and>
     valid_datetime (flr_timestamp r)"

definition failure_report_to_dict :: "failure_report \<Rightarrow> payload" where
  "failure_report_to_dict r =
     [(''failure_id'', VStr (flr_failure_id r)),
      (''workspace_id'', VStr (flr_workspace_id r)),
      (''attached_targets'', VList (flr_attached_targets r)),
      (''observed_outcome'', VStr (flr_observed_outcome r)),
      (''expected_difference'', VStr (flr_expected_difference r)),
      (''failure_reason'', VStr (flr_failure_reason r)),
      (''severity'', VStr (failure_severity_value (flr_severity r))),
      (''reporter'', VStr (flr_reporter r)),
      (''timestamp'', VStr (isoformat (flr_timestamp r)))]"

definition failure_report_from_dict :: "payload \<Rightarrow> py_error + failure_report" where
  "failure_report_from_dict p =
     rbind (subscript p ''failure_id'') (\<lambda>failure_id.
     rbind (subscript p ''workspace_id'') (\<lambda>workspace_id.
     rbind (rbind (subscript p ''attached_targets'') py_list) (\<lambda>attached_targets.
     rbind (subscript p ''observed_outcome'') (\<lambda>observed_outcome.
     rbind (subscript p ''expected_difference'') (\<lambda>expected_difference.
     rbind (subscript p ''failure_reason'') (\<lambda>failure_reason.
     rbind (rbind (subscript p ''severity'') (coerce_enum failure_severity_members failure_severity_value)) (\<lambda>severity.
     rbind (subscript p ''reporter'') (\<lambda>reporter.
     rbind (rbind (subscript p ''timestamp'') fromisoformat) (\<lambda>timestamp.
       failure_report_new failure_id workspace_id attached_targets observed_outcome expected_difference failure_reason (VStr (failure_severity_value severity)) reporter timestamp)))))))))"

interpretation failure_report: serializable failure_report_to_dict failure_report_from_dict valid_failure_report
proof unfold_locales
  fix r
  assume "valid_failure_report r"
  then show "failure_report_from_dict (failure_report_to_dict r) = Inr r"
    by (simp add: failure_report_from_dict_def failure_report_to_dict_def failure_report_new_def valid_failure_report_def roundtrip_simps)
next
  fix p r
  assume "failure_report_from_dict p = Inr r"
  then show "valid_failure_report r"
    by (clarsimp simp: failure_report_from_dict_def failure_report_new_def valid_failure_report_def parsed_simps)
qed

subsection \<open>ValidationAction\<close>

record validation_action =
  vac_action_id :: string
  vac_workspace_id :: string
  vac_target_object :: string
  vac_method :: string
  vac_success_signal :: string
  vac_weakening_signal :: string
  vac_cost_level :: validation_level
  vac_time_level :: validation_level
  vac_domain_template :: string

definition validation_action_new ::
  "pyval \<Rightarrow> pyval \<Rightarrow> pyval \<Rightarrow> pyval \<Rightarrow> pyval \<Rightarrow> pyval \<Rightarrow> pyval \<Rightarrow> pyval \<Rightarrow> pyval \<Rightarrow> py_error + validation_action"
where
  "validation_action_new action_id workspace_id target_object method success_signal weakening_signal cost_level time_level domain_template =
     rbind (non_empty action_id ''action_id'') (\<lambda>action_id.
     rbind (validate_workspace_id workspace_id) (\<lambda>workspace_id.
     rbind (non_empty target_object ''target_object'') (\<lambda>target_object.
     rbind (non_empty method ''method'') (\<lambda>method.
     rbind (non_empty success_signal ''success_signal'') (\<lambda>success_signal.
     rbind (non_empty weakening_signal ''weakening_signal'') (\<lambda>weakening_signal.
     rbind (coerce_enum validation_level_members validation_level_value cost_level) (\<lambda>cost_level.
     rbind (coerce_enum validation_level_members validation_level_value time_level) (\<lambda>time_level.
     rbind (non_empty domain_template ''domain_template'') (\<lambda>domain_template.
       Inr \<lparr>vac_action_id = action_id,
            vac_workspace_id = workspace_id,
            vac_target_object = target_object,
            vac_method = method,
            vac_success_signal = success_signal,
            vac_weakening_signal = weakening_signal,
            vac_cost_level = cost_level,
            vac_time_level = time_level,
            vac_domain_template = domain_template\<rparr>)))))))))"

definition valid_validation_action :: "validation_action \<Rightarrow> bool" where
  "valid_validation_action r \<longleftrightarrow>
     stripped (vac_action_id r) \<and>
     workspace_id_ok (vac_workspace_id r) \<and>
     stripped (vac_target_object r) \<and>
     stripped (vac_method r) \<and>
     stripped (vac_success_signal r) \<and>
     stripped (vac_weakening_signal r) \<and>
     stripped (vac_domain_template r)"

definition validation_action_to_dict :: "validation_action \<Rightarrow> payload" where
  "validation_action_to_dict r =
     [(''action_id'', VStr (vac_action_id r)),
      (''workspace_id'', VStr (vac_workspace_id r)),
      (''target_object'', VStr (vac_target_object r)),
      (''method'', VStr (vac_method r)),
      (''success_signal'', VStr (vac_success_signal r)),
      (''weakening_signal'', VStr (vac_weakening_signal r)),
      (''cost_level'', VStr (validation_level_value (vac_cost_level r))),
      (''time_level'', VStr (validation_level_value (vac_time_level r))),
      (''domain_template'', VStr (vac_domain_template r))]"

definition validation_action_from_dict :: "payload \<Rightarrow> py_error + validation_action" where
  "validation_action_from_dict p =
     rbind (subscript p ''action_id'') (\<lambda>action_id.
     rbind (subscript p ''workspace_id'') (\<lambda>workspace_id.
     rbind (subscript p ''target_object'') (\<lambda>target_object.
     rbind (subscript p ''method'') (\<lambda>method.
     rbind (subscript p ''success_signal'') (\<lambda>success_signal.
     rbind (subscript p ''weakening_signal'') (\<lambda>weakening_signal.
     rbind (rbind (subscript p ''cost_level'') (coerce_enum validation_level_members validation_level_value)) (\<lambda>cost_level.
     rbind (rbind (subscript p ''time_level'') (coerce_enum validation_level_members validation_level_value)) (\<lambda>time_level.
     rbind (subscript p ''domain_template'') (\<lambda>domain_template.
       validation_action_new action_id workspace_id target_object method success_signal weakening_signal (VStr (validation_level_value cost_level)) (VStr (validation_level_value time_level)) domain_template)))))))))"

interpretation validation_action: serializable validation_action_to_dict validation_action_from_dict valid_validation_action
proof unfold_locales
  fix r
  assume "valid_validation_action r"
  then show "validation_action_from_dict (validation_action_to_dict r) = Inr r"
    by (simp add: validation_action_from_dict_def validation_action_to_dict_def validation_action_new_def valid_validation_action_def roundtrip_simps)
next
  fix p r
  assume "validation_action_from_dict p = Inr r"
  then show "valid_validation_action r"
    by (clarsimp simp: validation_action_from_dict_def validation_action_new_def valid_validation_action_def parsed_simps)
qed

subsection \<open>GraphEdge\<close>

record graph_edge =
  edg_edge_id :: string
  edg_workspace_id :: string
  edg_source_node_id :: string
  edg_target_node_id :: string
  edg_edge_type :: graph_edge_type
  edg_strength :: rat
  edg_status :: graph_edge_status
  edg_attached_evidence_ids :: "pyval list"
  edg_affected_by_failure_ids :: "pyval list"

definition graph_edge_new ::
  "pyval \<Rightarrow> pyval \<Rightarrow> pyval \<Rightarrow> pyval \<Rightarrow> pyval \<Rightarrow> rat \<Rightarrow> pyval \<Rightarrow> pyval list \<Rightarrow> pyval list \<Rightarrow> py_error + graph_edge"
where
  "graph_edge_new edge_id workspace_id source_node_id target_node_id edge_type strength status attached_evidence_ids affected_by_failure_ids =
     rbind (non_empty edge_id ''edge_id'') (\<lambda>edge_id.
     rbind (validate_workspace_id workspace_id) (\<lambda>workspace_id.
     rbind (non_empty source_node_id ''source_node_id'') (\<lambda>source_node_id.
     rbind (non_empty target_node_id ''target_node_id'') (\<lambda>target_node_id.
     rbind (coerce_enum graph_edge_type_members graph_edge_type_value edge_type) (\<lambda>edge_type.
     rbind (guard_else (ValueError ''strength must be in [0, 1]'') (0 \<le> strength \<and> strength \<le> 1)) (\<lambda>_.
     rbind (coerce_enum graph_edge_status_members graph_edge_status_value status) (\<lambda>status.
       Inr \<lparr>edg_edge_id = edge_id,
            edg_workspace_id = workspace_id,
            edg_source_node_id = source_node_id,
            edg_target_node_id = target_node_id,
            edg_edge_type = edge_type,
            edg_strength = strength,
            edg_status = status,
            edg_attached_evidence_ids = attached_evidence_ids,
            edg_affected_by_failure_ids = affected_by_failure_ids\<rparr>)))))))"

definition valid_graph_edge :: "graph_edge \<Rightarrow> bool" where
  "valid_graph_edge r \<longleftrightarrow>
     stripped (edg_edge_id r) \<and>
     workspace_id_ok (edg_workspace_id r) \<and>
     stripped (edg_source_node_id r) \<and>
     stripped (edg_target_node_id r) \<and>
     0 \<le> edg_strength r \<and> edg_strength r \<le> 1"

definition graph_edge_to_dict :: "graph_edge \<Rightarrow> payload" where
  "graph_edge_to_dict r =
     [(''edge_id'', VStr (edg_edge_id r)),
      (''workspace_id'', VStr (edg_workspace_id r)),
      (''source_node_id'', VStr (edg_source_node_id r)),
      (''target_node_id'', VStr (edg_target_node_id r)),
      (''edge_type'', VStr (graph_edge_type_value (edg_edge_type r))),
      (''strength'', VFloat (edg_strength r)),
      (''status'', VStr (graph_edge_status_value (edg_status r))),
      (''attached_evidence_ids'', VList (edg_attached_evidence_ids r)),
      (''affected_by_failure_ids'', VList (edg_affected_by_failure_ids r))]"

definition graph_edge_from_dict :: "payload \<Rightarrow> py_error + graph_edge" where
  "graph_edge_from_dict p =
     rbind (subscript p ''edge_id'') (\<lambda>edge_id.
     rbind (subscript p ''workspace_id'') (\<lambda>workspace_id.
     rbind (subscript p ''source_node_id'') (\<lambda>source_node_id.
     rbind (subscript p ''target_node_id'') (\<lambda>target_node_id.
     rbind (rbind (subscript p ''edge_type'') (coerce_enum graph_edge_type_members graph_edge_type_value)) (\<lambda>edge_type.
     rbind (rbind (subscript p ''strength'') py_float) (\<lambda>strength.
     rbind (rbind (subscript p ''status'') (coerce_enum graph_edge_status_members graph_edge_status_value)) (\<lambda>status.
     rbind (rbind (subscript p ''attached_evidence_ids'') py_list) (\<lambda>attached_evidence_ids.
     rbind (rbind (subscript p ''affected_by_failure_ids'') py_list) (\<lambda>affected_by_failure_ids.
       graph_edge_new edge_id workspace_id source_node_id target_node_id (VStr (graph_edge_type_value edge_type)) strength (VStr (graph_edge_status_value status)) attached_evidence_ids affected_by_failure_ids)))))))))"

interpretation graph_edge: serializable graph_edge_to_dict graph_edge_from_dict valid_graph_edge
proof unfold_locales
  fix r
  assume "valid_graph_edge r"
  then show "graph_edge_from_dict (graph_edge_to_dict r) = Inr r"
    by (simp add: graph_edge_from_dict_def graph_edge_to_dict_def graph_edge_new_def valid_graph_edge_def roundtrip_simps)
next
  fix p r
  assume "graph_edge_from_dict p = Inr r"
  then show "valid_graph_edge r"
    by (clarsimp simp: graph_edge_from_dict_def graph_edge_new_def valid_graph_edge_def parsed_simps)
qed

subsection \<open>GraphVersion\<close>

record graph_version =
  ver_version_id :: string
  ver_workspace_id :: string
  ver_trigger_type :: graph_trigger_type
  ver_change_summary :: string
  ver_diff_payload :: payload
  ver_created_at :: datetime

definition graph_version_new ::
  "pyval \<Rightarrow> pyval \<Rightarrow> pyval \<Rightarrow> pyval \<Rightarrow> payload \<Rightarrow> datetime \<Rightarrow> py_error + graph_version"
where
  "graph_version_new version_id workspace_id trigger_type change_summary diff_payload created_at =
     rbind (non_empty version_id ''version_id'') (\<lambda>version_id.
     rbind (validate_workspace_id workspace_id) (\<lambda>workspace_id.
     rbind (coerce_enum graph_trigger_type_members graph_trigger_type_value trigger_type) (\<lambda>trigger_type.
     rbind (non_empty change_summary ''change_summary'') (\<lambda>change_summary.
       Inr \<lparr>ver_version_id = version_id,
            ver_workspace_id = workspace_id,
            ver_trigger_type = trigger_type,
            ver_change_summary = change_summary,
            ver_diff_payload = diff_payload,
            ver_created_at = created_at\<rparr>))))"

definition valid_graph_version :: "graph_version \<Rightarrow> bool" where
  "valid_graph_version r \<longleftrightarrow>
     stripped (ver_version_id r) \<and>
     workspace_id_ok (ver_workspace_id r) \<and>
     stripped (ver_change_summary r) \<and>
     valid_datetime (ver_created_at r)"

definition graph_version_to_dict :: "graph_version \<Rightarrow> payload" where
  "graph_version_to_dict r =
     [(''version_id'', VStr (ver_version_id r)),
      (''workspace_id'', VStr (ver_workspace_id r)),
      (''trigger_type'', VStr (graph_trigger_type_value (ver_trigger_type r))),
      (''change_summary'', VStr (ver_change_summary r)),
      (''diff_payload'', VDict (ver_diff_payload r)),
      (''created_at'', VStr (isoformat (ver_created_at r)))]"

definition graph_version_from_dict :: "payload \<Rightarrow> py_error + graph_version" where
  "graph_version_from_dict p =
     rbind (subscript p ''version_id'') (\<lambda>version_id.
     rbind (subscript p ''workspace_id'') (\<lambda>workspace_id.
     rbind (rbind (subscript p ''trigger_type'') (coerce_enum graph_trigger_type_members graph_trigger_type_value)) (\<lambda>trigger_type.
     rbind (subscript p ''change_summary'') (\<lambda>change_summary.
     rbind (rbind (subscript p ''diff_payload'') py_dict) (\<lambda>diff_payload.
     rbind (rbind (subscript p ''created_at'') fromisoformat) (\<lambda>created_at.
       graph_version_new version_id workspace_id (VStr (graph_trigger_type_value trigger_type)) change_summary diff_payload created_at))))))"

interpretation graph_version: serializable graph_version_to_dict graph_version_from_dict valid_graph_version
proof unfold_locales
  fix r
  assume "valid_graph_version r"
  then show "graph_version_from_dict (graph_version_to_dict r) = Inr r"
    by (simp add: graph_version_from_dict_def graph_version_to_dict_def graph_version_new_def valid_graph_version_def roundtrip_simps)
next
  fix p r
  assume "graph_version_from_dict p = Inr r"
  then show "valid_graph_version r"
    by (clarsimp simp: graph_version_from_dict_def graph_version_new_def valid_graph_version_def parsed_simps)
qed

end
