(* ===== verification/DomainAggregates.thy ===== *)
theory DomainAggregates
  imports DomainModels
begin

text \<open>
  The classes of \<^verbatim>\<open>research_layer/domain/models/research_domain.py\<close> that hold other
  objects or have conditional checks (\<^verbatim>\<open>ResearchConflict\<close>, \<^verbatim>\<open>Route\<close>,
  \<^verbatim>\<open>GraphNode\<close>, \<^verbatim>\<open>ResearchPackage\<close>), the \<^verbatim>\<open>transition_to\<close>
  methods, and the properties of the domain model.
\<close>

section \<open>Conflicts\<close>

text \<open>The resolution note is stored as it is given; it is only read when the conflict is resolved.\<close>

record research_conflict =
  cfl_conflict_id :: string
  cfl_workspace_id :: string
  cfl_involved_object_ids :: "pyval list"
  cfl_reason :: string
  cfl_severity :: conflict_severity
  cfl_resolved :: bool
  cfl_resolution_note :: pyval

definition resolution_check :: "bool \<Rightarrow> pyval \<Rightarrow> py_error + unit" where
  "resolution_check resolved note =
     (if resolved
      then rbind (as_string note) (\<lambda>s.
        guard_else (ValueError ''resolution_note is required when resolved=True'') (strip s \<noteq> []))
      else Inr ())"

lemma resolution_check_Inr [simp]:
  "resolution_check b v = Inr u \<longleftrightarrow> (b \<longrightarrow> (\<exists>s. v = VStr s \<and> strip s \<noteq> []))"
  by (cases v) (simp_all add: resolution_check_def)

definition research_conflict_new ::
  "pyval \<Rightarrow> pyval \<Rightarrow> pyval list \<Rightarrow> pyval \<Rightarrow> pyval \<Rightarrow> bool \<Rightarrow> pyval \<Rightarrow> py_error + research_conflict"
where
  "research_conflict_new conflict_id workspace_id involved reason severity resolved note =
     rbind (non_empty conflict_id ''conflict_id'') (\<lambda>conflict_id.
     rbind (validate_workspace_id workspace_id) (\<lambda>workspace_id.
     rbind (guard_else (ValueError ''involved_object_ids must include at least two objects'')
        (2 \<le> length involved)) (\<lambda>_.
     rbind (non_empty reason ''reason'') (\<lambda>reason.
     rbind (coerce_enum conflict_severity_members conflict_severity_value severity) (\<lambda>severity.
     rbind (resolution_check resolved note) (\<lambda>_.
       Inr \<lparr>cfl_conflict_id = conflict_id, cfl_workspace_id = workspace_id,
            cfl_involved_object_ids = involved, cfl_reason = reason, cfl_severity = severity,
            cfl_resolved = resolved, cfl_resolution_note = note\<rparr>))))))"

definition valid_research_conflict :: "research_conflict \<Rightarrow> bool" where
  "valid_research_conflict r \<longleftrightarrow>
     stripped (cfl_conflict_id r) \<and> workspace_id_ok (cfl_workspace_id r) \<and>
     2 \<le> length (cfl_involved_object_ids r) \<and> stripped (cfl_reason r) \<and>
     (cfl_resolved r \<longrightarrow> (\<exists>s. cfl_resolution_note r = VStr s \<and> strip s \<noteq> []))"

definition research_conflict_to_dict :: "research_conflict \<Rightarrow> payload" where
  "research_conflict_to_dict r =
     [(''conflict_id'', VStr (cfl_conflict_id r)),
      (''workspace_id'', VStr (cfl_workspace_id r)),
      (''involved_object_ids'', VList (cfl_involved_object_ids r)),
      (''reason'', VStr (cfl_reason r)),
      (''severity'', VStr (conflict_severity_value (cfl_severity r))),
      (''resolved'', VBool (cfl_resolved r)),
      (''resolution_note'', cfl_resolution_note r)]"

definition research_conflict_from_dict :: "payload \<Rightarrow> py_error + research_conflict" where
  "research_conflict_from_dict p =
     rbind (subscript p ''conflict_id'') (\<lambda>conflict_id.
     rbind (subscript p ''workspace_id'') (\<lambda>workspace_id.
     rbind (rbind (subscript p ''involved_object_ids'') py_list) (\<lambda>involved.
     rbind (subscript p ''reason'') (\<lambda>reason.
     rbind (rbind (subscript p ''severity'')
        (coerce_enum conflict_severity_members conflict_severity_value)) (\<lambda>severity.
     rbind (subscript p ''resolved'') (\<lambda>resolved.
     rbind (subscript p ''resolution_note'') (\<lambda>note.
       research_conflict_new conflict_id workspace_id involved reason
         (VStr (conflict_severity_value severity)) (py_bool resolved) note)))))))"

interpretation research_conflict: serializable research_conflict_to_dict research_conflict_from_dict
  valid_research_conflict
proof unfold_locales
  fix r
  assume "valid_research_conflict r"
  then show "research_conflict_from_dict (research_conflict_to_dict r) = Inr r"
    by (auto simp: research_conflict_from_dict_def research_conflict_to_dict_def
        research_conflict_new_def valid_research_conflict_def roundtrip_simps resolution_check_def)
next
  fix p r
  assume "research_conflict_from_dict p = Inr r"
  then show "valid_research_conflict r"
    by (clarsimp simp: research_conflict_from_dict_def research_conflict_new_def
        valid_research_conflict_def parsed_simps)
qed

section \<open>Routes\<close>

text \<open>
  A route's top factors are \<^verbatim>\<open>TopFactor\<close> objects; the constructor converts the entries that
  are not. An entry that is not a dictionary cannot be subscripted by a string.
\<close>

record route =
  rte_route_id :: string
  rte_workspace_id :: string
  rte_title :: string
  rte_summary :: string
  rte_support_score :: rat
  rte_risk_score :: rat
  rte_progressability_score :: rat
  rte_novelty_level :: novelty_level
  rte_relation_tags :: "pyval list"
  rte_top_factors :: "top_factor list"
  rte_conclusion_node_id :: string
  rte_next_validation_action_id :: string
  rte_version_id :: string
  rte_status :: route_status

fun as_payload :: "pyval \<Rightarrow> py_error + payload" where
  "as_payload (VDict d) = Inr d"
| "as_payload _ = Inl TypeError"

definition factor_of :: "top_factor + pyval \<Rightarrow> py_error + top_factor" where
  "factor_of x =
     (case x of Inl f \<Rightarrow> Inr f | Inr v \<Rightarrow> rbind (as_payload v) top_factor_from_dict)"

definition score_range :: "string \<Rightarrow> rat \<Rightarrow> py_error + unit" where
  "score_range name score =
     guard_else (ValueError (name @ '' must be in [0, 1]'')) (0 \<le> score \<and> score \<le> 1)"

definition route_new ::
  "pyval \<Rightarrow> pyval \<Rightarrow> pyval \<Rightarrow> pyval \<Rightarrow> rat \<Rightarrow> rat \<Rightarrow> rat \<Rightarrow> pyval \<Rightarrow> pyval list \<Rightarrow>
   (top_factor + pyval) list \<Rightarrow> pyval \<Rightarrow> pyval \<Rightarrow> pyval \<Rightarrow> pyval \<Rightarrow> py_error + route"
where
  "route_new route_id workspace_id title summary support risk progress novelty tags factors
       conclusion next_action version status =
     rbind (non_empty route_id ''route_id'') (\<lambda>route_id.
     rbind (validate_workspace_id workspace_id) (\<lambda>workspace_id.
     rbind (non_empty title ''title'') (\<lambda>title.
     rbind (non_empty summary ''summary'') (\<lambda>summary.
     rbind (score_range ''support_score'' support) (\<lambda>_.
     rbind (score_range ''risk_score'' risk) (\<lambda>_.
     rbind (score_range ''progressability_score'' progress) (\<lambda>_.
     rbind (coerce_enum novelty_level_members novelty_level_value novelty) (\<lambda>novelty.
     rbind (non_empty conclusion ''conclusion_node_id'') (\<lambda>conclusion.
     rbind (non_empty next_action ''next_validation_action_id'') (\<lambda>next_action.
     rbind (non_empty version ''version_id'') (\<lambda>version.
     rbind (coerce_enum route_status_members route_status_value status) (\<lambda>status.
     rbind (rmap factor_of factors) (\<lambda>factors.
       Inr \<lparr>rte_route_id = route_id, rte_workspace_id = workspace_id, rte_title = title,
            rte_summary = summary, rte_support_score = support, rte_risk_score = risk,
            rte_progressability_score = progress, rte_novelty_level = novelty,
            rte_relation_tags = tags, rte_top_factors = factors,
            rte_conclusion_node_id = conclusion, rte_next_validation_action_id = next_action,
            rte_version_id = version, rte_status = status\<rparr>)))))))))))))"

definition valid_route :: "route \<Rightarrow> bool" where
  "valid_route r \<longleftrightarrow>
     stripped (rte_route_id r) \<and> workspace_id_ok (rte_workspace_id r) \<and>
     stripped (rte_title r) \<and> stripped (rte_summary r) \<and>
     unit_interval (rte_support_score r) \<and> unit_interval (rte_risk_score r) \<and>
     unit_interval (rte_progressability_score r) \<and>
     list_all valid_top_factor (rte_top_factors r) \<and>
     stripped (rte_conclusion_node_id r) \<and> stripped (rte_next_validation_action_id r) \<and>
     stripped (rte_version_id r)"

definition route_to_dict :: "route \<Rightarrow> payload" where
  "route_to_dict r =
     [(''route_id'', VStr (rte_route_id r)),
      (''workspace_id'', VStr (rte_workspace_id r)),
      (''title'', VStr (rte_title r)),
      (''summary'', VStr (rte_summary r)),
      (''support_score'', VFloat (rte_support_score r)),
      (''risk_score'', VFloat (rte_risk_score r)),
      (''progressability_score'', VFloat (rte_progressability_score r)),
      (''novelty_level'', VStr (novelty_level_value (rte_novelty_level r))),
      (''relation_tags'', VList (rte_relation_tags r)),
      (''top_factors'', VList (map (\<lambda>f. VDict (top_factor_to_dict f)) (rte_top_factors r))),
      (''conclusion_node_id'', VStr (rte_conclusion_node_id r)),
      (''next_validation_action_id'', VStr (rte_next_validation_action_id r)),
      (''status'', VStr (route_status_value (rte_status r))),
      (''version_id'', VStr (rte_version_id r))]"

text \<open>
  The factors are read by iterating over \<^verbatim>\<open>payload["top_factors"]\<close>, whatever iterable it is.
\<close>

definition route_from_dict :: "payload \<Rightarrow> py_error + route" where
  "route_from_dict p =
     rbind (subscript p ''route_id'') (\<lambda>route_id.
     rbind (subscript p ''workspace_id'') (\<lambda>workspace_id.
     rbind (subscript p ''title'') (\<lambda>title.
     rbind (subscript p ''summary'') (\<lambda>summary.
     rbind (rbind (subscript p ''support_score'') py_float) (\<lambda>support.
     rbind (rbind (subscript p ''risk_score'') py_float) (\<lambda>risk.
     rbind (rbind (subscript p ''progressability_score'') py_float) (\<lambda>progress.
     rbind (rbind (subscript p ''novelty_level'')
        (coerce_enum novelty_level_members novelty_level_value)) (\<lambda>novelty.
     rbind (rbind (subscript p ''relation_tags'') py_list) (\<lambda>tags.
     rbind (rbind (rbind (subscript p ''top_factors'') py_list)
        (rmap (\<lambda>v. rbind (as_payload v) top_factor_from_dict))) (\<lambda>factors.
     rbind (subscript p ''conclusion_node_id'') (\<lambda>conclusion.
     rbind (subscript p ''next_validation_action_id'') (\<lambda>next_action.
     rbind (rbind (subscript p ''status'')
        (coerce_enum route_status_members route_status_value)) (\<lambda>status.
     rbind (subscript p ''version_id'') (\<lambda>version.
       route_new route_id workspace_id title summary support risk progress
         (VStr (novelty_level_value novelty)) tags (map Inl factors) conclusion next_action
         version (VStr (route_status_value status))))))))))))))))"

lemma rmap_factor_of_Inl [simp]: "rmap factor_of (map Inl fs) = Inr fs"
  by (rule rmap_map_Inr) (simp add: factor_of_def)

lemma rmap_factors_roundtrip:
  "list_all valid_top_factor fs \<Longrightarrow>
   rmap (\<lambda>v. rbind (as_payload v) top_factor_from_dict) (map (\<lambda>f. VDict (top_factor_to_dict f)) fs)
     = Inr fs"
  by (rule rmap_map_Inr) (simp add: top_factor.roundtrip list_all_iff)

lemma rmap_factors_valid:
  "rmap (\<lambda>v. rbind (as_payload v) top_factor_from_dict) vs = Inr fs \<Longrightarrow> list_all valid_top_factor fs"
  by (induction vs arbitrary: fs) (auto simp: rbind_Inr_iff intro: top_factor.parsed_valid)

interpretation route: serializable route_to_dict route_from_dict valid_route
proof unfold_locales
  fix r
  assume "valid_route r"
  then show "route_from_dict (route_to_dict r) = Inr r"
    by (simp add: route_from_dict_def route_to_dict_def route_new_def valid_route_def
        roundtrip_simps rmap_factors_roundtrip score_range_def unit_interval_def)
next
  fix p r
  assume "route_from_dict p = Inr r"
  then show "valid_route r"
    by (clarsimp simp: route_from_dict_def route_new_def valid_route_def parsed_simps
        score_range_def unit_interval_def rmap_factors_valid)
qed

section \<open>Graph nodes\<close>

record graph_node =
  nod_node_id :: string
  nod_workspace_id :: string
  nod_node_type :: graph_node_type
  nod_object_ref_type :: string
  nod_object_ref_id :: string
  nod_short_label :: string
  nod_full_description :: string
  nod_short_tags :: "pyval list"
  nod_visibility :: visibility_level
  nod_score_meta :: score_meta
  nod_status :: graph_node_status

definition meta_of :: "score_meta + pyval \<Rightarrow> py_error + score_meta" where
  "meta_of x = (case x of Inl m \<Rightarrow> Inr m | Inr v \<Rightarrow> rbind (as_payload v) score_meta_from_dict)"

definition graph_node_new ::
  "pyval \<Rightarrow> pyval \<Rightarrow> pyval \<Rightarrow> pyval \<Rightarrow> pyval \<Rightarrow> pyval \<Rightarrow> pyval \<Rightarrow> pyval list \<Rightarrow> pyval \<Rightarrow>
   score_meta + pyval \<Rightarrow> pyval \<Rightarrow> py_error + graph_node"
where
  "graph_node_new node_id workspace_id node_type ref_type ref_id label description tags visibility
       meta status =
     rbind (non_empty node_id ''node_id'') (\<lambda>node_id.
     rbind (validate_workspace_id workspace_id) (\<lambda>workspace_id.
     rbind (coerce_enum graph_node_type_members graph_node_type_value node_type) (\<lambda>node_type.
     rbind (non_empty ref_type ''object_ref_type'') (\<lambda>ref_type.
     rbind (non_empty ref_id ''object_ref_id'') (\<lambda>ref_id.
     rbind (non_empty label ''short_label'') (\<lambda>label.
     rbind (non_empty description ''full_description'') (\<lambda>description.
     rbind (coerce_enum visibility_level_members visibility_level_value visibility) (\<lambda>visibility.
     rbind (meta_of meta) (\<lambda>meta.
     rbind (coerce_enum graph_node_status_members graph_node_status_value status) (\<lambda>status.
       Inr \<lparr>nod_node_id = node_id, nod_workspace_id = workspace_id, nod_node_type = node_type,
            nod_object_ref_type = ref_type, nod_object_ref_id = ref_id, nod_short_label = label,
            nod_full_description = description, nod_short_tags = tags,
            nod_visibility = visibility, nod_score_meta = meta, nod_status = status\<rparr>))))))))))"

definition valid_graph_node :: "graph_node \<Rightarrow> bool" where
  "valid_graph_node r \<longleftrightarrow>
     stripped (nod_node_id r) \<and> workspace_id_ok (nod_workspace_id r) \<and>
     stripped (nod_object_ref_type r) \<and> stripped (nod_object_ref_id r) \<and>
     stripped (nod_short_label r) \<and> stripped (nod_full_description r) \<and>
     valid_score_meta (nod_score_meta r)"

definition graph_node_to_dict :: "graph_node \<Rightarrow> payload" where
  "graph_node_to_dict r =
     [(''node_id'', VStr (nod_node_id r)),
      (''workspace_id'', VStr (nod_workspace_id r)),
      (''node_type'', VStr (graph_node_type_value (nod_node_type r))),
      (''object_ref_type'', VStr (nod_object_ref_type r)),
      (''object_ref_id'', VStr (nod_object_ref_id r)),
      (''short_label'', VStr (nod_short_label r)),
      (''full_description'', VStr (nod_full_description r)),
      (''short_tags'', VList (nod_short_tags r)),
      (''visibility'', VStr (visibility_level_value (nod_visibility r))),
      (''status'', VStr (graph_node_status_value (nod_status r))),
      (''score_meta'', VDict (score_meta_to_dict (nod_score_meta r)))]"

definition graph_node_from_dict :: "payload \<Rightarrow> py_error + graph_node" where
  "graph_node_from_dict p =
     rbind (subscript p ''node_id'') (\<lambda>node_id.
     rbind (subscript p ''workspace_id'') (\<lambda>workspace_id.
     rbind (rbind (subscript p ''node_type'')
        (coerce_enum graph_node_type_members graph_node_type_value)) (\<lambda>node_type.
     rbind (subscript p ''object_ref_type'') (\<lambda>ref_type.
     rbind (subscript p ''object_ref_id'') (\<lambda>ref_id.
     rbind (subscript p ''short_label'') (\<lambda>label.
     rbind (subscript p ''full_description'') (\<lambda>description.
     rbind (rbind (subscript p ''short_tags'') py_list) (\<lambda>tags.
     rbind (rbind (subscript p ''visibility'')
        (coerce_enum visibility_level_members visibility_level_value)) (\<lambda>visibility.
     rbind (rbind (subscript p ''status'')
        (coerce_enum graph_node_status_members graph_node_status_value)) (\<lambda>status.
     rbind (rbind (rbind (subscript p ''score_meta'') as_payload) score_meta_from_dict) (\<lambda>meta.
       graph_node_new node_id workspace_id (VStr (graph_node_type_value node_type)) ref_type ref_id
         label description tags (VStr (visibility_level_value visibility)) (Inl meta)
         (VStr (graph_node_status_value status)))))))))))))"

interpretation graph_node: serializable graph_node_to_dict graph_node_from_dict valid_graph_node
proof unfold_locales
  fix r
  assume "valid_graph_node r"
  then show "graph_node_from_dict (graph_node_to_dict r) = Inr r"
    by (simp add: graph_node_from_dict_def graph_node_to_dict_def graph_node_new_def
        valid_graph_node_def roundtrip_simps score_meta.roundtrip meta_of_def)
next
  fix p r
  assume "graph_node_from_dict p = Inr r"
  then show "valid_graph_node r"
    by (clarsimp simp: graph_node_from_dict_def graph_node_new_def valid_graph_node_def parsed_simps
        meta_of_def score_meta.parsed_valid)
qed

section \<open>Packages\<close>

text \<open>
  The private flags and the public gap nodes become dictionaries: an entry that is not one is
  wrapped under a key. An older payload names the gap nodes \<^verbatim>\<open>public_gap_node_ids\<close>.
\<close>

record research_package =
  pkg_package_id :: string
  pkg_workspace_id :: string
  pkg_title :: string
  pkg_summary :: string
  pkg_included_route_ids :: "pyval list"
  pkg_included_node_ids :: "pyval list"
  pkg_included_validation_ids :: "pyval list"
  pkg_private_dependency_flags :: "payload list"
  pkg_public_gap_nodes :: "payload list"
  pkg_snapshot_type :: string
  pkg_snapshot_version :: string
  pkg_boundary_notes :: "pyval list"
  pkg_traceability_refs :: payload
  pkg_replay_ready :: bool
  pkg_status :: string

definition wrap_item :: "string \<Rightarrow> pyval \<Rightarrow> py_error + payload" where
  "wrap_item key v =
     (case v of
        VDict d \<Rightarrow> Inr d
      | _ \<Rightarrow> rbind (py_str v) (\<lambda>s. Inr [(key, VStr s)]))"

definition research_package_new ::
  "pyval \<Rightarrow> pyval \<Rightarrow> pyval \<Rightarrow> pyval \<Rightarrow> pyval list \<Rightarrow> pyval list \<Rightarrow> pyval list \<Rightarrow>
   pyval list \<Rightarrow> pyval list \<Rightarrow> pyval \<Rightarrow> pyval \<Rightarrow> pyval list \<Rightarrow> payload \<Rightarrow> bool \<Rightarrow> string \<Rightarrow>
   py_error + research_package"
where
  "research_package_new package_id workspace_id title summary route_ids node_ids validation_ids
       private_flags gap_nodes snapshot_type snapshot_version notes refs replay_ready status =
     rbind (non_empty package_id ''package_id'') (\<lambda>package_id.
     rbind (validate_workspace_id workspace_id) (\<lambda>workspace_id.
     rbind (non_empty title ''title'') (\<lambda>title.
     rbind (non_empty summary ''summary'') (\<lambda>summary.
     rbind (non_empty snapshot_type ''snapshot_type'') (\<lambda>snapshot_type.
     rbind (non_empty snapshot_version ''snapshot_version'') (\<lambda>snapshot_version.
     rbind (rmap (wrap_item ''private_node_id'') private_flags) (\<lambda>private_flags.
     rbind (rmap (wrap_item ''node_id'') gap_nodes) (\<lambda>gap_nodes.
       Inr \<lparr>pkg_package_id = package_id, pkg_workspace_id = workspace_id, pkg_title = title,
            pkg_summary = summary, pkg_included_route_ids = route_ids,
            pkg_included_node_ids = node_ids, pkg_included_validation_ids = validation_ids,
            pkg_private_dependency_flags = private_flags, pkg_public_gap_nodes = gap_nodes,
            pkg_snapshot_type = snapshot_type, pkg_snapshot_version = snapshot_version,
            pkg_boundary_notes = notes, pkg_traceability_refs = refs,
            pkg_replay_ready = replay_ready, pkg_status = status\<rparr>))))))))"

definition valid_research_package :: "research_package \<Rightarrow> bool" where
  "valid_research_package r \<longleftrightarrow>
     stripped (pkg_package_id r) \<and> workspace_id_ok (pkg_workspace_id r) \<and>
     stripped (pkg_title r) \<and> stripped (pkg_summary r) \<and>
     stripped (pkg_snapshot_type r) \<and> stripped (pkg_snapshot_version r)"

definition research_package_to_dict :: "research_package \<Rightarrow> payload" where
  "research_package_to_dict r =
     [(''package_id'', VStr (pkg_package_id r)),
      (''workspace_id'', VStr (pkg_workspace_id r)),
      (''title'', VStr (pkg_title r)),
      (''summary'', VStr (pkg_summary r)),
      (''included_route_ids'', VList (pkg_included_route_ids r)),
      (''included_node_ids'', VList (pkg_included_node_ids r)),
      (''included_validation_ids'', VList (pkg_included_validation_ids r)),
      (''private_dependency_flags'', VList (map VDict (pkg_private_dependency_flags r))),
      (''public_gap_nodes'', VList (map VDict (pkg_public_gap_nodes r))),
      (''snapshot_type'', VStr (pkg_snapshot_type r)),
      (''snapshot_version'', VStr (pkg_snapshot_version r)),
      (''boundary_notes'', VList (pkg_boundary_notes r)),
      (''traceability_refs'', VDict (pkg_traceability_refs r)),
      (''replay_ready'', VBool (pkg_replay_ready r)),
      (''status'', VStr (pkg_status r))]"

definition research_package_from_dict :: "payload \<Rightarrow> py_error + research_package" where
  "research_package_from_dict p =
     (let gaps = get_or p ''public_gap_nodes'' VNone;
          gaps = (if gaps = VNone then get_or p ''public_gap_node_ids'' (VList []) else gaps)
      in
     rbind (subscript p ''package_id'') (\<lambda>package_id.
     rbind (subscript p ''workspace_id'') (\<lambda>workspace_id.
     rbind (subscript p ''title'') (\<lambda>title.
     rbind (subscript p ''summary'') (\<lambda>summary.
     rbind (rbind (subscript p ''included_route_ids'') py_list) (\<lambda>route_ids.
     rbind (rbind (subscript p ''included_node_ids'') py_list) (\<lambda>node_ids.
     rbind (rbind (subscript p ''included_validation_ids'') py_list) (\<lambda>validation_ids.
     rbind (rbind (subscript p ''private_dependency_flags'') py_list) (\<lambda>private_flags.
     rbind (py_list gaps) (\<lambda>gap_nodes.
     rbind (py_str (get_or p ''snapshot_type'' (VStr ''research_package_snapshot''))) (\<lambda>snapshot_type.
     rbind (py_str (get_or p ''snapshot_version'' (VStr ''slice11.v1''))) (\<lambda>snapshot_version.
     rbind (py_list (get_or p ''boundary_notes'' (VList []))) (\<lambda>notes.
     rbind (py_dict (get_or p ''traceability_refs'' (VDict []))) (\<lambda>refs.
     rbind (py_str (get_or p ''status'' (VStr ''draft''))) (\<lambda>status.
       research_package_new package_id workspace_id title summary route_ids node_ids validation_ids
         private_flags gap_nodes (VStr snapshot_type) (VStr snapshot_version) notes refs
         (py_bool (get_or p ''replay_ready'' (VBool True))) status)))))))))))))))"

lemma get_or_simps:
  "get_or ((k, v) # d) k' w = (if k' = k then v else get_or d k' w)"
  "get_or [] k' w = w"
  by (simp_all add: get_or_def)

lemma rmap_wrap_dicts [simp]: "rmap (wrap_item k) (map VDict ds) = Inr ds"
  by (rule rmap_map_Inr) (simp add: wrap_item_def)

interpretation research_package: serializable research_package_to_dict research_package_from_dict
  valid_research_package
proof unfold_locales
  fix r
  assume "valid_research_package r"
  then show "research_package_from_dict (research_package_to_dict r) = Inr r"
    by (simp add: research_package_from_dict_def research_package_to_dict_def
        research_package_new_def valid_research_package_def roundtrip_simps get_or_simps)
next
  fix p r
  assume "research_package_from_dict p = Inr r"
  then show "valid_research_package r"
    by (clarsimp simp: research_package_from_dict_def research_package_new_def
        valid_research_package_def parsed_simps Let_def)
qed

section \<open>Transitions\<close>

text \<open>
  The \<^verbatim>\<open>transition_to\<close> methods: the target is coerced, the table consulted, and only then is
  the status assigned.
\<close>

definition research_source_transition_to :: "research_source \<Rightarrow> pyval \<Rightarrow> py_error + research_source" where
  "research_source_transition_to r target =
     rbind (coerce_enum source_status_members source_status_value target) (\<lambda>target.
     rbind (check_transition source_status_value source_transitions (src_status r) target) (\<lambda>_.
       Inr (r\<lparr>src_status := target\<rparr>)))"

definition research_assumption_transition_to ::
  "research_assumption \<Rightarrow> pyval \<Rightarrow> py_error + research_assumption" where
  "research_assumption_transition_to r target =
     rbind (coerce_enum assumption_status_members assumption_status_value target) (\<lambda>target.
     rbind (check_transition assumption_status_value assumption_transitions (asm_status r) target) (\<lambda>_.
       Inr (r\<lparr>asm_status := target\<rparr>)))"

definition route_transition_to :: "route \<Rightarrow> pyval \<Rightarrow> py_error + route" where
  "route_transition_to r target =
     rbind (coerce_enum route_status_members route_status_value target) (\<lambda>target.
     rbind (check_transition route_status_value route_transitions (rte_status r) target) (\<lambda>_.
       Inr (r\<lparr>rte_status := target\<rparr>)))"

definition graph_node_transition_to :: "graph_node \<Rightarrow> pyval \<Rightarrow> py_error + graph_node" where
  "graph_node_transition_to r target =
     rbind (coerce_enum graph_node_status_members graph_node_status_value target) (\<lambda>target.
     rbind (check_transition graph_node_status_value graph_node_transitions (nod_status r) target) (\<lambda>_.
       Inr (r\<lparr>nod_status := target\<rparr>)))"

definition graph_edge_transition_to :: "graph_edge \<Rightarrow> pyval \<Rightarrow> py_error + graph_edge" where
  "graph_edge_transition_to r target =
     rbind (coerce_enum graph_edge_status_members graph_edge_status_value target) (\<lambda>target.
     rbind (check_transition graph_edge_status_value graph_edge_transitions (edg_status r) target) (\<lambda>_.
       Inr (r\<lparr>edg_status := target\<rparr>)))"

lemma check_transition_Inr [simp]:
  "check_transition val_of table s t = Inr u \<longleftrightarrow> t \<in> table s"
  by (simp add: check_transition_def)

interpretation source_object: status_object source_transitions source_phase SS_EXTRACTED
  src_status research_source_transition_to source_status_value
  by unfold_locales
    (fastforce simp: research_source_transition_to_def rbind_Inr_iff
      | simp add: research_source_transition_to_def check_transition_def)+

interpretation assumption_object: status_object assumption_transitions assumption_phase AS_ARCHIVED
  asm_status research_assumption_transition_to assumption_status_value
  by unfold_locales
    (fastforce simp: research_assumption_transition_to_def rbind_Inr_iff
      | simp add: research_assumption_transition_to_def check_transition_def)+

interpretation route_object: status_object route_transitions route_phase RS_SUPERSEDED
  rte_status route_transition_to route_status_value
  by unfold_locales
    (fastforce simp: route_transition_to_def rbind_Inr_iff
      | simp add: route_transition_to_def check_transition_def)+

interpretation node_object: status_object graph_node_transitions node_phase NS_ARCHIVED
  nod_status graph_node_transition_to graph_node_status_value
  by unfold_locales
    (fastforce simp: graph_node_transition_to_def rbind_Inr_iff
      | simp add: graph_node_transition_to_def check_transition_def)+

interpretation edge_object: status_object graph_edge_transitions edge_phase ES_ARCHIVED
  edg_status graph_edge_transition_to graph_edge_status_value
  by unfold_locales
    (fastforce simp: graph_edge_transition_to_def rbind_Inr_iff
      | simp add: graph_edge_transition_to_def check_transition_def)+

section \<open>Properties\<close>

text \<open>
  However the status of a source is driven by calls of \<^verbatim>\<open>transition_to\<close>, refused ones
  included, it never moves back in the pipeline raw, parsed, indexed, extracted, and it advances
  by at most one stage per call, so no stage is skipped.
\<close>

theorem source_pipeline:
  "src_status r \<le> src_status (run_calls research_source_transition_to vs r) \<and>
   source_phase (src_status (run_calls research_source_transition_to vs r))
     \<le> source_phase (src_status r) + length vs"
proof
  show "src_status r \<le> src_status (run_calls research_source_transition_to vs r)"
    unfolding less_eq_source_status_def by (rule source_object.run_phase)
  have step: "source_phase (src_status r') \<le> Suc (source_phase (src_status r))"
    if "research_source_transition_to r v = Inr r'" for r v r'
    using source_object.transition_ok [OF that] by (cases "src_status r") auto
  show "source_phase (src_status (run_calls research_source_transition_to vs r))
     \<le> source_phase (src_status r) + length vs"
  proof (induction vs arbitrary: r)
    case (Cons v vs)
    show ?case
      using Cons.IH step [of r v] by (fastforce split: sum.split intro: order_trans)
  qed simp
qed

text \<open>
  A graph node whose status is failed never becomes active, weakened or conflicted again,
  whatever sequence of \<^verbatim>\<open>transition_to\<close> calls is made on it.
\<close>

theorem failed_node_stays_dead:
  assumes "nod_status r = NS_FAILED"
  shows "nod_status (run_calls graph_node_transition_to vs r) \<in> {NS_FAILED, NS_SUPERSEDED, NS_ARCHIVED}"
  using node_object.run_phase [of r vs] assms
  by (cases "nod_status (run_calls graph_node_transition_to vs r)") simp_all

definition example_node :: graph_node where
  "example_node =
     \<lparr>nod_node_id = ''node_1'', nod_workspace_id = ''ws_1'', nod_node_type = NT_EVIDENCE,
      nod_object_ref_type = ''evidence'', nod_object_ref_id = ''ev_1'', nod_short_label = ''label'',
      nod_full_description = ''text'', nod_short_tags = [], nod_visibility = VIS_WORKSPACE,
      nod_score_meta = \<lparr>sm_support = 1, sm_risk = 0, sm_progressability = 1\<rparr>,
      nod_status = NS_FAILED\<rparr>"

theorem failed_node_stays_dead_witness:
  "nod_status (run_calls graph_node_transition_to [VStr ''active'', VStr ''superseded''] example_node)
     \<in> {NS_FAILED, NS_SUPERSEDED, NS_ARCHIVED}"
  by (rule failed_node_stays_dead) (simp add: example_node_def)

text \<open>
  From every status a route can be brought to superseded by \<^verbatim>\<open>transition_to\<close> calls, and
  once there no further call changes its status.
\<close>

theorem route_can_be_superseded:
  "\<exists>ts. \<forall>vs. rte_status (run_calls route_transition_to vs
      (run_calls route_transition_to (map (\<lambda>t. VStr (route_status_value t)) ts) r)) = RS_SUPERSEDED"
  by (rule route_object.can_finish)

text \<open>
  C40: A route read by \<^verbatim>\<open>Route.from_dict\<close> satisfies everything its constructor checks (its
  scores and those of its top factors lie in [0, 1], its identifiers are non-empty and stripped),
  and reading back its \<^verbatim>\<open>to_dict\<close> gives the same route.
\<close>

theorem route_reparse:
  assumes "route_from_dict p = Inr r"
  shows "valid_route r \<and> route_from_dict (route_to_dict r) = Inr r"
  using assms route.parsed_valid route.reparse by blast

definition example_route_payload :: payload where
  "example_route_payload =
     [(''route_id'', VStr '' route_1 ''), (''workspace_id'', VStr ''ws_1''), (''title'', VStr ''t''),
      (''summary'', VStr ''s''), (''support_score'', VFloat (1/2)), (''risk_score'', VInt 0),
      (''progressability_score'', VInt 1), (''novelty_level'', VStr ''novel''),
      (''relation_tags'', VStr ''ab''),
      (''top_factors'', VList [VDict [(''name'', VStr ''f''), (''score'', VFloat (1/4))]]),
      (''conclusion_node_id'', VStr ''n1''), (''next_validation_action_id'', VStr ''a1''),
      (''status'', VStr ''active''), (''version_id'', VStr ''v1'')]"

definition example_route :: route where
  "example_route =
     \<lparr>rte_route_id = ''route_1'', rte_workspace_id = ''ws_1'', rte_title = ''t'', rte_summary = ''s'',
      rte_support_score = 1/2, rte_risk_score = 0, rte_progressability_score = 1,
      rte_novelty_level = NL_NOVEL, rte_relation_tags = [VStr ''a'', VStr ''b''],
      rte_top_factors = [\<lparr>tf_name = ''f'', tf_score = 1/4\<rparr>], rte_conclusion_node_id = ''n1'',
      rte_next_validation_action_id = ''a1'', rte_version_id = ''v1'', rte_status = RS_ACTIVE\<rparr>"

lemma example_route_parsed: "route_from_dict example_route_payload = Inr example_route"
  by (simp add: route_from_dict_def example_route_payload_def example_route_def route_new_def
      subscript_simps coerce_enum_def novelty_level_members_def route_status_members_def
      top_factor_from_dict_def top_factor_new_def non_empty_def validate_workspace_id_def
      workspace_pattern_def alnum_def code_point_def strip_def is_space_def score_range_def)

theorem route_reparse_witness:
  "valid_route example_route \<and> route_from_dict (route_to_dict example_route) = Inr example_route"
  by (rule route_reparse [OF example_route_parsed])

text \<open>
  A research package read by \<^verbatim>\<open>ResearchPackage.from_dict\<close>, from a current payload or an
  older one with \<^verbatim>\<open>public_gap_node_ids\<close>, is valid and survives \<^verbatim>\<open>to_dict\<close>
  followed by \<^verbatim>\<open>from_dict\<close> unchanged.
\<close>

theorem research_package_reparse:
  assumes "research_package_from_dict p = Inr r"
  shows "valid_research_package r \<and>
    research_package_from_dict (research_package_to_dict r) = Inr r"
  using assms research_package.parsed_valid research_package.reparse by blast

definition example_old_package :: payload where
  "example_old_package =
     [(''package_id'', VStr ''pkg_1''), (''workspace_id'', VStr ''ws_1''), (''title'', VStr ''t''),
      (''summary'', VStr ''s''), (''included_route_ids'', VList []), (''included_node_ids'', VList []),
      (''included_validation_ids'', VList []), (''private_dependency_flags'', VList [VStr ''n1'']),
      (''public_gap_node_ids'', VList [VInt 12])]"

definition example_package :: research_package where
  "example_package =
     \<lparr>pkg_package_id = ''pkg_1'', pkg_workspace_id = ''ws_1'', pkg_title = ''t'', pkg_summary = ''s'',
      pkg_included_route_ids = [], pkg_included_node_ids = [], pkg_included_validation_ids = [],
      pkg_private_dependency_flags = [[(''private_node_id'', VStr ''n1'')]],
      pkg_public_gap_nodes = [[(''node_id'', VStr ''12'')]],
      pkg_snapshot_type = ''research_package_snapshot'', pkg_snapshot_version = ''slice11.v1'',
      pkg_boundary_notes = [], pkg_traceability_refs = [], pkg_replay_ready = True,
      pkg_status = ''draft''\<rparr>"

lemma example_number: "int_str 12 = ''12''"
  by code_simp

lemma example_package_parsed: "research_package_from_dict example_old_package = Inr example_package"
  by (simp add: research_package_from_dict_def example_old_package_def example_package_def
      research_package_new_def subscript_simps get_or_simps wrap_item_def example_number non_empty_def
      validate_workspace_id_def workspace_pattern_def alnum_def code_point_def strip_def is_space_def)

theorem research_package_reparse_witness:
  "valid_research_package example_package \<and>
   research_package_from_dict (research_package_to_dict example_package) = Inr example_package"
  by (rule research_package_reparse [OF example_package_parsed])

end
