(* ===== verification/VersionDiff.thy ===== *)
theory VersionDiff
  imports PyValue
begin

text \<open>
  The comparison of two snapshots of a workspace, \<^verbatim>\<open>services/version_diff_service.py\<close>: what was
  added, which nodes, edges and routes became weakened or invalidated, and whose scores changed. The
  snapshots are payloads; a status that is not a string or a score that is not a number raises.
\<close>

section \<open>The service\<close>

type_synonym objects = "(string \<times> payload) list"

definition as_mapping :: "pyval \<Rightarrow> objects" where
  "as_mapping raw =
     (case raw of
        VDict d \<Rightarrow>
          foldl (\<lambda>normalized (k, v). case v of VDict p \<Rightarrow> dict_put k p normalized | _ \<Rightarrow> normalized) [] d
      | _ \<Rightarrow> [])"

definition text_field :: "payload \<Rightarrow> string \<Rightarrow> py_error + string" where
  "text_field p k = py_str (get_or p k (VStr []))"

definition number_field :: "payload \<Rightarrow> string \<Rightarrow> py_error + rat" where
  "number_field p k = py_float (get_or p k (VFloat 0))"

definition status_change :: "objects \<Rightarrow> string list \<Rightarrow> string \<times> payload \<Rightarrow> py_error + string list" where
  "status_change before wanted = (\<lambda>(object_id, after_value).
     case map_of before object_id of
       None \<Rightarrow> Inr []
     | Some before_value \<Rightarrow>
         rbind (text_field after_value ''status'') (\<lambda>after_status.
           if after_status \<notin> set wanted then Inr []
           else rbind (text_field before_value ''status'') (\<lambda>before_status.
             Inr (if before_status \<noteq> after_status then [object_id] else []))))"

definition status_changed_to :: "objects \<Rightarrow> objects \<Rightarrow> string list \<Rightarrow> py_error + string list" where
  "status_changed_to before after wanted =
     rbind (rmap (status_change before wanted) after) (\<lambda>changed. Inr (concat changed))"

text \<open>The ids among \<open>ids\<close> whose object has the given text in the field.\<close>

definition having :: "objects \<Rightarrow> string \<Rightarrow> string \<Rightarrow> string list \<Rightarrow> py_error + string list" where
  "having objs field t ids =
     rbind (rmap (\<lambda>i. case map_of objs i of
         None \<Rightarrow> Inr []
       | Some p \<Rightarrow> rbind (text_field p field) (\<lambda>s. Inr (if s = t then [i] else []))) ids)
       (\<lambda>xs. Inr (concat xs))"

record score_change =
  sc_route_id :: string
  sc_support_before :: rat
  sc_support_after :: rat
  sc_risk_before :: rat
  sc_risk_after :: rat
  sc_progressability_before :: rat
  sc_progressability_after :: rat

definition score_change_of :: "objects \<Rightarrow> objects \<Rightarrow> string \<Rightarrow> py_error + score_change list" where
  "score_change_of before after route_id =
     (case (map_of before route_id, map_of after route_id) of
        (Some b, Some a) \<Rightarrow>
          rbind (number_field b ''support_score'') (\<lambda>before_support.
          rbind (number_field a ''support_score'') (\<lambda>after_support.
          rbind (number_field b ''risk_score'') (\<lambda>before_risk.
          rbind (number_field a ''risk_score'') (\<lambda>after_risk.
          rbind (number_field b ''progressability_score'') (\<lambda>before_progress.
          rbind (number_field a ''progressability_score'') (\<lambda>after_progress.
            Inr (if before_support = after_support \<and> before_risk = after_risk \<and>
                    before_progress = after_progress then []
                 else [\<lparr>sc_route_id = route_id, sc_support_before = before_support,
                        sc_support_after = after_support, sc_risk_before = before_risk,
                        sc_risk_after = after_risk, sc_progressability_before = before_progress,
                        sc_progressability_after = after_progress\<rparr>])))))))
      | _ \<Rightarrow> Inr [])"

record route_impact =
  ri_route_id :: string
  ri_version_id :: "string option"
  ri_base_version_id :: "string option"
  ri_status_before :: string
  ri_status_after :: string
  ri_route_edge_ids :: "string list"
  ri_impacted_edge_ids :: "string list"
  ri_impacted_node_ids :: "string list"
  ri_reason :: string

record version_diff =
  vd_failure_id :: string
  vd_base_version_id :: "string option"
  vd_new_version_id :: "string option"
  vd_added_nodes :: "string list"
  vd_added_edges :: "string list"
  vd_weakened_nodes :: "string list"
  vd_weakened_edges :: "string list"
  vd_weakened_routes :: "string list"
  vd_invalidated_nodes :: "string list"
  vd_invalidated_edges :: "string list"
  vd_invalidated_routes :: "string list"
  vd_created_branch_node_ids :: "string list"
  vd_created_branch_edge_ids :: "string list"
  vd_route_score_changes :: "score_change list"
  vd_route_impacts :: "route_impact list"

definition added_ids :: "objects \<Rightarrow> objects \<Rightarrow> string list" where
  "added_ids before after = sorted_set (filter (\<lambda>i. i \<notin> fst ` set before) (map fst after))"

definition common_ids :: "objects \<Rightarrow> objects \<Rightarrow> string list" where
  "common_ids before after = sorted_set (filter (\<lambda>i. i \<in> fst ` set before) (map fst after))"

definition build_diff_payload ::
  "string \<Rightarrow> string option \<Rightarrow> string option \<Rightarrow> payload \<Rightarrow> payload \<Rightarrow> route_impact list \<Rightarrow>
   py_error + version_diff"
where
  "build_diff_payload failure_id base_version_id new_version_id before_snapshot after_snapshot route_impacts =
     (let before_nodes = as_mapping (get_or before_snapshot ''nodes'' VNone);
          after_nodes = as_mapping (get_or after_snapshot ''nodes'' VNone);
          before_edges = as_mapping (get_or before_snapshot ''edges'' VNone);
          after_edges = as_mapping (get_or after_snapshot ''edges'' VNone);
          before_routes = as_mapping (get_or before_snapshot ''routes'' VNone);
          after_routes = as_mapping (get_or after_snapshot ''routes'' VNone);
          added_node_ids = added_ids before_nodes after_nodes;
          added_edge_ids = added_ids before_edges after_edges
      in rbind (status_changed_to before_nodes after_nodes [''weakened'']) (\<lambda>weakened_nodes.
         rbind (status_changed_to before_edges after_edges [''weakened'']) (\<lambda>weakened_edges.
         rbind (status_changed_to before_routes after_routes [''weakened'']) (\<lambda>weakened_routes.
         rbind (status_changed_to before_nodes after_nodes [''failed'']) (\<lambda>invalidated_nodes.
         rbind (status_changed_to before_edges after_edges [''invalidated'']) (\<lambda>invalidated_edges.
         rbind (status_changed_to before_routes after_routes [''failed'']) (\<lambda>invalidated_routes.
         rbind (having after_nodes ''node_type'' ''branch'' added_node_ids) (\<lambda>branch_nodes.
         rbind (having after_edges ''edge_type'' ''branches_to'' added_edge_ids) (\<lambda>branch_edges.
         rbind (rmap (score_change_of before_routes after_routes) (common_ids before_routes after_routes))
           (\<lambda>changes.
         Inr \<lparr>vd_failure_id = failure_id, vd_base_version_id = base_version_id,
              vd_new_version_id = new_version_id,
              vd_added_nodes = added_node_ids, vd_added_edges = added_edge_ids,
              vd_weakened_nodes = sorted_set weakened_nodes,
              vd_weakened_edges = sorted_set weakened_edges,
              vd_weakened_routes = sorted_set weakened_routes,
              vd_invalidated_nodes = sorted_set invalidated_nodes,
              vd_invalidated_edges = sorted_set invalidated_edges,
              vd_invalidated_routes = sorted_set invalidated_routes,
              vd_created_branch_node_ids = sorted_set branch_nodes,
              vd_created_branch_edge_ids = sorted_set branch_edges,
              vd_route_score_changes = concat changes,
              vd_route_impacts = route_impacts\<rparr>))))))))))"

section \<open>What the sets hold\<close>

lemma rmap_concat_set:
  "rmap f xs = Inr yss \<Longrightarrow> set (concat yss) = {y. \<exists>x \<in> set xs. \<exists>ys. f x = Inr ys \<and> y \<in> set ys}"
proof (induction xs arbitrary: yss)
  case (Cons x xs)
  then obtain ys yss' where "f x = Inr ys" "rmap f xs = Inr yss'" "yss = ys # yss'"
    by (auto simp: rbind_Inr_iff)
  then show ?case using Cons.IH [of yss'] by auto
qed simp

lemma rmap_Inr_each: "rmap f xs = Inr ys \<Longrightarrow> x \<in> set xs \<Longrightarrow> \<exists>y. f x = Inr y"
  by (induction xs arbitrary: ys) (auto simp: rbind_Inr_iff)

lemma foldl_dict_distinct:
  "distinct (map fst acc) \<Longrightarrow>
   distinct (map fst (foldl (\<lambda>n (k, v). case v of VDict p \<Rightarrow> dict_put k p n | _ \<Rightarrow> n) acc d))"
proof (induction d arbitrary: acc)
  case (Cons x d)
  then show ?case by (cases x; cases "snd x") auto
qed simp

lemma as_mapping_distinct [simp]: "distinct (map fst (as_mapping v))"
  by (cases v) (simp_all add: as_mapping_def foldl_dict_distinct)

text \<open>The ids of objects that are in both snapshots and entered a status between them.\<close>

definition entered :: "objects \<Rightarrow> objects \<Rightarrow> string \<Rightarrow> string set" where
  "entered before after st =
     {i. \<exists>a b. map_of after i = Some a \<and> map_of before i = Some b \<and>
        text_field a ''status'' = Inr st \<and> text_field b ''status'' \<noteq> Inr st}"

lemma status_changed_to_set:
  assumes "status_changed_to before after [st] = Inr ids" "distinct (map fst after)"
  shows "set ids = entered before after st"
proof -
  obtain yss where y: "rmap (status_change before [st]) after = Inr yss" "ids = concat yss"
    using assms(1) by (auto simp: status_changed_to_def rbind_Inr_iff)
  have mem: "(i, a) \<in> set after \<longleftrightarrow> map_of after i = Some a" for i a
    using assms(2) by (simp add: map_of_eq_Some_iff)
  have "i \<in> set ids \<longleftrightarrow> i \<in> entered before after st" for i
  proof
    assume "i \<in> set ids"
    then show "i \<in> entered before after st"
      unfolding y(2) rmap_concat_set [OF y(1)]
      by (auto simp: status_change_def entered_def rbind_Inr_iff mem split: option.splits if_splits)
  next
    assume "i \<in> entered before after st"
    then obtain a b where ab: "map_of after i = Some a" "map_of before i = Some b"
      "text_field a ''status'' = Inr st" "text_field b ''status'' \<noteq> Inr st"
      by (auto simp: entered_def)
    obtain ys where ys: "status_change before [st] (i, a) = Inr ys"
      using rmap_Inr_each [OF y(1)] ab(1) mem by blast
    then have "i \<in> set ys" using ab by (auto simp: status_change_def rbind_Inr_iff)
    then show "i \<in> set ids"
      unfolding y(2) rmap_concat_set [OF y(1)] using ys ab(1) mem by blast
  qed
  then show ?thesis by blast
qed

definition nodes_of_snapshot :: "payload \<Rightarrow> objects" where
  "nodes_of_snapshot s = as_mapping (get_or s ''nodes'' VNone)"

definition edges_of_snapshot :: "payload \<Rightarrow> objects" where
  "edges_of_snapshot s = as_mapping (get_or s ''edges'' VNone)"

definition routes_of_snapshot :: "payload \<Rightarrow> objects" where
  "routes_of_snapshot s = as_mapping (get_or s ''routes'' VNone)"

text \<open>The ids of a category are listed once and in order.\<close>

definition lists_set :: "string list \<Rightarrow> string set \<Rightarrow> bool" where
  "lists_set xs A \<longleftrightarrow> sorted xs \<and> distinct xs \<and> set xs = A"

lemma lists_sorted_set: "set xs = A \<Longrightarrow> lists_set (sorted_set xs) A"
  by (simp add: lists_set_def)

lemma lists_entered:
  "status_changed_to before (as_mapping v) [st] = Inr ids \<Longrightarrow>
   lists_set (sorted_set ids) (entered before (as_mapping v) st)"
  by (rule lists_sorted_set) (simp add: status_changed_to_set)

lemma lists_added: "lists_set (added_ids before after) (fst ` set after - fst ` set before)"
  unfolding added_ids_def by (rule lists_sorted_set) auto

definition triple :: "payload \<Rightarrow> (py_error + rat) list" where
  "triple p = map (number_field p) [''support_score'', ''risk_score'', ''progressability_score'']"

lemma score_change_of_iff:
  assumes "score_change_of before after i = Inr cs"
  shows "map sc_route_id cs =
    (if \<exists>b a. map_of before i = Some b \<and> map_of after i = Some a \<and> triple b \<noteq> triple a then [i] else [])"
  using assms
  by (auto simp: score_change_of_def triple_def rbind_Inr_iff split: option.splits if_splits)

lemma changed_routes:
  assumes "rmap (score_change_of before after) is = Inr css"
  shows "map sc_route_id (concat css) =
    filter (\<lambda>i. \<exists>b a. map_of before i = Some b \<and> map_of after i = Some a \<and> triple b \<noteq> triple a) is"
  using assms
proof (induction "is" arbitrary: css)
  case (Cons i ids)
  then obtain cs css' where cs: "score_change_of before after i = Inr cs"
    "rmap (score_change_of before after) ids = Inr css'" "css = cs # css'"
    by (auto simp: rbind_Inr_iff)
  then show ?case using Cons.IH [OF cs(2)] score_change_of_iff [OF cs(1)] by simp
qed simp

section \<open>Properties\<close>

text \<open>
  The categories of a version diff. Each is a sorted list without repetition: added are the ids
  that only the second snapshot has; weakened and invalidated are the objects of both snapshots
  whose status is weakened, or failed respectively invalidated, in the second and was not in the
  first; score changes are reported for exactly the routes of both whose three scores are not the
  same. So nothing is both added and weakened, or both weakened and invalidated.
\<close>

theorem diff_categories:
  assumes "build_diff_payload f base new before after impacts = Inr d"
  shows "lists_set (vd_added_nodes d)
      (fst ` set (nodes_of_snapshot after) - fst ` set (nodes_of_snapshot before)) \<and>
    lists_set (vd_added_edges d)
      (fst ` set (edges_of_snapshot after) - fst ` set (edges_of_snapshot before)) \<and>
    lists_set (vd_weakened_nodes d) (entered (nodes_of_snapshot before) (nodes_of_snapshot after) ''weakened'') \<and>
    lists_set (vd_weakened_edges d) (entered (edges_of_snapshot before) (edges_of_snapshot after) ''weakened'') \<and>
    lists_set (vd_weakened_routes d) (entered (routes_of_snapshot before) (routes_of_snapshot after) ''weakened'') \<and>
    lists_set (vd_invalidated_nodes d) (entered (nodes_of_snapshot before) (nodes_of_snapshot after) ''failed'') \<and>
    lists_set (vd_invalidated_edges d) (entered (edges_of_snapshot before) (edges_of_snapshot after) ''invalidated'') \<and>
    lists_set (vd_invalidated_routes d) (entered (routes_of_snapshot before) (routes_of_snapshot after) ''failed'') \<and>
    map sc_route_id (vd_route_score_changes d) =
      filter (\<lambda>i. \<exists>b a. map_of (routes_of_snapshot before) i = Some b \<and>
          map_of (routes_of_snapshot after) i = Some a \<and> triple b \<noteq> triple a)
        (common_ids (routes_of_snapshot before) (routes_of_snapshot after)) \<and>
    set (vd_added_nodes d) \<inter> set (vd_weakened_nodes d) = {} \<and>
    set (vd_weakened_nodes d) \<inter> set (vd_invalidated_nodes d) = {}"
proof -
  note snap = nodes_of_snapshot_def edges_of_snapshot_def routes_of_snapshot_def
  have cats: "lists_set (vd_added_nodes d)
      (fst ` set (nodes_of_snapshot after) - fst ` set (nodes_of_snapshot before))"
    "lists_set (vd_added_edges d)
      (fst ` set (edges_of_snapshot after) - fst ` set (edges_of_snapshot before))"
    "lists_set (vd_weakened_nodes d) (entered (nodes_of_snapshot before) (nodes_of_snapshot after) ''weakened'')"
    "lists_set (vd_weakened_edges d) (entered (edges_of_snapshot before) (edges_of_snapshot after) ''weakened'')"
    "lists_set (vd_weakened_routes d) (entered (routes_of_snapshot before) (routes_of_snapshot after) ''weakened'')"
    "lists_set (vd_invalidated_nodes d) (entered (nodes_of_snapshot before) (nodes_of_snapshot after) ''failed'')"
    "lists_set (vd_invalidated_edges d) (entered (edges_of_snapshot before) (edges_of_snapshot after) ''invalidated'')"
    "lists_set (vd_invalidated_routes d) (entered (routes_of_snapshot before) (routes_of_snapshot after) ''failed'')"
    "map sc_route_id (vd_route_score_changes d) =
      filter (\<lambda>i. \<exists>b a. map_of (routes_of_snapshot before) i = Some b \<and>
          map_of (routes_of_snapshot after) i = Some a \<and> triple b \<noteq> triple a)
        (common_ids (routes_of_snapshot before) (routes_of_snapshot after))"
    using assms unfolding build_diff_payload_def Let_def snap
    by (clarsimp simp: rbind_Inr_iff lists_added lists_entered changed_routes)+
  moreover have "set (vd_added_nodes d) \<inter> set (vd_weakened_nodes d) = {}"
    using cats(1,3) by (auto simp: lists_set_def entered_def dest: map_of_SomeD intro: rev_image_eqI)
  moreover have "set (vd_weakened_nodes d) \<inter> set (vd_invalidated_nodes d) = {}"
    using cats(3,6) by (auto simp: lists_set_def entered_def)
  ultimately show ?thesis by blast
qed

text \<open>
  Comparing a snapshot with itself reports nothing in any category, whatever the snapshot holds.
\<close>

theorem diff_of_same_snapshot:
  assumes "build_diff_payload f base new snapshot snapshot impacts = Inr d"
  shows "d = \<lparr>vd_failure_id = f, vd_base_version_id = base, vd_new_version_id = new,
    vd_added_nodes = [], vd_added_edges = [], vd_weakened_nodes = [], vd_weakened_edges = [],
    vd_weakened_routes = [], vd_invalidated_nodes = [], vd_invalidated_edges = [],
    vd_invalidated_routes = [], vd_created_branch_node_ids = [], vd_created_branch_edge_ids = [],
    vd_route_score_changes = [], vd_route_impacts = impacts\<rparr>"
proof -
  have e: "entered m m st = {}" for m st by (auto simp: entered_def)
  have a: "added_ids m m = []" for m by (simp add: added_ids_def cong: filter_cong) 
  have s: "xs = []" if "status_changed_to (as_mapping v) (as_mapping v) [st] = Inr xs" for v st xs
    using status_changed_to_set [OF that] e by simp
  have c: "concat css = []" if "rmap (score_change_of m m) is = Inr css" for m "is" css
    using changed_routes [OF that] by simp
  show ?thesis
    using assms by (clarsimp simp: build_diff_payload_def Let_def rbind_Inr_iff a having_def dest!: s c)
qed

section \<open>Examples\<close>

definition snapshot_before :: payload where
  "snapshot_before =
     [(''nodes'', VDict [(''n1'', VDict [(''status'', VStr ''active''), (''node_type'', VStr ''evidence'')])]),
      (''routes'', VDict [(''r1'', VDict [(''status'', VStr ''candidate''), (''support_score'', VFloat 50)])])]"

definition snapshot_after :: payload where
  "snapshot_after =
     [(''nodes'', VDict [(''n1'', VDict [(''status'', VStr ''weakened''), (''node_type'', VStr ''evidence'')]),
        (''n2'', VDict [(''status'', VStr ''active''), (''node_type'', VStr ''branch'')])]),
      (''routes'', VDict [(''r1'', VDict [(''status'', VStr ''candidate''), (''support_score'', VFloat 40)])])]"

lemmas diff_run_simps =
  build_diff_payload_def Let_def get_or_def as_mapping_def status_changed_to_def status_change_def
  text_field_def number_field_def having_def score_change_of_def added_ids_def common_ids_def
  sorted_set_def

lemma snapshots_compare:
  "\<exists>d. build_diff_payload ''f'' None None snapshot_before snapshot_after [] = Inr d \<and>
     vd_created_branch_node_ids d = [''n2''] \<and> vd_weakened_nodes d = [''n1''] \<and>
     map sc_support_after (vd_route_score_changes d) = [40]"
  by (simp add: diff_run_simps snapshot_before_def snapshot_after_def)

theorem diff_categories_witness:
  "\<exists>d. build_diff_payload ''f'' None None snapshot_before snapshot_after [] = Inr d \<and>
     lists_set (vd_weakened_nodes d)
       (entered (nodes_of_snapshot snapshot_before) (nodes_of_snapshot snapshot_after) ''weakened'') \<and>
     vd_weakened_nodes d = [''n1'']"
  using snapshots_compare diff_categories by blast

theorem diff_of_same_snapshot_witness:
  "\<exists>d. build_diff_payload ''f'' None None snapshot_after snapshot_after [] = Inr d \<and> vd_added_nodes d = []"
proof -
  have "\<exists>d. build_diff_payload ''f'' None None snapshot_after snapshot_after [] = Inr d"
    by (simp add: diff_run_simps snapshot_after_def)
  then obtain d where d: "build_diff_payload ''f'' None None snapshot_after snapshot_after [] = Inr d" ..
  from diff_of_same_snapshot [OF this] have "vd_added_nodes d = []" by simp
  with d show ?thesis by blast
qed

end
