(* ===== verification/StateError.thy ===== *)
theory StateError
  imports Prelude
begin

text \<open>
  Procedures that read and write a state and may raise. A procedure maps a state to a result and
  the state it leaves: the state survives an error, because every statement of the store is
  committed on its own. \<open>evolution\<close> is the interface through which a property of single statements
  becomes a property of the programs built from them.
\<close>

type_synonym ('s, 'e, 'a) proc = "'s \<Rightarrow> ('e + 'a) \<times> 's"

definition ret :: "'a \<Rightarrow> ('s, 'e, 'a) proc" where
  "ret a s = (Inr a, s)"

definition fail :: "'e \<Rightarrow> ('s, 'e, 'a) proc" where
  "fail e s = (Inl e, s)"

definition and_then :: "('s, 'e, 'a) proc \<Rightarrow> ('a \<Rightarrow> ('s, 'e, 'b) proc) \<Rightarrow> ('s, 'e, 'b) proc" where
  "and_then m f s = (case m s of (Inl e, s') \<Rightarrow> (Inl e, s') | (Inr a, s') \<Rightarrow> f a s')"

definition reading :: "('s \<Rightarrow> 'a) \<Rightarrow> ('s, 'e, 'a) proc" where
  "reading f s = (Inr (f s), s)"

definition writing :: "('s \<Rightarrow> 's) \<Rightarrow> ('s, 'e, unit) proc" where
  "writing f s = (Inr (), f s)"

definition check :: "'e \<Rightarrow> bool \<Rightarrow> ('s, 'e, unit) proc" where
  "check e b = (if b then ret () else fail e)"

text \<open>\<^verbatim>\<open>if x is None: raise\<close>.\<close>

definition require :: "'e \<Rightarrow> 'a option \<Rightarrow> ('s, 'e, 'a) proc" where
  "require e x = (case x of None \<Rightarrow> fail e | Some a \<Rightarrow> ret a)"

definition lift_result :: "'e + 'a \<Rightarrow> ('s, 'e, 'a) proc" where
  "lift_result r s = (r, s)"

definition skip_unless :: "bool \<Rightarrow> ('s, 'e, unit) proc \<Rightarrow> ('s, 'e, unit) proc" where
  "skip_unless b m = (if b then m else ret ())"

text \<open>A loop over a list with an accumulator, \<^verbatim>\<open>for x in xs: acc = body(x, acc)\<close>.\<close>

fun fold_proc :: "('x \<Rightarrow> 'a \<Rightarrow> ('s, 'e, 'a) proc) \<Rightarrow> 'x list \<Rightarrow> 'a \<Rightarrow> ('s, 'e, 'a) proc" where
  "fold_proc body [] a = ret a"
| "fold_proc body (x # xs) a = and_then (body x a) (fold_proc body xs)"

text \<open>\<^verbatim>\<open>try: m except e: h(e); raise\<close>.\<close>

definition on_error :: "('s, 'e, 'a) proc \<Rightarrow> ('e \<Rightarrow> ('s, 'e, unit) proc) \<Rightarrow> ('s, 'e, 'a) proc" where
  "on_error m h s =
     (case m s of
        (Inr a, s') \<Rightarrow> (Inr a, s')
      | (Inl e, s') \<Rightarrow> (case h e s' of (Inl e', s'') \<Rightarrow> (Inl e', s'') | (Inr _, s'') \<Rightarrow> (Inl e, s'')))"

named_theorems proc_simps "how the procedure combinators compute"

lemma ret_apply [proc_simps]: "ret a s = (Inr a, s)"
  by (simp add: ret_def)

lemma fail_apply [proc_simps]: "fail e s = (Inl e, s)"
  by (simp add: fail_def)

lemma reading_apply [proc_simps]: "reading f s = (Inr (f s), s)"
  by (simp add: reading_def)

lemma writing_apply [proc_simps]: "writing f s = (Inr (), f s)"
  by (simp add: writing_def)

lemma check_apply [proc_simps]: "check e b s = (if b then Inr () else Inl e, s)"
  by (simp add: check_def ret_def fail_def)

lemma require_apply [proc_simps]:
  "require e x s = (case x of None \<Rightarrow> Inl e | Some a \<Rightarrow> Inr a, s)"
  by (simp add: require_def ret_def fail_def split: option.split)

lemma lift_result_apply [proc_simps]: "lift_result r s = (r, s)"
  by (simp add: lift_result_def)

lemma skip_unless_simps [simp, proc_simps]:
  "skip_unless True m = m" "skip_unless False m = ret ()"
  by (simp_all add: skip_unless_def)

lemma and_then_apply [proc_simps]:
  "and_then m f s = (case m s of (Inl e, s') \<Rightarrow> (Inl e, s') | (Inr a, s') \<Rightarrow> f a s')"
  by (simp add: and_then_def)

lemma and_then_fail [simp, proc_simps]: "and_then (fail e) f = fail e"
  by (rule ext) (simp add: and_then_def fail_def)

lemma and_then_ret [simp, proc_simps]: "and_then (ret a) f = f a"
  by (rule ext) (simp add: and_then_def ret_def)

lemma and_then_Inr_iff:
  "and_then m f s = (Inr b, s'') \<longleftrightarrow> (\<exists>a s'. m s = (Inr a, s') \<and> f a s' = (Inr b, s''))"
  by (auto simp: and_then_def split: prod.splits sum.splits)

lemma and_then_Inl_iff:
  "and_then m f s = (Inl e, s'') \<longleftrightarrow>
     m s = (Inl e, s'') \<or> (\<exists>a s'. m s = (Inr a, s') \<and> f a s' = (Inl e, s''))"
  by (auto simp: and_then_def split: prod.splits sum.splits)

lemma fold_proc_append:
  "fold_proc body (xs @ ys) a = and_then (fold_proc body xs a) (fold_proc body ys)"
proof (induction xs arbitrary: a)
  case Nil
  show ?case by simp
next
  case (Cons x xs)
  then show ?case
    by (intro ext) (simp add: and_then_def split: prod.split sum.split)
qed

text \<open>
  A loop whose every round keeps \<open>I\<close> and turns an accumulator with \<open>P\<close> into one with \<open>P\<close>.
\<close>

lemma fold_proc_invariant:
  assumes "fold_proc body xs a s = (Inr b, s')" and "P a s"
    and "\<And>x a s b s'. x \<in> set xs \<Longrightarrow> P a s \<Longrightarrow> body x a s = (Inr b, s') \<Longrightarrow> P b s'"
  shows "P b s'"
  using assms
proof (induction xs arbitrary: a s)
  case Nil
  then show ?case by (simp add: proc_simps)
next
  case (Cons x xs)
  from Cons.prems(1) obtain a' s1 where
    b: "body x a s = (Inr a', s1)" and r: "fold_proc body xs a' s1 = (Inr b, s')"
    by (auto simp: and_then_Inr_iff)
  have "P a' s1" using Cons.prems(3) [OF _ Cons.prems(2) b] by simp
  then show ?case using Cons.IH [OF r] Cons.prems(3) by (metis list.set_intros(2))
qed

section \<open>Relations that every statement of a program respects\<close>

text \<open>
  \<open>always R m\<close>: whatever \<open>m\<close> returns or raises, it leaves a state that \<open>R\<close> relates to the one
  it started in.
\<close>

definition always :: "('s \<Rightarrow> 's \<Rightarrow> bool) \<Rightarrow> ('s, 'e, 'a) proc \<Rightarrow> bool" where
  "always R m \<longleftrightarrow> (\<forall>s. R s (snd (m s)))"

lemma alwaysD: "always R m \<Longrightarrow> R s (snd (m s))"
  by (simp add: always_def)

lemma alwaysD_eq: "always R m \<Longrightarrow> m s = (r, s') \<Longrightarrow> R s s'"
  by (metis alwaysD snd_conv)

locale evolution =
  fixes R :: "'s \<Rightarrow> 's \<Rightarrow> bool"
  assumes refl: "R s s"
    and trans: "R s s' \<Longrightarrow> R s' s'' \<Longrightarrow> R s s''"
begin

lemma always_ret: "always R (ret a)"
  and always_fail: "always R (fail e)"
  and always_reading: "always R (reading f)"
  and always_check: "always R (check e b)"
  and always_require: "always R (require e x)"
  and always_lift: "always R (lift_result r)"
  by (simp_all add: always_def refl proc_simps)

lemma always_writing: "always R (writing f) \<longleftrightarrow> (\<forall>s. R s (f s))"
  by (simp add: always_def proc_simps)

lemma always_and_then:
  assumes "always R m" "\<And>a. always R (f a)"
  shows "always R (and_then m f)"
  unfolding always_def
proof
  fix s
  obtain r s' where m: "m s = (r, s')" by (cases "m s")
  have "R s s'" using alwaysD [OF assms(1), of s] m by simp
  then show "R s (snd (and_then m f s))"
    using m alwaysD [OF assms(2)] trans by (cases r) (auto simp: and_then_def)
qed

lemma always_skip_unless: "always R m \<Longrightarrow> always R (skip_unless b m)"
  by (cases b) (simp_all add: always_ret)

lemma always_fold:
  assumes "\<And>x a. x \<in> set xs \<Longrightarrow> always R (body x a)"
  shows "always R (fold_proc body xs a)"
  using assms
proof (induction xs arbitrary: a)
  case Nil
  show ?case by (simp add: always_ret)
next
  case (Cons x xs)
  then show ?case by (auto intro!: always_and_then)
qed

lemma always_on_error:
  assumes "always R m" "\<And>e. always R (h e)"
  shows "always R (on_error m h)"
  unfolding always_def
proof
  fix s
  obtain r s' where m: "m s = (r, s')" by (cases "m s")
  have R: "R s s'" using alwaysD [OF assms(1), of s] m by simp
  show "R s (snd (on_error m h s))"
  proof (cases r)
    case (Inl e)
    obtain r' s'' where h: "h e s' = (r', s'')" by (cases "h e s'")
    then have "R s' s''" using alwaysD [OF assms(2), of s' e] by simp
    then show ?thesis using R m h Inl trans by (cases r') (auto simp: on_error_def)
  next
    case (Inr a)
    then show ?thesis using R m by (simp add: on_error_def)
  qed
qed

text \<open>The same at one state, where what a step returned may be used for the next.\<close>

lemma step_and_then:
  assumes "R s (snd (m s))" "\<And>a s'. m s = (Inr a, s') \<Longrightarrow> R s s' \<Longrightarrow> R s' (snd (f a s'))"
  shows "R s (snd (and_then m f s))"
proof (cases "m s")
  case (Pair r s')
  then have "R s s'" using assms(1) by simp
  then show ?thesis
    using Pair assms(2) trans by (cases r) (auto simp: and_then_def)
qed

lemma step_fold:
  assumes "Q s" "\<And>s s'. Q s \<Longrightarrow> R s s' \<Longrightarrow> Q s'"
    and "\<And>x a s. x \<in> set xs \<Longrightarrow> Q s \<Longrightarrow> R s (snd (body x a s))"
  shows "R s (snd (fold_proc body xs a s))"
  using assms
proof (induction xs arbitrary: a s)
  case Nil
  show ?case by (simp add: ret_def refl)
next
  case (Cons x xs)
  show ?case
    unfolding fold_proc.simps
  proof (rule step_and_then)
    show "R s (snd (body x a s))" using Cons.prems by simp
    fix a' s'
    assume "R s s'"
    then have "Q s'" using Cons.prems(1,2) by blast
    then show "R s' (snd (fold_proc body xs a' s'))" using Cons.IH Cons.prems(2,3) by simp
  qed
qed

lemmas always_intros =
  always_ret always_fail always_reading always_check always_require always_lift
  always_and_then always_skip_unless always_fold always_on_error

end

end
