(* ===== verification/StoreRows.thy ===== *)
theory StoreRows
  imports PyValue StateError
begin

text \<open>
  The tables of \<^verbatim>\<open>ResearchApiStateStore\<close>
  (\<^verbatim>\<open>api/controllers/_state_store.py\<close>) that the graph, route, scoring and failure
  services use, their rows, and the statements that every table shares.

  A row is a record of the columns. A JSON column holds the decoded value, except
  \<open>route_edge_ids_json\<close>, whose text may be malformed. A time stamp is the number of
  microseconds since the epoch: the ISO text of a time in UTC is ordered as the time. A table is the
  list of its rows in insertion order, the order in which SQLite scans it.

  What the store takes from outside is in the state: \<open>hex_supply\<close> gives the twelve digits of the
  \<open>n\<close>th \<^verbatim>\<open>uuid4\<close>, \<open>clock\<close> the time of the \<open>n\<close>th \<^verbatim>\<open>datetime.now\<close>.
\<close>

section \<open>Rows\<close>

type_synonym time = nat

record node_row =
  nd_node_id :: string
  nd_workspace_id :: string
  nd_node_type :: string
  nd_object_ref_type :: string
  nd_object_ref_id :: string
  nd_short_label :: string
  nd_full_description :: string
  nd_short_tags :: "string list"
  nd_visibility :: string
  nd_source_refs :: "payload list"
  nd_claim_id :: "string option"
  nd_source_ref :: payload
  nd_status :: string
  nd_created_at :: time
  nd_updated_at :: time

record edge_row =
  eg_edge_id :: string
  eg_workspace_id :: string
  eg_source_node_id :: string
  eg_target_node_id :: string
  eg_edge_type :: string
  eg_object_ref_type :: string
  eg_object_ref_id :: string
  eg_strength :: rat
  eg_claim_id :: "string option"
  eg_source_ref :: payload
  eg_status :: string
  eg_created_at :: time
  eg_updated_at :: time

record version_row =
  vs_version_id :: string
  vs_workspace_id :: string
  vs_trigger_type :: string
  vs_change_summary :: string
  vs_diff_payload :: payload
  vs_created_at :: time
  vs_request_id :: "string option"

record workspace_row =
  ws_workspace_id :: string
  ws_latest_version_id :: "string option"
  ws_status :: string
  ws_node_count :: int
  ws_edge_count :: int
  ws_updated_at :: time

text \<open>The columns of a route that say how its summary was generated.\<close>

record generation =
  gn_provider_backend :: "string option"
  gn_provider_model :: "string option"
  gn_llm_request_id :: "string option"
  gn_llm_response_id :: "string option"
  gn_usage :: "payload option"
  gn_fallback_used :: bool
  gn_degraded :: bool
  gn_degraded_reason :: "string option"
  gn_summary_generation_mode :: "string option"

datatype json_column = JsonNull | JsonMalformed | JsonValue pyval

record route_row =
  rr_route_id :: string
  rr_workspace_id :: string
  rr_title :: string
  rr_summary :: string
  rr_status :: string
  rr_support_score :: rat
  rr_risk_score :: rat
  rr_progressability_score :: rat
  rr_confidence_score :: "rat option"
  rr_confidence_grade :: "string option"
  rr_rank :: "int option"
  rr_novelty_level :: "string option"
  rr_relation_tags :: "string list"
  rr_top_factors :: "payload list"
  rr_score_breakdown :: payload
  rr_node_score_breakdown :: "payload list"
  rr_scoring_template_id :: "string option"
  rr_scored_at :: "time option"
  rr_conclusion :: string
  rr_key_supports :: "string list"
  rr_assumptions :: "string list"
  rr_risks :: "string list"
  rr_next_validation_action :: string
  rr_conclusion_node_id :: "string option"
  rr_route_node_ids :: "string list"
  rr_route_edge_ids_json :: json_column
  rr_key_support_node_ids :: "string list"
  rr_key_assumption_node_ids :: "string list"
  rr_risk_node_ids :: "string list"
  rr_next_validation_node_id :: "string option"
  rr_version_id :: "string option"
  rr_key_strengths :: "payload list"
  rr_key_risks :: "payload list"
  rr_open_questions :: "payload list"
  rr_generation :: generation

text \<open>What \<^verbatim>\<open>get_route\<close> returns: the columns, with the edge ids decoded.\<close>

record route_view = route_row +
  rv_route_edge_ids :: "string list"
  rv_canonical_present :: bool
  rv_canonical_valid :: bool
  rv_canonical_error :: "string option"

text \<open>An attached target is a dictionary of two strings, its type and its id.\<close>

record failure_row =
  fr_failure_id :: string
  fr_workspace_id :: string
  fr_attached_targets :: "(string \<times> string) list"
  fr_observed_outcome :: string
  fr_expected_difference :: string
  fr_failure_reason :: string
  fr_severity :: string
  fr_reporter :: string
  fr_impact_summary :: payload
  fr_impact_updated_at :: "time option"
  fr_derived_from_validation_id :: "string option"
  fr_derived_from_validation_result_id :: "string option"
  fr_created_at :: time

record event_row =
  evt_event_id :: string
  evt_event_name :: string
  evt_timestamp :: time
  evt_request_id :: "string option"
  evt_job_id :: "string option"
  evt_workspace_id :: "string option"
  evt_source_id :: "string option"
  evt_candidate_batch_id :: "string option"
  evt_component :: string
  evt_step :: string
  evt_status :: string
  evt_refs :: payload
  evt_metrics :: payload
  evt_error :: "payload option"

record job_row =
  jb_job_id :: string
  jb_job_type :: string
  jb_status :: string
  jb_workspace_id :: string
  jb_request_id :: "string option"
  jb_created_at :: time
  jb_started_at :: "time option"
  jb_finished_at :: "time option"
  jb_result_ref_type :: "string option"
  jb_result_ref_id :: "string option"
  jb_error :: "payload option"

text \<open>
  The seven tables of confirmed objects have the same columns; \<open>ob_object_type\<close> says which table
  a row is in. The source span is a dictionary in every row that the code writes.
\<close>

record object_row =
  ob_object_type :: string
  ob_object_id :: string
  ob_candidate_id :: string
  ob_workspace_id :: string
  ob_source_id :: string
  ob_text :: string
  ob_normalized_text :: string
  ob_source_span :: payload
  ob_semantic_type :: "string option"
  ob_quote :: "string option"
  ob_trace_refs :: payload
  ob_candidate_batch_id :: "string option"
  ob_extraction_job_id :: "string option"
  ob_created_at :: time
  ob_created_request_id :: "string option"

record claim_row =
  cm_claim_id :: string
  cm_workspace_id :: string
  cm_source_id :: string
  cm_candidate_id :: string
  cm_claim_type :: string
  cm_semantic_type :: "string option"
  cm_text :: string
  cm_normalized_text :: string
  cm_quote :: "string option"
  cm_source_span :: payload
  cm_trace_refs :: payload
  cm_status :: string
  cm_created_at :: time
  cm_updated_at :: time

record candidate_row =
  cn_candidate_id :: string
  cn_workspace_id :: string
  cn_source_id :: string
  cn_candidate_type :: string
  cn_semantic_type :: "string option"
  cn_text :: string
  cn_status :: string
  cn_source_span :: payload
  cn_quote :: "string option"
  cn_trace_refs :: payload
  cn_candidate_batch_id :: "string option"
  cn_extraction_job_id :: "string option"
  cn_extractor_name :: "string option"
  cn_reject_reason :: "string option"

record relation_row =
  rl_relation_candidate_id :: string
  rl_workspace_id :: string
  rl_source_id :: string
  rl_candidate_batch_id :: "string option"
  rl_extraction_job_id :: "string option"
  rl_source_candidate_id :: "string option"
  rl_target_candidate_id :: "string option"
  rl_semantic_relation_type :: "string option"
  rl_relation_type :: "string option"
  rl_relation_status :: string
  rl_quote :: "string option"
  rl_trace_refs :: payload
  rl_created_at :: time

text \<open>Of a source, the columns that a confirmation reads.\<close>

record source_row =
  so_source_id :: string
  so_workspace_id :: string
  so_source_type :: string
  so_title :: string
  so_metadata :: payload

record evidence_ref_row =
  er_ref_id :: string
  er_workspace_id :: string
  er_source_id :: string
  er_object_type :: string
  er_object_id :: string
  er_ref_type :: string
  er_layer :: string
  er_title :: string
  er_doi :: "string option"
  er_url :: "string option"
  er_venue :: "string option"
  er_publication_year :: "int option"
  er_authors :: "string list"
  er_excerpt :: string
  er_locator :: payload
  er_authority_score :: rat
  er_authority_tier :: string
  er_metadata :: payload
  er_confirmed_at :: "time option"
  er_created_at :: time

record conflict_row =
  cf_conflict_id :: string
  cf_workspace_id :: string
  cf_new_claim_id :: string
  cf_existing_claim_id :: string
  cf_conflict_type :: string
  cf_status :: string
  cf_evidence :: payload
  cf_source_ref :: payload
  cf_decision_note :: "string option"
  cf_created_request_id :: "string option"
  cf_resolved_request_id :: "string option"
  cf_created_at :: time
  cf_updated_at :: time

text \<open>The tables that come before the graph: sources, candidates and what their confirmation writes.\<close>

record research_tables =
  source_rows :: "source_row list"
  candidate_rows :: "candidate_row list"
  relation_rows :: "relation_row list"
  evidence_ref_rows :: "evidence_ref_row list"
  conflict_rows :: "conflict_row list"

record object_view = object_row +
  ob_claim_id :: "string option"
  ob_claim_status :: "string option"

section \<open>The store\<close>

record store =
  hex_supply :: "nat \<Rightarrow> string"
  clock :: "nat \<Rightarrow> time"
  drawn :: nat
  ticks :: nat
  node_rows :: "node_row list"
  edge_rows :: "edge_row list"
  version_rows :: "version_row list"
  workspace_rows :: "workspace_row list"
  route_rows :: "route_row list"
  failure_rows :: "failure_row list"
  event_rows :: "event_row list"
  job_rows :: "job_row list"
  object_rows :: "object_row list"
  claim_rows :: "claim_row list"
  research :: research_tables

text \<open>
  What the calls raise: an insertion whose primary key exists, a subscript of \<^verbatim>\<open>None\<close>, the
  exceptions of the services, which carry a status code, an error code, a message and details, a
  failed conversion, and the cancellation of the task.
\<close>

datatype api_error =
    IntegrityError string
  | NoneSubscript
  | ServiceError int string string payload
  | ConversionError py_error
  | CancelledError

definition conversion_result :: "py_error + 'a \<Rightarrow> api_error + 'a" where
  "conversion_result r = (case r of Inl e \<Rightarrow> Inl (ConversionError e) | Inr a \<Rightarrow> Inr a)"

definition opt_str :: "string option \<Rightarrow> pyval" where
  "opt_str x = (case x of None \<Rightarrow> VNone | Some s \<Rightarrow> VStr s)"

type_synonym 'a store_proc = "(store, api_error, 'a) proc"

definition gen_id :: "string \<Rightarrow> string store_proc" where
  "gen_id prefix s = (Inr (prefix @ ''_'' @ hex_supply s (drawn s)), s\<lparr>drawn := Suc (drawn s)\<rparr>)"

definition now :: "time store_proc" where
  "now s = (Inr (clock s (ticks s)), s\<lparr>ticks := Suc (ticks s)\<rparr>)"

section \<open>Statements\<close>

text \<open>
  \<^verbatim>\<open>INSERT\<close>, \<^verbatim>\<open>UPDATE ... WHERE\<close>, \<^verbatim>\<open>DELETE ... WHERE\<close> and
  \<^verbatim>\<open>SELECT ... WHERE\<close> on a table given by its key column, its rows in the state and their
  update.
\<close>

definition insert_row ::
  "('r \<Rightarrow> string) \<Rightarrow> ('s \<Rightarrow> 'r list) \<Rightarrow> (('r list \<Rightarrow> 'r list) \<Rightarrow> 's \<Rightarrow> 's) \<Rightarrow> 'r \<Rightarrow>
   ('s, api_error, unit) proc"
where
  "insert_row key rows put r s =
     (if key r \<in> key ` set (rows s) then (Inl (IntegrityError (key r)), s)
      else (Inr (), put (\<lambda>rs. rs @ [r]) s))"

definition update_where :: "('r \<Rightarrow> bool) \<Rightarrow> ('r \<Rightarrow> 'r) \<Rightarrow> 'r list \<Rightarrow> 'r list" where
  "update_where P f rs = map (\<lambda>r. if P r then f r else r) rs"

definition delete_where :: "('r \<Rightarrow> bool) \<Rightarrow> 'r list \<Rightarrow> 'r list" where
  "delete_where P rs = filter (\<lambda>r. \<not> P r) rs"

definition select_key :: "('r \<Rightarrow> string) \<Rightarrow> string \<Rightarrow> 'r list \<Rightarrow> 'r option" where
  "select_key key k rs = find (\<lambda>r. key r = k) rs"

lemma select_key_None: "select_key key k rs = None \<longleftrightarrow> k \<notin> key ` set rs"
  by (auto simp: select_key_def find_None_iff)

lemma select_key_fresh: "k \<notin> key ` set rs \<Longrightarrow> select_key key k rs = None"
  by (simp add: select_key_None)

lemma select_key_Some: "select_key key k rs = Some r \<Longrightarrow> r \<in> set rs \<and> key r = k"
  by (auto simp: select_key_def find_Some_iff)

lemma select_key_append:
  "select_key key k (rs @ qs) = (case select_key key k rs of Some r \<Rightarrow> Some r | None \<Rightarrow> select_key key k qs)"
  by (induction rs) (auto simp: select_key_def)

lemma select_key_Cons [simp]:
  "select_key key k (r # rs) = (if key r = k then Some r else select_key key k rs)"
  by (simp add: select_key_def)

lemma select_key_Nil [simp]: "select_key key k [] = None"
  by (simp add: select_key_def)

lemma select_key_update:
  assumes "\<And>r. key (f r) = key r"
  shows "select_key key k (update_where P f rs) =
    map_option (\<lambda>r. if P r then f r else r) (select_key key k rs)"
  by (induction rs) (auto simp: update_where_def assms)

lemma select_key_distinct:
  "distinct (map key rs) \<Longrightarrow> r \<in> set rs \<Longrightarrow> select_key key (key r) rs = Some r"
  by (induction rs) auto

lemma keys_update_where:
  "(\<And>r. key (f r) = key r) \<Longrightarrow> map key (update_where P f rs) = map key rs"
  by (auto simp: update_where_def)

lemma update_where_Nil [simp]: "update_where P f [] = []"
  by (simp add: update_where_def)

lemma update_where_Cons [simp]:
  "update_where P f (r # rs) = (if P r then f r else r) # update_where P f rs"
  by (simp add: update_where_def)

lemma update_where_append [simp]:
  "update_where P f (rs @ qs) = update_where P f rs @ update_where P f qs"
  by (simp add: update_where_def)

lemma update_where_id: "(\<And>r. r \<in> set rs \<Longrightarrow> P r \<Longrightarrow> f r = r) \<Longrightarrow> update_where P f rs = rs"
  by (auto simp: update_where_def intro: map_idI)

lemma set_update_where: "set (update_where P f rs) = (\<lambda>r. if P r then f r else r) ` set rs"
  by (simp add: update_where_def)

lemma filter_update_where:
  assumes "\<And>r. P r \<Longrightarrow> \<not> Q r \<and> \<not> Q (f r)"
  shows "filter Q (update_where P f rs) = filter Q rs"
  using assms by (induction rs) auto

section \<open>The table interface\<close>

text \<open>
  A table of the store: reading after writing gives what was written, and the key column is unique
  as long as rows are only inserted through \<open>insert_row\<close> and updated without touching the key.
\<close>

locale store_table =
  fixes key :: "'r \<Rightarrow> string"
    and rows :: "store \<Rightarrow> 'r list"
    and put :: "('r list \<Rightarrow> 'r list) \<Rightarrow> store \<Rightarrow> store"
  assumes rows_put: "rows (put f s) = f (rows s)"
    and rows_gen_id: "rows (snd (gen_id p s)) = rows s"
    and rows_now: "rows (snd (now s)) = rows s"
begin

definition unique_keys :: "store \<Rightarrow> bool" where
  "unique_keys s \<longleftrightarrow> distinct (map key (rows s))"

lemma insert_fresh:
  "key r \<notin> key ` set (rows s) \<Longrightarrow> insert_row key rows put r s = (Inr (), put (\<lambda>rs. rs @ [r]) s)"
  by (simp add: insert_row_def)

lemma insert_keeps_unique:
  "unique_keys s \<Longrightarrow> unique_keys (snd (insert_row key rows put r s))"
  by (auto simp: insert_row_def unique_keys_def rows_put)

lemma insert_lookup:
  assumes "insert_row key rows put r s = (Inr (), s')"
  shows "select_key key (key r) (rows s') = Some r"
  using assms by (auto simp: insert_row_def rows_put select_key_append select_key_fresh split: if_splits)

lemma insert_lookup_other:
  assumes "insert_row key rows put r s = (x, s')" "k \<noteq> key r"
  shows "select_key key k (rows s') = select_key key k (rows s)"
  using assms
  by (cases "select_key key k (rows s)")
    (auto simp: insert_row_def rows_put select_key_append dest: select_key_Some split: if_splits)

lemma insert_keeps_rows:
  assumes "insert_row key rows put r s = (x, s')" "select_key key k (rows s) = Some q"
  shows "select_key key k (rows s') = Some q"
  using assms by (auto simp: insert_row_def rows_put select_key_append split: if_splits)

lemma update_keeps_unique:
  "unique_keys s \<Longrightarrow> (\<And>r. key (f r) = key r) \<Longrightarrow> unique_keys (put (update_where P f) s)"
  by (simp add: unique_keys_def rows_put keys_update_where)

lemma lookup_unique: "unique_keys s \<Longrightarrow> r \<in> set (rows s) \<Longrightarrow> select_key key (key r) (rows s) = Some r"
  by (simp add: unique_keys_def select_key_distinct)

end

interpretation nodes: store_table nd_node_id node_rows node_rows_update
  by unfold_locales (simp_all add: gen_id_def now_def)

interpretation edges: store_table eg_edge_id edge_rows edge_rows_update
  by unfold_locales (simp_all add: gen_id_def now_def)

interpretation versions: store_table vs_version_id version_rows version_rows_update
  by unfold_locales (simp_all add: gen_id_def now_def)

interpretation routes: store_table rr_route_id route_rows route_rows_update
  by unfold_locales (simp_all add: gen_id_def now_def)

interpretation failures: store_table fr_failure_id failure_rows failure_rows_update
  by unfold_locales (simp_all add: gen_id_def now_def)

interpretation events: store_table evt_event_id event_rows event_rows_update
  by unfold_locales (simp_all add: gen_id_def now_def)

interpretation jobs: store_table jb_job_id job_rows job_rows_update
  by unfold_locales (simp_all add: gen_id_def now_def)

interpretation claims: store_table cm_claim_id claim_rows claim_rows_update
  by unfold_locales (simp_all add: gen_id_def now_def)

text \<open>The tables inside \<open>research\<close>.\<close>

definition put_candidates :: "(candidate_row list \<Rightarrow> candidate_row list) \<Rightarrow> store \<Rightarrow> store" where
  "put_candidates f = research_update (candidate_rows_update f)"

definition put_relations :: "(relation_row list \<Rightarrow> relation_row list) \<Rightarrow> store \<Rightarrow> store" where
  "put_relations f = research_update (relation_rows_update f)"

definition put_evidence_refs :: "(evidence_ref_row list \<Rightarrow> evidence_ref_row list) \<Rightarrow> store \<Rightarrow> store" where
  "put_evidence_refs f = research_update (evidence_ref_rows_update f)"

definition put_conflicts :: "(conflict_row list \<Rightarrow> conflict_row list) \<Rightarrow> store \<Rightarrow> store" where
  "put_conflicts f = research_update (conflict_rows_update f)"

lemmas put_defs = put_candidates_def put_relations_def put_evidence_refs_def put_conflicts_def

interpretation candidates: store_table cn_candidate_id "\<lambda>s. candidate_rows (research s)" put_candidates
  by unfold_locales (simp_all add: gen_id_def now_def put_defs)

interpretation relations: store_table rl_relation_candidate_id "\<lambda>s. relation_rows (research s)" put_relations
  by unfold_locales (simp_all add: gen_id_def now_def put_defs)

interpretation evidence_refs: store_table er_ref_id "\<lambda>s. evidence_ref_rows (research s)" put_evidence_refs
  by unfold_locales (simp_all add: gen_id_def now_def put_defs)

interpretation conflicts: store_table cf_conflict_id "\<lambda>s. conflict_rows (research s)" put_conflicts
  by unfold_locales (simp_all add: gen_id_def now_def put_defs)

section \<open>Rows for the examples\<close>

text \<open>Rows with the given columns and blank others: the inputs at which the properties are applied.\<close>

definition sample_node :: "string \<Rightarrow> string \<Rightarrow> string \<Rightarrow> string \<Rightarrow> node_row" where
  "sample_node i w ty st =
     \<lparr>nd_node_id = i, nd_workspace_id = w, nd_node_type = ty, nd_object_ref_type = ty,
      nd_object_ref_id = i, nd_short_label = i, nd_full_description = i, nd_short_tags = [],
      nd_visibility = ''workspace'', nd_source_refs = [], nd_claim_id = None, nd_source_ref = [],
      nd_status = st, nd_created_at = 0, nd_updated_at = 0\<rparr>"

definition sample_edge :: "string \<Rightarrow> string \<Rightarrow> string \<Rightarrow> string \<Rightarrow> string \<Rightarrow> rat \<Rightarrow> edge_row" where
  "sample_edge i w a b st x =
     \<lparr>eg_edge_id = i, eg_workspace_id = w, eg_source_node_id = a, eg_target_node_id = b,
      eg_edge_type = ''supports'', eg_object_ref_type = ''relation'', eg_object_ref_id = i,
      eg_strength = x, eg_claim_id = None, eg_source_ref = [], eg_status = st, eg_created_at = 0,
      eg_updated_at = 0\<rparr>"

definition no_generation :: generation where
  "no_generation =
     \<lparr>gn_provider_backend = None, gn_provider_model = None, gn_llm_request_id = None,
      gn_llm_response_id = None, gn_usage = Some [], gn_fallback_used = False, gn_degraded = False,
      gn_degraded_reason = None, gn_summary_generation_mode = Some ''llm''\<rparr>"

definition sample_route :: "string \<Rightarrow> string \<Rightarrow> string \<Rightarrow> string list \<Rightarrow> string list \<Rightarrow> route_row" where
  "sample_route i w st node_ids edge_ids =
     \<lparr>rr_route_id = i, rr_workspace_id = w, rr_title = i, rr_summary = i, rr_status = st,
      rr_support_score = 0, rr_risk_score = 0, rr_progressability_score = 0,
      rr_confidence_score = None, rr_confidence_grade = None, rr_rank = None, rr_novelty_level = None,
      rr_relation_tags = [], rr_top_factors = [], rr_score_breakdown = [],
      rr_node_score_breakdown = [], rr_scoring_template_id = None, rr_scored_at = None,
      rr_conclusion = i, rr_key_supports = [], rr_assumptions = [], rr_risks = [],
      rr_next_validation_action = ''run'', rr_conclusion_node_id = None,
      rr_route_node_ids = node_ids, rr_route_edge_ids_json = JsonValue (VList (map VStr edge_ids)),
      rr_key_support_node_ids = [], rr_key_assumption_node_ids = [], rr_risk_node_ids = [],
      rr_next_validation_node_id = None, rr_version_id = None, rr_key_strengths = [],
      rr_key_risks = [], rr_open_questions = [], rr_generation = no_generation\<rparr>"

definition sample_failure :: "string \<Rightarrow> string \<Rightarrow> string \<Rightarrow> (string \<times> string) list \<Rightarrow> failure_row" where
  "sample_failure i w severity targets =
     \<lparr>fr_failure_id = i, fr_workspace_id = w, fr_attached_targets = targets,
      fr_observed_outcome = i, fr_expected_difference = i, fr_failure_reason = i,
      fr_severity = severity, fr_reporter = i, fr_impact_summary = [], fr_impact_updated_at = None,
      fr_derived_from_validation_id = None, fr_derived_from_validation_result_id = None,
      fr_created_at = 0\<rparr>"

text \<open>A store without rows, whose ids and times count the draws.\<close>

definition unary :: "nat \<Rightarrow> string" where
  "unary n = replicate n CHR ''x''"

definition empty_store :: store where
  "empty_store =
     \<lparr>hex_supply = unary, clock = id, drawn = 0, ticks = 0, node_rows = [], edge_rows = [],
      version_rows = [], workspace_rows = [], route_rows = [], failure_rows = [], event_rows = [],
      job_rows = [], object_rows = [], claim_rows = [],
      research = \<lparr>source_rows = [], candidate_rows = [], relation_rows = [], evidence_ref_rows = [],
                  conflict_rows = []\<rparr>\<rparr>"

lemmas sample_simps =
  sample_node_def sample_edge_def sample_route_def sample_failure_def empty_store_def

end
