(* ===== verification/StoreGraph.thy ===== *)
theory StoreGraph
  imports StoreRows
begin

text \<open>
  The graph tables of \<^verbatim>\<open>ResearchApiStateStore\<close>: nodes, edges, versions and the workspace
  summary. Optional arguments that the code defaults are options; a list argument that defaults to
  \<^verbatim>\<open>None\<close> and is read as \<^verbatim>\<open>x or []\<close> is a list.
\<close>

section \<open>Nodes\<close>

text \<open>The short tags: stripped, without blanks and repetitions, the first three.\<close>

fun normalize_tags :: "string list \<Rightarrow> string list \<Rightarrow> string list" where
  "normalize_tags acc [] = acc"
| "normalize_tags acc (raw # raws) =
     (let tag = strip raw
      in if tag = [] \<or> tag \<in> set acc then normalize_tags acc raws
         else if 3 \<le> length (acc @ [tag]) then acc @ [tag]
         else normalize_tags (acc @ [tag]) raws)"

definition dicts_of :: "pyval list \<Rightarrow> payload list" where
  "dicts_of vs = concat (map (\<lambda>v. case v of VDict d \<Rightarrow> [d] | _ \<Rightarrow> []) vs)"

definition dict_or_empty :: "pyval \<Rightarrow> payload" where
  "dict_or_empty v = (case v of VDict d \<Rightarrow> d | _ \<Rightarrow> [])"

definition node_view :: "node_row \<Rightarrow> node_row" where
  "node_view r = r\<lparr>nd_visibility := if nd_visibility r = [] then ''workspace'' else nd_visibility r\<rparr>"

definition get_graph_node :: "string \<Rightarrow> node_row option store_proc" where
  "get_graph_node node_id =
     reading (\<lambda>s. map_option node_view (select_key nd_node_id node_id (node_rows s)))"

definition create_graph_node ::
  "string \<Rightarrow> string \<Rightarrow> string \<Rightarrow> string \<Rightarrow> string \<Rightarrow> string \<Rightarrow> string list \<Rightarrow> string \<Rightarrow> pyval list \<Rightarrow>
   string option \<Rightarrow> pyval \<Rightarrow> string \<Rightarrow> node_row option store_proc"
where
  "create_graph_node workspace_id node_type object_ref_type object_ref_id short_label
     full_description short_tags visibility source_refs claim_id source_ref status =
     and_then (gen_id ''node'') (\<lambda>node_id.
     and_then now (\<lambda>t.
     and_then
       (insert_row nd_node_id node_rows node_rows_update
         \<lparr>nd_node_id = node_id, nd_workspace_id = workspace_id, nd_node_type = node_type,
          nd_object_ref_type = object_ref_type, nd_object_ref_id = object_ref_id,
          nd_short_label = short_label, nd_full_description = full_description,
          nd_short_tags = normalize_tags [] short_tags, nd_visibility = visibility,
          nd_source_refs = dicts_of source_refs, nd_claim_id = claim_id,
          nd_source_ref = dict_or_empty source_ref, nd_status = status,
          nd_created_at = t, nd_updated_at = t\<rparr>) (\<lambda>_.
       get_graph_node node_id)))"

definition find_graph_node_by_object_ref :: "string \<Rightarrow> string \<Rightarrow> string \<Rightarrow> node_row option store_proc" where
  "find_graph_node_by_object_ref workspace_id object_ref_type object_ref_id =
     and_then
       (reading (\<lambda>s. find (\<lambda>r. nd_workspace_id r = workspace_id \<and>
          nd_object_ref_type r = object_ref_type \<and> nd_object_ref_id r = object_ref_id) (node_rows s)))
       (\<lambda>row. case row of None \<Rightarrow> ret None | Some r \<Rightarrow> get_graph_node (nd_node_id r))"

definition update_graph_node ::
  "string \<Rightarrow> string option \<Rightarrow> string option \<Rightarrow> string list option \<Rightarrow> string option \<Rightarrow> pyval list option \<Rightarrow>
   string option \<Rightarrow> node_row option store_proc"
where
  "update_graph_node node_id short_label full_description short_tags visibility source_refs status =
     and_then (get_graph_node node_id) (\<lambda>found.
       case found of
         None \<Rightarrow> ret None
       | Some node \<Rightarrow>
           and_then now (\<lambda>t.
           and_then
             (writing (node_rows_update (update_where (\<lambda>r. nd_node_id r = node_id)
               (\<lambda>r. r\<lparr>nd_short_label := (case short_label of Some x \<Rightarrow> x | None \<Rightarrow> nd_short_label node),
                      nd_full_description :=
                        (case full_description of Some x \<Rightarrow> x | None \<Rightarrow> nd_full_description node),
                      nd_short_tags :=
                        (case short_tags of Some xs \<Rightarrow> normalize_tags [] xs | None \<Rightarrow> nd_short_tags node),
                      nd_visibility := (case visibility of Some x \<Rightarrow> x | None \<Rightarrow> nd_visibility node),
                      nd_source_refs :=
                        (case source_refs of Some xs \<Rightarrow> dicts_of xs | None \<Rightarrow> nd_source_refs node),
                      nd_status := (case status of Some x \<Rightarrow> x | None \<Rightarrow> nd_status node),
                      nd_updated_at := t\<rparr>)))) (\<lambda>_.
             get_graph_node node_id)))"

definition list_graph_nodes :: "string \<Rightarrow> node_row list store_proc" where
  "list_graph_nodes workspace_id =
     reading (\<lambda>s. map node_view (filter (\<lambda>r. nd_workspace_id r = workspace_id) (node_rows s)))"

section \<open>Edges\<close>

definition get_graph_edge :: "string \<Rightarrow> edge_row option store_proc" where
  "get_graph_edge edge_id = reading (\<lambda>s. select_key eg_edge_id edge_id (edge_rows s))"

definition create_graph_edge ::
  "string \<Rightarrow> string \<Rightarrow> string \<Rightarrow> string \<Rightarrow> string \<Rightarrow> string \<Rightarrow> rat \<Rightarrow> string option \<Rightarrow> pyval \<Rightarrow> string \<Rightarrow>
   edge_row option store_proc"
where
  "create_graph_edge workspace_id source_node_id target_node_id edge_type object_ref_type
     object_ref_id strength claim_id source_ref status =
     and_then (gen_id ''edge'') (\<lambda>edge_id.
     and_then now (\<lambda>t.
     and_then
       (insert_row eg_edge_id edge_rows edge_rows_update
         \<lparr>eg_edge_id = edge_id, eg_workspace_id = workspace_id, eg_source_node_id = source_node_id,
          eg_target_node_id = target_node_id, eg_edge_type = edge_type,
          eg_object_ref_type = object_ref_type, eg_object_ref_id = object_ref_id,
          eg_strength = strength, eg_claim_id = claim_id, eg_source_ref = dict_or_empty source_ref,
          eg_status = status, eg_created_at = t, eg_updated_at = t\<rparr>) (\<lambda>_.
       get_graph_edge edge_id)))"

definition update_graph_edge :: "string \<Rightarrow> string option \<Rightarrow> rat option \<Rightarrow> edge_row option store_proc" where
  "update_graph_edge edge_id status strength =
     and_then (get_graph_edge edge_id) (\<lambda>found.
       case found of
         None \<Rightarrow> ret None
       | Some edge \<Rightarrow>
           and_then now (\<lambda>t.
           and_then
             (writing (edge_rows_update (update_where (\<lambda>r. eg_edge_id r = edge_id)
               (\<lambda>r. r\<lparr>eg_status := (case status of Some x \<Rightarrow> x | None \<Rightarrow> eg_status edge),
                      eg_strength := (case strength of Some x \<Rightarrow> x | None \<Rightarrow> eg_strength edge),
                      eg_updated_at := t\<rparr>)))) (\<lambda>_.
             get_graph_edge edge_id)))"

definition list_graph_edges :: "string \<Rightarrow> edge_row list store_proc" where
  "list_graph_edges workspace_id =
     reading (\<lambda>s. filter (\<lambda>r. eg_workspace_id r = workspace_id) (edge_rows s))"

definition find_graph_edge_by_ref ::
  "string \<Rightarrow> string \<Rightarrow> string \<Rightarrow> string \<Rightarrow> string \<Rightarrow> string \<Rightarrow> edge_row option store_proc"
where
  "find_graph_edge_by_ref workspace_id source_node_id target_node_id edge_type object_ref_type
     object_ref_id =
     and_then
       (reading (\<lambda>s. find (\<lambda>r. eg_workspace_id r = workspace_id \<and> eg_source_node_id r = source_node_id \<and>
          eg_target_node_id r = target_node_id \<and> eg_edge_type r = edge_type \<and>
          eg_object_ref_type r = object_ref_type \<and> eg_object_ref_id r = object_ref_id) (edge_rows s)))
       (\<lambda>row. case row of None \<Rightarrow> ret None | Some r \<Rightarrow> get_graph_edge (eg_edge_id r))"

text \<open>Every node and edge of the workspace that is not archived or superseded becomes superseded.\<close>

definition closed_status :: "string \<Rightarrow> bool" where
  "closed_status st \<longleftrightarrow> st = ''archived'' \<or> st = ''superseded''"

definition clear_graph_workspace :: "string \<Rightarrow> unit store_proc" where
  "clear_graph_workspace workspace_id =
     and_then now (\<lambda>t.
     and_then
       (writing (edge_rows_update (update_where
         (\<lambda>r. eg_workspace_id r = workspace_id \<and> \<not> closed_status (eg_status r))
         (\<lambda>r. r\<lparr>eg_status := ''superseded'', eg_updated_at := t\<rparr>)))) (\<lambda>_.
       writing (node_rows_update (update_where
         (\<lambda>r. nd_workspace_id r = workspace_id \<and> \<not> closed_status (nd_status r))
         (\<lambda>r. r\<lparr>nd_status := ''superseded'', nd_updated_at := t\<rparr>)))))"

section \<open>Versions\<close>

definition get_graph_version :: "string \<Rightarrow> version_row option store_proc" where
  "get_graph_version version_id = reading (\<lambda>s. select_key vs_version_id version_id (version_rows s))"

definition create_graph_version ::
  "string \<Rightarrow> string \<Rightarrow> string \<Rightarrow> payload \<Rightarrow> string option \<Rightarrow> version_row option store_proc"
where
  "create_graph_version workspace_id trigger_type change_summary diff_payload request_id =
     and_then (gen_id ''ver'') (\<lambda>version_id.
     and_then now (\<lambda>t.
     and_then
       (insert_row vs_version_id version_rows version_rows_update
         \<lparr>vs_version_id = version_id, vs_workspace_id = workspace_id, vs_trigger_type = trigger_type,
          vs_change_summary = change_summary, vs_diff_payload = diff_payload, vs_created_at = t,
          vs_request_id = request_id\<rparr>) (\<lambda>_.
       get_graph_version version_id)))"

definition update_graph_version_diff_payload :: "string \<Rightarrow> payload \<Rightarrow> version_row option store_proc" where
  "update_graph_version_diff_payload version_id diff_payload =
     and_then
       (writing (version_rows_update (update_where (\<lambda>r. vs_version_id r = version_id)
         (\<lambda>r. r\<lparr>vs_diff_payload := diff_payload\<rparr>)))) (\<lambda>_.
       get_graph_version version_id)"

definition list_graph_versions :: "string \<Rightarrow> version_row list store_proc" where
  "list_graph_versions workspace_id =
     reading (\<lambda>s. sort_key vs_created_at (filter (\<lambda>r. vs_workspace_id r = workspace_id) (version_rows s)))"

section \<open>The workspace summary\<close>

definition get_graph_workspace :: "string \<Rightarrow> workspace_row option store_proc" where
  "get_graph_workspace workspace_id =
     reading (\<lambda>s. select_key ws_workspace_id workspace_id (workspace_rows s))"

definition upsert_graph_workspace ::
  "string \<Rightarrow> string option \<Rightarrow> string \<Rightarrow> int \<Rightarrow> int \<Rightarrow> workspace_row option store_proc"
where
  "upsert_graph_workspace workspace_id latest_version_id status node_count edge_count =
     and_then now (\<lambda>t.
     and_then
       (writing (\<lambda>s.
         let new = \<lparr>ws_workspace_id = workspace_id, ws_latest_version_id = latest_version_id,
                    ws_status = status, ws_node_count = node_count, ws_edge_count = edge_count,
                    ws_updated_at = t\<rparr>
         in if workspace_id \<in> ws_workspace_id ` set (workspace_rows s)
            then workspace_rows_update (update_where (\<lambda>r. ws_workspace_id r = workspace_id) (\<lambda>_. new)) s
            else workspace_rows_update (\<lambda>rs. rs @ [new]) s)) (\<lambda>_.
       get_graph_workspace workspace_id))"

section \<open>What the statements do\<close>

lemma node_view_simps [simp]:
  "nd_node_id (node_view r) = nd_node_id r"
  "nd_workspace_id (node_view r) = nd_workspace_id r"
  "nd_status (node_view r) = nd_status r"
  "nd_node_type (node_view r) = nd_node_type r"
  "nd_object_ref_type (node_view r) = nd_object_ref_type r"
  "nd_object_ref_id (node_view r) = nd_object_ref_id r"
  "nd_short_label (node_view r) = nd_short_label r"
  "nd_full_description (node_view r) = nd_full_description r"
  "nd_short_tags (node_view r) = nd_short_tags r"
  "nd_source_refs (node_view r) = nd_source_refs r"
  by (simp_all add: node_view_def)

text \<open>Tags are at most three, distinct, stripped, and taken from the input.\<close>

lemma normalize_tags_invariant:
  "distinct acc \<Longrightarrow> length acc < 3 \<Longrightarrow> (\<forall>t \<in> set acc. stripped t) \<Longrightarrow>
   distinct (normalize_tags acc raws) \<and> length (normalize_tags acc raws) \<le> 3 \<and>
   (\<forall>t \<in> set (normalize_tags acc raws). stripped t) \<and>
   set (normalize_tags acc raws) \<subseteq> set acc \<union> strip ` set raws"
proof (induction raws arbitrary: acc)
  case Nil
  then show ?case by simp
next
  case (Cons raw raws)
  show ?case
  proof (cases "strip raw = [] \<or> strip raw \<in> set acc")
    case True
    then show ?thesis using Cons.IH [OF Cons.prems] by (auto simp: Let_def)
  next
    case False
    then have st: "stripped (strip raw)" using stripped_strip by blast
    show ?thesis
    proof (cases "length acc = 2")
      case True
      then show ?thesis using Cons.prems False st by (auto simp: Let_def)
    next
      case len: False
      then have "length (acc @ [strip raw]) < 3" using Cons.prems(2) by simp
      then show ?thesis
        using Cons.IH [of "acc @ [strip raw]"] Cons.prems False st by (auto simp: Let_def)
    qed
  qed
qed

lemma gen_id_apply [proc_simps]:
  "gen_id p s = (Inr (p @ ''_'' @ hex_supply s (drawn s)), s\<lparr>drawn := Suc (drawn s)\<rparr>)"
  by (simp add: gen_id_def)

lemma now_apply [proc_simps]: "now s = (Inr (clock s (ticks s)), s\<lparr>ticks := Suc (ticks s)\<rparr>)"
  by (simp add: now_def)

lemma get_graph_node_apply [proc_simps]:
  "get_graph_node k s = (Inr (map_option node_view (select_key nd_node_id k (node_rows s))), s)"
  by (simp add: get_graph_node_def proc_simps)

lemma get_graph_edge_apply [proc_simps]:
  "get_graph_edge k s = (Inr (select_key eg_edge_id k (edge_rows s)), s)"
  by (simp add: get_graph_edge_def proc_simps)

text \<open>Creating a node either finds its id taken or adds the row it returns.\<close>

lemma create_graph_node_cases:
  assumes "create_graph_node w ty rt ri lab desc tags vis srefs c sref st s = (r, s')"
  obtains (taken) e where "r = Inl e"
      and "s' = s\<lparr>drawn := Suc (drawn s), ticks := Suc (ticks s)\<rparr>"
  | (created) n where "r = Inr (Some (node_view n))"
      and "s' = s\<lparr>drawn := Suc (drawn s), ticks := Suc (ticks s), node_rows := node_rows s @ [n]\<rparr>"
      and "nd_node_id n \<notin> nd_node_id ` set (node_rows s)"
      and "nd_node_id n = ''node_'' @ hex_supply s (drawn s)"
      and "nd_workspace_id n = w" and "nd_node_type n = ty" and "nd_object_ref_type n = rt"
      and "nd_object_ref_id n = ri" and "nd_status n = st" and "nd_short_tags n = normalize_tags [] tags"
  using assms
  by (auto simp: create_graph_node_def and_then_def proc_simps insert_row_def select_key_append
      select_key_fresh split: if_splits)

lemma create_graph_edge_cases:
  assumes "create_graph_edge w a b ty rt ri x c sref st s = (r, s')"
  obtains (taken) e where "r = Inl e"
      and "s' = s\<lparr>drawn := Suc (drawn s), ticks := Suc (ticks s)\<rparr>"
  | (created) g where "r = Inr (Some g)"
      and "s' = s\<lparr>drawn := Suc (drawn s), ticks := Suc (ticks s), edge_rows := edge_rows s @ [g]\<rparr>"
      and "eg_edge_id g \<notin> eg_edge_id ` set (edge_rows s)"
      and "eg_edge_id g = ''edge_'' @ hex_supply s (drawn s)"
      and "eg_workspace_id g = w" and "eg_source_node_id g = a" and "eg_target_node_id g = b"
      and "eg_edge_type g = ty" and "eg_object_ref_type g = rt" and "eg_object_ref_id g = ri"
      and "eg_strength g = x" and "eg_status g = st"
  using assms
  by (auto simp: create_graph_edge_def and_then_def proc_simps insert_row_def select_key_append
      select_key_fresh split: if_splits)

end
