(* ===== verification/StoreRoutes.thy ===== *)
theory StoreRoutes
  imports StoreRows "HOL-Library.Product_Lexorder"
begin

text \<open>
  The route table of \<^verbatim>\<open>ResearchApiStateStore\<close>, the confidence that is derived from
  the three scores, and the listing of confirmed objects with their claims.
\<close>

section \<open>Decoding and confidence\<close>

text \<open>The ids, whether the column is present, whether it is valid, and what is wrong with it.\<close>

definition is_str :: "pyval \<Rightarrow> bool" where
  "is_str v = (case v of VStr _ \<Rightarrow> True | _ \<Rightarrow> False)"

fun str_of :: "pyval \<Rightarrow> string" where
  "str_of (VStr s) = s"
| "str_of _ = []"

definition decode_route_edge_ids_json :: "json_column \<Rightarrow> string list \<times> bool \<times> bool \<times> string option" where
  "decode_route_edge_ids_json raw =
     (case raw of
        JsonNull \<Rightarrow> ([], False, False, Some ''missing'')
      | JsonMalformed \<Rightarrow> ([], True, False, Some ''malformed_json'')
      | JsonValue (VList items) \<Rightarrow>
          if \<exists>item \<in> set items. \<not> is_str item then ([], True, False, Some ''non_string_member'')
          else (map str_of items, True, True, None)
      | JsonValue _ \<Rightarrow> ([], True, False, Some ''non_array''))"

definition compute_route_confidence :: "rat \<Rightarrow> rat \<Rightarrow> rat \<Rightarrow> rat \<times> string" where
  "compute_route_confidence support risk progress =
     (let c = py_round 1 (fdiv (fadd (fadd support (fsub 100 risk)) progress) 3)
      in (c, if 80 \<le> c then ''high'' else if 65 \<le> c then ''medium'' else ''low''))"

section \<open>Reading\<close>

definition default_str :: "string \<Rightarrow> string option \<Rightarrow> string option" where
  "default_str d x = (case x of None \<Rightarrow> Some d | Some s \<Rightarrow> Some (if s = [] then d else s))"

definition route_view_of :: "route_row \<Rightarrow> route_view" where
  "route_view_of r =
     (let (ids, present, valid, err) = decode_route_edge_ids_json (rr_route_edge_ids_json r);
          (c, g) = compute_route_confidence (rr_support_score r) (rr_risk_score r)
            (rr_progressability_score r)
      in route_row.extend
           (r\<lparr>rr_confidence_score := Some (case rr_confidence_score r of Some x \<Rightarrow> x | None \<Rightarrow> c),
              rr_confidence_grade := default_str g (rr_confidence_grade r),
              rr_novelty_level := default_str ''incremental'' (rr_novelty_level r),
              rr_generation := (rr_generation r)\<lparr>gn_summary_generation_mode :=
                default_str ''llm'' (gn_summary_generation_mode (rr_generation r))\<rparr>\<rparr>)
           (route_view.fields ids present valid err))"

definition get_route :: "string \<Rightarrow> route_view option store_proc" where
  "get_route route_id =
     reading (\<lambda>s. map_option route_view_of (select_key rr_route_id route_id (route_rows s)))"

definition list_routes :: "string \<Rightarrow> route_view list store_proc" where
  "list_routes workspace_id =
     reading (\<lambda>s. map route_view_of (filter (\<lambda>r. rr_workspace_id r = workspace_id) (route_rows s)))"

section \<open>Writing\<close>

definition normalize_generation :: "generation \<Rightarrow> generation" where
  "normalize_generation g = g\<lparr>gn_usage := Some (case gn_usage g of None \<Rightarrow> [] | Some u \<Rightarrow> u)\<rparr>"

definition edge_ids_json :: "string list \<Rightarrow> json_column" where
  "edge_ids_json ids = JsonValue (VList (map VStr ids))"

text \<open>
  The arguments of \<^verbatim>\<open>create_route\<close> are the fields of a row, of which the id, the confidence,
  the rank, the time of scoring and the edge ids are set here; \<open>scored\<close> says whether a score breakdown
  was given.
\<close>

definition create_route :: "route_row \<Rightarrow> string list \<Rightarrow> bool \<Rightarrow> route_view option store_proc" where
  "create_route args route_edge_ids scored =
     and_then (gen_id ''route'') (\<lambda>route_id.
     and_then (if scored then and_then now (\<lambda>t. ret (Some t)) else ret None) (\<lambda>scored_at.
     (let (c, g) = compute_route_confidence (rr_support_score args) (rr_risk_score args)
            (rr_progressability_score args)
      in and_then
           (insert_row rr_route_id route_rows route_rows_update
             (args\<lparr>rr_route_id := route_id, rr_confidence_score := Some c, rr_confidence_grade := Some g,
                   rr_rank := None, rr_scored_at := scored_at,
                   rr_route_edge_ids_json := edge_ids_json route_edge_ids,
                   rr_generation := normalize_generation (rr_generation args)\<rparr>)) (\<lambda>_.
           get_route route_id))))"

definition update_route :: "string \<Rightarrow> (route_row \<Rightarrow> route_row) \<Rightarrow> unit store_proc" where
  "update_route route_id f =
     writing (route_rows_update (update_where (\<lambda>r. rr_route_id r = route_id) f))"

definition update_route_scores ::
  "string \<Rightarrow> rat \<Rightarrow> rat \<Rightarrow> rat \<Rightarrow> string \<Rightarrow> payload list \<Rightarrow> payload \<Rightarrow> payload list \<Rightarrow>
   route_view option store_proc"
where
  "update_route_scores route_id support risk progress template_id top_factors score_breakdown
     node_score_breakdown =
     (let (c, g) = compute_route_confidence support risk progress
      in and_then now (\<lambda>t.
         and_then
           (update_route route_id
             (\<lambda>r. r\<lparr>rr_support_score := support, rr_risk_score := risk,
                    rr_progressability_score := progress, rr_confidence_score := Some c,
                    rr_confidence_grade := Some g, rr_scoring_template_id := Some template_id,
                    rr_top_factors := top_factors, rr_score_breakdown := score_breakdown,
                    rr_node_score_breakdown := node_score_breakdown, rr_scored_at := Some t\<rparr>)) (\<lambda>_.
           get_route route_id)))"

text \<open>Again the arguments of the projection are the fields of a row and the edge ids.\<close>

definition update_route_projection ::
  "string \<Rightarrow> route_row \<Rightarrow> string list \<Rightarrow> route_view option store_proc"
where
  "update_route_projection route_id args route_edge_ids =
     and_then
       (update_route route_id
         (\<lambda>r. r\<lparr>rr_title := rr_title args, rr_summary := rr_summary args,
                rr_conclusion := rr_conclusion args, rr_key_supports := rr_key_supports args,
                rr_assumptions := rr_assumptions args, rr_risks := rr_risks args,
                rr_next_validation_action := rr_next_validation_action args,
                rr_conclusion_node_id := rr_conclusion_node_id args,
                rr_route_node_ids := rr_route_node_ids args,
                rr_route_edge_ids_json := edge_ids_json route_edge_ids,
                rr_key_support_node_ids := rr_key_support_node_ids args,
                rr_key_assumption_node_ids := rr_key_assumption_node_ids args,
                rr_risk_node_ids := rr_risk_node_ids args,
                rr_next_validation_node_id := rr_next_validation_node_id args,
                rr_version_id := rr_version_id args, rr_key_strengths := rr_key_strengths args,
                rr_key_risks := rr_key_risks args, rr_open_questions := rr_open_questions args,
                rr_generation := normalize_generation (rr_generation args)\<rparr>)) (\<lambda>_.
       get_route route_id)"

definition update_route_status :: "string \<Rightarrow> string \<Rightarrow> route_view option store_proc" where
  "update_route_status route_id status =
     and_then (update_route route_id (\<lambda>r. r\<lparr>rr_status := status\<rparr>)) (\<lambda>_. get_route route_id)"

definition update_route_rank :: "string \<Rightarrow> int \<Rightarrow> route_view option store_proc" where
  "update_route_rank route_id rank =
     and_then (update_route route_id (\<lambda>r. r\<lparr>rr_rank := Some rank\<rparr>)) (\<lambda>_. get_route route_id)"

definition set_routes_version_for_workspace :: "string \<Rightarrow> string \<Rightarrow> unit store_proc" where
  "set_routes_version_for_workspace workspace_id version_id =
     writing (route_rows_update (update_where (\<lambda>r. rr_workspace_id r = workspace_id)
       (\<lambda>r. r\<lparr>rr_version_id := Some version_id\<rparr>)))"

definition delete_routes_by_workspace :: "string \<Rightarrow> unit store_proc" where
  "delete_routes_by_workspace workspace_id =
     writing (route_rows_update (delete_where (\<lambda>r. rr_workspace_id r = workspace_id)))"

definition delete_route :: "string \<Rightarrow> unit store_proc" where
  "delete_route route_id = writing (route_rows_update (delete_where (\<lambda>r. rr_route_id r = route_id)))"

section \<open>Confirmed objects\<close>

definition object_tables :: "string list" where
  "object_tables =
     [''evidence'', ''assumption'', ''conclusion'', ''gap'', ''conflict'', ''failure'', ''validation'']"

definition list_claims :: "string \<Rightarrow> store \<Rightarrow> claim_row list" where
  "list_claims workspace_id s =
     concat (map (\<lambda>r. case select_key cm_claim_id (cm_claim_id r) (claim_rows s) of
         None \<Rightarrow> [] | Some c \<Rightarrow> [c])
       (sort_key (\<lambda>r. (cm_created_at r, cm_claim_id r))
         (filter (\<lambda>r. cm_workspace_id r = workspace_id) (claim_rows s))))"

text \<open>The last claim of a candidate is the one its object shows.\<close>

definition claim_of_candidate :: "string \<Rightarrow> store \<Rightarrow> string \<Rightarrow> claim_row option" where
  "claim_of_candidate workspace_id s =
     map_of (rev (map (\<lambda>c. (cm_candidate_id c, c)) (list_claims workspace_id s)))"

definition object_view_of :: "(string \<Rightarrow> claim_row option) \<Rightarrow> object_row \<Rightarrow> object_view" where
  "object_view_of claim r =
     object_row.extend r
       (object_view.fields (map_option cm_claim_id (claim (ob_candidate_id r)))
         (map_option cm_status (claim (ob_candidate_id r))))"

definition list_confirmed_objects :: "string \<Rightarrow> object_view list store_proc" where
  "list_confirmed_objects workspace_id =
     reading (\<lambda>s.
       let claim = claim_of_candidate workspace_id s
       in concat (map (\<lambda>ty.
            map (object_view_of claim)
              (sort_key ob_created_at
                (filter (\<lambda>r. ob_object_type r = ty \<and> ob_workspace_id r = workspace_id) (object_rows s))))
            object_tables))"

section \<open>What the statements do\<close>

lemma route_view_of_simps [simp]:
  "rr_route_id (route_view_of r) = rr_route_id r"
  "rr_workspace_id (route_view_of r) = rr_workspace_id r"
  "rr_status (route_view_of r) = rr_status r"
  "rr_support_score (route_view_of r) = rr_support_score r"
  "rr_risk_score (route_view_of r) = rr_risk_score r"
  "rr_progressability_score (route_view_of r) = rr_progressability_score r"
  "rr_relation_tags (route_view_of r) = rr_relation_tags r"
  "rr_route_node_ids (route_view_of r) = rr_route_node_ids r"
  "rr_next_validation_action (route_view_of r) = rr_next_validation_action r"
  "rr_scoring_template_id (route_view_of r) = rr_scoring_template_id r"
  "rr_version_id (route_view_of r) = rr_version_id r"
  "rr_top_factors (route_view_of r) = rr_top_factors r"
  "rr_score_breakdown (route_view_of r) = rr_score_breakdown r"
  "rr_node_score_breakdown (route_view_of r) = rr_node_score_breakdown r"
  "rv_route_edge_ids (route_view_of r) = fst (decode_route_edge_ids_json (rr_route_edge_ids_json r))"
  by (simp_all add: route_view_of_def Let_def route_row.defs route_view.defs split: prod.split)

lemma decode_edge_ids_json [simp]:
  "decode_route_edge_ids_json (edge_ids_json ids) = (ids, True, True, None)"
  by (simp add: decode_route_edge_ids_json_def edge_ids_json_def is_str_def comp_def)

lemma get_route_apply [proc_simps]:
  "get_route k s = (Inr (map_option route_view_of (select_key rr_route_id k (route_rows s))), s)"
  by (simp add: get_route_def proc_simps)

lemma list_routes_apply [proc_simps]:
  "list_routes w s = (Inr (map route_view_of (filter (\<lambda>r. rr_workspace_id r = w) (route_rows s))), s)"
  by (simp add: list_routes_def proc_simps)

lemma update_route_apply [proc_simps]:
  "update_route k f s = (Inr (), route_rows_update (update_where (\<lambda>r. rr_route_id r = k) f) s)"
  by (simp add: update_route_def proc_simps)

lemma update_route_status_apply [proc_simps]:
  "update_route_status k st s =
     (Inr (map_option route_view_of (select_key rr_route_id k
        (update_where (\<lambda>r. rr_route_id r = k) (\<lambda>r. r\<lparr>rr_status := st\<rparr>) (route_rows s)))),
      route_rows_update (update_where (\<lambda>r. rr_route_id r = k) (\<lambda>r. r\<lparr>rr_status := st\<rparr>)) s)"
  by (simp add: update_route_status_def and_then_def proc_simps)

text \<open>Scores between 0 and 100 give a confidence between 0 and 100.\<close>

lemma confidence_bounds:
  assumes "0 \<le> a" "a \<le> 100" "0 \<le> b" "b \<le> 100" "0 \<le> c" "c \<le> 100"
  shows "0 \<le> fst (compute_route_confidence a b c)" and "fst (compute_route_confidence a b c) \<le> 100"
proof -
  have hundred: "fl 100 = 100" and two: "fl 200 = 200" and three: "fl 300 = 300" by (simp_all add: fl_numeral)
  have r: "0 \<le> fsub 100 b" "fsub 100 b \<le> 100"
    using fl_mono [of 0 "100 - b"] fl_mono [of "100 - b" 100] assms hundred by (simp_all add: fsub_def)
  have s: "0 \<le> fadd a (fsub 100 b)" "fadd a (fsub 100 b) \<le> 200"
    using fl_mono [of 0 "a + fsub 100 b"] fl_mono [of "a + fsub 100 b" 200] r assms two
    by (simp_all add: fadd_def)
  let ?t = "fadd (fadd a (fsub 100 b)) c"
  have t: "0 \<le> ?t" "?t \<le> 300"
    using fl_mono [of 0 "fadd a (fsub 100 b) + c"] fl_mono [of "fadd a (fsub 100 b) + c" 300] s assms three
    by (simp_all add: fadd_def)
  have d: "0 \<le> fdiv ?t 3" "fdiv ?t 3 \<le> 100"
    using fl_mono [of 0 "?t / 3"] fl_mono [of "?t / 3" 100] t hundred by (simp_all add: fdiv_def)
  show "0 \<le> fst (compute_route_confidence a b c)" "fst (compute_route_confidence a b c) \<le> 100"
    using py_round_between [of 0 "fdiv ?t 3" 100 1] d
    by (simp_all add: compute_route_confidence_def Let_def)
qed

end
