(* ===== verification/StoreEvents.thy ===== *)
theory StoreEvents
  imports StoreRows "HOL-Library.Product_Lexorder"
begin

text \<open>
  The event log, the jobs and the failure reports of \<^verbatim>\<open>ResearchApiStateStore\<close>.
  Reading a failure report may write it: the report is brought up to date from the latest
  \<^verbatim>\<open>failure_attached\<close> event.
\<close>

section \<open>Events\<close>

text \<open>The arguments of \<^verbatim>\<open>emit_event\<close> are the fields of a row without id and time.\<close>

definition emit_event :: "event_row \<Rightarrow> unit store_proc" where
  "emit_event args =
     and_then (gen_id ''event'') (\<lambda>event_id.
     and_then now (\<lambda>t.
       insert_row evt_event_id event_rows event_rows_update
         (args\<lparr>evt_event_id := event_id, evt_timestamp := t\<rparr>)))"

definition event_args ::
  "string \<Rightarrow> string option \<Rightarrow> string option \<Rightarrow> string option \<Rightarrow> string \<Rightarrow> string \<Rightarrow> string \<Rightarrow>
   payload \<Rightarrow> payload \<Rightarrow> payload option \<Rightarrow> event_row"
where
  "event_args event_name request_id job_id workspace_id component step status refs metrics error =
     \<lparr>evt_event_id = [], evt_event_name = event_name, evt_timestamp = 0, evt_request_id = request_id,
      evt_job_id = job_id, evt_workspace_id = workspace_id, evt_source_id = None,
      evt_candidate_batch_id = None, evt_component = component, evt_step = step, evt_status = status,
      evt_refs = refs, evt_metrics = metrics, evt_error = error\<rparr>"

lemma event_args_simps [simp]:
  "evt_event_name (event_args n q j w c st stat refs ms e) = n"
  "evt_workspace_id (event_args n q j w c st stat refs ms e) = w"
  "evt_request_id (event_args n q j w c st stat refs ms e) = q"
  "evt_status (event_args n q j w c st stat refs ms e) = stat"
  "evt_refs (event_args n q j w c st stat refs ms e) = refs"
  "evt_error (event_args n q j w c st stat refs ms e) = e"
  by (simp_all add: event_args_def)

definition matches :: "string option \<Rightarrow> string option \<Rightarrow> bool" where
  "matches wanted x \<longleftrightarrow> (case wanted of None \<Rightarrow> True | Some v \<Rightarrow> x = Some v)"

definition list_events ::
  "string \<Rightarrow> string option \<Rightarrow> string option \<Rightarrow> int \<Rightarrow> store \<Rightarrow> event_row list"
where
  "list_events workspace_id request_id job_id limit s =
     (let safe_limit = min (max limit 1) 5000
      in take (nat safe_limit)
           (sort_key evt_timestamp
             (filter (\<lambda>e. evt_workspace_id e = Some workspace_id \<and>
                matches request_id (evt_request_id e) \<and> matches job_id (evt_job_id e)) (event_rows s))))"

text \<open>
  The loop over the reversed list. \<open>ref\<close> is the key and the value that the event must refer to; the
  code compares a string.
\<close>

definition event_matches :: "string \<Rightarrow> (string \<times> string) option \<Rightarrow> event_row \<Rightarrow> bool" where
  "event_matches event_name ref e \<longleftrightarrow>
     evt_event_name e = event_name \<and>
     (case ref of None \<Rightarrow> True | Some (k, v) \<Rightarrow> get_or (evt_refs e) k VNone = VStr v)"

definition find_latest_event ::
  "string \<Rightarrow> string \<Rightarrow> (string \<times> string) option \<Rightarrow> store \<Rightarrow> event_row option"
where
  "find_latest_event workspace_id event_name ref s =
     find (event_matches event_name ref) (rev (list_events workspace_id None None 5000 s))"

section \<open>Jobs\<close>

record job_view = job_row +
  jb_result_ref :: "(string \<times> string) option"

definition truthy :: "string option \<Rightarrow> bool" where
  "truthy x \<longleftrightarrow> (case x of None \<Rightarrow> False | Some v \<Rightarrow> v \<noteq> [])"

definition job_view_of :: "job_row \<Rightarrow> job_view" where
  "job_view_of r =
     job_row.extend r (job_view.fields
       (if truthy (jb_result_ref_type r) \<and> truthy (jb_result_ref_id r)
        then Some (the (jb_result_ref_type r), the (jb_result_ref_id r)) else None))"

definition get_job :: "string \<Rightarrow> job_view option store_proc" where
  "get_job job_id = reading (\<lambda>s. map_option job_view_of (select_key jb_job_id job_id (job_rows s)))"

definition create_job :: "string \<Rightarrow> string \<Rightarrow> string option \<Rightarrow> job_view option store_proc" where
  "create_job job_type workspace_id request_id =
     and_then (gen_id ''job'') (\<lambda>job_id.
     and_then now (\<lambda>t.
     and_then
       (insert_row jb_job_id job_rows job_rows_update
         \<lparr>jb_job_id = job_id, jb_job_type = job_type, jb_status = ''queued'',
          jb_workspace_id = workspace_id, jb_request_id = request_id, jb_created_at = t,
          jb_started_at = None, jb_finished_at = None, jb_result_ref_type = None,
          jb_result_ref_id = None, jb_error = None\<rparr>) (\<lambda>_.
       get_job job_id)))"

definition update_job :: "string \<Rightarrow> (time \<Rightarrow> job_row \<Rightarrow> job_row) \<Rightarrow> job_view option store_proc" where
  "update_job job_id f =
     and_then now (\<lambda>t.
     and_then (writing (job_rows_update (update_where (\<lambda>r. jb_job_id r = job_id) (f t)))) (\<lambda>_.
       get_job job_id))"

definition start_job :: "string \<Rightarrow> job_view option store_proc" where
  "start_job job_id =
     update_job job_id (\<lambda>t r. r\<lparr>jb_status := ''running'', jb_started_at := Some t\<rparr>)"

definition finish_job_success :: "string \<Rightarrow> string \<times> string \<Rightarrow> job_view option store_proc" where
  "finish_job_success job_id result_ref =
     update_job job_id (\<lambda>t r. r\<lparr>jb_status := ''succeeded'', jb_finished_at := Some t,
       jb_result_ref_type := Some (fst result_ref), jb_result_ref_id := Some (snd result_ref),
       jb_error := None\<rparr>)"

definition finish_job_failed :: "string \<Rightarrow> payload \<Rightarrow> job_view option store_proc" where
  "finish_job_failed job_id error =
     update_job job_id (\<lambda>t r. r\<lparr>jb_status := ''failed'', jb_finished_at := Some t, jb_error := Some error\<rparr>)"

definition list_jobs :: "string \<Rightarrow> string option \<Rightarrow> string option \<Rightarrow> store \<Rightarrow> job_view list" where
  "list_jobs workspace_id request_id job_id s =
     concat (map (\<lambda>r. case select_key jb_job_id (jb_job_id r) (job_rows s) of
         None \<Rightarrow> [] | Some q \<Rightarrow> [job_view_of q])
       (sort_key (\<lambda>r. (jb_created_at r, jb_job_id r))
         (filter (\<lambda>r. jb_workspace_id r = workspace_id \<and> matches request_id (jb_request_id r) \<and>
            matches job_id (Some (jb_job_id r))) (job_rows s))))"

section \<open>Failure reports\<close>

definition update_failure_impact :: "string \<Rightarrow> payload \<Rightarrow> time option \<Rightarrow> unit store_proc" where
  "update_failure_impact failure_id impact_summary impact_updated_at =
     writing (failure_rows_update (update_where (\<lambda>r. fr_failure_id r = failure_id)
       (\<lambda>r. r\<lparr>fr_impact_summary := impact_summary, fr_impact_updated_at := impact_updated_at\<rparr>)))"

definition update_failure_provenance :: "string \<Rightarrow> string option \<Rightarrow> unit store_proc" where
  "update_failure_provenance failure_id result_id =
     writing (failure_rows_update (update_where (\<lambda>r. fr_failure_id r = failure_id)
       (\<lambda>r. r\<lparr>fr_derived_from_validation_result_id := result_id\<rparr>)))"

definition impact_of_event :: "event_row \<Rightarrow> payload option" where
  "impact_of_event e =
     (case get_or (evt_refs e) ''impact_summary'' VNone of VDict d \<Rightarrow> Some d | _ \<Rightarrow> None)"

definition latest_failure_impact_snapshot :: "string \<Rightarrow> string \<Rightarrow> store \<Rightarrow> (payload \<times> time) option" where
  "latest_failure_impact_snapshot workspace_id failure_id s =
     (case find_latest_event workspace_id ''failure_attached'' (Some (''failure_id'', failure_id)) s of
        None \<Rightarrow> None
      | Some e \<Rightarrow> map_option (\<lambda>d. (d, evt_timestamp e)) (impact_of_event e))"

definition should_backfill :: "failure_row \<Rightarrow> time \<Rightarrow> bool" where
  "should_backfill r t \<longleftrightarrow>
     fr_impact_summary r = [] \<or>
     (case fr_impact_updated_at r of None \<Rightarrow> True | Some u \<Rightarrow> u < t)"

definition get_failure :: "string \<Rightarrow> failure_row option store_proc" where
  "get_failure failure_id =
     and_then (reading (\<lambda>s. select_key fr_failure_id failure_id (failure_rows s))) (\<lambda>found.
       case found of
         None \<Rightarrow> ret None
       | Some r \<Rightarrow>
           and_then (reading (latest_failure_impact_snapshot (fr_workspace_id r) failure_id)) (\<lambda>snap.
             case snap of
               None \<Rightarrow> ret (Some r)
             | Some (d, t) \<Rightarrow>
                 if should_backfill r t then
                   and_then (update_failure_impact failure_id d (Some t)) (\<lambda>_.
                     ret (Some (r\<lparr>fr_impact_summary := d, fr_impact_updated_at := Some t\<rparr>)))
                 else ret (Some r)))"

text \<open>The arguments are the fields of a row without id, impact and time.\<close>

definition create_failure :: "failure_row \<Rightarrow> failure_row option store_proc" where
  "create_failure args =
     and_then (gen_id ''failure'') (\<lambda>failure_id.
     and_then now (\<lambda>t.
     and_then
       (insert_row fr_failure_id failure_rows failure_rows_update
         (args\<lparr>fr_failure_id := failure_id, fr_impact_summary := [], fr_impact_updated_at := None,
               fr_created_at := t\<rparr>)) (\<lambda>_.
       get_failure failure_id)))"

definition list_failures :: "string \<Rightarrow> store \<Rightarrow> failure_row list" where
  "list_failures workspace_id s =
     sort_key fr_created_at (filter (\<lambda>r. fr_workspace_id r = workspace_id) (failure_rows s))"

section \<open>The latest event\<close>

definition workspace_events :: "string \<Rightarrow> store \<Rightarrow> event_row list" where
  "workspace_events w s = filter (\<lambda>e. evt_workspace_id e = Some w) (event_rows s)"

definition events_in_order :: "store \<Rightarrow> bool" where
  "events_in_order s \<longleftrightarrow>
     sorted (map evt_timestamp (event_rows s)) \<and>
     (\<forall>e \<in> set (event_rows s). evt_timestamp e \<le> clock s (ticks s))"

lemma find_latest_event_sorted:
  assumes "events_in_order s"
  shows "find_latest_event w name ref s =
    find (event_matches name ref) (rev (take 5000 (workspace_events w s)))"
proof -
  have "sorted (map evt_timestamp (workspace_events w s))"
    using assms by (simp add: events_in_order_def workspace_events_def sorted_filter)
  then show ?thesis
    by (simp add: find_latest_event_def list_events_def matches_def workspace_events_def sorted_sort_id sort_key_id_if_sorted)
qed

lemma find_rev: "find P (rev xs) = (if filter P xs = [] then None else Some (last (filter P xs)))"
  by (induction xs rule: rev_induct) auto

lemma find_latest_event_last:
  assumes "events_in_order s" and "length (workspace_events w s) \<le> 5000"
  shows "find_latest_event w name ref s =
    (let es = filter (event_matches name ref) (workspace_events w s)
     in if es = [] then None else Some (last es))"
  using assms(2) by (simp add: find_latest_event_sorted [OF assms(1)] find_rev)

lemma emit_event_cases:
  assumes "emit_event args s = (r, s')"
  obtains (taken) k where "r = Inl (IntegrityError k)"
      and "s' = s\<lparr>drawn := Suc (drawn s), ticks := Suc (ticks s)\<rparr>"
      and "''event_'' @ hex_supply s (drawn s) \<in> evt_event_id ` set (event_rows s)"
  | (added) e where "r = Inr ()"
      and "s' = s\<lparr>drawn := Suc (drawn s), ticks := Suc (ticks s), event_rows := event_rows s @ [e]\<rparr>"
      and "evt_event_id e = ''event_'' @ hex_supply s (drawn s)" and "evt_timestamp e = clock s (ticks s)"
      and "evt_event_name e = evt_event_name args" and "evt_workspace_id e = evt_workspace_id args"
      and "evt_status e = evt_status args" and "evt_refs e = evt_refs args"
      and "evt_error e = evt_error args" and "evt_request_id e = evt_request_id args"
      and "''event_'' @ hex_supply s (drawn s) \<notin> evt_event_id ` set (event_rows s)"
proof (cases "''event_'' @ hex_supply s (drawn s) \<in> evt_event_id ` set (event_rows s)")
  case True
  then show thesis
    using assms that(1) by (auto simp: emit_event_def and_then_def gen_id_def now_def insert_row_def)
next
  case False
  then show thesis
    using assms
    by (intro that(2) [of "args\<lparr>evt_event_id := ''event_'' @ hex_supply s (drawn s),
          evt_timestamp := clock s (ticks s)\<rparr>"])
      (auto simp: emit_event_def and_then_def gen_id_def now_def insert_row_def)
qed

lemma emit_event_in_order:
  assumes "events_in_order s" "mono (clock s)" "emit_event args s = (r, s')"
  shows "events_in_order s'"
proof -
  have le: "clock s (ticks s) \<le> clock s (Suc (ticks s))" using assms(2) by (simp add: monoD)
  show ?thesis
    using assms(3)
  proof (cases rule: emit_event_cases)
    case (taken k)
    then show ?thesis using assms(1) le by (auto simp: events_in_order_def intro: order_trans)
  next
    case (added e)
    then show ?thesis using assms(1) le by (auto simp: events_in_order_def sorted_append intro: order_trans)
  qed
qed

lemma find_latest_event_frozen:
  assumes "events_in_order s" "mono (clock s)" "5000 \<le> length (workspace_events w s)"
    and "emit_event args s = (r, s')"
  shows "find_latest_event w name ref s' = find_latest_event w name ref s"
proof -
  have o: "events_in_order s'" by (rule emit_event_in_order [OF assms(1,2,4)])
  have "take 5000 (workspace_events w s') = take 5000 (workspace_events w s)"
    using assms(4) by (cases rule: emit_event_cases) (use assms(3) in \<open>auto simp: workspace_events_def\<close>)
  then show ?thesis by (simp add: find_latest_event_sorted [OF o] find_latest_event_sorted [OF assms(1)])
qed

text \<open>
  What the latest event is. As long as a workspace has at most 5000 events, the lookup returns
  the last event of the workspace with the given name and reference, or none if there is none.
\<close>

theorem find_latest_event_correct:
  assumes "events_in_order s" and "length (workspace_events w s) \<le> 5000"
  shows "find_latest_event w name ref s =
    (let es = filter (event_matches name ref) (workspace_events w s)
     in if es = [] then None else Some (last es))"
  by (rule find_latest_event_last [OF assms])

text \<open>
  The limit of the lookup. The listing behind it keeps the oldest 5000 events of the workspace:
  once there are 5000, no event emitted afterwards, whatever its name and reference, is ever found;
  the lookup keeps returning what it returned.
\<close>

theorem find_latest_event_stops_at_5000:
  assumes "events_in_order s" "mono (clock s)" "5000 \<le> length (workspace_events w s)"
  shows "find_latest_event w name ref (snd (emit_event args s)) = find_latest_event w name ref s"
  using find_latest_event_frozen [OF assms, of args "fst (emit_event args s)" "snd (emit_event args s)"]
  by simp

section \<open>Examples\<close>

definition sample_event :: "string \<Rightarrow> string \<Rightarrow> string \<Rightarrow> payload \<Rightarrow> event_row" where
  "sample_event i w name refs =
     \<lparr>evt_event_id = i, evt_event_name = name, evt_timestamp = 0, evt_request_id = None,
      evt_job_id = None, evt_workspace_id = Some w, evt_source_id = None,
      evt_candidate_batch_id = None, evt_component = ''c'', evt_step = ''s'', evt_status = ''completed'',
      evt_refs = refs, evt_metrics = [], evt_error = None\<rparr>"

definition attached :: "string \<Rightarrow> event_row" where
  "attached f = sample_event f ''w'' ''failure_attached'' [(''failure_id'', VStr f)]"

lemma sample_event_simps [simp]:
  "evt_workspace_id (sample_event i w name refs) = Some w"
  "evt_timestamp (sample_event i w name refs) = 0"
  "evt_event_name (sample_event i w name refs) = name"
  "evt_refs (sample_event i w name refs) = refs"
  by (simp_all add: sample_event_def)

theorem find_latest_event_correct_witness:
  "find_latest_event ''w'' ''failure_attached'' (Some (''failure_id'', ''f''))
     (empty_store\<lparr>event_rows := [attached ''f'', attached ''g'', sample_event ''e'' ''w'' ''other'' []]\<rparr>) =
   Some (attached ''f'')"
proof -
  let ?s = "empty_store\<lparr>event_rows := [attached ''f'', attached ''g'', sample_event ''e'' ''w'' ''other'' []]\<rparr>"
  have "events_in_order ?s" "length (workspace_events ''w'' ?s) \<le> 5000"
    by (simp_all add: events_in_order_def workspace_events_def attached_def)
  from find_latest_event_correct [OF this, of "''failure_attached''" "Some (''failure_id'', ''f'')"]
  show ?thesis
    by (simp add: workspace_events_def attached_def event_matches_def get_or_def)
qed

text \<open>A log of \<open>n\<close> other events.\<close>

definition other_events :: "nat \<Rightarrow> event_row list" where
  "other_events n = map (\<lambda>i. sample_event (unary i) ''w'' ''other'' []) [0..<n]"

lemma other_events_store:
  assumes "s = empty_store\<lparr>event_rows := other_events n\<rparr>"
  shows "events_in_order s" and "workspace_events ''w'' s = other_events n" and "mono (clock s)"
    and "event_matches ''failure_attached'' ref e \<Longrightarrow> e \<notin> set (other_events n)"
    and "length (other_events n) = n"
  by (auto simp: assms events_in_order_def workspace_events_def other_events_def comp_def
      empty_store_def mono_def event_matches_def filter_map map_replicate_const)

theorem find_latest_event_stops_at_5000_witness:
  "find_latest_event ''w'' ''failure_attached'' (Some (''failure_id'', ''f''))
     (snd (emit_event (attached ''f'') (empty_store\<lparr>event_rows := other_events 5000\<rparr>))) = None"
proof -
  let ?s = "empty_store\<lparr>event_rows := other_events 5000\<rparr>"
  let ?q = "Some (''failure_id'', ''f'')"
  note log = other_events_store [of ?s 5000, OF refl]
  have "5000 \<le> length (workspace_events ''w'' ?s)" by (simp add: log)
  from find_latest_event_stops_at_5000 [OF log(1,3) this, of "''failure_attached''" ?q "attached ''f''"]
  show ?thesis
    using log(4) by (auto simp: find_latest_event_sorted [OF log(1)] log(2) find_None_iff dest: in_set_takeD)
qed

end
