(* ===== verification/FailureImpact.thy ===== *)
theory FailureImpact
  imports StoreGraph StoreRoutes StoreEvents DomainEnums
begin

text \<open>
  \<^verbatim>\<open>services/failure_impact_service.py\<close>: the validation of the targets of a failure report,
  and \<open>apply_failure\<close>, which weakens or invalidates the targets, marks the routes that use them, adds
  gap and branch nodes behind them, and records the outcome. Sets of ids are lists; the code sorts
  them before they are returned.
\<close>

section \<open>Statuses\<close>

definition failure_severity_to_node_status :: "(string \<times> string) list" where
  "failure_severity_to_node_status =
     [(''low'', ''weakened''), (''medium'', ''weakened''), (''high'', ''failed''), (''critical'', ''failed'')]"

definition failure_severity_to_edge_status :: "(string \<times> string) list" where
  "failure_severity_to_edge_status =
     [(''low'', ''weakened''), (''medium'', ''weakened''), (''high'', ''invalidated''),
      (''critical'', ''invalidated'')]"

definition status_for :: "(string \<times> string) list \<Rightarrow> string \<Rightarrow> string" where
  "status_for m severity = (case map_of m severity of None \<Rightarrow> ''weakened'' | Some st \<Rightarrow> st)"

definition terminal_statuses :: "string list" where
  "terminal_statuses = [''archived'', ''superseded'']"

definition route_terminal_statuses :: "string list" where
  "route_terminal_statuses = [''failed'', ''superseded'']"

section \<open>Targets\<close>

definition target_details :: "string \<Rightarrow> string \<Rightarrow> payload" where
  "target_details target_type target_id =
     [(''target_type'', VStr target_type), (''target_id'', VStr target_id)]"

fun normalize_loop ::
  "(string \<times> string) list \<Rightarrow> (string \<times> string) list \<Rightarrow> api_error + (string \<times> string) list"
where
  "normalize_loop [] normalized = Inr normalized"
| "normalize_loop ((raw_type, raw_id) # raws) normalized =
     (let target_type = strip raw_type; target_id = strip raw_id
      in if target_type \<noteq> ''node'' \<and> target_type \<noteq> ''edge'' then
           Inl (ServiceError 400 ''research.invalid_request'' ''unsupported failure attached target_type''
             [(''target_type'', VStr target_type)])
         else if target_id = [] then
           Inl (ServiceError 400 ''research.invalid_request'' ''attached target_id must not be empty''
             [(''target_type'', VStr target_type)])
         else if (target_type, target_id) \<in> set normalized then
           Inl (ServiceError 409 ''research.invalid_state'' ''duplicate failure attach target''
             (target_details target_type target_id))
         else normalize_loop raws (normalized @ [(target_type, target_id)]))"

definition normalize_targets :: "(string \<times> string) list \<Rightarrow> api_error + (string \<times> string) list" where
  "normalize_targets attached_targets = normalize_loop attached_targets []"

datatype target_object = TargetNode node_row | TargetEdge edge_row

fun target_workspace :: "target_object \<Rightarrow> string" where
  "target_workspace (TargetNode n) = nd_workspace_id n"
| "target_workspace (TargetEdge e) = eg_workspace_id e"

definition ensure_target_exists_and_owned ::
  "string \<Rightarrow> string \<Rightarrow> string \<Rightarrow> target_object store_proc"
where
  "ensure_target_exists_and_owned workspace_id target_type target_id =
     (let object_name = (if target_type = ''node'' then ''node'' else ''edge'')
      in and_then
           (if target_type = ''node''
            then and_then (get_graph_node target_id) (\<lambda>n. ret (map_option TargetNode n))
            else and_then (get_graph_edge target_id) (\<lambda>e. ret (map_option TargetEdge e))) (\<lambda>found.
         and_then
           (require (ServiceError 404 ''research.not_found''
             (''failure attached '' @ object_name @ '' not found'') (target_details target_type target_id))
             found) (\<lambda>target.
         and_then
           (check (ServiceError 409 ''research.conflict''
             (''failure attached '' @ object_name @ '' belongs to a different workspace'')
             (target_details target_type target_id)) (target_workspace target = workspace_id)) (\<lambda>_.
         ret target))))"

definition check_target :: "string \<Rightarrow> string \<times> string \<Rightarrow> unit \<Rightarrow> unit store_proc" where
  "check_target workspace_id target u =
     and_then (ensure_target_exists_and_owned workspace_id (fst target) (snd target)) (\<lambda>_. ret ())"

definition validate_targets_for_create ::
  "string \<Rightarrow> (string \<times> string) list \<Rightarrow> (string \<times> string) list store_proc"
where
  "validate_targets_for_create workspace_id attached_targets =
     and_then
       (check (ServiceError 400 ''research.invalid_request'' ''attached_targets must not be empty'' [])
         (attached_targets \<noteq> [])) (\<lambda>_.
     and_then (lift_result (normalize_targets attached_targets)) (\<lambda>normalized.
     and_then (fold_proc (check_target workspace_id) normalized ()) (\<lambda>_. ret normalized)))"

section \<open>The effect on the targets\<close>

record impact =
  im_weakened_node_ids :: "string list"
  im_invalidated_node_ids :: "string list"
  im_weakened_edge_ids :: "string list"
  im_invalidated_edge_ids :: "string list"
  im_affected_edge_ids :: "string list"
  im_anchor_node_ids :: "string list"

definition no_impact :: impact where
  "no_impact =
     \<lparr>im_weakened_node_ids = [], im_invalidated_node_ids = [], im_weakened_edge_ids = [],
      im_invalidated_edge_ids = [], im_affected_edge_ids = [], im_anchor_node_ids = []\<rparr>"

text \<open>The node branch of the loop over the targets.\<close>

definition attach_to_node :: "string \<Rightarrow> string \<Rightarrow> node_row \<Rightarrow> impact \<Rightarrow> impact store_proc" where
  "attach_to_node severity target_id node im =
     and_then
       (check (ServiceError 409 ''research.invalid_state'' ''cannot attach failure to terminal node''
         [(''node_id'', VStr target_id), (''status'', VStr (nd_status node))])
         (nd_status node \<notin> set terminal_statuses)) (\<lambda>_.
     (let next_status = status_for failure_severity_to_node_status severity
      in and_then
           (skip_unless
             (nd_status node \<noteq> next_status \<and> \<not> (nd_status node = ''failed'' \<and> next_status = ''weakened''))
             (and_then (update_graph_node target_id None None None None None (Some next_status))
               (\<lambda>_. ret ()))) (\<lambda>_.
         ret ((if next_status = ''failed''
               then im\<lparr>im_invalidated_node_ids := im_invalidated_node_ids im @ [target_id]\<rparr>
               else im\<lparr>im_weakened_node_ids := im_weakened_node_ids im @ [target_id]\<rparr>)
              \<lparr>im_anchor_node_ids := im_anchor_node_ids im @ [target_id]\<rparr>))))"

text \<open>The edge branch. The penalties are the literals 0.5 and 0.3.\<close>

definition weakened_strength :: "string \<Rightarrow> rat \<Rightarrow> rat" where
  "weakened_strength next_status current =
     max 0 (py_round 4 (fsub current (if next_status = ''invalidated'' then fl (5 / 10) else fl (3 / 10))))"

definition attach_to_edge :: "string \<Rightarrow> string \<Rightarrow> edge_row \<Rightarrow> impact \<Rightarrow> impact store_proc" where
  "attach_to_edge severity target_id edge im =
     and_then
       (check (ServiceError 409 ''research.invalid_state'' ''cannot attach failure to terminal edge''
         [(''edge_id'', VStr target_id), (''status'', VStr (eg_status edge))])
         (eg_status edge \<notin> set terminal_statuses)) (\<lambda>_.
     (let next_status = status_for failure_severity_to_edge_status severity
      in and_then
           (update_graph_edge target_id (Some next_status)
             (Some (weakened_strength next_status (eg_strength edge)))) (\<lambda>_.
         ret ((if next_status = ''invalidated''
               then im\<lparr>im_invalidated_edge_ids := im_invalidated_edge_ids im @ [target_id]\<rparr>
               else im\<lparr>im_weakened_edge_ids := im_weakened_edge_ids im @ [target_id]\<rparr>)
              \<lparr>im_affected_edge_ids := im_affected_edge_ids im @ [target_id],
               im_anchor_node_ids := im_anchor_node_ids im @ [eg_source_node_id edge, eg_target_node_id edge]\<rparr>))))"

definition attach_target :: "string \<Rightarrow> string \<Rightarrow> string \<times> string \<Rightarrow> impact \<Rightarrow> impact store_proc" where
  "attach_target workspace_id severity target im =
     and_then
       (ensure_target_exists_and_owned workspace_id
         (if fst target = ''node'' then ''node'' else ''edge'') (snd target)) (\<lambda>found.
       case found of
         TargetNode n \<Rightarrow> attach_to_node severity (snd target) n im
       | TargetEdge e \<Rightarrow> attach_to_edge severity (snd target) e im)"

section \<open>Routes\<close>

definition route_touched :: "string list \<Rightarrow> string list \<Rightarrow> route_view \<Rightarrow> bool" where
  "route_touched affected_node_ids affected_edge_ids r \<longleftrightarrow>
     (let has_edge_chain = rv_route_edge_ids r \<noteq> [];
          touches_edge = set (rv_route_edge_ids r) \<inter> set affected_edge_ids \<noteq> {};
          touches_atomic_node =
            \<not> has_edge_chain \<and> set (rr_route_node_ids r) \<inter> set affected_node_ids \<noteq> {}
      in touches_edge \<or> touches_atomic_node)"

definition mark_affected_routes :: "string \<Rightarrow> string list \<Rightarrow> string list \<Rightarrow> string list store_proc" where
  "mark_affected_routes workspace_id affected_node_ids affected_edge_ids =
     and_then (list_routes workspace_id) (\<lambda>views.
       fold_proc (\<lambda>r affected.
         if \<not> route_touched affected_node_ids affected_edge_ids r then ret affected
         else
           and_then
             (skip_unless (rr_status r \<notin> set route_terminal_statuses \<and> rr_status r \<noteq> ''weakened'')
               (and_then (update_route_status (rr_route_id r) ''weakened'') (\<lambda>_. ret ()))) (\<lambda>_.
           ret (affected @ [rr_route_id r]))) views [])"

section \<open>Gap and branch markers\<close>

record markers =
  mk_created_gap_node_ids :: "string list"
  mk_created_branch_node_ids :: "string list"
  mk_created_branch_edge_ids :: "string list"
  mk_gap_node_ids :: "string list"
  mk_branch_node_ids :: "string list"
  mk_branch_edge_ids :: "string list"

definition no_markers :: markers where
  "no_markers =
     \<lparr>mk_created_gap_node_ids = [], mk_created_branch_node_ids = [], mk_created_branch_edge_ids = [],
      mk_gap_node_ids = [], mk_branch_node_ids = [], mk_branch_edge_ids = []\<rparr>"

definition marker_ref :: "string \<Rightarrow> string \<Rightarrow> string \<Rightarrow> string" where
  "marker_ref failure_id anchor_node_id suffix = failure_id @ '':'' @ anchor_node_id @ '':'' @ suffix"

text \<open>
  The marker node of an anchor, found by its reference or created; the flag says whether it was
  created. The two markers differ in their texts.
\<close>

definition ensure_marker_node ::
  "string \<Rightarrow> string \<Rightarrow> string \<Rightarrow> string \<Rightarrow> string \<Rightarrow> string \<Rightarrow> (string \<times> bool) store_proc"
where
  "ensure_marker_node workspace_id failure_id anchor_node_id node_type ref_type title =
     (let object_ref_id = marker_ref failure_id anchor_node_id node_type
      in and_then (find_graph_node_by_object_ref workspace_id ref_type object_ref_id) (\<lambda>found.
         case found of
           Some n \<Rightarrow> ret (nd_node_id n, False)
         | None \<Rightarrow>
             and_then
               (create_graph_node workspace_id node_type ref_type object_ref_id
                 (title @ '' after failure '' @ take 8 failure_id)
                 (title @ '' generated from failure '' @ failure_id @ '' on node '' @ anchor_node_id)
                 [] ''workspace'' [] None VNone ''active'') (\<lambda>created.
             and_then (require NoneSubscript created) (\<lambda>n. ret (nd_node_id n, True)))))"

definition ensure_marker_edge ::
  "string \<Rightarrow> string \<Rightarrow> string \<Rightarrow> string \<Rightarrow> string \<Rightarrow> string \<Rightarrow> string \<Rightarrow>
   (edge_row option \<times> bool) store_proc"
where
  "ensure_marker_edge workspace_id failure_id anchor_node_id marker_id edge_type ref_type suffix =
     (let object_ref_id = marker_ref failure_id anchor_node_id suffix
      in and_then
           (find_graph_edge_by_ref workspace_id anchor_node_id marker_id edge_type ref_type object_ref_id)
           (\<lambda>found.
         case found of
           Some e \<Rightarrow> ret (Some e, False)
         | None \<Rightarrow>
             and_then
               (create_graph_edge workspace_id anchor_node_id marker_id edge_type ref_type object_ref_id
                 (fl (7 / 10)) None VNone ''active'') (\<lambda>created. ret (created, True))))"

definition ensure_markers_of :: "string \<Rightarrow> string \<Rightarrow> string \<Rightarrow> markers \<Rightarrow> markers store_proc" where
  "ensure_markers_of workspace_id failure_id anchor_node_id mk =
     and_then (ensure_marker_node workspace_id failure_id anchor_node_id ''gap'' ''failure_gap'' ''Gap'')
       (\<lambda>(gap_id, gap_new).
     and_then
       (ensure_marker_node workspace_id failure_id anchor_node_id ''branch'' ''failure_branch'' ''Branch'')
       (\<lambda>(branch_id, branch_new).
     and_then
       (ensure_marker_edge workspace_id failure_id anchor_node_id gap_id ''weakens'' ''failure_gap_link''
         ''gap_edge'') (\<lambda>_.
     and_then
       (ensure_marker_edge workspace_id failure_id anchor_node_id branch_id ''branches_to''
         ''failure_branch_link'' ''branch_edge'') (\<lambda>(branch_edge, edge_new).
     and_then (require NoneSubscript (map_option eg_edge_id branch_edge)) (\<lambda>edge_id.
     ret (mk\<lparr>mk_created_gap_node_ids := mk_created_gap_node_ids mk @ (if gap_new then [gap_id] else []),
             mk_created_branch_node_ids :=
               mk_created_branch_node_ids mk @ (if branch_new then [branch_id] else []),
             mk_created_branch_edge_ids :=
               mk_created_branch_edge_ids mk @ (if edge_new then [edge_id] else []),
             mk_gap_node_ids := mk_gap_node_ids mk @ [gap_id],
             mk_branch_node_ids := mk_branch_node_ids mk @ [branch_id],
             mk_branch_edge_ids := mk_branch_edge_ids mk @ [edge_id]\<rparr>))))))"

definition ensure_gap_and_branch_markers :: "string \<Rightarrow> string \<Rightarrow> string list \<Rightarrow> markers store_proc" where
  "ensure_gap_and_branch_markers workspace_id failure_id anchor_node_ids =
     and_then (fold_proc (ensure_markers_of workspace_id failure_id) anchor_node_ids no_markers) (\<lambda>mk.
       ret (mk\<lparr>mk_gap_node_ids := sorted_set (mk_gap_node_ids mk),
               mk_branch_node_ids := sorted_set (mk_branch_node_ids mk),
               mk_branch_edge_ids := sorted_set (mk_branch_edge_ids mk)\<rparr>))"

section \<open>Applying a failure\<close>

definition id_list :: "string list \<Rightarrow> pyval" where
  "id_list xs = VList (map VStr xs)"

definition impact_summary :: "string \<Rightarrow> impact \<Rightarrow> string list \<Rightarrow> markers \<Rightarrow> payload" where
  "impact_summary failure_id im affected_route_ids mk =
     [(''failure_id'', VStr failure_id),
      (''weakened_node_ids'', id_list (sorted_set (im_weakened_node_ids im))),
      (''invalidated_node_ids'', id_list (sorted_set (im_invalidated_node_ids im))),
      (''weakened_edge_ids'', id_list (sorted_set (im_weakened_edge_ids im))),
      (''invalidated_edge_ids'', id_list (sorted_set (im_invalidated_edge_ids im))),
      (''affected_route_ids'', id_list (sorted_set affected_route_ids)),
      (''created_gap_node_ids'', id_list (mk_created_gap_node_ids mk)),
      (''created_branch_node_ids'', id_list (mk_created_branch_node_ids mk)),
      (''created_branch_edge_ids'', id_list (mk_created_branch_edge_ids mk)),
      (''gap_node_ids'', id_list (mk_gap_node_ids mk)),
      (''branch_node_ids'', id_list (mk_branch_node_ids mk)),
      (''branch_edge_ids'', id_list (mk_branch_edge_ids mk))]"

definition impact_metrics :: "impact \<Rightarrow> string list \<Rightarrow> markers \<Rightarrow> payload" where
  "impact_metrics im affected_route_ids mk =
     [(''affected_node_count'', VInt (int (length (sorted_set (im_weakened_node_ids im))
        + length (sorted_set (im_invalidated_node_ids im))))),
      (''affected_edge_count'', VInt (int (length (sorted_set (im_weakened_edge_ids im))
        + length (sorted_set (im_invalidated_edge_ids im))))),
      (''affected_route_count'', VInt (int (length (sorted_set affected_route_ids)))),
      (''gap_count'', VInt (int (length (mk_created_gap_node_ids mk)))),
      (''branch_count'', VInt (int (length (mk_created_branch_node_ids mk))))]"

text \<open>What follows once the report is found, owned, and not applied before.\<close>

definition apply_new_failure :: "string \<Rightarrow> string \<Rightarrow> failure_row \<Rightarrow> payload store_proc" where
  "apply_new_failure workspace_id request_id failure =
     (let failure_id = fr_failure_id failure
      in and_then (lift_result (normalize_targets (fr_attached_targets failure))) (\<lambda>targets.
         and_then (fold_proc (attach_target workspace_id (lower (fr_severity failure))) targets no_impact) (\<lambda>im.
         and_then
           (mark_affected_routes workspace_id
             (im_weakened_node_ids im @ im_invalidated_node_ids im) (im_affected_edge_ids im)) (\<lambda>affected_route_ids.
         and_then
           (ensure_gap_and_branch_markers workspace_id failure_id (sorted_set (im_anchor_node_ids im))) (\<lambda>mk.
         (let summary = impact_summary failure_id im affected_route_ids mk
          in and_then now (\<lambda>t.
             and_then (update_failure_impact failure_id summary (Some t)) (\<lambda>_.
             and_then
               (emit_event (event_args ''failure_attached'' (Some request_id) None (Some workspace_id)
                 ''failure_impact_service'' ''attach'' ''completed''
                 [(''failure_id'', VStr failure_id),
                  (''targets'', VList (map (\<lambda>(ty, i). VDict (target_details ty i)) targets)),
                  (''impact_summary'', VDict summary)]
                 (impact_metrics im affected_route_ids mk) None)) (\<lambda>_.
             ret summary)))))))))"

definition apply_failure :: "string \<Rightarrow> string \<Rightarrow> string \<Rightarrow> payload store_proc" where
  "apply_failure workspace_id failure_id request_id =
     and_then (get_failure failure_id) (\<lambda>found.
     and_then
       (require (ServiceError 404 ''research.not_found'' ''failure not found''
         [(''failure_id'', VStr failure_id)]) found) (\<lambda>failure.
     and_then
       (check (ServiceError 409 ''research.conflict'' ''workspace_id does not match failure ownership''
         [(''failure_id'', VStr failure_id)]) (fr_workspace_id failure = workspace_id)) (\<lambda>_.
     and_then
       (reading (find_latest_event workspace_id ''failure_attached'' (Some (''failure_id'', failure_id)))) (\<lambda>existing.
       case existing of
         Some e \<Rightarrow>
           (case impact_of_event e of
              Some summary \<Rightarrow> ret summary
            | None \<Rightarrow> apply_new_failure workspace_id request_id failure)
       | None \<Rightarrow> apply_new_failure workspace_id request_id failure))))"

end
