(* ===== verification/TableEvolution.thy ===== *)
theory TableEvolution
  imports StoreRows
begin

text \<open>
  How a table may change while a service runs: rows are rewritten in place and new rows are added at
  the end. \<open>row_evolution\<close> is the interface: a relation that every rewritten row keeps to its old
  value, and a property of the new rows that rewriting keeps. A service is shown to respect it
  statement by statement.
\<close>

definition evolves :: "('r \<Rightarrow> 'r \<Rightarrow> bool) \<Rightarrow> ('r \<Rightarrow> bool) \<Rightarrow> 'r list \<Rightarrow> 'r list \<Rightarrow> bool" where
  "evolves ok fresh xs ys \<longleftrightarrow>
     (\<exists>zs ns. ys = zs @ ns \<and> list_all2 ok xs zs \<and> (\<forall>n \<in> set ns. fresh n))"

lemma evolvesI: "list_all2 ok xs zs \<Longrightarrow> (\<And>n. n \<in> set ns \<Longrightarrow> fresh n) \<Longrightarrow> evolves ok fresh xs (zs @ ns)"
  by (auto simp: evolves_def)

locale row_evolution =
  fixes ok :: "'r \<Rightarrow> 'r \<Rightarrow> bool"
    and fresh :: "'r \<Rightarrow> bool"
  assumes ok_refl: "ok r r"
    and ok_trans: "ok r r' \<Longrightarrow> ok r' r'' \<Longrightarrow> ok r r''"
    and fresh_ok: "fresh r \<Longrightarrow> ok r r' \<Longrightarrow> fresh r'"
begin

lemma evolves_refl: "evolves ok fresh xs xs"
  using evolvesI [of ok xs xs "[]" fresh] by (simp add: list_all2_refl ok_refl)

lemma evolves_trans:
  assumes "evolves ok fresh xs ys" "evolves ok fresh ys zs"
  shows "evolves ok fresh xs zs"
proof -
  obtain ys1 ns1 where y: "ys = ys1 @ ns1" "list_all2 ok xs ys1" "\<forall>n \<in> set ns1. fresh n"
    using assms(1) by (auto simp: evolves_def)
  obtain zs1 ns2 where z: "zs = zs1 @ ns2" "list_all2 ok ys zs1" "\<forall>n \<in> set ns2. fresh n"
    using assms(2) by (auto simp: evolves_def)
  obtain a b where ab: "zs1 = a @ b" "list_all2 ok ys1 a" "list_all2 ok ns1 b"
    using z(2) y(1) by (auto simp: list_all2_append1)
  have a: "list_all2 ok xs a" using list_all2_trans [OF _ y(2) ab(2), of ok] ok_trans by blast
  have "\<forall>n \<in> set b. fresh n"
    using ab(3) y(3) by (induction rule: list_all2_induct) (use fresh_ok in auto)
  then show ?thesis
    using evolvesI [OF a, of "b @ ns2" fresh] z(1,3) ab(1) by auto
qed

lemma evolves_insert: "fresh r \<Longrightarrow> evolves ok fresh xs (xs @ [r])"
  by (rule evolvesI) (simp_all add: list_all2_refl ok_refl)

lemma evolves_update:
  "(\<And>r. r \<in> set xs \<Longrightarrow> P r \<Longrightarrow> ok r (f r)) \<Longrightarrow> evolves ok fresh xs (update_where P f xs)"
  using evolvesI [of ok xs "update_where P f xs" "[]" fresh]
  by (simp add: update_where_def list_all2_map2 list_all2_same ok_refl)

lemma evolves_row:
  "evolves ok fresh xs ys \<Longrightarrow> r \<in> set xs \<Longrightarrow> \<exists>r' \<in> set ys. ok r r'"
  by (fastforce simp: evolves_def list_all2_conv_all_nth in_set_conv_nth nth_append)

lemma evolves_filter:
  assumes "evolves ok fresh xs ys"
    and "\<And>r r'. ok r r' \<Longrightarrow> Q r = Q r'" "\<And>r r'. ok r r' \<Longrightarrow> Q r \<Longrightarrow> r' = r" "\<And>r. fresh r \<Longrightarrow> \<not> Q r"
  shows "filter Q ys = filter Q xs"
proof -
  obtain zs ns where y: "ys = zs @ ns" "list_all2 ok xs zs" "\<forall>n \<in> set ns. fresh n"
    using assms(1) by (auto simp: evolves_def)
  have "filter Q zs = filter Q xs"
    using y(2) by (induction rule: list_all2_induct) (use assms(2,3) in auto)
  moreover have "filter Q ns = []" using y(3) assms(4) by (simp add: filter_empty_conv)
  ultimately show ?thesis using y(1) by simp
qed

end

section \<open>Unique keys\<close>

text \<open>The primary keys of the tables that the services write.\<close>

definition wf_store :: "store \<Rightarrow> bool" where
  "wf_store s \<longleftrightarrow>
     distinct (map nd_node_id (node_rows s)) \<and> distinct (map eg_edge_id (edge_rows s)) \<and>
     distinct (map rr_route_id (route_rows s)) \<and> distinct (map fr_failure_id (failure_rows s)) \<and>
     distinct (map evt_event_id (event_rows s))"

lemma unique_row:
  "distinct (map key rs) \<Longrightarrow> r \<in> set rs \<Longrightarrow> q \<in> set rs \<Longrightarrow> key r = key q \<Longrightarrow> r = q"
  by (metis distinct_map inj_on_eq_iff)

lemma selected_row:
  "distinct (map key rs) \<Longrightarrow> select_key key k rs = Some r \<Longrightarrow> q \<in> set rs \<Longrightarrow> key q = k \<Longrightarrow> q = r"
  by (metis select_key_Some unique_row)

lemma distinct_keys_update:
  "(\<And>r. key (f r) = key r) \<Longrightarrow> distinct (map key (update_where P f rs)) = distinct (map key rs)"
  by (simp add: keys_update_where)

end
