(* ===== verification/FailureImpactProps.thy ===== *)
theory FailureImpactProps
  imports FailureImpact TableEvolution
begin

text \<open>
  The properties of \<^verbatim>\<open>FailureImpactService\<close>: what the normalisation of targets accepts, what
  applying a report may change, that applying it again changes nothing, and where the statuses it
  writes leave the transition tables of the domain model.
\<close>

section \<open>Normalisation of targets\<close>

definition target_ok :: "string \<times> string \<Rightarrow> bool" where
  "target_ok = (\<lambda>(ty, i). (strip ty = ''node'' \<or> strip ty = ''edge'') \<and> strip i \<noteq> [])"

lemma normalize_loop_Cons:
  "normalize_loop ((ty, i) # raws) acc =
     (if target_ok (ty, i) \<and> (strip ty, strip i) \<notin> set acc
      then normalize_loop raws (acc @ [(strip ty, strip i)])
      else Inl (if strip ty \<noteq> ''node'' \<and> strip ty \<noteq> ''edge'' then
           ServiceError 400 ''research.invalid_request'' ''unsupported failure attached target_type''
             [(''target_type'', VStr (strip ty))]
         else if strip i = [] then
           ServiceError 400 ''research.invalid_request'' ''attached target_id must not be empty''
             [(''target_type'', VStr (strip ty))]
         else ServiceError 409 ''research.invalid_state'' ''duplicate failure attach target''
             (target_details (strip ty) (strip i))))"
  by (auto simp: target_ok_def Let_def)

lemma normalize_loop_Inr_iff:
  "distinct acc \<Longrightarrow> normalize_loop raws acc = Inr res \<longleftrightarrow>
     (\<forall>x \<in> set raws. target_ok x) \<and> res = acc @ map (map_prod strip strip) raws \<and> distinct res"
proof (induction raws arbitrary: acc)
  case Nil
  then show ?case by auto
next
  case (Cons x raws)
  obtain ty i where x: "x = (ty, i)" by (cases x)
  show ?case
  proof (cases "target_ok (ty, i) \<and> (strip ty, strip i) \<notin> set acc")
    case True
    then have "distinct (acc @ [(strip ty, strip i)])" using Cons.prems by simp
    from Cons.IH [OF this] True show ?thesis
      unfolding x normalize_loop_Cons by simp
  next
    case False
    then show ?thesis unfolding x normalize_loop_Cons by auto
  qed
qed

lemma normalize_targets_Inr_iff:
  "normalize_targets raws = Inr res \<longleftrightarrow>
     (\<forall>x \<in> set raws. target_ok x) \<and> res = map (map_prod strip strip) raws \<and> distinct res"
  by (auto simp: normalize_targets_def normalize_loop_Inr_iff)

lemma normalize_loop_strip:
  "normalize_loop (map (map_prod strip strip) raws) acc = normalize_loop raws acc"
proof (induction raws arbitrary: acc)
  case (Cons x raws)
  then show ?case by (cases x) (simp add: Let_def)
qed simp

text \<open>
  Which targets a report may name. The normalisation accepts a list exactly if every type is
  \<open>node\<close> or \<open>edge\<close> and every id is not blank, up to surrounding white space, and no target occurs twice
  after stripping; the result is the stripped list. White space around types and ids never changes
  the outcome, an error included.
\<close>

theorem normalize_targets_correct:
  "(normalize_targets raws = Inr res \<longleftrightarrow>
      list_all target_ok raws \<and> res = map (map_prod strip strip) raws \<and> distinct res) \<and>
   normalize_targets (map (map_prod strip strip) raws) = normalize_targets raws"
  by (auto simp: normalize_targets_Inr_iff list_all_iff) (simp add: normalize_targets_def normalize_loop_strip)

section \<open>What applying a report may change\<close>

text \<open>
  The relation between a row before and after. Of a node only the status, the time of the update and
  an empty visibility, which is read and written back as \<open>workspace\<close>, may change; a node of another
  workspace or with a terminal status is unchanged, a failed node stays failed, and a status only changes
  to \<open>weakened\<close> or \<open>failed\<close>. Of an edge only the status, to \<open>weakened\<close> or \<open>invalidated\<close>, the strength and the
  time may change; the strength never grows and stays between 0 and 1. Of a route only the status
  changes, and only to \<open>weakened\<close>; of a report only the impact summary and its time.
\<close>

definition node_ok :: "string \<Rightarrow> node_row \<Rightarrow> node_row \<Rightarrow> bool" where
  "node_ok w r r' \<longleftrightarrow>
     nd_node_id r' = nd_node_id r \<and> nd_workspace_id r' = nd_workspace_id r \<and>
     nd_node_type r' = nd_node_type r \<and> nd_object_ref_type r' = nd_object_ref_type r \<and>
     nd_object_ref_id r' = nd_object_ref_id r \<and>
     r'\<lparr>nd_status := nd_status r, nd_updated_at := nd_updated_at r, nd_visibility := nd_visibility r\<rparr> = r \<and>
     (nd_visibility r' = nd_visibility r \<or> nd_visibility r = [] \<and> nd_visibility r' = ''workspace'') \<and>
     (nd_workspace_id r \<noteq> w \<longrightarrow> r' = r) \<and> (nd_status r \<in> set terminal_statuses \<longrightarrow> r' = r) \<and>
     (nd_status r = ''failed'' \<longrightarrow> nd_status r' = ''failed'') \<and>
     (nd_status r' = nd_status r \<or> nd_status r' = ''weakened'' \<or> nd_status r' = ''failed'')"

definition fresh_node :: "string \<Rightarrow> node_row \<Rightarrow> bool" where
  "fresh_node w r \<longleftrightarrow> nd_workspace_id r = w \<and> nd_object_ref_type r \<in> {''failure_gap'', ''failure_branch''}"

definition edge_ok :: "string \<Rightarrow> edge_row \<Rightarrow> edge_row \<Rightarrow> bool" where
  "edge_ok w r r' \<longleftrightarrow>
     eg_edge_id r' = eg_edge_id r \<and> eg_workspace_id r' = eg_workspace_id r \<and>
     eg_source_node_id r' = eg_source_node_id r \<and> eg_target_node_id r' = eg_target_node_id r \<and>
     eg_edge_type r' = eg_edge_type r \<and> eg_object_ref_type r' = eg_object_ref_type r \<and>
     eg_object_ref_id r' = eg_object_ref_id r \<and>
     r'\<lparr>eg_status := eg_status r, eg_strength := eg_strength r, eg_updated_at := eg_updated_at r\<rparr> = r \<and>
     (eg_status r' = eg_status r \<or> eg_status r' = ''weakened'' \<or> eg_status r' = ''invalidated'') \<and>
     (eg_workspace_id r \<noteq> w \<longrightarrow> r' = r) \<and> (eg_status r \<in> set terminal_statuses \<longrightarrow> r' = r) \<and>
     (0 \<le> eg_strength r \<and> eg_strength r \<le> 1 \<longrightarrow> 0 \<le> eg_strength r' \<and> eg_strength r' \<le> eg_strength r)"

definition fresh_edge :: "string \<Rightarrow> edge_row \<Rightarrow> bool" where
  "fresh_edge w r \<longleftrightarrow>
     eg_workspace_id r = w \<and> eg_object_ref_type r \<in> {''failure_gap_link'', ''failure_branch_link''}"

definition route_ok :: "string \<Rightarrow> route_row \<Rightarrow> route_row \<Rightarrow> bool" where
  "route_ok w r r' \<longleftrightarrow>
     r' = r \<or> rr_workspace_id r = w \<and> rr_status r \<notin> set route_terminal_statuses \<and>
       r' = r\<lparr>rr_status := ''weakened''\<rparr>"

definition failure_ok :: "string \<Rightarrow> failure_row \<Rightarrow> failure_row \<Rightarrow> bool" where
  "failure_ok f r r' \<longleftrightarrow>
     (fr_failure_id r \<noteq> f \<longrightarrow> r' = r) \<and>
     r'\<lparr>fr_impact_summary := fr_impact_summary r, fr_impact_updated_at := fr_impact_updated_at r\<rparr> = r"

definition fresh_event :: "string \<Rightarrow> event_row \<Rightarrow> bool" where
  "fresh_event w e \<longleftrightarrow> evt_workspace_id e = Some w \<and> evt_event_name e = ''failure_attached''"

lemma node_ok_trans: "node_ok w r r' \<Longrightarrow> node_ok w r' r'' \<Longrightarrow> node_ok w r r''"
  by (cases r; cases r'; cases r'') (auto simp: node_ok_def)

lemma edge_ok_trans: "edge_ok w r r' \<Longrightarrow> edge_ok w r' r'' \<Longrightarrow> edge_ok w r r''"
  by (cases r; cases r'; cases r'') (auto simp: edge_ok_def)

interpretation node_evo: row_evolution "node_ok w" "fresh_node w" for w
proof unfold_locales
  fix r r' r'' :: node_row
  assume "node_ok w r r'" "node_ok w r' r''"
  then show "node_ok w r r''" by (rule node_ok_trans)
qed (auto simp: node_ok_def fresh_node_def)

interpretation edge_evo: row_evolution "edge_ok w" "fresh_edge w" for w
proof unfold_locales
  fix r r' r'' :: edge_row
  assume "edge_ok w r r'" "edge_ok w r' r''"
  then show "edge_ok w r r''" by (rule edge_ok_trans)
qed (auto simp: edge_ok_def fresh_edge_def)

interpretation route_evo: row_evolution "route_ok w" "\<lambda>_. False" for w
  by unfold_locales (auto simp: route_ok_def route_terminal_statuses_def)

interpretation failure_evo: row_evolution "failure_ok f" "\<lambda>_. False" for f
proof unfold_locales
  fix r r' r'' :: failure_row
  assume "failure_ok f r r'" "failure_ok f r' r''"
  then show "failure_ok f r r''"
    by (cases r; cases r'; cases r'') (auto simp: failure_ok_def)
qed (auto simp: failure_ok_def)

interpretation event_evo: row_evolution "(=)" "fresh_event w" for w
  by unfold_locales auto

definition failure_step :: "string \<Rightarrow> string \<Rightarrow> store \<Rightarrow> store \<Rightarrow> bool" where
  "failure_step w f s s' \<longleftrightarrow> (wf_store s \<longrightarrow>
     wf_store s' \<and>
     evolves (node_ok w) (fresh_node w) (node_rows s) (node_rows s') \<and>
     evolves (edge_ok w) (fresh_edge w) (edge_rows s) (edge_rows s') \<and>
     evolves (route_ok w) (\<lambda>_. False) (route_rows s) (route_rows s') \<and>
     evolves (failure_ok f) (\<lambda>_. False) (failure_rows s) (failure_rows s') \<and>
     evolves (=) (fresh_event w) (event_rows s) (event_rows s') \<and>
     version_rows s' = version_rows s \<and> workspace_rows s' = workspace_rows s \<and>
     job_rows s' = job_rows s \<and> object_rows s' = object_rows s \<and> claim_rows s' = claim_rows s \<and> research s' = research s)"

interpretation failure_run: evolution "failure_step w f" for w f
proof unfold_locales
  fix s
  show "failure_step w f s s"
    by (simp add: failure_step_def node_evo.evolves_refl edge_evo.evolves_refl route_evo.evolves_refl
        failure_evo.evolves_refl event_evo.evolves_refl)
next
  fix s s' s''
  assume "failure_step w f s s'" "failure_step w f s' s''"
  then show "failure_step w f s s''"
    unfolding failure_step_def
    by (metis (no_types, lifting) node_evo.evolves_trans edge_evo.evolves_trans route_evo.evolves_trans
        failure_evo.evolves_trans event_evo.evolves_trans)
qed

lemmas evo_refl [simp] =
  node_evo.evolves_refl edge_evo.evolves_refl route_evo.evolves_refl failure_evo.evolves_refl
  event_evo.evolves_refl

text \<open>The statements, one by one.\<close>

lemma step_tick: "failure_step w f s (s\<lparr>drawn := d, ticks := t\<rparr>)"
  by (simp add: failure_step_def wf_store_def)

lemma step_now: "failure_step w f s (snd (now s))"
  by (simp add: now_def failure_step_def wf_store_def)

lemma step_create_node:
  assumes "rt \<in> {''failure_gap'', ''failure_branch''}"
  shows "failure_step w f s (snd (create_graph_node w ty rt ri lab desc tags vis srefs c sref st s))"
proof -
  obtain r s' where c: "create_graph_node w ty rt ri lab desc tags vis srefs c sref st s = (r, s')"
    by (cases "create_graph_node w ty rt ri lab desc tags vis srefs c sref st s")
  from c show ?thesis
  proof (cases rule: create_graph_node_cases)
    case (taken e)
    then show ?thesis using c by (simp add: step_tick)
  next
    case (created n)
    then have "fresh_node w n" using assms by (simp add: fresh_node_def)
    then show ?thesis
      using c created by (simp add: failure_step_def wf_store_def node_evo.evolves_insert)
  qed
qed

lemma step_create_edge:
  assumes "rt \<in> {''failure_gap_link'', ''failure_branch_link''}"
  shows "failure_step w f s (snd (create_graph_edge w a b ty rt ri x c sref st s))"
proof -
  obtain r s' where c: "create_graph_edge w a b ty rt ri x c sref st s = (r, s')"
    by (cases "create_graph_edge w a b ty rt ri x c sref st s")
  from c show ?thesis
  proof (cases rule: create_graph_edge_cases)
    case (taken e)
    then show ?thesis using c by (simp add: step_tick)
  next
    case (created g)
    then have "fresh_edge w g" using assms by (simp add: fresh_edge_def)
    then show ?thesis
      using c created by (simp add: failure_step_def wf_store_def edge_evo.evolves_insert)
  qed
qed

text \<open>The strength after a failure: the rounding to four decimals never undoes the penalty.\<close>

lemma py_round_4_le:
  assumes "0 \<le> x" "x \<le> 1"
  shows "py_round 4 x \<le> x + 1 / 10 ^ 4"
proof -
  let ?k = "of_int (round_half_even (x * 10 ^ 4)) / 10 ^ 4 :: rat"
  have k: "?k \<le> x + 1 / (2 * 10 ^ 4)"
    using abs_le_D1 [OF round_half_even_near [of "x * 10 ^ 4"]] by simp
  have "0 \<le> round_half_even (x * 10 ^ 4)" by (rule round_half_even_ge) (simp add: assms)
  then have k0: "0 \<le> ?k" by simp
  have "fl ?k \<le> ?k + ?k / 2 ^ 53" using fl_upper [of ?k] k0 by simp
  moreover have "?k / 2 ^ 53 \<le> 2 / 2 ^ 53"
    using k assms by (intro divide_right_mono) simp_all
  ultimately show ?thesis using k unfolding py_round_def by simp
qed

lemma weakened_strength_bounds:
  assumes "0 \<le> c" "c \<le> 1"
  shows "0 \<le> weakened_strength st c" and "weakened_strength st c \<le> c"
proof -
  show "0 \<le> weakened_strength st c" by (simp add: weakened_strength_def)
  define p where "p = (if st = ''invalidated'' then fl (5 / 10) else fl (3 / 10))"
  have p: "1 / 5 \<le> p" "p \<le> 1"
    using fl_lower [of "5 / 10"] fl_lower [of "3 / 10"] fl_le_1 [of "5 / 10"] fl_le_1 [of "3 / 10"]
    by (simp_all add: p_def)
  have w: "weakened_strength st c = max 0 (py_round 4 (fsub c p))"
    by (simp add: weakened_strength_def p_def)
  show "weakened_strength st c \<le> c"
  proof (cases "c \<le> p")
    case True
    then have "fsub c p \<le> 0" using fl_mono [of "c - p" 0] by (simp add: fsub_def)
    then have "py_round 4 (fsub c p) \<le> 0" using py_round_mono [of "fsub c p" 0 4] by simp
    then show ?thesis using w assms by simp
  next
    case False
    then have x: "0 \<le> fsub c p" "fsub c p \<le> 1"
      using fl_nonneg [of "c - p"] fl_le_1 [of "c - p"] assms p by (simp_all add: fsub_def)
    have "\<bar>c - p\<bar> / 2 ^ 53 \<le> 1 / 2 ^ 53"
      using False assms p by (intro divide_right_mono) simp_all
    then have "fsub c p \<le> c - p + 1 / 2 ^ 53"
      using fl_upper [of "c - p"] unfolding fsub_def by linarith
    then have "py_round 4 (fsub c p) \<le> c"
      using py_round_4_le [OF x] p by simp
    then show ?thesis using w assms by simp
  qed
qed

lemma ensure_target_cases:
  assumes "ensure_target_exists_and_owned w ty i s = (r, s')"
  obtains (refused) e where "r = Inl e" and "s' = s" and "\<exists>st c m d. e = ServiceError st c m d"
  | (node) n where "ty = ''node''" and "r = Inr (TargetNode (node_view n))" and "s' = s"
      and "select_key nd_node_id i (node_rows s) = Some n" and "nd_workspace_id n = w"
  | (edge) g where "ty \<noteq> ''node''" and "r = Inr (TargetEdge g)" and "s' = s"
      and "select_key eg_edge_id i (edge_rows s) = Some g" and "eg_workspace_id g = w"
  using assms
  by (cases "ty = ''node''")
    (auto simp: ensure_target_exists_and_owned_def and_then_def proc_simps Let_def
      split: option.splits if_splits)

lemma update_node_status_apply:
  assumes "select_key nd_node_id i (node_rows s) = Some n"
  shows "update_graph_node i None None None None None (Some st) s =
    (Inr (Some (node_view (n\<lparr>nd_status := st, nd_updated_at := clock s (ticks s)\<rparr>))),
     s\<lparr>ticks := Suc (ticks s), node_rows := update_where (\<lambda>r. nd_node_id r = i)
        (\<lambda>r. r\<lparr>nd_short_label := nd_short_label n, nd_full_description := nd_full_description n,
               nd_short_tags := nd_short_tags n, nd_visibility := nd_visibility (node_view n),
               nd_source_refs := nd_source_refs n, nd_status := st,
               nd_updated_at := clock s (ticks s)\<rparr>) (node_rows s)\<rparr>)"
  using assms select_key_Some [OF assms]
  by (simp add: update_graph_node_def and_then_def proc_simps select_key_update node_view_def)

lemma step_update_node:
  assumes "select_key nd_node_id i (node_rows s) = Some n" "nd_workspace_id n = w"
    and "nd_status n \<notin> set terminal_statuses" "nd_status n = ''failed'' \<longrightarrow> st = ''failed''"
    and "st = ''weakened'' \<or> st = ''failed''"
  shows "failure_step w f s (snd (update_graph_node i None None None None None (Some st) s))"
proof -
  have "nd_node_id n = i" using select_key_Some [OF assms(1)] by simp
  then have "r = n" if "wf_store s" "r \<in> set (node_rows s)" "nd_node_id r = i" for r
    using that selected_row [OF _ assms(1)] by (auto simp: wf_store_def)
  then show ?thesis
    using assms(2-)
    by (auto simp: update_node_status_apply [OF assms(1)] failure_step_def wf_store_def
        distinct_keys_update node_ok_def node_view_def intro!: node_evo.evolves_update)
qed

lemma update_edge_apply:
  assumes "select_key eg_edge_id i (edge_rows s) = Some g"
  shows "update_graph_edge i (Some st) (Some x) s =
    (Inr (Some (g\<lparr>eg_status := st, eg_strength := x, eg_updated_at := clock s (ticks s)\<rparr>)),
     s\<lparr>ticks := Suc (ticks s), edge_rows := update_where (\<lambda>r. eg_edge_id r = i)
        (\<lambda>r. r\<lparr>eg_status := st, eg_strength := x, eg_updated_at := clock s (ticks s)\<rparr>) (edge_rows s)\<rparr>)"
  using assms select_key_Some [OF assms]
  by (simp add: update_graph_edge_def and_then_def proc_simps select_key_update)

lemma step_update_edge:
  assumes "select_key eg_edge_id i (edge_rows s) = Some g" "eg_workspace_id g = w"
    and "eg_status g \<notin> set terminal_statuses" "st = ''weakened'' \<or> st = ''invalidated''"
    and "0 \<le> eg_strength g \<and> eg_strength g \<le> 1 \<longrightarrow> 0 \<le> x \<and> x \<le> eg_strength g"
  shows "failure_step w f s (snd (update_graph_edge i (Some st) (Some x) s))"
proof -
  have "eg_edge_id g = i" using select_key_Some [OF assms(1)] by simp
  then have "r = g" if "wf_store s" "r \<in> set (edge_rows s)" "eg_edge_id r = i" for r
    using that selected_row [OF _ assms(1)] by (auto simp: wf_store_def)
  then show ?thesis
    using assms(2-)
    by (auto simp: update_edge_apply [OF assms(1)] failure_step_def wf_store_def
        distinct_keys_update edge_ok_def intro!: edge_evo.evolves_update)
qed

lemma status_for_node:
  "status_for failure_severity_to_node_status sev = ''weakened'' \<or>
   status_for failure_severity_to_node_status sev = ''failed''"
  by (simp add: status_for_def failure_severity_to_node_status_def)

lemma status_for_edge:
  "status_for failure_severity_to_edge_status sev = ''weakened'' \<or>
   status_for failure_severity_to_edge_status sev = ''invalidated''"
  by (simp add: status_for_def failure_severity_to_edge_status_def)

lemma step_attach_target: "failure_step w f s (snd (attach_target w sev target im s))"
proof -
  obtain r s' where e: "ensure_target_exists_and_owned w (if fst target = ''node'' then ''node'' else ''edge'')
      (snd target) s = (r, s')"
    by (cases "ensure_target_exists_and_owned w (if fst target = ''node'' then ''node'' else ''edge'')
      (snd target) s")
  from e show ?thesis
  proof (cases rule: ensure_target_cases)
    case (refused x)
    then show ?thesis using e by (simp add: attach_target_def and_then_def failure_run.refl)
  next
    case (node n)
    let ?st = "status_for failure_severity_to_node_status sev"
    have u: "failure_step w f s (snd (update_graph_node (snd target) None None None None None (Some ?st) s))"
      if "nd_status n \<notin> set terminal_statuses" "\<not> (nd_status n = ''failed'' \<and> ?st = ''weakened'')"
      by (rule step_update_node [OF node(4,5)]) (use that status_for_node [of sev] in auto)
    show ?thesis
      using e node u
      by (auto simp: attach_target_def attach_to_node_def and_then_def proc_simps Let_def
          update_node_status_apply failure_run.refl skip_unless_def)
  next
    case (edge g)
    let ?st = "status_for failure_severity_to_edge_status sev"
    have u: "failure_step w f s (snd (update_graph_edge (snd target)
        (Some ?st) (Some (weakened_strength ?st (eg_strength g))) s))"
      if "eg_status g \<notin> set terminal_statuses"
      by (rule step_update_edge [OF edge(4,5)]) (use that weakened_strength_bounds status_for_edge [of sev] in auto)
    show ?thesis
      using e edge u
      by (auto simp: attach_target_def attach_to_edge_def and_then_def proc_simps Let_def
          update_edge_apply failure_run.refl)
  qed
qed

lemma step_mark_route:
  assumes "wf_store s" "r \<in> set (route_rows s)" "rr_route_id r = k" "rr_workspace_id r = w"
    and "rr_status r \<notin> set route_terminal_statuses"
  shows "failure_step w f s (snd (update_route_status k ''weakened'' s))"
proof -
  have u: "q = r" if "q \<in> set (route_rows s)" "rr_route_id q = k" for q
    using that assms(1-3) unique_row [of rr_route_id "route_rows s" q r] by (simp add: wf_store_def)
  have "evolves (route_ok w) (\<lambda>_. False) (route_rows s)
      (update_where (\<lambda>r. rr_route_id r = k) (\<lambda>r. r\<lparr>rr_status := ''weakened''\<rparr>) (route_rows s))"
    by (rule route_evo.evolves_update) (use u assms(4,5) in \<open>simp add: route_ok_def\<close>)
  then show ?thesis
    by (simp add: update_route_status_apply failure_step_def wf_store_def distinct_keys_update)
qed

text \<open>While the routes are marked, the row of every listed route is there, at most weakened.\<close>

definition routes_listed :: "string \<Rightarrow> route_view list \<Rightarrow> store \<Rightarrow> bool" where
  "routes_listed w views s \<longleftrightarrow> wf_store s \<and>
     (\<forall>v \<in> set views. \<exists>r \<in> set (route_rows s). rr_route_id r = rr_route_id v \<and> rr_workspace_id r = w \<and>
        (rr_status r = rr_status v \<or> rr_status r = ''weakened''))"

lemma routes_listed_stable:
  assumes "routes_listed w views s" "failure_step w f s s'"
  shows "routes_listed w views s'"
  unfolding routes_listed_def
proof (intro conjI ballI)
  show "wf_store s'" using assms by (simp add: routes_listed_def failure_step_def)
  fix v
  assume "v \<in> set views"
  then obtain r where r: "r \<in> set (route_rows s)" "rr_route_id r = rr_route_id v" "rr_workspace_id r = w"
    "rr_status r = rr_status v \<or> rr_status r = ''weakened''"
    using assms(1) by (auto simp: routes_listed_def)
  obtain r' where "r' \<in> set (route_rows s')" "route_ok w r r'"
    using assms r(1) route_evo.evolves_row [of w "route_rows s" "route_rows s'" r]
    by (auto simp: routes_listed_def failure_step_def)
  then show "\<exists>r \<in> set (route_rows s'). rr_route_id r = rr_route_id v \<and> rr_workspace_id r = w \<and>
      (rr_status r = rr_status v \<or> rr_status r = ''weakened'')"
    using r by (intro bexI [of _ r']) (auto simp: route_ok_def)
qed

lemma step_mark_affected_routes: "failure_step w f s (snd (mark_affected_routes w nids eids s))"
proof (cases "wf_store s")
  case True
  let ?views = "map route_view_of (filter (\<lambda>r. rr_workspace_id r = w) (route_rows s))"
  let ?body = "\<lambda>r affected.
    if \<not> route_touched nids eids r then ret affected
    else
      and_then
        (skip_unless (rr_status r \<notin> set route_terminal_statuses \<and> rr_status r \<noteq> ''weakened'')
          (and_then (update_route_status (rr_route_id r) ''weakened'') (\<lambda>_. ret ()))) (\<lambda>_.
      ret (affected @ [rr_route_id r]))"
  have "failure_step w f s (snd (fold_proc ?body ?views [] s))"
  proof (rule failure_run.step_fold [where Q = "routes_listed w ?views"])
    show "routes_listed w ?views s" using True by (auto simp: routes_listed_def)
  next
    fix v affected and t :: store
    assume v: "v \<in> set ?views" and t: "routes_listed w ?views t"
    obtain r where r: "r \<in> set (route_rows t)" "rr_route_id r = rr_route_id v" "rr_workspace_id r = w"
      "rr_status r = rr_status v \<or> rr_status r = ''weakened''"
      using v t unfolding routes_listed_def by blast
    have "failure_step w f t (snd (update_route_status (rr_route_id v) ''weakened'' t))"
      if "rr_status v \<notin> set route_terminal_statuses"
      using that t r by (intro step_mark_route [of t r]) (auto simp: routes_listed_def route_terminal_statuses_def)
    then show "failure_step w f t (snd (?body v affected t))"
      by (auto simp: and_then_def proc_simps skip_unless_def failure_run.refl)
  qed (rule routes_listed_stable)
  then show ?thesis by (simp add: mark_affected_routes_def and_then_def proc_simps)
qed (simp add: failure_step_def)

lemma always_marker_node:
  assumes "rt \<in> {''failure_gap'', ''failure_branch''}"
  shows "always (failure_step w f) (ensure_marker_node w fid a ty rt title)"
proof -
  have "always (failure_step w f) (create_graph_node w ty rt ri lab desc tags vis srefs c sref st)"
    for ri lab desc tags vis srefs c sref st
    using step_create_node [OF assms] by (simp add: always_def)
  moreover have "always (failure_step w f) (find_graph_node_by_object_ref w rt ri)" for ri
    unfolding find_graph_node_by_object_ref_def get_graph_node_def
    by (intro failure_run.always_intros) (auto split: option.split intro: failure_run.always_intros)
  ultimately show ?thesis
    unfolding ensure_marker_node_def Let_def
    by (auto split: option.split intro!: failure_run.always_intros)
qed

lemma always_marker_edge:
  assumes "rt \<in> {''failure_gap_link'', ''failure_branch_link''}"
  shows "always (failure_step w f) (ensure_marker_edge w fid a m ty rt suffix)"
proof -
  have "always (failure_step w f) (create_graph_edge w a m ty rt ri x c sref st)" for ri x c sref st
    using step_create_edge [OF assms] by (simp add: always_def)
  moreover have "always (failure_step w f) (find_graph_edge_by_ref w a m ty rt ri)" for ri
    unfolding find_graph_edge_by_ref_def get_graph_edge_def
    by (intro failure_run.always_intros) (auto split: option.split intro: failure_run.always_intros)
  ultimately show ?thesis
    unfolding ensure_marker_edge_def Let_def
    by (auto split: option.split intro!: failure_run.always_intros)
qed

lemma always_markers: "always (failure_step w f) (ensure_gap_and_branch_markers w fid anchors)"
  unfolding ensure_gap_and_branch_markers_def ensure_markers_of_def
  by (auto split: prod.split intro!: failure_run.always_intros always_marker_node always_marker_edge)

lemma always_update_failure_impact: "always (failure_step w f) (update_failure_impact f d t)"
  unfolding update_failure_impact_def failure_run.always_writing
  by (auto simp: failure_step_def wf_store_def distinct_keys_update failure_ok_def
      intro!: failure_evo.evolves_update)

lemma always_get_failure: "always (failure_step w f) (get_failure f)"
  unfolding get_failure_def
  by (auto split: option.split prod.split
      intro!: failure_run.always_intros always_update_failure_impact)

lemma always_emit:
  assumes "evt_workspace_id args = Some w" "evt_event_name args = ''failure_attached''"
  shows "always (failure_step w f) (emit_event args)"
  unfolding always_def
proof
  fix s
  obtain r s' where e: "emit_event args s = (r, s')" by (cases "emit_event args s")
  from e show "failure_step w f s (snd (emit_event args s))"
  proof (cases rule: emit_event_cases)
    case (taken k)
    then show ?thesis using e by (simp add: step_tick)
  next
    case (added x)
    then show ?thesis
      using e assms
      by (auto simp: failure_step_def wf_store_def fresh_event_def intro!: event_evo.evolves_insert)
  qed
qed

lemma always_apply_new_failure:
  "fr_failure_id r = f \<Longrightarrow> always (failure_step w f) (apply_new_failure w q r)"
  unfolding apply_new_failure_def Let_def
  using step_attach_target step_mark_affected_routes
  by (auto simp: always_def [of _ "attach_target w x y z" for x y z]
      always_def [of _ "mark_affected_routes w x y" for x y] always_def [of _ now] step_now
      intro!: failure_run.always_intros always_markers always_update_failure_impact always_emit)

lemma get_failure_id: "get_failure f s = (Inr (Some r), s') \<Longrightarrow> fr_failure_id r = f"
  by (auto simp: get_failure_def and_then_def proc_simps update_failure_impact_def
      dest: select_key_Some split: option.splits prod.splits if_splits)

lemma step_apply_failure: "failure_step w f s (snd (apply_failure w f q s))"
  unfolding apply_failure_def
proof (rule failure_run.step_and_then)
  show "failure_step w f s (snd (get_failure f s))" by (rule alwaysD [OF always_get_failure])
  fix found s'
  assume g: "get_failure f s = (Inr found, s')"
  have new: "failure_step w f t (snd (apply_new_failure w q r t))" if "found = Some r" for r t
    using alwaysD [OF always_apply_new_failure] get_failure_id g that by blast
  show "failure_step w f s' (snd (and_then
      (require (ServiceError 404 ''research.not_found'' ''failure not found'' [(''failure_id'', VStr f)]) found)
      (\<lambda>failure. and_then
        (check (ServiceError 409 ''research.conflict'' ''workspace_id does not match failure ownership''
          [(''failure_id'', VStr f)]) (fr_workspace_id failure = w)) (\<lambda>_.
        and_then (reading (find_latest_event w ''failure_attached'' (Some (''failure_id'', f)))) (\<lambda>existing.
          case existing of None \<Rightarrow> apply_new_failure w q failure
          | Some e \<Rightarrow> (case impact_of_event e of None \<Rightarrow> apply_new_failure w q failure
              | Some summary \<Rightarrow> ret summary)))) s'))"
    by (cases found) (auto simp: and_then_def proc_simps failure_run.refl new split: option.split)
qed

section \<open>Applying a report again\<close>

text \<open>Until the outcome is recorded, the log and the reports are left alone.\<close>

definition quiet :: "store \<Rightarrow> store \<Rightarrow> bool" where
  "quiet s s' \<longleftrightarrow>
     event_rows s' = event_rows s \<and> failure_rows s' = failure_rows s \<and>
     clock s' = clock s \<and> hex_supply s' = hex_supply s \<and> ticks s \<le> ticks s'"

interpretation quiet_run: evolution quiet
  by unfold_locales (auto simp: quiet_def)

lemma quiet_statements:
  "always quiet (gen_id p)" "always quiet now"
  "always quiet (insert_row nd_node_id node_rows node_rows_update n)"
  "always quiet (insert_row eg_edge_id edge_rows edge_rows_update g)"
  "always quiet (writing (node_rows_update h))"
  "always quiet (writing (edge_rows_update k))"
  "always quiet (writing (route_rows_update l))"
  by (simp_all add: always_def quiet_def gen_id_def now_def insert_row_def writing_def)

lemmas quiet_intros = quiet_run.always_intros quiet_statements

lemma quiet_reads:
  "always quiet (get_graph_node i)" "always quiet (get_graph_edge i)" "always quiet (get_route i)"
  "always quiet (list_routes w)"
  by (auto simp: get_graph_node_def get_graph_edge_def get_route_def list_routes_def intro: quiet_intros)

lemma quiet_graph:
  "always quiet (update_graph_node i a b c d e st)"
  "always quiet (update_graph_edge i st' x)"
  "always quiet (create_graph_node w ty rt ri lab desc tags vis srefs c' sref st'')"
  "always quiet (create_graph_edge w n m ty rt ri y c' sref st'')"
  "always quiet (update_route_status i v)"
  "always quiet (find_graph_node_by_object_ref w rt ri)"
  "always quiet (find_graph_edge_by_ref w n m ty rt ri)"
  unfolding update_graph_node_def update_graph_edge_def create_graph_node_def create_graph_edge_def
    update_route_status_def update_route_def find_graph_node_by_object_ref_def
    find_graph_edge_by_ref_def
  by (auto split: option.split intro!: quiet_intros quiet_reads)

lemma quiet_attach_target: "always quiet (attach_target w sev target im)"
  unfolding attach_target_def attach_to_node_def attach_to_edge_def
    ensure_target_exists_and_owned_def Let_def
  by (auto split: target_object.split intro!: quiet_intros quiet_reads quiet_graph)

lemma quiet_mark_affected_routes: "always quiet (mark_affected_routes w nids eids)"
  unfolding mark_affected_routes_def
  by (auto intro!: quiet_intros quiet_reads quiet_graph)

lemma quiet_markers: "always quiet (ensure_gap_and_branch_markers w fid anchors)"
  unfolding ensure_gap_and_branch_markers_def ensure_markers_of_def ensure_marker_node_def
    ensure_marker_edge_def Let_def
  by (auto split: prod.split option.split intro!: quiet_intros quiet_graph)

lemma quiet_in_order:
  assumes "quiet s s'" "mono (clock s)" "events_in_order s"
  shows "events_in_order s'"
  using assms by (auto simp: quiet_def events_in_order_def dest: monoD intro: order_trans)

definition attached_event :: "string \<Rightarrow> string \<Rightarrow> payload \<Rightarrow> event_row \<Rightarrow> bool" where
  "attached_event w f summary e \<longleftrightarrow>
     evt_workspace_id e = Some w \<and> event_matches ''failure_attached'' (Some (''failure_id'', f)) e \<and>
     impact_of_event e = Some summary"

lemma apply_new_failure_Inr:
  assumes "apply_new_failure w q r s = (Inr summary, s')"
  obtains s1 e t where "quiet s s1" and "attached_event w (fr_failure_id r) summary e"
    and "evt_timestamp e = clock s (Suc (ticks s1))"
    and "s' = s1\<lparr>ticks := Suc (Suc (ticks s1)), drawn := Suc (drawn s1),
      failure_rows := update_where (\<lambda>x. fr_failure_id x = fr_failure_id r)
        (\<lambda>x. x\<lparr>fr_impact_summary := summary, fr_impact_updated_at := Some t\<rparr>) (failure_rows s),
      event_rows := event_rows s @ [e]\<rparr>"
proof -
  let ?f = "fr_failure_id r"
  obtain targets im affected mk s1 s2 s3 where
    n: "normalize_targets (fr_attached_targets r) = Inr targets"
    and a: "fold_proc (attach_target w (lower (fr_severity r))) targets no_impact s = (Inr im, s1)"
    and m: "mark_affected_routes w (im_weakened_node_ids im @ im_invalidated_node_ids im)
      (im_affected_edge_ids im) s1 = (Inr affected, s2)"
    and g: "ensure_gap_and_branch_markers w ?f (sorted_set (im_anchor_node_ids im)) s2 = (Inr mk, s3)"
    and rest: "and_then now (\<lambda>t. and_then (update_failure_impact ?f (impact_summary ?f im affected mk) (Some t))
      (\<lambda>_. and_then (emit_event (event_args ''failure_attached'' (Some q) None (Some w)
        ''failure_impact_service'' ''attach'' ''completed''
        [(''failure_id'', VStr ?f), (''targets'', VList (map (\<lambda>(ty, i). VDict (target_details ty i)) targets)),
         (''impact_summary'', VDict (impact_summary ?f im affected mk))]
        (impact_metrics im affected mk) None)) (\<lambda>_. ret (impact_summary ?f im affected mk)))) s3 =
      (Inr summary, s')"
    using assms by (auto simp: apply_new_failure_def Let_def and_then_Inr_iff lift_result_def)
  have "always quiet (fold_proc (attach_target w (lower (fr_severity r))) targets no_impact)"
    by (intro quiet_intros quiet_attach_target)
  from alwaysD_eq [OF this a] have q1: "quiet s s1" .
  have q3: "quiet s s3"
    using q1 alwaysD_eq [OF quiet_mark_affected_routes m] alwaysD_eq [OF quiet_markers g]
    by (meson quiet_run.trans)
  let ?args = "event_args ''failure_attached'' (Some q) None (Some w)
        ''failure_impact_service'' ''attach'' ''completed''
        [(''failure_id'', VStr ?f), (''targets'', VList (map (\<lambda>(ty, i). VDict (target_details ty i)) targets)),
         (''impact_summary'', VDict (impact_summary ?f im affected mk))]
        (impact_metrics im affected mk) None"
  let ?s4 = "failure_rows_update (update_where (\<lambda>x. fr_failure_id x = ?f)
        (\<lambda>x. x\<lparr>fr_impact_summary := impact_summary ?f im affected mk,
               fr_impact_updated_at := Some (clock s3 (ticks s3))\<rparr>)) (s3\<lparr>ticks := Suc (ticks s3)\<rparr>)"
  obtain r4 s5 where em: "emit_event ?args ?s4 = (r4, s5)" by (cases "emit_event ?args ?s4")
  have fin: "r4 = Inr () \<and> summary = impact_summary ?f im affected mk \<and> s' = s5"
    using rest em by (auto simp: and_then_def proc_simps update_failure_impact_def split: sum.splits)
  from em show thesis
  proof (cases rule: emit_event_cases)
    case (taken k)
    then show thesis using fin by simp
  next
    case (added e)
    show thesis
    proof (rule that [of s3 e "clock s3 (ticks s3)"])
      show "attached_event w ?f summary e"
        using added fin by (simp add: attached_event_def event_matches_def get_or_def impact_of_event_def)
    qed (use added fin q3 in \<open>auto simp: quiet_def\<close>)
  qed
qed

lemma find_latest_event_failure_rows [simp]:
  "find_latest_event w n ref (s\<lparr>failure_rows := x\<rparr>) = find_latest_event w n ref s"
  by (simp add: find_latest_event_def list_events_def)

text \<open>What reading a report does to its row: it may copy the impact of the newest event into it.\<close>

definition backfilled :: "string \<Rightarrow> (payload \<times> time) option \<Rightarrow> failure_row list \<Rightarrow> failure_row list" where
  "backfilled f snap rows =
     (case snap of
        None \<Rightarrow> rows
      | Some (d, t) \<Rightarrow>
          (case select_key fr_failure_id f rows of
             None \<Rightarrow> rows
           | Some r \<Rightarrow>
               if should_backfill r t
               then update_where (\<lambda>x. fr_failure_id x = f)
                 (\<lambda>x. x\<lparr>fr_impact_summary := d, fr_impact_updated_at := Some t\<rparr>) rows
               else rows))"

lemma get_failure_apply:
  assumes "select_key fr_failure_id f (failure_rows s) = Some r"
  shows "get_failure f s =
    (Inr (select_key fr_failure_id f
       (backfilled f (latest_failure_impact_snapshot (fr_workspace_id r) f s) (failure_rows s))),
     s\<lparr>failure_rows := backfilled f (latest_failure_impact_snapshot (fr_workspace_id r) f s) (failure_rows s)\<rparr>)"
  using assms select_key_Some [OF assms]
  by (simp add: get_failure_def and_then_apply proc_simps backfilled_def update_failure_impact_def
      select_key_update split: option.split prod.split)

lemma backfilled_selects:
  assumes "select_key fr_failure_id f rows = Some r"
  obtains r' where "select_key fr_failure_id f (backfilled f snap rows) = Some r'"
    and "fr_workspace_id r' = fr_workspace_id r" and "fr_failure_id r' = f"
proof -
  have id: "fr_failure_id r = f" using select_key_Some [OF assms] by simp
  show thesis
  proof (cases snap)
    case None
    then show thesis using assms id by (intro that [of r]) (simp_all add: backfilled_def)
  next
    case (Some dt)
    then show thesis
      using assms id
      by (intro that [of "if should_backfill r (snd dt)
            then r\<lparr>fr_impact_summary := fst dt, fr_impact_updated_at := Some (snd dt)\<rparr> else r"])
        (simp_all add: backfilled_def select_key_update split: prod.split)
  qed
qed

lemma backfilled_settled:
  assumes "select_key fr_failure_id f rows = Some r"
    and "select_key fr_failure_id f (backfilled f (Some (d, t)) rows) = Some r'"
  shows "fr_impact_summary r' = d \<or> \<not> should_backfill r' t"
proof (cases "should_backfill r t")
  case True
  then show ?thesis
    using assms select_key_Some [OF assms(1)] by (auto simp: backfilled_def select_key_update)
next
  case False
  then show ?thesis using assms by (simp add: backfilled_def)
qed

lemma get_failure_found:
  assumes "select_key fr_failure_id f (failure_rows s) = Some r"
  obtains r' rows where "get_failure f s = (Inr (Some r'), s\<lparr>failure_rows := rows\<rparr>)"
    and "rows = backfilled f (latest_failure_impact_snapshot (fr_workspace_id r) f s) (failure_rows s)"
    and "fr_workspace_id r' = fr_workspace_id r" and "fr_failure_id r' = f"
    and "select_key fr_failure_id f rows = Some r'"
proof -
  let ?rows = "backfilled f (latest_failure_impact_snapshot (fr_workspace_id r) f s) (failure_rows s)"
  obtain r' where r': "select_key fr_failure_id f ?rows = Some r'" "fr_workspace_id r' = fr_workspace_id r"
      "fr_failure_id r' = f"
    using backfilled_selects [OF assms] .
  show thesis by (rule that [OF _ refl r'(2,3,1)]) (simp add: get_failure_apply [OF assms] r'(1))
qed

lemma get_failure_missing:
  "select_key fr_failure_id f (failure_rows s) = None \<Longrightarrow> get_failure f s = (Inr None, s)"
  by (simp add: get_failure_def and_then_def proc_simps)

lemma apply_failure_known:
  assumes "select_key fr_failure_id f (failure_rows s) = Some r" "fr_workspace_id r = w"
    and "find_latest_event w ''failure_attached'' (Some (''failure_id'', f)) s = Some e"
    and "impact_of_event e = Some d"
  shows "apply_failure w f q s =
    (Inr d, s\<lparr>failure_rows := backfilled f (Some (d, evt_timestamp e)) (failure_rows s)\<rparr>)"
proof -
  have snap: "latest_failure_impact_snapshot (fr_workspace_id r) f s = Some (d, evt_timestamp e)"
    using assms(2-4) by (simp add: latest_failure_impact_snapshot_def)
  obtain r' rows where g: "get_failure f s = (Inr (Some r'), s\<lparr>failure_rows := rows\<rparr>)"
    and "rows = backfilled f (latest_failure_impact_snapshot (fr_workspace_id r) f s) (failure_rows s)"
    and "fr_workspace_id r' = fr_workspace_id r"
    by (rule get_failure_found [OF assms(1)])
  then show ?thesis
    using assms(2-4) unfolding snap by (simp add: apply_failure_def and_then_def proc_simps)
qed

lemma apply_failure_foreign:
  assumes "select_key fr_failure_id f (failure_rows s) = Some r" "fr_workspace_id r \<noteq> w"
  shows "apply_failure w f q s =
    (Inl (ServiceError 409 ''research.conflict'' ''workspace_id does not match failure ownership''
       [(''failure_id'', VStr f)]), snd (get_failure f s))"
proof -
  obtain r' rows where "get_failure f s = (Inr (Some r'), s\<lparr>failure_rows := rows\<rparr>)"
    and "fr_workspace_id r' = fr_workspace_id r"
    by (rule get_failure_found [OF assms(1)])
  then show ?thesis using assms(2) by (simp add: apply_failure_def and_then_def proc_simps)
qed

lemma apply_failure_recorded:
  assumes a: "apply_failure w f q s = (Inr d, s')"
    and o: "events_in_order s" "mono (clock s)" "length (workspace_events w s) < 5000"
  obtains e r where "find_latest_event w ''failure_attached'' (Some (''failure_id'', f)) s' = Some e"
    and "impact_of_event e = Some d" and "select_key fr_failure_id f (failure_rows s') = Some r"
    and "fr_workspace_id r = w" and "fr_impact_summary r = d \<or> \<not> should_backfill r (evt_timestamp e)"
proof -
  note result = that
  obtain r0 where r0: "select_key fr_failure_id f (failure_rows s) = Some r0"
    using a by (cases "select_key fr_failure_id f (failure_rows s)")
      (auto simp: apply_failure_def and_then_def get_failure_missing proc_simps)
  obtain r rows where g: "get_failure f s = (Inr (Some r), s\<lparr>failure_rows := rows\<rparr>)"
    and w0: "fr_workspace_id r = fr_workspace_id r0" and id: "fr_failure_id r = f"
    and bf: "rows = backfilled f (latest_failure_impact_snapshot (fr_workspace_id r0) f s) (failure_rows s)"
    and rows: "select_key fr_failure_id f rows = Some r"
    by (rule get_failure_found [OF r0]) blast
  let ?s0 = "s\<lparr>failure_rows := rows\<rparr>"
  have w: "fr_workspace_id r = w" and run: "(case find_latest_event w ''failure_attached'' (Some (''failure_id'', f)) s of
      Some e \<Rightarrow> (case impact_of_event e of Some x \<Rightarrow> ret x | None \<Rightarrow> apply_new_failure w q r)
    | None \<Rightarrow> apply_new_failure w q r) ?s0 = (Inr d, s')"
    using a g by (auto simp: apply_failure_def and_then_def proc_simps split: if_splits)
  note r1 = rows w
  have new: thesis if n: "apply_new_failure w q r ?s0 = (Inr d, s')"
  proof -
    from n obtain s1 e t where q1: "quiet ?s0 s1" and ev: "attached_event w (fr_failure_id r) d e"
      and ts: "evt_timestamp e = clock ?s0 (Suc (ticks s1))"
      and s': "s' = s1\<lparr>ticks := Suc (Suc (ticks s1)), drawn := Suc (drawn s1),
        failure_rows := update_where (\<lambda>x. fr_failure_id x = fr_failure_id r)
          (\<lambda>x. x\<lparr>fr_impact_summary := d, fr_impact_updated_at := Some t\<rparr>) (failure_rows ?s0),
        event_rows := event_rows ?s0 @ [e]\<rparr>"
      by (rule apply_new_failure_Inr)
    have "events_in_order ?s0" using o(1) by (simp add: events_in_order_def)
    then have o1: "events_in_order s1" using quiet_in_order [OF q1] o(2) by simp
    have c1: "clock s1 = clock s" "event_rows s1 = event_rows s" using q1 by (simp_all add: quiet_def)
    have le: "clock s (ticks s1) \<le> clock s (Suc (ticks s1))"
      "clock s (Suc (ticks s1)) \<le> clock s (Suc (Suc (ticks s1)))"
      using o(2) by (simp_all add: monoD)
    have o': "events_in_order s'"
      using o1 c1 le ts by (auto simp: s' events_in_order_def sorted_append intro: order_trans)
    have we: "workspace_events w s' = workspace_events w s @ [e]"
      using ev by (simp add: s' workspace_events_def attached_event_def)
    have "find_latest_event w ''failure_attached'' (Some (''failure_id'', f)) s' = Some e"
      using find_latest_event_last [OF o', of w] we o(3) ev id by (simp add: attached_event_def)
    moreover have "select_key fr_failure_id f (failure_rows s') =
        Some (r\<lparr>fr_impact_summary := d, fr_impact_updated_at := Some t\<rparr>)"
      using r1 id by (simp add: s' select_key_update)
    moreover have "impact_of_event e = Some d" using ev by (simp add: attached_event_def)
    ultimately show thesis
      using result [of e "r\<lparr>fr_impact_summary := d, fr_impact_updated_at := Some t\<rparr>"] w by simp
  qed
  show thesis
  proof (cases "find_latest_event w ''failure_attached'' (Some (''failure_id'', f)) s")
    case None
    then show thesis using run new by simp
  next
    case e: (Some e)
    show thesis
    proof (cases "impact_of_event e")
      case None
      then show thesis using run e new by simp
    next
      case x: (Some x)
      have "x = d" and s': "s' = ?s0" using run e x by (simp_all add: ret_def)
      then have d: "impact_of_event e = Some d" using x by simp
      have "latest_failure_impact_snapshot (fr_workspace_id r0) f s = Some (d, evt_timestamp e)"
        using w w0 e d by (simp add: latest_failure_impact_snapshot_def)
      then have settled: "fr_impact_summary r = d \<or> \<not> should_backfill r (evt_timestamp e)"
        using backfilled_settled [OF r0] rows unfolding bf by simp
      show thesis
        by (rule result [of e r]) (simp_all add: e d s' rows w settled)
    qed
  qed
qed

lemma backfilled_moves_time:
  assumes "distinct (map fr_failure_id rows)" "select_key fr_failure_id f rows = Some r"
    and "fr_impact_summary r = d \<or> \<not> should_backfill r t"
  shows "\<exists>u. backfilled f (Some (d, t)) rows =
    update_where (\<lambda>x. fr_failure_id x = f) (\<lambda>x. x\<lparr>fr_impact_updated_at := u\<rparr>) rows"
proof -
  have r: "x = r" if "x \<in> set rows" "fr_failure_id x = f" for x
    using selected_row [OF assms(1,2) that] by simp
  have u: "update_where (\<lambda>x. fr_failure_id x = f) g rows = update_where (\<lambda>x. fr_failure_id x = f) h rows"
    if "g r = h r" for g h
    by (auto simp: update_where_def dest!: r simp: that)
  show ?thesis
  proof (cases "should_backfill r t")
    case True
    then show ?thesis
      using assms(2,3) by (intro exI [of _ "Some t"]) (auto simp: backfilled_def intro!: u)
  next
    case False
    have "update_where (\<lambda>x. fr_failure_id x = f) (\<lambda>x. x\<lparr>fr_impact_updated_at := fr_impact_updated_at r\<rparr>) rows =
        update_where (\<lambda>x. fr_failure_id x = f) (\<lambda>x. x) rows"
      by (rule u) simp
    also have "\<dots> = rows" by (simp add: update_where_def)
    finally show ?thesis
      using False assms(2) by (intro exI [of _ "fr_impact_updated_at r"]) (simp add: backfilled_def)
  qed
qed

section \<open>Which routes are marked\<close>

lemma update_where_twice:
  assumes "\<And>r. P (f r) = P r" "\<And>r. f (f r) = f r"
  shows "update_where P f (update_where Q f xs) = update_where (\<lambda>r. P r \<or> Q r) f xs"
  using assms by (induction xs) auto

lemma update_where_cong:
  "(\<And>r. r \<in> set xs \<Longrightarrow> P r = Q r) \<Longrightarrow> update_where P f xs = update_where Q f xs"
  by (induction xs) auto

lemma mark_loop:
  "fold_proc (\<lambda>r affected.
       if \<not> route_touched nids eids r then ret affected
       else
         and_then
           (skip_unless (rr_status r \<notin> set route_terminal_statuses \<and> rr_status r \<noteq> ''weakened'')
             (and_then (update_route_status (rr_route_id r) ''weakened'') (\<lambda>_. ret ()))) (\<lambda>_.
         ret (affected @ [rr_route_id r]))) vs acc s =
   (Inr (acc @ map rr_route_id (filter (route_touched nids eids) vs)),
    route_rows_update (update_where
      (\<lambda>r. \<exists>v \<in> set vs. rr_route_id v = rr_route_id r \<and> route_touched nids eids v \<and>
         rr_status v \<notin> set route_terminal_statuses \<and> rr_status v \<noteq> ''weakened'')
      (\<lambda>r. r\<lparr>rr_status := ''weakened''\<rparr>)) s)"
proof (induction vs arbitrary: acc s)
  case Nil
  have "update_where (\<lambda>r. False) g xs = xs" for g :: "route_row \<Rightarrow> route_row" and xs
    by (rule update_where_id) simp
  then show ?case by (simp add: proc_simps)
next
  case (Cons v vs)
  let ?f = "\<lambda>r. r\<lparr>rr_status := ''weakened''\<rparr> :: route_row"
  let ?P = "\<lambda>v. route_touched nids eids v \<and> rr_status v \<notin> set route_terminal_statuses \<and> rr_status v \<noteq> ''weakened''"
  let ?Q = "\<lambda>r. \<exists>v \<in> set vs. rr_route_id v = rr_route_id r \<and> ?P v"
  have tw: "update_where ?Q ?f (update_where (\<lambda>r. rr_route_id r = rr_route_id v) ?f (route_rows s)) =
      update_where (\<lambda>r. ?Q r \<or> rr_route_id r = rr_route_id v) ?f (route_rows s)"
    by (rule update_where_twice) simp_all
  have pr: "(\<exists>x \<in> set (v # vs). rr_route_id x = rr_route_id r \<and> ?P x) \<longleftrightarrow>
      (if ?P v then ?Q r \<or> rr_route_id r = rr_route_id v else ?Q r)" for r :: route_row
    by auto
  show ?case
    unfolding pr
    by (cases "?P v") (auto simp: and_then_def proc_simps Cons.IH tw skip_unless_def)
qed

lemma mark_affected_routes_apply:
  assumes "wf_store s"
  shows "mark_affected_routes w nids eids s =
    (Inr (map rr_route_id (filter (\<lambda>r. rr_workspace_id r = w \<and> route_touched nids eids (route_view_of r)) (route_rows s))),
     s\<lparr>route_rows := update_where (\<lambda>r. rr_workspace_id r = w \<and> route_touched nids eids (route_view_of r) \<and>
        rr_status r \<notin> set route_terminal_statuses) (\<lambda>r. r\<lparr>rr_status := ''weakened''\<rparr>) (route_rows s)\<rparr>)"
proof -
  let ?f = "\<lambda>r. r\<lparr>rr_status := ''weakened''\<rparr> :: route_row"
  let ?vs = "map route_view_of (filter (\<lambda>r. rr_workspace_id r = w) (route_rows s))"
  let ?T = "\<lambda>r. rr_workspace_id r = w \<and> route_touched nids eids (route_view_of r) \<and>
    rr_status r \<notin> set route_terminal_statuses"
  have u: "q = r" if "q \<in> set (route_rows s)" "r \<in> set (route_rows s)" "rr_route_id q = rr_route_id r" for q r
    using that assms unique_row [of rr_route_id "route_rows s" q r] by (simp add: wf_store_def)
  have "update_where (\<lambda>r. \<exists>v \<in> set ?vs. rr_route_id v = rr_route_id r \<and> route_touched nids eids v \<and>
        rr_status v \<notin> set route_terminal_statuses \<and> rr_status v \<noteq> ''weakened'') ?f (route_rows s) =
      update_where (\<lambda>r. ?T r \<and> rr_status r \<noteq> ''weakened'') ?f (route_rows s)"
    by (rule update_where_cong) (use u in fastforce)
  also have "\<dots> = update_where ?T ?f (route_rows s)"
    by (auto simp: update_where_def)
  finally have rows: "update_where (\<lambda>r. \<exists>v \<in> set ?vs. rr_route_id v = rr_route_id r \<and> route_touched nids eids v \<and>
        rr_status v \<notin> set route_terminal_statuses \<and> rr_status v \<noteq> ''weakened'') ?f (route_rows s) =
      update_where ?T ?f (route_rows s)" .
  have read: "and_then (list_routes w) h s = h ?vs s" for h :: "route_view list \<Rightarrow> string list store_proc"
    by (simp add: and_then_def list_routes_apply)
  have upd: "route_rows_update h s = s\<lparr>route_rows := h (route_rows s)\<rparr>" for h
    by (cases s) simp
  have ids: "map rr_route_id (filter (route_touched nids eids) ?vs) =
      map rr_route_id (filter (\<lambda>r. rr_workspace_id r = w \<and> route_touched nids eids (route_view_of r)) (route_rows s))"
    by (induction "route_rows s") (simp_all add: filter_map comp_def)
  have "mark_affected_routes w nids eids s = (Inr (map rr_route_id (filter (route_touched nids eids) ?vs)),
      route_rows_update (update_where (\<lambda>r. \<exists>v \<in> set ?vs. rr_route_id v = rr_route_id r \<and>
        route_touched nids eids v \<and> rr_status v \<notin> set route_terminal_statuses \<and>
        rr_status v \<noteq> ''weakened'') ?f) s)"
    unfolding mark_affected_routes_def read mark_loop by simp
  then show ?thesis unfolding ids by (subst (asm) upd) (simp only: rows)
qed

section \<open>Validation of targets\<close>

definition target_owned :: "store \<Rightarrow> string \<Rightarrow> string \<times> string \<Rightarrow> bool" where
  "target_owned s w = (\<lambda>(ty, i).
     if ty = ''node'' then \<exists>n. select_key nd_node_id i (node_rows s) = Some n \<and> nd_workspace_id n = w
     else \<exists>g. select_key eg_edge_id i (edge_rows s) = Some g \<and> eg_workspace_id g = w)"

lemma check_target_cases:
  assumes "check_target w t u s = (r, s')"
  shows "s' = s \<and> (r = Inr () \<longrightarrow> target_owned s w t)"
proof -
  obtain r1 s1 where e: "ensure_target_exists_and_owned w (fst t) (snd t) s = (r1, s1)"
    by (cases "ensure_target_exists_and_owned w (fst t) (snd t) s")
  then have r: "(r, s') = (case r1 of Inl x \<Rightarrow> Inl x | Inr _ \<Rightarrow> Inr (), s1)"
    using assms by (simp add: check_target_def and_then_def proc_simps split: sum.splits)
  from e show ?thesis
    by (cases rule: ensure_target_cases) (use r in \<open>auto simp: target_owned_def split_beta\<close>)
qed

lemma ensure_loop:
  assumes "fold_proc (check_target w) ts () s = (r, s')"
  shows "s' = s \<and> (r = Inr () \<longrightarrow> list_all (target_owned s w) ts)"
  using assms
proof (induction ts arbitrary: r s')
  case Nil
  then show ?case by (simp add: proc_simps)
next
  case (Cons t ts)
  obtain r1 s1 where c: "check_target w t () s = (r1, s1)" by (cases "check_target w t () s")
  note c' = check_target_cases [OF c]
  show ?case
  proof (cases r1)
    case (Inl x)
    then show ?thesis using Cons.prems c c' by (auto simp: and_then_def)
  next
    case (Inr u)
    then have "fold_proc (check_target w) ts () s = (r, s')" using Cons.prems c c' by (simp add: and_then_def)
    from Cons.IH [OF this] show ?thesis using Inr c' by simp
  qed
qed

section \<open>Properties\<close>

text \<open>
  The validation of a new report. It never changes the store; when it accepts the targets, they
  are the normalised ones, there is at least one, and each exists in the workspace.
\<close>

theorem validate_targets_sound:
  assumes "validate_targets_for_create w raws s = (r, s')"
  shows "s' = s \<and> (\<forall>targets. r = Inr targets \<longrightarrow>
    raws \<noteq> [] \<and> normalize_targets raws = Inr targets \<and> list_all (target_owned s w) targets)"
proof (cases "raws = []")
  case True
  then show ?thesis using assms by (auto simp: validate_targets_for_create_def and_then_def proc_simps)
next
  case raws: False
  show ?thesis
  proof (cases "normalize_targets raws")
    case (Inl e)
    then show ?thesis using assms raws by (auto simp: validate_targets_for_create_def and_then_def proc_simps)
  next
    case (Inr ts)
    let ?loop = "fold_proc (check_target w) ts ()"
    obtain r1 s1 where l: "?loop s = (r1, s1)" by (cases "?loop s")
    have "validate_targets_for_create w raws s = (case ?loop s of (Inl e, t) \<Rightarrow> (Inl e, t) | (Inr _, t) \<Rightarrow> ret ts t)"
      using raws Inr by (simp add: validate_targets_for_create_def and_then_def proc_simps)
    then show ?thesis using assms l raws Inr ensure_loop [OF l] by (auto simp: ret_def split: sum.splits)
  qed
qed

lemma failure_step_reports:
  "failure_step w f s s' \<Longrightarrow> wf_store s \<Longrightarrow> list_all2 (failure_ok f) (failure_rows s) (failure_rows s')"
  by (auto simp: failure_step_def evolves_def neq_Nil_conv)

lemma failure_step_isolates:
  assumes "failure_step w f s s'" and "wf_store s"
  shows "wf_store s' \<and>
    filter (\<lambda>r. nd_workspace_id r \<noteq> w) (node_rows s') = filter (\<lambda>r. nd_workspace_id r \<noteq> w) (node_rows s) \<and>
    filter (\<lambda>r. eg_workspace_id r \<noteq> w) (edge_rows s') = filter (\<lambda>r. eg_workspace_id r \<noteq> w) (edge_rows s) \<and>
    filter (\<lambda>r. rr_workspace_id r \<noteq> w) (route_rows s') = filter (\<lambda>r. rr_workspace_id r \<noteq> w) (route_rows s) \<and>
    filter (\<lambda>r. fr_failure_id r \<noteq> f) (failure_rows s') = filter (\<lambda>r. fr_failure_id r \<noteq> f) (failure_rows s) \<and>
    filter (\<lambda>e. evt_workspace_id e \<noteq> Some w) (event_rows s') = filter (\<lambda>e. evt_workspace_id e \<noteq> Some w) (event_rows s) \<and>
    version_rows s' = version_rows s \<and> workspace_rows s' = workspace_rows s \<and>
    job_rows s' = job_rows s \<and> object_rows s' = object_rows s \<and> claim_rows s' = claim_rows s \<and> research s' = research s"
proof -
  note step = assms(1) [unfolded failure_step_def, rule_format, OF assms(2)]
  have N: "evolves (node_ok w) (fresh_node w) (node_rows s) (node_rows s')"
    and E: "evolves (edge_ok w) (fresh_edge w) (edge_rows s) (edge_rows s')"
    and R: "evolves (route_ok w) (\<lambda>_. False) (route_rows s) (route_rows s')"
    and F: "evolves (failure_ok f) (\<lambda>_. False) (failure_rows s) (failure_rows s')"
    and V: "evolves (=) (fresh_event w) (event_rows s) (event_rows s')"
    using step by blast+
  have "filter (\<lambda>r. nd_workspace_id r \<noteq> w) (node_rows s') = filter (\<lambda>r. nd_workspace_id r \<noteq> w) (node_rows s)"
    by (rule node_evo.evolves_filter [OF N]) (auto simp: node_ok_def fresh_node_def)
  moreover have "filter (\<lambda>r. eg_workspace_id r \<noteq> w) (edge_rows s') = filter (\<lambda>r. eg_workspace_id r \<noteq> w) (edge_rows s)"
    by (rule edge_evo.evolves_filter [OF E]) (auto simp: edge_ok_def fresh_edge_def)
  moreover have "filter (\<lambda>r. rr_workspace_id r \<noteq> w) (route_rows s') = filter (\<lambda>r. rr_workspace_id r \<noteq> w) (route_rows s)"
    by (rule route_evo.evolves_filter [OF R]) (auto simp: route_ok_def)
  moreover have id: "fr_failure_id r' = fr_failure_id r" if "failure_ok f r r'" for r r'
    using that by (cases r; cases r') (auto simp: failure_ok_def)
  have "filter (\<lambda>r. fr_failure_id r \<noteq> f) (failure_rows s') = filter (\<lambda>r. fr_failure_id r \<noteq> f) (failure_rows s)"
  proof (rule failure_evo.evolves_filter [OF F])
    fix r r'
    assume "failure_ok f r r'"
    then show "(fr_failure_id r \<noteq> f) = (fr_failure_id r' \<noteq> f)" by (simp add: id)
  qed (simp_all add: failure_ok_def)
  moreover have "filter (\<lambda>e. evt_workspace_id e \<noteq> Some w) (event_rows s') =
      filter (\<lambda>e. evt_workspace_id e \<noteq> Some w) (event_rows s)"
    by (rule event_evo.evolves_filter [OF V]) (auto simp: fresh_event_def)
  ultimately show ?thesis using step by blast
qed

text \<open>
  C1: Workspace isolation. Whatever comes of applying a report for a workspace, success or an
  exception half way, the nodes, edges, routes and events of every other workspace and all other
  reports are the same as before, versions, jobs and objects are untouched, and keys stay unique. Of the
  report itself only the impact summary and its time may change. If the report belongs to another
  workspace, the call is refused, and all it leaves behind is what reading the report does: the impact
  of its newest event may be copied into its row.
\<close>

theorem apply_failure_isolation:
  assumes "wf_store s" and "s' = snd (apply_failure w f q s)"
  shows "wf_store s' \<and>
    filter (\<lambda>r. nd_workspace_id r \<noteq> w) (node_rows s') = filter (\<lambda>r. nd_workspace_id r \<noteq> w) (node_rows s) \<and>
    filter (\<lambda>r. eg_workspace_id r \<noteq> w) (edge_rows s') = filter (\<lambda>r. eg_workspace_id r \<noteq> w) (edge_rows s) \<and>
    filter (\<lambda>r. rr_workspace_id r \<noteq> w) (route_rows s') = filter (\<lambda>r. rr_workspace_id r \<noteq> w) (route_rows s) \<and>
    filter (\<lambda>r. fr_failure_id r \<noteq> f) (failure_rows s') = filter (\<lambda>r. fr_failure_id r \<noteq> f) (failure_rows s) \<and>
    list_all2 (failure_ok f) (failure_rows s) (failure_rows s') \<and>
    filter (\<lambda>e. evt_workspace_id e \<noteq> Some w) (event_rows s') = filter (\<lambda>e. evt_workspace_id e \<noteq> Some w) (event_rows s) \<and>
    version_rows s' = version_rows s \<and> workspace_rows s' = workspace_rows s \<and>
    job_rows s' = job_rows s \<and> object_rows s' = object_rows s \<and> claim_rows s' = claim_rows s \<and> research s' = research s \<and>
    (\<forall>r. select_key fr_failure_id f (failure_rows s) = Some r \<and> fr_workspace_id r \<noteq> w \<longrightarrow>
      (\<exists>e. fst (apply_failure w f q s) = Inl e) \<and>
      s' = s\<lparr>failure_rows := backfilled f (latest_failure_impact_snapshot (fr_workspace_id r) f s) (failure_rows s)\<rparr>)"
proof -
  have step: "failure_step w f s s'" by (simp add: assms(2) step_apply_failure)
  have "(\<exists>e. fst (apply_failure w f q s) = Inl e) \<and>
      s' = s\<lparr>failure_rows := backfilled f (latest_failure_impact_snapshot (fr_workspace_id r) f s) (failure_rows s)\<rparr>"
    if "select_key fr_failure_id f (failure_rows s) = Some r" "fr_workspace_id r \<noteq> w" for r
    by (simp add: assms(2) apply_failure_foreign [OF that] get_failure_apply [OF that(1)])
  then show ?thesis
    using failure_step_isolates [OF step assms(1)] failure_step_reports [OF step assms(1)] by blast
qed

text \<open>
  C32: What happens to the rows of the workspace. Every row stays, in its place. Of a node only the
  status, the time and an empty visibility change; of an edge only the status, the strength and the time;
  of a route only the status, from one that is not terminal to \<open>weakened\<close>; of the report only its impact
  summary and the time. A terminal node or edge is not changed at all and a failed node stays failed; the
  strength of an edge that lies between 0 and 1 stays there and never grows. New nodes and edges are gap
  and branch markers of the workspace.
\<close>

theorem apply_failure_rows:
  assumes "wf_store s" and "s' = snd (apply_failure w f q s)"
  shows "evolves (node_ok w) (fresh_node w) (node_rows s) (node_rows s') \<and>
    evolves (edge_ok w) (fresh_edge w) (edge_rows s) (edge_rows s') \<and>
    list_all2 (route_ok w) (route_rows s) (route_rows s') \<and>
    list_all2 (failure_ok f) (failure_rows s) (failure_rows s')"
proof -
  have s: "failure_step w f s s'" by (simp add: assms(2) step_apply_failure)
  note step = s [unfolded failure_step_def, rule_format, OF assms(1)]
  have "list_all2 (route_ok w) (route_rows s) (route_rows s')"
    using step by (auto simp: evolves_def neq_Nil_conv)
  then show ?thesis using step failure_step_reports [OF s assms(1)] by blast
qed

text \<open>
  C34: The service keeps the life cycle of the domain model for nodes: the status of every node, if it
  is one of the domain model, is afterwards one that \<^verbatim>\<open>GraphNode.transition_to\<close> allows from there.
\<close>

theorem apply_failure_keeps_node_lifecycle:
  assumes "wf_store s" and "n \<in> set (node_rows s)" and "nd_status n = graph_node_status_value a"
  shows "\<exists>n' \<in> set (node_rows (snd (apply_failure w f q s))).
    nd_node_id n' = nd_node_id n \<and> (\<exists>b \<in> graph_node_transitions a. nd_status n' = graph_node_status_value b)"
proof -
  let ?s' = "snd (apply_failure w f q s)"
  have "evolves (node_ok w) (fresh_node w) (node_rows s) (node_rows ?s')"
    using step_apply_failure [of w f s q] assms(1) by (simp add: failure_step_def)
  from node_evo.evolves_row [OF this assms(2)] obtain n' where n': "n' \<in> set (node_rows ?s')" "node_ok w n n'"
    by blast
  have "\<exists>b \<in> graph_node_transitions a. nd_status n' = graph_node_status_value b"
    using n'(2) assms(3) by (cases a) (auto simp: node_ok_def terminal_statuses_def)
  then show ?thesis using n' by (auto simp: node_ok_def)
qed

text \<open>
  C33: Applying a report twice. In a workspace with fewer than 5000 events, whose log is in order, once
  \<open>apply_failure\<close> has returned a summary, calling it again, under any request, returns the same summary
  and changes nothing but the time in the row of that report, which reading it sets to that of the event:
  no edge is weakened a second time and no marker, route or event is written.
\<close>

theorem apply_failure_idempotent:
  assumes "apply_failure w f q s = (Inr d, s')" and "wf_store s"
    and "events_in_order s" "mono (clock s)" "length (workspace_events w s) < 5000"
  shows "\<exists>u. apply_failure w f q' s' =
    (Inr d, s'\<lparr>failure_rows := update_where (\<lambda>r. fr_failure_id r = f)
       (\<lambda>r. r\<lparr>fr_impact_updated_at := u\<rparr>) (failure_rows s')\<rparr>)"
proof -
  obtain e r where e: "find_latest_event w ''failure_attached'' (Some (''failure_id'', f)) s' = Some e"
    "impact_of_event e = Some d" and r: "select_key fr_failure_id f (failure_rows s') = Some r" "fr_workspace_id r = w"
    and kept: "fr_impact_summary r = d \<or> \<not> should_backfill r (evt_timestamp e)"
    using apply_failure_recorded [OF assms(1,3-5)] .
  have "wf_store s'"
    using step_apply_failure [of w f s q] assms(1,2) by (simp add: failure_step_def)
  then obtain u where "backfilled f (Some (d, evt_timestamp e)) (failure_rows s') =
      update_where (\<lambda>r. fr_failure_id r = f) (\<lambda>r. r\<lparr>fr_impact_updated_at := u\<rparr>) (failure_rows s')"
    using backfilled_moves_time [OF _ r(1) kept] by (auto simp: wf_store_def)
  then show ?thesis using apply_failure_known [OF r e, of q'] by auto
qed

text \<open>
  C39: Which routes are marked. The loop over the routes amounts to one update: exactly the routes of
  the workspace that contain an affected edge, or have no edge chain and contain an affected node,
  are reported, in the order of the table, and of these exactly those with a status that is not
  terminal become \<open>weakened\<close>.
\<close>

theorem mark_affected_routes_correct:
  assumes "wf_store s"
  shows "mark_affected_routes w nids eids s =
    (Inr (map rr_route_id (filter (\<lambda>r. rr_workspace_id r = w \<and> route_touched nids eids (route_view_of r)) (route_rows s))),
     s\<lparr>route_rows := update_where (\<lambda>r. rr_workspace_id r = w \<and> route_touched nids eids (route_view_of r) \<and>
        rr_status r \<notin> set route_terminal_statuses) (\<lambda>r. r\<lparr>rr_status := ''weakened''\<rparr>) (route_rows s)\<rparr>)"
  by (rule mark_affected_routes_apply [OF assms])

text \<open>
  Marking leaves the life cycle of routes. A \<open>candidate\<close> or \<open>validated\<close> route that is touched becomes
  \<open>weakened\<close>, a transition that \<^verbatim>\<open>Route.transition_to\<close> refuses from either status.
\<close>

theorem mark_affected_routes_leaves_lifecycle:
  assumes "wf_store s" "r \<in> set (route_rows s)" "rr_workspace_id r = w"
    and "a = RS_CANDIDATE \<or> a = RS_VALIDATED" and "rr_status r = route_status_value a"
    and "route_touched nids eids (route_view_of r)"
  shows "r\<lparr>rr_status := route_status_value RS_WEAKENED\<rparr> \<in>
      set (route_rows (snd (mark_affected_routes w nids eids s))) \<and>
    check_transition route_status_value route_transitions a RS_WEAKENED \<noteq> Inr ()"
  using assms
  by (auto simp: mark_affected_routes_apply set_update_where check_transition_def
      route_terminal_statuses_def intro!: rev_image_eqI [of r])

text \<open>
  A mild failure revives an invalidated edge. Attaching a report of low severity to an edge that is
  \<open>invalidated\<close> sets it to \<open>weakened\<close>, a transition that \<^verbatim>\<open>GraphEdge.transition_to\<close> refuses; the
  loop guards a failed node against this, but not an edge.
\<close>

theorem low_failure_revives_invalidated_edge:
  assumes "select_key eg_edge_id i (edge_rows s) = Some g" "eg_workspace_id g = w"
    and "eg_status g = graph_edge_status_value ES_INVALIDATED"
  shows "\<exists>im' s' g'. attach_target w ''low'' (''edge'', i) im s = (Inr im', s') \<and>
    select_key eg_edge_id i (edge_rows s') = Some g' \<and> eg_status g' = graph_edge_status_value ES_WEAKENED \<and>
    check_transition graph_edge_status_value graph_edge_transitions ES_INVALIDATED ES_WEAKENED \<noteq> Inr ()"
  using assms select_key_Some [OF assms(1)]
  by (simp add: attach_target_def ensure_target_exists_and_owned_def attach_to_edge_def and_then_def
      proc_simps Let_def terminal_statuses_def update_edge_apply select_key_update status_for_def
      failure_severity_to_edge_status_def check_transition_def)

section \<open>Examples\<close>

text \<open>A workspace \<open>w\<close> with a node, an invalidated edge, a route and a severe report; a node of \<open>v\<close>.\<close>

definition impact_store :: store where
  "impact_store = empty_store\<lparr>
     node_rows := [sample_node ''n1'' ''w'' ''evidence'' ''active'', sample_node ''n2'' ''v'' ''evidence'' ''active''],
     edge_rows := [sample_edge ''e1'' ''w'' ''n1'' ''n1'' ''invalidated'' (1 / 2)],
     route_rows := [sample_route ''r1'' ''w'' ''candidate'' [''n1''] []],
     failure_rows := [sample_failure ''f'' ''w'' ''high'' [(''node'', ''n1'')]]\<rparr>"

lemma impact_store_wf: "wf_store impact_store" "events_in_order impact_store" "mono (clock impact_store)"
  "length (workspace_events w impact_store) < 5000"
  by (simp_all add: impact_store_def sample_simps wf_store_def events_in_order_def workspace_events_def mono_def)

lemma example_strings:
  "strip ''node'' = ''node''" "strip ''n1'' = ''n1''" "lower ''high'' = ''high''"
  by code_simp+

lemmas run_simps =
  apply_failure_def get_failure_def and_then_apply proc_simps impact_store_def sample_simps
  latest_failure_impact_snapshot_def find_latest_event_def list_events_def apply_new_failure_def
  normalize_targets_def example_strings Let_def attach_target_def ensure_target_exists_and_owned_def
  attach_to_node_def terminal_statuses_def status_for_def failure_severity_to_node_status_def
  no_impact_def update_graph_node_def node_view_def mark_affected_routes_def list_routes_def
  ensure_gap_and_branch_markers_def ensure_markers_of_def ensure_marker_node_def
  ensure_marker_edge_def find_graph_node_by_object_ref_def find_graph_edge_by_ref_def
  create_graph_node_def create_graph_edge_def insert_row_def no_markers_def sorted_set_def
  update_failure_impact_def emit_event_def event_args_def marker_ref_def unary_def
  route_touched_def decode_route_edge_ids_json_def is_str_def route_terminal_statuses_def

lemma impact_store_applies: "\<exists>d s'. apply_failure ''w'' ''f'' ''q'' impact_store = (Inr d, s')"
  by (simp add: run_simps)

theorem validate_targets_sound_witness:
  "snd (validate_targets_for_create ''w'' [(''node'', ''n1'')] impact_store) = impact_store \<and>
   list_all (target_owned impact_store ''w'') [(''node'', ''n1'')]"
proof -
  have r: "validate_targets_for_create ''w'' [(''node'', ''n1'')] impact_store = (Inr [(''node'', ''n1'')], impact_store)"
    by (simp add: validate_targets_for_create_def check_target_def run_simps)
  from validate_targets_sound [OF r] show ?thesis using r by simp
qed

theorem apply_failure_isolation_witness:
  "filter (\<lambda>r. nd_workspace_id r \<noteq> ''w'') (node_rows (snd (apply_failure ''w'' ''f'' ''q'' impact_store))) =
     [sample_node ''n2'' ''v'' ''evidence'' ''active'']"
  using apply_failure_isolation [OF impact_store_wf(1) refl, of "''w''" "''f''" "''q''"]
  by (simp add: impact_store_def sample_node_def)

theorem apply_failure_rows_witness:
  "\<exists>r. list_all2 (route_ok ''w'') [sample_route ''r1'' ''w'' ''candidate'' [''n1''] []] [r] \<and>
     route_rows (snd (apply_failure ''w'' ''f'' ''q'' impact_store)) = [r]"
  using apply_failure_rows [OF impact_store_wf(1) refl, of "''w''" "''f''" "''q''"]
  by (auto simp: impact_store_def list_all2_Cons1)

theorem apply_failure_keeps_node_lifecycle_witness:
  "\<exists>n' \<in> set (node_rows (snd (apply_failure ''w'' ''f'' ''q'' impact_store))).
     nd_node_id n' = ''n1'' \<and> (\<exists>b \<in> graph_node_transitions NS_ACTIVE. nd_status n' = graph_node_status_value b)"
  using apply_failure_keeps_node_lifecycle [OF impact_store_wf(1),
      of "sample_node ''n1'' ''w'' ''evidence'' ''active''" NS_ACTIVE "''w''" "''f''" "''q''"]
  by (simp add: impact_store_def sample_node_def)

theorem apply_failure_idempotent_witness:
  "\<exists>d s' u. apply_failure ''w'' ''f'' ''q'' impact_store = (Inr d, s') \<and>
     apply_failure ''w'' ''f'' ''again'' s' = (Inr d, s'\<lparr>failure_rows := update_where (\<lambda>r. fr_failure_id r = ''f'')
       (\<lambda>r. r\<lparr>fr_impact_updated_at := u\<rparr>) (failure_rows s')\<rparr>)"
proof -
  obtain d s' where r: "apply_failure ''w'' ''f'' ''q'' impact_store = (Inr d, s')"
    using impact_store_applies by blast
  from apply_failure_idempotent [OF r impact_store_wf(1-4), of "''again''"] show ?thesis using r by blast
qed

theorem mark_affected_routes_correct_witness:
  "fst (mark_affected_routes ''w'' [''n1''] [] impact_store) = Inr [''r1'']"
  using mark_affected_routes_correct [OF impact_store_wf(1), of "''w''" "[''n1'']" "[]"]
  by (simp add: impact_store_def sample_route_def route_touched_def decode_route_edge_ids_json_def)

theorem mark_affected_routes_leaves_lifecycle_witness:
  "(sample_route ''r1'' ''w'' ''candidate'' [''n1''] [])\<lparr>rr_status := ''weakened''\<rparr> \<in>
     set (route_rows (snd (mark_affected_routes ''w'' [''n1''] [] impact_store)))"
  using mark_affected_routes_leaves_lifecycle [OF impact_store_wf(1),
      of "sample_route ''r1'' ''w'' ''candidate'' [''n1''] []" "''w''" RS_CANDIDATE "[''n1'']" "[]"]
  by (simp add: impact_store_def sample_route_def route_touched_def decode_route_edge_ids_json_def)

theorem low_failure_revives_invalidated_edge_witness:
  "\<exists>im' s' g'. attach_target ''w'' ''low'' (''edge'', ''e1'') no_impact impact_store = (Inr im', s') \<and>
     select_key eg_edge_id ''e1'' (edge_rows s') = Some g' \<and> eg_status g' = ''weakened''"
  using low_failure_revives_invalidated_edge [of "''e1''" impact_store
      "sample_edge ''e1'' ''w'' ''n1'' ''n1'' ''invalidated'' (1 / 2)" "''w''" no_impact]
  by (auto simp: impact_store_def sample_edge_def)

end
