(* ===== verification/ScoringTemplates.thy ===== *)
theory ScoringTemplates
  imports PyFloat Prelude
begin

text \<open>
  \<^verbatim>\<open>research_layer/scoring/templates.py\<close>: the factors of the three score dimensions, the two
  weight templates, how a template is chosen, and the contract every template must satisfy.
  Dictionaries are association lists in insertion order; a float literal is the double nearest to
  it.
\<close>

definition factor_order_by_dimension :: "(string \<times> string list) list" where
  "factor_order_by_dimension =
     [(''support_score'',
        [''confirmed_evidence_coverage'', ''evidence_quality'', ''cross_source_consistency'',
         ''validation_backing'', ''traceability_completeness'']),
      (''risk_score'',
        [''unresolved_conflict_pressure'', ''failure_pressure'', ''assumption_burden'',
         ''private_dependency_pressure'', ''missing_validation_pressure'']),
      (''progressability_score'',
        [''next_action_clarity'', ''execution_cost_feasibility'', ''execution_time_feasibility'',
         ''expected_signal_strength'', ''dependency_readiness''])]"

definition top_factor_tie_break_order :: "string list" where
  "top_factor_tie_break_order =
     [''confirmed_evidence_coverage'', ''unresolved_conflict_pressure'', ''failure_pressure'',
      ''next_action_clarity'', ''evidence_quality'', ''cross_source_consistency'',
      ''validation_backing'', ''assumption_burden'', ''private_dependency_pressure'',
      ''missing_validation_pressure'', ''execution_cost_feasibility'',
      ''execution_time_feasibility'', ''expected_signal_strength'', ''dependency_readiness'',
      ''traceability_completeness'']"

record scoring_template =
  tpl_template_id :: string
  tpl_weights :: "(string \<times> (string \<times> rat) list) list"

definition default_template :: scoring_template where
  "default_template =
     \<lparr>tpl_template_id = ''general_research_v1'',
      tpl_weights =
       [(''support_score'',
          [(''confirmed_evidence_coverage'', fl (30 / 100)), (''evidence_quality'', fl (25 / 100)),
           (''cross_source_consistency'', fl (20 / 100)), (''validation_backing'', fl (15 / 100)),
           (''traceability_completeness'', fl (10 / 100))]),
        (''risk_score'',
          [(''unresolved_conflict_pressure'', fl (30 / 100)), (''failure_pressure'', fl (25 / 100)),
           (''assumption_burden'', fl (20 / 100)), (''private_dependency_pressure'', fl (15 / 100)),
           (''missing_validation_pressure'', fl (10 / 100))]),
        (''progressability_score'',
          [(''next_action_clarity'', fl (30 / 100)), (''execution_cost_feasibility'', fl (20 / 100)),
           (''execution_time_feasibility'', fl (15 / 100)), (''expected_signal_strength'', fl (20 / 100)),
           (''dependency_readiness'', fl (15 / 100))])]\<rparr>"

definition validation_heavy_template :: scoring_template where
  "validation_heavy_template =
     \<lparr>tpl_template_id = ''validation_heavy_v1'',
      tpl_weights =
       [(''support_score'',
          [(''confirmed_evidence_coverage'', fl (25 / 100)), (''evidence_quality'', fl (20 / 100)),
           (''cross_source_consistency'', fl (20 / 100)), (''validation_backing'', fl (25 / 100)),
           (''traceability_completeness'', fl (10 / 100))]),
        (''risk_score'',
          [(''unresolved_conflict_pressure'', fl (25 / 100)), (''failure_pressure'', fl (20 / 100)),
           (''assumption_burden'', fl (20 / 100)), (''private_dependency_pressure'', fl (15 / 100)),
           (''missing_validation_pressure'', fl (20 / 100))]),
        (''progressability_score'',
          [(''next_action_clarity'', fl (25 / 100)), (''execution_cost_feasibility'', fl (20 / 100)),
           (''execution_time_feasibility'', fl (15 / 100)), (''expected_signal_strength'', fl (25 / 100)),
           (''dependency_readiness'', fl (15 / 100))])]\<rparr>"

definition templates :: "(string \<times> scoring_template) list" where
  "templates =
     [(tpl_template_id default_template, default_template),
      (tpl_template_id validation_heavy_template, validation_heavy_template)]"

text \<open>The errors are the messages of the \<^verbatim>\<open>ValueError\<close>s.\<close>

definition resolve_scoring_template ::
  "string option \<Rightarrow> string list option \<Rightarrow> string + scoring_template"
where
  "resolve_scoring_template template_id relation_tags =
     (case template_id of
        Some (c # cs) \<Rightarrow>
          (case map_of templates (c # cs) of
             None \<Rightarrow> Inl (''unknown scoring template: '' @ c # cs)
           | Some selected \<Rightarrow> Inr selected)
      | _ \<Rightarrow>
          (let tags = set (case relation_tags of None \<Rightarrow> [] | Some ts \<Rightarrow> ts)
           in if ''validation_heavy'' \<in> tags then Inr validation_heavy_template
              else Inr default_template))"

text \<open>The loop over the factors of a dimension, and the loop over the dimensions.\<close>

definition weight_of :: "(string \<times> rat) list \<Rightarrow> string \<Rightarrow> rat" where
  "weight_of weights f = (case map_of weights f of None \<Rightarrow> 0 | Some w \<Rightarrow> w)"

fun total_weight :: "(string \<times> rat) list \<Rightarrow> string list \<Rightarrow> rat \<Rightarrow> string + rat" where
  "total_weight weights [] acc = Inr acc"
| "total_weight weights (f # fs) acc =
     (if weight_of weights f < 0 then Inl (''negative weight for factor: '' @ f)
      else total_weight weights fs (fadd acc (weight_of weights f)))"

definition validate_dimension :: "scoring_template \<Rightarrow> string \<times> string list \<Rightarrow> string + unit" where
  "validate_dimension t = (\<lambda>(dimension, ordered_factors).
     case map_of (tpl_weights t) dimension of
       None \<Rightarrow> Inl (''missing weights for dimension: '' @ dimension)
     | Some weights \<Rightarrow>
         (case sorted_set (filter (\<lambda>f. f \<notin> set ordered_factors) (map fst weights)) of
            factor_name # _ \<Rightarrow> Inl (''unsupported factor in template: '' @ factor_name)
          | [] \<Rightarrow>
              rbind (total_weight weights ordered_factors 0) (\<lambda>sum.
                guard_else (''weights must sum to 1.0 for dimension: '' @ dimension)
                  (\<not> \<bar>fsub sum 1\<bar> > fl (1 / 10 ^ 6)))))"

definition validate_template_contract :: "scoring_template \<Rightarrow> string + unit" where
  "validate_template_contract t =
     rbind (rmap (validate_dimension t) factor_order_by_dimension) (\<lambda>_. Inr ())"

section \<open>The contract\<close>

text \<open>What a template promises the scoring, dimension by dimension.\<close>

definition dimension_ok :: "scoring_template \<Rightarrow> string \<times> string list \<Rightarrow> bool" where
  "dimension_ok t = (\<lambda>(dimension, ordered_factors).
     \<exists>weights. map_of (tpl_weights t) dimension = Some weights \<and>
       fst ` set weights \<subseteq> set ordered_factors \<and>
       (\<forall>f \<in> set ordered_factors. 0 \<le> weight_of weights f) \<and>
       \<bar>fsub (foldl fadd 0 (map (weight_of weights) ordered_factors)) 1\<bar> \<le> fl (1 / 10 ^ 6))"

lemma total_weight_Inr_iff:
  "total_weight ws fs t = Inr r \<longleftrightarrow>
     (\<forall>f \<in> set fs. 0 \<le> weight_of ws f) \<and> r = foldl fadd t (map (weight_of ws) fs)"
  by (induction fs arbitrary: t) auto

lemma sorted_set_filter_Nil: "sorted_set (filter P xs) = [] \<longleftrightarrow> (\<forall>x \<in> set xs. \<not> P x)"
  by (metis filter_False set_sorted_set sorted_set_Nil empty_filter_conv set_empty)

lemma validate_dimension_iff: "validate_dimension t d = Inr u \<longleftrightarrow> dimension_ok t d"
proof -
  obtain dim fs where d: "d = (dim, fs)" by (cases d)
  show ?thesis
  proof (cases "map_of (tpl_weights t) dim")
    case None
    then show ?thesis by (simp add: validate_dimension_def dimension_ok_def d)
  next
    case (Some ws)
    let ?bad = "sorted_set (filter (\<lambda>f. f \<notin> set fs) (map fst ws))"
    have bad: "?bad = [] \<longleftrightarrow> fst ` set ws \<subseteq> set fs"
      by (auto simp: sorted_set_filter_Nil)
    show ?thesis
    proof (cases ?bad)
      case Nil
      then show ?thesis using Some bad
        by (auto simp: validate_dimension_def dimension_ok_def d rbind_Inr_iff
            total_weight_Inr_iff not_less)
    next
      case (Cons x xs)
      then show ?thesis using Some bad by (auto simp: validate_dimension_def dimension_ok_def d)
    qed
  qed
qed

lemma rmap_unit_Inr: "(\<exists>us. rmap f xs = Inr us) \<longleftrightarrow> (\<forall>x \<in> set xs. \<exists>u. f x = Inr u)"
  by (induction xs) (auto simp: rbind_Inr_iff)

lemma validate_template_contract_iff:
  "validate_template_contract t = Inr () \<longleftrightarrow> (\<forall>d \<in> set factor_order_by_dimension. dimension_ok t d)"
proof -
  have "validate_template_contract t = Inr () \<longleftrightarrow>
      (\<exists>us. rmap (validate_dimension t) factor_order_by_dimension = Inr us)"
    by (auto simp: validate_template_contract_def rbind_Inr_iff)
  then show ?thesis by (simp add: rmap_unit_Inr validate_dimension_iff)
qed

text \<open>
  The five rounded weights of a dimension add up to one within the tolerance: the error of the
  literals and of the five additions is below \<open>11 / 2\<^sup>5\<^sup>2\<close>.
\<close>

lemma five_weights:
  assumes "a + b + c + d + e = 1" and "0 \<le> a" "0 \<le> b" "0 \<le> c" "0 \<le> d" "0 \<le> e"
  shows "\<bar>fsub (foldl fadd 0 [fl a, fl b, fl c, fl d, fl e]) 1\<bar> \<le> fl (1 / 10 ^ 6)"
proof -
  let ?l = "1 / 2 ^ 53 :: rat" and ?s = "1 / 2 ^ 52 :: rat"
  have l: "near ?l (fl x) x" if "0 \<le> x" "x \<le> 1" for x
    using that by (intro near_fl) simp
  have a: "near (0 + ?l + ?s) (fl (0 + fl a)) (0 + a)"
    by (rule near_fadd [OF near_refl l]) (use assms in auto)
  have b: "near (0 + ?l + ?s + ?l + ?s) (fl (fl (0 + fl a) + fl b)) (0 + a + b)"
    by (rule near_fadd [OF a l]) (use assms in auto)
  have c: "near (0 + ?l + ?s + ?l + ?s + ?l + ?s) (fl (fl (fl (0 + fl a) + fl b) + fl c)) (0 + a + b + c)"
    by (rule near_fadd [OF b l]) (use assms in auto)
  have d: "near (0 + ?l + ?s + ?l + ?s + ?l + ?s + ?l + ?s)
      (fl (fl (fl (fl (0 + fl a) + fl b) + fl c) + fl d)) (0 + a + b + c + d)"
    by (rule near_fadd [OF c l]) (use assms in auto)
  have e: "near (0 + ?l + ?s + ?l + ?s + ?l + ?s + ?l + ?s + ?l + ?s)
      (fl (fl (fl (fl (fl (0 + fl a) + fl b) + fl c) + fl d) + fl e)) (0 + a + b + c + d + e)"
    by (rule near_fadd [OF d l]) (use assms in auto)
  let ?t = "foldl fadd 0 [fl a, fl b, fl c, fl d, fl e]"
  have "\<bar>?t - 1\<bar> \<le> 1 / 2 ^ 48"
    using e assms(1) by (simp add: near_def fadd_def)
  then have "\<bar>fl (?t - 1)\<bar> \<le> 1 / 2 ^ 47" using fl_abs_le [of "?t - 1"] by simp
  moreover have "- (fl (1 / 10 ^ 6) - 1 / 10 ^ 6) \<le> \<bar>1 / 10 ^ 6\<bar> / (2::rat) ^ 53"
    by (rule abs_le_D2 [OF fl_error])
  then have "1 / 2 ^ 47 \<le> fl (1 / 10 ^ 6)" by simp
  ultimately show ?thesis by (simp add: fsub_def)
qed

lemmas template_simps =
  validate_template_contract_iff factor_order_by_dimension_def dimension_ok_def weight_of_def
  default_template_def validation_heavy_template_def

lemma default_template_contract: "validate_template_contract default_template = Inr ()"
proof -
  have "\<bar>fsub (foldl fadd 0 [fl (30 / 100), fl (25 / 100), fl (20 / 100), fl (15 / 100), fl (10 / 100)]) 1\<bar>
      \<le> fl (1 / 10 ^ 6)"
    "\<bar>fsub (foldl fadd 0 [fl (30 / 100), fl (20 / 100), fl (15 / 100), fl (20 / 100), fl (15 / 100)]) 1\<bar>
      \<le> fl (1 / 10 ^ 6)"
    by (rule five_weights; simp)+
  moreover have "0 \<le> fl (30 / 100)" "0 \<le> fl (25 / 100)" "0 \<le> fl (20 / 100)" "0 \<le> fl (15 / 100)"
    "0 \<le> fl (10 / 100)"
    by (simp_all add: fl_nonneg)
  ultimately show ?thesis by (simp add: template_simps)
qed

lemma validation_heavy_template_contract:
  "validate_template_contract validation_heavy_template = Inr ()"
proof -
  have "\<bar>fsub (foldl fadd 0 [fl (25 / 100), fl (20 / 100), fl (20 / 100), fl (25 / 100), fl (10 / 100)]) 1\<bar>
      \<le> fl (1 / 10 ^ 6)"
    "\<bar>fsub (foldl fadd 0 [fl (25 / 100), fl (20 / 100), fl (20 / 100), fl (15 / 100), fl (20 / 100)]) 1\<bar>
      \<le> fl (1 / 10 ^ 6)"
    "\<bar>fsub (foldl fadd 0 [fl (25 / 100), fl (20 / 100), fl (15 / 100), fl (25 / 100), fl (15 / 100)]) 1\<bar>
      \<le> fl (1 / 10 ^ 6)"
    by (rule five_weights; simp)+
  moreover have "0 \<le> fl (25 / 100)" "0 \<le> fl (20 / 100)" "0 \<le> fl (15 / 100)" "0 \<le> fl (10 / 100)"
    by (simp_all add: fl_nonneg)
  ultimately show ?thesis by (simp add: template_simps)
qed

lemma resolve_cases:
  "resolve_scoring_template i tags = Inr t \<Longrightarrow> t = default_template \<or> t = validation_heavy_template"
  by (auto simp: resolve_scoring_template_def templates_def Let_def
      split: option.splits list.splits if_splits)

text \<open>
  The contract of the templates. Whatever template the scoring resolves, by id or by the
  route's tags, passes the validation that follows: its weights name exactly factors of their
  dimension, none is negative, and each dimension adds up to one within the tolerance, although the
  weights are decimal literals rounded to doubles.
\<close>

theorem resolved_template_contract:
  assumes "resolve_scoring_template template_id relation_tags = Inr t"
  shows "validate_template_contract t = Inr () \<and>
    (\<forall>d \<in> set factor_order_by_dimension. dimension_ok t d)"
  using resolve_cases [OF assms] default_template_contract validation_heavy_template_contract
  by (auto simp: validate_template_contract_iff)

theorem resolved_template_contract_witness:
  "validate_template_contract validation_heavy_template = Inr () \<and>
    list_all (dimension_ok validation_heavy_template) factor_order_by_dimension"
  using resolved_template_contract [of None "Some [''validation_heavy'']" validation_heavy_template]
  by (simp add: resolve_scoring_template_def list_all_iff)

end
