(* ===== verification/ScoringFactors.thy ===== *)
theory ScoringFactors
  imports StoreRows ScoringTemplates
begin

text \<open>
  \<^verbatim>\<open>research_layer/scoring/heuristics.py\<close>: the fifteen factors computed from a route, the
  confirmed objects and the graph. Each factor is one definition; \<open>build_factor_inputs\<close> composes them
  in the order of the code. Floating point operations are those of \<^verbatim>\<open>PyFloat\<close>, in the
  order of the code; the quotient of two integers is rounded once.
\<close>

record factor_input =
  fi_factor_name :: string
  fi_normalized_value :: rat
  fi_status :: string
  fi_reason :: string
  fi_refs :: payload
  fi_metrics :: payload

definition clamp01 :: "rat \<Rightarrow> rat" where
  "clamp01 v = max 0 (min 1 v)"

definition missing_factor :: "string \<Rightarrow> string \<Rightarrow> payload \<Rightarrow> payload \<Rightarrow> factor_input" where
  "missing_factor factor_name reason refs metrics =
     \<lparr>fi_factor_name = factor_name, fi_normalized_value = 0, fi_status = ''missing_input'',
      fi_reason = reason, fi_refs = refs, fi_metrics = metrics\<rparr>"

definition computed_factor :: "string \<Rightarrow> rat \<Rightarrow> string \<Rightarrow> payload \<Rightarrow> payload \<Rightarrow> factor_input" where
  "computed_factor factor_name v reason refs metrics =
     \<lparr>fi_factor_name = factor_name, fi_normalized_value = clamp01 v, fi_status = ''computed'',
      fi_reason = reason, fi_refs = refs, fi_metrics = metrics\<rparr>"

section \<open>What the factors read\<close>

text \<open>
  The objects and nodes of a type, their ids, and the quality of the evidence texts and edges. An
  integer is converted to a double where the code mixes it with one.
\<close>

definition objects_of :: "string \<Rightarrow> 'a object_row_scheme list \<Rightarrow> 'a object_row_scheme list" where
  "objects_of ty objs = filter (\<lambda>r. ob_object_type r = ty) objs"

definition nodes_of :: "string \<Rightarrow> node_row list \<Rightarrow> node_row list" where
  "nodes_of ty nds = filter (\<lambda>n. nd_node_type n = ty) nds"

definition failed_nodes :: "node_row list \<Rightarrow> node_row list" where
  "failed_nodes nds = filter (\<lambda>n. nd_status n = ''failed'') nds"

definition strs :: "string list \<Rightarrow> pyval" where
  "strs xs = VList (map VStr xs)"

definition int_len :: "'x list \<Rightarrow> pyval" where
  "int_len xs = VInt (int (length xs))"

definition float_len :: "'x list \<Rightarrow> rat" where
  "float_len xs = fl (of_nat (length xs))"

definition ratio :: "nat \<Rightarrow> nat \<Rightarrow> rat" where
  "ratio a b = fdiv (of_nat a) (of_nat b)"

definition evidence_text_quality :: "'a object_row_scheme list \<Rightarrow> rat" where
  "evidence_text_quality objs =
     (let ev = objects_of ''evidence'' objs
      in if ev \<noteq> []
         then fdiv (py_sum (map (\<lambda>r. min (fdiv (float_len (strip (ob_text r))) 120) 1) ev)) (float_len ev)
         else 0)"

definition evidence_edge_quality :: "node_row list \<Rightarrow> edge_row list \<Rightarrow> rat" where
  "evidence_edge_quality nds egs =
     (let ids = set (map nd_node_id (nodes_of ''evidence'' nds));
          strengths = map eg_strength
            (filter (\<lambda>e. eg_source_node_id e \<in> ids \<or> eg_target_node_id e \<in> ids) egs)
      in if strengths \<noteq> [] then fdiv (py_sum strengths) (float_len strengths) else 0)"

section \<open>Support factors\<close>

definition confirmed_evidence_coverage ::
  "'a object_row_scheme list \<Rightarrow> node_row list \<Rightarrow> factor_input"
where
  "confirmed_evidence_coverage objs nds =
     (if objs = [] then missing_factor ''confirmed_evidence_coverage'' ''no_confirmed_objects'' [] []
      else
        (let ev = objects_of ''evidence'' objs
         in computed_factor ''confirmed_evidence_coverage''
              (ratio (length ev) (length objs))
              ''evidence_over_confirmed_objects''
              [(''object_ids'', strs (map ob_object_id ev)),
               (''node_ids'', strs (map nd_node_id (nodes_of ''evidence'' nds)))]
              [(''evidence_count'', int_len ev), (''confirmed_count'', int_len objs)]))"

definition evidence_quality ::
  "'a object_row_scheme list \<Rightarrow> node_row list \<Rightarrow> edge_row list \<Rightarrow> factor_input"
where
  "evidence_quality objs nds egs =
     (let ev = objects_of ''evidence'' objs
      in if ev = [] then missing_factor ''evidence_quality'' ''no_evidence_objects'' [] []
         else
           (let active = ratio (length (nodes_of ''evidence'' nds)) (max 1 (length ev));
                text = evidence_text_quality objs;
                edge = evidence_edge_quality nds egs
            in computed_factor ''evidence_quality''
                 (fadd (fadd (fmul (fl (5 / 10)) text) (fmul (fl (3 / 10)) active)) (fmul (fl (2 / 10)) edge))
                 ''text_quality_active_ratio_edge_strength''
                 [(''object_ids'', strs (map ob_object_id ev)),
                  (''node_ids'', strs (map nd_node_id (nodes_of ''evidence'' nds)))]
                 [(''text_quality'', VFloat (py_round 4 text)),
                  (''active_evidence_ratio'', VFloat (py_round 4 active)),
                  (''edge_quality'', VFloat (py_round 4 edge))]))"

definition cross_source_consistency ::
  "'a object_row_scheme list \<Rightarrow> node_row list \<Rightarrow> factor_input"
where
  "cross_source_consistency objs nds =
     (let ev = objects_of ''evidence'' objs
      in if ev = [] then missing_factor ''cross_source_consistency'' ''no_evidence_objects'' [] []
         else
           (let sources = sorted_set (map ob_source_id ev);
                base = min 1 (fdiv (float_len sources) 3);
                conflict_ratio = ratio (length (nodes_of ''conflict'' nds)) (max 1 (length nds))
            in computed_factor ''cross_source_consistency''
                 (fmul base (fsub 1 conflict_ratio))
                 ''distinct_sources_adjusted_by_conflicts''
                 [(''source_ids'', strs sources),
                  (''node_ids'', strs (map nd_node_id (nodes_of ''evidence'' nds)
                     @ map nd_node_id (nodes_of ''conflict'' nds)))]
                 [(''distinct_source_count'', int_len sources),
                  (''conflict_ratio'', VFloat (py_round 4 conflict_ratio))]))"

definition validation_backing ::
  "'a object_row_scheme list \<Rightarrow> node_row list \<Rightarrow> factor_input"
where
  "validation_backing objs nds =
     (let ev = objects_of ''evidence'' objs; va = objects_of ''validation'' objs
      in if va = [] then
           missing_factor ''validation_backing'' ''no_validation_objects''
             [(''object_ids'', strs []), (''node_ids'', strs [])]
             [(''validation_count'', VInt 0), (''evidence_count'', int_len ev)]
         else
           computed_factor ''validation_backing''
             (ratio (length va) (max 1 (length ev)))
             ''validation_over_evidence''
             [(''object_ids'', strs (map ob_object_id va)),
              (''node_ids'', strs (map nd_node_id (nodes_of ''validation'' nds)))]
             [(''validation_count'', int_len va), (''evidence_count'', int_len ev)])"

definition traceability_completeness :: "node_row list \<Rightarrow> edge_row list \<Rightarrow> factor_input" where
  "traceability_completeness nds egs =
     (if nds = [] then missing_factor ''traceability_completeness'' ''graph_not_built'' [] []
      else
        (let tn = filter (\<lambda>n. strip (nd_object_ref_type n) \<noteq> [] \<and> strip (nd_object_ref_id n) \<noteq> []) nds;
             te = filter (\<lambda>e. strip (eg_object_ref_type e) \<noteq> [] \<and> strip (eg_object_ref_id e) \<noteq> []) egs;
             node_ratio = ratio (length tn) (max 1 (length nds));
             edge_ratio = (if length egs = 0 then 1 else ratio (length te) (length egs))
         in computed_factor ''traceability_completeness''
              (fadd (fmul (fl (7 / 10)) node_ratio) (fmul (fl (3 / 10)) edge_ratio))
              ''traceable_node_and_edge_ratio''
              [(''node_ids'', strs (map nd_node_id tn)), (''edge_ids'', strs (map eg_edge_id te))]
              [(''traced_node_count'', int_len tn), (''traced_edge_count'', int_len te),
               (''total_node_count'', int_len nds), (''total_edge_count'', int_len egs)]))"

section \<open>Risk factors\<close>

definition unresolved_conflict_pressure :: "node_row list \<Rightarrow> factor_input" where
  "unresolved_conflict_pressure nds =
     (if nds = [] then missing_factor ''unresolved_conflict_pressure'' ''graph_not_built'' [] []
      else
        (let cf = nodes_of ''conflict'' nds
         in computed_factor ''unresolved_conflict_pressure''
              (ratio (length cf) (length nds))
              ''conflict_nodes_over_total_nodes''
              [(''node_ids'', strs (map nd_node_id cf))]
              [(''conflict_count'', int_len cf), (''total_node_count'', int_len nds)]))"

definition failure_pressure :: "node_row list \<Rightarrow> factor_input" where
  "failure_pressure nds =
     (if nds = [] then missing_factor ''failure_pressure'' ''graph_not_built'' [] []
      else
        (let fa = nodes_of ''failure'' nds; failed = failed_nodes nds
         in computed_factor ''failure_pressure''
              (fdiv (fadd (float_len fa) (fmul (fl (5 / 10)) (float_len failed))) (float_len nds))
              ''failure_and_failed_nodes_over_total_nodes''
              [(''node_ids'', strs (map nd_node_id fa @ map nd_node_id failed))]
              [(''failure_node_count'', int_len fa), (''failed_node_count'', int_len failed),
               (''total_node_count'', int_len nds)]))"

definition assumption_burden :: "node_row list \<Rightarrow> factor_input" where
  "assumption_burden nds =
     (if nds = [] then missing_factor ''assumption_burden'' ''graph_not_built'' [] []
      else
        (let asm = nodes_of ''assumption'' nds; ev = nodes_of ''evidence'' nds;
             pressure = ratio (length asm) (max 1 (length ev));
             density = ratio (length asm) (length nds)
         in computed_factor ''assumption_burden''
              (fadd (fmul (fl (7 / 10)) pressure) (fmul (fl (3 / 10)) density))
              ''assumption_pressure_and_density''
              [(''node_ids'', strs (map nd_node_id asm))]
              [(''assumption_count'', int_len asm), (''evidence_node_count'', int_len ev),
               (''total_node_count'', int_len nds)]))"

definition private_dependency_pressure :: "node_row list \<Rightarrow> factor_input" where
  "private_dependency_pressure nds =
     (if nds = [] then missing_factor ''private_dependency_pressure'' ''graph_not_built'' [] []
      else
        (let pd = nodes_of ''private_dependency'' nds
         in computed_factor ''private_dependency_pressure''
              (ratio (length pd) (length nds))
              ''private_dependency_nodes_over_total_nodes''
              [(''node_ids'', strs (map nd_node_id pd))]
              [(''private_dependency_count'', int_len pd), (''total_node_count'', int_len nds)]))"

definition missing_validation_pressure ::
  "'a object_row_scheme list \<Rightarrow> node_row list \<Rightarrow> factor_input"
where
  "missing_validation_pressure objs nds =
     (let ev = objects_of ''evidence'' objs; va = objects_of ''validation'' objs
      in if ev = [] then
           missing_factor ''missing_validation_pressure'' ''no_evidence_objects''
             [(''object_ids'', strs []), (''node_ids'', strs [])]
             [(''evidence_count'', VInt 0), (''validation_count'', int_len va)]
         else
           computed_factor ''missing_validation_pressure''
             (fsub 1 (min 1 (ratio (length va) (max 1 (length ev)))))
             ''missing_validation_over_evidence''
             [(''object_ids'', strs (map ob_object_id va)),
              (''node_ids'', strs (map nd_node_id (nodes_of ''validation'' nds)))]
             [(''evidence_count'', int_len ev), (''validation_count'', int_len va)])"

section \<open>Progressability factors\<close>

definition action_keywords :: "string list" where
  "action_keywords = [''run'', ''measure'', ''compare'', ''validate'', ''ablation'', ''test'']"

definition next_action_clarity :: "'r route_row_scheme \<Rightarrow> factor_input" where
  "next_action_clarity route =
     (let action_text = strip (rr_next_validation_action route)
      in if action_text = [] then
           missing_factor ''next_action_clarity'' ''missing_next_validation_action'' [] []
         else
           (let keyword_hit = (if \<exists>k \<in> set action_keywords. contains k (lower action_text) then 1 else 0);
                tokens = split_ws action_text;
                length_score = min 1 (fdiv (float_len action_text) 100);
                token_score = min 1 (fdiv (float_len tokens) 12)
            in computed_factor ''next_action_clarity''
                 (fadd (fadd (fmul (fl (5 / 10)) length_score) (fmul (fl (3 / 10)) token_score))
                   (fmul (fl (2 / 10)) keyword_hit))
                 ''action_length_tokens_keywords''
                 []
                 [(''action_length'', int_len action_text), (''token_count'', int_len tokens),
                  (''keyword_hit'', VFloat keyword_hit)]))"

definition execution_cost_feasibility :: "node_row list \<Rightarrow> factor_input" where
  "execution_cost_feasibility nds =
     (if nds = [] then missing_factor ''execution_cost_feasibility'' ''graph_not_built'' [] []
      else
        (let cf = nodes_of ''conflict'' nds; fa = nodes_of ''failure'' nds;
             conflict_ratio = ratio (length cf) (length nds);
             failure_ratio = ratio (length fa) (length nds)
         in computed_factor ''execution_cost_feasibility''
              (fsub 1 (fadd (fmul (fl (6 / 10)) conflict_ratio) (fmul (fl (4 / 10)) failure_ratio)))
              ''inverse_of_conflict_and_failure_pressure''
              [(''node_ids'', strs (map nd_node_id cf @ map nd_node_id fa))]
              [(''conflict_ratio'', VFloat (py_round 4 conflict_ratio)),
               (''failure_ratio'', VFloat (py_round 4 failure_ratio))]))"

definition execution_time_feasibility :: "node_row list \<Rightarrow> edge_row list \<Rightarrow> factor_input" where
  "execution_time_feasibility nds egs =
     (if nds = [] then missing_factor ''execution_time_feasibility'' ''graph_not_built'' [] []
      else
        (let failed = failed_nodes nds;
             failed_ratio = ratio (length failed) (length nds);
             edge_load = min 1 (ratio (length egs) (max 1 (length nds * 2)))
         in computed_factor ''execution_time_feasibility''
              (fsub 1 (fadd (fmul (fl (5 / 10)) failed_ratio) (fmul (fl (5 / 10)) edge_load)))
              ''inverse_of_failed_nodes_and_edge_load''
              [(''node_ids'', strs (map nd_node_id failed))]
              [(''failed_ratio'', VFloat (py_round 4 failed_ratio)),
               (''edge_load'', VFloat (py_round 4 edge_load))]))"

definition expected_signal_strength :: "'a object_row_scheme list \<Rightarrow> factor_input" where
  "expected_signal_strength objs =
     (let ev = objects_of ''evidence'' objs; va = objects_of ''validation'' objs
      in if ev = [] then missing_factor ''expected_signal_strength'' ''no_evidence_objects'' [] []
         else
           (let validation_ratio = ratio (length va) (max 1 (length ev));
                text = evidence_text_quality objs
            in computed_factor ''expected_signal_strength''
                 (fadd (fmul (fl (6 / 10)) text) (fmul (fl (4 / 10)) validation_ratio))
                 ''evidence_text_quality_and_validation_ratio''
                 [(''object_ids'', strs (map ob_object_id ev @ map ob_object_id va))]
                 [(''evidence_text_quality'', VFloat (py_round 4 text)),
                  (''validation_ratio'', VFloat (py_round 4 validation_ratio))]))"

definition dependency_readiness :: "node_row list \<Rightarrow> factor_input" where
  "dependency_readiness nds =
     (if nds = [] then missing_factor ''dependency_readiness'' ''graph_not_built'' [] []
      else
        (let pd = nodes_of ''private_dependency'' nds; failed = failed_nodes nds;
             cf = nodes_of ''conflict'' nds;
             blocked = length pd + length failed + length cf
         in computed_factor ''dependency_readiness''
              (fsub 1 (ratio blocked (length nds)))
              ''inverse_of_blocked_nodes''
              [(''node_ids'', strs (map nd_node_id pd @ map nd_node_id failed @ map nd_node_id cf))]
              [(''blocked_count'', VInt (int blocked)), (''total_node_count'', int_len nds)]))"

section \<open>All factors\<close>

text \<open>The object trace that the code adds to the assumption factor after the others.\<close>

definition trace_assumptions :: "'a object_row_scheme list \<Rightarrow> factor_input \<Rightarrow> factor_input" where
  "trace_assumptions objs fi =
     (let asm = objects_of ''assumption'' objs
      in if asm = [] then fi
         else fi\<lparr>fi_refs := dict_put ''object_ids'' (strs (map ob_object_id asm)) (fi_refs fi)\<rparr>)"

definition build_factor_inputs ::
  "'r route_row_scheme \<Rightarrow> 'a object_row_scheme list \<Rightarrow> node_row list \<Rightarrow> edge_row list \<Rightarrow>
   (string \<times> factor_input) list"
where
  "build_factor_inputs route objs nds egs =
     [(''confirmed_evidence_coverage'', confirmed_evidence_coverage objs nds),
      (''evidence_quality'', evidence_quality objs nds egs),
      (''cross_source_consistency'', cross_source_consistency objs nds),
      (''validation_backing'', validation_backing objs nds),
      (''traceability_completeness'', traceability_completeness nds egs),
      (''unresolved_conflict_pressure'', unresolved_conflict_pressure nds),
      (''failure_pressure'', failure_pressure nds),
      (''assumption_burden'', trace_assumptions objs (assumption_burden nds)),
      (''private_dependency_pressure'', private_dependency_pressure nds),
      (''missing_validation_pressure'', missing_validation_pressure objs nds),
      (''next_action_clarity'', next_action_clarity route),
      (''execution_cost_feasibility'', execution_cost_feasibility nds),
      (''execution_time_feasibility'', execution_time_feasibility nds egs),
      (''expected_signal_strength'', expected_signal_strength objs),
      (''dependency_readiness'', dependency_readiness nds)]"

section \<open>What every factor satisfies\<close>

text \<open>
  \<open>factor_ok\<close>: the value is between 0 and 1, a factor without input counts 0, and the ids the factor
  refers to are ids of the objects, nodes and edges it was computed from.
\<close>

fun pystr :: "pyval \<Rightarrow> string list" where
  "pystr (VStr s) = [s]"
| "pystr _ = []"

fun pystrs :: "pyval \<Rightarrow> string list" where
  "pystrs (VList vs) = concat (map pystr vs)"
| "pystrs _ = []"

definition ref_ids :: "string \<Rightarrow> payload \<Rightarrow> string list" where
  "ref_ids k refs = (case map_of refs k of None \<Rightarrow> [] | Some v \<Rightarrow> pystrs v)"

lemma pystrs_strs [simp]: "pystrs (strs xs) = xs"
  by (simp add: strs_def comp_def)

definition factor_ok ::
  "'a object_row_scheme list \<Rightarrow> node_row list \<Rightarrow> edge_row list \<Rightarrow> string \<Rightarrow> factor_input \<Rightarrow> bool"
where
  "factor_ok objs nds egs name fi \<longleftrightarrow>
     fi_factor_name fi = name \<and> 0 \<le> fi_normalized_value fi \<and> fi_normalized_value fi \<le> 1 \<and>
     (fi_status fi = ''computed'' \<or> fi_status fi = ''missing_input'' \<and> fi_normalized_value fi = 0) \<and>
     set (ref_ids ''object_ids'' (fi_refs fi)) \<subseteq> ob_object_id ` set objs \<and>
     set (ref_ids ''node_ids'' (fi_refs fi)) \<subseteq> nd_node_id ` set nds \<and>
     set (ref_ids ''edge_ids'' (fi_refs fi)) \<subseteq> eg_edge_id ` set egs"

lemma clamp01_bounds: "0 \<le> clamp01 v" "clamp01 v \<le> 1"
  by (auto simp: clamp01_def)

lemma clamp01_id: "0 \<le> v \<Longrightarrow> v \<le> 1 \<Longrightarrow> clamp01 v = v"
  by (simp add: clamp01_def)

lemma missing_ok:
  assumes "ref_ids ''object_ids'' refs = []" "ref_ids ''node_ids'' refs = []" "ref_ids ''edge_ids'' refs = []"
  shows "factor_ok objs nds egs name (missing_factor name reason refs metrics)"
  using assms by (simp add: factor_ok_def missing_factor_def)

lemma computed_ok:
  assumes "set (ref_ids ''object_ids'' refs) \<subseteq> ob_object_id ` set objs"
    "set (ref_ids ''node_ids'' refs) \<subseteq> nd_node_id ` set nds"
    "set (ref_ids ''edge_ids'' refs) \<subseteq> eg_edge_id ` set egs"
  shows "factor_ok objs nds egs name (computed_factor name v reason refs metrics)"
  using assms by (simp add: factor_ok_def computed_factor_def clamp01_bounds)

lemma set_objects_of [simp]: "set (objects_of ty objs) = {r \<in> set objs. ob_object_type r = ty}"
  by (auto simp: objects_of_def)

lemma set_nodes_of [simp]: "set (nodes_of ty nds) = {n \<in> set nds. nd_node_type n = ty}"
  by (auto simp: nodes_of_def)

lemma set_failed_nodes [simp]: "set (failed_nodes nds) = {n \<in> set nds. nd_status n = ''failed''}"
  by (auto simp: failed_nodes_def)

lemma ref_ids_simps [simp]:
  "ref_ids k [] = []"
  "ref_ids k ((k', v) # d) = (if k' = k then pystrs v else ref_ids k d)"
  "ref_ids k (dict_put k' v d) = (if k' = k then pystrs v else ref_ids k d)"
  by (simp_all add: ref_ids_def)

lemma support_factors_ok:
  "factor_ok objs nds egs ''confirmed_evidence_coverage'' (confirmed_evidence_coverage objs nds)"
  "factor_ok objs nds egs ''evidence_quality'' (evidence_quality objs nds egs)"
  "factor_ok objs nds egs ''cross_source_consistency'' (cross_source_consistency objs nds)"
  "factor_ok objs nds egs ''validation_backing'' (validation_backing objs nds)"
  "factor_ok objs nds egs ''traceability_completeness'' (traceability_completeness nds egs)"
  by (auto simp: confirmed_evidence_coverage_def evidence_quality_def cross_source_consistency_def
      validation_backing_def traceability_completeness_def Let_def
      intro!: missing_ok computed_ok)

lemma risk_factors_ok:
  "factor_ok objs nds egs ''unresolved_conflict_pressure'' (unresolved_conflict_pressure nds)"
  "factor_ok objs nds egs ''failure_pressure'' (failure_pressure nds)"
  "factor_ok objs nds egs ''assumption_burden'' (assumption_burden nds)"
  "factor_ok objs nds egs ''private_dependency_pressure'' (private_dependency_pressure nds)"
  "factor_ok objs nds egs ''missing_validation_pressure'' (missing_validation_pressure objs nds)"
  by (auto simp: unresolved_conflict_pressure_def failure_pressure_def assumption_burden_def
      private_dependency_pressure_def missing_validation_pressure_def Let_def
      intro!: missing_ok computed_ok)

lemma progressability_factors_ok:
  "factor_ok objs nds egs ''next_action_clarity'' (next_action_clarity route)"
  "factor_ok objs nds egs ''execution_cost_feasibility'' (execution_cost_feasibility nds)"
  "factor_ok objs nds egs ''execution_time_feasibility'' (execution_time_feasibility nds egs)"
  "factor_ok objs nds egs ''expected_signal_strength'' (expected_signal_strength objs)"
  "factor_ok objs nds egs ''dependency_readiness'' (dependency_readiness nds)"
  by (auto simp: next_action_clarity_def execution_cost_feasibility_def
      execution_time_feasibility_def expected_signal_strength_def dependency_readiness_def Let_def
      intro!: missing_ok computed_ok)

lemma trace_assumptions_ok:
  "factor_ok objs nds egs name fi \<Longrightarrow> factor_ok objs nds egs name (trace_assumptions objs fi)"
  by (auto simp: factor_ok_def trace_assumptions_def Let_def objects_of_def)

lemmas factors_ok = support_factors_ok risk_factors_ok progressability_factors_ok

text \<open>
  C35: The factors that the scoring reads. For every route, set of confirmed objects and graph,
  exactly the fifteen factors of the three dimensions are computed, in the order of the dimensions;
  each is between 0 and 1, a factor whose input is missing counts 0, and each refers only to objects,
  nodes and edges of the input.
\<close>

theorem factor_inputs_complete_and_ok:
  "map fst (build_factor_inputs route objs nds egs) = concat (map snd factor_order_by_dimension) \<and>
   (\<forall>(name, fi) \<in> set (build_factor_inputs route objs nds egs). factor_ok objs nds egs name fi)"
  by (simp add: build_factor_inputs_def factor_order_by_dimension_def factors_ok trace_assumptions_ok)

theorem factor_inputs_complete_and_ok_witness:
  "factor_ok ([] :: object_row list) [sample_node ''n'' ''w'' ''conflict'' ''active''] []
     ''unresolved_conflict_pressure''
     (unresolved_conflict_pressure [sample_node ''n'' ''w'' ''conflict'' ''active''])"
proof -
  let ?r = "sample_route ''r'' ''w'' ''candidate'' [''n''] []"
  let ?nds = "[sample_node ''n'' ''w'' ''conflict'' ''active'']"
  have "(''unresolved_conflict_pressure'', unresolved_conflict_pressure ?nds)
      \<in> set (build_factor_inputs ?r ([] :: object_row list) ?nds [])"
    by (simp add: build_factor_inputs_def)
  then show ?thesis
    using factor_inputs_complete_and_ok [of ?r "[] :: object_row list" ?nds "[]"] by blast
qed

end
