(* ===== verification/ScoringExplain.thy ===== *)
theory ScoringExplain
  imports ScoringFactors "HOL-Library.Product_Lexorder" "HOL-Library.Multiset"
begin

text \<open>
  \<^verbatim>\<open>research_layer/scoring/explainer.py\<close>: the sentence that explains a factor, the choice of
  the top factors, and the breakdown of the contributions by node.
\<close>

text \<open>The record that \<^verbatim>\<open>ScoreService\<close> builds for a factor.\<close>

record factor_record =
  fc_factor_name :: string
  fc_score_dimension :: string
  fc_normalized_value :: rat
  fc_weight :: rat
  fc_weighted_contribution :: rat
  fc_status :: string
  fc_reason :: string
  fc_refs :: payload
  fc_metrics :: payload
  fc_explanation :: string

section \<open>Explanation\<close>

text \<open>\<^verbatim>\<open>f"{x:.4f}"\<close>: the exact value of the double rounded to four decimals, half to even.\<close>

definition format_4f :: "rat \<Rightarrow> string" where
  "format_4f x =
     (let n = nat (round_half_even (\<bar>x\<bar> * 10 ^ 4))
      in (if x < 0 then ''-'' else []) @ nat_str (n div 10 ^ 4) @ ''.'' @ fixed_digits 4 (n mod 10 ^ 4))"

definition build_factor_explanation :: "factor_record \<Rightarrow> string" where
  "build_factor_explanation r =
     (if fc_status r = ''missing_input'' then
        fc_factor_name r @ '' missing_input ('' @ fc_reason r @ ''); normalized=0.0, contribution=0.0''
      else
        fc_factor_name r @ '' computed ('' @ fc_reason r @ ''); normalized='' @
        format_4f (fc_normalized_value r) @ '', weighted_contribution='' @
        format_4f (fc_weighted_contribution r))"

section \<open>Top factors\<close>

text \<open>The position of a name in the tie break order, its length for other names.\<close>

fun position :: "'a list \<Rightarrow> 'a \<Rightarrow> nat" where
  "position [] x = 0"
| "position (y # ys) x = (if x = y then 0 else Suc (position ys x))"

definition top_key :: "factor_record \<Rightarrow> rat \<times> nat \<times> string" where
  "top_key r =
     (- fc_weighted_contribution r, position top_factor_tie_break_order (fc_factor_name r), fc_factor_name r)"

definition select_top_factors :: "factor_record list \<Rightarrow> int \<Rightarrow> factor_record list" where
  "select_top_factors records limit = take (nat (max 0 limit)) (sort_key top_key records)"

section \<open>Breakdown by node\<close>

record contribution =
  ct_factor_name :: string
  ct_score_dimension :: string
  ct_contribution :: rat

record node_entry =
  ne_node_id :: string
  ne_node_type :: string
  ne_status :: string
  ne_object_ref_type :: string
  ne_object_ref_id :: string
  ne_support_contribution :: rat
  ne_risk_contribution :: rat
  ne_progressability_contribution :: rat
  ne_factor_contributions :: "contribution list"

record node_result = node_entry +
  nr_total_contribution :: rat

definition node_entry_of :: "node_row \<Rightarrow> node_entry" where
  "node_entry_of n =
     \<lparr>ne_node_id = nd_node_id n, ne_node_type = nd_node_type n, ne_status = nd_status n,
      ne_object_ref_type = nd_object_ref_type n, ne_object_ref_id = nd_object_ref_id n,
      ne_support_contribution = 0, ne_risk_contribution = 0, ne_progressability_contribution = 0,
      ne_factor_contributions = []\<rparr>"

fun node_map_of :: "node_row list \<Rightarrow> (string \<times> node_entry) list \<Rightarrow> (string \<times> node_entry) list" where
  "node_map_of [] m = m"
| "node_map_of (n # ns) m =
     node_map_of ns (if nd_node_id n = [] then m else dict_put (nd_node_id n) (node_entry_of n) m)"

text \<open>The effect of one factor on one node it is attached to.\<close>

definition add_contribution :: "factor_record \<Rightarrow> rat \<Rightarrow> node_entry \<Rightarrow> node_entry" where
  "add_contribution f c e =
     (let e' =
        (if fc_score_dimension f = ''support_score'' then
           e\<lparr>ne_support_contribution := fadd (ne_support_contribution e) c\<rparr>
         else if fc_score_dimension f = ''risk_score'' then
           e\<lparr>ne_risk_contribution := fadd (ne_risk_contribution e) c\<rparr>
         else if fc_score_dimension f = ''progressability_score'' then
           e\<lparr>ne_progressability_contribution := fadd (ne_progressability_contribution e) c\<rparr>
         else e)
      in e'\<lparr>ne_factor_contributions := ne_factor_contributions e' @
             [\<lparr>ct_factor_name = fc_factor_name f, ct_score_dimension = fc_score_dimension f,
               ct_contribution = py_round 6 c\<rparr>]\<rparr>)"

definition adjust :: "'k \<Rightarrow> ('v \<Rightarrow> 'v) \<Rightarrow> ('k \<times> 'v) list \<Rightarrow> ('k \<times> 'v) list" where
  "adjust k f m = map (\<lambda>(k', v). (k', if k' = k then f v else v)) m"

fun attach_all :: "factor_record \<Rightarrow> rat \<Rightarrow> string list \<Rightarrow> (string \<times> node_entry) list \<Rightarrow>
   (string \<times> node_entry) list" where
  "attach_all f c [] m = m"
| "attach_all f c (i # is) m = attach_all f c is (adjust i (add_contribution f c) m)"

definition attach_factor ::
  "string list \<Rightarrow> factor_record \<Rightarrow> (string \<times> node_entry) list \<Rightarrow> (string \<times> node_entry) list"
where
  "attach_factor selected f m =
     (let attached = filter (\<lambda>i. i \<in> set selected) (ref_ids ''node_ids'' (fc_refs f))
      in if attached = [] then m
         else attach_all f (fdiv (fc_weighted_contribution f) (float_len attached)) attached m)"

definition node_result_of :: "node_entry \<Rightarrow> node_result" where
  "node_result_of e =
     (let total =
        fadd (fadd (ne_support_contribution e) (ne_risk_contribution e)) (ne_progressability_contribution e)
      in node_entry.extend
           (e\<lparr>ne_support_contribution := py_round 6 (ne_support_contribution e),
              ne_risk_contribution := py_round 6 (ne_risk_contribution e),
              ne_progressability_contribution := py_round 6 (ne_progressability_contribution e)\<rparr>)
           (node_result.fields (py_round 6 total)))"

text \<open>
  The selected nodes are a set in the code; the final sort by contribution and id makes their
  enumeration immaterial, as a node id occurs once.
\<close>

definition selected_nodes :: "string list \<Rightarrow> (string \<times> node_entry) list \<Rightarrow> string list" where
  "selected_nodes focus m =
     filter (\<lambda>i. focus = [] \<or> i \<in> set focus) (map fst m)"

definition node_key :: "node_result \<Rightarrow> rat \<times> string" where
  "node_key r = (- nr_total_contribution r, ne_node_id r)"

definition build_node_score_breakdown ::
  "node_row list \<Rightarrow> factor_record list \<Rightarrow> string list \<Rightarrow> node_result list"
where
  "build_node_score_breakdown nds records focus =
     (let m = node_map_of nds [];
          selected = selected_nodes focus m;
          m' = fold (attach_factor selected) records m
      in sort_key node_key (map (\<lambda>(_, e). node_result_of e) (filter (\<lambda>(i, _). i \<in> set selected) m')))"

section \<open>The choice of the top factors\<close>

lemma nat_max_0: "nat (max 0 n) = nat n"
  by simp

lemma length_select_top_factors: "length (select_top_factors rs n) = min (nat n) (length rs)"
  by (simp add: select_top_factors_def min.commute)

lemma select_top_factors_split:
  "select_top_factors rs n @ drop (nat n) (sort_key top_key rs) = sort_key top_key rs"
  by (simp add: select_top_factors_def nat_max_0)

lemma sorted_top_key_contribution:
  "sorted (map top_key rs) \<Longrightarrow> sorted (map (\<lambda>r. - fc_weighted_contribution r) rs)"
  by (induction rs) (auto simp: top_key_def less_eq_prod_def)

text \<open>
  The top factors. They are the first \<open>n\<close> of all the factors in the order of decreasing
  contribution, ties broken by the fixed order of names: together with the factors left out they are
  a rearrangement of the input, and the contributions never increase along it, so that no factor
  left out contributes more than a chosen one.
\<close>

theorem select_top_factors_correct:
  "\<exists>rest. mset (select_top_factors rs n @ rest) = mset rs \<and>
     length (select_top_factors rs n) = min (nat n) (length rs) \<and>
     sorted (map top_key (select_top_factors rs n @ rest)) \<and>
     sorted (map (\<lambda>r. - fc_weighted_contribution r) (select_top_factors rs n @ rest))"
proof (intro exI conjI)
  let ?rest = "drop (nat n) (sort_key top_key rs)"
  show "mset (select_top_factors rs n @ ?rest) = mset rs"
    by (simp only: select_top_factors_split mset_sort)
  show "length (select_top_factors rs n) = min (nat n) (length rs)"
    by (rule length_select_top_factors)
  show s: "sorted (map top_key (select_top_factors rs n @ ?rest))"
    by (simp only: select_top_factors_split sorted_sort_key)
  then show "sorted (map (\<lambda>r. - fc_weighted_contribution r) (select_top_factors rs n @ ?rest))"
    by (rule sorted_top_key_contribution)
qed

section \<open>The nodes of the breakdown\<close>

text \<open>An entry is kept under its node id.\<close>

definition keyed :: "(string \<times> node_entry) list \<Rightarrow> bool" where
  "keyed m \<longleftrightarrow> distinct (map fst m) \<and> (\<forall>(k, e) \<in> set m. ne_node_id e = k)"

lemma keyed_dict_put: "keyed m \<Longrightarrow> ne_node_id e = k \<Longrightarrow> keyed (dict_put k e m)"
  using dict_put_subset [of k e m] by (auto simp: keyed_def)

lemma node_map_of_keyed: "keyed m \<Longrightarrow> keyed (node_map_of ns m)"
  by (induction ns arbitrary: m) (simp_all add: keyed_dict_put node_entry_of_def)

lemma node_map_of_keys:
  "fst ` set (node_map_of ns m) = fst ` set m \<union> (nd_node_id ` set ns - {[]})"
  by (induction ns arbitrary: m) (simp_all add: dict_put_key_set insert_Diff_if)

lemma adjust_keys [simp]: "map fst (adjust k f m) = map fst m"
  by (auto simp: adjust_def)

lemma add_contribution_id [simp]: "ne_node_id (add_contribution f c e) = ne_node_id e"
  by (simp add: add_contribution_def Let_def)

lemma adjust_keyed: "keyed m \<Longrightarrow> keyed (adjust k (add_contribution f c) m)"
  unfolding keyed_def adjust_keys by (auto simp: adjust_def)

lemma attach_all_keyed:
  "keyed m \<Longrightarrow> keyed (attach_all f c is m) \<and> map fst (attach_all f c is m) = map fst m"
  by (induction "is" arbitrary: m) (simp_all add: adjust_keyed)

lemma attach_factors_keyed:
  "keyed m \<Longrightarrow> keyed (fold (attach_factor sel) rs m) \<and> map fst (fold (attach_factor sel) rs m) = map fst m"
proof (induction rs arbitrary: m)
  case (Cons r rs)
  have "keyed (attach_factor sel r m) \<and> map fst (attach_factor sel r m) = map fst m"
    using Cons.prems attach_all_keyed by (simp add: attach_factor_def Let_def)
  then show ?case using Cons.IH by simp
qed simp

lemma node_result_id [simp]: "ne_node_id (node_result_of e) = ne_node_id e"
  by (simp add: node_result_of_def node_entry.defs node_result.defs)

text \<open>
  The nodes of the breakdown. It has exactly one entry for every node of the graph that has an
  id and, if a focus is given, is in it; the entries are ordered by decreasing total contribution,
  then by id.
\<close>

theorem breakdown_nodes:
  "distinct (map ne_node_id (build_node_score_breakdown nds records focus)) \<and>
   ne_node_id ` set (build_node_score_breakdown nds records focus) =
     {i. i \<in> nd_node_id ` set nds \<and> i \<noteq> [] \<and> (focus = [] \<or> i \<in> set focus)} \<and>
   sorted (map node_key (build_node_score_breakdown nds records focus))"
proof -
  let ?m = "node_map_of nds []"
  let ?sel = "selected_nodes focus ?m"
  let ?m' = "fold (attach_factor ?sel) records ?m"
  let ?f = "filter (\<lambda>(i, _). i \<in> set ?sel) ?m'"
  let ?r = "map (\<lambda>(_, e). node_result_of e) ?f"
  have k: "keyed ?m" by (rule node_map_of_keyed) (simp add: keyed_def)
  have k': "keyed ?m'" "map fst ?m' = map fst ?m" using attach_factors_keyed [OF k] by blast+
  have ids: "map ne_node_id ?r = map fst ?f" using k'(1) by (auto simp: keyed_def)
  have "distinct (map fst ?f)" using k'(1) by (auto simp: keyed_def intro: distinct_map_filter)
  moreover have "fst ` set ?f = set (map fst ?m') \<inter> set ?sel" by force
  then have "fst ` set ?f = set ?sel" unfolding k'(2) by (auto simp: selected_nodes_def)
  moreover have "set ?sel = {i. i \<in> nd_node_id ` set nds \<and> i \<noteq> [] \<and> (focus = [] \<or> i \<in> set focus)}"
    using node_map_of_keys [of nds "[]"] by (auto simp: selected_nodes_def)
  moreover have b: "build_node_score_breakdown nds records focus = sort_key node_key ?r"
    by (simp add: build_node_score_breakdown_def Let_def)
  moreover have "mset (map ne_node_id (sort_key node_key ?r)) = mset (map ne_node_id ?r)"
    by (simp only: mset_map mset_sort)
  ultimately show ?thesis
    using ids by (metis (no_types, lifting) distinct_sort distinct_map list.set_map mset_eq_imp_distinct_iff mset_eq_setD sorted_sort_key)
qed

end
