(* ===== verification/ScoreService.thy ===== *)
theory ScoreService
  imports ScoringExplain StoreGraph StoreRoutes StoreEvents
begin

text \<open>
  \<^verbatim>\<open>services/score_service.py\<close>: the critique of a scored route and \<open>score_route\<close>, which reads
  the route and the graph, weighs the factors of the three dimensions, stores the scores and logs the
  outcome.
\<close>

section \<open>The critique\<close>

definition issue :: "string \<Rightarrow> string \<Rightarrow> string \<Rightarrow> payload \<Rightarrow> payload" where
  "issue code severity message refs =
     [(''issue_code'', VStr code), (''severity'', VStr severity), (''message'', VStr message),
      (''refs'', VDict refs)]"

record critique_state =
  cr_blocking_issues :: "payload list"
  cr_warnings :: "payload list"
  cr_suggestions :: "string list"
  cr_factor_notes :: "(string \<times> string) list"

definition block :: "payload \<Rightarrow> critique_state \<Rightarrow> critique_state" where
  "block i c = c\<lparr>cr_blocking_issues := cr_blocking_issues c @ [i]\<rparr>"

definition warn :: "payload \<Rightarrow> critique_state \<Rightarrow> critique_state" where
  "warn i c = c\<lparr>cr_warnings := cr_warnings c @ [i]\<rparr>"

definition suggest :: "string \<Rightarrow> critique_state \<Rightarrow> critique_state" where
  "suggest t c = c\<lparr>cr_suggestions := cr_suggestions c @ [t]\<rparr>"

definition note_factor :: "string \<Rightarrow> string \<Rightarrow> critique_state \<Rightarrow> critique_state" where
  "note_factor f t c = c\<lparr>cr_factor_notes := dict_put f t (cr_factor_notes c)\<rparr>"

definition risk_issues :: "string \<Rightarrow> rat \<Rightarrow> critique_state \<Rightarrow> critique_state" where
  "risk_issues route_id risk c =
     (let refs = [(''route_id'', VStr route_id), (''risk_score'', VFloat risk)]
      in if 70 \<le> risk then
           suggest ''Address highest-risk factors before publishing this route.''
             (block (issue ''risk_score_high'' ''blocking''
               ''Risk score is too high for safe publication.'' refs) c)
         else if 55 \<le> risk then
           suggest ''Add mitigation evidence for elevated risk dimensions.''
             (warn (issue ''risk_score_elevated'' ''warning''
               ''Risk score is elevated and needs mitigation coverage.'' refs) c)
         else c)"

definition support_issues :: "string \<Rightarrow> rat \<Rightarrow> critique_state \<Rightarrow> critique_state" where
  "support_issues route_id support c =
     (let refs = [(''route_id'', VStr route_id), (''support_score'', VFloat support)]
      in if support < 35 then
           suggest ''Increase evidence and validation support before release.''
             (block (issue ''support_score_low'' ''blocking''
               ''Support score is below publication baseline.'' refs) c)
         else if support < 50 then
           suggest ''Strengthen support factors with additional evidence.''
             (warn (issue ''support_score_moderate'' ''warning''
               ''Support score is moderate and may weaken confidence.'' refs) c)
         else c)"

definition progressability_issues :: "string \<Rightarrow> rat \<Rightarrow> critique_state \<Rightarrow> critique_state" where
  "progressability_issues route_id progress c =
     (let refs = [(''route_id'', VStr route_id), (''progressability_score'', VFloat progress)]
      in if progress < 35 then
           suggest ''Clarify executable next validation steps for this route.''
             (block (issue ''progressability_score_low'' ''blocking''
               ''Progressability score indicates weak next-step feasibility.'' refs) c)
         else if progress < 50 then
           warn (issue ''progressability_score_moderate'' ''warning''
             ''Progressability score is moderate and may stall execution.'' refs) c
         else c)"

text \<open>The loop over the factor records, and the loop over the top factors.\<close>

definition missing_factor_issue :: "string \<Rightarrow> factor_record \<Rightarrow> critique_state \<Rightarrow> critique_state" where
  "missing_factor_issue route_id f c =
     (if fc_factor_name f = [] \<or> fc_status f \<noteq> ''missing_input'' then c
      else
        (let severity =
           (if (fc_score_dimension f = ''support_score'' \<or> fc_score_dimension f = ''progressability_score'')
               \<and> fl (2 / 10) \<le> fc_weight f then ''blocking'' else ''warning'');
             i = issue (''missing_factor:'' @ fc_factor_name f) severity
               ''Scoring factor is missing required input and can reduce reliability.''
               [(''route_id'', VStr route_id), (''factor_name'', VStr (fc_factor_name f)),
                (''score_dimension'', VStr (fc_score_dimension f)),
                (''node_ids'', strs (ref_ids ''node_ids'' (fc_refs f)))]
         in note_factor (fc_factor_name f) ''Missing input; verify source coverage for this factor.''
              (if severity = ''blocking'' then block i c else warn i c)))"

definition top_factor_issue :: "string \<Rightarrow> factor_record \<Rightarrow> critique_state \<Rightarrow> critique_state" where
  "top_factor_issue route_id f c =
     (if fc_score_dimension f = ''risk_score'' \<and> fl (15 / 100) \<le> fc_weighted_contribution f then
        note_factor (fc_factor_name f) ''Risk-dominant factor; include mitigation plan and monitoring.''
          (warn (issue (''risk_dominant_top_factor:'' @ fc_factor_name f) ''warning''
            ''Top factor is risk-dominant and should be mitigated.''
            [(''route_id'', VStr route_id), (''factor_name'', VStr (fc_factor_name f)),
             (''weighted_contribution'', VFloat (py_round 6 (fc_weighted_contribution f)))]) c)
      else if fc_factor_name f \<noteq> [] \<and> fc_factor_name f \<notin> fst ` set (cr_factor_notes c) then
        note_factor (fc_factor_name f)
          ''High-impact factor; keep supporting evidence and rationale explicit.'' c
      else c)"

record critique =
  crt_readiness :: string
  crt_blocking_issues :: "payload list"
  crt_warnings :: "payload list"
  crt_suggestions :: "string list"

definition build_reviewer_like_critique ::
  "string \<Rightarrow> rat \<Rightarrow> rat \<Rightarrow> rat \<Rightarrow> factor_record list \<Rightarrow> factor_record list \<Rightarrow>
   critique \<times> (string \<times> string) list"
where
  "build_reviewer_like_critique route_id support risk progress factor_records top_factors =
     (let c0 = \<lparr>cr_blocking_issues = [], cr_warnings = [], cr_suggestions = [], cr_factor_notes = []\<rparr>;
          c1 = progressability_issues route_id progress
                 (support_issues route_id support (risk_issues route_id risk c0));
          c2 = fold (missing_factor_issue route_id) factor_records c1;
          c3 = fold (top_factor_issue route_id) top_factors c2;
          normalized = filter (\<lambda>t. strip t \<noteq> []) (sorted_set (cr_suggestions c3));
          suggestions =
            (if normalized = []
             then [''Maintain current score drivers and keep traceability evidence up to date.'']
             else normalized);
          readiness =
            (if cr_blocking_issues c3 \<noteq> [] then ''blocked''
             else if cr_warnings c3 \<noteq> [] then ''needs_revision'' else ''ready'')
      in (\<lparr>crt_readiness = readiness, crt_blocking_issues = cr_blocking_issues c3,
           crt_warnings = cr_warnings c3, crt_suggestions = suggestions\<rparr>, cr_factor_notes c3))"

section \<open>Weighing the factors\<close>

record dimension_score =
  ds_dimension :: string
  ds_normalized_score :: rat
  ds_score :: rat
  ds_factors :: "factor_record list"

definition invalid_request :: "string \<Rightarrow> payload \<Rightarrow> api_error" where
  "invalid_request message details = ServiceError 400 ''research.invalid_request'' message details"

definition factor_record_of :: "string \<Rightarrow> string \<Rightarrow> rat \<Rightarrow> factor_input \<Rightarrow> factor_record" where
  "factor_record_of dimension factor_name weight fi =
     (let v = clamp01 (fi_normalized_value fi);
          r = \<lparr>fc_factor_name = factor_name, fc_score_dimension = dimension,
               fc_normalized_value = py_round 6 v, fc_weight = py_round 6 weight,
               fc_weighted_contribution = py_round 6 (fmul weight v), fc_status = fi_status fi,
               fc_reason = fi_reason fi, fc_refs = fi_refs fi, fc_metrics = fi_metrics fi,
               fc_explanation = []\<rparr>
      in r\<lparr>fc_explanation := build_factor_explanation r\<rparr>)"

fun weigh_factors ::
  "(string \<times> factor_input) list \<Rightarrow> (string \<times> rat) list \<Rightarrow> string \<Rightarrow> string list \<Rightarrow> rat \<Rightarrow>
   factor_record list \<Rightarrow> api_error + rat \<times> factor_record list"
where
  "weigh_factors inputs weights dimension [] weighted_sum records = Inr (weighted_sum, records)"
| "weigh_factors inputs weights dimension (f # fs) weighted_sum records =
     (case map_of inputs f of
        None \<Rightarrow> Inl (invalid_request ''template references unsupported factor'' [(''factor_name'', VStr f)])
      | Some fi \<Rightarrow>
          (case map_of weights f of
             None \<Rightarrow> Inl (invalid_request ''template weight missing for factor'' [(''factor_name'', VStr f)])
           | Some weight \<Rightarrow>
               weigh_factors inputs weights dimension fs
                 (fadd weighted_sum (fmul weight (clamp01 (fi_normalized_value fi))))
                 (records @ [factor_record_of dimension f weight fi])))"

definition score_dimension ::
  "scoring_template \<Rightarrow> (string \<times> factor_input) list \<Rightarrow> string \<times> string list \<Rightarrow> api_error + dimension_score"
where
  "score_dimension t inputs = (\<lambda>(dimension, ordered_factors).
     rbind (weigh_factors inputs
         (case map_of (tpl_weights t) dimension of None \<Rightarrow> [] | Some ws \<Rightarrow> ws)
         dimension ordered_factors 0 [])
       (\<lambda>(weighted_sum, records).
          let normalized_score = clamp01 weighted_sum
          in Inr \<lparr>ds_dimension = dimension, ds_normalized_score = py_round 6 normalized_score,
                  ds_score = py_round 1 (fmul normalized_score 100), ds_factors = records\<rparr>))"

definition main_score :: "dimension_score list \<Rightarrow> string \<Rightarrow> rat" where
  "main_score dims d = (case find (\<lambda>x. ds_dimension x = d) dims of None \<Rightarrow> 0 | Some x \<Rightarrow> ds_score x)"

section \<open>The stored form\<close>

definition factor_payload :: "factor_record \<Rightarrow> payload" where
  "factor_payload r =
     [(''factor_name'', VStr (fc_factor_name r)), (''score_dimension'', VStr (fc_score_dimension r)),
      (''normalized_value'', VFloat (fc_normalized_value r)), (''weight'', VFloat (fc_weight r)),
      (''weighted_contribution'', VFloat (fc_weighted_contribution r)), (''status'', VStr (fc_status r)),
      (''reason'', VStr (fc_reason r)), (''refs'', VDict (fc_refs r)), (''metrics'', VDict (fc_metrics r)),
      (''explanation'', VStr (fc_explanation r))]"

definition dicts :: "payload list \<Rightarrow> pyval" where
  "dicts ds = VList (map VDict ds)"

definition ranked_top_factors :: "(string \<times> string) list \<Rightarrow> factor_record list \<Rightarrow> payload list" where
  "ranked_top_factors notes tops =
     map (\<lambda>(i, f). factor_payload f @
       [(''rank'', VInt (int i)),
        (''reviewer_note'', VStr (case map_of notes (fc_factor_name f) of None \<Rightarrow> [] | Some t \<Rightarrow> t))])
      (enumerate 1 tops)"

definition critique_payload :: "critique \<Rightarrow> payload" where
  "critique_payload c =
     [(''generated_by'', VStr ''score_service.reviewer_like_critique.v1''),
      (''readiness'', VStr (crt_readiness c)), (''blocking_issues'', dicts (crt_blocking_issues c)),
      (''warnings'', dicts (crt_warnings c)), (''suggestions'', strs (crt_suggestions c))]"

definition breakdown_payload :: "critique \<Rightarrow> dimension_score list \<Rightarrow> payload" where
  "breakdown_payload c dims =
     map (\<lambda>d. (ds_dimension d, VDict
       ([(''normalized_score'', VFloat (ds_normalized_score d)), (''score'', VFloat (ds_score d)),
         (''factors'', dicts (map factor_payload (ds_factors d)))] @
        (if ds_dimension d = ''support_score'' then [(''reviewer_critique'', VDict (critique_payload c))]
         else [])))) dims"

definition node_result_payload :: "node_result \<Rightarrow> payload" where
  "node_result_payload r =
     [(''node_id'', VStr (ne_node_id r)), (''node_type'', VStr (ne_node_type r)),
      (''status'', VStr (ne_status r)), (''object_ref_type'', VStr (ne_object_ref_type r)),
      (''object_ref_id'', VStr (ne_object_ref_id r)),
      (''support_contribution'', VFloat (ne_support_contribution r)),
      (''risk_contribution'', VFloat (ne_risk_contribution r)),
      (''progressability_contribution'', VFloat (ne_progressability_contribution r)),
      (''total_contribution'', VFloat (nr_total_contribution r)),
      (''factor_contributions'', dicts (map (\<lambda>ct.
         [(''factor_name'', VStr (ct_factor_name ct)), (''score_dimension'', VStr (ct_score_dimension ct)),
          (''contribution'', VFloat (ct_contribution ct))]) (ne_factor_contributions r)))]"

section \<open>Scoring a route\<close>

definition emit_failure_event ::
  "string \<Rightarrow> string \<Rightarrow> string \<Rightarrow> string list \<Rightarrow> api_error \<Rightarrow> unit store_proc"
where
  "emit_failure_event request_id workspace_id route_id focus_node_ids e =
     (case e of
        ServiceError status_code error_code message details \<Rightarrow>
          emit_event (event_args ''score_recalculated'' (Some request_id) None (Some workspace_id)
            ''score_service'' ''score_route'' ''failed''
            [(''route_id'', VStr route_id), (''node_ids'', strs focus_node_ids)] []
            (Some [(''error_code'', VStr error_code), (''message'', VStr message),
                   (''details'', VDict details)]))
      | _ \<Rightarrow> ret ())"

definition scoring_template_for :: "string option \<Rightarrow> string list \<Rightarrow> api_error + scoring_template" where
  "scoring_template_for template_id relation_tags =
     (case rbind (resolve_scoring_template template_id (Some relation_tags))
             (\<lambda>t. rbind (validate_template_contract t) (\<lambda>_. Inr t)) of
        Inl reason \<Rightarrow> Inl (invalid_request ''invalid scoring template'' [(''reason'', VStr reason)])
      | Inr t \<Rightarrow> Inr t)"

text \<open>What a focus leaves of the graph and of the confirmed objects.\<close>

definition focus_nodes :: "string list \<Rightarrow> node_row list \<Rightarrow> node_row list" where
  "focus_nodes focus nds = (if focus = [] then nds else filter (\<lambda>n. nd_node_id n \<in> set focus) nds)"

definition focus_edges :: "string list \<Rightarrow> edge_row list \<Rightarrow> edge_row list" where
  "focus_edges focus egs =
     (if focus = [] then egs
      else filter (\<lambda>e. eg_source_node_id e \<in> set focus \<and> eg_target_node_id e \<in> set focus) egs)"

definition focus_objects :: "string list \<Rightarrow> node_row list \<Rightarrow> object_view list \<Rightarrow> object_view list" where
  "focus_objects focus nds objs =
     (if focus = [] then objs
      else filter (\<lambda>r. (ob_object_type r, ob_object_id r)
        \<in> (\<lambda>n. (nd_object_ref_type n, nd_object_ref_id n)) ` set nds) objs)"

text \<open>From the graph to the scores: the part of \<open>score_route\<close> that does not touch the store.\<close>

definition compute_scores ::
  "scoring_template \<Rightarrow> route_view \<Rightarrow> object_view list \<Rightarrow> node_row list \<Rightarrow> edge_row list \<Rightarrow>
   api_error + dimension_score list"
where
  "compute_scores t route objs nds egs =
     rmap (score_dimension t (build_factor_inputs route objs nds egs)) factor_order_by_dimension"

definition store_scores ::
  "string \<Rightarrow> string \<Rightarrow> string \<Rightarrow> string list \<Rightarrow> scoring_template \<Rightarrow> node_row list \<Rightarrow> dimension_score list \<Rightarrow>
   route_view store_proc"
where
  "store_scores workspace_id route_id request_id focus_node_ids template nds dims =
     (let records = concat (map ds_factors dims);
          support = main_score dims ''support_score'';
          risk = main_score dims ''risk_score'';
          progress = main_score dims ''progressability_score'';
          tops = select_top_factors records 3;
          (critique, notes) =
            build_reviewer_like_critique route_id support risk progress records tops
      in and_then
           (update_route_scores route_id support risk progress (tpl_template_id template)
             (ranked_top_factors notes tops) (breakdown_payload critique dims)
             (map node_result_payload (build_node_score_breakdown nds records focus_node_ids)))
           (\<lambda>updated.
         and_then
           (require (ServiceError 404 ''research.not_found'' ''route not found''
             [(''route_id'', VStr route_id)]) updated)
           (\<lambda>updated_route.
         and_then
           (emit_event (event_args ''score_recalculated'' (Some request_id) None (Some workspace_id)
             ''score_service'' ''score_route'' ''completed''
             [(''route_id'', VStr route_id), (''node_ids'', strs focus_node_ids)]
             [(''support_score'', VFloat support), (''risk_score'', VFloat risk),
              (''progressability_score'', VFloat progress), (''factor_count'', int_len records)] None))
           (\<lambda>_. ret updated_route))))"

definition score_route_body ::
  "string \<Rightarrow> string \<Rightarrow> string \<Rightarrow> string option \<Rightarrow> string list \<Rightarrow> route_view store_proc"
where
  "score_route_body workspace_id route_id request_id template_id focus_node_ids =
     and_then (get_route route_id) (\<lambda>found.
     and_then
       (require (ServiceError 404 ''research.not_found'' ''route not found''
         [(''route_id'', VStr route_id)]) found) (\<lambda>route.
     and_then
       (check (ServiceError 409 ''research.conflict'' ''workspace_id does not match route ownership''
         [(''route_id'', VStr route_id)]) (rr_workspace_id route = workspace_id)) (\<lambda>_.
     and_then (list_graph_nodes workspace_id) (\<lambda>graph_nodes.
     and_then (list_graph_edges workspace_id) (\<lambda>graph_edges.
     and_then
       (check (ServiceError 409 ''research.invalid_state'' ''graph is not ready for scoring''
         [(''workspace_id'', VStr workspace_id)]) (graph_nodes \<noteq> [])) (\<lambda>_.
     and_then
       (let invalid_focus = sorted_set (filter (\<lambda>i. i \<notin> nd_node_id ` set graph_nodes) focus_node_ids)
        in check (invalid_request ''focus_node_ids contain unknown node references''
             [(''focus_node_ids'', strs invalid_focus)]) (invalid_focus = [])) (\<lambda>_.
     and_then (lift_result (scoring_template_for template_id (rr_relation_tags route))) (\<lambda>template.
     and_then (list_confirmed_objects workspace_id) (\<lambda>objs.
     (let nds = focus_nodes focus_node_ids graph_nodes
      in and_then
           (lift_result (compute_scores template route (focus_objects focus_node_ids nds objs) nds
             (focus_edges focus_node_ids graph_edges)))
           (store_scores workspace_id route_id request_id focus_node_ids template nds)))))))))))"

definition score_route ::
  "string \<Rightarrow> string \<Rightarrow> string \<Rightarrow> string option \<Rightarrow> string list \<Rightarrow> route_view store_proc"
where
  "score_route workspace_id route_id request_id template_id focus_node_ids =
     on_error (score_route_body workspace_id route_id request_id template_id focus_node_ids)
       (emit_failure_event request_id workspace_id route_id focus_node_ids)"

section \<open>The weighing always succeeds\<close>

definition template_covers :: "scoring_template \<Rightarrow> bool" where
  "template_covers t \<longleftrightarrow>
     (\<forall>(d, fs) \<in> set factor_order_by_dimension.
        \<exists>ws. map_of (tpl_weights t) d = Some ws \<and> set fs \<subseteq> fst ` set ws)"

lemma resolved_template_covers:
  assumes "resolve_scoring_template i tags = Inr t"
  shows "template_covers t"
  using resolve_cases [OF assms]
  by (auto simp: template_covers_def factor_order_by_dimension_def default_template_def
      validation_heavy_template_def)

lemma map_of_keys: "k \<in> fst ` set m \<Longrightarrow> \<exists>v. map_of m k = Some v"
  by (metis map_of_eq_None_iff not_None_eq)

lemma weigh_factors_Inr:
  assumes "set fs \<subseteq> fst ` set inputs" "set fs \<subseteq> fst ` set weights"
  shows "\<exists>x rs. weigh_factors inputs weights d fs acc records = Inr (x, records @ rs) \<and>
    map fc_factor_name rs = fs \<and> (\<forall>r \<in> set rs. fc_score_dimension r = d)"
  using assms
proof (induction fs arbitrary: acc records)
  case Nil
  show ?case by simp
next
  case (Cons f fs)
  obtain fi w where m: "map_of inputs f = Some fi" "map_of weights f = Some w"
    using Cons.prems map_of_keys by (metis list.set_intros(1) subsetD)
  let ?r = "factor_record_of d f w fi"
  obtain x rs where rs:
    "weigh_factors inputs weights d fs (fadd acc (fmul w (clamp01 (fi_normalized_value fi)))) (records @ [?r]) =
       Inr (x, (records @ [?r]) @ rs)"
    "map fc_factor_name rs = fs" "\<forall>r \<in> set rs. fc_score_dimension r = d"
    using Cons.IH [of "fadd acc (fmul w (clamp01 (fi_normalized_value fi)))" "records @ [?r]"] Cons.prems
    by auto
  have "fc_factor_name ?r = f" "fc_score_dimension ?r = d"
    by (simp_all add: factor_record_of_def Let_def)
  then show ?case using m rs by (intro exI [of _ x] exI [of _ "?r # rs"]) simp
qed

lemma clamped_score_bounds:
  "0 \<le> py_round 1 (fmul (clamp01 x) 100)" "py_round 1 (fmul (clamp01 x) 100) \<le> 100"
proof -
  have "0 \<le> fmul (clamp01 x) 100" by (rule fmul_nonneg) (simp_all add: clamp01_bounds)
  moreover have "fmul (clamp01 x) 100 \<le> 100"
    unfolding fmul_def by (rule fl_le_100) (simp add: clamp01_bounds)
  ultimately show "0 \<le> py_round 1 (fmul (clamp01 x) 100)" "py_round 1 (fmul (clamp01 x) 100) \<le> 100"
    using py_round_between [of 0 _ 100 1] by simp_all
qed

definition dimension_score_ok :: "string \<times> string list \<Rightarrow> dimension_score \<Rightarrow> bool" where
  "dimension_score_ok d x \<longleftrightarrow>
     ds_dimension x = fst d \<and> map fc_factor_name (ds_factors x) = snd d \<and>
     0 \<le> ds_score x \<and> ds_score x \<le> 100"

lemma score_dimension_Inr:
  assumes "template_covers t" "d \<in> set factor_order_by_dimension"
    and "fst ` set inputs = set (concat (map snd factor_order_by_dimension))"
  shows "\<exists>x. score_dimension t inputs d = Inr x \<and> dimension_score_ok d x"
proof -
  obtain dim fs where d: "d = (dim, fs)" by (cases d)
  obtain ws where ws: "map_of (tpl_weights t) dim = Some ws" "set fs \<subseteq> fst ` set ws"
    using assms(1,2) d by (auto simp: template_covers_def)
  have fs: "set fs \<subseteq> fst ` set inputs" using assms(2,3) d by force
  obtain x rs where "weigh_factors inputs ws dim fs 0 [] = Inr (x, [] @ rs)" "map fc_factor_name rs = fs"
    using weigh_factors_Inr [OF fs ws(2), of dim 0 "[]"] by blast
  then show ?thesis
    using ws(1) d by (auto simp: score_dimension_def dimension_score_ok_def Let_def
        clamped_score_bounds [unfolded One_nat_def])
qed

lemma rmap_Inr_all:
  "(\<And>x. x \<in> set xs \<Longrightarrow> \<exists>y. f x = Inr y \<and> Q x y) \<Longrightarrow> \<exists>ys. rmap f xs = Inr ys \<and> list_all2 Q xs ys"
proof (induction xs)
  case Nil
  show ?case by simp
next
  case (Cons x xs)
  obtain y where y: "f x = Inr y" "Q x y" using Cons.prems [of x] by auto
  obtain ys where ys: "rmap f xs = Inr ys" "list_all2 Q xs ys" using Cons.IH Cons.prems by auto
  show ?case using y ys by (intro exI [of _ "y # ys"]) simp
qed

lemma compute_scores_Inr:
  assumes "template_covers t"
  shows "\<exists>dims. compute_scores t route objs nds egs = Inr dims \<and>
    list_all2 dimension_score_ok factor_order_by_dimension dims"
  unfolding compute_scores_def
proof (rule rmap_Inr_all)
  fix d
  assume "d \<in> set factor_order_by_dimension"
  moreover have "fst ` set (build_factor_inputs route objs nds egs) =
      set (concat (map snd factor_order_by_dimension))"
    by (simp add: build_factor_inputs_def factor_order_by_dimension_def insert_commute)
  ultimately show "\<exists>y. score_dimension t (build_factor_inputs route objs nds egs) d = Inr y \<and>
      dimension_score_ok d y"
    using score_dimension_Inr [OF assms] by blast
qed

lemma main_score_bounds:
  assumes "list_all2 dimension_score_ok factor_order_by_dimension dims"
  shows "0 \<le> main_score dims d" and "main_score dims d \<le> 100"
proof -
  have "\<forall>x \<in> set dims. 0 \<le> ds_score x \<and> ds_score x \<le> 100"
    using assms by (auto simp: list_all2_conv_all_nth in_set_conv_nth dimension_score_ok_def)
  then show "0 \<le> main_score dims d" and "main_score dims d \<le> 100"
    by (auto simp: main_score_def find_Some_iff split: option.split)
qed

lemma scoring_template_for_covers:
  "scoring_template_for i tags = Inr t \<Longrightarrow> template_covers t"
  using resolved_template_covers
  by (auto simp: scoring_template_for_def rbind_Inr_iff split: sum.splits)

text \<open>The nodes that a focus shows and the scores that a row of the routes table is due, read off the store.\<close>

definition shown_nodes :: "string \<Rightarrow> string list \<Rightarrow> store \<Rightarrow> node_row list" where
  "shown_nodes w focus s = focus_nodes focus (map node_view (filter (\<lambda>x. nd_workspace_id x = w) (node_rows s)))"

definition expected_scores ::
  "string \<Rightarrow> string option \<Rightarrow> string list \<Rightarrow> route_row \<Rightarrow> store \<Rightarrow> api_error + dimension_score list"
where
  "expected_scores w i focus r s =
     (let nds = shown_nodes w focus s;
          egs = focus_edges focus (filter (\<lambda>x. eg_workspace_id x = w) (edge_rows s));
          objs = (case fst (list_confirmed_objects w s) of Inr x \<Rightarrow> x | Inl _ \<Rightarrow> [])
      in rbind (scoring_template_for i (rr_relation_tags r))
           (\<lambda>t. compute_scores t (route_view_of r) (focus_objects focus nds objs) nds egs))"

definition carries_scores :: "'r route_row_scheme \<Rightarrow> dimension_score list \<Rightarrow> bool" where
  "carries_scores v dims \<longleftrightarrow>
     rr_support_score v = main_score dims ''support_score'' \<and>
     rr_risk_score v = main_score dims ''risk_score'' \<and>
     rr_progressability_score v = main_score dims ''progressability_score''"

section \<open>What scoring a route does\<close>

text \<open>The row of the route after its scores are stored.\<close>

definition scored_row ::
  "string \<Rightarrow> string \<Rightarrow> dimension_score list \<Rightarrow> node_result list \<Rightarrow> time \<Rightarrow> route_row \<Rightarrow> route_row"
where
  "scored_row k template_id dims breakdown t r =
     (let records = concat (map ds_factors dims);
          support = main_score dims ''support_score'';
          risk = main_score dims ''risk_score'';
          progress = main_score dims ''progressability_score'';
          tops = select_top_factors records 3;
          (critique, notes) =
            build_reviewer_like_critique k support risk progress records tops;
          (c, g) = compute_route_confidence support risk progress
      in r\<lparr>rr_support_score := support, rr_risk_score := risk, rr_progressability_score := progress,
           rr_confidence_score := Some c, rr_confidence_grade := Some g,
           rr_scoring_template_id := Some template_id,
           rr_top_factors := ranked_top_factors notes tops,
           rr_score_breakdown := breakdown_payload critique dims,
           rr_node_score_breakdown := map node_result_payload breakdown, rr_scored_at := Some t\<rparr>)"

lemma scored_row_simps [simp]:
  "rr_route_id (scored_row k i dims b t r) = rr_route_id r"
  "rr_workspace_id (scored_row k i dims b t r) = rr_workspace_id r"
  "rr_status (scored_row k i dims b t r) = rr_status r"
  "rr_route_node_ids (scored_row k i dims b t r) = rr_route_node_ids r"
  "rr_route_edge_ids_json (scored_row k i dims b t r) = rr_route_edge_ids_json r"
  "rr_version_id (scored_row k i dims b t r) = rr_version_id r"
  "rr_support_score (scored_row k i dims b t r) = main_score dims ''support_score''"
  "rr_risk_score (scored_row k i dims b t r) = main_score dims ''risk_score''"
  "rr_progressability_score (scored_row k i dims b t r) = main_score dims ''progressability_score''"
  by (simp_all add: scored_row_def Let_def split: prod.split)

lemma store_scores_cases:
  assumes s: "store_scores w k q focus t nds dims s = (res, s')"
    and k: "select_key rr_route_id k (route_rows s) = Some r"
  defines "f \<equiv> scored_row k (tpl_template_id t) dims
    (build_node_score_breakdown nds (concat (map ds_factors dims)) focus) (clock s (ticks s))"
  obtains (scored) e where "res = Inr (route_view_of (f r))"
      and "s' = s\<lparr>ticks := Suc (Suc (ticks s)), drawn := Suc (drawn s),
        route_rows := update_where (\<lambda>x. rr_route_id x = k) f (route_rows s),
        event_rows := event_rows s @ [e]\<rparr>"
      and "select_key rr_route_id k (route_rows s') = Some (f r)"
      and "evt_event_name e = ''score_recalculated''" and "evt_status e = ''completed''"
      and "evt_workspace_id e = Some w" and "evt_event_id e = ''event_'' @ hex_supply s (drawn s)"
  | (taken) e where "res = Inl (IntegrityError e)"
      and "''event_'' @ hex_supply s (drawn s) \<in> evt_event_id ` set (event_rows s)"
proof -
  have key: "rr_route_id r = k" using select_key_Some [OF k] by simp
  have sel: "select_key rr_route_id k (update_where (\<lambda>x. rr_route_id x = k) f (route_rows s)) = Some (f r)"
    using k key by (simp add: select_key_update f_def)
  obtain crit nts where cn:
    "build_reviewer_like_critique k (main_score dims ''support_score'') (main_score dims ''risk_score'')
       (main_score dims ''progressability_score'') (concat (map ds_factors dims))
       (select_top_factors (concat (map ds_factors dims)) 3) = (crit, nts)"
    by (cases "build_reviewer_like_critique k (main_score dims ''support_score'') (main_score dims ''risk_score'')
       (main_score dims ''progressability_score'') (concat (map ds_factors dims))
       (select_top_factors (concat (map ds_factors dims)) 3)")
  obtain c g where cg:
    "compute_route_confidence (main_score dims ''support_score'') (main_score dims ''risk_score'')
       (main_score dims ''progressability_score'') = (c, g)"
    by (cases "compute_route_confidence (main_score dims ''support_score'') (main_score dims ''risk_score'')
       (main_score dims ''progressability_score'')")
  let ?s1 = "s\<lparr>ticks := Suc (ticks s),
    route_rows := update_where (\<lambda>x. rr_route_id x = k) f (route_rows s)\<rparr>"
  have upd: "update_route_scores k (main_score dims ''support_score'') (main_score dims ''risk_score'')
      (main_score dims ''progressability_score'') (tpl_template_id t)
      (ranked_top_factors nts (select_top_factors (concat (map ds_factors dims)) 3))
      (breakdown_payload crit dims)
      (map node_result_payload (build_node_score_breakdown nds (concat (map ds_factors dims)) focus)) s =
    (Inr (Some (route_view_of (f r))), ?s1)"
    using sel by (simp add: update_route_scores_def cg cn and_then_def proc_simps f_def scored_row_def [abs_def] Let_def)
  let ?args = "event_args ''score_recalculated'' (Some q) None (Some w) ''score_service'' ''score_route''
    ''completed'' [(''route_id'', VStr k), (''node_ids'', strs focus)]
    [(''support_score'', VFloat (main_score dims ''support_score'')),
     (''risk_score'', VFloat (main_score dims ''risk_score'')),
     (''progressability_score'', VFloat (main_score dims ''progressability_score'')),
     (''factor_count'', int_len (concat (map ds_factors dims)))] None"
  obtain r1 s1 where em: "emit_event ?args ?s1 = (r1, s1)" by (cases "emit_event ?args ?s1")
  have st: "(res, s') = (case r1 of Inl e \<Rightarrow> Inl e | Inr _ \<Rightarrow> Inr (route_view_of (f r)), s1)"
    using s em by (simp add: store_scores_def Let_def cn and_then_def upd proc_simps split: sum.splits)
  from em show thesis
  proof (cases rule: emit_event_cases)
    case (taken e)
    then show thesis using st that(2) by simp
  next
    case (added e)
    show thesis by (rule that(1) [of e]) (use added st sel in simp_all)
  qed
qed

lemma reads_apply [proc_simps]:
  "list_graph_nodes w s = (Inr (map node_view (filter (\<lambda>r. nd_workspace_id r = w) (node_rows s))), s)"
  "list_graph_edges w s = (Inr (filter (\<lambda>r. eg_workspace_id r = w) (edge_rows s)), s)"
  "\<exists>objs. list_confirmed_objects w s = (Inr objs, s)"
  by (simp_all add: list_graph_nodes_def list_graph_edges_def list_confirmed_objects_def proc_simps)

definition is_service_error :: "api_error \<Rightarrow> bool" where
  "is_service_error e \<longleftrightarrow> (case e of ServiceError _ _ _ _ \<Rightarrow> True | _ \<Rightarrow> False)"

lemma scoring_template_for_error: "scoring_template_for i tags = Inl e \<Longrightarrow> is_service_error e"
  by (auto simp: scoring_template_for_def invalid_request_def is_service_error_def split: sum.splits)

lemma score_route_body_cases:
  assumes "score_route_body w k q i focus s = (res, s')"
  obtains (refused) e where "res = Inl e" and "s' = s" and "is_service_error e"
  | (stored) r t nds dims where "select_key rr_route_id k (route_rows s) = Some r"
      and "rr_workspace_id r = w" and "list_all2 dimension_score_ok factor_order_by_dimension dims"
      and "scoring_template_for i (rr_relation_tags r) = Inr t"
      and "store_scores w k q focus t nds dims s = (res, s')"
      and "expected_scores w i focus r s = Inr dims" and "nds = shown_nodes w focus s"
proof (cases "select_key rr_route_id k (route_rows s)")
  case None
  then show thesis
    using assms refused by (auto simp: score_route_body_def and_then_def proc_simps is_service_error_def)
next
  case (Some r)
  let ?nds = "map node_view (filter (\<lambda>r. nd_workspace_id r = w) (node_rows s))"
  let ?egs = "filter (\<lambda>r. eg_workspace_id r = w) (edge_rows s)"
  let ?bad = "sorted_set (filter (\<lambda>i. i \<notin> nd_node_id ` set ?nds) focus)"
  obtain objs where objs: "list_confirmed_objects w s = (Inr objs, s)" using reads_apply(3) by blast
  note step = score_route_body_def and_then_def proc_simps Some Let_def objs
  show thesis
  proof (cases "rr_workspace_id r = w \<and> ?nds \<noteq> [] \<and> ?bad = []")
    case False
    then show thesis
      using assms refused
      by (auto simp: step is_service_error_def invalid_request_def split: if_splits)
  next
    case ok: True
    show thesis
    proof (cases "scoring_template_for i (rr_relation_tags r)")
      case (Inl e)
      then show thesis
        using assms refused ok scoring_template_for_error [OF Inl] by (auto simp: step split: if_splits)
    next
      case (Inr t)
      then have "template_covers t" by (rule scoring_template_for_covers)
      from compute_scores_Inr [OF this, of "route_view_of r" "focus_objects focus (focus_nodes focus ?nds) objs"
        "focus_nodes focus ?nds" "focus_edges focus ?egs"]
      obtain dims where dims: "compute_scores t (route_view_of r)
          (focus_objects focus (focus_nodes focus ?nds) objs) (focus_nodes focus ?nds)
          (focus_edges focus ?egs) = Inr dims"
        "list_all2 dimension_score_ok factor_order_by_dimension dims" by blast
      then have "store_scores w k q focus t (focus_nodes focus ?nds) dims s = (res, s')"
        using assms ok Inr by (simp add: step split: if_splits)
      moreover have "expected_scores w i focus r s = Inr dims"
        using dims(1) Inr objs by (simp add: expected_scores_def shown_nodes_def Let_def)
      ultimately show thesis using stored Some ok dims(2) Inr by (simp add: shown_nodes_def)
    qed
  qed
qed

lemma scored_view_confidence:
  "rr_confidence_score (route_view_of (scored_row k i dims b t r)) =
     Some (fst (compute_route_confidence (main_score dims ''support_score'') (main_score dims ''risk_score'')
       (main_score dims ''progressability_score'')))"
  by (simp add: route_view_of_def scored_row_def Let_def route_row.defs route_view.defs split: prod.split)

lemma scoring_template_for_known:
  assumes "i = None \<or> i = Some [] \<or> (\<exists>n \<in> fst ` set templates. i = Some n)"
  shows "\<exists>t. scoring_template_for i tags = Inr t"
proof -
  have "\<exists>t. resolve_scoring_template i (Some tags) = Inr t"
    using assms
    by (auto simp: resolve_scoring_template_def templates_def default_template_def
        validation_heavy_template_def Let_def split: list.split)
  then obtain t where t: "resolve_scoring_template i (Some tags) = Inr t" by blast
  then have "validate_template_contract t = Inr ()"
    using resolve_cases default_template_contract validation_heavy_template_contract by blast
  then show ?thesis using t by (simp add: scoring_template_for_def)
qed

definition scores_in_range :: "'r route_row_scheme \<Rightarrow> bool" where
  "scores_in_range v \<longleftrightarrow>
     0 \<le> rr_support_score v \<and> rr_support_score v \<le> 100 \<and>
     0 \<le> rr_risk_score v \<and> rr_risk_score v \<le> 100 \<and>
     0 \<le> rr_progressability_score v \<and> rr_progressability_score v \<le> 100 \<and>
     (\<exists>c. rr_confidence_score v = Some c \<and> 0 \<le> c \<and> c \<le> 100)"

lemma scored_view_carries: "carries_scores (route_view_of (scored_row k i dims b t r)) dims"
  by (simp add: carries_scores_def)

lemma scored_view_in_range:
  "list_all2 dimension_score_ok factor_order_by_dimension dims \<Longrightarrow>
   scores_in_range (route_view_of (scored_row k i dims b t r))"
  by (simp add: scores_in_range_def scored_view_confidence main_score_bounds confidence_bounds)

text \<open>The scoring of a route of the workspace, as far as the store is concerned.\<close>

lemma score_route_cases:
  assumes "score_route w k q i focus s = (res, s')"
  obtains (scored) v e where "res = Inr v" and "get_route k s' = (Inr (Some v), s')"
      and "rr_route_id v = k" and "rr_workspace_id v = w" and "scores_in_range v"
      and "s' = s\<lparr>ticks := Suc (Suc (ticks s)), drawn := Suc (drawn s), route_rows := route_rows s',
        event_rows := event_rows s @ [e]\<rparr>"
      and "\<exists>f. (\<forall>r. rr_route_id (f r) = rr_route_id r \<and> rr_workspace_id (f r) = rr_workspace_id r
            \<and> rr_status (f r) = rr_status r \<and> rr_route_node_ids (f r) = rr_route_node_ids r
            \<and> rr_route_edge_ids_json (f r) = rr_route_edge_ids_json r
            \<and> rr_version_id (f r) = rr_version_id r) \<and>
          route_rows s' = update_where (\<lambda>r. rr_route_id r = k) f (route_rows s)"
      and "evt_status e = ''completed''"
      and "\<exists>r dims. select_key rr_route_id k (route_rows s) = Some r \<and>
          expected_scores w i focus r s = Inr dims \<and> carries_scores v dims"
      and "evt_event_id e = ''event_'' @ hex_supply s (drawn s)"
      and "\<exists>r t dims. select_key rr_route_id k (route_rows s) = Some r \<and>
          scoring_template_for i (rr_relation_tags r) = Inr t \<and> expected_scores w i focus r s = Inr dims \<and>
          (let f = scored_row k (tpl_template_id t) dims
             (build_node_score_breakdown (shown_nodes w focus s) (concat (map ds_factors dims)) focus) (clock s (ticks s))
           in v = route_view_of (f r) \<and> route_rows s' = update_where (\<lambda>x. rr_route_id x = k) f (route_rows s))"
  | (refused) x e where "res = Inl x" and "is_service_error x"
      and "s' = s\<lparr>ticks := Suc (ticks s), drawn := Suc (drawn s), event_rows := event_rows s @ [e]\<rparr>"
      and "evt_event_name e = ''score_recalculated''" and "evt_status e = ''failed''"
      and "evt_workspace_id e = Some w"
  | (taken) x where "res = Inl (IntegrityError x)"
proof -
  obtain res1 s1 where b: "score_route_body w k q i focus s = (res1, s1)"
    by (cases "score_route_body w k q i focus s")
  from b show thesis
  proof (cases rule: score_route_body_cases)
    case (refused e)
    obtain sc ec m d where e: "e = ServiceError sc ec m d"
      using refused(3) by (auto simp: is_service_error_def split: api_error.splits)
    let ?args = "event_args ''score_recalculated'' (Some q) None (Some w) ''score_service'' ''score_route''
      ''failed'' [(''route_id'', VStr k), (''node_ids'', strs focus)] []
      (Some [(''error_code'', VStr ec), (''message'', VStr m), (''details'', VDict d)])"
    obtain r2 s2 where em: "emit_event ?args s = (r2, s2)" by (cases "emit_event ?args s")
    have "score_route w k q i focus s = (case r2 of Inl e' \<Rightarrow> Inl e' | Inr _ \<Rightarrow> Inl e, s2)"
      using b refused e em
      by (simp add: score_route_def on_error_def emit_failure_event_def split: sum.split)
    then have r: "res = (case r2 of Inl e' \<Rightarrow> Inl e' | Inr _ \<Rightarrow> Inl e)" "s' = s2" using assms by simp_all
    from em show thesis
    proof (cases rule: emit_event_cases)
      case (taken k')
      then show thesis using r that(3) by simp
    next
      case (added e')
      show thesis by (rule that(2) [of e e']) (use added r refused(3) in simp_all)
    qed
  next
    case (stored r t nds dims)
    have key: "rr_route_id r = k" using select_key_Some [OF stored(1)] by simp
    from stored(5) stored(1) show thesis
    proof (cases rule: store_scores_cases)
      case (scored e)
      then have "score_route w k q i focus s = (res1, s1)"
        using b by (simp add: score_route_def on_error_def)
      then have r: "res = res1" "s' = s1" using assms by simp_all
      show thesis
        by (rule that(1) [of _ e]; (intro exI conjI)?; (use r scored key stored in
            \<open>auto simp: get_route_apply Let_def intro: scored_view_in_range scored_view_carries\<close>)?)
    next
      case (taken e)
      then have "res = Inl (IntegrityError e)"
        using assms b by (simp add: score_route_def on_error_def emit_failure_event_def proc_simps)
      then show thesis by (rule that(3))
    qed
  qed
qed

lemma score_route_returns:
  assumes "select_key rr_route_id k (route_rows s) = Some r" and "rr_workspace_id r = w"
    and "\<exists>n \<in> set (node_rows s). nd_workspace_id n = w"
    and "set focus \<subseteq> set (map nd_node_id (filter (\<lambda>n. nd_workspace_id n = w) (node_rows s)))"
    and "i = None \<or> i = Some [] \<or> (\<exists>n \<in> fst ` set templates. i = Some n)"
    and "''event_'' @ hex_supply s (drawn s) \<notin> evt_event_id ` set (event_rows s)"
  shows "\<exists>v s'. score_route w k q i focus s = (Inr v, s')"
proof -
  let ?nds = "map node_view (filter (\<lambda>r. nd_workspace_id r = w) (node_rows s))"
  let ?egs = "filter (\<lambda>r. eg_workspace_id r = w) (edge_rows s)"
  let ?fn = "focus_nodes focus ?nds"
  have nds: "?nds \<noteq> []" using assms(3) by (auto simp: filter_empty_conv)
  have bad: "sorted_set (filter (\<lambda>i. i \<notin> nd_node_id ` set ?nds) focus) = []"
    using assms(4) by (simp add: sorted_set_filter_Nil image_image) blast
  obtain t where t: "scoring_template_for i (rr_relation_tags r) = Inr t"
    using scoring_template_for_known [OF assms(5)] by blast
  obtain objs where objs: "list_confirmed_objects w s = (Inr objs, s)" using reads_apply(3) by blast
  obtain dims where dims: "compute_scores t (route_view_of r) (focus_objects focus ?fn objs) ?fn
      (focus_edges focus ?egs) = Inr dims"
    using compute_scores_Inr [OF scoring_template_for_covers [OF t]] by blast
  obtain res s' where st: "store_scores w k q focus t ?fn dims s = (res, s')"
    by (cases "store_scores w k q focus t ?fn dims s")
  have body: "score_route_body w k q i focus s = (res, s')"
    using assms(1,2) nds bad t objs dims st
    by (simp add: score_route_body_def and_then_def proc_simps Let_def)
  from st assms(1) show ?thesis
  proof (cases rule: store_scores_cases)
    case (scored e)
    then show ?thesis using body by (simp add: score_route_def on_error_def)
  next
    case (taken e)
    then show ?thesis using assms(6) by simp
  qed
qed

section \<open>Properties\<close>

text \<open>The row without what a scoring writes, and the three largest contributions of a list of factors.\<close>

definition unscored :: "route_row \<Rightarrow> route_row" where
  "unscored r = r\<lparr>rr_support_score := 0, rr_risk_score := 0, rr_progressability_score := 0,
     rr_confidence_score := None, rr_confidence_grade := None, rr_scoring_template_id := None,
     rr_top_factors := [], rr_score_breakdown := [], rr_node_score_breakdown := [], rr_scored_at := None\<rparr>"

definition three_largest :: "factor_record list \<Rightarrow> factor_record list \<Rightarrow> bool" where
  "three_largest records tops \<longleftrightarrow>
     (\<exists>rest. mset (tops @ rest) = mset records \<and> length tops = min 3 (length records) \<and>
        sorted (map (\<lambda>x. - fc_weighted_contribution x) (tops @ rest)))"

lemma unscored_scored_row [simp]: "unscored (scored_row k i dims b t r) = unscored r"
  by (simp add: unscored_def scored_row_def Let_def split: prod.split)

lemma three_largest_selected: "three_largest records (select_top_factors records 3)"
  unfolding three_largest_def
proof (intro exI conjI)
  show "mset (select_top_factors records 3 @ drop (nat 3) (sort_key top_key records)) = mset records"
    by (simp only: select_top_factors_split mset_sort)
  show "length (select_top_factors records 3) = min 3 (length records)"
    by (simp add: length_select_top_factors)
  show "sorted (map (\<lambda>x. - fc_weighted_contribution x)
      (select_top_factors records 3 @ drop (nat 3) (sort_key top_key records)))"
    by (rule sorted_top_key_contribution) (simp only: select_top_factors_split sorted_sort_key)
qed

text \<open>What a route view shows of a scoring with the factors \<open>records\<close>.\<close>

definition explains_scores ::
  "string \<Rightarrow> scoring_template \<Rightarrow> dimension_score list \<Rightarrow> node_row list \<Rightarrow> string list \<Rightarrow> time \<Rightarrow> route_view \<Rightarrow> bool"
where
  "explains_scores k t dims nds focus tm v \<longleftrightarrow>
     (let records = concat (map ds_factors dims)
      in (\<exists>tops crit nts. three_largest records tops \<and>
            build_reviewer_like_critique k (rr_support_score v) (rr_risk_score v) (rr_progressability_score v)
              records tops = (crit, nts) \<and>
            rr_top_factors v = ranked_top_factors nts tops \<and>
            rr_score_breakdown v = breakdown_payload crit dims) \<and>
         rr_node_score_breakdown v = map node_result_payload (build_node_score_breakdown nds records focus) \<and>
         rr_scoring_template_id v = Some (tpl_template_id t) \<and> rr_scored_at v = Some tm \<and>
         (\<exists>c g. compute_route_confidence (rr_support_score v) (rr_risk_score v) (rr_progressability_score v) = (c, g) \<and>
            rr_confidence_score v = Some c \<and> rr_confidence_grade v = Some g))"

lemma scored_view_explains:
  "explains_scores k t dims nds focus tm (route_view_of (scored_row k (tpl_template_id t) dims
     (build_node_score_breakdown nds (concat (map ds_factors dims)) focus) tm r))"
proof -
  let ?records = "concat (map ds_factors dims)"
  obtain crit nts where c: "build_reviewer_like_critique k (main_score dims ''support_score'')
      (main_score dims ''risk_score'') (main_score dims ''progressability_score'') ?records
      (select_top_factors ?records 3) = (crit, nts)"
    by (metis surj_pair)
  show ?thesis
    unfolding explains_scores_def Let_def
    by (intro conjI exI [of _ "select_top_factors ?records 3"] exI [of _ crit] exI [of _ nts])
      (simp_all add: three_largest_selected route_view_of_def scored_row_def Let_def c default_str_def route_row.defs route_view.defs
        split: prod.split)
qed

text \<open>
  C2: A scored route. When \<open>score_route\<close> returns, it returns the stored route: the route that was
  asked for, in the workspace that asked, with the three scores that its graph, its confirmed objects
  and its template are due, these and its confidence between 0 and 100, with the three factors that
  contribute most and the notes on them, the breakdown by dimension with the critique, the breakdown by node, the
  confidence and the template; reading it again gives the same. No other column of any route changes and
  every other route is as it was, the graph, the jobs and the reports are untouched, and the log has one
  more event, of a completed scoring.
\<close>

theorem score_route_scores:
  assumes "score_route w k q i focus s = (Inr v, s')"
  shows "rr_route_id v = k \<and> rr_workspace_id v = w \<and> scores_in_range v \<and>
    (\<exists>r t dims. select_key rr_route_id k (route_rows s) = Some r \<and>
      scoring_template_for i (rr_relation_tags r) = Inr t \<and>
      expected_scores w i focus r s = Inr dims \<and> carries_scores v dims \<and>
      explains_scores k t dims (shown_nodes w focus s) focus (clock s (ticks s)) v) \<and>
    get_route k s' = (Inr (Some v), s') \<and>
    filter (\<lambda>r. rr_route_id r \<noteq> k) (route_rows s') = filter (\<lambda>r. rr_route_id r \<noteq> k) (route_rows s) \<and>
    map unscored (route_rows s') = map unscored (route_rows s) \<and>
    (\<exists>e. evt_status e = ''completed'' \<and>
      s' = s\<lparr>ticks := Suc (Suc (ticks s)), drawn := Suc (drawn s), route_rows := route_rows s',
        event_rows := event_rows s @ [e]\<rparr>)"
  using assms
proof (cases rule: score_route_cases)
  case (scored v' e)
  let ?f = "\<lambda>t dims. scored_row k (tpl_template_id t) dims
    (build_node_score_breakdown (shown_nodes w focus s) (concat (map ds_factors dims)) focus) (clock s (ticks s))"
  obtain r t dims where x: "select_key rr_route_id k (route_rows s) = Some r"
      "scoring_template_for i (rr_relation_tags r) = Inr t" "expected_scores w i focus r s = Inr dims"
      "v = route_view_of (?f t dims r)" "route_rows s' = update_where (\<lambda>x. rr_route_id x = k) (?f t dims) (route_rows s)"
    using scored(1,11) by (auto simp: Let_def)
  have "carries_scores v dims" unfolding x(4) by (rule scored_view_carries)
  moreover have "explains_scores k t dims (shown_nodes w focus s) focus (clock s (ticks s)) v"
    unfolding x(4) by (rule scored_view_explains)
  moreover have "filter (\<lambda>r. rr_route_id r \<noteq> k) (route_rows s') = filter (\<lambda>r. rr_route_id r \<noteq> k) (route_rows s)"
    unfolding x(5) by (rule filter_update_where) simp
  moreover have "map unscored (route_rows s') = map unscored (route_rows s)"
    unfolding x(5) by (rule keys_update_where) simp
  ultimately show ?thesis using scored x(1-3) by auto
qed simp_all

text \<open>
  A refused scoring. When \<open>score_route\<close> raises its own exception, for a missing route, a foreign
  workspace, an empty graph, an unknown focus node or an unknown template, nothing is stored: the
  only change is one more event in the log of the workspace, of a failed scoring.
\<close>

theorem score_route_refusal_changes_nothing:
  assumes "score_route w k q i focus s = (Inl (ServiceError st c m d), s')"
  shows "\<exists>e. s' = s\<lparr>ticks := Suc (ticks s), drawn := Suc (drawn s), event_rows := event_rows s @ [e]\<rparr> \<and>
    evt_event_name e = ''score_recalculated'' \<and> evt_status e = ''failed'' \<and> evt_workspace_id e = Some w"
  using assms by (cases rule: score_route_cases) auto

text \<open>
  C36: Scoring is always possible. For a route of the workspace, a graph that is not empty, a focus
  within it and a template that is absent or known, \<open>score_route\<close> returns scores: no weight and no
  factor is ever missing. The only premise on the store is that the id drawn for the event is new.
\<close>

theorem score_route_total:
  assumes "select_key rr_route_id k (route_rows s) = Some r" and "rr_workspace_id r = w"
    and "\<exists>n \<in> set (node_rows s). nd_workspace_id n = w"
    and "set focus \<subseteq> set (map nd_node_id (filter (\<lambda>n. nd_workspace_id n = w) (node_rows s)))"
    and "i = None \<or> i = Some [] \<or> (\<exists>n \<in> fst ` set templates. i = Some n)"
    and "''event_'' @ hex_supply s (drawn s) \<notin> evt_event_id ` set (event_rows s)"
  shows "\<exists>v s'. score_route w k q i focus s = (Inr v, s')"
  by (rule score_route_returns [OF assms])

section \<open>Examples\<close>

definition scoring_store :: store where
  "scoring_store = empty_store\<lparr>
     node_rows := [sample_node ''n1'' ''w'' ''evidence'' ''active'', sample_node ''n2'' ''w'' ''conflict'' ''failed''],
     edge_rows := [sample_edge ''e1'' ''w'' ''n1'' ''n2'' ''active'' (1 / 2)],
     route_rows := [sample_route ''r1'' ''w'' ''candidate'' [''n1''] [''e1''],
                    sample_route ''r2'' ''w'' ''candidate'' [''n2''] []]\<rparr>"

lemma scoring_store_returns: "\<exists>v s'. score_route ''w'' ''r1'' ''q'' None [''n1''] scoring_store = (Inr v, s')"
  by (rule score_route_returns) ((simp add: scoring_store_def sample_simps)+)

theorem score_route_scores_witness:
  "\<exists>v s'. score_route ''w'' ''r1'' ''q'' None [''n1''] scoring_store = (Inr v, s') \<and>
     rr_route_id v = ''r1'' \<and> scores_in_range v \<and>
     filter (\<lambda>r. rr_route_id r \<noteq> ''r1'') (route_rows s') = [sample_route ''r2'' ''w'' ''candidate'' [''n2''] []]"
proof -
  obtain v s' where r: "score_route ''w'' ''r1'' ''q'' None [''n1''] scoring_store = (Inr v, s')"
    using scoring_store_returns by blast
  from score_route_scores [OF r] show ?thesis
    using r by (auto simp: scoring_store_def sample_simps)
qed

theorem score_route_total_witness:
  "\<exists>v s'. score_route ''w'' ''r2'' ''q'' (Some ''validation_heavy_v1'') [] scoring_store = (Inr v, s')"
  by (rule score_route_total) ((simp add: scoring_store_def sample_simps templates_def validation_heavy_template_def)+)

theorem score_route_refusal_changes_nothing_witness:
  "\<exists>e s'. score_route ''other'' ''r1'' ''q'' None [] scoring_store =
       (Inl (ServiceError 409 ''research.conflict'' ''workspace_id does not match route ownership''
          [(''route_id'', VStr ''r1'')]), s') \<and>
     route_rows s' = route_rows scoring_store \<and> event_rows s' = [e] \<and> evt_status e = ''failed''"
proof -
  obtain s' where r: "score_route ''other'' ''r1'' ''q'' None [] scoring_store =
      (Inl (ServiceError 409 ''research.conflict'' ''workspace_id does not match route ownership''
        [(''route_id'', VStr ''r1'')]), s')"
    by (simp add: score_route_def on_error_def score_route_body_def and_then_def proc_simps
        emit_failure_event_def emit_event_def insert_row_def gen_id_def now_def
        scoring_store_def sample_simps)
  from score_route_refusal_changes_nothing [OF r] show ?thesis
    using r by (auto simp: scoring_store_def sample_simps)
qed

end
