(* ===== verification/Recompute.thy ===== *)
theory Recompute
  imports VersionDiff FailureImpactProps ScoreService
begin

text \<open>
  Recomputing a workspace after a failure report, \<^verbatim>\<open>services/recompute_service.py\<close>: the report is
  applied, every route is scored again, the difference to the snapshot taken before becomes a new
  version of the graph, and the version is published in the routes and in the workspace.
\<close>

section \<open>Snapshots\<close>

record route_snap =
  rs_status :: string
  rs_support_score :: rat
  rs_risk_score :: rat
  rs_progressability_score :: rat
  rs_route_node_ids :: "string list"
  rs_route_edge_ids :: "string list"
  rs_canonical_present :: bool
  rs_canonical_valid :: bool
  rs_canonical_error :: "string option"

text \<open>A node or edge is its status and its type.\<close>

record snapshot =
  sn_nodes :: "(string \<times> string \<times> string) list"
  sn_edges :: "(string \<times> string \<times> string) list"
  sn_routes :: "(string \<times> route_snap) list"

definition route_snap_of :: "route_view \<Rightarrow> route_snap" where
  "route_snap_of r =
     \<lparr>rs_status = rr_status r, rs_support_score = rr_support_score r, rs_risk_score = rr_risk_score r,
      rs_progressability_score = rr_progressability_score r, rs_route_node_ids = rr_route_node_ids r,
      rs_route_edge_ids = rv_route_edge_ids r, rs_canonical_present = rv_canonical_present r,
      rs_canonical_valid = rv_canonical_valid r, rs_canonical_error = rv_canonical_error r\<rparr>"

definition take_snapshot :: "string \<Rightarrow> snapshot store_proc" where
  "take_snapshot workspace_id =
     and_then (list_graph_nodes workspace_id) (\<lambda>nodes.
     and_then (list_graph_edges workspace_id) (\<lambda>edges.
     and_then (list_routes workspace_id) (\<lambda>routes.
     ret \<lparr>sn_nodes = map (\<lambda>n. (nd_node_id n, nd_status n, nd_node_type n)) nodes,
          sn_edges = map (\<lambda>e. (eg_edge_id e, eg_status e, eg_edge_type e)) edges,
          sn_routes = map (\<lambda>r. (rr_route_id r, route_snap_of r)) routes\<rparr>)))"

definition route_snap_payload :: "route_snap \<Rightarrow> payload" where
  "route_snap_payload r =
     [(''status'', VStr (rs_status r)), (''support_score'', VFloat (rs_support_score r)),
      (''risk_score'', VFloat (rs_risk_score r)),
      (''progressability_score'', VFloat (rs_progressability_score r)),
      (''route_node_ids'', id_list (rs_route_node_ids r)),
      (''route_edge_ids'', id_list (rs_route_edge_ids r)),
      (''route_edge_ids_canonical_present'', VBool (rs_canonical_present r)),
      (''route_edge_ids_canonical_valid'', VBool (rs_canonical_valid r)),
      (''route_edge_ids_canonical_error'', opt_str (rs_canonical_error r))]"

definition typed_payload :: "string \<Rightarrow> string \<times> string \<times> string \<Rightarrow> string \<times> pyval" where
  "typed_payload type_field =
     (\<lambda>(i, status, ty). (i, VDict [(''status'', VStr status), (type_field, VStr ty)]))"

definition snapshot_payload :: "snapshot \<Rightarrow> payload" where
  "snapshot_payload sn =
     [(''nodes'', VDict (map (typed_payload ''node_type'') (sn_nodes sn))),
      (''edges'', VDict (map (typed_payload ''edge_type'') (sn_edges sn))),
      (''routes'', VDict (map (\<lambda>(i, r). (i, VDict (route_snap_payload r))) (sn_routes sn))),
      (''routes_meta'', VList (map (\<lambda>(i, r). VDict [(''route_id'', VStr i)]) (sn_routes sn)))]"

section \<open>The impact on routes\<close>

text \<open>
  A list of ids in the impact summary. The summary may come from the event log; a value there that
  is not a list of strings is \<open>Unmodelled\<close>.
\<close>

definition impact_ids :: "payload \<Rightarrow> string \<Rightarrow> api_error + string list" where
  "impact_ids impacted k =
     (case get_or impacted k (VList []) of
        VList xs \<Rightarrow> if list_all is_str xs then Inr (map str_of xs) else Inl (ConversionError Unmodelled)
      | _ \<Rightarrow> Inl (ConversionError Unmodelled))"

definition diff_unavailable :: "string \<Rightarrow> string \<Rightarrow> api_error" where
  "diff_unavailable route_id reason =
     ServiceError 409 ''research.version_diff_unavailable''
       ''route impact unavailable due to missing canonical replay source''
       [(''route_id'', VStr route_id), (''reason'', VStr reason)]"

definition route_impact_of ::
  "string option \<Rightarrow> (string \<times> route_snap) list \<Rightarrow> (string \<times> route_snap) list \<Rightarrow> string list \<Rightarrow> string list \<Rightarrow>
   string \<Rightarrow> api_error + route_impact list"
where
  "route_impact_of base_version_id before_routes after_routes impacted_node_ids impacted_edge_ids route_id =
     (case map_of after_routes route_id of
        None \<Rightarrow> Inr []
      | Some a \<Rightarrow>
          if \<not> rs_canonical_present a then Inl (diff_unavailable route_id ''missing'')
          else if \<not> rs_canonical_valid a then
            Inl (diff_unavailable route_id
              (case rs_canonical_error a of None \<Rightarrow> ''None'' | Some e \<Rightarrow> e))
          else
            (let route_edge_ids = rs_route_edge_ids a;
                 hit = filter (\<lambda>e. e \<in> set impacted_edge_ids) route_edge_ids
             in if route_edge_ids \<noteq> [] \<and> hit = [] then Inr []
                else Inr
                  [\<lparr>ri_route_id = route_id, ri_version_id = None, ri_base_version_id = base_version_id,
                    ri_status_before =
                      (case map_of before_routes route_id of None \<Rightarrow> ''missing'' | Some b \<Rightarrow> rs_status b),
                    ri_status_after = rs_status a, ri_route_edge_ids = route_edge_ids,
                    ri_impacted_edge_ids = hit,
                    ri_impacted_node_ids =
                      (if route_edge_ids = []
                       then filter (\<lambda>n. n \<in> set impacted_node_ids) (rs_route_node_ids a) else []),
                    ri_reason =
                      ''route impact derived from persisted route_edge_ids_json '' @
                      ''and persisted route/node status changes''\<rparr>]))"

definition changed_routes_of ::
  "(string \<times> route_snap) list \<Rightarrow> (string \<times> route_snap) list \<Rightarrow> string list"
where
  "changed_routes_of before_routes after_routes =
     filter (\<lambda>i. case (map_of before_routes i, map_of after_routes i) of
         (Some b, Some a) \<Rightarrow> b \<noteq> a | _ \<Rightarrow> False) (map fst after_routes)"

definition build_route_impacts ::
  "string option \<Rightarrow> payload \<Rightarrow> snapshot \<Rightarrow> snapshot \<Rightarrow> api_error + route_impact list"
where
  "build_route_impacts base_version_id impacted before after =
     rbind (impact_ids impacted ''affected_route_ids'') (\<lambda>impacted_route_ids.
     rbind (impact_ids impacted ''weakened_node_ids'') (\<lambda>weakened_nodes.
     rbind (impact_ids impacted ''invalidated_node_ids'') (\<lambda>invalidated_nodes.
     rbind (impact_ids impacted ''weakened_edge_ids'') (\<lambda>weakened_edges.
     rbind (impact_ids impacted ''invalidated_edge_ids'') (\<lambda>invalidated_edges.
     rbind
       (rmap (route_impact_of base_version_id (sn_routes before) (sn_routes after)
           (sorted_set (weakened_nodes @ invalidated_nodes))
           (sorted_set (weakened_edges @ invalidated_edges)))
         (sorted_set (impacted_route_ids @ changed_routes_of (sn_routes before) (sn_routes after))))
       (\<lambda>impacts. Inr (concat impacts)))))))"

definition merge_forced_diff_categories :: "payload \<Rightarrow> version_diff \<Rightarrow> api_error + version_diff" where
  "merge_forced_diff_categories impacted d =
     rbind (impact_ids impacted ''weakened_node_ids'') (\<lambda>weakened_nodes.
     rbind (impact_ids impacted ''invalidated_node_ids'') (\<lambda>invalidated_nodes.
     rbind (impact_ids impacted ''weakened_edge_ids'') (\<lambda>weakened_edges.
     rbind (impact_ids impacted ''invalidated_edge_ids'') (\<lambda>invalidated_edges.
     rbind (impact_ids impacted ''affected_route_ids'') (\<lambda>affected_routes.
     rbind (impact_ids impacted ''created_branch_node_ids'') (\<lambda>created_branch_nodes.
     rbind (impact_ids impacted ''branch_node_ids'') (\<lambda>branch_nodes.
     rbind (impact_ids impacted ''created_branch_edge_ids'') (\<lambda>created_branch_edges.
     rbind (impact_ids impacted ''branch_edge_ids'') (\<lambda>branch_edges.
     Inr (d\<lparr>vd_weakened_nodes := sorted_set (vd_weakened_nodes d @ weakened_nodes),
            vd_invalidated_nodes := sorted_set (vd_invalidated_nodes d @ invalidated_nodes),
            vd_weakened_edges := sorted_set (vd_weakened_edges d @ weakened_edges),
            vd_invalidated_edges := sorted_set (vd_invalidated_edges d @ invalidated_edges),
            vd_weakened_routes := sorted_set (vd_weakened_routes d @ affected_routes),
            vd_created_branch_node_ids :=
              sorted_set (vd_created_branch_node_ids d @ created_branch_nodes @ branch_nodes),
            vd_created_branch_edge_ids :=
              sorted_set (vd_created_branch_edge_ids d @ created_branch_edges @ branch_edges)\<rparr>))))))))))"

section \<open>The stored difference\<close>

definition route_impact_payload :: "route_impact \<Rightarrow> payload" where
  "route_impact_payload x =
     [(''route_id'', VStr (ri_route_id x)), (''version_id'', opt_str (ri_version_id x)),
      (''base_version_id'', opt_str (ri_base_version_id x)),
      (''status_before'', VStr (ri_status_before x)), (''status_after'', VStr (ri_status_after x)),
      (''route_edge_ids'', id_list (ri_route_edge_ids x)),
      (''impacted_edge_ids'', id_list (ri_impacted_edge_ids x)),
      (''impacted_node_ids'', id_list (ri_impacted_node_ids x)), (''reason'', VStr (ri_reason x))]"

definition score_change_payload :: "score_change \<Rightarrow> payload" where
  "score_change_payload c =
     [(''route_id'', VStr (sc_route_id c)),
      (''support_score_before'', VFloat (sc_support_before c)),
      (''support_score_after'', VFloat (sc_support_after c)),
      (''risk_score_before'', VFloat (sc_risk_before c)), (''risk_score_after'', VFloat (sc_risk_after c)),
      (''progressability_score_before'', VFloat (sc_progressability_before c)),
      (''progressability_score_after'', VFloat (sc_progressability_after c))]"

definition diff_payload_of :: "version_diff \<Rightarrow> payload" where
  "diff_payload_of d =
     [(''failure_id'', VStr (vd_failure_id d)), (''base_version_id'', opt_str (vd_base_version_id d)),
      (''new_version_id'', opt_str (vd_new_version_id d)),
      (''added'', VDict [(''nodes'', id_list (vd_added_nodes d)), (''edges'', id_list (vd_added_edges d))]),
      (''weakened'', VDict [(''nodes'', id_list (vd_weakened_nodes d)),
         (''edges'', id_list (vd_weakened_edges d)), (''routes'', id_list (vd_weakened_routes d))]),
      (''invalidated'', VDict [(''nodes'', id_list (vd_invalidated_nodes d)),
         (''edges'', id_list (vd_invalidated_edges d)), (''routes'', id_list (vd_invalidated_routes d))]),
      (''branch_changes'', VDict [(''created_branch_node_ids'', id_list (vd_created_branch_node_ids d)),
         (''created_branch_edge_ids'', id_list (vd_created_branch_edge_ids d))]),
      (''route_score_changes'', dicts (map score_change_payload (vd_route_score_changes d))),
      (''route_impacts'', dicts (map route_impact_payload (vd_route_impacts d)))]"

section \<open>The service\<close>

definition stamp_version :: "string \<Rightarrow> version_diff \<Rightarrow> version_diff" where
  "stamp_version version_id d =
     d\<lparr>vd_new_version_id := Some version_id,
       vd_route_impacts := map (\<lambda>x. x\<lparr>ri_version_id := Some version_id\<rparr>) (vd_route_impacts d)\<rparr>"

record recompute_result =
  rc_version_id :: string
  rc_diff :: version_diff
  rc_impact_summary :: payload

definition count :: "'x list \<Rightarrow> pyval" where
  "count xs = VInt (int (length xs))"

definition diff_events ::
  "string \<Rightarrow> string \<Rightarrow> string \<Rightarrow> string option \<Rightarrow> string \<Rightarrow> version_diff \<Rightarrow> snapshot \<Rightarrow> string list \<Rightarrow> event_row list"
where
  "diff_events workspace_id failure_id request_id job_id version_id d after route_ids =
     (let refs = [(''failure_id'', VStr failure_id), (''version_id'', VStr version_id),
            (''route_ids'', id_list route_ids),
            (''impacted_route_ids'', id_list (map ri_route_id (vd_route_impacts d)))]
      in [event_args ''diff_created'' (Some request_id) job_id (Some workspace_id) ''recompute_service''
            ''diff'' ''completed'' refs
            [(''added_node_count'', count (vd_added_nodes d)),
             (''weakened_node_count'', count (vd_weakened_nodes d)),
             (''invalidated_node_count'', count (vd_invalidated_nodes d)),
             (''branch_change_count'', count (vd_created_branch_node_ids d))] None,
          event_args ''recompute_completed'' (Some request_id) job_id (Some workspace_id)
            ''recompute_service'' ''recompute'' ''completed'' refs
            [(''new_version_id'', VStr version_id), (''route_count_after'', count (sn_routes after)),
             (''weakened_node_count'', count (vd_weakened_nodes d)),
             (''weakened_edge_count'', count (vd_weakened_edges d))] None])"

text \<open>From the new version on: it is stored, then stamped into the difference, the report, the routes
  and the workspace.\<close>

definition publish_version ::
  "string \<Rightarrow> string \<Rightarrow> string \<Rightarrow> string \<Rightarrow> string option \<Rightarrow> payload \<Rightarrow> snapshot \<Rightarrow> version_diff \<Rightarrow>
   recompute_result store_proc"
where
  "publish_version workspace_id failure_id reason request_id job_id impacted after diff0 =
     and_then
       (create_graph_version workspace_id ''recompute''
         (''recompute after failure '' @ failure_id @ '': '' @ reason) (diff_payload_of diff0)
         (Some request_id)) (\<lambda>created.
     and_then (require NoneSubscript created) (\<lambda>version.
     (let version_id = vs_version_id version;
          d = stamp_version version_id diff0
      in and_then now (\<lambda>t.
         and_then
           (update_failure_impact failure_id
             (dict_put ''version_id'' (VStr version_id)
               (dict_put ''route_impacts'' (dicts (map route_impact_payload (vd_route_impacts d))) impacted))
             (Some t)) (\<lambda>_.
         and_then (update_graph_version_diff_payload version_id (diff_payload_of d)) (\<lambda>_.
         and_then (set_routes_version_for_workspace workspace_id version_id) (\<lambda>_.
         and_then
           (upsert_graph_workspace workspace_id (Some version_id) ''ready''
             (int (length (sn_nodes after))) (int (length (sn_edges after)))) (\<lambda>_.
         and_then (list_routes workspace_id) (\<lambda>routes.
         and_then
           (fold_proc (\<lambda>e _. emit_event e)
             (diff_events workspace_id failure_id request_id job_id version_id d after
               (map rr_route_id routes)) ()) (\<lambda>_.
         ret \<lparr>rc_version_id = version_id, rc_diff = d, rc_impact_summary = impacted\<rparr>))))))))))"

definition rescore_routes :: "string \<Rightarrow> string \<Rightarrow> unit store_proc" where
  "rescore_routes workspace_id request_id =
     and_then (list_routes workspace_id) (\<lambda>routes.
       fold_proc (\<lambda>r _.
         and_then (score_route workspace_id (rr_route_id r) request_id None (rr_route_node_ids r))
           (\<lambda>_. ret ())) routes ())"

text \<open>The body of the \<^verbatim>\<open>try\<close> statement.\<close>

definition recompute_attempt ::
  "string \<Rightarrow> string \<Rightarrow> string \<Rightarrow> string \<Rightarrow> string option \<Rightarrow> string option \<Rightarrow> snapshot \<Rightarrow>
   recompute_result store_proc"
where
  "recompute_attempt workspace_id failure_id reason request_id job_id base_version_id before =
     and_then (list_routes workspace_id) (\<lambda>routes.
     and_then
       (check (ServiceError 409 ''research.invalid_state'' ''no persisted routes available for recompute''
         [(''workspace_id'', VStr workspace_id)]) (routes \<noteq> [])) (\<lambda>_.
     and_then (apply_failure workspace_id failure_id request_id) (\<lambda>impacted.
     and_then (rescore_routes workspace_id request_id) (\<lambda>_.
     and_then (take_snapshot workspace_id) (\<lambda>after.
     and_then (lift_result (build_route_impacts base_version_id impacted before after)) (\<lambda>route_impacts.
     and_then
       (lift_result (conversion_result
         (build_diff_payload failure_id base_version_id None (snapshot_payload before)
           (snapshot_payload after) route_impacts))) (\<lambda>diff_payload.
     and_then (lift_result (merge_forced_diff_categories impacted diff_payload)) (\<lambda>diff0.
     publish_version workspace_id failure_id reason request_id job_id impacted after diff0))))))))"

definition emit_recompute_failed ::
  "string \<Rightarrow> string \<Rightarrow> string \<Rightarrow> string option \<Rightarrow> api_error \<Rightarrow> unit store_proc"
where
  "emit_recompute_failed workspace_id failure_id request_id job_id e =
     (case e of
        ServiceError status_code error_code message details \<Rightarrow>
          emit_event (event_args ''recompute_completed'' (Some request_id) job_id (Some workspace_id)
            ''recompute_service'' ''recompute'' ''failed'' [(''failure_id'', VStr failure_id)] []
            (Some [(''error_code'', VStr error_code), (''message'', VStr message),
                   (''details'', VDict details)]))
      | _ \<Rightarrow> ret ())"

definition recompute_from_failure ::
  "string \<Rightarrow> string \<Rightarrow> string \<Rightarrow> string \<Rightarrow> string option \<Rightarrow> recompute_result store_proc"
where
  "recompute_from_failure workspace_id failure_id reason request_id job_id =
     and_then (get_failure failure_id) (\<lambda>found.
     and_then
       (require (ServiceError 404 ''research.not_found'' ''failure not found''
         [(''failure_id'', VStr failure_id)]) found) (\<lambda>failure.
     and_then
       (check (ServiceError 409 ''research.conflict'' ''workspace_id does not match failure ownership''
         [(''failure_id'', VStr failure_id)]) (fr_workspace_id failure = workspace_id)) (\<lambda>_.
     and_then (list_graph_nodes workspace_id) (\<lambda>graph_nodes.
     and_then
       (check (ServiceError 409 ''research.invalid_state'' ''graph is not ready for recompute''
         [(''workspace_id'', VStr workspace_id)]) (graph_nodes \<noteq> [])) (\<lambda>_.
     and_then (take_snapshot workspace_id) (\<lambda>before.
     and_then (get_graph_workspace workspace_id) (\<lambda>graph_workspace.
     (let base_version_id =
            (case graph_workspace of
               None \<Rightarrow> None
             | Some gw \<Rightarrow> if truthy (ws_latest_version_id gw) then ws_latest_version_id gw else None)
      in and_then (list_graph_edges workspace_id) (\<lambda>graph_edges.
         and_then
           (emit_event (event_args ''recompute_started'' (Some request_id) job_id (Some workspace_id)
             ''recompute_service'' ''recompute'' ''started''
             [(''failure_id'', VStr failure_id), (''base_version_id'', opt_str base_version_id),
              (''route_ids'', id_list (map fst (sn_routes before)))]
             [(''trigger'', VStr ''failure_attach''), (''reason'', VStr reason),
              (''affected_node_count'', count graph_nodes),
              (''affected_edge_count'', count graph_edges)] None)) (\<lambda>_.
         on_error
           (recompute_attempt workspace_id failure_id reason request_id job_id base_version_id before)
           (emit_recompute_failed workspace_id failure_id request_id job_id)))))))))))"

end
