(* ===== verification/RecomputeProps.thy ===== *)
theory RecomputeProps
  imports Recompute
begin

text \<open>
  What recomputing a workspace does to the store: it stays within its workspace, it publishes exactly
  one version when it returns, and none when it raises its own exception.
\<close>

section \<open>Staying within the workspace\<close>

definition elsewhere_same :: "string \<Rightarrow> string \<Rightarrow> store \<Rightarrow> store \<Rightarrow> bool" where
  "elsewhere_same w f s s' \<longleftrightarrow>
     filter (\<lambda>r. nd_workspace_id r \<noteq> w) (node_rows s') = filter (\<lambda>r. nd_workspace_id r \<noteq> w) (node_rows s) \<and>
     filter (\<lambda>r. eg_workspace_id r \<noteq> w) (edge_rows s') = filter (\<lambda>r. eg_workspace_id r \<noteq> w) (edge_rows s) \<and>
     filter (\<lambda>r. rr_workspace_id r \<noteq> w) (route_rows s') = filter (\<lambda>r. rr_workspace_id r \<noteq> w) (route_rows s) \<and>
     filter (\<lambda>r. fr_failure_id r \<noteq> f) (failure_rows s') = filter (\<lambda>r. fr_failure_id r \<noteq> f) (failure_rows s) \<and>
     filter (\<lambda>e. evt_workspace_id e \<noteq> Some w) (event_rows s') = filter (\<lambda>e. evt_workspace_id e \<noteq> Some w) (event_rows s) \<and>
     filter (\<lambda>r. vs_workspace_id r \<noteq> w) (version_rows s') = filter (\<lambda>r. vs_workspace_id r \<noteq> w) (version_rows s) \<and>
     filter (\<lambda>r. ws_workspace_id r \<noteq> w) (workspace_rows s') = filter (\<lambda>r. ws_workspace_id r \<noteq> w) (workspace_rows s) \<and>
     job_rows s' = job_rows s \<and> object_rows s' = object_rows s \<and> claim_rows s' = claim_rows s \<and> research s' = research s"

definition confined :: "string \<Rightarrow> string \<Rightarrow> store \<Rightarrow> store \<Rightarrow> bool" where
  "confined w f s s' \<longleftrightarrow> (wf_store s \<longrightarrow> wf_store s' \<and> elsewhere_same w f s s')"

text \<open>The same before anything is published.\<close>

definition unpublished :: "string \<Rightarrow> string \<Rightarrow> store \<Rightarrow> store \<Rightarrow> bool" where
  "unpublished w f s s' \<longleftrightarrow>
     (wf_store s \<longrightarrow> wf_store s' \<and> elsewhere_same w f s s' \<and>
        version_rows s' = version_rows s \<and> workspace_rows s' = workspace_rows s \<and>
        map rr_version_id (route_rows s') = map rr_version_id (route_rows s))"

interpretation confined_run: evolution "confined w f" for w f
  by unfold_locales (auto simp: confined_def elsewhere_same_def)

interpretation unpublished_run: evolution "unpublished w f" for w f
  by unfold_locales (auto simp: unpublished_def elsewhere_same_def)

lemma unpublished_confined: "unpublished w f s s' \<Longrightarrow> confined w f s s'"
  by (simp add: unpublished_def confined_def)

lemma unpublished_emit:
  assumes "evt_workspace_id args = Some w"
  shows "always (unpublished w f) (emit_event args)"
  unfolding always_def
proof
  fix s
  obtain r s' where e: "emit_event args s = (r, s')" by (cases "emit_event args s")
  from e show "unpublished w f s (snd (emit_event args s))"
    by (cases rule: emit_event_cases)
      (use e assms in \<open>auto simp: unpublished_def wf_store_def elsewhere_same_def\<close>)
qed

lemma unpublished_update_failure_impact:
  "always (unpublished w f) (update_failure_impact f d t)"
  unfolding update_failure_impact_def unpublished_run.always_writing
  by (auto simp: unpublished_def wf_store_def distinct_keys_update elsewhere_same_def filter_update_where)

lemma unpublished_get_failure: "always (unpublished w f) (get_failure f)"
  unfolding get_failure_def
  by (auto split: option.split prod.split
      intro!: unpublished_run.always_intros unpublished_update_failure_impact)

lemma unpublished_reads:
  "always (unpublished w f) (list_routes w')" "always (unpublished w f) (list_graph_nodes w')"
  "always (unpublished w f) (list_graph_edges w')" "always (unpublished w f) (get_graph_workspace w')"
  by (simp_all add: list_routes_def list_graph_nodes_def list_graph_edges_def get_graph_workspace_def
      unpublished_run.always_reading)

lemma unpublished_snapshot: "always (unpublished w f) (take_snapshot w')"
  unfolding take_snapshot_def
  by (intro unpublished_run.always_intros unpublished_reads)

lemma evolves_versions:
  assumes "evolves (route_ok w) (\<lambda>_. False) xs ys"
  shows "map rr_version_id ys = map rr_version_id xs"
proof -
  have "list_all2 (route_ok w) xs ys" using assms by (auto simp: evolves_def neq_Nil_conv)
  then show ?thesis by (induction rule: list_all2_induct) (auto simp: route_ok_def)
qed

lemma unpublished_apply_failure: "always (unpublished w f) (apply_failure w f q)"
  unfolding always_def
proof
  fix s
  let ?s' = "snd (apply_failure w f q s)"
  have step: "failure_step w f s ?s'" by (rule step_apply_failure)
  show "unpublished w f s ?s'"
    unfolding unpublished_def elsewhere_same_def
  proof
    assume wf: "wf_store s"
    then have "map rr_version_id (route_rows ?s') = map rr_version_id (route_rows s)"
      using step by (intro evolves_versions [of w]) (simp add: failure_step_def)
    then show "wf_store ?s' \<and>
      (filter (\<lambda>r. nd_workspace_id r \<noteq> w) (node_rows ?s') = filter (\<lambda>r. nd_workspace_id r \<noteq> w) (node_rows s) \<and>
       filter (\<lambda>r. eg_workspace_id r \<noteq> w) (edge_rows ?s') = filter (\<lambda>r. eg_workspace_id r \<noteq> w) (edge_rows s) \<and>
       filter (\<lambda>r. rr_workspace_id r \<noteq> w) (route_rows ?s') = filter (\<lambda>r. rr_workspace_id r \<noteq> w) (route_rows s) \<and>
       filter (\<lambda>r. fr_failure_id r \<noteq> f) (failure_rows ?s') = filter (\<lambda>r. fr_failure_id r \<noteq> f) (failure_rows s) \<and>
       filter (\<lambda>e. evt_workspace_id e \<noteq> Some w) (event_rows ?s') = filter (\<lambda>e. evt_workspace_id e \<noteq> Some w) (event_rows s) \<and>
       filter (\<lambda>r. vs_workspace_id r \<noteq> w) (version_rows ?s') = filter (\<lambda>r. vs_workspace_id r \<noteq> w) (version_rows s) \<and>
       filter (\<lambda>r. ws_workspace_id r \<noteq> w) (workspace_rows ?s') = filter (\<lambda>r. ws_workspace_id r \<noteq> w) (workspace_rows s) \<and>
       job_rows ?s' = job_rows s \<and> object_rows ?s' = object_rows s \<and> claim_rows ?s' = claim_rows s \<and> research ?s' = research s) \<and>
      version_rows ?s' = version_rows s \<and> workspace_rows ?s' = workspace_rows s \<and>
      map rr_version_id (route_rows ?s') = map rr_version_id (route_rows s)"
      using failure_step_isolates [OF step wf] by simp
  qed
qed

lemma filter_update_row:
  assumes "distinct (map rr_route_id rows)" "select_key rr_route_id k rows = Some r" "rr_workspace_id r = w"
    and "\<And>r. rr_workspace_id (g r) = rr_workspace_id r"
  shows "filter (\<lambda>r. rr_workspace_id r \<noteq> w) (update_where (\<lambda>r. rr_route_id r = k) g rows) =
    filter (\<lambda>r. rr_workspace_id r \<noteq> w) rows"
proof -
  have "rr_workspace_id q = w" if "q \<in> set rows" "rr_route_id q = k" for q
    using selected_row [OF assms(1,2) that] assms(3) by simp
  then show ?thesis
    using assms(4) by (induction rows) auto
qed

lemma unpublished_store_scores:
  assumes "select_key rr_route_id k (route_rows s) = Some r" "rr_workspace_id r = w"
  shows "unpublished w f s (snd (store_scores w k q focus t nds dims s))"
proof -
  have upd: "unpublished w f s (snd (update_route_scores k a b c i tops bd nb s))" for a b c i tops bd nb
    using assms
    by (auto simp: keys_update_where update_route_scores_def and_then_def proc_simps Let_def unpublished_def wf_store_def
        distinct_keys_update elsewhere_same_def filter_update_row split: prod.split)
  have emit: "always (unpublished w f)
      (emit_event (event_args n q' j (Some w) c st stat refs ms e))" for n q' j c st stat refs ms e
    by (rule unpublished_emit) simp
  show ?thesis
    unfolding store_scores_def Let_def split_beta
    by (rule unpublished_run.step_and_then, rule upd, rule alwaysD)
      (intro unpublished_run.always_intros emit)
qed

lemma unpublished_score_route: "always (unpublished w f) (score_route w k q i focus)"
  unfolding score_route_def
proof (rule unpublished_run.always_on_error)
  show "always (unpublished w f) (score_route_body w k q i focus)"
    unfolding always_def
  proof
    fix s
    obtain res s' where b: "score_route_body w k q i focus s = (res, s')"
      by (cases "score_route_body w k q i focus s")
    from b show "unpublished w f s (snd (score_route_body w k q i focus s))"
    proof (cases rule: score_route_body_cases)
      case (refused e)
      then show ?thesis using b by (simp add: unpublished_run.refl)
    next
      case (stored r t nds dims)
      then show ?thesis using b unpublished_store_scores [OF stored(1,2), of f q focus t nds dims] by simp
    qed
  qed
  show "always (unpublished w f) (emit_failure_event q w k focus e)" for e
    unfolding emit_failure_event_def
    by (cases e) (auto intro!: unpublished_run.always_intros unpublished_emit)
qed

lemma unpublished_rescore: "always (unpublished w f) (rescore_routes w q)"
  unfolding rescore_routes_def
  by (intro unpublished_run.always_intros unpublished_reads unpublished_score_route)

section \<open>Publishing\<close>

text \<open>The state after the version is stored and stamped, before the two events.\<close>

definition published :: "string \<Rightarrow> string \<Rightarrow> payload \<Rightarrow> version_row \<Rightarrow> workspace_row \<Rightarrow> store \<Rightarrow> store \<Rightarrow> bool" where
  "published w f summary v g s s' \<longleftrightarrow>
     version_rows s' = version_rows s @ [v] \<and>
     route_rows s' = update_where (\<lambda>r. rr_workspace_id r = w)
       (\<lambda>r. r\<lparr>rr_version_id := Some (vs_version_id v)\<rparr>) (route_rows s) \<and>
     select_key ws_workspace_id w (workspace_rows s') = Some g \<and>
     filter (\<lambda>r. ws_workspace_id r \<noteq> w) (workspace_rows s') = filter (\<lambda>r. ws_workspace_id r \<noteq> w) (workspace_rows s) \<and>
     node_rows s' = node_rows s \<and> edge_rows s' = edge_rows s \<and>
     (\<exists>t. failure_rows s' = update_where (\<lambda>r. fr_failure_id r = f)
       (\<lambda>r. r\<lparr>fr_impact_summary := summary, fr_impact_updated_at := Some t\<rparr>) (failure_rows s)) \<and>
     job_rows s' = job_rows s \<and> object_rows s' = object_rows s \<and> claim_rows s' = claim_rows s \<and> research s' = research s"

lemma published_events:
  "published w f m v g s s' \<Longrightarrow> published w f m v g s (s'\<lparr>drawn := d, ticks := t, event_rows := es\<rparr>)"
  by (simp add: published_def)

definition upserted :: "workspace_row \<Rightarrow> workspace_row list \<Rightarrow> workspace_row list" where
  "upserted g rows =
     (if ws_workspace_id g \<in> ws_workspace_id ` set rows
      then update_where (\<lambda>r. ws_workspace_id r = ws_workspace_id g) (\<lambda>_. g) rows else rows @ [g])"

lemma select_upserted: "select_key ws_workspace_id (ws_workspace_id g) (upserted g rows) = Some g"
proof (cases "ws_workspace_id g \<in> ws_workspace_id ` set rows")
  case True
  have "ws_workspace_id g \<in> ws_workspace_id ` set rows \<Longrightarrow> select_key ws_workspace_id (ws_workspace_id g)
      (update_where (\<lambda>r. ws_workspace_id r = ws_workspace_id g) (\<lambda>_. g) rows) = Some g"
    by (induction rows) auto
  then show ?thesis using True by (simp add: upserted_def)
qed (simp add: upserted_def select_key_append select_key_fresh)

lemma filter_upserted:
  "filter (\<lambda>r. ws_workspace_id r \<noteq> ws_workspace_id g) (upserted g rows) =
   filter (\<lambda>r. ws_workspace_id r \<noteq> ws_workspace_id g) rows"
  by (simp add: upserted_def filter_update_where)

lemma upsert_apply:
  "upsert_graph_workspace w v st n e s =
     (let g = \<lparr>ws_workspace_id = w, ws_latest_version_id = v, ws_status = st, ws_node_count = n,
          ws_edge_count = e, ws_updated_at = clock s (ticks s)\<rparr>
      in (Inr (Some g), s\<lparr>ticks := Suc (ticks s), workspace_rows := upserted g (workspace_rows s)\<rparr>))"
  using select_upserted [of "\<lparr>ws_workspace_id = w, ws_latest_version_id = v, ws_status = st,
      ws_node_count = n, ws_edge_count = e, ws_updated_at = clock s (ticks s)\<rparr>" "workspace_rows s"]
  by (auto simp: upsert_graph_workspace_def get_graph_workspace_def and_then_apply proc_simps Let_def
      upserted_def)

text \<open>Ids that are still to be drawn are new.\<close>

definition fresh_events :: "store \<Rightarrow> bool" where
  "fresh_events s \<longleftrightarrow>
     inj (hex_supply s) \<and>
     (\<forall>n \<ge> drawn s. ''event_'' @ hex_supply s n \<notin> evt_event_id ` set (event_rows s))"

lemma fresh_events_add:
  assumes "fresh_events s" "event_rows s' = event_rows s @ [x]" "evt_event_id x = ''event_'' @ hex_supply s (drawn s)"
    and "hex_supply s' = hex_supply s" "drawn s' = Suc (drawn s)"
  shows "fresh_events s'"
proof -
  have i: "inj (hex_supply s)" and n: "\<And>n. drawn s \<le> n \<Longrightarrow>
      ''event_'' @ hex_supply s n \<notin> evt_event_id ` set (event_rows s)"
    using assms(1) unfolding fresh_events_def by blast+
  have "hex_supply s m \<noteq> hex_supply s (drawn s)" if "Suc (drawn s) \<le> m" for m
    using that injD [OF i, of m "drawn s"] by auto
  then have x: "''event_'' @ hex_supply s m \<noteq> evt_event_id x" if "Suc (drawn s) \<le> m" for m
    using that unfolding assms(3) by simp
  show ?thesis
    unfolding fresh_events_def assms(2,4,5)
  proof (intro conjI allI impI)
    fix m
    assume m: "Suc (drawn s) \<le> m"
    then have "drawn s \<le> m" by simp
    from n [OF this] x [OF m] show "''event_'' @ hex_supply s m \<notin> evt_event_id ` set (event_rows s @ [x])"
      by (simp only: set_append image_Un list.set image_insert image_empty Un_iff insert_iff empty_iff) simp
  qed (rule i)
qed

lemma fresh_events_keep:
  assumes "fresh_events s" "event_rows s' = event_rows s" "hex_supply s' = hex_supply s" "drawn s \<le> drawn s'"
  shows "fresh_events s'"
  using assms(1) unfolding fresh_events_def assms(2,3) using order_trans [OF assms(4)] by simp

lemma fresh_events_next: "fresh_events s \<Longrightarrow> ''event_'' @ hex_supply s (drawn s) \<notin> evt_event_id ` set (event_rows s)"
  unfolding fresh_events_def by blast

definition fresh_versions :: "store \<Rightarrow> bool" where
  "fresh_versions s \<longleftrightarrow>
     (\<forall>n \<ge> drawn s. ''ver_'' @ hex_supply s n \<notin> vs_version_id ` set (version_rows s))"

lemma two_events:
  assumes "fold_proc (\<lambda>e _. emit_event e) [a, b] () s = (res, s')"
    and "evt_workspace_id a = Some w" "evt_workspace_id b = Some w"
  obtains (taken) x d t es where "res = Inl (IntegrityError x)"
      and "s' = s\<lparr>drawn := d, ticks := t, event_rows := event_rows s @ es\<rparr>"
      and "\<forall>e \<in> set es. evt_workspace_id e = Some w" and "wf_store s \<longrightarrow> wf_store s'"
      and "\<not> fresh_events s"
  | (added) e1 e2 d t where "res = Inr ()"
      and "s' = s\<lparr>drawn := d, ticks := t, event_rows := event_rows s @ [e1, e2]\<rparr>"
      and "evt_event_name e1 = evt_event_name a" and "evt_event_name e2 = evt_event_name b"
      and "evt_workspace_id e1 = Some w" and "evt_workspace_id e2 = Some w"
      and "evt_status e2 = evt_status b" and "wf_store s \<longrightarrow> wf_store s'"
proof -
  obtain r1 s1 where e1: "emit_event a s = (r1, s1)" by (cases "emit_event a s")
  from e1 show thesis
  proof (cases rule: emit_event_cases)
    case (taken k)
    then show thesis
      using assms(1) e1 by (intro that(1) [where es = "[]"]) (auto simp: and_then_def wf_store_def fresh_events_def)
  next
    case a: (added x)
    obtain r2 s2 where e2: "emit_event b s1 = (r2, s2)" by (cases "emit_event b s1")
    from e2 show thesis
    proof (cases rule: emit_event_cases)
      case (taken k)
      have clash: "\<not> fresh_events s"
      proof
        assume "fresh_events s"
        then have "fresh_events s1" by (rule fresh_events_add) (use a in simp_all)
        then show False using taken(3) fresh_events_next by blast
      qed
      show thesis
        by (intro that(1) [where es = "[x]" and d = "Suc (Suc (drawn s))" and t = "Suc (Suc (ticks s))"])
          (use assms e1 e2 a taken clash in \<open>auto simp: and_then_def wf_store_def\<close>)
    next
      case b: (added y)
      show thesis
        by (rule that(2) [where ?e1.0 = x and ?e2.0 = y])
          (use assms e1 e2 a b in \<open>auto simp: and_then_def ret_def wf_store_def\<close>)
    qed
  qed
qed

lemma create_graph_version_cases:
  assumes "create_graph_version w ty sm p q s = (r, s')"
  obtains (taken) e where "r = Inl (IntegrityError e)"
      and "s' = s\<lparr>drawn := Suc (drawn s), ticks := Suc (ticks s)\<rparr>"
      and "''ver_'' @ hex_supply s (drawn s) \<in> vs_version_id ` set (version_rows s)"
  | (created) v where "r = Inr (Some v)"
      and "s' = s\<lparr>drawn := Suc (drawn s), ticks := Suc (ticks s), version_rows := version_rows s @ [v]\<rparr>"
      and "vs_version_id v \<notin> vs_version_id ` set (version_rows s)"
      and "vs_workspace_id v = w" and "vs_trigger_type v = ty" and "vs_change_summary v = sm"
      and "vs_diff_payload v = p" and "vs_request_id v = q"
  using assms
  by (auto simp: create_graph_version_def get_graph_version_def and_then_def proc_simps insert_row_def
      select_key_append select_key_fresh split: if_splits)

lemma update_new_row:
  assumes "vs_version_id v \<notin> vs_version_id ` set rows"
  shows "update_where (\<lambda>r. vs_version_id r = vs_version_id v) g (rows @ [v]) = rows @ [g v]"
proof -
  have "update_where (\<lambda>r. vs_version_id r = vs_version_id v) g rows = rows"
    using assms by (intro update_where_id) (metis image_eqI)
  then show ?thesis by simp
qed

lemma writing_tables:
  "writing (version_rows_update f) s = (Inr (), s\<lparr>version_rows := f (version_rows s)\<rparr>)"
  "writing (failure_rows_update g) s = (Inr (), s\<lparr>failure_rows := g (failure_rows s)\<rparr>)"
  "writing (route_rows_update h) s = (Inr (), s\<lparr>route_rows := h (route_rows s)\<rparr>)"
  by (cases s; simp add: writing_apply)+

definition published_version :: "version_row \<Rightarrow> string \<Rightarrow> version_diff \<Rightarrow> bool" where
  "published_version v w d \<longleftrightarrow>
     vs_workspace_id v = w \<and> vs_trigger_type v = ''recompute'' \<and>
     vs_diff_payload v = diff_payload_of d \<and> vd_new_version_id d = Some (vs_version_id v) \<and>
     list_all (\<lambda>x. ri_version_id x = Some (vs_version_id v)) (vd_route_impacts d)"

definition published_workspace :: "workspace_row \<Rightarrow> string \<Rightarrow> snapshot \<Rightarrow> bool" where
  "published_workspace g i after \<longleftrightarrow>
     ws_latest_version_id g = Some i \<and> ws_status g = ''ready'' \<and>
     ws_node_count g = int (length (sn_nodes after)) \<and> ws_edge_count g = int (length (sn_edges after))"

lemma publish_up_to_events:
  assumes "publish_version w f reason q j im after d0 s = (res, s')"
  obtains (taken) e where "res = Inl (IntegrityError e)"
      and "s' = s\<lparr>drawn := Suc (drawn s), ticks := Suc (ticks s)\<rparr>"
      and "''ver_'' @ hex_supply s (drawn s) \<in> vs_version_id ` set (version_rows s)"
  | (stored) v g m s1 ids where "published w f m v g s s1" and "event_rows s1 = event_rows s"
      and "hex_supply s1 = hex_supply s" and "drawn s1 = Suc (drawn s)"
      and "published_version v w (stamp_version (vs_version_id v) d0)"
      and "published_workspace g (vs_version_id v) after"
      and "(res, s') = (case fold_proc (\<lambda>e _. emit_event e)
          (diff_events w f q j (vs_version_id v) (stamp_version (vs_version_id v) d0) after ids) () s1 of
            (Inl e, s2) \<Rightarrow> (Inl e, s2)
          | (Inr u, s2) \<Rightarrow> (Inr \<lparr>rc_version_id = vs_version_id v,
              rc_diff = stamp_version (vs_version_id v) d0, rc_impact_summary = im\<rparr>, s2))"
proof -
  let ?p = "create_graph_version w ''recompute'' (''recompute after failure '' @ f @ '': '' @ reason)
    (diff_payload_of d0) (Some q)"
  obtain r1 s1 where c: "?p s = (r1, s1)" by (cases "?p s")
  from c show thesis
  proof (cases rule: create_graph_version_cases)
    case (taken e)
    then have "res = Inl (IntegrityError e)" "s' = s1"
      using assms c by (simp_all add: publish_version_def and_then_apply)
    then show thesis using taken(2,3) that(1) by blast
  next
    case (created v)
    let ?d = "stamp_version (vs_version_id v) d0"
    let ?v = "v\<lparr>vs_diff_payload := diff_payload_of ?d\<rparr>"
    let ?m = "dict_put ''version_id'' (VStr (vs_version_id v))
      (dict_put ''route_impacts'' (dicts (map route_impact_payload (vd_route_impacts ?d))) im)"
    let ?g = "\<lparr>ws_workspace_id = w, ws_latest_version_id = Some (vs_version_id v), ws_status = ''ready'',
      ws_node_count = int (length (sn_nodes after)), ws_edge_count = int (length (sn_edges after)),
      ws_updated_at = clock s (Suc (Suc (ticks s)))\<rparr>"
    let ?t = "clock s (Suc (ticks s))"
    let ?fr = "update_where (\<lambda>r. fr_failure_id r = f)
      (\<lambda>r. r\<lparr>fr_impact_summary := ?m, fr_impact_updated_at := Some ?t\<rparr>) (failure_rows s)"
    let ?rr = "update_where (\<lambda>r. rr_workspace_id r = w)
      (\<lambda>r. r\<lparr>rr_version_id := Some (vs_version_id v)\<rparr>) (route_rows s)"
    let ?s1 = "s\<lparr>drawn := Suc (drawn s), failure_rows := ?fr, version_rows := version_rows s @ [?v],
      route_rows := ?rr, ticks := Suc (Suc (Suc (ticks s))), workspace_rows := upserted ?g (workspace_rows s)\<rparr>"
    have pub: "published w f ?m ?v ?g s ?s1"
      using select_upserted [of ?g "workspace_rows s"] filter_upserted [of ?g "workspace_rows s"]
      unfolding published_def by auto
    have v: "published_version ?v w (stamp_version (vs_version_id ?v) d0)"
      using created by (simp add: published_version_def stamp_version_def list_all_iff)
    have run: "(res, s') = (case fold_proc (\<lambda>e _. emit_event e)
          (diff_events w f q j (vs_version_id ?v) (stamp_version (vs_version_id ?v) d0) after
            (map rr_route_id (map route_view_of (filter (\<lambda>r. rr_workspace_id r = w) ?rr)))) () ?s1 of
            (Inl e, s2) \<Rightarrow> (Inl e, s2)
          | (Inr u, s2) \<Rightarrow> (Inr \<lparr>rc_version_id = vs_version_id ?v, rc_diff = (stamp_version (vs_version_id ?v) d0), rc_impact_summary = im\<rparr>, s2))"
      using assms c created update_new_row [OF created(3)]
      by (simp add: publish_version_def and_then_apply proc_simps Let_def now_def update_failure_impact_def
          update_graph_version_diff_payload_def get_graph_version_def set_routes_version_for_workspace_def
          upsert_apply writing_tables select_key_append select_key_fresh
          split: prod.splits sum.splits del: writing_apply)
    show thesis
      by (rule that(2) [OF pub _ _ _ v _ run]) (simp_all add: published_workspace_def)
  qed
qed

lemma published_confined:
  assumes "published w f m v g s s1" "vs_workspace_id v = w" "event_rows s1 = event_rows s"
  shows "confined w f s s1"
  using assms
  by (auto simp: published_def confined_def elsewhere_same_def wf_store_def distinct_keys_update
      filter_update_where)

lemma publish_version_cases:
  assumes "publish_version w f reason q j im after d0 s = (res, s')"
  obtains (taken) e where "res = Inl (IntegrityError e)" and "confined w f s s'"
      and "\<not> (fresh_events s \<and> fresh_versions s)"
  | (fresh) v g m r e1 e2 where "res = Inr r" and "confined w f s s'"
      and "published w f m v g s s'" and "published_version v w (rc_diff r)"
      and "published_workspace g (vs_version_id v) after" and "rc_version_id r = vs_version_id v"
      and "event_rows s' = event_rows s @ [e1, e2]"
      and "evt_event_name e1 = ''diff_created''" and "evt_event_name e2 = ''recompute_completed''"
      and "evt_workspace_id e1 = Some w" and "evt_workspace_id e2 = Some w"
      and "evt_status e2 = ''completed''"
  using assms
proof (cases rule: publish_up_to_events)
  case (taken e)
  then show thesis
    by (intro that(1)) (auto simp: confined_def wf_store_def elsewhere_same_def fresh_versions_def)
next
  case (stored v g m s1 ids)
  let ?d = "stamp_version (vs_version_id v) d0"
  have c: "confined w f s s1"
    using stored(1,2,5) by (auto simp: published_version_def intro: published_confined)
  obtain a b where ab: "diff_events w f q j (vs_version_id v) ?d after ids = [a, b]"
    "evt_workspace_id a = Some w" "evt_workspace_id b = Some w" "evt_event_name a = ''diff_created''"
    "evt_event_name b = ''recompute_completed''" "evt_status b = ''completed''"
    by (simp add: diff_events_def Let_def)
  obtain r2 s2 where em: "fold_proc (\<lambda>e _. emit_event e) [a, b] () s1 = (r2, s2)"
    by (cases "fold_proc (\<lambda>e _. emit_event e) [a, b] () s1")
  have out: "(res, s') = (case r2 of Inl e \<Rightarrow> (Inl e, s2)
      | Inr u \<Rightarrow> (Inr \<lparr>rc_version_id = vs_version_id v, rc_diff = ?d, rc_impact_summary = im\<rparr>, s2))"
    using stored(7) unfolding ab(1) em by (simp split: sum.splits)
  from em ab(2,3) show thesis
  proof (cases rule: two_events)
    case (taken x d t es)
    have "confined w f s1 s2"
      using taken(2-4) by (auto simp: confined_def elsewhere_same_def)
    then have "confined w f s s2" using c confined_run.trans by blast
    moreover have "\<not> fresh_events s"
      using taken(5) stored(2-4) fresh_events_keep [of s s1] by auto
    ultimately show thesis using out taken(1) by (intro that(1)) auto
  next
    case (added e1 e2 d t)
    have "confined w f s1 s2"
      using added by (auto simp: confined_def elsewhere_same_def)
    then have "confined w f s s2" using c confined_run.trans by blast
    moreover have "published w f m v g s s2"
      unfolding added(2) by (rule published_events [OF stored(1)])
    ultimately show thesis
      using out added ab stored by (intro that(2)) auto
  qed
qed

section \<open>The whole run\<close>

text \<open>The run up to publishing: it stops with an exception, or goes on in a state that has published
  nothing yet.\<close>

lemma and_then_cases:
  assumes "and_then m f s = (r, s')"
  obtains (stop) e where "m s = (Inl e, s')" and "r = Inl e"
  | (go) a s1 where "m s = (Inr a, s1)" and "f a s1 = (r, s')"
  using assms by (auto simp: and_then_apply split: prod.splits sum.splits)

definition snapshot_at :: "string \<Rightarrow> store \<Rightarrow> snapshot \<Rightarrow> bool" where
  "snapshot_at w s sn \<longleftrightarrow>
     map fst (sn_nodes sn) = map nd_node_id (filter (\<lambda>r. nd_workspace_id r = w) (node_rows s)) \<and>
     map fst (sn_edges sn) = map eg_edge_id (filter (\<lambda>r. eg_workspace_id r = w) (edge_rows s))"

lemma take_snapshot_apply: "\<exists>sn. take_snapshot w s = (Inr sn, s) \<and> snapshot_at w s sn"
  by (simp add: take_snapshot_def and_then_apply proc_simps list_graph_edges_def list_graph_nodes_def
      snapshot_at_def comp_def)

lemma always_run: "always R m \<Longrightarrow> m s = (r, s') \<Longrightarrow> R s s'"
  by (metis alwaysD snd_conv)

lemma lift_run: "lift_result x s = (r, s') \<Longrightarrow> s' = s"
  by (simp add: lift_result_def)

lemma recompute_attempt_cases:
  assumes "recompute_attempt w f reason q j base before s = (res, s')"
  obtains (stopped) e where "res = Inl e" and "unpublished w f s s'"
  | (publishing) im after d0 s1 where "unpublished w f s s1" and "snapshot_at w s1 after"
      and "publish_version w f reason q j im after d0 s1 = (res, s')"
proof -
  note steps = unpublished_run.trans [OF unpublished_run.trans]
  obtain b where b: "and_then (apply_failure w f q) b s = (res, s') \<or> (\<exists>e. res = Inl e \<and> s' = s)"
    "b = (\<lambda>impacted. and_then (rescore_routes w q) (\<lambda>_. and_then (take_snapshot w) (\<lambda>after.
       and_then (lift_result (build_route_impacts base impacted before after)) (\<lambda>route_impacts.
       and_then (lift_result (conversion_result (build_diff_payload f base None (snapshot_payload before)
         (snapshot_payload after) route_impacts))) (\<lambda>diff_payload.
       and_then (lift_result (merge_forced_diff_categories impacted diff_payload)) (\<lambda>diff0.
       publish_version w f reason q j impacted after diff0))))))"
    using assms by (auto simp: recompute_attempt_def and_then_apply [of "list_routes w"]
        and_then_apply [of "check e x" for e x] proc_simps split: if_splits)
  from b(1) show thesis
  proof
    assume "\<exists>e. res = Inl e \<and> s' = s"
    then show thesis using stopped unpublished_run.refl by blast
  next
    assume "and_then (apply_failure w f q) b s = (res, s')"
    then show thesis
    proof (cases rule: and_then_cases)
      case (stop e)
      then show thesis using stopped always_run [OF unpublished_apply_failure] by blast
    next
      case (go im s1)
      then have u1: "unpublished w f s s1" using always_run [OF unpublished_apply_failure] by blast
      from go(2) [unfolded b(2)] show thesis
      proof (cases rule: and_then_cases)
        case (stop e)
        then show thesis
          using stopped u1 always_run [OF unpublished_rescore] unpublished_run.trans by blast
      next
        case (go u s2)
        have u2: "unpublished w f s s2"
          using u1 always_run [OF unpublished_rescore go(1)] unpublished_run.trans by blast
        obtain sn where sn: "take_snapshot w s2 = (Inr sn, s2)" "snapshot_at w s2 sn"
          using take_snapshot_apply by blast
        show thesis
          using go(2) sn u2 stopped publishing [OF u2 sn(2)]
          by (auto simp: and_then_apply lift_result_apply split: sum.splits)
      qed
    qed
  qed
qed

text \<open>The run before the \<^verbatim>\<open>try\<close> statement writes at most the report and one event.\<close>

lemma recompute_entry:
  assumes "recompute_from_failure w f reason q j s = (res, s')"
  obtains (refused) e where "res = Inl e" and "unpublished w f s s'"
  | (tried) base before s1 where "unpublished w f s s1"
      and "on_error (recompute_attempt w f reason q j base before) (emit_recompute_failed w f q j) s1 = (res, s')"
proof -
  obtain found s0 where g: "get_failure f s = (found, s0)" by (cases "get_failure f s")
  have u0: "unpublished w f s s0" by (rule always_run [OF unpublished_get_failure g])
  obtain sn where sn: "take_snapshot w s0 = (Inr sn, s0)" using take_snapshot_apply by blast
  let ?gw = "select_key ws_workspace_id w (workspace_rows s0)"
  let ?base = "case ?gw of None \<Rightarrow> None
    | Some gw \<Rightarrow> if truthy (ws_latest_version_id gw) then ws_latest_version_id gw else None"
  let ?args = "event_args ''recompute_started'' (Some q) j (Some w) ''recompute_service'' ''recompute''
    ''started'' [(''failure_id'', VStr f), (''base_version_id'', opt_str ?base),
      (''route_ids'', id_list (map fst (sn_routes sn)))]
    [(''trigger'', VStr ''failure_attach''), (''reason'', VStr reason),
     (''affected_node_count'', count (map node_view (filter (\<lambda>r. nd_workspace_id r = w) (node_rows s0)))),
     (''affected_edge_count'', count (filter (\<lambda>r. eg_workspace_id r = w) (edge_rows s0)))] None"
  obtain r1 s1 where em: "emit_event ?args s0 = (r1, s1)" by (cases "emit_event ?args s0")
  have "unpublished w f s0 s1" by (rule always_run [OF unpublished_emit em]) simp
  then have u1: "unpublished w f s s1" using u0 unpublished_run.trans by blast
  have "(\<exists>e. res = Inl e \<and> s' = s0) \<or> (\<exists>e. res = Inl e \<and> s' = s1) \<or>
      on_error (recompute_attempt w f reason q j ?base sn) (emit_recompute_failed w f q j) s1 = (res, s')"
    using assms g sn em
    by (auto simp: recompute_from_failure_def and_then_apply proc_simps list_graph_nodes_def
        list_graph_edges_def get_graph_workspace_def Let_def split: sum.splits option.splits if_splits)
  then show thesis using that u0 u1 by blast
qed

lemma recompute_cases:
  assumes "recompute_from_failure w f reason q j s = (res, s')"
  obtains (refused) e where "res = Inl e" and "unpublished w f s s'"
  | (collision) e where "res = Inl (IntegrityError e)" and "confined w f s s'"
  | (completed) im after d0 s1 where "unpublished w f s s1" and "snapshot_at w s1 after"
      and "publish_version w f reason q j im after d0 s1 = (res, s')" and "\<exists>r. res = Inr r"
  using assms
proof (cases rule: recompute_entry)
  case (refused e)
  then show thesis by (rule that(1))
next
  case (tried base before s1)
  obtain r2 s2 where a: "recompute_attempt w f reason q j base before s1 = (r2, s2)"
    by (cases "recompute_attempt w f reason q j base before s1")
  have handler: "always (unpublished w f) (emit_recompute_failed w f q j e)" for e
    unfolding emit_recompute_failed_def
    by (cases e) (auto intro!: unpublished_run.always_intros unpublished_emit)
  from a show thesis
  proof (cases rule: recompute_attempt_cases)
    case (stopped e)
    obtain r3 s3 where h: "emit_recompute_failed w f q j e s2 = (r3, s3)"
      by (cases "emit_recompute_failed w f q j e s2")
    have "unpublished w f s s3"
      using tried(1) stopped(2) always_run [OF handler h] unpublished_run.trans by blast
    then show thesis
      using tried(2) a stopped(1) h that(1) by (auto simp: on_error_def split: sum.splits)
  next
    case (publishing im after d0 s3)
    have u: "unpublished w f s s3" using tried(1) publishing(1) unpublished_run.trans by blast
    from publishing(3) show thesis
    proof (cases rule: publish_version_cases)
      case (taken e)
      then have "res = Inl (IntegrityError e)" "s' = s2"
        using tried(2) a by (auto simp: on_error_def emit_recompute_failed_def ret_def)
      then show thesis
        using taken(2) unpublished_confined [OF u] confined_run.trans that(2) by blast
    next
      case (fresh v g m r e1 e2)
      then have "res = r2" "s' = s2" using tried(2) a by (auto simp: on_error_def)
      then show thesis using publishing u fresh(1) that(3) by blast
    qed
  qed
qed

lemma stamped_routes:
  "list_all (\<lambda>x. rr_workspace_id x = w \<longrightarrow> rr_version_id x = Some i)
    (update_where (\<lambda>r. rr_workspace_id r = w) (\<lambda>r. r\<lparr>rr_version_id := Some i\<rparr>) rows)"
  by (induction rows) auto

section \<open>Properties\<close>

text \<open>
  C4: A recomputation stays in its workspace. Whatever it returns or raises, keys stay unique, and
  the nodes, edges, routes, events, versions and summaries of every other workspace, all other
  failure reports, the jobs, the confirmed objects and the claims are as before.
\<close>

theorem recompute_isolation:
  assumes "wf_store s" and "s' = snd (recompute_from_failure w f reason q j s)"
  shows "wf_store s' \<and> elsewhere_same w f s s'"
proof -
  obtain res where r: "recompute_from_failure w f reason q j s = (res, s')"
    using assms(2) by (metis prod.collapse)
  from r have "confined w f s s'"
  proof (cases rule: recompute_cases)
    case (completed im after d0 s1)
    then have "confined w f s1 s'" by (auto elim: publish_version_cases)
    then show ?thesis using unpublished_confined [OF completed(1)] confined_run.trans by blast
  qed (auto intro: unpublished_confined)
  then show ?thesis using assms(1) by (simp add: confined_def)
qed

text \<open>
  C3: A recomputation that returns publishes exactly one version: the version table has one more row,
  of this workspace, whose difference is the returned one and names the version, also in each of its
  route impacts; every route of the workspace carries the version; the workspace is ready at the
  version, with the number of its nodes and edges; and the log ends with the events of the
  difference and of the completed recomputation.
\<close>

theorem recompute_publishes:
  assumes "wf_store s" and "recompute_from_failure w f reason q j s = (Inr r, s')"
  shows "\<exists>v g es e1 e2. version_rows s' = version_rows s @ [v] \<and> vs_version_id v = rc_version_id r \<and>
    published_version v w (rc_diff r) \<and>
    list_all (\<lambda>x. rr_workspace_id x = w \<longrightarrow> rr_version_id x = Some (rc_version_id r)) (route_rows s') \<and>
    select_key ws_workspace_id w (workspace_rows s') = Some g \<and>
    ws_latest_version_id g = Some (rc_version_id r) \<and> ws_status g = ''ready'' \<and>
    ws_node_count g = int (length (filter (\<lambda>x. nd_workspace_id x = w) (node_rows s'))) \<and>
    ws_edge_count g = int (length (filter (\<lambda>x. eg_workspace_id x = w) (edge_rows s'))) \<and>
    event_rows s' = es @ [e1, e2] \<and> evt_event_name e1 = ''diff_created'' \<and>
    evt_event_name e2 = ''recompute_completed'' \<and> evt_status e2 = ''completed''"
  using assms(2)
proof (cases rule: recompute_cases)
  case (completed im after d0 s1)
  have n: "length (sn_nodes after) = length (filter (\<lambda>x. nd_workspace_id x = w) (node_rows s1))"
    "length (sn_edges after) = length (filter (\<lambda>x. eg_workspace_id x = w) (edge_rows s1))"
    using completed(2) by (auto simp: snapshot_at_def dest: map_eq_imp_length_eq)
  have v: "version_rows s1 = version_rows s" using completed(1) assms(1) by (simp add: unpublished_def)
  from completed(3) show ?thesis
  proof (cases rule: publish_version_cases)
    case (fresh v g m r' e1 e2)
    have i: "rc_version_id r = vs_version_id v" "r' = r" using fresh by auto
    have p: "version_rows s' = version_rows s @ [v]" "node_rows s' = node_rows s1" "edge_rows s' = edge_rows s1"
      "select_key ws_workspace_id w (workspace_rows s') = Some g"
      "route_rows s' = update_where (\<lambda>r. rr_workspace_id r = w)
         (\<lambda>r. r\<lparr>rr_version_id := Some (vs_version_id v)\<rparr>) (route_rows s1)"
      using fresh(3) v by (simp_all add: published_def)
    have "list_all (\<lambda>x. rr_workspace_id x = w \<longrightarrow> rr_version_id x = Some (rc_version_id r)) (route_rows s')"
      unfolding p(5) i(1) by (rule stamped_routes)
    moreover have "ws_latest_version_id g = Some (rc_version_id r)" "ws_status g = ''ready''"
      "ws_node_count g = int (length (filter (\<lambda>x. nd_workspace_id x = w) (node_rows s')))"
      "ws_edge_count g = int (length (filter (\<lambda>x. eg_workspace_id x = w) (edge_rows s')))"
      using fresh(5) n p(2,3) i(1) by (simp_all add: published_workspace_def)
    ultimately show ?thesis
      by (intro exI [of _ v] exI [of _ g] exI [of _ "event_rows s1"] exI [of _ e1] exI [of _ e2] conjI)
        (use p(1,4) fresh(4,7-9,12) i in simp_all)
  qed simp
qed simp_all

text \<open>
  C38: A recomputation that raises an exception of a service publishes nothing: no version is
  created, no workspace summary is written and no route carries another version, although the report
  and the scores may already have been applied.
\<close>

theorem recompute_refusal_publishes_nothing:
  assumes "wf_store s" and "recompute_from_failure w f reason q j s = (Inl (ServiceError st c m d), s')"
  shows "version_rows s' = version_rows s \<and> workspace_rows s' = workspace_rows s \<and>
    map rr_version_id (route_rows s') = map rr_version_id (route_rows s)"
  using assms(2) by (cases rule: recompute_cases) (use assms(1) in \<open>auto simp: unpublished_def\<close>)

end
