(* ===== verification/RecomputeReturns.thy ===== *)
theory RecomputeReturns
  imports RecomputeProps
begin

text \<open>
  When a recomputation returns: the difference of two snapshots always exists, the scoring of every
  route succeeds in a workspace that is in order, and so does the publication.
\<close>

section \<open>Returning\<close>

lemma rmap_total: "(\<And>x. x \<in> set xs \<Longrightarrow> \<exists>y. f x = Inr y) \<Longrightarrow> \<exists>ys. rmap f xs = Inr ys"
proof (induction xs)
  case (Cons x xs)
  obtain y where "f x = Inr y" using Cons.prems [of x] by auto
  moreover obtain ys where "rmap f xs = Inr ys" using Cons by auto
  ultimately show ?case by simp
qed simp

lemma rbind_total: "\<exists>x. m = Inr x \<Longrightarrow> (\<And>x. \<exists>y. f x = Inr y) \<Longrightarrow> \<exists>y. rbind m f = Inr y"
  by auto

text \<open>An object of a snapshot: its status and type are text, its scores are numbers.\<close>

definition plain_object :: "payload \<Rightarrow> bool" where
  "plain_object p \<longleftrightarrow>
     (\<forall>k \<in> {''status'', ''node_type'', ''edge_type''}. \<exists>s. text_field p k = Inr s) \<and>
     (\<forall>k \<in> {''support_score'', ''risk_score'', ''progressability_score''}. \<exists>x. number_field p k = Inr x)"

definition plain_objects :: "objects \<Rightarrow> bool" where
  "plain_objects m \<longleftrightarrow> (\<forall>(i, p) \<in> set m. plain_object p)"

lemma plain_lookup: "plain_objects m \<Longrightarrow> map_of m i = Some p \<Longrightarrow> plain_object p"
  by (auto simp: plain_objects_def dest: map_of_SomeD)

lemma status_changed_total:
  assumes "plain_objects before" "plain_objects after"
  shows "\<exists>ids. status_changed_to before after wanted = Inr ids"
  unfolding status_changed_to_def
proof (rule rbind_total [OF rmap_total])
  fix x
  assume "x \<in> set after"
  then have "plain_object (snd x)" using assms(2) by (auto simp: plain_objects_def)
  then obtain s where s: "text_field (snd x) ''status'' = Inr s" by (auto simp: plain_object_def)
  show "\<exists>y. status_change before wanted x = Inr y"
  proof (cases "map_of before (fst x)")
    case (Some b)
    then obtain t where "text_field b ''status'' = Inr t"
      using plain_lookup [OF assms(1)] by (auto simp: plain_object_def)
    then show ?thesis using s Some by (simp add: status_change_def split_beta)
  qed (simp add: status_change_def split_beta)
qed simp

lemma having_total:
  assumes "plain_objects m" "k \<in> {''node_type'', ''edge_type''}"
  shows "\<exists>ids. having m k t xs = Inr ids"
  unfolding having_def
proof (rule rbind_total [OF rmap_total])
  fix i
  show "\<exists>y. (case map_of m i of None \<Rightarrow> Inr []
      | Some p \<Rightarrow> rbind (text_field p k) (\<lambda>s. Inr (if s = t then [i] else []))) = Inr y"
    using plain_lookup [OF assms(1), of i] assms(2)
    by (auto simp: plain_object_def split: option.split)
qed simp

lemma score_changes_total:
  assumes "plain_objects before" "plain_objects after"
  shows "\<exists>cs. rmap (score_change_of before after) ids = Inr cs"
proof (rule rmap_total)
  fix i
  show "\<exists>y. score_change_of before after i = Inr y"
    using plain_lookup [OF assms(1), of i] plain_lookup [OF assms(2), of i]
    by (auto simp: score_change_of_def plain_object_def split: option.split)
qed

lemma build_diff_total:
  assumes "plain_objects (nodes_of_snapshot x)" "plain_objects (edges_of_snapshot x)"
    "plain_objects (routes_of_snapshot x)" "plain_objects (nodes_of_snapshot y)"
    "plain_objects (edges_of_snapshot y)" "plain_objects (routes_of_snapshot y)"
  shows "\<exists>d. build_diff_payload f b n x y im = Inr d"
  unfolding build_diff_payload_def Let_def
  by (intro rbind_total status_changed_total having_total score_changes_total)
    (use assms in \<open>auto simp: nodes_of_snapshot_def edges_of_snapshot_def routes_of_snapshot_def\<close>)

lemma as_mapping_subset:
  "set (foldl (\<lambda>n (k, v). case v of VDict p \<Rightarrow> dict_put k p n | _ \<Rightarrow> n) acc d) \<subseteq>
   set acc \<union> {(k, p). (k, VDict p) \<in> set d}"
proof (induction d arbitrary: acc)
  case (Cons x d)
  obtain k v where x: "x = (k, v)" by (cases x)
  show ?case
  proof (cases v)
    case (VDict p)
    then show ?thesis using Cons.IH [of "dict_put k p acc"] dict_put_subset [of k p acc] x by auto
  qed (use Cons.IH x in auto)
qed simp

lemma plain_mapping:
  assumes "\<And>k p. (k, VDict p) \<in> set d \<Longrightarrow> plain_object p"
  shows "plain_objects (as_mapping (VDict d))"
  using as_mapping_subset [of "[]" d] assms by (auto simp: plain_objects_def as_mapping_def)

lemma snapshot_plain:
  "plain_objects (nodes_of_snapshot (snapshot_payload sn))"
  "plain_objects (edges_of_snapshot (snapshot_payload sn))"
  "plain_objects (routes_of_snapshot (snapshot_payload sn))"
  unfolding nodes_of_snapshot_def edges_of_snapshot_def routes_of_snapshot_def snapshot_payload_def
  by (auto simp: get_or_def typed_payload_def route_snap_payload_def plain_object_def text_field_def
      number_field_def intro!: plain_mapping)

lemma snapshot_diff_total:
  "\<exists>d. build_diff_payload f b n (snapshot_payload x) (snapshot_payload y) im = Inr d"
  by (rule build_diff_total [OF snapshot_plain snapshot_plain])

definition readable_impact :: "payload \<Rightarrow> bool" where
  "readable_impact im \<longleftrightarrow>
     (\<forall>k \<in> {''affected_route_ids'', ''weakened_node_ids'', ''invalidated_node_ids'', ''weakened_edge_ids'',
        ''invalidated_edge_ids'', ''created_branch_node_ids'', ''branch_node_ids'',
        ''created_branch_edge_ids'', ''branch_edge_ids''}. \<exists>ids. impact_ids im k = Inr ids)"

lemma merge_total: "readable_impact im \<Longrightarrow> \<exists>d'. merge_forced_diff_categories im d = Inr d'"
  unfolding merge_forced_diff_categories_def
  by (intro rbind_total) (auto simp: readable_impact_def)

lemma route_impacts_total:
  assumes "readable_impact im"
    and "\<forall>(i, r) \<in> set (sn_routes after). rs_canonical_present r \<and> rs_canonical_valid r"
  shows "\<exists>xs. build_route_impacts base im before after = Inr xs"
  unfolding build_route_impacts_def
proof (intro rbind_total rmap_total)
  fix w1 w2 w3 w4 w5 i
  show "\<exists>y. route_impact_of base (sn_routes before) (sn_routes after) (sorted_set (w2 @ w3))
      (sorted_set (w4 @ w5)) i = Inr y"
    using assms(2) by (auto simp: route_impact_of_def Let_def dest!: map_of_SomeD split: option.split)
qed (use assms(1) in \<open>auto simp: readable_impact_def\<close>)

definition route_frame :: "route_row \<Rightarrow> string \<times> string \<times> string list \<times> json_column" where
  "route_frame r = (rr_route_id r, rr_workspace_id r, rr_route_node_ids r, rr_route_edge_ids_json r)"

definition scorable :: "string \<Rightarrow> store \<Rightarrow> bool" where
  "scorable w s \<longleftrightarrow>
     fresh_events s \<and> fresh_versions s \<and> distinct (map rr_route_id (route_rows s)) \<and>
     (\<exists>n \<in> set (node_rows s). nd_workspace_id n = w) \<and>
     (\<forall>(k, v, focus, edge_ids) \<in> route_frame ` set (route_rows s). v = w \<longrightarrow>
        set focus \<subseteq> set (map nd_node_id (filter (\<lambda>n. nd_workspace_id n = w) (node_rows s))) \<and>
        (\<exists>ids. edge_ids = edge_ids_json ids))"

definition same_frame :: "store \<Rightarrow> store \<Rightarrow> bool" where
  "same_frame s s' \<longleftrightarrow>
     node_rows s' = node_rows s \<and> edge_rows s' = edge_rows s \<and> version_rows s' = version_rows s \<and>
     map route_frame (route_rows s') = map route_frame (route_rows s) \<and> hex_supply s' = hex_supply s"

lemma frame_keys: "map route_frame xs = map route_frame ys \<Longrightarrow> map rr_route_id xs = map rr_route_id ys"
  by (drule arg_cong [of _ _ "map fst"]) (simp add: route_frame_def comp_def)

lemma frame_workspaces:
  "map route_frame xs = map route_frame ys \<Longrightarrow> map rr_workspace_id xs = map rr_workspace_id ys"
  by (drule arg_cong [of _ _ "map (\<lambda>x. fst (snd x))"]) (simp add: route_frame_def comp_def)

lemma scorable_frame:
  assumes "scorable w s" "same_frame s s'" "fresh_events s'" "fresh_versions s'"
  shows "scorable w s'"
proof -
  have f: "route_frame ` set (route_rows s') = route_frame ` set (route_rows s)"
    using assms(2) by (metis same_frame_def list.set_map)
  have "map rr_route_id (route_rows s') = map rr_route_id (route_rows s)"
    by (rule frame_keys) (use assms(2) in \<open>simp add: same_frame_def\<close>)
  moreover have "distinct (map rr_route_id (route_rows s'))"
    using calculation assms(1) by (simp only: scorable_def)
  ultimately show ?thesis using assms unfolding scorable_def f same_frame_def by simp
qed

lemma score_step_returns:
  assumes "scorable w s" "(k, w, focus, j) \<in> route_frame ` set (route_rows s)"
  shows "\<exists>v s'. score_route w k q None focus s = (Inr v, s') \<and> scorable w s' \<and> same_frame s s'"
proof -
  obtain r where r: "r \<in> set (route_rows s)" "rr_route_id r = k" "rr_workspace_id r = w"
    using assms(2) by (auto simp: route_frame_def)
  have fresh: "inj (hex_supply s)" "''event_'' @ hex_supply s (drawn s) \<notin> evt_event_id ` set (event_rows s)"
    using assms(1) by (auto simp: scorable_def fresh_events_def fresh_versions_def)
  have sel: "select_key rr_route_id k (route_rows s) = Some r"
    using select_key_distinct [of rr_route_id "route_rows s" r] assms(1) r by (simp add: scorable_def)
  have "set focus \<subseteq> set (map nd_node_id (filter (\<lambda>n. nd_workspace_id n = w) (node_rows s)))"
    using assms by (force simp: scorable_def)
  then obtain v s' where run: "score_route w k q None focus s = (Inr v, s')"
    using score_route_returns [OF sel r(3) _ _ _ fresh(2), of focus None q] assms(1)
    by (auto simp: scorable_def)
  from run show ?thesis
  proof (cases rule: score_route_cases)
    case (scored v' e)
    obtain f where f: "\<And>r. rr_route_id (f r) = rr_route_id r" "\<And>r. rr_workspace_id (f r) = rr_workspace_id r"
      "\<And>r. rr_route_node_ids (f r) = rr_route_node_ids r"
      "\<And>r. rr_route_edge_ids_json (f r) = rr_route_edge_ids_json r"
      "route_rows s' = update_where (\<lambda>r. rr_route_id r = k) f (route_rows s)"
      using scored(7) by auto
    have frame: "map route_frame (route_rows s') = map route_frame (route_rows s)"
      unfolding f(5) by (rule keys_update_where) (simp add: route_frame_def f(1-4))
    have s': "node_rows s' = node_rows s" "edge_rows s' = edge_rows s" "version_rows s' = version_rows s"
      "hex_supply s' = hex_supply s" "drawn s' = Suc (drawn s)" "event_rows s' = event_rows s @ [e]"
      using arg_cong [OF scored(6), of node_rows] arg_cong [OF scored(6), of edge_rows]
        arg_cong [OF scored(6), of version_rows] arg_cong [OF scored(6), of hex_supply]
        arg_cong [OF scored(6), of drawn] arg_cong [OF scored(6), of event_rows] by simp_all
    have "same_frame s s'" using s' frame by (simp add: same_frame_def)
    moreover have "fresh_events s'"
      using assms(1) s' scored(10) by (auto simp: scorable_def intro: fresh_events_add)
    moreover have "fresh_versions s'"
      using assms(1) s' by (auto simp: scorable_def fresh_versions_def dest: Suc_leD)
    ultimately show ?thesis using run assms(1) scorable_frame by blast
  qed simp_all
qed

lemma rescore_returns:
  assumes "scorable w s"
  shows "\<exists>s'. rescore_routes w q s = (Inr (), s') \<and> scorable w s' \<and> same_frame s s'"
proof -
  define body :: "route_view \<Rightarrow> unit \<Rightarrow> unit store_proc" where
    "body = (\<lambda>r _. and_then (score_route w (rr_route_id r) q None (rr_route_node_ids r)) (\<lambda>_. ret ()))"
  have loop: "\<exists>s'. fold_proc body rs () s = (Inr (), s') \<and> scorable w s' \<and> same_frame s s'"
    if "scorable w s" "set (map (\<lambda>r. (rr_route_id r, w, rr_route_node_ids r)) rs) \<subseteq>
        (\<lambda>(k, v, focus, j). (k, v, focus)) ` route_frame ` set (route_rows s)" for rs s
    using that
  proof (induction rs arbitrary: s)
    case Nil
    then show ?case by (simp add: ret_apply same_frame_def)
  next
    case (Cons r rs)
    obtain j where "(rr_route_id r, w, rr_route_node_ids r, j) \<in> route_frame ` set (route_rows s)"
      using Cons.prems(2) by auto
    from score_step_returns [OF Cons.prems(1) this] obtain v s1 where
      s1: "score_route w (rr_route_id r) q None (rr_route_node_ids r) s = (Inr v, s1)" "scorable w s1" "same_frame s s1"
      by blast
    have b: "body r () s = (Inr (), s1)" using s1(1) by (simp add: body_def and_then_apply ret_apply)
    have "route_frame ` set (route_rows s1) = route_frame ` set (route_rows s)"
      using s1(3) by (metis same_frame_def list.set_map)
    then obtain s2 where "fold_proc body rs () s1 = (Inr (), s2)" "scorable w s2" "same_frame s1 s2"
      using Cons.IH [OF s1(2)] Cons.prems(2) by auto
    then show ?case using b s1(3) by (auto simp: and_then_apply same_frame_def)
  qed
  have "set (map (\<lambda>r. (rr_route_id r, w, rr_route_node_ids r))
      (map route_view_of (filter (\<lambda>r. rr_workspace_id r = w) (route_rows s)))) \<subseteq>
      (\<lambda>(k, v, focus, j). (k, v, focus)) ` route_frame ` set (route_rows s)"
    by (force simp: route_frame_def)
  from loop [OF assms this] show ?thesis
    by (simp add: rescore_routes_def and_then_apply list_routes_apply flip: body_def)
qed

lemma event_after:
  assumes "events_in_order s" "mono (clock s)" "length (workspace_events w s) < 5000"
    and "find_latest_event w name ref s = Some e" "emit_event args s = (Inr (), s')"
    and "evt_event_name args \<noteq> name" "evt_workspace_id args = Some w"
  shows "find_latest_event w name ref s' = Some e"
  using assms(5)
proof (cases rule: emit_event_cases)
  case (added x)
  have o: "events_in_order s'" by (rule emit_event_in_order [OF assms(1,2,5)])
  have w: "workspace_events w s' = workspace_events w s @ [x]"
    using added assms(7) by (simp add: workspace_events_def)
  have "\<not> event_matches name ref x" using added assms(6) by (simp add: event_matches_def)
  then show ?thesis
    using assms(3,4) w find_latest_event_last [OF o, of w name ref]
      find_latest_event_last [OF assms(1), of w name ref]
    by (simp add: Let_def split: if_splits)
qed simp

lemma emit_fresh:
  assumes "scorable w s"
  shows "\<exists>s'. emit_event args s = (Inr (), s') \<and> scorable w s' \<and> same_frame s s' \<and>
    failure_rows s' = failure_rows s"
proof -
  obtain r s' where e: "emit_event args s = (r, s')" by (cases "emit_event args s")
  from e show ?thesis
  proof (cases rule: emit_event_cases)
    case (taken k)
    then show ?thesis using assms by (auto simp: scorable_def fresh_events_def fresh_versions_def)
  next
    case (added x)
    have "same_frame s s'" using added by (simp add: same_frame_def)
    moreover have "fresh_events s'"
      using assms added by (auto simp: scorable_def intro: fresh_events_add)
    moreover have "fresh_versions s'"
      using assms added by (auto simp: scorable_def fresh_versions_def dest: Suc_leD)
    ultimately show ?thesis using e added(1,2) assms scorable_frame by auto
  qed
qed

lemma decode_canonical:
  "rr_route_edge_ids_json r = edge_ids_json ids \<Longrightarrow>
   rv_canonical_present (route_view_of r) \<and> rv_canonical_valid (route_view_of r)"
  by (simp add: route_view_of_def Let_def route_row.defs route_view.defs split: prod.split)

lemma snapshot_canonical:
  assumes "scorable w s" "take_snapshot w s = (Inr sn, s)"
  shows "\<forall>(i, r) \<in> set (sn_routes sn). rs_canonical_present r \<and> rs_canonical_valid r"
  using assms decode_canonical
  by (fastforce simp: take_snapshot_def and_then_apply proc_simps list_graph_nodes_def list_graph_edges_def
      route_snap_of_def scorable_def route_frame_def)

lemma publish_returns:
  assumes "scorable w s"
  shows "\<exists>r s'. publish_version w f reason q j im after d0 s = (Inr r, s')"
proof -
  obtain res s' where p: "publish_version w f reason q j im after d0 s = (res, s')"
    by (cases "publish_version w f reason q j im after d0 s")
  from p show ?thesis
    by (cases rule: publish_version_cases) (use p assms in \<open>auto simp: scorable_def\<close>)
qed

lemma scorable_failure_rows [simp]: "scorable w (s\<lparr>failure_rows := x\<rparr>) = scorable w s"
  by (simp add: scorable_def fresh_events_def fresh_versions_def)

lemma attempt_returns:
  assumes sc: "scorable w s" and route: "w \<in> rr_workspace_id ` set (route_rows s)"
    and report: "select_key fr_failure_id f (failure_rows s) = Some x" "fr_workspace_id x = w"
    and known: "find_latest_event w ''failure_attached'' (Some (''failure_id'', f)) s = Some e"
      "impact_of_event e = Some im" "readable_impact im"
  shows "\<exists>r s'. recompute_attempt w f reason q j base before s = (Inr r, s')"
proof -
  obtain rows where a: "apply_failure w f q s = (Inr im, s\<lparr>failure_rows := rows\<rparr>)"
    using apply_failure_known [OF report known(1,2)] by blast
  obtain s1 where r: "rescore_routes w q (s\<lparr>failure_rows := rows\<rparr>) = (Inr (), s1)" "scorable w s1"
    using rescore_returns [of w "s\<lparr>failure_rows := rows\<rparr>"] sc by auto
  obtain sn where sn: "take_snapshot w s1 = (Inr sn, s1)" using take_snapshot_apply by blast
  obtain xs where xs: "build_route_impacts base im before sn = Inr xs"
    using route_impacts_total [OF known(3) snapshot_canonical [OF r(2) sn]] by blast
  obtain d where d: "build_diff_payload f base None (snapshot_payload before) (snapshot_payload sn) xs = Inr d"
    using snapshot_diff_total by blast
  obtain d0 where d0: "merge_forced_diff_categories im d = Inr d0" using merge_total [OF known(3)] by blast
  obtain res s2 where "publish_version w f reason q j im sn d0 s1 = (Inr res, s2)"
    using publish_returns [OF r(2)] by blast
  moreover have "filter (\<lambda>r. rr_workspace_id r = w) (route_rows s) \<noteq> []"
    using route by (auto simp: filter_empty_conv)
  ultimately show ?thesis
    using a r(1) sn xs d d0
    by (simp add: recompute_attempt_def and_then_apply list_routes_apply check_apply lift_result_apply
        conversion_result_def)
qed

lemma replay_returns:
  assumes "scorable w s" and "w \<in> rr_workspace_id ` set (route_rows s)"
    and "select_key fr_failure_id f (failure_rows s) = Some x" and "fr_workspace_id x = w"
    and "events_in_order s" and "mono (clock s)" and "length (workspace_events w s) < 5000"
    and "find_latest_event w ''failure_attached'' (Some (''failure_id'', f)) s = Some e"
    and "impact_of_event e = Some im" and "readable_impact im"
  shows "\<exists>r s'. recompute_from_failure w f reason q j s = (Inr r, s')"
proof -
  obtain r' rows where g: "get_failure f s = (Inr (Some r'), s\<lparr>failure_rows := rows\<rparr>)"
    "fr_workspace_id r' = w" "\<exists>y. select_key fr_failure_id f rows = Some y \<and> fr_workspace_id y = w"
    using get_failure_found [OF assms(3)] assms(4) by metis
  let ?s0 = "s\<lparr>failure_rows := rows\<rparr>"
  have sc: "scorable w ?s0" using assms(1) by simp
  obtain sn where sn: "take_snapshot w ?s0 = (Inr sn, ?s0)" using take_snapshot_apply by blast
  let ?gw = "select_key ws_workspace_id w (workspace_rows s)"
  let ?base = "case ?gw of None \<Rightarrow> None
    | Some gw \<Rightarrow> if truthy (ws_latest_version_id gw) then ws_latest_version_id gw else None"
  let ?args = "event_args ''recompute_started'' (Some q) j (Some w) ''recompute_service'' ''recompute''
    ''started'' [(''failure_id'', VStr f), (''base_version_id'', opt_str ?base),
      (''route_ids'', id_list (map fst (sn_routes sn)))]
    [(''trigger'', VStr ''failure_attach''), (''reason'', VStr reason),
     (''affected_node_count'', count (map node_view (filter (\<lambda>r. nd_workspace_id r = w) (node_rows s)))),
     (''affected_edge_count'', count (filter (\<lambda>r. eg_workspace_id r = w) (edge_rows s)))] None"
  obtain s1 where s1: "emit_event ?args ?s0 = (Inr (), s1)" "scorable w s1" "same_frame ?s0 s1"
    "failure_rows s1 = rows"
    using emit_fresh [OF sc, of ?args] by auto
  have "find_latest_event w ''failure_attached'' (Some (''failure_id'', f)) s1 = Some e"
    by (rule event_after [OF _ _ _ _ s1(1)])
      (use assms(5-8) in \<open>simp_all add: events_in_order_def workspace_events_def\<close>)
  moreover have "w \<in> rr_workspace_id ` set (route_rows s1)"
  proof -
    have "map rr_workspace_id (route_rows s1) = map rr_workspace_id (route_rows s)"
      by (rule frame_workspaces) (use s1(3) in \<open>simp add: same_frame_def\<close>)
    from arg_cong [OF this, of set] show ?thesis using assms(2) by simp
  qed
  ultimately obtain r s' where a: "recompute_attempt w f reason q j ?base sn s1 = (Inr r, s')"
    using attempt_returns [OF s1(2) _ _ _ _ assms(9,10)] g(3) s1(4) by blast
  have "filter (\<lambda>r. nd_workspace_id r = w) (node_rows s) \<noteq> []"
    using assms(1) by (auto simp: scorable_def filter_empty_conv)
  then show ?thesis
    using g(1,2) sn s1(1) a
    by (simp add: recompute_from_failure_def and_then_apply proc_simps list_graph_nodes_def
        list_graph_edges_def get_graph_workspace_def on_error_def Let_def)
qed

text \<open>
  C5: Recomputing a report that was applied before always succeeds. If the log of the workspace, in
  order and below the limit of the lookup, holds the report's impact, the workspace has a route, every
  route of it lists nodes of the graph and carries a valid list of edges, and the ids still to be
  drawn are new, then the recomputation returns: the impact is replayed, every route is scored, and
  none of the guards on the way can fire.
\<close>

theorem recompute_replay_returns:
  assumes "scorable w s" and "w \<in> rr_workspace_id ` set (route_rows s)"
    and "select_key fr_failure_id f (failure_rows s) = Some x" and "fr_workspace_id x = w"
    and "events_in_order s" and "mono (clock s)" and "length (workspace_events w s) < 5000"
    and "find_latest_event w ''failure_attached'' (Some (''failure_id'', f)) s = Some e"
    and "impact_of_event e = Some im" and "readable_impact im"
  shows "\<exists>r s'. recompute_from_failure w f reason q j s = (Inr r, s')"
  by (rule replay_returns [OF assms])

section \<open>Examples\<close>

definition replay_event :: event_row where
  "replay_event =
     (event_args ''failure_attached'' (Some ''q'') None (Some ''w'') ''failure_impact_service'' ''attach''
       ''completed'' [(''failure_id'', VStr ''f''),
         (''impact_summary'', VDict [(''weakened_node_ids'', id_list [''n1''])])] [] None)
     \<lparr>evt_event_id := ''e0''\<rparr>"

definition replay_store :: store where
  "replay_store = empty_store\<lparr>
     node_rows := [sample_node ''n1'' ''w'' ''evidence'' ''weakened'', sample_node ''n2'' ''v'' ''gap'' ''active''],
     route_rows := [sample_route ''r1'' ''w'' ''candidate'' [''n1''] []],
     failure_rows := [sample_failure ''f'' ''w'' ''low'' [(''node'', ''n1'')]],
     event_rows := [replay_event]\<rparr>"

lemma replay_store_wf: "wf_store replay_store"
  by (simp add: wf_store_def replay_store_def sample_simps)

lemma replay_store_ready:
  "scorable ''w'' replay_store" "''w'' \<in> rr_workspace_id ` set (route_rows replay_store)"
  "select_key fr_failure_id ''f'' (failure_rows replay_store) =
     Some (sample_failure ''f'' ''w'' ''low'' [(''node'', ''n1'')])"
  "fr_workspace_id (sample_failure ''f'' ''w'' ''low'' [(''node'', ''n1'')]) = ''w''"
  "events_in_order replay_store" "mono (clock replay_store)"
  "length (workspace_events ''w'' replay_store) < 5000"
  "find_latest_event ''w'' ''failure_attached'' (Some (''failure_id'', ''f'')) replay_store = Some replay_event"
  "impact_of_event replay_event = Some [(''weakened_node_ids'', id_list [''n1''])]"
  "readable_impact [(''weakened_node_ids'', id_list [''n1''])]"
  by (auto simp: scorable_def fresh_events_def fresh_versions_def replay_store_def replay_event_def
      sample_simps unary_def route_frame_def edge_ids_json_def event_args_def inj_def replicate_eq_replicate
      find_latest_event_def list_events_def matches_def event_matches_def get_or_def impact_of_event_def
      readable_impact_def impact_ids_def id_list_def is_str_def events_in_order_def workspace_events_def
      mono_def)

theorem recompute_replay_returns_witness:
  "\<exists>r s'. recompute_from_failure ''w'' ''f'' ''again'' ''q'' None replay_store = (Inr r, s')"
  by (rule recompute_replay_returns [OF replay_store_ready])

theorem recompute_publishes_witness:
  "\<exists>r s' v. recompute_from_failure ''w'' ''f'' ''again'' ''q'' None replay_store = (Inr r, s') \<and>
     version_rows s' = [v] \<and> published_version v ''w'' (rc_diff r)"
proof -
  obtain r s' where r: "recompute_from_failure ''w'' ''f'' ''again'' ''q'' None replay_store = (Inr r, s')"
    using replay_returns [OF replay_store_ready] by blast
  from recompute_publishes [OF replay_store_wf r] show ?thesis
    using r by (auto simp: replay_store_def sample_simps)
qed

theorem recompute_refusal_publishes_nothing_witness:
  "\<exists>s'. recompute_from_failure ''v'' ''f'' ''again'' ''q'' None replay_store =
       (Inl (ServiceError 409 ''research.conflict'' ''workspace_id does not match failure ownership''
          [(''failure_id'', VStr ''f'')]), s') \<and> version_rows s' = []"
proof -
  obtain r' rows where g: "get_failure ''f'' replay_store = (Inr (Some r'), replay_store\<lparr>failure_rows := rows\<rparr>)"
    "fr_workspace_id r' = ''w''"
    using get_failure_found [OF replay_store_ready(3)] replay_store_ready(4) by metis
  have r: "recompute_from_failure ''v'' ''f'' ''again'' ''q'' None replay_store =
      (Inl (ServiceError 409 ''research.conflict'' ''workspace_id does not match failure ownership''
         [(''failure_id'', VStr ''f'')]), replay_store\<lparr>failure_rows := rows\<rparr>)"
    using g by (simp add: recompute_from_failure_def and_then_apply proc_simps)
  from recompute_refusal_publishes_nothing [OF replay_store_wf r] show ?thesis
    using r by (simp add: replay_store_def sample_simps)
qed

theorem recompute_isolation_witness:
  "filter (\<lambda>r. nd_workspace_id r \<noteq> ''w'')
     (node_rows (snd (recompute_from_failure ''w'' ''f'' ''again'' ''q'' None replay_store))) =
   [sample_node ''n2'' ''v'' ''gap'' ''active'']"
  using recompute_isolation [OF replay_store_wf refl, of "''w''" "''f''" "''again''" "''q''" None]
  by (simp add: elsewhere_same_def replay_store_def sample_node_def)

end
