(* ===== verification/ScoreAccuracy.thy ===== *)
theory ScoreAccuracy
  imports ScoreService
begin

text \<open>
  How accurate the scores of \<^verbatim>\<open>scoring\<close> and \<^verbatim>\<open>services/score_service.py\<close> are: the score of a dimension
  is computed with doubles and rounded to one decimal, and this theory compares it with the exact
  weighted sum of the factors.
\<close>

section \<open>The exact weighted sum\<close>

definition value_of :: "(string \<times> factor_input) list \<Rightarrow> string \<Rightarrow> rat" where
  "value_of inputs f = (case map_of inputs f of None \<Rightarrow> 0 | Some fi \<Rightarrow> clamp01 (fi_normalized_value fi))"

definition exact_sum :: "(string \<times> rat) list \<Rightarrow> (string \<times> factor_input) list \<Rightarrow> string list \<Rightarrow> rat" where
  "exact_sum weights inputs fs = sum_list (map (\<lambda>f. weight_of weights f * value_of inputs f) fs)"

definition dimension_weights :: "scoring_template \<Rightarrow> string \<Rightarrow> (string \<times> rat) list" where
  "dimension_weights t d = (case map_of (tpl_weights t) d of None \<Rightarrow> [] | Some ws \<Rightarrow> ws)"

definition total_of :: "(string \<times> rat) list \<Rightarrow> string list \<Rightarrow> rat" where
  "total_of weights fs = sum_list (map (weight_of weights) fs)"

lemma value_of_bounds: "0 \<le> value_of inputs f" "value_of inputs f \<le> 1"
  by (auto simp: value_of_def clamp01_bounds split: option.split)

lemma exact_sum_simps [simp]:
  "exact_sum ws inputs [] = 0"
  "exact_sum ws inputs (f # fs) = weight_of ws f * value_of inputs f + exact_sum ws inputs fs"
  by (simp_all add: exact_sum_def)

lemma total_of_simps [simp]:
  "total_of ws [] = 0" "total_of ws (f # fs) = weight_of ws f + total_of ws fs"
  by (simp_all add: total_of_def)

lemma exact_sum_bounds:
  assumes "\<forall>f \<in> set fs. 0 \<le> weight_of ws f"
  shows "0 \<le> exact_sum ws inputs fs" and "exact_sum ws inputs fs \<le> total_of ws fs"
  unfolding exact_sum_def total_of_def
  by (use assms value_of_bounds in \<open>auto intro!: sum_list_nonneg sum_list_mono mult_left_le\<close>)

section \<open>The error of the loop over the factors\<close>

lemma product_error:
  assumes "0 \<le> w" "w \<le> 2" "0 \<le> v" "v \<le> 1"
  shows "\<bar>fmul w v - w * v\<bar> \<le> 1 / 2 ^ 52"
proof -
  have "w * v \<le> 2" using assms mult_mono [of w 2 v 1] by simp
  moreover have "0 \<le> w * v" using assms by simp
  ultimately show ?thesis using fl_error [of "w * v"] by (simp add: fmul_def)
qed

lemma step_error:
  assumes "\<bar>a - x\<bar> \<le> e" "\<bar>b - y\<bar> \<le> 1 / 2 ^ 52" "0 \<le> x" "0 \<le> y" "x + y \<le> 2" "e \<le> 1"
  shows "\<bar>fadd a b - (x + y)\<bar> \<le> e + 1 / 2 ^ 50"
proof -
  have ab: "\<bar>(a + b) - (x + y)\<bar> \<le> e + 1 / 2 ^ 52" using assms(1,2) by linarith
  have "\<bar>a + b\<bar> \<le> 4" proof -
    have "1 / 2 ^ 52 \<le> (1 :: rat)" by simp
    then show ?thesis using ab assms(3-6) by linarith
  qed
  moreover have "\<bar>fl (a + b) - (a + b)\<bar> \<le> \<bar>a + b\<bar> / 2 ^ 53" by (rule fl_error)
  ultimately have "\<bar>fl (a + b) - (a + b)\<bar> \<le> 4 / 2 ^ 53"
    by (meson divide_right_mono order_trans zero_le_numeral zero_le_power)
  moreover have "1 / 2 ^ 52 + 4 / 2 ^ 53 \<le> (1 / 2 ^ 50 :: rat)" by simp
  ultimately show ?thesis using ab unfolding fadd_def by linarith
qed

lemma weigh_factors_error:
  assumes "weigh_factors inputs ws d fs acc rs = Inr (y, rs')"
    and "\<forall>f \<in> set fs. 0 \<le> weight_of ws f" "\<bar>acc - x\<bar> \<le> e" "0 \<le> x" "x + total_of ws fs \<le> 2"
    and "e + of_nat (length fs) / 2 ^ 50 \<le> 1"
  shows "\<bar>y - (x + exact_sum ws inputs fs)\<bar> \<le> e + of_nat (length fs) / 2 ^ 50"
  using assms
proof (induction fs arbitrary: acc rs x e)
  case Nil
  then show ?case by simp
next
  case (Cons f fs)
  obtain fi w where m: "map_of inputs f = Some fi" "map_of ws f = Some w"
    and rest: "weigh_factors inputs ws d fs (fadd acc (fmul w (clamp01 (fi_normalized_value fi))))
      (rs @ [factor_record_of d f w fi]) = Inr (y, rs')"
    using Cons.prems(1) by (auto split: option.splits)
  let ?v = "value_of inputs f"
  have v: "clamp01 (fi_normalized_value fi) = ?v" and w: "weight_of ws f = w"
    using m by (simp_all add: value_of_def weight_of_def)
  have "0 \<le> total_of ws fs" using Cons.prems(2) by (auto simp: total_of_def intro!: sum_list_nonneg)
  then have w2: "0 \<le> w" "w \<le> 2" "x + w + total_of ws fs \<le> 2" "x + w \<le> 2"
    using Cons.prems w by auto
  have wv: "0 \<le> w * ?v" "w * ?v \<le> w"
    using w2 value_of_bounds [of inputs f] by (auto intro: mult_left_le)
  have e: "e + 1 / 2 ^ 50 + of_nat (length fs) / 2 ^ 50 = e + of_nat (length (f # fs)) / 2 ^ 50"
    by (simp add: field_simps)
  have "0 \<le> of_nat (length (f # fs)) / (2 ^ 50 :: rat)" by simp
  then have "e \<le> 1" using Cons.prems(6) by linarith
  then have "\<bar>fadd acc (fmul w ?v) - (x + w * ?v)\<bar> \<le> e + 1 / 2 ^ 50"
    using Cons.prems(3,4) w2 wv product_error [OF w2(1,2) value_of_bounds] by (intro step_error) auto
  then have "\<bar>y - (x + w * ?v + exact_sum ws inputs fs)\<bar> \<le> e + 1 / 2 ^ 50 + of_nat (length fs) / 2 ^ 50"
  proof (rule Cons.IH [OF rest [unfolded v], rotated])
    show "\<forall>f \<in> set fs. 0 \<le> weight_of ws f" using Cons.prems(2) by simp
    show "0 \<le> x + w * ?v" "x + w * ?v + total_of ws fs \<le> 2" using Cons.prems(4) wv w2(3) by linarith+
    show "e + 1 / 2 ^ 50 + of_nat (length fs) / 2 ^ 50 \<le> 1" unfolding e by (rule Cons.prems(6))
  qed
  then show ?case using e w by (simp add: algebra_simps add_divide_distrib)
qed

section \<open>The error of a score\<close>

lemma clamp_error: "\<bar>y - x\<bar> \<le> e \<Longrightarrow> 0 \<le> x \<Longrightarrow> x \<le> 1 + e \<Longrightarrow> \<bar>clamp01 y - x\<bar> \<le> e"
  unfolding clamp01_def max_def min_def by (cases "1 \<le> y"; cases "0 \<le> y") auto

lemma clamped_round_error:
  assumes "\<bar>y - x\<bar> \<le> 1 / 2 ^ 40" "0 \<le> x" "x \<le> 1 + 1 / 2 ^ 40"
  shows "\<bar>py_round 1 (fmul (clamp01 y) 100) - 100 * x\<bar> \<le> 501 / 10000"
proof -
  let ?c = "clamp01 y"
  have c: "0 \<le> ?c" "?c \<le> 1" "\<bar>?c - x\<bar> \<le> 1 / 2 ^ 40"
    using clamp_error [OF assms] by (simp_all add: clamp01_bounds)
  have m: "\<bar>fmul ?c 100 - ?c * 100\<bar> \<le> 100 / 2 ^ 53"
    using fl_error [of "?c * 100"] c by (simp add: fmul_def)
  have "100 / 2 ^ 53 \<le> (1 :: rat)" by simp
  then have "\<bar>fmul ?c 100\<bar> \<le> 101" using m c(1,2) by linarith
  then have "(\<bar>fmul ?c 100\<bar> + 1) / 2 ^ 53 \<le> 102 / 2 ^ 53" by (intro divide_right_mono) simp_all
  moreover have "\<bar>py_round 1 (fmul ?c 100) - fmul ?c 100\<bar> \<le> 1 / (2 * 10 ^ 1) + (\<bar>fmul ?c 100\<bar> + 1) / 2 ^ 53"
    by (rule py_round_error)
  moreover have "\<bar>?c * 100 - 100 * x\<bar> \<le> 100 * (1 / 2 ^ 40)"
    using c(3) by (simp only: abs_le_iff) linarith
  moreover have "1 / (2 * 10 ^ 1) + 102 / 2 ^ 53 + 100 / 2 ^ 53 + 100 * (1 / 2 ^ 40) \<le> (501 / 10000 :: rat)" by simp
  ultimately show ?thesis using m by linarith
qed

text \<open>The exact sum of the rounded weights of a dimension is one, up to the rounding of the literals.\<close>

lemma fl_small: "0 \<le> x \<Longrightarrow> x \<le> 1 \<Longrightarrow> fl x \<le> x + 1 / 2 ^ 53"
  using fl_upper [of x] by simp

lemma template_totals:
  assumes "resolve_scoring_template i tags = Inr t" "d \<in> set factor_order_by_dimension"
  shows "\<forall>f \<in> set (snd d). 0 \<le> weight_of (dimension_weights t (fst d)) f"
    and "total_of (dimension_weights t (fst d)) (snd d) \<le> 1 + 1 / 2 ^ 40"
    and "length (snd d) = 5"
proof -
  have "dimension_ok t d" using resolve_cases [OF assms(1)] assms(2) default_template_contract validation_heavy_template_contract
    by (auto simp: validate_template_contract_iff)
  then show "\<forall>f \<in> set (snd d). 0 \<le> weight_of (dimension_weights t (fst d)) f"
    by (auto simp: dimension_ok_def dimension_weights_def)
  have "fl (30 / 100) \<le> 30 / 100 + 1 / 2 ^ 53" "fl (25 / 100) \<le> 25 / 100 + 1 / 2 ^ 53"
    "fl (20 / 100) \<le> 20 / 100 + 1 / 2 ^ 53" "fl (15 / 100) \<le> 15 / 100 + 1 / 2 ^ 53"
    "fl (10 / 100) \<le> 10 / 100 + 1 / 2 ^ 53"
    by (rule fl_small; simp)+
  then show "total_of (dimension_weights t (fst d)) (snd d) \<le> 1 + 1 / 2 ^ 40"
    using resolve_cases [OF assms(1)] assms(2)
    by (auto simp: factor_order_by_dimension_def dimension_weights_def weight_of_def
        default_template_def validation_heavy_template_def)
  show "length (snd d) = 5" using assms(2) by (auto simp: factor_order_by_dimension_def)
qed

definition accurate :: "scoring_template \<Rightarrow> (string \<times> factor_input) list \<Rightarrow> string \<times> string list \<Rightarrow> dimension_score \<Rightarrow> bool" where
  "accurate t inputs d x \<longleftrightarrow>
     ds_dimension x = fst d \<and>
     \<bar>ds_score x - 100 * exact_sum (dimension_weights t (fst d)) inputs (snd d)\<bar> \<le> 501 / 10000"

lemma score_dimension_accurate:
  assumes "resolve_scoring_template i tags = Inr t" "d \<in> set factor_order_by_dimension"
    and "score_dimension t inputs d = Inr x"
  shows "accurate t inputs d x"
proof -
  let ?ws = "dimension_weights t (fst d)"
  note tot = template_totals [OF assms(1,2)]
  obtain y rs where y: "weigh_factors inputs ?ws (fst d) (snd d) 0 [] = Inr (y, rs)"
    "ds_dimension x = fst d" "ds_score x = py_round 1 (fmul (clamp01 y) 100)"
    using assms(3) by (auto simp: score_dimension_def dimension_weights_def rbind_Inr_iff Let_def split: prod.splits)
  have "\<bar>y - (0 + exact_sum ?ws inputs (snd d))\<bar> \<le> 0 + of_nat (length (snd d)) / 2 ^ 50"
    by (rule weigh_factors_error [OF y(1) tot(1)]) (use tot(2,3) in auto)
  then have "\<bar>y - exact_sum ?ws inputs (snd d)\<bar> \<le> 1 / 2 ^ 40" using tot(3) by simp
  then show ?thesis
    unfolding accurate_def y(2,3)
    by (intro conjI refl clamped_round_error exact_sum_bounds(1) [OF tot(1)]
        order_trans [OF exact_sum_bounds(2) [OF tot(1)] tot(2)])
qed

lemma rmap_all2: "rmap f xs = Inr ys \<Longrightarrow> (\<And>x y. x \<in> set xs \<Longrightarrow> f x = Inr y \<Longrightarrow> P x y) \<Longrightarrow> list_all2 P xs ys"
  by (induction xs arbitrary: ys) (auto simp: rbind_Inr_iff)

text \<open>
  C37: The accuracy of the scores. With every template the scoring resolves, the three scores are, one
  for each dimension and in their order, within 0.0501 of a hundred times the exact weighted sum of
  the factor values: the doubles of the loop and of the weights add at most 0.0001 to the rounding to
  one decimal.
\<close>

theorem scores_accurate:
  assumes "resolve_scoring_template template_id relation_tags = Inr t"
    and "compute_scores t route objs nds egs = Inr dims"
  shows "list_all2 (accurate t (build_factor_inputs route objs nds egs)) factor_order_by_dimension dims"
  using assms(2) unfolding compute_scores_def
  by (rule rmap_all2) (rule score_dimension_accurate [OF assms(1)])

theorem scores_accurate_witness:
  "\<exists>dims. compute_scores validation_heavy_template (route_view_of (sample_route ''r'' ''w'' ''candidate'' [] []))
       [] [sample_node ''n'' ''w'' ''conflict'' ''active''] [] = Inr dims \<and>
     list_all2 (accurate validation_heavy_template (build_factor_inputs (route_view_of (sample_route ''r'' ''w'' ''candidate'' [] []))
       ([] :: object_view list) [sample_node ''n'' ''w'' ''conflict'' ''active''] [])) factor_order_by_dimension dims"
proof -
  have t: "resolve_scoring_template None (Some [''validation_heavy'']) = Inr validation_heavy_template"
    by (simp add: resolve_scoring_template_def)
  then have "template_covers validation_heavy_template" by (rule resolved_template_covers)
  from compute_scores_Inr [OF this] show ?thesis using scores_accurate [OF t] by blast
qed

end
