(* ===== verification/RouteRanker.thy ===== *)
theory RouteRanker
  imports StoreRoutes "HOL-Library.Multiset"
begin

text \<open>
  \<^verbatim>\<open>routing/ranker.py\<close>: the order of the routes of a workspace. Claim centered routes come
  first; then confidence, support, risk, progress, the pressure of private dependencies and the id
  decide.
\<close>

text \<open>
  \<^verbatim>\<open>float(value)\<close> with a default for the values that have none; the text of a number is
  not modelled.
\<close>

definition as_float :: "pyval \<Rightarrow> rat \<Rightarrow> py_error + rat" where
  "as_float v d =
     (case py_float v of
        Inr x \<Rightarrow> Inr x
      | Inl e \<Rightarrow> if e = Unmodelled then Inl Unmodelled else Inr d)"

definition semantic_center_priority :: "'r route_row_scheme \<Rightarrow> rat" where
  "semantic_center_priority route =
     (if ''claim_centered'' \<in> set (rr_relation_tags route) then 0
      else if ''evidence_centered'' \<in> set (rr_relation_tags route) then 1
      else 1 / 2)"

definition sub_dict :: "pyval \<Rightarrow> payload" where
  "sub_dict v = (case v of VDict d \<Rightarrow> d | _ \<Rightarrow> [])"

definition sub_list :: "pyval \<Rightarrow> pyval list" where
  "sub_list v = (case v of VList xs \<Rightarrow> xs | _ \<Rightarrow> [])"

fun pressure_in :: "pyval list \<Rightarrow> py_error + rat" where
  "pressure_in [] = Inr 1"
| "pressure_in (f # fs) =
     (case f of
        VDict d \<Rightarrow>
          if get_or d ''factor_name'' (VStr []) = VStr ''private_dependency_pressure''
          then as_float (get_or d ''normalized_value'' VNone) 1
          else pressure_in fs
      | _ \<Rightarrow> pressure_in fs)"

definition private_dependency_pressure_of :: "'r route_row_scheme \<Rightarrow> py_error + rat" where
  "private_dependency_pressure_of route =
     pressure_in (sub_list (get_or
       (sub_dict (get_or (rr_score_breakdown route) ''risk_score'' VNone)) ''factors'' VNone))"

definition ranking_confidence :: "'r route_row_scheme \<Rightarrow> rat" where
  "ranking_confidence route =
     (case rr_confidence_score route of
        Some c \<Rightarrow> c
      | None \<Rightarrow>
          py_round 1 (fdiv (fadd (fadd (rr_support_score route) (fsub 100 (rr_risk_score route)))
            (rr_progressability_score route)) 3))"

type_synonym rank_key = "rat \<times> rat \<times> rat \<times> rat \<times> rat \<times> rat \<times> string"

definition rank_key_of :: "'r route_row_scheme \<Rightarrow> py_error + rank_key" where
  "rank_key_of route =
     rbind (private_dependency_pressure_of route) (\<lambda>pressure.
       Inr (semantic_center_priority route, - ranking_confidence route, - rr_support_score route,
            rr_risk_score route, - rr_progressability_score route, pressure, rr_route_id route))"

definition rank_routes :: "'r route_row_scheme list \<Rightarrow> py_error + 'r route_row_scheme list" where
  "rank_routes routes =
     rbind (rmap rank_key_of routes) (\<lambda>keys. Inr (map snd (sort_key fst (zip keys routes))))"

section \<open>Properties\<close>

lemma rank_routes_Inr:
  assumes "rank_routes rs = Inr out"
  obtains keys where "rmap rank_key_of rs = Inr keys" and "length keys = length rs"
    and "out = map snd (sort_key fst (zip keys rs))"
  using assms rmap_Inr_length [of rank_key_of rs] by (auto simp: rank_routes_def rbind_Inr_iff)

lemma rank_routes_mset:
  assumes "rank_routes rs = Inr out"
  shows "mset out = mset rs"
  using assms
proof (rule rank_routes_Inr)
  fix keys
  assume "length keys = length rs" and out: "out = map snd (sort_key fst (zip keys rs))"
  then have "mset out = mset (map snd (zip keys rs))" by (simp only: mset_map mset_sort)
  then show ?thesis using \<open>length keys = length rs\<close> by simp
qed

text \<open>The keys of the result are the sorted keys of the routes.\<close>

lemma rank_routes_keys:
  assumes "rank_routes rs = Inr out"
  obtains ks where "map rank_key_of out = map Inr ks" and "sorted ks"
  using assms
proof (rule rank_routes_Inr)
  fix keys
  assume k: "rmap rank_key_of rs = Inr keys" "length keys = length rs"
    and out: "out = map snd (sort_key fst (zip keys rs))"
  have "rank_key_of r = Inr k" if "(k, r) \<in> set (zip keys rs)" for k r
    using rmap_Inr_list_all2 [OF k(1)] that by (auto simp: list_all2_conv_all_nth in_set_zip)
  then have "map rank_key_of out = map Inr (map fst (sort_key fst (zip keys rs)))"
    by (auto simp: out)
  then show thesis by (rule that) simp
qed

definition ranked_before :: "'r route_row_scheme \<Rightarrow> 'r route_row_scheme \<Rightarrow> bool" where
  "ranked_before a b =
     (case (rank_key_of a, rank_key_of b) of (Inr j, Inr k) \<Rightarrow> j \<le> k | _ \<Rightarrow> False)"

lemma rank_routes_ordered:
  assumes "rank_routes rs = Inr out"
  shows "sorted_wrt ranked_before out"
  using assms
proof (rule rank_routes_keys)
  fix ks assume "map rank_key_of out = map Inr ks" "sorted ks"
  then show ?thesis
  proof (induction out arbitrary: ks)
    case (Cons r out)
    obtain k ks' where ks: "ks = k # ks'" "rank_key_of r = Inr k" "map rank_key_of out = map Inr ks'"
      using Cons.prems(1) by (cases ks) auto
    have "ranked_before r q" if "q \<in> set out" for q
    proof -
      have "rank_key_of q \<in> Inr ` set ks'" using that ks(3) by (metis image_eqI list.set_map)
      then show ?thesis using Cons.prems(2) ks by (auto simp: ranked_before_def)
    qed
    then show ?case using Cons.IH [OF ks(3)] Cons.prems(2) ks(1) by simp
  qed simp
qed

lemma ranked_before_centers:
  "ranked_before a b \<Longrightarrow> semantic_center_priority a < semantic_center_priority b \<or>
     semantic_center_priority a = semantic_center_priority b \<and> ranking_confidence b \<le> ranking_confidence a"
  by (auto simp: ranked_before_def rank_key_of_def rbind_def less_eq_prod_def split: sum.splits)

lemma rank_key_id: "rank_key_of r = Inr k \<Longrightarrow> rr_route_id r = snd (snd (snd (snd (snd (snd k)))))"
  by (auto simp: rank_key_of_def rbind_Inr_iff)

text \<open>
  The ranking is a permutation of the routes in the order of their keys: a route before another
  one is more central, or as central and at least as confident.
\<close>

theorem rank_routes_correct:
  assumes "rank_routes rs = Inr out"
  shows "mset out = mset rs \<and> sorted_wrt ranked_before out \<and>
    sorted_wrt (\<lambda>a b. semantic_center_priority a < semantic_center_priority b \<or>
      semantic_center_priority a = semantic_center_priority b \<and>
      ranking_confidence b \<le> ranking_confidence a) out"
proof (intro conjI)
  show "mset out = mset rs" by (rule rank_routes_mset [OF assms])
  show "sorted_wrt ranked_before out" by (rule rank_routes_ordered [OF assms])
  then show "sorted_wrt (\<lambda>a b. semantic_center_priority a < semantic_center_priority b \<or>
      semantic_center_priority a = semantic_center_priority b \<and>
      ranking_confidence b \<le> ranking_confidence a) out"
    by (rule sorted_wrt_mono_rel [rotated]) (rule ranked_before_centers)
qed

lemma rank_routes_defined:
  assumes "rank_routes rs = Inr out" and "set rs' \<subseteq> set rs"
  obtains out' where "rank_routes rs' = Inr out'"
  using assms(1)
proof (rule rank_routes_Inr)
  fix keys assume "rmap rank_key_of rs = Inr keys"
  from rmap_Inr_set [OF this] assms(2) have "\<forall>r \<in> set rs'. \<exists>k. rank_key_of r = Inr k" by blast
  then have "\<exists>ks. rmap rank_key_of rs' = Inr ks" by (induction rs') auto
  then show thesis using that by (auto simp: rank_routes_def)
qed

text \<open>
  The ranking does not depend on the order in which the routes come: a list of the same routes,
  whose ids differ, is ranked alike.
\<close>

theorem rank_routes_order_free:
  assumes "rank_routes rs = Inr out" and "mset rs' = mset rs" and "distinct (map rr_route_id rs)"
  shows "rank_routes rs' = Inr out"
proof -
  have sets: "set rs' = set rs" using assms(2) by (rule mset_eq_setD)
  then obtain out' where out': "rank_routes rs' = Inr out'"
    using rank_routes_defined [OF assms(1), of rs'] by auto
  obtain ks where ks: "map rank_key_of out = map Inr ks" "sorted ks" by (rule rank_routes_keys [OF assms(1)])
  obtain ks' where ks': "map rank_key_of out' = map Inr ks'" "sorted ks'" by (rule rank_routes_keys [OF out'])
  have same: "mset out' = mset out"
    using rank_routes_mset [OF assms(1)] rank_routes_mset [OF out'] assms(2) by simp
  have "mset (map projr (map rank_key_of out')) = mset (map projr (map rank_key_of out))"
    by (simp only: mset_map same)
  then have "mset ks' = mset ks" unfolding ks(1) ks'(1) by (simp add: comp_def)
  then have k: "ks' = ks" using ks(2) ks'(2) by (metis properties_for_sort)
  have "out' = out"
  proof (rule nth_equalityI)
    show len: "length out' = length out" using same by (metis size_mset)
    fix i assume i: "i < length out'"
    have "rank_key_of (out' ! i) = rank_key_of (out ! i)"
      using i len ks(1) ks'(1) k by (metis nth_map)
    moreover have "rank_key_of (out ! i) = Inr (ks ! i)"
      using i len ks(1) by (metis length_map nth_map)
    ultimately have "rr_route_id (out' ! i) = rr_route_id (out ! i)"
      using rank_key_id [of "out' ! i"] rank_key_id [of "out ! i"] by simp
    moreover have "out' ! i \<in> set rs" "out ! i \<in> set rs"
      using i len nth_mem [of i out'] nth_mem [of i out] mset_eq_setD [OF same]
        mset_eq_setD [OF rank_routes_mset [OF assms(1)]] by auto
    ultimately show "out' ! i = out ! i" using assms(3) by (auto simp: distinct_map dest: inj_onD)
  qed
  then show ?thesis using out' by simp
qed

section \<open>Examples\<close>

definition sample_ranked :: "string \<Rightarrow> string \<Rightarrow> rat \<Rightarrow> route_row" where
  "sample_ranked i tag confidence =
     (sample_route i ''w'' ''candidate'' [] [])\<lparr>rr_relation_tags := [tag],
       rr_confidence_score := Some confidence\<rparr>"

definition sample_rank_input :: "route_row list" where
  "sample_rank_input =
     [sample_ranked ''r1'' ''evidence_centered'' 90, sample_ranked ''r2'' ''claim_centered'' 40,
      sample_ranked ''r3'' ''claim_centered'' 60]"

lemma sample_ranking:
  "rank_routes sample_rank_input =
   Inr [sample_ranked ''r3'' ''claim_centered'' 60, sample_ranked ''r2'' ''claim_centered'' 40,
     sample_ranked ''r1'' ''evidence_centered'' 90]"
  by (simp add: rank_routes_def rank_key_of_def sample_rank_input_def sample_ranked_def
      private_dependency_pressure_of_def semantic_center_priority_def ranking_confidence_def
      sample_route_def get_or_def sub_dict_def sub_list_def less_eq_prod_def)

theorem rank_routes_correct_witness:
  "sorted_wrt ranked_before
     [sample_ranked ''r3'' ''claim_centered'' 60, sample_ranked ''r2'' ''claim_centered'' 40,
      sample_ranked ''r1'' ''evidence_centered'' 90]"
  using rank_routes_correct [OF sample_ranking] by simp

theorem rank_routes_order_free_witness:
  "rank_routes (rev sample_rank_input) =
   Inr [sample_ranked ''r3'' ''claim_centered'' 60, sample_ranked ''r2'' ''claim_centered'' 40,
     sample_ranked ''r1'' ''evidence_centered'' 90]"
  by (rule rank_routes_order_free [OF sample_ranking])
    (simp_all add: sample_rank_input_def sample_ranked_def sample_route_def)

end
