(* ===== verification/RouteCandidates.thy ===== *)
theory RouteCandidates
  imports StoreRows "HOL-Library.Product_Lexorder"
begin

text \<open>
  \<^verbatim>\<open>routing/candidate_builder.py\<close>: which routes the graph of a workspace offers. Every seed
  node, in the order of its priority, gives the set of nodes around it and of the support nodes of
  its sources; a set that an earlier seed gave already is skipped.
\<close>

section \<open>Tags and anchors\<close>

definition inactive_statuses :: "string list" where
  "inactive_statuses = [''archived'', ''superseded'']"

definition primary_route_node_types :: "string list" where
  "primary_route_node_types = [''conclusion'', ''validation'', ''branch'']"

definition risk_node_types :: "string list" where
  "risk_node_types = [''conflict'', ''failure'']"

definition result_evidence_tags :: "string list" where
  "result_evidence_tags =
     [''claim'', ''conclusion'', ''finding'', ''main_contribution'', ''outcome'', ''result'']"

definition source_context_support_tags :: "string list" where
  "source_context_support_tags =
     [''dataset'', ''evidence'', ''experiment'', ''intervention'', ''method'', ''metric'',
      ''population'', ''result'', ''sample'', ''validation'']"

definition tags_of :: "node_row \<Rightarrow> string list" where
  "tags_of n = filter (\<lambda>t. strip t \<noteq> []) (nd_short_tags n)"

definition meets :: "'a list \<Rightarrow> 'a list \<Rightarrow> bool" where
  "meets xs ys \<longleftrightarrow> list_ex (\<lambda>x. x \<in> set ys) xs"

text \<open>The stripped anchor id of a source reference, if it has one.\<close>

definition anchor_of :: "payload \<Rightarrow> py_error + string list" where
  "anchor_of ref =
     rbind (py_str (get_or ref ''anchor_id'' (VStr []))) (\<lambda>a.
       Inr (if strip a = [] then [] else [strip a]))"

definition source_anchor_ids :: "node_row \<Rightarrow> py_error + string list" where
  "source_anchor_ids n =
     rbind (anchor_of (nd_source_ref n)) (\<lambda>a.
     rbind (rmap anchor_of (nd_source_refs n)) (\<lambda>as. Inr (a @ concat as)))"

section \<open>Seeds\<close>

definition route_priority :: "node_row \<Rightarrow> nat" where
  "route_priority n =
     (let ty = nd_node_type n; tags = tags_of n
      in if ty = ''conclusion'' then 0
         else if ty = ''assumption'' \<and> ''hypothesis'' \<in> set tags then 1
         else if ty = ''evidence'' \<and> meets tags result_evidence_tags then 2
         else if ty = ''validation'' then 3
         else if ty = ''assumption'' then 4
         else 5)"

definition is_primary_route_seed :: "node_row \<Rightarrow> bool" where
  "is_primary_route_seed n =
     (let ty = nd_node_type n; tags = tags_of n
      in if nd_status n \<in> set inactive_statuses then False
         else if ty \<in> set primary_route_node_types then True
         else if ty = ''assumption'' then tags = [] \<or> \<not> list_all (\<lambda>t. t \<in> set [''condition'']) tags
         else if ty = ''evidence'' then meets tags result_evidence_tags
         else False)"

definition is_support_node :: "node_row \<Rightarrow> bool" where
  "is_support_node n \<longleftrightarrow> nd_node_type n \<in> set [''evidence'', ''validation'']"

definition is_route_supported :: "node_row \<Rightarrow> string list \<Rightarrow> bool" where
  "is_route_supported conclusion key_support_node_ids =
     (let ty = nd_node_type conclusion
      in if ty \<in> set risk_node_types then True
         else if ty \<in> set [''gap''] then False
         else key_support_node_ids \<noteq> [])"

section \<open>The nodes and edges of a route\<close>

definition active_nodes :: "node_row list \<Rightarrow> node_row list" where
  "active_nodes ns = filter (\<lambda>n. nd_status n \<notin> set inactive_statuses) ns"

definition active_edges :: "node_row list \<Rightarrow> edge_row list \<Rightarrow> edge_row list" where
  "active_edges ns es =
     filter (\<lambda>e. eg_status e \<notin> set inactive_statuses \<and>
       eg_source_node_id e \<in> set (map nd_node_id ns) \<and>
       eg_target_node_id e \<in> set (map nd_node_id ns)) es"

text \<open>The dictionary of the nodes by id: of two nodes with one id the later one is kept.\<close>

definition node_lookup :: "node_row list \<Rightarrow> string \<Rightarrow> node_row option" where
  "node_lookup ns k = find (\<lambda>n. nd_node_id n = k) (rev ns)"

definition neighbours :: "edge_row list \<Rightarrow> string \<Rightarrow> string list" where
  "neighbours es k =
     concat (map (\<lambda>e. (if eg_source_node_id e = k then [eg_target_node_id e] else []) @
       (if eg_target_node_id e = k then [eg_source_node_id e] else [])) es)"

definition edge_ids_of_pair :: "edge_row list \<Rightarrow> string \<Rightarrow> string \<Rightarrow> string list" where
  "edge_ids_of_pair es a b =
     concat (map (\<lambda>e.
       (if eg_source_node_id e = a \<and> eg_target_node_id e = b then [eg_edge_id e] else []) @
       (if eg_target_node_id e = a \<and> eg_source_node_id e = b then [eg_edge_id e] else [])) es)"

definition collect_route_node_ids :: "string \<Rightarrow> edge_row list \<Rightarrow> string list" where
  "collect_route_node_ids conclusion_node_id es =
     sorted_set (conclusion_node_id # sorted_set (neighbours es conclusion_node_id))"

definition is_source_context_support :: "node_row \<Rightarrow> bool" where
  "is_source_context_support n \<longleftrightarrow> meets (tags_of n) source_context_support_tags \<and> is_support_node n"

definition shares_source :: "node_row \<Rightarrow> string list \<Rightarrow> node_row \<Rightarrow> py_error + bool" where
  "shares_source conclusion anchors n =
     (if nd_node_id n = nd_node_id conclusion then Inr False
      else rbind (source_anchor_ids n) (\<lambda>as. Inr (meets as anchors \<and> is_source_context_support n)))"

definition add_source_context_node_ids ::
  "node_row \<Rightarrow> node_row list \<Rightarrow> string list \<Rightarrow> py_error + string list"
where
  "add_source_context_node_ids conclusion ns route_node_ids =
     rbind (source_anchor_ids conclusion) (\<lambda>anchors.
       if anchors = [] then Inr route_node_ids
       else rbind (rfilter (shares_source conclusion anchors) ns) (\<lambda>ctx.
         Inr (sorted_set (route_node_ids @ take 6 (map nd_node_id ctx)))))"

definition route_node_ids_of ::
  "node_row list \<Rightarrow> edge_row list \<Rightarrow> node_row \<Rightarrow> py_error + string list"
where
  "route_node_ids_of ns es conclusion =
     add_source_context_node_ids conclusion ns (collect_route_node_ids (nd_node_id conclusion) es)"

definition route_edge_ids_of :: "edge_row list \<Rightarrow> string list \<Rightarrow> string list" where
  "route_edge_ids_of es ids =
     sorted_set (concat (map (\<lambda>a. concat (map (edge_ids_of_pair es a) ids)) ids))"

section \<open>Candidates\<close>

text \<open>The trace references repeat the conclusion and the nodes; their own fields are the last two.\<close>

record candidate =
  cd_workspace_id :: string
  cd_conclusion_node_id :: string
  cd_route_node_ids :: "string list"
  cd_key_support_node_ids :: "string list"
  cd_key_assumption_node_ids :: "string list"
  cd_risk_node_ids :: "string list"
  cd_next_validation_node_id :: "string option"
  cd_next_validation_action :: string
  cd_version_id :: "string option"
  cd_route_edge_ids :: "string list"

definition build_next_validation_action :: "node_row \<Rightarrow> node_row option \<Rightarrow> string" where
  "build_next_validation_action conclusion next_node =
     (let label = (case next_node of None \<Rightarrow> [] | Some n \<Rightarrow> strip (nd_short_label n))
      in if label \<noteq> [] then ''Execute validation: '' @ label
         else ''Validate conclusion node '' @
           (if strip (nd_short_label conclusion) \<noteq> [] then strip (nd_short_label conclusion)
            else nd_node_id conclusion) @
           '' with an ablation or controlled experiment'')"

definition route_nodes_of :: "node_row list \<Rightarrow> string list \<Rightarrow> node_row list" where
  "route_nodes_of ns ids = List.map_filter (node_lookup ns) ids"

definition key_supports_of :: "node_row \<Rightarrow> node_row list \<Rightarrow> string list" where
  "key_supports_of conclusion rns =
     take 3 (map nd_node_id (filter (\<lambda>n. is_support_node n \<and> nd_status n \<noteq> ''failed'' \<and>
       nd_node_id n \<noteq> nd_node_id conclusion) rns))"

definition key_assumptions_of :: "node_row list \<Rightarrow> string list" where
  "key_assumptions_of rns = take 3 (map nd_node_id (filter (\<lambda>n. nd_node_type n = ''assumption'') rns))"

definition risks_of :: "node_row list \<Rightarrow> string list" where
  "risks_of rns =
     take 3 (map nd_node_id (filter (\<lambda>n. nd_node_type n \<in> set (risk_node_types @ [''gap'']) \<or>
       nd_status n = ''failed'') rns))"

definition next_validations_of :: "node_row list \<Rightarrow> string list" where
  "next_validations_of rns =
     map nd_node_id (filter (\<lambda>n. nd_node_type n = ''validation'' \<and>
       nd_status n \<notin> set inactive_statuses) rns)"

definition first_of :: "'a list \<Rightarrow> 'a option" where
  "first_of xs = (case xs of [] \<Rightarrow> None | x # _ \<Rightarrow> Some x)"

definition next_validation_node :: "node_row list \<Rightarrow> string option \<Rightarrow> node_row option" where
  "next_validation_node ns k =
     (case k of None \<Rightarrow> None | Some i \<Rightarrow> if i = [] then None else node_lookup ns i)"

definition candidate_of ::
  "string \<Rightarrow> node_row list \<Rightarrow> edge_row list \<Rightarrow> string option \<Rightarrow> node_row \<Rightarrow> string list \<Rightarrow> candidate"
where
  "candidate_of workspace_id ns es version_id conclusion ids =
     (let rns = route_nodes_of ns ids; next = first_of (next_validations_of rns)
      in \<lparr>cd_workspace_id = workspace_id, cd_conclusion_node_id = nd_node_id conclusion,
          cd_route_node_ids = ids, cd_key_support_node_ids = key_supports_of conclusion rns,
          cd_key_assumption_node_ids = key_assumptions_of rns, cd_risk_node_ids = risks_of rns,
          cd_next_validation_node_id = next,
          cd_next_validation_action =
            build_next_validation_action conclusion (next_validation_node ns next),
          cd_version_id = version_id, cd_route_edge_ids = route_edge_ids_of es ids\<rparr>)"

text \<open>The loop over the seeds, with the signatures it has seen and the candidates it has built.\<close>

fun candidate_loop ::
  "(node_row \<Rightarrow> py_error + string list) \<Rightarrow> (node_row \<Rightarrow> string list \<Rightarrow> bool) \<Rightarrow>
   (node_row \<Rightarrow> string list \<Rightarrow> candidate) \<Rightarrow> int \<Rightarrow> node_row list \<Rightarrow> string list list \<Rightarrow>
   candidate list \<Rightarrow> py_error + candidate list"
where
  "candidate_loop ids_of supported build m [] seen acc = Inr acc"
| "candidate_loop ids_of supported build m (c # cs) seen acc =
     rbind (ids_of c) (\<lambda>ids.
       if ids \<in> set seen then candidate_loop ids_of supported build m cs seen acc
       else if \<not> supported c ids then candidate_loop ids_of supported build m cs (ids # seen) acc
       else if m \<le> int (length (acc @ [build c ids])) then Inr (acc @ [build c ids])
       else candidate_loop ids_of supported build m cs (ids # seen) (acc @ [build c ids]))"

definition candidate_supported :: "node_row list \<Rightarrow> node_row \<Rightarrow> string list \<Rightarrow> bool" where
  "candidate_supported ns conclusion ids =
     is_route_supported conclusion (key_supports_of conclusion (route_nodes_of ns ids))"

definition conclusion_nodes :: "node_row list \<Rightarrow> node_row list" where
  "conclusion_nodes ns =
     (let primary = filter is_primary_route_seed ns
      in if primary = [] then
           filter (\<lambda>n. nd_node_type n \<in> set risk_node_types \<and> nd_status n \<notin> set inactive_statuses) ns
         else primary)"

definition seed_order :: "node_row list \<Rightarrow> node_row list" where
  "seed_order ns = sort_key (\<lambda>n. (route_priority n, nd_node_id n)) ns"

definition build_candidates ::
  "string \<Rightarrow> node_row list \<Rightarrow> edge_row list \<Rightarrow> string option \<Rightarrow> int \<Rightarrow> py_error + candidate list"
where
  "build_candidates workspace_id graph_nodes graph_edges version_id max_candidates =
     (if max_candidates \<le> 0 then Inr []
      else
        (let ns = active_nodes graph_nodes; es = active_edges ns graph_edges
         in candidate_loop (route_node_ids_of ns es) (candidate_supported ns)
              (candidate_of workspace_id ns es version_id) max_candidates
              (seed_order (conclusion_nodes ns)) [] []))"

section \<open>The loop\<close>

text \<open>What the loop amounts to: the first seed of every signature, the supported ones among them.\<close>

fun first_by_signature :: "'b list \<Rightarrow> ('a \<times> 'b) list \<Rightarrow> ('a \<times> 'b) list" where
  "first_by_signature seen [] = []"
| "first_by_signature seen ((c, s) # ps) =
     (if s \<in> set seen then first_by_signature seen ps
      else (c, s) # first_by_signature (s # seen) ps)"

lemma candidate_loop_eq:
  assumes "rmap ids_of cs = Inr sigs" and "int (length acc) < m"
  shows "candidate_loop ids_of supported build m cs seen acc =
    Inr (acc @ map (\<lambda>(c, s). build c s) (take (nat m - length acc)
      (filter (\<lambda>(c, s). supported c s) (first_by_signature seen (zip cs sigs)))))"
  using assms
proof (induction cs arbitrary: sigs seen acc)
  case (Cons c cs)
  obtain s ss where s: "ids_of c = Inr s" "rmap ids_of cs = Inr ss" "sigs = s # ss"
    using Cons.prems(1) by (auto simp: rbind_Inr_iff)
  have "nat m - length acc = Suc (nat m - Suc (length acc))" using Cons.prems(2) by arith
  moreover have "nat m - Suc (length acc) = 0" if "m \<le> int (length acc) + 1" using that by arith
  ultimately show ?case using Cons.prems(2) by (auto simp: s Cons.IH [OF s(2)])
qed simp

lemma candidate_loop_all:
  assumes "candidate_loop ids_of supported build m cs seen acc = Inr r"
    and "\<And>c ids. c \<in> set cs \<Longrightarrow> ids_of c = Inr ids \<Longrightarrow> supported c ids \<Longrightarrow> Q (build c ids)"
    and "list_all Q acc"
  shows "list_all Q r"
  using assms
proof (induction cs arbitrary: seen acc)
  case (Cons c cs)
  obtain ids where ids: "ids_of c = Inr ids" using Cons.prems(1) by (auto simp: rbind_Inr_iff)
  note IH = Cons.IH [OF _ Cons.prems(2)]
  show ?case
    using Cons.prems(1,3) IH [of seen acc] IH [of "ids # seen" acc]
      IH [of "ids # seen" "acc @ [build c ids]"] Cons.prems(2) [OF _ ids]
    by (auto simp: ids split: if_splits)
qed simp

lemma candidate_loop_length:
  assumes "candidate_loop ids_of supported build m cs seen acc = Inr r" and "int (length acc) < m"
  shows "int (length r) \<le> m"
  using assms
proof (induction cs arbitrary: seen acc)
  case (Cons c cs)
  then show ?case by (auto simp: rbind_Inr_iff split: if_splits)
qed simp

lemma candidate_loop_distinct:
  assumes "candidate_loop ids_of supported build m cs seen acc = Inr r"
    and sig: "\<And>c ids. sig (build c ids) = ids"
    and "distinct (map sig acc)" and "sig ` set acc \<subseteq> set seen"
  shows "distinct (map sig r)"
  using assms(1,3,4)
proof (induction cs arbitrary: seen acc)
  case (Cons c cs)
  obtain ids where ids: "ids_of c = Inr ids" using Cons.prems(1) by (auto simp: rbind_Inr_iff)
  have add: "distinct (map sig (acc @ [build c ids]))" "sig ` set (acc @ [build c ids]) \<subseteq> set (ids # seen)"
    if "ids \<notin> set seen"
    using that Cons.prems(2,3) by (auto simp: sig)
  have keep: "sig ` set acc \<subseteq> set (ids # seen)" using Cons.prems(3) by auto
  show ?case
    using Cons.prems(1) Cons.IH [OF _ Cons.prems(2,3)] Cons.IH [OF _ Cons.prems(2) keep]
      Cons.IH [OF _ add] add(1)
    by (auto simp: ids split: if_splits)
qed simp

section \<open>The parts of a candidate\<close>

lemma node_lookup_Some: "node_lookup ns k = Some n \<Longrightarrow> n \<in> set ns \<and> nd_node_id n = k"
  using find_Some_iff [of "\<lambda>n. nd_node_id n = k" "rev ns" n] nth_mem [of _ "rev ns"]
  by (auto simp: node_lookup_def simp del: nth_mem)

lemma node_lookup_mem: "n \<in> set ns \<Longrightarrow> \<exists>n'. node_lookup ns (nd_node_id n) = Some n'"
  by (cases "node_lookup ns (nd_node_id n)") (auto simp: node_lookup_def find_None_iff)

lemma route_nodes_of_mem: "n \<in> set (route_nodes_of ns ids) \<Longrightarrow> n \<in> set ns \<and> nd_node_id n \<in> set ids"
  by (auto simp: route_nodes_of_def List.map_filter_def dest: node_lookup_Some)

lemma set_neighbours:
  "k' \<in> set (neighbours es k) \<longleftrightarrow>
     (\<exists>e \<in> set es. eg_source_node_id e = k \<and> eg_target_node_id e = k' \<or>
        eg_target_node_id e = k \<and> eg_source_node_id e = k')"
  by (auto simp: neighbours_def split: if_splits)

lemma set_route_edge_ids:
  "set (route_edge_ids_of es ids) =
     {eg_edge_id e | e. e \<in> set es \<and> eg_source_node_id e \<in> set ids \<and> eg_target_node_id e \<in> set ids}"
  by (auto simp: route_edge_ids_of_def edge_ids_of_pair_def split: if_splits)

definition route_edges_inside :: "edge_row list \<Rightarrow> string list \<Rightarrow> edge_row list" where
  "route_edges_inside es ids =
     filter (\<lambda>e. eg_source_node_id e \<in> set ids \<and> eg_target_node_id e \<in> set ids) es"

lemma route_edge_ids_eq:
  "route_edge_ids_of es ids = sorted_set (map eg_edge_id (route_edges_inside es ids))"
proof -
  have "set (route_edge_ids_of es ids) = set (map eg_edge_id (route_edges_inside es ids))"
    by (auto simp: set_route_edge_ids route_edges_inside_def)
  then have "sorted_set (route_edge_ids_of es ids) =
      sorted_set (map eg_edge_id (route_edges_inside es ids))"
    by (simp only: sorted_set_eq_iff)
  moreover have "sorted_set (route_edge_ids_of es ids) = route_edge_ids_of es ids"
    by (simp add: route_edge_ids_of_def sorted_set_def sort_key_id_if_sorted)
  ultimately show ?thesis by simp
qed

lemma route_node_ids_ok:
  assumes ids: "route_node_ids_of ns es c = Inr ids" and c: "c \<in> set ns" and es: "es = active_edges ns es'"
  shows "sorted ids" "distinct ids" "nd_node_id c \<in> set ids" "set ids \<subseteq> nd_node_id ` set ns"
proof -
  let ?near = "collect_route_node_ids (nd_node_id c) es"
  have near: "set ?near \<subseteq> nd_node_id ` set ns" "nd_node_id c \<in> set ?near"
    using c by (auto simp: collect_route_node_ids_def set_neighbours es active_edges_def)
  have set_route: "ids = ?near \<or> (\<exists>ctx. set ctx \<subseteq> set ns \<and>
      ids = sorted_set (?near @ take 6 (map nd_node_id ctx)))"
  proof -
    obtain anchors where "source_anchor_ids c = Inr anchors"
      using ids by (auto simp: route_node_ids_of_def add_source_context_node_ids_def rbind_Inr_iff)
    then show ?thesis
      using ids filter_is_subset [of "\<lambda>n. shares_source c anchors n = Inr True" ns]
      unfolding route_node_ids_of_def add_source_context_node_ids_def
      by (auto simp only: rbind_simps rbind_Inr_iff dest!: rfilter_Inr split: if_splits)
  qed
  show "sorted ids" "distinct ids"
    using set_route by (auto simp: collect_route_node_ids_def)
  show "nd_node_id c \<in> set ids" using set_route near(2) by auto
  show "set ids \<subseteq> nd_node_id ` set ns"
    using set_route near(1) by (elim disjE exE) (auto 0 3 dest!: in_set_takeD)
qed

section \<open>Properties\<close>

text \<open>
  What a candidate over the active nodes and edges is. The node ids are sorted and without
  repetition, they are active nodes and contain the conclusion, which is one of the seeds; the
  supports are at most three evidence or validation nodes of the route that have not failed, other
  than the conclusion; the next validation is a validation node of the route; the edges are all the
  active edges between nodes of the route; and a route that is not about a risk has a support.
\<close>

definition is_node_with :: "node_row list \<Rightarrow> (node_row \<Rightarrow> bool) \<Rightarrow> string \<Rightarrow> bool" where
  "is_node_with ns P k \<longleftrightarrow> list_ex (\<lambda>n. nd_node_id n = k \<and> P n) ns"

definition candidate_ok :: "node_row list \<Rightarrow> edge_row list \<Rightarrow> candidate \<Rightarrow> bool" where
  "candidate_ok ns es c \<longleftrightarrow>
     (let ids = cd_route_node_ids c; seed = cd_conclusion_node_id c;
          supports = cd_key_support_node_ids c
      in sorted ids \<and> distinct ids \<and> list_all (is_node_with ns (\<lambda>_. True)) ids \<and>
         seed \<in> set ids \<and> is_node_with (conclusion_nodes ns) (\<lambda>_. True) seed \<and>
         length supports \<le> 3 \<and>
         list_all (\<lambda>k. k \<in> set ids \<and> k \<noteq> seed \<and>
           is_node_with ns (\<lambda>n. is_support_node n \<and> nd_status n \<noteq> ''failed'') k) supports \<and>
         (supports \<noteq> [] \<or> is_node_with ns (\<lambda>n. nd_node_type n \<in> set risk_node_types) seed) \<and>
         (case cd_next_validation_node_id c of None \<Rightarrow> True
          | Some k \<Rightarrow> k \<in> set ids \<and> is_node_with ns (\<lambda>n. nd_node_type n = ''validation'') k) \<and>
         cd_route_edge_ids c = sorted_set (map eg_edge_id (route_edges_inside es ids)))"

lemma key_supports_ok:
  "list_all (\<lambda>k. k \<in> set ids \<and> k \<noteq> nd_node_id c \<and>
     is_node_with ns (\<lambda>n. is_support_node n \<and> nd_status n \<noteq> ''failed'') k)
     (key_supports_of c (route_nodes_of ns ids))"
  by (auto simp: list_all_iff key_supports_of_def is_node_with_def list_ex_iff
      dest!: in_set_takeD route_nodes_of_mem)

lemma next_validation_ok:
  assumes "first_of (next_validations_of (route_nodes_of ns ids)) = Some k"
  shows "k \<in> set ids \<and> is_node_with ns (\<lambda>n. nd_node_type n = ''validation'') k"
proof -
  have "k \<in> set (next_validations_of (route_nodes_of ns ids))"
    using assms by (auto simp: first_of_def split: list.splits)
  then show ?thesis
    by (auto simp: next_validations_of_def is_node_with_def list_ex_iff dest!: route_nodes_of_mem)
qed

lemma conclusion_nodes_subset: "set (conclusion_nodes ns) \<subseteq> set ns"
  by (auto simp: conclusion_nodes_def Let_def)

lemma candidate_of_ok:
  assumes c: "c \<in> set (conclusion_nodes ns)" and es: "es = active_edges ns es'"
    and ids: "route_node_ids_of ns es c = Inr ids" and sup: "candidate_supported ns c ids"
  shows "candidate_ok ns es (candidate_of w ns es v c ids)"
proof -
  have c': "c \<in> set ns" using c conclusion_nodes_subset by blast
  note route = route_node_ids_ok [OF ids c' es]
  have "list_all (is_node_with ns (\<lambda>_. True)) ids"
    using route(4) by (auto simp: list_all_iff is_node_with_def list_ex_iff)
  moreover have "key_supports_of c (route_nodes_of ns ids) \<noteq> [] \<or>
      is_node_with ns (\<lambda>n. nd_node_type n \<in> set risk_node_types) (nd_node_id c)"
    using sup c' by (auto simp: candidate_supported_def is_route_supported_def is_node_with_def
        list_ex_iff Let_def split: if_splits)
  moreover have "is_node_with (conclusion_nodes ns) (\<lambda>_. True) (nd_node_id c)"
    using c by (auto simp: is_node_with_def list_ex_iff)
  moreover have "length (key_supports_of c (route_nodes_of ns ids)) \<le> 3"
    by (simp add: key_supports_of_def)
  ultimately show ?thesis
    using route(1-3) key_supports_ok [of ids c ns] next_validation_ok [of ns ids]
    by (auto simp: candidate_ok_def candidate_of_def Let_def route_edge_ids_eq split: option.splits)
qed

lemma build_candidates_good:
  assumes b: "build_candidates w ns es v m = Inr cs"
  shows "list_all (candidate_ok (active_nodes ns) (active_edges (active_nodes ns) es)) cs"
    and "distinct (map cd_route_node_ids cs)" and "int (length cs) \<le> max 0 m"
proof -
  let ?ns = "active_nodes ns" and ?es = "active_edges (active_nodes ns) es"
  have "(m \<le> 0 \<and> cs = []) \<or> (0 < m \<and> candidate_loop (route_node_ids_of ?ns ?es)
      (candidate_supported ?ns) (candidate_of w ?ns ?es v) m (seed_order (conclusion_nodes ?ns)) [] [] = Inr cs)"
    using b by (auto simp: build_candidates_def Let_def split: if_splits)
  then consider "m \<le> 0" "cs = []" | "0 < m"
    "candidate_loop (route_node_ids_of ?ns ?es) (candidate_supported ?ns) (candidate_of w ?ns ?es v) m
       (seed_order (conclusion_nodes ?ns)) [] [] = Inr cs"
    by blast
  then have "list_all (candidate_ok ?ns ?es) cs \<and> distinct (map cd_route_node_ids cs) \<and> int (length cs) \<le> max 0 m"
  proof cases
    case 2
    have "list_all (candidate_ok ?ns ?es) cs"
      by (rule candidate_loop_all [OF 2(2)])
        (auto simp: seed_order_def intro!: candidate_of_ok)
    moreover have "distinct (map cd_route_node_ids cs)"
      by (rule candidate_loop_distinct [OF 2(2)]) (simp_all add: candidate_of_def Let_def)
    moreover have "int (length cs) \<le> m" using candidate_loop_length [OF 2(2)] 2(1) by simp
    ultimately show ?thesis by simp
  qed simp
  then show "list_all (candidate_ok ?ns ?es) cs" "distinct (map cd_route_node_ids cs)"
    "int (length cs) \<le> max 0 m" by simp_all
qed

text \<open>
  C31: Every candidate that is built is a sound route over the active graph; no two candidates have the
  same nodes, and there are no more than asked for.
\<close>

theorem build_candidates_sound:
  assumes "build_candidates w ns es v m = Inr cs"
  shows "list_all (candidate_ok (active_nodes ns) (active_edges (active_nodes ns) es)) cs \<and>
    distinct (map cd_route_node_ids cs) \<and> int (length cs) \<le> max 0 m"
  using build_candidates_good [OF assms] by simp

text \<open>
  C30: The loop over the seeds, with its early exits, amounts to a selection: of the seeds in the order
  of priority and id, keep the first one of every signature, drop those without support, take the first
  \<open>m\<close> and build their candidates.
\<close>

theorem build_candidates_selects:
  assumes "es' = active_edges (active_nodes ns) es" and "seeds = seed_order (conclusion_nodes (active_nodes ns))"
    and "rmap (route_node_ids_of (active_nodes ns) es') seeds = Inr sigs"
  shows "build_candidates w ns es v m =
    Inr (map (\<lambda>(c, ids). candidate_of w (active_nodes ns) es' v c ids)
      (take (nat m) (filter (\<lambda>(c, ids). candidate_supported (active_nodes ns) c ids)
        (first_by_signature [] (zip seeds sigs)))))"
  using candidate_loop_eq [OF assms(3), of "[]" m] assms(1,2)
  by (simp add: build_candidates_def Let_def)

text \<open>
  A supported route can be lost. An assumption (not a hypothesis) next to an evidence node that is
  itself a seed has that evidence as its support, but the evidence comes first, is not supported and
  takes the signature with it: no candidate is built at all.
\<close>

theorem supported_route_is_lost:
  assumes "nd_node_type e = ''evidence''" "meets (tags_of e) result_evidence_tags"
    and "nd_node_type a = ''assumption''" "nd_short_tags a = []"
    and "nd_status e = ''active''" "nd_status a = ''active''" "nd_node_id e \<noteq> nd_node_id a"
    and "nd_source_ref e = []" "nd_source_refs e = []" "nd_source_ref a = []" "nd_source_refs a = []"
    and "eg_source_node_id x = nd_node_id e" "eg_target_node_id x = nd_node_id a" "eg_status x = ''active''"
  shows "build_candidates w [e, a] [x] v m = Inr [] \<and>
    (\<exists>ids. route_node_ids_of [e, a] [x] a = Inr ids \<and> candidate_supported [e, a] a ids)"
proof -
  have ns: "active_nodes [e, a] = [e, a]" by (simp add: active_nodes_def inactive_statuses_def assms)
  have es: "active_edges [e, a] [x] = [x]" by (simp add: active_edges_def inactive_statuses_def assms)
  have tags: "tags_of a = []" by (simp add: tags_of_def assms)
  have prio: "route_priority e = 2" "route_priority a = 4"
    by (simp_all add: route_priority_def Let_def assms tags)
  have seeds: "conclusion_nodes [e, a] = [e, a]"
    by (simp add: conclusion_nodes_def is_primary_route_seed_def inactive_statuses_def
        primary_route_node_types_def assms Let_def tags)
  have order: "seed_order [e, a] = [e, a]"
    by (simp add: seed_order_def prio less_eq_prod_def insort_key.simps)
  let ?ids = "sorted_set [nd_node_id e, nd_node_id a]"
  have anchors: "source_anchor_ids e = Inr []" "source_anchor_ids a = Inr []"
    by (simp_all add: source_anchor_ids_def anchor_of_def get_or_def assms)
  have near: "set (neighbours [x] (nd_node_id e)) = {nd_node_id a}"
    "set (neighbours [x] (nd_node_id a)) = {nd_node_id e}"
    using assms(7) by (auto simp: neighbours_def assms(12-13))
  have "collect_route_node_ids (nd_node_id e) [x] = ?ids" "collect_route_node_ids (nd_node_id a) [x] = ?ids"
    by (auto simp: collect_route_node_ids_def sorted_set_eq_iff near)
  then have ids: "route_node_ids_of [e, a] [x] e = Inr ?ids" "route_node_ids_of [e, a] [x] a = Inr ?ids"
    by (simp_all add: route_node_ids_of_def add_source_context_node_ids_def anchors)
  have look: "node_lookup [e, a] (nd_node_id e) = Some e" "node_lookup [e, a] (nd_node_id a) = Some a"
    using assms(7) by (auto simp: node_lookup_def)
  have rns: "set (route_nodes_of [e, a] ?ids) = {e, a}"
    by (auto simp: route_nodes_of_def List.map_filter_def look)
  have "\<not> candidate_supported [e, a] e ?ids"
    using rns by (auto simp: candidate_supported_def is_route_supported_def risk_node_types_def
        key_supports_of_def is_support_node_def assms filter_empty_conv)
  moreover have "candidate_supported [e, a] a ?ids"
    using rns assms(7) by (auto simp: candidate_supported_def is_route_supported_def risk_node_types_def
        key_supports_of_def is_support_node_def assms filter_empty_conv)
  ultimately show ?thesis
    by (simp add: build_candidates_def Let_def ns es seeds order ids)
qed

section \<open>Examples\<close>

definition sample_route_nodes :: "node_row list" where
  "sample_route_nodes =
     [sample_node ''c'' ''w'' ''conclusion'' ''active'', sample_node ''e'' ''w'' ''evidence'' ''active'',
      sample_node ''v'' ''w'' ''validation'' ''active'', sample_node ''x'' ''w'' ''evidence'' ''archived'']"

definition sample_route_edges :: "edge_row list" where
  "sample_route_edges =
     [sample_edge ''ce'' ''w'' ''e'' ''c'' ''active'' 1, sample_edge ''cv'' ''w'' ''c'' ''v'' ''active'' 1,
      sample_edge ''cx'' ''w'' ''c'' ''x'' ''active'' 1]"

definition sample_candidate :: candidate where
  "sample_candidate =
     \<lparr>cd_workspace_id = ''w'', cd_conclusion_node_id = ''c'', cd_route_node_ids = [''c'', ''e'', ''v''],
      cd_key_support_node_ids = [''e'', ''v''], cd_key_assumption_node_ids = [], cd_risk_node_ids = [],
      cd_next_validation_node_id = Some ''v'', cd_next_validation_action = ''Execute validation: v'',
      cd_version_id = None, cd_route_edge_ids = [''ce'', ''cv'']\<rparr>"

lemma sample_candidates:
  "build_candidates ''w'' sample_route_nodes sample_route_edges None 8 = Inr [sample_candidate]"
  by code_simp

theorem build_candidates_sound_witness:
  "candidate_ok (active_nodes sample_route_nodes)
     (active_edges (active_nodes sample_route_nodes) sample_route_edges) sample_candidate"
  using build_candidates_sound [OF sample_candidates] by simp

text \<open>The seeds are the conclusion and the validation; the second one has no support of its own.\<close>

definition sample_active :: "node_row list" where
  "sample_active = active_nodes sample_route_nodes"

definition sample_active_edges :: "edge_row list" where
  "sample_active_edges = active_edges (active_nodes sample_route_nodes) sample_route_edges"

lemma sample_signatures:
  "rmap (route_node_ids_of (active_nodes sample_route_nodes) sample_active_edges)
     (seed_order (conclusion_nodes (active_nodes sample_route_nodes))) =
   Inr [[''c'', ''e'', ''v''], [''c'', ''v'']]"
  by code_simp

theorem build_candidates_selects_witness:
  "build_candidates ''w'' sample_route_nodes sample_route_edges None 8 =
   Inr (map (\<lambda>(c, ids). candidate_of ''w'' sample_active sample_active_edges None c ids)
     (take 8 (filter (\<lambda>(c, ids). candidate_supported sample_active c ids)
       (first_by_signature [] (zip (seed_order (conclusion_nodes sample_active))
         [[''c'', ''e'', ''v''], [''c'', ''v'']])))))"
  using build_candidates_selects [OF sample_active_edges_def refl sample_signatures, of "''w''" None 8]
  by (simp add: sample_active_def)

definition result_node :: node_row where
  "result_node = (sample_node ''e'' ''w'' ''evidence'' ''active'')\<lparr>nd_short_tags := [''result'']\<rparr>"

theorem supported_route_is_lost_witness:
  "build_candidates ''w'' [result_node, sample_node ''a'' ''w'' ''assumption'' ''active'']
     [sample_edge ''ea'' ''w'' ''e'' ''a'' ''active'' 1] None 8 = Inr []"
proof -
  have "meets (tags_of result_node) result_evidence_tags" by code_simp
  from supported_route_is_lost [OF _ this, of "sample_node ''a'' ''w'' ''assumption'' ''active''"
      "sample_edge ''ea'' ''w'' ''e'' ''a'' ''active'' 1" "''w''" None 8]
  show ?thesis by (simp add: result_node_def sample_node_def sample_edge_def)
qed

end
