(* ===== verification/RouteSummary.thy ===== *)
theory RouteSummary
  imports RouteCandidates ScoringFactors
begin

text \<open>
  \<^verbatim>\<open>routing/summarizer.py\<close> and \<^verbatim>\<open>services/llm_trace.py\<close>: the context of a route that
  a language model summarises, the validation of its answer, and the summary that replaces it when
  there is no usable answer.

  The language model is the parameter \<open>llm\<close>: what \<^verbatim>\<open>invoke_json\<close> answers to a
  context, or the \<^verbatim>\<open>ResearchLLMError\<close> it raises. The rendering of the prompt is part of it.
  The Chinese texts are parameters too, because their characters are outside the character type.
\<close>

section \<open>The context\<close>

record node_ref =
  nf_node_id :: string
  nf_node_type :: string
  nf_object_ref_type :: string
  nf_object_ref_id :: string
  nf_short_label :: string
  nf_full_description :: string
  nf_source_quote :: string
  nf_source_page :: string
  nf_source_anchor_id :: string
  nf_status :: string

definition page_of :: "payload \<Rightarrow> py_error + string" where
  "page_of item =
     (case get_or item ''source_span'' VNone of
        VDict place \<Rightarrow>
          (case get_or place ''page'' VNone of VNone \<Rightarrow> Inr [] | page \<Rightarrow> py_str page)
      | _ \<Rightarrow> Inr [])"

fun source_ref_fields :: "payload list \<Rightarrow> py_error + string \<times> string \<times> string" where
  "source_ref_fields [] = Inr ([], [], [])"
| "source_ref_fields (item # items) =
     rbind (py_str (get_or item ''quote'' (VStr []))) (\<lambda>q.
     rbind (py_str (get_or item ''anchor_id'' (VStr []))) (\<lambda>a.
     rbind (page_of item) (\<lambda>page.
       if strip q \<noteq> [] \<or> strip a \<noteq> [] \<or> page \<noteq> [] then Inr (strip q, page, strip a)
       else source_ref_fields items)))"

definition node_ref_of :: "node_row option \<Rightarrow> string \<Rightarrow> py_error + node_ref" where
  "node_ref_of node fallback_node_id =
     (case node of
        None \<Rightarrow> Inr
          \<lparr>nf_node_id = fallback_node_id, nf_node_type = ''unknown'',
           nf_object_ref_type = ''unknown'', nf_object_ref_id = [],
           nf_short_label = fallback_node_id, nf_full_description = [], nf_source_quote = [],
           nf_source_page = [], nf_source_anchor_id = [], nf_status = ''unknown''\<rparr>
      | Some n \<Rightarrow>
          rbind (source_ref_fields (nd_source_ref n # nd_source_refs n)) (\<lambda>(quote, page, anchor).
            Inr \<lparr>nf_node_id = nd_node_id n, nf_node_type = nd_node_type n,
                 nf_object_ref_type = nd_object_ref_type n, nf_object_ref_id = nd_object_ref_id n,
                 nf_short_label = nd_short_label n, nf_full_description = nd_full_description n,
                 nf_source_quote = quote, nf_source_page = page, nf_source_anchor_id = anchor,
                 nf_status = nd_status n\<rparr>))"

definition compact_label :: "string \<Rightarrow> nat \<Rightarrow> string" where
  "compact_label raw max_len =
     (let collapsed = join_with '' '' (split_ws raw)
      in if length collapsed \<le> max_len then collapsed
         else rstrip (take max_len collapsed) @ ''...'')"

record summary_texts =
  tx_title_prefix :: string
  tx_default_conclusion :: string
  tx_fallback :: "string \<Rightarrow> nat \<Rightarrow> nat \<Rightarrow> nat \<Rightarrow> string"
  tx_backend_hint :: string

record route_context =
  rc_title :: string
  rc_conclusion :: string
  rc_key_supports :: "string list"
  rc_assumptions :: "string list"
  rc_risks :: "string list"
  rc_conclusion_node :: node_ref
  rc_key_support_evidence :: "node_ref list"
  rc_key_assumptions :: "node_ref list"
  rc_conflict_failure_hints :: "(node_ref \<times> string) list"
  rc_next_validation_action :: string
  rc_top_factors :: "payload list"
  rc_version_id :: "string option"
  rc_route_node_ids :: "string list"
  rc_route_edge_ids :: "string list"
  rc_all_route_nodes :: "node_ref list"

definition descriptions_of :: "node_ref list \<Rightarrow> string list" where
  "descriptions_of refs =
     filter (\<lambda>t. t \<noteq> [])
       (map (\<lambda>r. if nf_full_description r \<noteq> [] then nf_full_description r else nf_short_label r) refs)"

definition hint_of :: "node_ref \<Rightarrow> string" where
  "hint_of r = ''Risk signal from '' @ (if nf_short_label r \<noteq> [] then nf_short_label r else nf_node_id r)"

definition conclusion_text :: "node_ref \<Rightarrow> string" where
  "conclusion_text r =
     (if strip (nf_full_description r) \<noteq> [] then strip (nf_full_description r)
      else if strip (nf_short_label r) \<noteq> [] then strip (nf_short_label r)
      else nf_node_id r)"

definition build_structured_context ::
  "summary_texts \<Rightarrow> candidate \<Rightarrow> node_row list \<Rightarrow> payload list \<Rightarrow> py_error + route_context"
where
  "build_structured_context tx c nodes top_factors =
     (let ref = (\<lambda>i. node_ref_of (node_lookup nodes i) i)
      in rbind (ref (cd_conclusion_node_id c)) (\<lambda>conclusion_node.
         rbind (rmap ref (cd_key_support_node_ids c)) (\<lambda>supports.
         rbind (rmap ref (cd_key_assumption_node_ids c)) (\<lambda>assumptions.
         rbind (rmap ref (cd_risk_node_ids c)) (\<lambda>risks.
         rbind (rmap ref (cd_route_node_ids c)) (\<lambda>all_nodes.
           Inr \<lparr>rc_title = tx_title_prefix tx @ compact_label (conclusion_text conclusion_node) 40,
                rc_conclusion = conclusion_text conclusion_node,
                rc_key_supports = descriptions_of supports,
                rc_assumptions = descriptions_of assumptions,
                rc_risks = map hint_of risks,
                rc_conclusion_node = conclusion_node,
                rc_key_support_evidence = supports,
                rc_key_assumptions = assumptions,
                rc_conflict_failure_hints = map (\<lambda>r. (r, hint_of r)) risks,
                rc_next_validation_action =
                  (if strip (cd_next_validation_action c) \<noteq> [] then strip (cd_next_validation_action c)
                   else ''Validate conclusion node '' @ nf_node_id conclusion_node @
                     '' with targeted experiment''),
                rc_top_factors = take 3 top_factors,
                rc_version_id = cd_version_id c,
                rc_route_node_ids = cd_route_node_ids c,
                rc_route_edge_ids = cd_route_edge_ids c,
                rc_all_route_nodes = all_nodes\<rparr>))))))"

section \<open>The answer of the language model\<close>

record llm_result =
  lr_provider_backend :: string
  lr_provider_model :: string
  lr_request_id :: string
  lr_llm_response_id :: string
  lr_usage :: payload
  lr_parsed_json :: pyval
  lr_fallback_used :: bool
  lr_degraded :: bool
  lr_degraded_reason :: "string option"

definition invalid_output :: "string \<Rightarrow> payload \<Rightarrow> api_error" where
  "invalid_output message details = ServiceError 502 ''research.llm_invalid_output'' message details"

text \<open>The ids that the model may have written into its text are replaced by the labels, longest first.\<close>

definition replacement_of :: "node_ref \<Rightarrow> (string \<times> string) list" where
  "replacement_of r =
     (let node_id = strip (nf_node_id r);
          label = (if strip (nf_full_description r) \<noteq> [] then strip (nf_full_description r)
                   else strip (nf_short_label r))
      in if node_id \<noteq> [] \<and> label \<noteq> [] \<and> label \<noteq> node_id then [(node_id, label)] else [])"

definition replace_raw_node_ids :: "node_ref list \<Rightarrow> string \<Rightarrow> string" where
  "replace_raw_node_ids refs t =
     fold (\<lambda>(node_id, label) t. replace_all node_id label t)
       (sort_key (\<lambda>p. - int (length (fst p))) (concat (map replacement_of refs))) t"

definition node_refs_values :: "string \<Rightarrow> payload \<Rightarrow> api_error + pyval list" where
  "node_refs_values field_name item =
     (case get_or item ''node_refs'' VNone of
        VStr s \<Rightarrow> Inr [VStr s]
      | VList xs \<Rightarrow> Inr xs
      | VNone \<Rightarrow> Inr []
      | _ \<Rightarrow> Inl (invalid_output (field_name @ ''.node_refs must be array'')
               [(''field'', VStr field_name)]))"

record summary_item =
  si_text :: string
  si_node_refs :: "string list"

definition validate_structured_item ::
  "string list \<Rightarrow> node_ref list \<Rightarrow> string \<Rightarrow> pyval \<Rightarrow> api_error + summary_item"
where
  "validate_structured_item allowed route_nodes field_name raw =
     (case raw of
        VDict item \<Rightarrow>
          rbind (conversion_result (py_str (get_or item ''text'' (VStr [])))) (\<lambda>t.
          let body = replace_raw_node_ids route_nodes (strip t)
          in rbind
               (guard_else (invalid_output (field_name @ ''.text is required'')
                 [(''field'', VStr field_name)]) (body \<noteq> [])) (\<lambda>_.
             rbind (node_refs_values field_name item) (\<lambda>values.
             rbind (conversion_result (rmap py_str values)) (\<lambda>refs.
             rbind
               (guard_else (invalid_output (field_name @ ''.node_refs contains ids outside this route'')
                 [(''field'', VStr field_name),
                  (''invalid_node_refs'', strs (filter (\<lambda>i. i \<notin> set allowed) refs))])
                 (filter (\<lambda>i. i \<notin> set allowed) refs = [])) (\<lambda>_.
               Inr \<lparr>si_text = body, si_node_refs = filter (\<lambda>i. i \<in> set allowed) refs\<rparr>)))))
      | _ \<Rightarrow> Inl (invalid_output (field_name @ '' items must be objects'')
               [(''field'', VStr field_name)]))"

definition validate_structured_items ::
  "string list \<Rightarrow> node_ref list \<Rightarrow> payload \<Rightarrow> string \<Rightarrow> api_error + summary_item list"
where
  "validate_structured_items allowed route_nodes parsed field_name =
     (case get_or parsed field_name VNone of
        VNone \<Rightarrow> Inr []
      | VList items \<Rightarrow> rmap (validate_structured_item allowed route_nodes field_name) items
      | _ \<Rightarrow> Inl (invalid_output (field_name @ '' must be an array'') [(''field'', VStr field_name)]))"

record llm_fields =
  lf_summary :: string
  lf_key_strengths :: "summary_item list"
  lf_key_risks :: "summary_item list"
  lf_open_questions :: "summary_item list"

type_synonym llm_error = "int \<times> string \<times> string \<times> payload"
type_synonym llm = "route_context \<Rightarrow> llm_error + llm_result"

definition parse_llm_fields :: "route_context \<Rightarrow> pyval \<Rightarrow> api_error + llm_fields" where
  "parse_llm_fields ctx json =
     (case json of
        VDict parsed \<Rightarrow>
          rbind (conversion_result (py_str (get_or parsed ''summary'' (VStr [])))) (\<lambda>t.
          rbind (guard_else (invalid_output ''route summary is empty'' []) (strip t \<noteq> [])) (\<lambda>_.
          let refs = rc_all_route_nodes ctx; allowed = map nf_node_id refs
          in rbind (validate_structured_items allowed refs parsed ''key_strengths'') (\<lambda>strengths.
             rbind (validate_structured_items allowed refs parsed ''key_risks'') (\<lambda>risks.
             rbind (validate_structured_items allowed refs parsed ''open_questions'') (\<lambda>questions.
               Inr \<lparr>lf_summary = replace_raw_node_ids refs (strip t), lf_key_strengths = strengths,
                    lf_key_risks = risks, lf_open_questions = questions\<rparr>)))))
      | _ \<Rightarrow> Inl (invalid_output ''route summary output must be object json'' []))"

definition summarize_with_llm :: "llm \<Rightarrow> route_context \<Rightarrow> api_error + llm_fields \<times> llm_result" where
  "summarize_with_llm llm ctx =
     (case llm ctx of
        Inl (status_code, error_code, message, details) \<Rightarrow>
          Inl (ServiceError status_code error_code message details)
      | Inr res \<Rightarrow> rbind (parse_llm_fields ctx (lr_parsed_json res)) (\<lambda>answer. Inr (answer, res)))"

section \<open>Summaries\<close>

text \<open>A summary is the context with the fields of the answer; the flags of its generation are those of the trace.\<close>

record final_summary = route_context +
  fs_summary :: string
  fs_key_strengths :: "summary_item list"
  fs_key_risks :: "summary_item list"
  fs_open_questions :: "summary_item list"
  fs_summary_generation_mode :: string

definition llm_summary :: "route_context \<Rightarrow> llm_fields \<Rightarrow> final_summary" where
  "llm_summary ctx f =
     route_context.extend ctx
       (final_summary.fields (lf_summary f) (lf_key_strengths f) (lf_key_risks f) (lf_open_questions f)
         ''llm'')"

definition build_fallback_summary :: "summary_texts \<Rightarrow> route_context \<Rightarrow> final_summary" where
  "build_fallback_summary tx ctx =
     (let conclusion = (if strip (rc_conclusion ctx) \<noteq> [] then strip (rc_conclusion ctx)
                        else tx_default_conclusion tx)
      in route_context.extend ctx
           (final_summary.fields
             (tx_fallback tx conclusion (length (rc_key_support_evidence ctx))
               (length (rc_key_assumptions ctx)) (length (rc_conflict_failure_hints ctx)))
             [] [] [] ''degraded_fallback''))"

definition fallback_trace :: "summary_texts \<Rightarrow> string \<Rightarrow> string \<Rightarrow> llm_result" where
  "fallback_trace tx request_id error_code =
     \<lparr>lr_provider_backend = tx_backend_hint tx, lr_provider_model = [], lr_request_id = request_id,
      lr_llm_response_id = [],
      lr_usage = [(''prompt_tokens'', VNone), (''completion_tokens'', VNone), (''total_tokens'', VNone)],
      lr_parsed_json = VNone, lr_fallback_used = True, lr_degraded = True,
      lr_degraded_reason = Some error_code\<rparr>"

definition summarize ::
  "summary_texts \<Rightarrow> llm \<Rightarrow> candidate \<Rightarrow> node_row list \<Rightarrow> payload list \<Rightarrow> string \<Rightarrow> bool \<Rightarrow>
   api_error + final_summary \<times> llm_result"
where
  "summarize tx llm c nodes top_factors request_id allow_fallback =
     rbind (conversion_result (build_structured_context tx c nodes top_factors)) (\<lambda>ctx.
       case summarize_with_llm llm ctx of
         Inr (answer, trace) \<Rightarrow> Inr (llm_summary ctx answer, trace)
       | Inl (ServiceError status_code error_code message details) \<Rightarrow>
           if allow_fallback
           then Inr (build_fallback_summary tx ctx, fallback_trace tx request_id error_code)
           else Inl (ServiceError status_code error_code message details)
       | Inl e \<Rightarrow> Inl e)"

section \<open>The trace of a call\<close>

definition to_number_or_none :: "pyval \<Rightarrow> py_error + pyval" where
  "to_number_or_none v =
     (case v of
        VList xs \<Rightarrow> rbind (py_str v) (\<lambda>s. Inr (VStr s))
      | VDict d \<Rightarrow> rbind (py_str v) (\<lambda>s. Inr (VStr s))
      | _ \<Rightarrow> Inr v)"

definition normalize_usage :: "payload \<Rightarrow> py_error + pyval \<times> pyval \<times> pyval" where
  "normalize_usage usage =
     rbind (to_number_or_none (get_or usage ''prompt_tokens'' VNone)) (\<lambda>p.
     rbind (to_number_or_none (get_or usage ''completion_tokens'' VNone)) (\<lambda>c.
     rbind (to_number_or_none (get_or usage ''total_tokens'' VNone)) (\<lambda>t. Inr (p, c, t))))"

section \<open>Properties\<close>

definition refs_inside :: "string list \<Rightarrow> summary_item \<Rightarrow> bool" where
  "refs_inside ids i \<longleftrightarrow> si_text i \<noteq> [] \<and> list_all (\<lambda>k. k \<in> set ids) (si_node_refs i)"

lemma validated_items_inside:
  assumes "validate_structured_items allowed refs parsed f = Inr items"
  shows "list_all (refs_inside allowed) items"
proof -
  have "refs_inside allowed i" if "validate_structured_item allowed refs f v = Inr i" for v i
    using that by (auto simp: validate_structured_item_def rbind_Inr_iff Let_def refs_inside_def
        list_all_iff split: pyval.splits)
  moreover have "items = [] \<or> (\<exists>vs. rmap (validate_structured_item allowed refs f) vs = Inr items)"
    using assms by (auto simp: validate_structured_items_def split: pyval.splits)
  ultimately show ?thesis
    using rmap_Inr_list_all2 by (fastforce simp: list_all_length list_all2_conv_all_nth)
qed

lemma node_ref_of_id: "node_ref_of (node_lookup nodes i) i = Inr r \<Longrightarrow> nf_node_id r = i"
  by (auto simp: node_ref_of_def rbind_Inr_iff split: option.splits dest: node_lookup_Some)

lemma context_route_nodes:
  assumes "build_structured_context tx c nodes tops = Inr ctx"
  shows "map nf_node_id (rc_all_route_nodes ctx) = cd_route_node_ids c"
    and "rc_route_node_ids ctx = cd_route_node_ids c"
proof -
  obtain ns where ns: "rmap (\<lambda>i. node_ref_of (node_lookup nodes i) i) (cd_route_node_ids c) = Inr ns"
    and ctx: "rc_all_route_nodes ctx = ns" "rc_route_node_ids ctx = cd_route_node_ids c"
    using assms by (auto simp: build_structured_context_def rbind_Inr_iff Let_def)
  have "list_all2 (\<lambda>i r. nf_node_id r = i) (cd_route_node_ids c) ns"
    using rmap_Inr_list_all2 [OF ns] by (rule list_all2_mono) (rule node_ref_of_id)
  then show "map nf_node_id (rc_all_route_nodes ctx) = cd_route_node_ids c"
    unfolding ctx by (induction rule: list_all2_induct) simp_all
  show "rc_route_node_ids ctx = cd_route_node_ids c" by (rule ctx(2))
qed

lemma extend_fields [simp]:
  "fs_key_strengths (llm_summary ctx f) = lf_key_strengths f"
  "fs_key_risks (llm_summary ctx f) = lf_key_risks f"
  "fs_open_questions (llm_summary ctx f) = lf_open_questions f"
  "fs_summary_generation_mode (llm_summary ctx f) = ''llm''"
  "fs_key_strengths (build_fallback_summary tx ctx) = []"
  "fs_key_risks (build_fallback_summary tx ctx) = []"
  "fs_open_questions (build_fallback_summary tx ctx) = []"
  "fs_summary_generation_mode (build_fallback_summary tx ctx) = ''degraded_fallback''"
  by (simp_all add: llm_summary_def build_fallback_summary_def route_context.defs final_summary.defs Let_def)

text \<open>
  Whatever the language model answers, a summary that is accepted speaks of the nodes of its route
  only: every strength, risk and question has a text and refers to node ids of the route.
\<close>

theorem summary_refers_inside_route:
  assumes "summarize tx llm c nodes tops q fb = Inr (fs, trace)"
  shows "list_all (refs_inside (cd_route_node_ids c))
    (fs_key_strengths fs @ fs_key_risks fs @ fs_open_questions fs)"
proof -
  obtain ctx where ctx: "build_structured_context tx c nodes tops = Inr ctx"
    using assms by (auto simp: summarize_def rbind_Inr_iff conversion_result_def split: sum.splits)
  note ids = context_route_nodes(1) [OF ctx]
  consider f where "summarize_with_llm llm ctx = Inr (f, trace)" "fs = llm_summary ctx f"
    | "fs = build_fallback_summary tx ctx"
    using assms
    by (auto simp: summarize_def ctx conversion_result_def split: sum.splits api_error.splits if_splits)
  then show ?thesis
  proof cases
    case (1 f)
    obtain parsed where
      v: "validate_structured_items (cd_route_node_ids c) (rc_all_route_nodes ctx) parsed ''key_strengths'' =
        Inr (lf_key_strengths f)"
      "validate_structured_items (cd_route_node_ids c) (rc_all_route_nodes ctx) parsed ''key_risks'' =
        Inr (lf_key_risks f)"
      "validate_structured_items (cd_route_node_ids c) (rc_all_route_nodes ctx) parsed ''open_questions'' =
        Inr (lf_open_questions f)"
      using 1(1)
      by (auto simp: summarize_with_llm_def parse_llm_fields_def ids rbind_Inr_iff Let_def
          split: sum.splits pyval.splits)
    show ?thesis using validated_items_inside [OF v(1)] validated_items_inside [OF v(2)]
      validated_items_inside [OF v(3)] by (simp add: 1(2))
  qed simp
qed

section \<open>Examples\<close>

definition sample_texts :: summary_texts where
  "sample_texts =
     \<lparr>tx_title_prefix = ''Route: '', tx_default_conclusion = ''conclusion'',
      tx_fallback = (\<lambda>conclusion a b c. ''degraded''), tx_backend_hint = ''none''\<rparr>"

definition sample_answer :: llm_result where
  "sample_answer =
     \<lparr>lr_provider_backend = ''b'', lr_provider_model = ''m'', lr_request_id = ''q'',
      lr_llm_response_id = ''a'', lr_usage = [(''total_tokens'', VInt 7)],
      lr_parsed_json =
        VDict [(''summary'', VStr ''fine''),
          (''key_strengths'', VList [VDict [(''text'', VStr ''strong''), (''node_refs'', VList [VStr ''e''])]])],
      lr_fallback_used = False, lr_degraded = False, lr_degraded_reason = None\<rparr>"

lemma sample_summary:
  "case summarize sample_texts (\<lambda>_. Inr sample_answer) sample_candidate sample_route_nodes [] ''q'' True of
     Inl _ \<Rightarrow> False
   | Inr (fs, _) \<Rightarrow> fs_key_strengths fs = [\<lparr>si_text = ''strong'', si_node_refs = [''e'']\<rparr>]"
  by code_simp

theorem summary_refers_inside_route_witness:
  "\<exists>fs trace. summarize sample_texts (\<lambda>_. Inr sample_answer) sample_candidate sample_route_nodes [] ''q'' True =
     Inr (fs, trace) \<and> list_all (refs_inside [''c'', ''e'', ''v''])
       (fs_key_strengths fs @ fs_key_risks fs @ fs_open_questions fs)"
proof -
  obtain fs trace where
    s: "summarize sample_texts (\<lambda>_. Inr sample_answer) sample_candidate sample_route_nodes [] ''q'' True =
      Inr (fs, trace)"
    using sample_summary by (auto split: sum.splits)
  from summary_refers_inside_route [OF s] s show ?thesis by (auto simp: sample_candidate_def)
qed

end
