(* ===== verification/RouteGeneration.thy ===== *)
theory RouteGeneration
  imports ScoreService RouteRanker RouteSummary
begin

text \<open>
  \<^verbatim>\<open>services/route_generation_service.py\<close>: the routes of a workspace are replaced by the
  scored, summarised and ranked candidates of its graph. The ids of the routes created so far are part
  of the state, because the handlers of the exceptions delete these routes.

  The service waits for its summaries; \<open>sv_meanwhile\<close> is what the other tasks do to the store in that
  time, \<open>sv_cancelled\<close> whether the task is cancelled there, and \<open>sv_first_error\<close> which of
  several failing summaries \<^verbatim>\<open>asyncio.gather\<close> sees first.
\<close>

section \<open>The seed of a route\<close>

definition node_label :: "node_row option \<Rightarrow> string" where
  "node_label n = (case n of None \<Rightarrow> [] | Some x \<Rightarrow> strip (nd_short_label x))"

definition labels_of :: "node_row list \<Rightarrow> string list \<Rightarrow> string list" where
  "labels_of nodes ids = filter (\<lambda>l. l \<noteq> []) (map (\<lambda>i. node_label (node_lookup nodes i)) ids)"

definition build_relation_tags :: "candidate \<Rightarrow> node_row list \<Rightarrow> string list" where
  "build_relation_tags c nodes =
     (let ty = (case node_lookup nodes (cd_conclusion_node_id c) of None \<Rightarrow> [] | Some n \<Rightarrow> nd_node_type n);
          supports = cd_key_support_node_ids c;
          assumptions = cd_key_assumption_node_ids c;
          object_types = remdups (map (\<lambda>n. strip (nd_object_ref_type n))
            (filter (\<lambda>n. nd_node_type n \<notin> set [''failure'', ''conflict''])
              (route_nodes_of nodes (cd_route_node_ids c))));
          tags =
            (if ty \<in> set [''conclusion'', ''assumption'', ''validation'', ''branch''] then [''claim_centered'']
             else if ty = ''evidence'' then [''evidence_centered''] else []) @
            (if supports \<noteq> [] then [''direct_support''] else []) @
            (if 2 \<le> length object_types \<or> supports \<noteq> [] \<and> assumptions \<noteq> [] then [''recombination''] else []) @
            (if supports = [] \<and> (assumptions \<noteq> [] \<or> cd_risk_node_ids c \<noteq> [])
             then [''upstream_inspiration''] else [])
      in if tags = [] then [''upstream_inspiration''] else tags)"

definition item_payload :: "summary_item \<Rightarrow> payload" where
  "item_payload i = [(''text'', VStr (si_text i)), (''node_refs'', strs (si_node_refs i))]"

definition no_trace :: "string \<Rightarrow> generation" where
  "no_trace mode =
     \<lparr>gn_provider_backend = None, gn_provider_model = None, gn_llm_request_id = None,
      gn_llm_response_id = None, gn_usage = None, gn_fallback_used = False, gn_degraded = False,
      gn_degraded_reason = None, gn_summary_generation_mode = Some mode\<rparr>"

text \<open>The arguments that both \<^verbatim>\<open>create_route\<close> and the projection take from the candidate.\<close>

definition candidate_args :: "string \<Rightarrow> string option \<Rightarrow> candidate \<Rightarrow> string \<Rightarrow> string \<Rightarrow> string \<Rightarrow> route_row" where
  "candidate_args workspace_id version_id c title summary conclusion =
     \<lparr>rr_route_id = [], rr_workspace_id = workspace_id, rr_title = title, rr_summary = summary,
      rr_status = ''candidate'', rr_support_score = 0, rr_risk_score = 0,
      rr_progressability_score = 0, rr_confidence_score = None, rr_confidence_grade = None,
      rr_rank = None, rr_novelty_level = Some ''incremental'', rr_relation_tags = [],
      rr_top_factors = [], rr_score_breakdown = [], rr_node_score_breakdown = [],
      rr_scoring_template_id = None, rr_scored_at = None, rr_conclusion = conclusion,
      rr_key_supports = [], rr_assumptions = [], rr_risks = [], rr_next_validation_action = [],
      rr_conclusion_node_id = Some (cd_conclusion_node_id c),
      rr_route_node_ids = cd_route_node_ids c, rr_route_edge_ids_json = JsonNull,
      rr_key_support_node_ids = cd_key_support_node_ids c,
      rr_key_assumption_node_ids = cd_key_assumption_node_ids c,
      rr_risk_node_ids = cd_risk_node_ids c,
      rr_next_validation_node_id =
        (if truthy (cd_next_validation_node_id c) then cd_next_validation_node_id c else None),
      rr_version_id = version_id, rr_key_strengths = [], rr_key_risks = [], rr_open_questions = [],
      rr_generation = no_trace ''pending_llm''\<rparr>"

definition seed_args :: "string \<Rightarrow> string option \<Rightarrow> node_row list \<Rightarrow> candidate \<Rightarrow> route_row" where
  "seed_args workspace_id version_id nodes c =
     (let label = node_label (node_lookup nodes (cd_conclusion_node_id c));
          conclusion = (if label \<noteq> [] then label else ''Pending route summary'')
      in (candidate_args workspace_id version_id c conclusion conclusion conclusion)
           \<lparr>rr_relation_tags := build_relation_tags c nodes,
            rr_key_supports := labels_of nodes (cd_key_support_node_ids c),
            rr_assumptions := labels_of nodes (cd_key_assumption_node_ids c),
            rr_risks := labels_of nodes (cd_risk_node_ids c),
            rr_next_validation_action := strip (cd_next_validation_action c)\<rparr>)"

section \<open>Creating and scoring the routes\<close>

type_synonym gen_state = "store \<times> string list"
type_synonym 'a gen_proc = "(gen_state, api_error, 'a) proc"

definition in_store :: "'a store_proc \<Rightarrow> 'a gen_proc" where
  "in_store m st = (case m (fst st) of (r, s) \<Rightarrow> (r, (s, snd st)))"

definition note_route :: "string \<Rightarrow> unit gen_proc" where
  "note_route route_id = writing (\<lambda>(s, ids). (s, ids @ [route_id]))"

definition new_route :: "route_row \<Rightarrow> string list \<Rightarrow> string gen_proc" where
  "new_route args route_edge_ids =
     and_then (in_store (create_route args route_edge_ids False)) (\<lambda>created.
     and_then (require NoneSubscript created) (\<lambda>route.
     and_then (note_route (rr_route_id route)) (\<lambda>_. ret (rr_route_id route))))"

record prepared_route =
  pr_index :: nat
  pr_candidate :: candidate
  pr_route_id :: string
  pr_top_factors :: "payload list"

definition prepare_route ::
  "string \<Rightarrow> string \<Rightarrow> string option \<Rightarrow> node_row list \<Rightarrow> nat \<times> candidate \<Rightarrow> prepared_route list \<Rightarrow>
   prepared_route list gen_proc"
where
  "prepare_route workspace_id request_id version_id nodes ic prepared =
     and_then (new_route (seed_args workspace_id version_id nodes (snd ic)) (cd_route_edge_ids (snd ic)))
       (\<lambda>route_id.
     and_then
       (in_store (score_route workspace_id route_id request_id None (cd_route_node_ids (snd ic))))
       (\<lambda>scored.
       ret (prepared @ [\<lparr>pr_index = fst ic, pr_candidate = snd ic, pr_route_id = route_id,
                          pr_top_factors = rr_top_factors scored\<rparr>])))"

section \<open>Waiting for the summaries\<close>

record route_services =
  sv_texts :: summary_texts
  sv_llm :: "nat \<Rightarrow> llm"
  sv_meanwhile :: "store \<Rightarrow> store"
  sv_cancelled :: bool
  sv_first_error :: "api_error list \<Rightarrow> nat"
  sv_error_text :: "api_error \<Rightarrow> string"

definition errors_of :: "('e + 'a) list \<Rightarrow> 'e list" where
  "errors_of rs = List.map_filter (\<lambda>r. case r of Inl e \<Rightarrow> Some e | Inr _ \<Rightarrow> None) rs"

definition values_of :: "('e + 'a) list \<Rightarrow> 'a list" where
  "values_of rs = List.map_filter (\<lambda>r. case r of Inl _ \<Rightarrow> None | Inr v \<Rightarrow> Some v) rs"

definition summarize_prepared_routes ::
  "route_services \<Rightarrow> prepared_route list \<Rightarrow> node_row list \<Rightarrow> string \<Rightarrow> bool \<Rightarrow>
   (final_summary \<times> llm_result) list gen_proc"
where
  "summarize_prepared_routes sv prepared nodes request_id allow_fallback =
     and_then (writing (\<lambda>(s, ids). (sv_meanwhile sv s, ids))) (\<lambda>_.
     and_then (check CancelledError (\<not> sv_cancelled sv)) (\<lambda>_.
       (let results = map (\<lambda>p. summarize (sv_texts sv) (sv_llm sv (pr_index p)) (pr_candidate p) nodes
              (pr_top_factors p) request_id allow_fallback) prepared;
            errors = errors_of results
        in if errors = [] then ret (values_of results)
           else fail (errors ! (sv_first_error sv errors mod length errors)))))"

section \<open>Projecting the summaries\<close>

text \<open>\<^verbatim>\<open>int(x or 0)\<close>.\<close>

definition int_or_zero :: "pyval \<Rightarrow> py_error + int" where
  "int_or_zero v = (if py_bool v then py_int v else Inr 0)"

definition token_counts :: "payload \<Rightarrow> py_error + int \<times> int \<times> int" where
  "token_counts usage =
     rbind (normalize_usage usage) (\<lambda>(p, c, t).
     rbind (int_or_zero p) (\<lambda>i. rbind (int_or_zero c) (\<lambda>j. rbind (int_or_zero t) (\<lambda>k. Inr (i, j, k)))))"

definition projection_args ::
  "string \<Rightarrow> string option \<Rightarrow> prepared_route \<Rightarrow> final_summary \<Rightarrow> llm_result \<Rightarrow> route_row"
where
  "projection_args workspace_id version_id p fs trace =
     (candidate_args workspace_id version_id (pr_candidate p)
        (rc_title fs @ '' #'' @ nat_str (pr_index p + 1)) (fs_summary fs) (rc_conclusion fs))
       \<lparr>rr_key_supports := rc_key_supports fs, rr_assumptions := rc_assumptions fs,
        rr_risks := rc_risks fs, rr_next_validation_action := rc_next_validation_action fs,
        rr_key_strengths := map item_payload (fs_key_strengths fs),
        rr_key_risks := map item_payload (fs_key_risks fs),
        rr_open_questions := map item_payload (fs_open_questions fs),
        rr_generation :=
          \<lparr>gn_provider_backend = Some (lr_provider_backend trace),
           gn_provider_model = Some (lr_provider_model trace),
           gn_llm_request_id = Some (lr_request_id trace),
           gn_llm_response_id = Some (lr_llm_response_id trace), gn_usage = Some (lr_usage trace),
           gn_fallback_used = lr_fallback_used trace, gn_degraded = lr_degraded trace,
           gn_degraded_reason = lr_degraded_reason trace,
           gn_summary_generation_mode = Some (fs_summary_generation_mode fs)\<rparr>\<rparr>"

record projection =
  pj_routes :: "route_view list"
  pj_tokens :: "int \<times> int \<times> int"
  pj_latest :: "llm_result option"

definition project_route ::
  "string \<Rightarrow> string option \<Rightarrow> prepared_route \<times> final_summary \<times> llm_result \<Rightarrow> projection \<Rightarrow>
   projection gen_proc"
where
  "project_route workspace_id version_id x acc =
     (let p = fst x; fs = fst (snd x); trace = snd (snd x)
      in and_then (lift_result (conversion_result (token_counts (lr_usage trace)))) (\<lambda>(i, j, k).
         and_then
           (in_store (update_route_projection (pr_route_id p)
             (projection_args workspace_id version_id p fs trace) (cd_route_edge_ids (pr_candidate p))))
           (\<lambda>updated.
           ret \<lparr>pj_routes = pj_routes acc @ (case updated of None \<Rightarrow> [] | Some v \<Rightarrow> [v]),
                pj_tokens = (fst (pj_tokens acc) + i, fst (snd (pj_tokens acc)) + j,
                  snd (snd (pj_tokens acc)) + k),
                pj_latest = Some trace\<rparr>)))"

section \<open>Ranking and reporting\<close>

definition persist_rank :: "nat \<times> route_view \<Rightarrow> route_view list \<Rightarrow> route_view list gen_proc" where
  "persist_rank nr acc =
     and_then (in_store (update_route_rank (rr_route_id (snd nr)) (int (fst nr)))) (\<lambda>updated.
       ret (acc @ [case updated of Some v \<Rightarrow> v | None \<Rightarrow> (snd nr)\<lparr>rr_rank := Some (int (fst nr))\<rparr>]))"

definition top_factor_names :: "route_view list \<Rightarrow> py_error + string list" where
  "top_factor_names ranked =
     (case ranked of
        [] \<Rightarrow> Inr []
      | v # _ \<Rightarrow>
          rbind (rmap (\<lambda>d. py_str (get_or d ''factor_name'' (VStr []))) (rr_top_factors v))
            (\<lambda>names. Inr (take 3 names)))"

definition completed_args ::
  "string \<Rightarrow> string \<Rightarrow> string option \<Rightarrow> nat \<Rightarrow> nat \<Rightarrow> nat \<Rightarrow> route_view list \<Rightarrow> projection \<Rightarrow> string list \<Rightarrow>
   event_row"
where
  "completed_args workspace_id request_id version_id n_nodes n_edges n_candidates ranked pj names =
     (let ref = (\<lambda>f. case pj_latest pj of None \<Rightarrow> VNone | Some t \<Rightarrow> VStr (f t))
      in event_args ''route_generation_completed'' (Some request_id) None (Some workspace_id)
           ''route_generation_service'' ''generate'' ''completed''
           [(''route_id'', opt_str (map_option rr_route_id (first_of ranked))),
            (''version_id'', opt_str version_id),
            (''provider_backend'', ref lr_provider_backend), (''provider_model'', ref lr_provider_model),
            (''request_id'', case pj_latest pj of None \<Rightarrow> VStr request_id | Some t \<Rightarrow> VStr (lr_request_id t)),
            (''llm_response_id'', ref lr_llm_response_id)]
           [(''graph_node_count'', VInt (int n_nodes)), (''graph_edge_count'', VInt (int n_edges)),
            (''candidate_count'', VInt (int n_candidates)), (''generated_route_count'', int_len ranked),
            (''ranked_route_ids'', strs (map rr_route_id ranked)), (''top_factors'', strs names),
            (''prompt_tokens'', VInt (fst (pj_tokens pj))),
            (''completion_tokens'', VInt (fst (snd (pj_tokens pj)))),
            (''total_tokens'', VInt (snd (snd (pj_tokens pj)))),
            (''fallback_used'', VBool (case pj_latest pj of None \<Rightarrow> False | Some t \<Rightarrow> lr_fallback_used t)),
            (''degraded'', VBool (case pj_latest pj of None \<Rightarrow> False | Some t \<Rightarrow> lr_degraded t)),
            (''degraded_reason'', opt_str (Option.bind (pj_latest pj) lr_degraded_reason))]
           None)"

record generation_result =
  gr_workspace_id :: string
  gr_generated_count :: nat
  gr_ranked_route_ids :: "string list"
  gr_top_route_id :: "string option"

section \<open>Generating\<close>

text \<open>
  The \<^verbatim>\<open>try\<close> block, up to the deletion of the old routes, in three parts: ranking and
  reporting what was projected, waiting for the summaries and projecting them, and the whole.
\<close>

definition rank_and_report ::
  "string \<Rightarrow> string \<Rightarrow> string option \<Rightarrow> nat \<Rightarrow> nat \<Rightarrow> nat \<Rightarrow> projection \<Rightarrow> route_view list gen_proc"
where
  "rank_and_report workspace_id request_id version_id n_nodes n_edges n_candidates pj =
     and_then (lift_result (conversion_result (rank_routes (pj_routes pj)))) (\<lambda>ranked.
     and_then (fold_proc persist_rank (enumerate 1 ranked) []) (\<lambda>persisted.
     and_then (lift_result (conversion_result (top_factor_names persisted))) (\<lambda>names.
     and_then
       (in_store (emit_event (completed_args workspace_id request_id version_id n_nodes n_edges
         n_candidates persisted pj names))) (\<lambda>_.
       ret persisted))))"

definition summarize_and_rank ::
  "route_services \<Rightarrow> string \<Rightarrow> string \<Rightarrow> bool \<Rightarrow> string option \<Rightarrow> node_row list \<Rightarrow> edge_row list \<Rightarrow>
   nat \<Rightarrow> prepared_route list \<Rightarrow> route_view list gen_proc"
where
  "summarize_and_rank sv workspace_id request_id allow_fallback version_id nodes edges n_candidates
     prepared =
     and_then (summarize_prepared_routes sv prepared nodes request_id allow_fallback) (\<lambda>summaries.
     and_then
       (fold_proc (project_route workspace_id version_id) (zip prepared summaries)
         \<lparr>pj_routes = [], pj_tokens = (0, 0, 0), pj_latest = None\<rparr>)
       (rank_and_report workspace_id request_id version_id (length nodes) (length edges) n_candidates))"

definition generate_attempt ::
  "route_services \<Rightarrow> string \<Rightarrow> string \<Rightarrow> int \<Rightarrow> bool \<Rightarrow> string option \<Rightarrow> node_row list \<Rightarrow> edge_row list \<Rightarrow>
   route_view list gen_proc"
where
  "generate_attempt sv workspace_id request_id max_candidates allow_fallback version_id nodes edges =
     and_then
       (lift_result (conversion_result
         (build_candidates workspace_id nodes edges version_id max_candidates))) (\<lambda>candidates.
     and_then
       (check (ServiceError 409 ''research.invalid_state''
         ''no route candidates can be built from current graph''
         [(''workspace_id'', VStr workspace_id)]) (candidates \<noteq> [])) (\<lambda>_.
     and_then
       (fold_proc (prepare_route workspace_id request_id version_id nodes) (enumerate 0 candidates) [])
       (summarize_and_rank sv workspace_id request_id allow_fallback version_id nodes edges
         (length candidates))))"

definition delete_all :: "string list \<Rightarrow> unit store_proc" where
  "delete_all ids = fold_proc (\<lambda>i _. delete_route i) ids ()"

definition generate_and_replace ::
  "route_services \<Rightarrow> string \<Rightarrow> string \<Rightarrow> int \<Rightarrow> bool \<Rightarrow> string option \<Rightarrow> node_row list \<Rightarrow> edge_row list \<Rightarrow>
   string list \<Rightarrow> generation_result gen_proc"
where
  "generate_and_replace sv workspace_id request_id max_candidates allow_fallback version_id nodes edges
     existing_route_ids =
     and_then (generate_attempt sv workspace_id request_id max_candidates allow_fallback version_id
       nodes edges) (\<lambda>ranked.
     and_then (in_store (delete_all existing_route_ids)) (\<lambda>_.
       ret \<lparr>gr_workspace_id = workspace_id, gr_generated_count = length ranked,
            gr_ranked_route_ids = map rr_route_id ranked,
            gr_top_route_id = map_option rr_route_id (first_of ranked)\<rparr>))"

text \<open>The three handlers delete the generated routes and differ in what they log.\<close>

definition error_payload :: "route_services \<Rightarrow> api_error \<Rightarrow> payload" where
  "error_payload sv e =
     (case e of
        CancelledError \<Rightarrow>
          [(''error_code'', VStr ''research.route_generation_cancelled''),
           (''message'', VStr ''route generation was cancelled before summaries completed''),
           (''details'', VDict [])]
      | ServiceError _ error_code message details \<Rightarrow>
          [(''error_code'', VStr error_code), (''message'', VStr message), (''details'', VDict details)]
      | _ \<Rightarrow>
          [(''error_code'', VStr ''research.internal_error''), (''message'', VStr (sv_error_text sv e)),
           (''details'', VDict [])])"

definition discard_generated :: "route_services \<Rightarrow> string \<Rightarrow> string \<Rightarrow> api_error \<Rightarrow> unit gen_proc" where
  "discard_generated sv workspace_id request_id e =
     and_then (reading snd) (\<lambda>generated_route_ids.
     and_then (in_store (delete_all generated_route_ids)) (\<lambda>_.
       in_store (emit_event (event_args ''route_generation_completed'' (Some request_id) None
         (Some workspace_id) ''route_generation_service'' ''generate'' ''failed'' [] []
         (Some (error_payload sv e))))))"

definition with_no_routes :: "'a gen_proc \<Rightarrow> 'a store_proc" where
  "with_no_routes m s = (case m (s, []) of (r, st) \<Rightarrow> (r, fst st))"

definition generate_routes ::
  "route_services \<Rightarrow> string \<Rightarrow> string \<Rightarrow> string \<Rightarrow> int \<Rightarrow> bool \<Rightarrow> generation_result store_proc"
where
  "generate_routes sv workspace_id request_id reason max_candidates allow_fallback =
     and_then
       (check (ServiceError 400 ''research.invalid_request'' ''max_candidates must be in [1, 20]''
         [(''max_candidates'', VInt max_candidates)]) (\<not> (max_candidates \<le> 0 \<or> 20 < max_candidates)))
       (\<lambda>_.
     and_then (list_graph_nodes workspace_id) (\<lambda>nodes.
     and_then (list_graph_edges workspace_id) (\<lambda>edges.
     and_then
       (check (ServiceError 409 ''research.invalid_state'' ''graph is not ready for route generation''
         [(''workspace_id'', VStr workspace_id)]) (nodes \<noteq> [])) (\<lambda>_.
     and_then (get_graph_workspace workspace_id) (\<lambda>workspace_snapshot.
     (let version_id =
            (case workspace_snapshot of
               None \<Rightarrow> None
             | Some ws \<Rightarrow> if truthy (ws_latest_version_id ws) then ws_latest_version_id ws else None)
      in and_then
           (emit_event (event_args ''route_generation_started'' (Some request_id) None
             (Some workspace_id) ''route_generation_service'' ''generate'' ''started''
             [(''version_id'', opt_str version_id)]
             [(''graph_node_count'', int_len nodes), (''graph_edge_count'', int_len edges),
              (''max_candidates'', VInt max_candidates), (''reason'', VStr reason)] None)) (\<lambda>_.
         and_then (list_routes workspace_id) (\<lambda>existing.
           with_no_routes
             (on_error
               (generate_and_replace sv workspace_id request_id max_candidates allow_fallback
                 version_id nodes edges (filter (\<lambda>i. i \<noteq> []) (map rr_route_id existing)))
               (discard_generated sv workspace_id request_id))))))))))"

end
