(* ===== verification/StateTriples.thy ===== *)
theory StateTriples
  imports StateError
begin

text \<open>
  Triples for procedures: from a state with \<open>P\<close>, the procedure returns a value and a state that
  \<open>Q\<close> relates, or raises in a state with \<open>E\<close>.
\<close>

definition guarantees ::
  "('s \<Rightarrow> bool) \<Rightarrow> ('s, 'e, 'a) proc \<Rightarrow> ('a \<Rightarrow> 's \<Rightarrow> bool) \<Rightarrow> ('s \<Rightarrow> bool) \<Rightarrow> bool"
where
  "guarantees P m Q E \<longleftrightarrow>
     (\<forall>s. P s \<longrightarrow> (case m s of (Inr a, s') \<Rightarrow> Q a s' | (Inl e, s') \<Rightarrow> E s'))"

lemma tripleI:
  assumes "\<And>s a s'. P s \<Longrightarrow> m s = (Inr a, s') \<Longrightarrow> Q a s'"
    and "\<And>s e s'. P s \<Longrightarrow> m s = (Inl e, s') \<Longrightarrow> E s'"
  shows "guarantees P m Q E"
  unfolding guarantees_def using assms by (auto split: prod.split sum.split)

lemma triple_returns: "guarantees P m Q E \<Longrightarrow> P s \<Longrightarrow> m s = (Inr a, s') \<Longrightarrow> Q a s'"
  by (auto simp: guarantees_def)

lemma triple_raises: "guarantees P m Q E \<Longrightarrow> P s \<Longrightarrow> m s = (Inl e, s') \<Longrightarrow> E s'"
  by (auto simp: guarantees_def)

lemma triple_weaken:
  assumes "guarantees P m Q E" and "\<And>s. P' s \<Longrightarrow> P s" and "\<And>a s. Q a s \<Longrightarrow> Q' a s" and "\<And>s. E s \<Longrightarrow> E' s"
  shows "guarantees P' m Q' E'"
  using assms(1) by (intro tripleI) (blast dest: triple_returns triple_raises intro: assms(2-4))+

lemma triple_ret: "(\<And>s. P s \<Longrightarrow> Q a s) \<Longrightarrow> guarantees P (ret a) Q E"
  by (simp add: guarantees_def proc_simps)

lemma triple_fail: "(\<And>s. P s \<Longrightarrow> E s) \<Longrightarrow> guarantees P (fail e) Q E"
  by (simp add: guarantees_def proc_simps)

lemma triple_and_then:
  assumes "guarantees P m Q E" and "\<And>a. guarantees (Q a) (f a) R E"
  shows "guarantees P (and_then m f) R E"
proof (rule tripleI)
  fix s b s'
  assume P: "P s" and "and_then m f s = (Inr b, s')"
  then obtain a s1 where "m s = (Inr a, s1)" "f a s1 = (Inr b, s')" by (auto simp: and_then_Inr_iff)
  then show "R b s'" using triple_returns [OF assms(1) P] triple_returns [OF assms(2)] by blast
next
  fix s e s'
  assume P: "P s" and "and_then m f s = (Inl e, s')"
  then consider "m s = (Inl e, s')" | a s1 where "m s = (Inr a, s1)" "f a s1 = (Inl e, s')"
    by (auto simp: and_then_Inl_iff)
  then show "E s'"
    using triple_raises [OF assms(1) P] triple_returns [OF assms(1) P] triple_raises [OF assms(2)]
    by cases blast+
qed

lemma triple_lift:
  "(\<And>a s. r = Inr a \<Longrightarrow> P s \<Longrightarrow> Q a s) \<Longrightarrow> (\<And>s. P s \<Longrightarrow> E s) \<Longrightarrow> guarantees P (lift_result r) Q E"
  by (auto intro!: tripleI simp: proc_simps)

lemma triple_check:
  "(\<And>s. b \<Longrightarrow> P s \<Longrightarrow> Q () s) \<Longrightarrow> (\<And>s. P s \<Longrightarrow> E s) \<Longrightarrow> guarantees P (check e b) Q E"
  by (auto intro!: tripleI simp: proc_simps split: if_splits)

lemma triple_writing: "(\<And>s. P s \<Longrightarrow> Q () (f s)) \<Longrightarrow> guarantees P (writing f) Q E"
  by (simp add: guarantees_def proc_simps)

lemma triple_pure: "(b \<Longrightarrow> guarantees P m Q E) \<Longrightarrow> guarantees (\<lambda>s. b \<and> P s) m Q E"
  by (auto simp: guarantees_def)

text \<open>A loop, with an invariant that knows which elements are done.\<close>

lemma triple_fold:
  assumes "\<And>pre x post a. xs = pre @ x # post \<Longrightarrow> guarantees (I pre a) (body x a) (\<lambda>b. I (pre @ [x]) b) E"
  shows "guarantees (I [] a) (fold_proc body xs a) (\<lambda>b. I xs b) E"
proof -
  have "guarantees (I pre a) (fold_proc body post a) (\<lambda>b. I xs b) E" if "xs = pre @ post" for pre post a
    using that
  proof (induction post arbitrary: pre a)
    case Nil
    then show ?case by (simp add: triple_ret)
  next
    case (Cons x post)
    show ?case
      unfolding fold_proc.simps
    proof (rule triple_and_then)
      show "guarantees (I pre a) (body x a) (\<lambda>b. I (pre @ [x]) b) E" using Cons.prems by (rule assms)
      show "guarantees (I (pre @ [x]) b) (fold_proc body post b) (\<lambda>b. I xs b) E" for b
        using Cons.prems by (intro Cons.IH) simp
    qed
  qed
  from this [of "[]" xs a] show ?thesis by simp
qed

end
