(* ===== verification/RouteGenerationProps.thy ===== *)
theory RouteGenerationProps
  imports RouteGeneration StateTriples
begin

text \<open>
  Generating routes is all or nothing for the routes of a workspace: an error of any kind leaves them
  as they were, a success replaces them by the generated ones, ranked from 1. \<open>gen_inv\<close> says what the
  table holds in between, and \<open>gen_step\<close> is the relation that every statement respects.
\<close>

section \<open>The invariant\<close>

definition routes_of :: "string \<Rightarrow> store \<Rightarrow> route_row list" where
  "routes_of w s = filter (\<lambda>r. rr_workspace_id r = w) (route_rows s)"

definition gen_inv :: "string \<Rightarrow> route_row list \<Rightarrow> gen_state \<Rightarrow> bool" where
  "gen_inv w old st \<longleftrightarrow>
     (\<exists>gs. routes_of w (fst st) = old @ gs \<and> map rr_route_id gs = snd st) \<and> distinct (snd st) \<and>
     set (snd st) \<inter> rr_route_id ` set old = {}"

text \<open>Statements that leave the routes alone, and statements that rewrite one row in place.\<close>

definition row_step :: "string \<Rightarrow> store \<Rightarrow> store \<Rightarrow> bool" where
  "row_step k s s' \<longleftrightarrow>
     (\<exists>f. (\<forall>r. rr_route_id (f r) = rr_route_id r \<and> rr_workspace_id (f r) = rr_workspace_id r) \<and>
        route_rows s' = update_where (\<lambda>r. rr_route_id r = k) f (route_rows s))"

lemma row_stepI:
  assumes "\<And>r. rr_route_id (f r) = rr_route_id r" "\<And>r. rr_workspace_id (f r) = rr_workspace_id r"
    and "route_rows s' = update_where (\<lambda>r. rr_route_id r = k) f (route_rows s)"
  shows "row_step k s s'"
  unfolding row_step_def using assms by (intro exI [of _ f]) simp

lemma row_step_same: "route_rows s' = route_rows s \<Longrightarrow> row_step k s s'"
  by (rule row_stepI [of id]) (simp_all add: update_where_id)

lemma update_where_compose:
  "(\<And>r. P (f r) = P r) \<Longrightarrow> update_where P g (update_where P f rs) = update_where P (g \<circ> f) rs"
  by (simp add: update_where_def)

interpretation row_run: evolution "row_step k" for k
proof unfold_locales
  show "row_step k s s" for s by (rule row_step_same) simp
  fix s s' s''
  assume "row_step k s s'" "row_step k s' s''"
  then obtain f g where
    f: "\<forall>r. rr_route_id (f r) = rr_route_id r \<and> rr_workspace_id (f r) = rr_workspace_id r"
      "route_rows s' = update_where (\<lambda>r. rr_route_id r = k) f (route_rows s)"
    and g: "\<forall>r. rr_route_id (g r) = rr_route_id r \<and> rr_workspace_id (g r) = rr_workspace_id r"
      "route_rows s'' = update_where (\<lambda>r. rr_route_id r = k) g (route_rows s')"
    by (auto simp: row_step_def)
  show "row_step k s s''"
    by (rule row_stepI [of "g \<circ> f"]) (simp_all add: f g update_where_compose)
qed

lemma emit_event_routes: "route_rows (snd (emit_event args s)) = route_rows s"
proof -
  obtain r s' where e: "emit_event args s = (r, s')" by (cases "emit_event args s")
  from e show ?thesis by (cases rule: emit_event_cases) (use e in auto)
qed

lemma row_step_emit: "always (row_step k) (emit_event args)"
  by (simp add: always_def row_step_same emit_event_routes)

lemma row_step_update:
  assumes "\<And>r. rr_route_id (f r) = rr_route_id r" "\<And>r. rr_workspace_id (f r) = rr_workspace_id r"
  shows "always (row_step k) (update_route k f)"
  unfolding always_def update_route_apply snd_conv by (intro allI row_stepI [OF assms]) simp

lemma row_step_reads:
  "always (row_step k) (get_route k')" "always (row_step k) (list_graph_nodes w)"
  "always (row_step k) (list_graph_edges w)" "always (row_step k) (list_confirmed_objects w)"
  "always (row_step k) now"
  by (simp_all add: get_route_def list_graph_nodes_def list_graph_edges_def list_confirmed_objects_def
      always_def now_def row_step_same proc_simps)

lemma row_step_score_route: "always (row_step k) (score_route w k q i focus)"
proof -
  have upd: "always (row_step k) (update_route_scores k a b c t tops bd nb)" for a b c t tops bd nb
    unfolding update_route_scores_def Let_def split_beta
    by (intro row_run.always_intros row_step_update row_step_reads) simp_all
  have store: "always (row_step k) (store_scores w k q focus t nds dims)" for t nds dims
    unfolding store_scores_def Let_def split_beta
    by (intro row_run.always_intros upd row_step_emit)
  have fail: "always (row_step k) (emit_failure_event q w k focus e)" for e
    unfolding emit_failure_event_def
    by (cases e) (auto intro!: row_run.always_intros row_step_emit)
  show ?thesis
    unfolding score_route_def score_route_body_def Let_def
    by (intro row_run.always_intros row_step_reads store fail)
qed

lemma row_step_projection: "always (row_step k) (update_route_projection k args ids)"
  unfolding update_route_projection_def
  by (intro row_run.always_intros row_step_update row_step_reads) simp_all

lemma row_step_rank: "always (row_step k) (update_route_rank k n)"
  unfolding update_route_rank_def
  by (intro row_run.always_intros row_step_update row_step_reads) simp_all

lemma gen_inv_row:
  assumes inv: "gen_inv w old (s, ids)" and k: "k \<in> set ids" and row: "row_step k s s'"
  shows "gen_inv w old (s', ids)"
proof -
  obtain gs where gs: "routes_of w s = old @ gs" "map rr_route_id gs = ids"
    "distinct ids" "set ids \<inter> rr_route_id ` set old = {}"
    using inv by (auto simp: gen_inv_def)
  obtain f where f: "\<And>r. rr_route_id (f r) = rr_route_id r" "\<And>r. rr_workspace_id (f r) = rr_workspace_id r"
    "route_rows s' = update_where (\<lambda>r. rr_route_id r = k) f (route_rows s)"
    using row by (auto simp: row_step_def)
  have "routes_of w s' = update_where (\<lambda>r. rr_route_id r = k) f (routes_of w s)"
    unfolding routes_of_def f(3) by (induction "route_rows s") (auto simp: f update_where_def filter_map comp_def)
  moreover have "update_where (\<lambda>r. rr_route_id r = k) f old = old"
    using gs(4) k by (intro update_where_id) auto
  ultimately have "routes_of w s' = old @ update_where (\<lambda>r. rr_route_id r = k) f gs"
    by (simp add: gs(1))
  then show ?thesis
    using gs f(1) by (auto simp: gen_inv_def keys_update_where intro!: exI [of _ "update_where (\<lambda>r. rr_route_id r = k) f gs"])
qed

text \<open>What a statement does to a predicate of the routes and the generated ids.\<close>

lemma triple_in_store:
  assumes "\<And>s. route_rows (snd (m s)) = route_rows s"
    and "\<And>s s' ids. route_rows s' = route_rows s \<Longrightarrow> P (s, ids) \<Longrightarrow> P (s', ids)"
  shows "guarantees P (in_store m) (\<lambda>_. P) P"
proof -
  have "P (snd (in_store m st))" if "P st" for st
    using that assms(1) [of "fst st"] assms(2) [of "snd (m (fst st))" "fst st" "snd st"]
    by (cases "m (fst st)") (simp add: in_store_def)
  then show ?thesis by (intro tripleI) (metis snd_conv)+
qed

definition gen_at :: "string \<Rightarrow> route_row list \<Rightarrow> string list \<Rightarrow> gen_state \<Rightarrow> bool" where
  "gen_at w old ids st \<longleftrightarrow> gen_inv w old st \<and> snd st = ids"

lemma gen_at_same:
  "route_rows s' = route_rows s \<Longrightarrow> gen_at w old ids (s, i) \<Longrightarrow> gen_at w old ids (s', i)"
  by (auto simp: gen_at_def gen_inv_def routes_of_def)

lemma triple_row:
  assumes "always (row_step k) m" and "k \<in> set ids"
  shows "guarantees (gen_at w old ids) (in_store m) (\<lambda>_. gen_at w old ids) (gen_at w old ids)"
proof -
  have "gen_at w old ids (snd (in_store m st))" if "gen_at w old ids st" for st
    using that gen_inv_row [of w old "fst st" ids k] assms(2) alwaysD [OF assms(1), of "fst st"]
    by (cases st) (auto simp: gen_at_def in_store_def split: prod.split)
  then show ?thesis by (intro tripleI) (metis snd_conv)+
qed

section \<open>The loops\<close>

lemma create_route_cases:
  assumes "create_route args edge_ids False s = (r, s')"
  obtains (taken) k where "r = Inl (IntegrityError k)" and "route_rows s' = route_rows s"
  | (added) v row where "r = Inr (Some v)" and "route_rows s' = route_rows s @ [row]"
      and "rr_route_id row = rr_route_id v" and "rr_workspace_id row = rr_workspace_id args"
      and "rr_route_id v \<notin> rr_route_id ` set (route_rows s)"
proof (cases "''route_'' @ hex_supply s (drawn s) \<in> rr_route_id ` set (route_rows s)")
  case True
  then show thesis
    using assms that(1)
    by (auto simp: create_route_def and_then_def proc_simps gen_id_def insert_row_def split: prod.splits)
next
  case False
  then show thesis
    using assms
    by (auto simp: create_route_def and_then_def proc_simps gen_id_def insert_row_def Let_def
        select_key_append select_key_fresh split: prod.splits intro!: that(2))
qed

lemma triple_new_route:
  assumes "rr_workspace_id args = w"
  shows "guarantees (gen_at w old ids) (new_route args edge_ids) (\<lambda>k. gen_at w old (ids @ [k])) (gen_inv w old)"
proof -
  have "case new_route args edge_ids st of
      (Inr k, st') \<Rightarrow> gen_at w old (ids @ [k]) st' | (Inl e, st') \<Rightarrow> gen_inv w old st'"
    if inv: "gen_at w old ids st" for st
  proof -
    obtain s where st: "st = (s, ids)" using inv by (cases st) (simp add: gen_at_def)
    obtain gs where gs: "routes_of w s = old @ gs" "map rr_route_id gs = ids"
      "distinct ids" "set ids \<inter> rr_route_id ` set old = {}"
      using inv by (auto simp: gen_inv_def gen_at_def st)
    obtain r s1 where c: "create_route args edge_ids False s = (r, s1)"
      by (cases "create_route args edge_ids False s")
    from c show ?thesis
    proof (cases rule: create_route_cases)
      case (taken i)
      then show ?thesis
        using c gs by (auto simp: new_route_def and_then_def in_store_def st routes_of_def gen_inv_def)
    next
      case (added v row)
      have rows: "routes_of w s1 = old @ gs @ [row]" using added(2,4) assms gs(1) by (simp add: routes_of_def)
      have "rr_route_id v \<notin> rr_route_id ` set (routes_of w s)" using added(5) by (auto simp: routes_of_def)
      then have "rr_route_id v \<notin> rr_route_id ` set old" "rr_route_id v \<notin> set ids"
        unfolding gs(1) gs(2) [symmetric] by auto
      then have "gen_inv w old (s1, ids @ [rr_route_id v])"
        using gs(2-4) added(3) by (auto simp: gen_inv_def rows intro!: exI [of _ "gs @ [row]"])
      then show ?thesis
        using c added(1)
        by (simp add: new_route_def and_then_def in_store_def st proc_simps note_route_def gen_at_def)
    qed
  qed
  then show ?thesis by (simp add: guarantees_def)
qed

lemma seed_args_workspace [simp]: "rr_workspace_id (seed_args w v nodes c) = w"
  by (simp add: seed_args_def candidate_args_def Let_def)

lemma triple_prepare_route:
  assumes "map pr_route_id acc = ids"
  shows "guarantees (gen_at w old ids) (prepare_route w q v nodes ic acc)
    (\<lambda>acc' st. length acc' = Suc (length acc) \<and> gen_at w old (map pr_route_id acc') st) (gen_inv w old)"
  unfolding prepare_route_def
proof (rule triple_and_then, rule triple_new_route)
  fix k
  have score: "guarantees (gen_at w old (ids @ [k])) (in_store (score_route w k q None (cd_route_node_ids (snd ic))))
      (\<lambda>_. gen_at w old (ids @ [k])) (gen_inv w old)"
    by (rule triple_weaken [OF triple_row [OF row_step_score_route]]) (auto simp: gen_at_def)
  show "guarantees (gen_at w old (ids @ [k]))
      (and_then (in_store (score_route w k q None (cd_route_node_ids (snd ic)))) (\<lambda>scored.
        ret (acc @ [\<lparr>pr_index = fst ic, pr_candidate = snd ic, pr_route_id = k,
          pr_top_factors = rr_top_factors scored\<rparr>])))
      (\<lambda>acc' st. length acc' = Suc (length acc) \<and> gen_at w old (map pr_route_id acc') st) (gen_inv w old)"
    by (rule triple_and_then [OF score]) (simp add: triple_ret assms)
qed simp

lemma triple_prepare_loop:
  "guarantees (gen_at w old []) (fold_proc (prepare_route w q v nodes) cs [])
    (\<lambda>acc st. length acc = length cs \<and> gen_at w old (map pr_route_id acc) st) (gen_inv w old)"
proof -
  let ?I = "\<lambda>(pre :: (nat \<times> candidate) list) (acc :: prepared_route list) st. length acc = length pre \<and>
    gen_at w old (map pr_route_id acc) st"
  have "guarantees (?I [] []) (fold_proc (prepare_route w q v nodes) cs []) (?I cs) (gen_inv w old)"
  proof (rule triple_fold [where I = ?I])
    fix pre x post and acc :: "prepared_route list"
    show "guarantees (?I pre acc) (prepare_route w q v nodes x acc) (?I (pre @ [x])) (gen_inv w old)"
      by (rule triple_pure, rule triple_weaken [OF triple_prepare_route [OF refl]]) auto
  qed
  then show ?thesis by simp
qed

lemma errors_of_Nil: "errors_of rs = [] \<Longrightarrow> length (values_of rs) = length rs"
  by (induction rs) (auto simp: errors_of_def values_of_def List.map_filter_simps split: sum.splits)

lemma triple_summaries:
  assumes "\<And>s. routes_of w (sv_meanwhile sv s) = routes_of w s"
  shows "guarantees (gen_at w old ids) (summarize_prepared_routes sv prepared nodes q fb)
    (\<lambda>out st. gen_at w old ids st \<and> length out = length prepared) (gen_inv w old)"
proof (rule tripleI)
  fix st r st'
  assume inv: "gen_at w old ids st" and s: "summarize_prepared_routes sv prepared nodes q fb st = (Inr r, st')"
  have "gen_at w old ids (sv_meanwhile sv (fst st), snd st)"
    using inv assms by (auto simp: gen_at_def gen_inv_def)
  then show "gen_at w old ids st' \<and> length r = length prepared"
    using s errors_of_Nil [THEN trans, OF _ length_map]
    by (cases st) (auto simp: summarize_prepared_routes_def and_then_def proc_simps Let_def split: if_splits)
next
  fix st e st'
  assume inv: "gen_at w old ids st" and s: "summarize_prepared_routes sv prepared nodes q fb st = (Inl e, st')"
  have "gen_inv w old (sv_meanwhile sv (fst st), snd st)"
    using inv assms by (auto simp: gen_at_def gen_inv_def)
  then show "gen_inv w old st'"
    using s by (cases st) (auto simp: summarize_prepared_routes_def and_then_def proc_simps Let_def split: if_splits)
qed

text \<open>A generated route is in the table, under its id.\<close>

lemma gen_inv_row_exists:
  assumes "gen_inv w old (s, ids)" "k \<in> set ids"
  obtains r where "select_key rr_route_id k (route_rows s) = Some r" and "rr_route_id r = k"
proof -
  have "k \<in> rr_route_id ` set (routes_of w s)" using assms by (auto simp: gen_inv_def)
  then have "k \<in> rr_route_id ` set (route_rows s)" by (auto simp: routes_of_def)
  then obtain r where "select_key rr_route_id k (route_rows s) = Some r"
    by (cases "select_key rr_route_id k (route_rows s)") (auto simp: select_key_None)
  then show thesis using that select_key_Some by metis
qed

lemma triple_projection:
  assumes "pr_route_id (fst x) \<in> set ids"
  shows "guarantees (gen_at w old ids) (project_route w v x acc)
    (\<lambda>acc' st. gen_at w old ids st \<and>
      map rr_route_id (pj_routes acc') = map rr_route_id (pj_routes acc) @ [pr_route_id (fst x)])
    (gen_inv w old)"
proof -
  let ?k = "pr_route_id (fst x)"
  let ?m = "update_route_projection ?k (projection_args w v (fst x) (fst (snd x)) (snd (snd x)))
    (cd_route_edge_ids (pr_candidate (fst x)))"
  have upd: "guarantees (gen_at w old ids) (in_store ?m)
      (\<lambda>u st. gen_at w old ids st \<and> (\<exists>v. u = Some v \<and> rr_route_id v = ?k)) (gen_inv w old)"
  proof (rule tripleI)
    fix st u st'
    assume inv: "gen_at w old ids st" and run: "in_store ?m st = (Inr u, st')"
    have "gen_at w old ids st'"
      using triple_returns [OF triple_row [OF row_step_projection assms] inv run] .
    moreover obtain r where "select_key rr_route_id ?k (route_rows (fst st)) = Some r" "rr_route_id r = ?k"
      by (rule gen_inv_row_exists [of w old "fst st" ids ?k]) (use inv assms in \<open>auto simp: gen_at_def\<close>)
    ultimately show "gen_at w old ids st' \<and> (\<exists>v. u = Some v \<and> rr_route_id v = ?k)"
      using run by (auto simp: in_store_def update_route_projection_def and_then_def proc_simps select_key_update)
  next
    fix st e st'
    assume inv: "gen_at w old ids st" and run: "in_store ?m st = (Inl e, st')"
    show "gen_inv w old st'"
      using triple_raises [OF triple_row [OF row_step_projection assms] inv run] by (simp add: gen_at_def)
  qed
  show ?thesis
    unfolding project_route_def Let_def split_beta
    by (rule triple_and_then [where Q = "\<lambda>_. gen_at w old ids"], rule triple_lift, assumption,
        simp add: gen_at_def, rule triple_and_then [OF upd], rule triple_ret) auto
qed

lemma triple_project_loop:
  fixes out :: "(final_summary \<times> llm_result) list"
  assumes "length out = length prepared" and "set (map pr_route_id prepared) \<subseteq> set ids"
  shows "guarantees (gen_at w old ids)
    (fold_proc (project_route w v) (zip prepared out) \<lparr>pj_routes = [], pj_tokens = t, pj_latest = l\<rparr>)
    (\<lambda>pj st. map rr_route_id (pj_routes pj) = map pr_route_id prepared \<and> gen_at w old ids st)
    (gen_inv w old)"
proof -
  let ?I = "\<lambda>(pre :: (prepared_route \<times> final_summary \<times> llm_result) list) (acc :: projection) st.
    map rr_route_id (pj_routes acc) = map (pr_route_id \<circ> fst) pre \<and> gen_at w old ids st"
  have loop: "guarantees (?I [] a) (fold_proc (project_route w v) (zip prepared out) a)
      (?I (zip prepared out)) (gen_inv w old)" for a
  proof (rule triple_fold [where I = ?I])
    fix pre x post b
    assume "zip prepared out = pre @ x # post"
    then have "x \<in> set (zip prepared out)" by simp
    then have "fst x \<in> set prepared" by (metis prod.collapse set_zip_leftD)
    then have x: "pr_route_id (fst x) \<in> set ids" using assms(2) by auto
    show "guarantees (?I pre b) (project_route w v x b) (?I (pre @ [x])) (gen_inv w old)"
      by (rule triple_pure, rule triple_weaken [OF triple_projection [OF x]]) auto
  qed
  have "map (pr_route_id \<circ> fst) (zip prepared out) = map pr_route_id prepared"
    using assms(1) by (simp flip: map_map)
  then show ?thesis
    using loop [of "\<lparr>pj_routes = [], pj_tokens = t, pj_latest = l\<rparr>"] by simp
qed

text \<open>The ranks.\<close>

definition ranked_in :: "string \<Rightarrow> nat \<Rightarrow> string \<Rightarrow> store \<Rightarrow> bool" where
  "ranked_in w n k s \<longleftrightarrow> (\<exists>r \<in> set (routes_of w s). rr_route_id r = k \<and> rr_rank r = Some (int n))"

lemma rank_row:
  assumes inv: "gen_inv w old (s, ids)" and k: "k \<in> set ids" and run: "update_route_rank k n s = (u, s')"
  obtains v where "u = Inr (Some v)" and "rr_route_id v = k"
    and "route_rows s' = update_where (\<lambda>r. rr_route_id r = k) (\<lambda>r. r\<lparr>rr_rank := Some n\<rparr>) (route_rows s)"
proof -
  obtain r where r: "select_key rr_route_id k (route_rows s) = Some r" "rr_route_id r = k"
    by (rule gen_inv_row_exists [OF inv k])
  show thesis
    by (rule that [of "route_view_of (r\<lparr>rr_rank := Some n\<rparr>)"])
      (use run r in \<open>auto simp: update_route_rank_def and_then_def proc_simps select_key_update\<close>)
qed

lemma ranked_in_update:
  assumes "route_rows s' = update_where (\<lambda>r. rr_route_id r = k) (\<lambda>r. r\<lparr>rr_rank := Some n\<rparr>) (route_rows s)"
  shows "k \<in> rr_route_id ` set (routes_of w s) \<Longrightarrow> n = int i \<Longrightarrow> ranked_in w i k s'"
    and "ranked_in w j k' s \<Longrightarrow> k' \<noteq> k \<Longrightarrow> ranked_in w j k' s'"
proof -
  have rows: "routes_of w s' =
      update_where (\<lambda>r. rr_route_id r = k) (\<lambda>r. r\<lparr>rr_rank := Some n\<rparr>) (routes_of w s)"
    unfolding routes_of_def assms by (induction "route_rows s") (auto simp: update_where_def filter_map comp_def)
  show "ranked_in w i k s'" if k: "k \<in> rr_route_id ` set (routes_of w s)" and n: "n = int i"
  proof -
    obtain r where "r \<in> set (routes_of w s)" "rr_route_id r = k" using k by auto
    then show ?thesis
      by (auto simp: ranked_in_def rows set_update_where n intro!: bexI [of _ "r\<lparr>rr_rank := Some n\<rparr>"] image_eqI [of _ _ r])
  qed
  show "ranked_in w j k' s'" if "ranked_in w j k' s" "k' \<noteq> k"
    using that by (fastforce simp: ranked_in_def rows set_update_where)
qed

lemma triple_persist_loop:
  fixes ranked :: "route_view list"
  assumes "set (map rr_route_id ranked) \<subseteq> set ids" and "distinct (map rr_route_id ranked)"
  shows "guarantees (gen_at w old ids) (fold_proc persist_rank (enumerate 1 ranked) [])
    (\<lambda>persisted st. gen_at w old ids st \<and> map rr_route_id persisted = map rr_route_id ranked \<and>
      (\<forall>(n, k) \<in> set (enumerate 1 (map rr_route_id ranked)). ranked_in w n k (fst st)))
    (gen_inv w old)"
proof -
  let ?xs = "enumerate 1 ranked"
  let ?I = "\<lambda>(pre :: (nat \<times> route_view) list) (acc :: route_view list) st. gen_at w old ids st \<and>
    map rr_route_id acc = map (rr_route_id \<circ> snd) pre \<and>
    (\<forall>(n, v) \<in> set pre. ranked_in w n (rr_route_id v) (fst st))"
  have ids: "map (rr_route_id \<circ> snd) ?xs = map rr_route_id ranked" by (simp flip: map_map)
  have "guarantees (?I [] []) (fold_proc persist_rank ?xs []) (?I ?xs) (gen_inv w old)"
  proof (rule triple_fold [where I = ?I])
    fix pre and x :: "nat \<times> route_view" and post acc
    assume xs: "?xs = pre @ x # post"
    obtain n v where x: "x = (n, v)" by (cases x)
    let ?k = "rr_route_id v"
    have "map rr_route_id ranked = map (rr_route_id \<circ> snd) pre @ ?k # map (rr_route_id \<circ> snd) post"
      using arg_cong [OF xs, of "map (rr_route_id \<circ> snd)"] ids x by simp
    then have k: "?k \<in> set ids" and other: "?k \<notin> (rr_route_id \<circ> snd) ` set pre"
      using assms by auto
    have "case persist_rank x acc st of
        (Inr acc', st') \<Rightarrow> ?I (pre @ [x]) acc' st' | (Inl e, st') \<Rightarrow> gen_inv w old st'"
      if I: "?I pre acc st" for st
    proof -
      obtain s where st: "st = (s, ids)" and inv: "gen_inv w old (s, ids)"
        using I by (cases st) (auto simp: gen_at_def)
      obtain u s' where run: "update_route_rank ?k (int n) s = (u, s')"
        by (cases "update_route_rank ?k (int n) s")
      obtain u' where u: "u = Inr (Some u')" "rr_route_id u' = ?k"
        and rows: "route_rows s' = update_where (\<lambda>r. rr_route_id r = ?k) (\<lambda>r. r\<lparr>rr_rank := Some (int n)\<rparr>) (route_rows s)"
        by (rule rank_row [OF inv k run])
      have "row_step ?k s s'" using alwaysD [OF row_step_rank [of ?k "int n"], of s] run by simp
      then have "gen_inv w old (s', ids)" by (rule gen_inv_row [OF inv k])
      moreover have "?k \<in> rr_route_id ` set (routes_of w s)" using inv k by (auto simp: gen_inv_def)
      then have "ranked_in w n ?k s'" by (rule ranked_in_update(1) [OF rows]) simp
      moreover have "ranked_in w m (rr_route_id q) s'" if "(m, q) \<in> set pre" for m q
        using I that other by (intro ranked_in_update(2) [OF rows]) (auto simp: st image_iff)
      ultimately show ?thesis
        using I run u
        by (auto simp: persist_rank_def x and_then_def in_store_def st proc_simps gen_at_def)
    qed
    then show "guarantees (?I pre acc) (persist_rank x acc) (?I (pre @ [x])) (gen_inv w old)"
      unfolding guarantees_def by blast
  qed
  then show ?thesis
  proof (rule triple_weaken)
    fix acc st
    assume I: "?I ?xs acc st"
    have "set (enumerate 1 (map rr_route_id ranked)) = (\<lambda>(n, v). (n, rr_route_id v)) ` set ?xs"
      by (simp add: enumerate_eq_zip zip_map2)
    then show "gen_at w old ids st \<and> map rr_route_id acc = map rr_route_id ranked \<and>
      (\<forall>(n, k) \<in> set (enumerate 1 (map rr_route_id ranked)). ranked_in w n k (fst st))"
      using I ids by auto
  qed simp_all
qed

section \<open>The attempt\<close>

definition generated :: "string \<Rightarrow> route_row list \<Rightarrow> route_view list \<Rightarrow> gen_state \<Rightarrow> bool" where
  "generated w old ranked st \<longleftrightarrow>
     gen_inv w old st \<and> ranked \<noteq> [] \<and> mset (map rr_route_id ranked) = mset (snd st) \<and>
     (\<forall>(n, k) \<in> set (enumerate 1 (map rr_route_id ranked)). ranked_in w n k (fst st))"

lemma generated_same:
  "route_rows s' = route_rows s \<Longrightarrow> generated w old ranked (s, i) \<Longrightarrow> generated w old ranked (s', i)"
  by (auto simp: generated_def gen_inv_def ranked_in_def routes_of_def)

lemma triple_report:
  "guarantees (generated w old persisted)
    (and_then (lift_result (conversion_result (top_factor_names persisted))) (\<lambda>names.
     and_then (in_store (emit_event (args names))) (\<lambda>_. ret persisted)))
    (generated w old) (gen_inv w old)"
proof (rule triple_and_then [where Q = "\<lambda>_. generated w old persisted"])
  show "guarantees (generated w old persisted) (lift_result (conversion_result (top_factor_names persisted)))
      (\<lambda>_. generated w old persisted) (gen_inv w old)"
    by (rule triple_lift) (simp_all add: generated_def)
  show "guarantees (generated w old persisted)
      (and_then (in_store (emit_event (args names))) (\<lambda>_. ret persisted)) (generated w old) (gen_inv w old)"
    for names
  proof (rule triple_and_then [where Q = "\<lambda>_. generated w old persisted"])
    show "guarantees (generated w old persisted) (in_store (emit_event (args names)))
        (\<lambda>_. generated w old persisted) (gen_inv w old)"
      by (rule triple_weaken [OF triple_in_store [OF emit_event_routes, where P = "generated w old persisted"]])
        ((erule generated_same, assumption) | simp add: generated_def)+
  qed (simp add: triple_ret)
qed

lemma triple_rank_and_report:
  assumes ids: "map rr_route_id (pj_routes pj) = ids" and ne: "ids \<noteq> []"
  shows "guarantees (gen_at w old ids) (rank_and_report w q v i j k pj) (generated w old) (gen_inv w old)"
  unfolding rank_and_report_def
proof (rule triple_and_then [where
    Q = "\<lambda>ranked st. (mset ranked = mset (pj_routes pj) \<and> distinct ids) \<and> gen_at w old ids st"])
  show "guarantees (gen_at w old ids) (lift_result (conversion_result (rank_routes (pj_routes pj))))
      (\<lambda>ranked st. (mset ranked = mset (pj_routes pj) \<and> distinct ids) \<and> gen_at w old ids st) (gen_inv w old)"
    by (rule triple_lift)
      (auto simp: conversion_result_def gen_at_def gen_inv_def dest: rank_routes_mset split: sum.splits)
  show "guarantees (\<lambda>st. (mset ranked = mset (pj_routes pj) \<and> distinct ids) \<and> gen_at w old ids st)
      (and_then (fold_proc persist_rank (enumerate 1 ranked) []) (\<lambda>persisted.
       and_then (lift_result (conversion_result (top_factor_names persisted))) (\<lambda>names.
       and_then (in_store (emit_event (completed_args w q v i j k persisted pj names))) (\<lambda>_. ret persisted))))
      (generated w old) (gen_inv w old)" for ranked
  proof (rule triple_pure, rule triple_and_then [where Q = "generated w old"])
    assume "mset ranked = mset (pj_routes pj) \<and> distinct ids"
    then have m: "mset (map rr_route_id ranked) = mset ids" and d: "distinct ids"
      by (simp_all flip: ids)
    have sub: "set (map rr_route_id ranked) \<subseteq> set ids" using mset_eq_setD [OF m] by simp
    have dist: "distinct (map rr_route_id ranked)" using m d by (metis mset_eq_imp_distinct_iff)
    have ne': "ranked \<noteq> []" using m ne by auto
    show "guarantees (gen_at w old ids) (fold_proc persist_rank (enumerate 1 ranked) [])
        (generated w old) (gen_inv w old)"
      by (rule triple_weaken [OF triple_persist_loop [OF sub dist]])
        (use m ne' in \<open>auto simp: generated_def gen_at_def\<close>)
  qed (rule triple_report)
qed

lemma triple_summarize_and_rank:
  assumes env: "\<And>s. routes_of w (sv_meanwhile sv s) = routes_of w s" and ne: "prepared \<noteq> []"
  shows "guarantees (gen_at w old (map pr_route_id prepared))
    (summarize_and_rank sv w q fb v nodes edges k prepared) (generated w old) (gen_inv w old)"
  unfolding summarize_and_rank_def
proof (rule triple_and_then [OF triple_summaries [OF env]])
  let ?ids = "map pr_route_id prepared"
  fix out :: "(final_summary \<times> llm_result) list"
  have "guarantees (\<lambda>st. length out = length prepared \<and> gen_at w old ?ids st)
      (and_then (fold_proc (project_route w v) (zip prepared out)
           \<lparr>pj_routes = [], pj_tokens = (0, 0, 0), pj_latest = None\<rparr>)
         (rank_and_report w q v (length nodes) (length edges) k)) (generated w old) (gen_inv w old)"
  proof (rule triple_pure)
    assume len: "length out = length prepared"
    show "guarantees (gen_at w old ?ids)
        (and_then (fold_proc (project_route w v) (zip prepared out)
             \<lparr>pj_routes = [], pj_tokens = (0, 0, 0), pj_latest = None\<rparr>)
           (rank_and_report w q v (length nodes) (length edges) k)) (generated w old) (gen_inv w old)"
      by (rule triple_and_then [OF triple_project_loop [OF len order_refl]], rule triple_pure,
          rule triple_rank_and_report) (simp_all add: ne)
  qed
  then show "guarantees (\<lambda>st. gen_at w old ?ids st \<and> length out = length prepared)
      (and_then (fold_proc (project_route w v) (zip prepared out)
           \<lparr>pj_routes = [], pj_tokens = (0, 0, 0), pj_latest = None\<rparr>)
         (rank_and_report w q v (length nodes) (length edges) k)) (generated w old) (gen_inv w old)"
    by (rule triple_weaken) auto
qed

lemma triple_attempt:
  assumes env: "\<And>s. routes_of w (sv_meanwhile sv s) = routes_of w s"
  shows "guarantees (gen_at w old []) (generate_attempt sv w q m fb v nodes edges)
    (generated w old) (gen_inv w old)"
  unfolding generate_attempt_def
proof (rule triple_and_then [where Q = "\<lambda>_. gen_at w old []"])
  show "guarantees (gen_at w old []) (lift_result (conversion_result (build_candidates w nodes edges v m)))
      (\<lambda>_. gen_at w old []) (gen_inv w old)"
    by (rule triple_lift) (simp_all add: gen_at_def)
  fix cs :: "candidate list"
  have loop: "guarantees (gen_at w old [])
      (and_then (fold_proc (prepare_route w q v nodes) (enumerate 0 cs) [])
        (summarize_and_rank sv w q fb v nodes edges (length cs))) (generated w old) (gen_inv w old)"
    if "cs \<noteq> []"
  proof (rule triple_and_then [OF triple_prepare_loop], rule triple_pure)
    fix prepared :: "prepared_route list"
    assume "length prepared = length (enumerate 0 cs)"
    then have "prepared \<noteq> []" using that by auto
    then show "guarantees (gen_at w old (map pr_route_id prepared))
        (summarize_and_rank sv w q fb v nodes edges (length cs) prepared) (generated w old) (gen_inv w old)"
      by (rule triple_summarize_and_rank [OF env])
  qed
  show "guarantees (gen_at w old [])
      (and_then (check (ServiceError 409 ''research.invalid_state''
         ''no route candidates can be built from current graph'' [(''workspace_id'', VStr w)]) (cs \<noteq> [])) (\<lambda>_.
       and_then (fold_proc (prepare_route w q v nodes) (enumerate 0 cs) [])
         (summarize_and_rank sv w q fb v nodes edges (length cs)))) (generated w old) (gen_inv w old)"
  proof (rule triple_and_then [where Q = "\<lambda>_ st. cs \<noteq> [] \<and> gen_at w old [] st"])
    show "guarantees (\<lambda>st. cs \<noteq> [] \<and> gen_at w old [] st)
        (and_then (fold_proc (prepare_route w q v nodes) (enumerate 0 cs) [])
          (summarize_and_rank sv w q fb v nodes edges (length cs))) (generated w old) (gen_inv w old)" for u :: unit
      by (rule triple_pure, rule loop)
  qed (rule triple_check, simp_all add: gen_at_def)
qed

section \<open>The whole run\<close>

lemma delete_all_routes:
  "fst (delete_all ids s) = Inr ()"
  "route_rows (snd (delete_all ids s)) = filter (\<lambda>r. rr_route_id r \<notin> set ids) (route_rows s)"
proof -
  have "fst (delete_all ids s) = Inr () \<and>
      route_rows (snd (delete_all ids s)) = filter (\<lambda>r. rr_route_id r \<notin> set ids) (route_rows s)"
    unfolding delete_all_def
  proof (induction ids arbitrary: s)
    case (Cons k ids)
    then show ?case
      by (auto simp: and_then_def delete_route_def proc_simps delete_where_def intro!: filter_cong)
  qed (simp add: proc_simps)
  then show "fst (delete_all ids s) = Inr ()"
    "route_rows (snd (delete_all ids s)) = filter (\<lambda>r. rr_route_id r \<notin> set ids) (route_rows s)" by simp_all
qed

lemma routes_of_filter:
  "route_rows s' = filter P (route_rows s) \<Longrightarrow> routes_of w s' = filter P (routes_of w s)"
  by (simp add: routes_of_def conj_commute)

lemma other_ids:
  assumes "map rr_route_id gs = ids" and "set ids \<inter> rr_route_id ` set old = {}"
  shows "filter (\<lambda>r. rr_route_id r \<notin> set ids) old = old" "filter (\<lambda>r. rr_route_id r \<notin> set ids) gs = []"
    "filter (\<lambda>r. rr_route_id r \<notin> rr_route_id ` set old) gs = gs"
proof -
  have "rr_route_id r \<notin> set ids" if "r \<in> set old" for r using assms(2) that by blast
  then show "filter (\<lambda>r. rr_route_id r \<notin> set ids) old = old" by (simp add: filter_id_conv)
  show "filter (\<lambda>r. rr_route_id r \<notin> set ids) gs = []"
    by (auto simp: filter_empty_conv simp flip: assms(1))
  have "rr_route_id r \<in> set ids" if "r \<in> set gs" for r using that by (auto simp flip: assms(1))
  then show "filter (\<lambda>r. rr_route_id r \<notin> rr_route_id ` set old) gs = gs"
    using assms(2) by (subst filter_id_conv) blast
qed

lemma discard_restores:
  assumes inv: "gen_inv w old st" and run: "discard_generated sv w q e st = (r, st')"
  shows "routes_of w (fst st') = old"
proof -
  obtain s ids where st: "st = (s, ids)" by (cases st)
  obtain gs where gs: "routes_of w s = old @ gs" "map rr_route_id gs = ids" "set ids \<inter> rr_route_id ` set old = {}"
    using inv by (auto simp: gen_inv_def st)
  obtain s1 where d: "delete_all ids s = (Inr (), s1)"
    using delete_all_routes(1) [of ids s] by (cases "delete_all ids s") simp
  have "routes_of w s1 = filter (\<lambda>r. rr_route_id r \<notin> set ids) (old @ gs)"
    using routes_of_filter [of s1 _ s w] delete_all_routes(2) [of ids s] d gs(1) by simp
  also have "\<dots> = old" by (simp add: other_ids [OF gs(2,3)])
  finally have s1: "routes_of w s1 = old" .
  let ?args = "event_args ''route_generation_completed'' (Some q) None (Some w)
    ''route_generation_service'' ''generate'' ''failed'' [] [] (Some (error_payload sv e))"
  obtain r2 s2 where em: "emit_event ?args s1 = (r2, s2)" by (cases "emit_event ?args s1")
  have "route_rows s2 = route_rows s1" using emit_event_routes [of ?args s1] em by simp
  then show ?thesis
    using run d s1 em
    by (auto simp: discard_generated_def and_then_def proc_simps in_store_def st routes_of_def)
qed

text \<open>The run of the \<^verbatim>\<open>try\<close> statement from a state whose routes are \<open>old\<close>.\<close>

lemma with_no_routes_cases:
  assumes env: "\<And>s. routes_of w (sv_meanwhile sv s) = routes_of w s"
    and existing: "rr_route_id ` set (routes_of w s) - {[]} \<subseteq> set existing"
      "set existing \<subseteq> rr_route_id ` set (routes_of w s)"
    and run: "with_no_routes (on_error (generate_and_replace sv w q m fb v nodes edges existing)
      (discard_generated sv w q)) s = (r, s')"
  obtains (failed) e where "r = Inl e" and "routes_of w s' = routes_of w s"
  | (replaced) res ranked st where "r = Inr res" and "generated w (routes_of w s) ranked st"
      and "gr_ranked_route_ids res = map rr_route_id ranked"
      and "gr_top_route_id res = map_option rr_route_id (first_of ranked)"
      and "routes_of w s' = filter (\<lambda>r. rr_route_id r \<notin> set existing) (routes_of w (fst st))"
proof -
  let ?old = "routes_of w s"
  have start: "gen_at w ?old [] (s, [])" by (simp add: gen_at_def gen_inv_def)
  obtain ra st where a: "generate_attempt sv w q m fb v nodes edges (s, []) = (ra, st)"
    by (cases "generate_attempt sv w q m fb v nodes edges (s, [])")
  note attempt = triple_attempt [OF env]
  show thesis
  proof (cases ra)
    case (Inl e)
    obtain rd st' where d: "discard_generated sv w q e st = (rd, st')" by (cases "discard_generated sv w q e st")
    have "gen_inv w ?old st" using triple_raises [OF attempt start] a Inl by blast
    then have "routes_of w (fst st') = ?old" using d by (rule discard_restores)
    then show thesis
      using run a d Inl failed
      by (auto simp: with_no_routes_def on_error_def generate_and_replace_def and_then_def split: sum.splits)
  next
    case (Inr ranked)
    have g: "generated w ?old ranked st" using triple_returns [OF attempt start] a Inr by blast
    obtain s1 where d: "delete_all existing (fst st) = (Inr (), s1)"
      using delete_all_routes(1) [of existing "fst st"] by (cases "delete_all existing (fst st)") simp
    have "routes_of w s1 = filter (\<lambda>r. rr_route_id r \<notin> set existing) (routes_of w (fst st))"
      using routes_of_filter [of s1 _ "fst st" w] delete_all_routes(2) [of existing "fst st"] d by simp
    then show thesis
      using run a d Inr replaced [OF _ g]
      by (auto simp: with_no_routes_def on_error_def generate_and_replace_def and_then_def in_store_def proc_simps)
  qed
qed

lemma generate_routes_cases:
  assumes env: "\<And>s. routes_of w (sv_meanwhile sv s) = routes_of w s"
    and run: "generate_routes sv w q reason m fb s = (r, s')"
  obtains (failed) e where "r = Inl e" and "routes_of w s' = routes_of w s"
  | (replaced) res ranked st existing where "r = Inr res" and "generated w (routes_of w s) ranked st"
      and "gr_ranked_route_ids res = map rr_route_id ranked"
      and "gr_top_route_id res = map_option rr_route_id (first_of ranked)"
      and "routes_of w s' = filter (\<lambda>r. rr_route_id r \<notin> set existing) (routes_of w (fst st))"
      and "set existing = rr_route_id ` set (routes_of w s) - {[]}"
proof -
  define nodes where "nodes = map node_view (filter (\<lambda>r. nd_workspace_id r = w) (node_rows s))"
  define edges where "edges = filter (\<lambda>r. eg_workspace_id r = w) (edge_rows s)"
  define v where "v = (case select_key ws_workspace_id w (workspace_rows s) of None \<Rightarrow> None
    | Some ws \<Rightarrow> if truthy (ws_latest_version_id ws) then ws_latest_version_id ws else None)"
  define args where "args = event_args ''route_generation_started'' (Some q) None (Some w)
    ''route_generation_service'' ''generate'' ''started'' [(''version_id'', opt_str v)]
    [(''graph_node_count'', int_len nodes), (''graph_edge_count'', int_len edges),
     (''max_candidates'', VInt m), (''reason'', VStr reason)] None"
  obtain re s1 where e: "emit_event args s = (re, s1)" by (cases "emit_event args s")
  have rows: "route_rows s1 = route_rows s" using emit_event_routes [of args s] e by simp
  then have same: "routes_of w s1 = routes_of w s" by (simp add: routes_of_def)
  define existing where "existing = filter (\<lambda>i. i \<noteq> [])
    (map (rr_route_id \<circ> route_view_of) (filter (\<lambda>r. rr_workspace_id r = w) (route_rows s1)))"
  have ex: "set existing = rr_route_id ` set (routes_of w s) - {[]}"
    by (force simp: existing_def routes_of_def rows)
  note unfold = generate_routes_def and_then_def proc_simps Let_def get_graph_workspace_def
    nodes_def [symmetric] edges_def [symmetric] v_def [symmetric] args_def [symmetric] e
    existing_def [symmetric]
  consider e where "r = Inl e" "routes_of w s' = routes_of w s"
    | "with_no_routes (on_error (generate_and_replace sv w q m fb v nodes edges existing)
        (discard_generated sv w q)) s1 = (r, s')"
    using run same by (auto simp: unfold split: if_splits sum.splits)
  then show thesis
  proof cases
    case 2
    show thesis
    proof (rule with_no_routes_cases [OF env _ _ 2])
      show "rr_route_id ` set (routes_of w s1) - {[]} \<subseteq> set existing"
        "set existing \<subseteq> rr_route_id ` set (routes_of w s1)" by (auto simp: ex same)
    qed (use failed replaced ex same in auto)
  qed (rule failed)
qed

text \<open>
  C25: Generating routes is all or nothing. If it raises, whatever the reason (a bad request, an empty
  graph, no candidate, a refused score, a failing or cancelled summary, a failing statement), the
  routes of the workspace are as they were, provided the other tasks leave them alone meanwhile.
\<close>

theorem generate_routes_failure_restores:
  assumes "\<And>s. routes_of w (sv_meanwhile sv s) = routes_of w s"
    and "generate_routes sv w q reason m fb s = (Inl e, s')"
  shows "routes_of w s' = routes_of w s"
  using generate_routes_cases [OF assms] by blast

text \<open>
  C26: If it returns, the routes of the workspace are exactly the new ones, none of them has the id of
  an old one, and the \<open>n\<close>th of the returned ids is the route of rank \<open>n\<close>; there is at least one.
\<close>

theorem generate_routes_replaces:
  assumes env: "\<And>s. routes_of w (sv_meanwhile sv s) = routes_of w s"
    and run: "generate_routes sv w q reason m fb s = (Inr res, s')"
    and ids: "[] \<notin> rr_route_id ` set (routes_of w s)"
  shows "mset (map rr_route_id (routes_of w s')) = mset (gr_ranked_route_ids res) \<and>
    distinct (gr_ranked_route_ids res) \<and>
    set (gr_ranked_route_ids res) \<inter> rr_route_id ` set (routes_of w s) = {} \<and>
    (\<forall>(n, k) \<in> set (enumerate 1 (gr_ranked_route_ids res)). ranked_in w n k s') \<and>
    (\<exists>k ks. gr_ranked_route_ids res = k # ks \<and> gr_top_route_id res = Some k)"
  using env run
proof (cases rule: generate_routes_cases)
  case (replaced res' ranked st existing)
  let ?old = "routes_of w s"
  have res: "res' = res" using replaced(1) by simp
  obtain gs where gs: "routes_of w (fst st) = ?old @ gs" "map rr_route_id gs = snd st" "distinct (snd st)"
    "set (snd st) \<inter> rr_route_id ` set ?old = {}"
    using replaced(2) by (auto simp: generated_def gen_inv_def)
  have ranked: "ranked \<noteq> []" "mset (map rr_route_id ranked) = mset (snd st)"
    "\<And>n k. (n, k) \<in> set (enumerate 1 (map rr_route_id ranked)) \<Longrightarrow> ranked_in w n k (fst st)"
    using replaced(2) by (auto simp: generated_def)
  have ex: "set existing = rr_route_id ` set ?old" using replaced(6) ids by auto
  have "filter (\<lambda>r. rr_route_id r \<notin> set existing) gs = gs"
    unfolding ex by (rule other_ids(3) [OF gs(2,4)])
  moreover have "filter (\<lambda>r. rr_route_id r \<notin> set existing) ?old = []"
    by (auto simp: ex filter_empty_conv)
  ultimately have new: "routes_of w s' = gs" using replaced(5) gs(1) by simp
  have ks: "set (map rr_route_id ranked) = set (snd st)" using mset_eq_setD [OF ranked(2)] .
  have "ranked_in w n k s'" if nk: "(n, k) \<in> set (enumerate 1 (map rr_route_id ranked))" for n k
  proof -
    have "k \<in> set (snd st)" using nk ks by (auto simp: enumerate_eq_zip dest: set_zip_rightD)
    moreover obtain r where "r \<in> set (?old @ gs)" "rr_route_id r = k" "rr_rank r = Some (int n)"
      using ranked(3) [OF nk] gs(1) by (auto simp: ranked_in_def)
    ultimately show ?thesis using gs(4) new by (auto simp: ranked_in_def)
  qed
  moreover have "distinct (map rr_route_id ranked)" using ranked(2) gs(3) by (metis mset_eq_imp_distinct_iff)
  ultimately show ?thesis
    using replaced(3,4) res ranked(1,2) new gs(2,4) ks
    by (cases ranked) (auto simp: first_of_def)
qed simp

end
