(* ===== verification/RouteGenerationReturns.thy ===== *)
theory RouteGenerationReturns
  imports RouteGenerationProps RecomputeProps
begin

text \<open>
  When generating routes returns: with a candidate in the graph, fresh ids, the fallback allowed, token
  counts that are numbers and no cancellation, no statement of the service fails. The triples of this theory have no error state.
\<close>

section \<open>What a scored route can be ranked by\<close>

definition rankable :: "'r route_row_scheme \<Rightarrow> bool" where
  "rankable r \<longleftrightarrow>
     (\<exists>x. private_dependency_pressure_of r = Inr x) \<and>
     (\<exists>ns. rmap (\<lambda>d. py_str (get_or d ''factor_name'' (VStr []))) (rr_top_factors r) = Inr ns)"

lemma pressure_in_factors: "\<exists>x. pressure_in (map VDict (map factor_payload fs)) = Inr x"
  by (induction fs) (auto simp: factor_payload_def get_or_def as_float_def)

lemma map_of_mapped: "map_of (map (\<lambda>d. (f d, g d)) ds) k = Some v \<Longrightarrow> \<exists>d \<in> set ds. v = g d"
  by (induction ds) (auto split: if_splits)

lemma pressure_of_breakdown:
  "\<exists>x. pressure_in (sub_list (get_or (sub_dict (get_or (breakdown_payload c dims) k VNone)) ''factors'' VNone)) =
    Inr x"
proof (cases "map_of (breakdown_payload c dims) k")
  case None
  then show ?thesis by (simp add: get_or_def sub_dict_def sub_list_def)
next
  case (Some v)
  from map_of_mapped [OF Some [unfolded breakdown_payload_def]]
  obtain d :: dimension_score where "v = VDict ([(''normalized_score'', VFloat (ds_normalized_score d)), (''score'', VFloat (ds_score d)),
         (''factors'', dicts (map factor_payload (ds_factors d)))] @
        (if ds_dimension d = ''support_score'' then [(''reviewer_critique'', VDict (critique_payload c))] else []))"
    by blast
  then have "sub_list (get_or (sub_dict (get_or (breakdown_payload c dims) k VNone)) ''factors'' VNone) =
      map VDict (map factor_payload (ds_factors d))"
    using Some by (simp add: get_or_def sub_dict_def sub_list_def dicts_def)
  then show ?thesis using pressure_in_factors by metis
qed

lemma top_factor_names_defined:
  "\<exists>ns. rmap (\<lambda>d. py_str (get_or d ''factor_name'' (VStr []))) (ranked_top_factors notes tops) = Inr ns"
proof -
  have "\<exists>ns. rmap (\<lambda>d. py_str (get_or d ''factor_name'' (VStr [])))
      (map (\<lambda>(i, f). factor_payload f @ g i f) xs) = Inr ns" for xs g
    by (induction xs) (auto simp: factor_payload_def get_or_def)
  then show ?thesis unfolding ranked_top_factors_def by this
qed

lemma scored_row_rankable: "rankable (scored_row k t dims b ts r)"
  using pressure_of_breakdown top_factor_names_defined
  by (simp add: rankable_def private_dependency_pressure_of_def scored_row_def Let_def split: prod.split)

lemma rankable_view [simp]: "rankable (route_view_of r) = rankable r"
  by (simp add: rankable_def private_dependency_pressure_of_def)

lemma rankable_key: "rankable r \<Longrightarrow> \<exists>k. rank_key_of r = Inr k"
  by (auto simp: rankable_def rank_key_of_def)

lemma rankable_rank: "(\<And>r. r \<in> set rs \<Longrightarrow> rankable r) \<Longrightarrow> \<exists>out. rank_routes rs = Inr out"
proof -
  assume r: "\<And>r. r \<in> set rs \<Longrightarrow> rankable r"
  then have "\<exists>ks. rmap rank_key_of rs = Inr ks"
  proof (induction rs)
    case (Cons r rs)
    then obtain k ks where "rank_key_of r = Inr k" "rmap rank_key_of rs = Inr ks"
      using rankable_key by fastforce
    then show ?case by simp
  qed simp
  then show ?thesis by (auto simp: rank_routes_def)
qed

lemma score_route_run:
  assumes "select_key rr_route_id k (route_rows s) = Some r" and "rr_workspace_id r = w"
    and "\<exists>n \<in> set (node_rows s). nd_workspace_id n = w"
    and "set focus \<subseteq> set (map nd_node_id (filter (\<lambda>n. nd_workspace_id n = w) (node_rows s)))"
    and "''event_'' @ hex_supply s (drawn s) \<notin> evt_event_id ` set (event_rows s)"
  obtains v f e where "score_route w k q None focus s = (Inr v,
      s\<lparr>ticks := Suc (Suc (ticks s)), drawn := Suc (drawn s),
        route_rows := update_where (\<lambda>x. rr_route_id x = k) f (route_rows s), event_rows := event_rows s @ [e]\<rparr>)"
    and "\<And>r. rr_route_id (f r) = rr_route_id r \<and> rr_workspace_id (f r) = rr_workspace_id r \<and> rankable (f r)"
    and "evt_event_id e = ''event_'' @ hex_supply s (drawn s)"
proof -
  obtain v s' where run: "score_route w k q None focus s = (Inr v, s')"
    using score_route_returns [OF assms(1-4) _ assms(5)] by blast
  obtain res s1 where b: "score_route_body w k q None focus s = (res, s1)"
    by (cases "score_route_body w k q None focus s")
  have eq: "res = Inr v" "s1 = s'"
    using run b by (auto simp: score_route_def on_error_def split: sum.splits prod.splits)
  from b show thesis
  proof (cases rule: score_route_body_cases)
    case (refused e)
    then show ?thesis using eq by simp
  next
    case (stored r' t nds dims)
    from stored(5) assms(1) show thesis
    proof (cases rule: store_scores_cases)
      case (scored e)
      show thesis
        by (rule that [where v = v and e = e and f = "scored_row k (tpl_template_id t) dims
            (build_node_score_breakdown nds (concat (map ds_factors dims)) focus) (clock s (ticks s))"])
          (use run eq scored(2,7) in \<open>simp_all add: scored_row_rankable\<close>)
    next
      case (taken e)
      then show ?thesis using eq by simp
    qed
  qed
qed

section \<open>The invariant of a run that succeeds\<close>

definition fresh_routes :: "store \<Rightarrow> bool" where
  "fresh_routes s \<longleftrightarrow>
     (\<forall>n \<ge> drawn s. ''route_'' @ hex_supply s n \<notin> rr_route_id ` set (route_rows s))"

definition in_rank_order :: "string \<Rightarrow> string \<Rightarrow> store \<Rightarrow> bool" where
  "in_rank_order w k s \<longleftrightarrow>
     (\<exists>r. select_key rr_route_id k (route_rows s) = Some r \<and> rr_workspace_id r = w \<and> rankable r)"

definition live :: "string \<Rightarrow> node_row list \<Rightarrow> gen_state \<Rightarrow> bool" where
  "live w ns st \<longleftrightarrow>
     node_rows (fst st) = ns \<and> fresh_events (fst st) \<and> fresh_routes (fst st) \<and>
     (\<forall>k \<in> set (snd st). in_rank_order w k (fst st))"

lemma rankable_cong:
  "rr_score_breakdown r' = rr_score_breakdown r \<Longrightarrow> rr_top_factors r' = rr_top_factors r \<Longrightarrow>
   rankable r' = rankable r"
  by (simp add: rankable_def private_dependency_pressure_of_def)

lemma fresh_routes_keep:
  assumes "fresh_routes s" "rr_route_id ` set (route_rows s') = rr_route_id ` set (route_rows s)"
    and "hex_supply s' = hex_supply s" "drawn s \<le> drawn s'"
  shows "fresh_routes s'"
  using assms(1) unfolding fresh_routes_def assms(2,3) using order_trans [OF assms(4)] by simp

lemma key_set_update:
  "(\<And>r. rr_route_id (f r) = rr_route_id r) \<Longrightarrow>
   rr_route_id ` set (update_where P f rows) = rr_route_id ` set rows"
  using arg_cong [OF keys_update_where [of rr_route_id f P rows], of set] by simp

lemma create_route_fresh:
  assumes "fresh_routes s"
  obtains v row where "create_route args es False s =
      (Inr (Some v), s\<lparr>drawn := Suc (drawn s), route_rows := route_rows s @ [row]\<rparr>)"
    and "rr_route_id v = ''route_'' @ hex_supply s (drawn s)"
    and "rr_route_id row = ''route_'' @ hex_supply s (drawn s)" and "rr_workspace_id row = rr_workspace_id args"
    and "''route_'' @ hex_supply s (drawn s) \<notin> rr_route_id ` set (route_rows s)"
proof -
  let ?k = "''route_'' @ hex_supply s (drawn s)"
  have k: "?k \<notin> rr_route_id ` set (route_rows s)" using assms unfolding fresh_routes_def by blast
  obtain c g where cg: "compute_route_confidence (rr_support_score args) (rr_risk_score args)
      (rr_progressability_score args) = (c, g)"
    by (cases "compute_route_confidence (rr_support_score args) (rr_risk_score args)
      (rr_progressability_score args)")
  let ?row = "args\<lparr>rr_route_id := ?k, rr_confidence_score := Some c, rr_confidence_grade := Some g,
    rr_rank := None, rr_scored_at := None, rr_route_edge_ids_json := edge_ids_json es,
    rr_generation := normalize_generation (rr_generation args)\<rparr>"
  have "create_route args es False s =
      (Inr (Some (route_view_of ?row)), s\<lparr>drawn := Suc (drawn s), route_rows := route_rows s @ [?row]\<rparr>)"
    using k by (simp add: create_route_def cg and_then_def proc_simps gen_id_def insert_row_def
        select_key_append select_key_fresh)
  then show thesis by (rule that) (use k in simp_all)
qed

lemma fresh_routes_add:
  assumes "fresh_routes s" "inj (hex_supply s)" "rr_route_id row = ''route_'' @ hex_supply s (drawn s)"
    and "rr_route_id ` set (route_rows s') = rr_route_id ` set (route_rows s @ [row])"
    and "hex_supply s' = hex_supply s" "Suc (drawn s) \<le> drawn s'"
  shows "fresh_routes s'"
  unfolding fresh_routes_def assms(4,5)
proof (intro allI impI)
  fix n
  assume "drawn s' \<le> n"
  then have n: "drawn s \<le> n" "n \<noteq> drawn s" using assms(6) by auto
  then have "hex_supply s n \<noteq> hex_supply s (drawn s)" using injD [OF assms(2)] by blast
  moreover have "''route_'' @ hex_supply s n \<notin> rr_route_id ` set (route_rows s)"
    using assms(1) n(1) unfolding fresh_routes_def by blast
  ultimately show "''route_'' @ hex_supply s n \<notin> rr_route_id ` set (route_rows s @ [row])"
    unfolding set_append image_Un using assms(3) by simp
qed

lemma prepare_route_run:
  assumes live: "live w ns (s, ids)" and ne: "\<exists>n \<in> set ns. nd_workspace_id n = w"
    and focus: "set (cd_route_node_ids (snd ic)) \<subseteq> set (map nd_node_id (filter (\<lambda>n. nd_workspace_id n = w) ns))"
  obtains p s' where "prepare_route w q v nodes ic acc (s, ids) = (Inr (acc @ [p]), (s', ids @ [pr_route_id p]))"
    and "live w ns (s', ids @ [pr_route_id p])" and "pr_candidate p = snd ic"
proof -
  let ?args = "seed_args w v nodes (snd ic)" and ?es = "cd_route_edge_ids (snd ic)"
  let ?k = "''route_'' @ hex_supply s (drawn s)"
  have l: "node_rows s = ns" "fresh_events s" "fresh_routes s" "\<And>k. k \<in> set ids \<Longrightarrow> in_rank_order w k s"
    using live by (simp_all add: live_def)
  have hex: "inj (hex_supply s)" using l(2) by (simp add: fresh_events_def)
  obtain u row where c: "create_route ?args ?es False s =
      (Inr (Some u), s\<lparr>drawn := Suc (drawn s), route_rows := route_rows s @ [row]\<rparr>)"
    and u: "rr_route_id u = ?k" and row: "rr_route_id row = ?k" "rr_workspace_id row = w"
    and k: "?k \<notin> rr_route_id ` set (route_rows s)"
    by (rule create_route_fresh [OF l(3), of ?args ?es]) simp
  let ?s1 = "s\<lparr>drawn := Suc (drawn s), route_rows := route_rows s @ [row]\<rparr>"
  have ev: "fresh_events ?s1" by (rule fresh_events_keep [OF l(2)]) simp_all
  have sel: "select_key rr_route_id ?k (route_rows ?s1) = Some row"
    using k row by (simp add: select_key_append select_key_fresh)
  obtain w' f e where sc: "score_route w ?k q None (cd_route_node_ids (snd ic)) ?s1 = (Inr w',
      ?s1\<lparr>ticks := Suc (Suc (ticks ?s1)), drawn := Suc (drawn ?s1),
        route_rows := update_where (\<lambda>x. rr_route_id x = ?k) f (route_rows ?s1),
        event_rows := event_rows ?s1 @ [e]\<rparr>)"
    and f: "\<And>r. rr_route_id (f r) = rr_route_id r \<and> rr_workspace_id (f r) = rr_workspace_id r \<and> rankable (f r)"
    and e: "evt_event_id e = ''event_'' @ hex_supply ?s1 (drawn ?s1)"
    by (rule score_route_run [OF sel row(2), of "cd_route_node_ids (snd ic)" q])
      (use ne focus fresh_events_next [OF ev] in \<open>simp_all add: l(1)\<close>)
  let ?s2 = "?s1\<lparr>ticks := Suc (Suc (ticks ?s1)), drawn := Suc (drawn ?s1),
        route_rows := update_where (\<lambda>x. rr_route_id x = ?k) f (route_rows ?s1),
        event_rows := event_rows ?s1 @ [e]\<rparr>"
  let ?p = "\<lparr>pr_index = fst ic, pr_candidate = snd ic, pr_route_id = ?k, pr_top_factors = rr_top_factors w'\<rparr>"
  have run: "prepare_route w q v nodes ic acc (s, ids) = (Inr (acc @ [?p]), (?s2, ids @ [?k]))"
    using c u sc by (simp add: prepare_route_def new_route_def note_route_def in_store_def and_then_def proc_simps)
  have ev2: "fresh_events ?s2" by (rule fresh_events_add [OF ev _ e]) simp_all
  have fk: "\<And>r. rr_route_id (f r) = rr_route_id r" using f by blast
  have rt2: "fresh_routes ?s2"
    by (rule fresh_routes_add [OF l(3) hex row(1)]) (simp_all add: key_set_update fk)
  have "select_key rr_route_id ?k (route_rows ?s2) = Some (f row)"
    using sel row by (simp add: select_key_update fk del: update_where_append)
  then have new: "in_rank_order w ?k ?s2"
    using f row unfolding in_rank_order_def by blast
  have old: "in_rank_order w k' ?s2" if k': "k' \<in> set ids" for k'
  proof -
    obtain r where r: "select_key rr_route_id k' (route_rows s) = Some r" "rr_workspace_id r = w" "rankable r"
      using l(4) [OF k'] by (auto simp: in_rank_order_def)
    have "k' \<in> rr_route_id ` set (route_rows s)" using select_key_Some [OF r(1)] by blast
    then have "k' \<noteq> ?k" "rr_route_id r = k'" using k select_key_Some [OF r(1)] by metis+
    then show ?thesis using r by (simp add: in_rank_order_def select_key_update fk select_key_append)
  qed
  have "live w ns (?s2, ids @ [?k])"
    using ev2 rt2 new old l(1) by (auto simp: live_def)
  then show thesis using that [of ?p ?s2] run by simp
qed

section \<open>Steps without an error\<close>

definition live_with :: "string \<Rightarrow> node_row list \<Rightarrow> string list \<Rightarrow> gen_state \<Rightarrow> bool" where
  "live_with w ns ids st \<longleftrightarrow> live w ns st \<and> snd st = ids"

abbreviation no_error :: "gen_state \<Rightarrow> bool" where
  "no_error \<equiv> \<lambda>_. False"

lemma triple_runs:
  assumes "\<And>s. P (s, ids) \<Longrightarrow> \<exists>a st'. m (s, ids) = (Inr a, st') \<and> Q a st'" and "\<And>st. P st \<Longrightarrow> snd st = ids"
  shows "guarantees P m Q no_error"
  unfolding guarantees_def
proof (intro allI impI)
  fix st assume P: "P st"
  have st: "st = (fst st, ids)" using assms(2) [OF P] by (cases st) simp
  then show "case m st of (Inl e, s') \<Rightarrow> False | (Inr a, s') \<Rightarrow> Q a s'"
    using assms(1) [of "fst st"] P by (subst st, subst (asm) st) auto
qed

lemma live_update:
  assumes "live w ns (s, ids)"
    and f: "\<And>r. rr_route_id (f r) = rr_route_id r" "\<And>r. rr_workspace_id (f r) = rr_workspace_id r"
      "\<And>r. rankable (f r) = rankable r"
  shows "live w ns (route_rows_update (update_where (\<lambda>r. rr_route_id r = k) f) s, ids)"
proof -
  let ?s = "route_rows_update (update_where (\<lambda>r. rr_route_id r = k) f) s"
  have l: "node_rows s = ns" "fresh_events s" "fresh_routes s" "\<And>k. k \<in> set ids \<Longrightarrow> in_rank_order w k s"
    using assms(1) by (simp_all add: live_def)
  have "fresh_events ?s" by (rule fresh_events_keep [OF l(2)]) simp_all
  moreover have "fresh_routes ?s"
    by (rule fresh_routes_keep [OF l(3)]) (simp_all add: key_set_update f)
  moreover have "in_rank_order w k' ?s" if k': "k' \<in> set ids" for k'
  proof -
    obtain r where r: "select_key rr_route_id k' (route_rows s) = Some r" "rr_workspace_id r = w" "rankable r"
      using l(4) [OF k'] by (auto simp: in_rank_order_def)
    show ?thesis
      unfolding in_rank_order_def
      by (rule exI [of _ "if rr_route_id r = k then f r else r"]) (simp add: select_key_update f r)
  qed
  ultimately show ?thesis using l(1) by (simp add: live_def)
qed

lemma triple_live_prepare:
  assumes "\<exists>n \<in> set ns. nd_workspace_id n = w"
    and "set (cd_route_node_ids (snd ic)) \<subseteq> set (map nd_node_id (filter (\<lambda>n. nd_workspace_id n = w) ns))"
  shows "guarantees (live_with w ns (map pr_route_id acc)) (prepare_route w q v nodes ic acc)
    (\<lambda>acc' st. (\<exists>p. acc' = acc @ [p] \<and> pr_candidate p = snd ic) \<and> live_with w ns (map pr_route_id acc') st) no_error"
proof (rule triple_runs)
  fix s
  assume "live_with w ns (map pr_route_id acc) (s, map pr_route_id acc)"
  then have "live w ns (s, map pr_route_id acc)" by (simp add: live_with_def)
  from prepare_route_run [OF this assms] obtain p s' where
    "prepare_route w q v nodes ic acc (s, map pr_route_id acc) =
      (Inr (acc @ [p]), (s', map pr_route_id acc @ [pr_route_id p]))"
    "live w ns (s', map pr_route_id acc @ [pr_route_id p])" "pr_candidate p = snd ic" by blast
  then show "\<exists>acc' st'. prepare_route w q v nodes ic acc (s, map pr_route_id acc) = (Inr acc', st') \<and>
      (\<exists>p. acc' = acc @ [p] \<and> pr_candidate p = snd ic) \<and> live_with w ns (map pr_route_id acc') st'"
    by (auto simp: live_with_def)
qed (simp add: live_with_def)

lemma triple_live_prepare_loop:
  assumes ne: "\<exists>n \<in> set ns. nd_workspace_id n = w"
    and cs: "\<And>c. c \<in> set cs \<Longrightarrow>
      set (cd_route_node_ids c) \<subseteq> set (map nd_node_id (filter (\<lambda>n. nd_workspace_id n = w) ns))"
  shows "guarantees (live_with w ns []) (fold_proc (prepare_route w q v nodes) (enumerate 0 cs) [])
    (\<lambda>acc st. list_all (\<lambda>p. pr_candidate p \<in> set cs) acc \<and> live_with w ns (map pr_route_id acc) st) no_error"
proof -
  let ?I = "\<lambda>(pre :: (nat \<times> candidate) list) (acc :: prepared_route list) st.
    list_all (\<lambda>p. pr_candidate p \<in> set cs) acc \<and> live_with w ns (map pr_route_id acc) st"
  have "guarantees (?I [] []) (fold_proc (prepare_route w q v nodes) (enumerate 0 cs) []) (?I (enumerate 0 cs)) no_error"
  proof (rule triple_fold [where I = ?I])
    fix pre x post and acc :: "prepared_route list"
    assume "enumerate 0 cs = pre @ x # post"
    then have "x \<in> set (enumerate 0 cs)" by simp
    then have x: "snd x \<in> set cs" by (metis enumerate_eq_zip prod.collapse set_zip_rightD)
    show "guarantees (?I pre acc) (prepare_route w q v nodes x acc) (?I (pre @ [x])) no_error"
      by (rule triple_pure, rule triple_weaken [OF triple_live_prepare [OF ne cs [OF x]]]) (use x in auto)
  qed
  then show ?thesis by simp
qed

definition counted :: "llm_result \<Rightarrow> bool" where
  "counted t \<longleftrightarrow> (\<exists>n. token_counts (lr_usage t) = Inr n)"

lemma all_returned:
  assumes "list_all (\<lambda>x. \<exists>y. x = Inr y \<and> Q y) xs"
  shows "errors_of xs = []" and "list_all Q (values_of xs)" and "length (values_of xs) = length xs"
  using assms by (induction xs) (auto simp: errors_of_def values_of_def List.map_filter_simps)

lemma triple_live_summaries:
  assumes "\<And>s. sv_meanwhile sv s = s" and "\<not> sv_cancelled sv"
    and "\<And>p. p \<in> set prepared \<Longrightarrow> \<exists>y. summarize (sv_texts sv) (sv_llm sv (pr_index p)) (pr_candidate p) nodes
      (pr_top_factors p) q fb = Inr y \<and> counted (snd y)"
  shows "guarantees (live_with w ns ids) (summarize_prepared_routes sv prepared nodes q fb)
    (\<lambda>out st. (length out = length prepared \<and> list_all (\<lambda>y. counted (snd y)) out) \<and> live_with w ns ids st) no_error"
proof -
  let ?rs = "map (\<lambda>p. summarize (sv_texts sv) (sv_llm sv (pr_index p)) (pr_candidate p) nodes
    (pr_top_factors p) q fb) prepared"
  have "list_all (\<lambda>x. \<exists>y. x = Inr y \<and> counted (snd y)) ?rs"
    using assms(3) by (simp add: list_all_iff)
  note r = all_returned [OF this]
  show ?thesis
    by (rule triple_runs) (use r assms(1,2) in
      \<open>auto simp: summarize_prepared_routes_def and_then_def proc_simps Let_def live_with_def\<close>)
qed

definition ranked_ok :: "string list \<Rightarrow> route_view list \<Rightarrow> bool" where
  "ranked_ok ids vs \<longleftrightarrow> list_all (\<lambda>v. rankable v \<and> rr_route_id v \<in> set ids) vs"

lemma in_rank_order_select:
  assumes "in_rank_order w k s"
  obtains r where "select_key rr_route_id k (route_rows s) = Some r" "rr_route_id r = k" "rankable r"
  using assms select_key_Some by (metis in_rank_order_def)

lemma projection_run:
  assumes live: "live w ns (s, ids)" and k: "k \<in> set ids"
  obtains u s' where "update_route_projection k args es s = (Inr (Some u), s')"
    and "rankable u" and "rr_route_id u = k" and "live w ns (s', ids)"
proof -
  define f :: "route_row \<Rightarrow> route_row" where
    "f = (\<lambda>r. r\<lparr>rr_title := rr_title args, rr_summary := rr_summary args,
                rr_conclusion := rr_conclusion args, rr_key_supports := rr_key_supports args,
                rr_assumptions := rr_assumptions args, rr_risks := rr_risks args,
                rr_next_validation_action := rr_next_validation_action args,
                rr_conclusion_node_id := rr_conclusion_node_id args,
                rr_route_node_ids := rr_route_node_ids args,
                rr_route_edge_ids_json := edge_ids_json es,
                rr_key_support_node_ids := rr_key_support_node_ids args,
                rr_key_assumption_node_ids := rr_key_assumption_node_ids args,
                rr_risk_node_ids := rr_risk_node_ids args,
                rr_next_validation_node_id := rr_next_validation_node_id args,
                rr_version_id := rr_version_id args, rr_key_strengths := rr_key_strengths args,
                rr_key_risks := rr_key_risks args, rr_open_questions := rr_open_questions args,
                rr_generation := normalize_generation (rr_generation args)\<rparr>)"
  have f: "rr_route_id (f r) = rr_route_id r" "rr_workspace_id (f r) = rr_workspace_id r" for r
    by (simp_all add: f_def)
  have fr: "rankable (f r) = rankable r" for r
    unfolding f_def by (rule rankable_cong) simp_all
  have "in_rank_order w k s" using live k by (simp add: live_def)
  then obtain r where r: "select_key rr_route_id k (route_rows s) = Some r" "rr_route_id r = k" "rankable r"
    by (rule in_rank_order_select)
  have "update_route_projection k args es s = (Inr (Some (route_view_of (f r))),
      route_rows_update (update_where (\<lambda>r. rr_route_id r = k) f) s)"
    unfolding update_route_projection_def f_def [symmetric]
    by (simp add: and_then_def proc_simps select_key_update f(1) r)
  then show thesis
    by (rule that) (simp_all add: f fr r live_update [OF live f fr])
qed

lemma triple_live_projection:
  assumes k: "pr_route_id (fst x) \<in> set ids" and t: "counted (snd (snd x))" and ok: "ranked_ok ids (pj_routes acc)"
  shows "guarantees (live_with w ns ids) (project_route w' v x acc)
    (\<lambda>acc' st. ranked_ok ids (pj_routes acc') \<and> live_with w ns ids st) no_error"
proof (rule triple_runs)
  fix s
  assume "live_with w ns ids (s, ids)"
  then have live: "live w ns (s, ids)" by (simp add: live_with_def)
  obtain i j l where n: "token_counts (lr_usage (snd (snd x))) = Inr (i, j, l)" using t by (auto simp: counted_def)
  obtain u s' where run: "update_route_projection (pr_route_id (fst x))
      (projection_args w' v (fst x) (fst (snd x)) (snd (snd x))) (cd_route_edge_ids (pr_candidate (fst x))) s =
      (Inr (Some u), s')"
    and u: "rankable u" "rr_route_id u = pr_route_id (fst x)" and s': "live w ns (s', ids)"
    by (rule projection_run [OF live k])
  show "\<exists>acc' st'. project_route w' v x acc (s, ids) = (Inr acc', st') \<and>
      ranked_ok ids (pj_routes acc') \<and> live_with w ns ids st'"
    using run u s' n k ok
    by (simp add: project_route_def Let_def and_then_def proc_simps in_store_def conversion_result_def
        live_with_def ranked_ok_def)
qed (simp add: live_with_def)

lemma triple_live_project_loop:
  fixes out :: "(final_summary \<times> llm_result) list"
  assumes "set (map pr_route_id prepared) \<subseteq> set ids" and "list_all (\<lambda>y. counted (snd y)) out"
  shows "guarantees (live_with w ns ids)
    (fold_proc (project_route w' v) (zip prepared out) \<lparr>pj_routes = [], pj_tokens = t, pj_latest = l\<rparr>)
    (\<lambda>pj st. ranked_ok ids (pj_routes pj) \<and> live_with w ns ids st) no_error"
proof -
  let ?I = "\<lambda>(pre :: (prepared_route \<times> final_summary \<times> llm_result) list) (acc :: projection) st.
    ranked_ok ids (pj_routes acc) \<and> live_with w ns ids st"
  have loop: "guarantees (?I [] a) (fold_proc (project_route w' v) (zip prepared out) a)
      (?I (zip prepared out)) no_error" for a
  proof (rule triple_fold [where I = ?I])
    fix pre x post b
    assume "zip prepared out = pre @ x # post"
    then have "x \<in> set (zip prepared out)" by simp
    then have "fst x \<in> set prepared" "snd x \<in> set out"
      by (metis prod.collapse set_zip_leftD, metis prod.collapse set_zip_rightD)
    then have x: "pr_route_id (fst x) \<in> set ids" "counted (snd (snd x))"
      using assms by (auto simp: list_all_iff)
    show "guarantees (?I pre b) (project_route w' v x b) (?I (pre @ [x])) no_error"
      by (rule triple_pure, rule triple_live_projection [OF x])
  qed
  then show ?thesis
    using loop [of "\<lparr>pj_routes = [], pj_tokens = t, pj_latest = l\<rparr>"] by (simp add: ranked_ok_def)
qed

lemma rank_run:
  assumes live: "live w ns (s, ids)" and k: "k \<in> set ids"
  obtains u s' where "update_route_rank k n s = (Inr (Some u), s')"
    and "rankable u" and "rr_route_id u = k" and "live w ns (s', ids)"
proof -
  define f :: "route_row \<Rightarrow> route_row" where "f = (\<lambda>r. r\<lparr>rr_rank := Some n\<rparr>)"
  have f: "rr_route_id (f r) = rr_route_id r" "rr_workspace_id (f r) = rr_workspace_id r" for r
    by (simp_all add: f_def)
  have fr: "rankable (f r) = rankable r" for r
    unfolding f_def by (rule rankable_cong) simp_all
  have "in_rank_order w k s" using live k by (simp add: live_def)
  then obtain r where r: "select_key rr_route_id k (route_rows s) = Some r" "rr_route_id r = k" "rankable r"
    by (rule in_rank_order_select)
  have "update_route_rank k n s = (Inr (Some (route_view_of (f r))),
      route_rows_update (update_where (\<lambda>r. rr_route_id r = k) f) s)"
    unfolding update_route_rank_def f_def [symmetric]
    by (simp add: and_then_def proc_simps select_key_update f(1) r)
  then show thesis
    by (rule that) (simp_all add: f fr r live_update [OF live f fr])
qed

lemma triple_live_persist_loop:
  fixes ranked :: "route_view list"
  assumes ok: "ranked_ok ids ranked"
  shows "guarantees (live_with w ns ids) (fold_proc persist_rank (enumerate 1 ranked) [])
    (\<lambda>acc st. ranked_ok ids acc \<and> live_with w ns ids st) no_error"
proof -
  let ?I = "\<lambda>(pre :: (nat \<times> route_view) list) (acc :: route_view list) st. ranked_ok ids acc \<and> live_with w ns ids st"
  have "guarantees (?I [] []) (fold_proc persist_rank (enumerate 1 ranked) []) (?I (enumerate 1 ranked)) no_error"
  proof (rule triple_fold [where I = ?I])
    fix pre and x :: "nat \<times> route_view" and post acc
    assume "enumerate 1 ranked = pre @ x # post"
    then have "x \<in> set (enumerate 1 ranked)" by simp
    then have "snd x \<in> set ranked" by (metis enumerate_eq_zip prod.collapse set_zip_rightD)
    then have k: "rr_route_id (snd x) \<in> set ids" using ok by (simp add: ranked_ok_def list_all_iff)
    show "guarantees (?I pre acc) (persist_rank x acc) (?I (pre @ [x])) no_error"
    proof (rule triple_pure, rule triple_runs)
      fix s
      assume acc: "ranked_ok ids acc" and "live_with w ns ids (s, ids)"
      then have live: "live w ns (s, ids)" by (simp add: live_with_def)
      obtain u s' where "update_route_rank (rr_route_id (snd x)) (int (fst x)) s = (Inr (Some u), s')"
        "rankable u" "rr_route_id u = rr_route_id (snd x)" "live w ns (s', ids)"
        by (rule rank_run [OF live k])
      then show "\<exists>a st'. persist_rank x acc (s, ids) = (Inr a, st') \<and> ranked_ok ids a \<and> live_with w ns ids st'"
        using acc k by (simp add: persist_rank_def and_then_def in_store_def proc_simps ranked_ok_def live_with_def)
    qed (simp add: live_with_def)
  qed
  then show ?thesis by (simp add: ranked_ok_def)
qed

lemma emit_event_fresh:
  assumes "fresh_events s"
  obtains s' where "emit_event a s = (Inr (), s')"
proof -
  obtain r s' where e: "emit_event a s = (r, s')" by (cases "emit_event a s")
  from e show thesis
    by (cases rule: emit_event_cases) (use that e fresh_events_next [OF assms] in auto)
qed

lemma triple_live_rank_and_report:
  assumes ok: "ranked_ok ids (pj_routes pj)"
  shows "guarantees (live_with w ns ids) (rank_and_report w' q v i j k pj) (\<lambda>_ _. True) no_error"
proof -
  have "\<And>r. r \<in> set (pj_routes pj) \<Longrightarrow> rankable r" using ok by (simp add: ranked_ok_def list_all_iff)
  then obtain ranked where r: "rank_routes (pj_routes pj) = Inr ranked" using rankable_rank by blast
  have rok: "ranked_ok ids ranked"
    using ok mset_eq_setD [OF rank_routes_mset [OF r]] by (simp add: ranked_ok_def list_all_iff)
  have report: "guarantees (live_with w ns ids)
      (and_then (lift_result (conversion_result (top_factor_names persisted))) (\<lambda>names.
       and_then (in_store (emit_event (completed_args w' q v i j k persisted pj names))) (\<lambda>_. ret persisted)))
      (\<lambda>_ _. True) no_error" if p: "ranked_ok ids persisted" for persisted
  proof (rule triple_runs)
    fix s
    assume "live_with w ns ids (s, ids)"
    then have ev: "fresh_events s" by (simp add: live_with_def live_def)
    obtain names where n: "top_factor_names persisted = Inr names"
      using p by (cases persisted) (auto simp: top_factor_names_def ranked_ok_def rankable_def)
    obtain s' where "emit_event (completed_args w' q v i j k persisted pj names) s = (Inr (), s')"
      by (rule emit_event_fresh [OF ev])
    then show "\<exists>a st'. and_then (lift_result (conversion_result (top_factor_names persisted))) (\<lambda>names.
        and_then (in_store (emit_event (completed_args w' q v i j k persisted pj names))) (\<lambda>_. ret persisted))
        (s, ids) = (Inr a, st') \<and> True"
      by (simp add: n and_then_def in_store_def proc_simps conversion_result_def)
  qed (simp add: live_with_def)
  have rank: "lift_result (conversion_result (rank_routes (pj_routes pj))) = ret ranked"
    by (rule ext) (simp add: r conversion_result_def proc_simps)
  show ?thesis
    unfolding rank_and_report_def rank and_then_ret
    by (rule triple_and_then [OF triple_live_persist_loop [OF rok]], rule triple_pure, rule report)
qed

section \<open>Summaries that succeed\<close>

definition sources_ok :: "node_row list \<Rightarrow> bool" where
  "sources_ok nodes \<longleftrightarrow>
     list_all (\<lambda>n. case source_ref_fields (nd_source_ref n # nd_source_refs n) of Inr _ \<Rightarrow> True | Inl _ \<Rightarrow> False)
       nodes"

text \<open>
  Every answer of the model is either usable, with token counts that \<^verbatim>\<open>int\<close> accepts, or refused with the
  error of the client. The generation converts the counts outside the handler of the fallback: a count like
  \<open>n/a\<close> raises.
\<close>

lemma unreadable_count_raises:
  "token_counts [(''total_tokens'', VStr ''n/a'')] = Inl (ValueError ''invalid literal for int() with base 10'')"
  by code_simp

definition llm_ok :: "llm \<Rightarrow> bool" where
  "llm_ok llm \<longleftrightarrow>
     (\<forall>ctx. case summarize_with_llm llm ctx of Inr (_, trace) \<Rightarrow> counted trace | Inl e \<Rightarrow> is_service_error e)"

lemma node_ref_of_defined:
  assumes "sources_ok nodes"
  shows "\<exists>r. node_ref_of (node_lookup nodes i) i = Inr r"
proof (cases "node_lookup nodes i")
  case None
  then show ?thesis by (simp add: node_ref_of_def)
next
  case (Some n)
  then have "n \<in> set nodes" by (rule node_lookup_Some [THEN conjunct1])
  then obtain x where "source_ref_fields (nd_source_ref n # nd_source_refs n) = Inr x"
    using assms unfolding sources_ok_def list_all_iff
    by (cases "source_ref_fields (nd_source_ref n # nd_source_refs n)") force+
  then show ?thesis
    by (cases x) (simp add: Some node_ref_of_def del: source_ref_fields.simps)
qed

lemma rmap_defined: "(\<And>x. x \<in> set xs \<Longrightarrow> \<exists>y. f x = Inr y) \<Longrightarrow> \<exists>ys. rmap f xs = Inr ys"
proof (induction xs)
  case (Cons x xs)
  then obtain y ys where "f x = Inr y" "rmap f xs = Inr ys" by fastforce
  then show ?case by simp
qed simp

lemma summarize_returns:
  assumes "sources_ok nodes" and "llm_ok llm"
  shows "\<exists>y. summarize tx llm c nodes tops q True = Inr y \<and> counted (snd y)"
proof -
  let ?ref = "\<lambda>i. node_ref_of (node_lookup nodes i) i"
  have ref: "\<exists>r. ?ref i = Inr r" for i by (rule node_ref_of_defined [OF assms(1)])
  then have refs: "\<exists>rs. rmap ?ref is = Inr rs" for "is" by (intro rmap_defined)
  obtain a where a: "?ref (cd_conclusion_node_id c) = Inr a" using ref by blast
  obtain b1 where b1: "rmap ?ref (cd_key_support_node_ids c) = Inr b1" using refs by blast
  obtain b2 where b2: "rmap ?ref (cd_key_assumption_node_ids c) = Inr b2" using refs by blast
  obtain b3 where b3: "rmap ?ref (cd_risk_node_ids c) = Inr b3" using refs by blast
  obtain b4 where b4: "rmap ?ref (cd_route_node_ids c) = Inr b4" using refs by blast
  have "\<exists>ctx. build_structured_context tx c nodes tops = Inr ctx"
    by (simp add: build_structured_context_def Let_def a b1 b2 b3 b4)
  then obtain ctx where ctx: "build_structured_context tx c nodes tops = Inr ctx" by blast
  have fb: "counted (fallback_trace tx q ec)" for ec
    by (simp add: counted_def fallback_trace_def token_counts_def normalize_usage_def to_number_or_none_def
      get_or_def int_or_zero_def)
  have "case summarize_with_llm llm ctx of Inr (_, trace) \<Rightarrow> counted trace | Inl e \<Rightarrow> is_service_error e"
    using assms(2) unfolding llm_ok_def by blast
  then show ?thesis
    using fb by (auto simp: summarize_def ctx conversion_result_def is_service_error_def
        split: sum.splits api_error.splits)
qed

section \<open>The run\<close>

definition latest_version :: "string \<Rightarrow> store \<Rightarrow> string option" where
  "latest_version w s =
     (case select_key ws_workspace_id w (workspace_rows s) of None \<Rightarrow> None
      | Some ws \<Rightarrow> if truthy (ws_latest_version_id ws) then ws_latest_version_id ws else None)"

definition workspace_graph :: "string \<Rightarrow> store \<Rightarrow> node_row list \<times> edge_row list" where
  "workspace_graph w s =
     (map node_view (filter (\<lambda>r. nd_workspace_id r = w) (node_rows s)),
      filter (\<lambda>r. eg_workspace_id r = w) (edge_rows s))"

lemma lift_returned: "lift_result (Inr a) = ret a"
  by (rule ext) (simp add: proc_simps)

lemma check_passed: "check e True = ret ()"
  by (simp add: check_def)

lemma generation_attempt_returns:
  assumes live: "live w ns (s, [])" and nodes: "nodes = map node_view (filter (\<lambda>r. nd_workspace_id r = w) ns)"
    and cs: "build_candidates w nodes edges v m = Inr cs" "cs \<noteq> []"
    and src: "sources_ok nodes" and llm: "\<And>i. llm_ok (sv_llm sv i)"
    and quiet: "\<And>s. sv_meanwhile sv s = s" "\<not> sv_cancelled sv"
  obtains ranked st where "generate_attempt sv w q m True v nodes edges (s, []) = (Inr ranked, st)"
proof -
  have sub: "set (cd_route_node_ids c) \<subseteq> set (map nd_node_id (filter (\<lambda>n. nd_workspace_id n = w) ns))"
    if c: "c \<in> set cs" for c
  proof -
    have "candidate_ok (active_nodes nodes) (active_edges (active_nodes nodes) edges) c"
      using build_candidates_good(1) [OF cs(1)] c by (simp add: list_all_iff)
    then have "list_all (is_node_with (active_nodes nodes) (\<lambda>_. True)) (cd_route_node_ids c)"
      by (simp add: candidate_ok_def Let_def)
    then show ?thesis
      by (auto simp: list_all_iff is_node_with_def list_ex_iff active_nodes_def nodes)
  qed
  have "nodes \<noteq> []"
  proof
    assume "nodes = []"
    then have "build_candidates w nodes edges v m = Inr []"
      by (simp add: build_candidates_def active_nodes_def conclusion_nodes_def seed_order_def)
    then show False using cs by simp
  qed
  then have ne: "\<exists>n \<in> set ns. nd_workspace_id n = w" by (auto simp: nodes filter_empty_conv)
  have run: "guarantees (live_with w ns []) (and_then (fold_proc (prepare_route w q v nodes) (enumerate 0 cs) [])
      (summarize_and_rank sv w q True v nodes edges (length cs))) (\<lambda>_ _. True) no_error"
  proof (rule triple_and_then [OF triple_live_prepare_loop [OF ne sub]], assumption, rule triple_pure)
    fix prepared :: "prepared_route list"
    have sums: "guarantees (live_with w ns (map pr_route_id prepared))
        (summarize_prepared_routes sv prepared nodes q True)
        (\<lambda>out st. (length out = length prepared \<and> list_all (\<lambda>y. counted (snd y)) out) \<and>
          live_with w ns (map pr_route_id prepared) st) no_error"
      by (rule triple_live_summaries [OF quiet]) (rule summarize_returns [OF src llm])
    show "guarantees (live_with w ns (map pr_route_id prepared))
        (summarize_and_rank sv w q True v nodes edges (length cs) prepared) (\<lambda>_ _. True) no_error"
      unfolding summarize_and_rank_def
    proof (rule triple_and_then [OF sums], rule triple_pure, erule conjE)
      fix out :: "(final_summary \<times> llm_result) list"
      assume out: "list_all (\<lambda>y. counted (snd y)) out"
      show "guarantees (live_with w ns (map pr_route_id prepared))
          (and_then (fold_proc (project_route w v) (zip prepared out)
             \<lparr>pj_routes = [], pj_tokens = (0, 0, 0), pj_latest = None\<rparr>)
            (rank_and_report w q v (length nodes) (length edges) (length cs))) (\<lambda>_ _. True) no_error"
        by (rule triple_and_then [OF triple_live_project_loop [OF order_refl out]], rule triple_pure,
            rule triple_live_rank_and_report)
    qed
  qed
  have start: "live_with w ns [] (s, [])" using live by (simp add: live_with_def)
  have enter: "generate_attempt sv w q m True v nodes edges =
      and_then (fold_proc (prepare_route w q v nodes) (enumerate 0 cs) [])
        (summarize_and_rank sv w q True v nodes edges (length cs))"
    by (simp add: generate_attempt_def conversion_result_def cs lift_returned check_passed)
  obtain r st where rst: "generate_attempt sv w q m True v nodes edges (s, []) = (r, st)"
    by (cases "generate_attempt sv w q m True v nodes edges (s, [])")
  show thesis
  proof (cases r)
    case (Inl e)
    then show ?thesis using triple_raises [OF run start] rst unfolding enter by blast
  next
    case (Inr ranked)
    then show ?thesis using that rst by blast
  qed
qed

lemma generate_routes_runs:
  assumes "1 \<le> m" "m \<le> 20"
    and "build_candidates w (fst (workspace_graph w s)) (snd (workspace_graph w s)) (latest_version w s) m = Inr cs"
      "cs \<noteq> []"
    and "sources_ok (fst (workspace_graph w s))" and "\<And>i. llm_ok (sv_llm sv i)"
    and "\<And>s. sv_meanwhile sv s = s" and "\<not> sv_cancelled sv"
    and "fresh_events s" and "fresh_routes s"
  shows "\<exists>res s'. generate_routes sv w q reason m True s = (Inr res, s')"
proof -
  define nodes where "nodes = map node_view (filter (\<lambda>r. nd_workspace_id r = w) (node_rows s))"
  define edges where "edges = filter (\<lambda>r. eg_workspace_id r = w) (edge_rows s)"
  define v where "v = latest_version w s"
  define args where "args = event_args ''route_generation_started'' (Some q) None (Some w)
    ''route_generation_service'' ''generate'' ''started'' [(''version_id'', opt_str v)]
    [(''graph_node_count'', int_len nodes), (''graph_edge_count'', int_len edges),
     (''max_candidates'', VInt m), (''reason'', VStr reason)] None"
  have graph: "fst (workspace_graph w s) = nodes" "snd (workspace_graph w s) = edges"
    by (simp_all add: workspace_graph_def nodes_def edges_def)
  note given = assms(3,5) [unfolded graph v_def [symmetric]]
  have ne: "nodes \<noteq> []"
  proof
    assume "nodes = []"
    then have "build_candidates w nodes edges v m = Inr []"
      by (simp add: build_candidates_def active_nodes_def conclusion_nodes_def seed_order_def)
    then show False using given(1) assms(4) by simp
  qed
  have rows: "filter (\<lambda>r. nd_workspace_id r = w) (node_rows s) \<noteq> []" using ne by (simp add: nodes_def)
  obtain r1 s1 where e: "emit_event args s = (r1, s1)" by (cases "emit_event args s")
  have ev: "r1 = Inr () \<and> live w (node_rows s) (s1, [])"
    using e
  proof (cases rule: emit_event_cases)
    case (taken k)
    then show ?thesis using fresh_events_next [OF assms(9)] by blast
  next
    case (added x)
    have "fresh_events s1" by (rule fresh_events_add [OF assms(9), where x = x]) (use added in simp_all)
    moreover have "fresh_routes s1" by (rule fresh_routes_keep [OF assms(10)]) (use added in simp_all)
    ultimately show ?thesis using added by (simp add: live_def)
  qed
  obtain ranked st where a: "generate_attempt sv w q m True v nodes edges (s1, []) = (Inr ranked, st)"
    by (rule generation_attempt_returns [OF _ nodes_def given(1) assms(4) given(2) assms(6,7,8), of s1]) (use ev in simp)
  let ?existing = "filter (\<lambda>i. i \<noteq> [])
    (map (rr_route_id \<circ> route_view_of) (filter (\<lambda>r. rr_workspace_id r = w) (route_rows s1)))"
  obtain s2 where d: "delete_all ?existing (fst st) = (Inr (), s2)"
    using delete_all_routes(1) [of ?existing "fst st"] by (cases "delete_all ?existing (fst st)") simp
  have "with_no_routes (on_error (generate_and_replace sv w q m True v nodes edges ?existing)
      (discard_generated sv w q)) s1 =
    (Inr \<lparr>gr_workspace_id = w, gr_generated_count = length ranked,
       gr_ranked_route_ids = map rr_route_id ranked,
       gr_top_route_id = map_option rr_route_id (first_of ranked)\<rparr>, s2)"
    using a d by (simp add: with_no_routes_def on_error_def generate_and_replace_def and_then_def in_store_def proc_simps)
  then show ?thesis
    using assms(1,2) rows ev e
    by (simp add: generate_routes_def and_then_def proc_simps Let_def get_graph_workspace_def
        nodes_def [symmetric] edges_def [symmetric] latest_version_def [symmetric] v_def [symmetric]
        args_def [symmetric])
qed

text \<open>
  C27: Generating routes with the fallback. If the graph of the workspace offers a candidate, the source
  references have values with a text, the drawn ids are new, no other task touches the store, the task is not
  cancelled, and every call of the language model either gives a usable answer with token counts that are
  numbers or fails with the client's own error, then with the fallback allowed the service returns, even
  if every call fails.
\<close>

theorem generate_routes_returns:
  assumes "1 \<le> m" "m \<le> 20"
    and "build_candidates w (fst (workspace_graph w s)) (snd (workspace_graph w s)) (latest_version w s) m = Inr cs"
      "cs \<noteq> []"
    and "sources_ok (fst (workspace_graph w s))" and "\<And>i. llm_ok (sv_llm sv i)"
    and "\<And>s. sv_meanwhile sv s = s" and "\<not> sv_cancelled sv"
    and "fresh_events s" and "fresh_routes s"
  shows "\<exists>res s'. generate_routes sv w q reason m True s = (Inr res, s')"
  by (rule generate_routes_runs [OF assms])

section \<open>Examples\<close>

text \<open>A language model that is down, and a store with a graph and an old route.\<close>

definition gen_services :: "bool \<Rightarrow> route_services" where
  "gen_services cancelled =
     \<lparr>sv_texts = sample_texts, sv_llm = (\<lambda>_ _. Inl (503, ''research.llm_unavailable'', ''down'', [])),
      sv_meanwhile = (\<lambda>s. s), sv_cancelled = cancelled, sv_first_error = (\<lambda>_. 0),
      sv_error_text = (\<lambda>_. ''error'')\<rparr>"

definition gen_store :: store where
  "gen_store = empty_store\<lparr>node_rows := sample_route_nodes, edge_rows := sample_route_edges,
     route_rows := [sample_route ''old'' ''w'' ''candidate'' [''c''] []]\<rparr>"

lemma gen_store_graph:
  "workspace_graph ''w'' gen_store = (sample_route_nodes, sample_route_edges)"
  "latest_version ''w'' gen_store = None" "sources_ok sample_route_nodes"
  by code_simp+

lemma gen_store_fresh: "fresh_events gen_store" "fresh_routes gen_store" "llm_ok (sv_llm (gen_services c) i)"
  by (auto simp: fresh_events_def fresh_routes_def gen_store_def empty_store_def inj_def unary_def sample_route_def
      llm_ok_def gen_services_def summarize_with_llm_def is_service_error_def)

lemma gen_store_runs: "\<exists>res s'. generate_routes (gen_services False) ''w'' ''q'' ''r'' 8 True gen_store = (Inr res, s')"
  by (rule generate_routes_runs [where cs = "[sample_candidate]"])
    (simp_all add: gen_store_graph gen_store_fresh sample_candidates, simp_all add: gen_services_def)

theorem generate_routes_returns_witness:
  "\<exists>res s'. generate_routes (gen_services False) ''w'' ''q'' ''r'' 8 True gen_store = (Inr res, s')"
  by (rule generate_routes_returns [where cs = "[sample_candidate]"])
    (simp_all add: gen_store_graph gen_store_fresh sample_candidates, simp_all add: gen_services_def)

theorem generate_routes_replaces_witness:
  "\<exists>res s' k. generate_routes (gen_services False) ''w'' ''q'' ''r'' 8 True gen_store = (Inr res, s') \<and>
     mset (map rr_route_id (routes_of ''w'' s')) = mset (gr_ranked_route_ids res) \<and>
     ''old'' \<notin> set (gr_ranked_route_ids res) \<and> gr_top_route_id res = Some k \<and> ranked_in ''w'' 1 k s'"
proof -
  obtain res s' where r: "generate_routes (gen_services False) ''w'' ''q'' ''r'' 8 True gen_store = (Inr res, s')"
    using gen_store_runs by blast
  have "routes_of ''w'' gen_store = [sample_route ''old'' ''w'' ''candidate'' [''c''] []]"
    by (simp add: routes_of_def gen_store_def sample_route_def)
  then have ids: "rr_route_id ` set (routes_of ''w'' gen_store) = {''old''}" by (simp add: sample_route_def)
  have "[] \<notin> rr_route_id ` set (routes_of ''w'' gen_store)" by (simp add: ids)
  from generate_routes_replaces [OF _ r this] show ?thesis
    using r unfolding ids by (fastforce simp: gen_services_def)
qed

theorem generate_routes_failure_restores_witness:
  "\<exists>e s'. generate_routes (gen_services False) ''w'' ''q'' ''r'' 8 True
       (gen_store\<lparr>edge_rows := []\<rparr>) = (Inl e, s') \<and>
     routes_of ''w'' s' = [sample_route ''old'' ''w'' ''candidate'' [''c''] []]"
proof -
  let ?s = "gen_store\<lparr>edge_rows := []\<rparr>"
  have "case generate_routes (gen_services False) ''w'' ''q'' ''r'' 8 True ?s of (Inl _, _) \<Rightarrow> True | _ \<Rightarrow> False"
    by code_simp
  then obtain e s' where r: "generate_routes (gen_services False) ''w'' ''q'' ''r'' 8 True ?s = (Inl e, s')"
    by (auto split: prod.splits sum.splits)
  have "routes_of ''w'' s' = routes_of ''w'' ?s"
    by (rule generate_routes_failure_restores [OF _ r]) (simp add: gen_services_def)
  then show ?thesis using r by (simp add: routes_of_def gen_store_def sample_route_def)
qed

end
