(* ===== verification/MsgGroupQueue.thy ===== *)
theory MsgGroupQueue
  imports StateError PyValue PyFloat
begin

text \<open>
  \<^verbatim>\<open>core/queue/msg_group_queue/msg_group_queue_manager.py\<close>: a fixed number of queues, each
  message routed by the digest of its group key, with statistics and a soft or hard shutdown.

  \<^verbatim>\<open>hashlib.md5\<close>, read as a number, is the parameter \<open>digest\<close>. The queues are
  \<^verbatim>\<open>asyncio.Queue\<close>s without a maximal size, so that \<^verbatim>\<open>put\<close> never waits, and the
  lock around the statistics is never held across an \<^verbatim>\<open>await\<close>: another task can only run while
  \<^verbatim>\<open>get_by_queue\<close> waits for a message and while \<^verbatim>\<open>stop_periodic_logging\<close> waits for the
  cancelled log task. What other tasks do then is a parameter of the two. The clock is a sequence of
  readings. The log output is not modelled.
\<close>

section \<open>The state\<close>

datatype shutdown_mode = SOFT | HARD

record shutdown_state =
  sh_is_shutting_down :: bool
  sh_first_soft_shutdown_time :: "rat option"
  sh_max_delay_seconds :: "rat option"

definition reset :: shutdown_state where
  "reset = \<lparr>sh_is_shutting_down = False, sh_first_soft_shutdown_time = None,
            sh_max_delay_seconds = None\<rparr>"

record window_stats =
  ws_delivered_1min :: nat
  ws_consumed_1min :: nat
  ws_delivered_1hour :: nat
  ws_consumed_1hour :: nat

definition no_window_stats :: window_stats where
  "no_window_stats = \<lparr>ws_delivered_1min = 0, ws_consumed_1min = 0,
                      ws_delivered_1hour = 0, ws_consumed_1hour = 0\<rparr>"

record queue_stats =
  qs_queue_id :: nat
  qs_current_size :: nat
  qs_total_delivered :: nat
  qs_total_consumed :: nat
  qs_last_deliver_time :: "string option"
  qs_last_consume_time :: "string option"
  qs_window :: window_stats

record manager_stats =
  ms_total_queues :: int
  ms_total_current :: nat
  ms_total_delivered :: nat
  ms_total_consumed :: nat
  ms_total_rejected :: nat
  ms_start_time :: string
  ms_uptime_seconds :: rat
  ms_window :: window_stats

definition nat_value :: "nat \<Rightarrow> pyval" where
  "nat_value n = VInt (int n)"

definition time_value :: "string option \<Rightarrow> pyval" where
  "time_value t = (case t of None \<Rightarrow> VNone | Some s \<Rightarrow> VStr s)"

definition window_to_dict :: "window_stats \<Rightarrow> payload" where
  "window_to_dict w =
     [(''delivered_1min'', nat_value (ws_delivered_1min w)),
      (''consumed_1min'', nat_value (ws_consumed_1min w)),
      (''delivered_1hour'', nat_value (ws_delivered_1hour w)),
      (''consumed_1hour'', nat_value (ws_consumed_1hour w))]"

definition queue_stats_to_dict :: "queue_stats \<Rightarrow> payload" where
  "queue_stats_to_dict q =
     [(''queue_id'', nat_value (qs_queue_id q)),
      (''current_size'', nat_value (qs_current_size q)),
      (''total_delivered'', nat_value (qs_total_delivered q)),
      (''total_consumed'', nat_value (qs_total_consumed q)),
      (''last_deliver_time'', time_value (qs_last_deliver_time q)),
      (''last_consume_time'', time_value (qs_last_consume_time q))] @ window_to_dict (qs_window q)"

definition manager_stats_to_dict :: "manager_stats \<Rightarrow> payload" where
  "manager_stats_to_dict g =
     [(''total_queues'', VInt (ms_total_queues g)),
      (''total_current_messages'', nat_value (ms_total_current g)),
      (''total_delivered_messages'', nat_value (ms_total_delivered g)),
      (''total_consumed_messages'', nat_value (ms_total_consumed g)),
      (''total_rejected_messages'', nat_value (ms_total_rejected g)),
      (''start_time'', VStr (ms_start_time g)),
      (''uptime_seconds'', VFloat (ms_uptime_seconds g))] @ window_to_dict (ms_window g)"

text \<open>
  A message is a group key with its data. \<open>mg_log_task\<close> is the periodic log task: none, or whether
  it is still pending. \<open>mg_time\<close> and \<open>mg_iso\<close> are the readings of \<^verbatim>\<open>time.time()\<close> and of
  the formatted date, with the number of readings so far.
\<close>

record 'm manager =
  mg_num_queues :: int
  mg_max_total_messages :: int
  mg_queues :: "(string \<times> 'm) list list"
  mg_queue_stats :: "queue_stats list"
  mg_manager_stats :: manager_stats
  mg_start_time :: rat
  mg_log_task :: "bool option"
  mg_running :: bool
  mg_shutdown_state :: shutdown_state
  mg_delivery_events :: "rat list list"
  mg_consume_events :: "rat list list"
  mg_manager_delivery_events :: "rat list"
  mg_manager_consume_events :: "rat list"
  mg_time :: "nat \<Rightarrow> rat"
  mg_times_read :: nat
  mg_iso :: "nat \<Rightarrow> string"
  mg_isos_read :: nat

definition new_queue_stats :: "nat \<Rightarrow> queue_stats" where
  "new_queue_stats i =
     \<lparr>qs_queue_id = i, qs_current_size = 0, qs_total_delivered = 0, qs_total_consumed = 0,
      qs_last_deliver_time = None, qs_last_consume_time = None, qs_window = no_window_stats\<rparr>"

text \<open>\<^verbatim>\<open>__init__\<close>, which reads both clocks once.\<close>

definition new_manager :: "int \<Rightarrow> int \<Rightarrow> (nat \<Rightarrow> rat) \<Rightarrow> (nat \<Rightarrow> string) \<Rightarrow> 'm manager" where
  "new_manager num_queues max_total_messages readings texts =
     \<lparr>mg_num_queues = num_queues,
      mg_max_total_messages = max_total_messages,
      mg_queues = replicate (nat num_queues) [],
      mg_queue_stats = map new_queue_stats [0..<nat num_queues],
      mg_manager_stats =
        \<lparr>ms_total_queues = num_queues, ms_total_current = 0, ms_total_delivered = 0,
         ms_total_consumed = 0, ms_total_rejected = 0, ms_start_time = texts 0,
         ms_uptime_seconds = 0, ms_window = no_window_stats\<rparr>,
      mg_start_time = readings 0,
      mg_log_task = None,
      mg_running = False,
      mg_shutdown_state = reset,
      mg_delivery_events = replicate (nat num_queues) [],
      mg_consume_events = replicate (nat num_queues) [],
      mg_manager_delivery_events = [],
      mg_manager_consume_events = [],
      mg_time = readings, mg_times_read = 1, mg_iso = texts, mg_isos_read = 1\<rparr>"

datatype queue_error =
    ZeroDivisionError
  | IndexError
  | NoStartTime
  | QueueIdError string

type_synonym ('m, 'a) queue_proc = "('m manager, queue_error, 'a) proc"

definition time_now :: "('m, rat) queue_proc" where
  "time_now m = (Inr (mg_time m (mg_times_read m)), m\<lparr>mg_times_read := Suc (mg_times_read m)\<rparr>)"

definition iso_now :: "('m, string) queue_proc" where
  "iso_now m = (Inr (mg_iso m (mg_isos_read m)), m\<lparr>mg_isos_read := Suc (mg_isos_read m)\<rparr>)"

section \<open>Delivering\<close>

definition hash_route :: "(string \<Rightarrow> nat) \<Rightarrow> string \<Rightarrow> 'm manager \<Rightarrow> queue_error + int" where
  "hash_route digest group_key m =
     (if mg_num_queues m = 0 then Inl ZeroDivisionError
      else Inr (int (digest group_key) mod mg_num_queues m))"

text \<open>The position that \<^verbatim>\<open>self._queues[i]\<close> names; a negative index counts from the end.\<close>

definition queue_position :: "int \<Rightarrow> 'm manager \<Rightarrow> queue_error + nat" where
  "queue_position i m =
     (let n = int (length (mg_queues m)) in
      if 0 \<le> i \<and> i < n then Inr (nat i)
      else if - n \<le> i \<and> i < 0 then Inr (nat (i + n))
      else Inl IndexError)"

definition total_current_messages :: "'m manager \<Rightarrow> nat" where
  "total_current_messages m = sum_list (map length (mg_queues m))"

definition can_deliver_message :: "'m manager \<Rightarrow> bool" where
  "can_deliver_message m \<longleftrightarrow>
     \<not> (int (total_current_messages m) \<ge> mg_max_total_messages m \<and>
        \<not> list_ex (\<lambda>q. length q = 0) (mg_queues m))"

definition reject :: "'m manager \<Rightarrow> 'm manager" where
  "reject m = m\<lparr>mg_manager_stats := (mg_manager_stats m)
     \<lparr>ms_total_rejected := ms_total_rejected (mg_manager_stats m) + 1\<rparr>\<rparr>"

definition put_message :: "nat \<Rightarrow> string \<times> 'm \<Rightarrow> 'm manager \<Rightarrow> 'm manager" where
  "put_message i msg m = m\<lparr>mg_queues := (mg_queues m)[i := mg_queues m ! i @ [msg]]\<rparr>"

definition record_delivery :: "nat \<Rightarrow> string \<Rightarrow> rat \<Rightarrow> 'm manager \<Rightarrow> 'm manager" where
  "record_delivery i current_time timestamp m =
     (let q = mg_queue_stats m ! i; g = mg_manager_stats m in
      m\<lparr>mg_queue_stats := (mg_queue_stats m)[i := q
          \<lparr>qs_current_size := length (mg_queues m ! i),
           qs_total_delivered := qs_total_delivered q + 1,
           qs_last_deliver_time := Some current_time\<rparr>],
        mg_manager_stats := g
          \<lparr>ms_total_delivered := ms_total_delivered g + 1,
           ms_total_current := total_current_messages m\<rparr>,
        mg_delivery_events := (mg_delivery_events m)[i := mg_delivery_events m ! i @ [timestamp]],
        mg_manager_delivery_events := mg_manager_delivery_events m @ [timestamp]\<rparr>)"

definition deliver_message :: "(string \<Rightarrow> nat) \<Rightarrow> string \<Rightarrow> 'm \<Rightarrow> ('m, bool) queue_proc" where
  "deliver_message digest group_key message_data m =
     and_then (lift_result (hash_route digest group_key m)) (\<lambda>target_queue_id.
     and_then (lift_result (queue_position target_queue_id m)) (\<lambda>i.
     if \<not> can_deliver_message m then and_then (writing reject) (\<lambda>_. ret False)
     else
       and_then (writing (put_message i (group_key, message_data))) (\<lambda>_.
       and_then iso_now (\<lambda>current_time.
       and_then time_now (\<lambda>timestamp.
       and_then (writing (record_delivery i current_time timestamp)) (\<lambda>_.
       ret True)))))) m"

section \<open>Consuming\<close>

definition record_consumption :: "nat \<Rightarrow> string \<Rightarrow> rat \<Rightarrow> 'm manager \<Rightarrow> 'm manager" where
  "record_consumption i current_time timestamp m =
     (let q = mg_queue_stats m ! i; g = mg_manager_stats m in
      m\<lparr>mg_queue_stats := (mg_queue_stats m)[i := q
          \<lparr>qs_current_size := length (mg_queues m ! i),
           qs_total_consumed := qs_total_consumed q + 1,
           qs_last_consume_time := Some current_time\<rparr>],
        mg_manager_stats := g
          \<lparr>ms_total_consumed := ms_total_consumed g + 1,
           ms_total_current := total_current_messages m\<rparr>,
        mg_consume_events := (mg_consume_events m)[i := mg_consume_events m ! i @ [timestamp]],
        mg_manager_consume_events := mg_manager_consume_events m @ [timestamp]\<rparr>)"

text \<open>\<^verbatim>\<open>get_nowait\<close> and the statements after it, which run without an interruption.\<close>

definition take_message :: "nat \<Rightarrow> ('m, (string \<times> 'm) option) queue_proc" where
  "take_message i m =
     (case mg_queues m ! i of
        [] \<Rightarrow> ret None
      | msg # rest \<Rightarrow>
          and_then (writing (\<lambda>m. m\<lparr>mg_queues := (mg_queues m)[i := rest]\<rparr>)) (\<lambda>_.
          and_then iso_now (\<lambda>current_time.
          and_then time_now (\<lambda>timestamp.
          and_then (writing (record_consumption i current_time timestamp)) (\<lambda>_.
          ret (Some msg)))))) m"

text \<open>
  How a waiting task goes on: it is resumed, and looks at the queue again, or the timer of
  \<^verbatim>\<open>wait_for\<close> fires; before that, other tasks change the manager. A task that is not resumed
  any more is still waiting.
\<close>

datatype 'm wakeup =
    Resumed "'m manager \<Rightarrow> 'm manager"
  | TimerFired "'m manager \<Rightarrow> 'm manager"

datatype 'm outcome =
    Returned "(string \<times> 'm) option"
  | StillWaiting

fun await_message :: "bool \<Rightarrow> nat \<Rightarrow> 'm wakeup list \<Rightarrow> ('m, 'm outcome) queue_proc" where
  "await_message timed i ws m =
     (if mg_queues m ! i \<noteq> [] then and_then (take_message i) (\<lambda>r. ret (Returned r)) m
      else
        (case ws of
           [] \<Rightarrow> ret StillWaiting m
         | Resumed others # ws' \<Rightarrow> await_message timed i ws' (others m)
         | TimerFired others # ws' \<Rightarrow>
             if timed then ret (Returned None) (others m)
             else await_message timed i ws' (others m)))"

text \<open>
  With a timeout that is not positive, \<^verbatim>\<open>wait_for\<close> cancels the \<^verbatim>\<open>get\<close> before it starts.
\<close>

definition wait_for_message :: "'m wakeup list \<Rightarrow> nat \<Rightarrow> rat option \<Rightarrow> ('m, 'm outcome) queue_proc"
where
  "wait_for_message ws i timeout m =
     (case timeout of
        None \<Rightarrow> await_message False i ws m
      | Some t \<Rightarrow>
          if t \<le> 0 then
            (case ws of
               [] \<Rightarrow> ret StillWaiting m
             | Resumed others # _ \<Rightarrow> ret (Returned None) (others m)
             | TimerFired others # _ \<Rightarrow> ret (Returned None) (others m))
          else await_message True i ws m)"

definition queue_id_error :: "int \<Rightarrow> 'm manager \<Rightarrow> queue_error" where
  "queue_id_error queue_id m =
     QueueIdError (''Queue ID out of range: '' @ int_str queue_id @ '', valid range: 0-'' @
       int_str (mg_num_queues m - 1))"

definition get_by_queue ::
  "'m wakeup list \<Rightarrow> int \<Rightarrow> bool \<Rightarrow> rat option \<Rightarrow> ('m, 'm outcome) queue_proc"
where
  "get_by_queue ws queue_id wait timeout m =
     and_then
       (check (queue_id_error queue_id m) (\<not> (queue_id < 0 \<or> queue_id \<ge> mg_num_queues m)))
       (\<lambda>_. if wait then wait_for_message ws (nat queue_id) timeout
            else and_then (take_message (nat queue_id)) (\<lambda>r. ret (Returned r))) m"

declare await_message.simps [simp del]

section \<open>Statistics\<close>

definition clean_old_events :: "rat \<Rightarrow> rat list \<Rightarrow> ('m, rat list) queue_proc" where
  "clean_old_events max_age_seconds evts =
     and_then time_now (\<lambda>current_time.
     ret (dropWhile (\<lambda>e. fsub current_time e > max_age_seconds) evts))"

text \<open>The deque is given by its position in the state and its update.\<close>

definition count_events_in_window ::
  "('m manager \<Rightarrow> rat list) \<Rightarrow> (rat list \<Rightarrow> 'm manager \<Rightarrow> 'm manager) \<Rightarrow> rat \<Rightarrow> ('m, nat) queue_proc"
where
  "count_events_in_window deque put window_seconds =
     and_then (reading deque) (\<lambda>evts.
     and_then (clean_old_events window_seconds evts) (\<lambda>kept.
     and_then (writing (put kept)) (\<lambda>_.
     ret (length kept))))"

definition count_delivered :: "nat \<Rightarrow> rat \<Rightarrow> ('m, nat) queue_proc" where
  "count_delivered i = count_events_in_window (\<lambda>m. mg_delivery_events m ! i)
     (\<lambda>evts m. m\<lparr>mg_delivery_events := (mg_delivery_events m)[i := evts]\<rparr>)"

definition count_consumed :: "nat \<Rightarrow> rat \<Rightarrow> ('m, nat) queue_proc" where
  "count_consumed i = count_events_in_window (\<lambda>m. mg_consume_events m ! i)
     (\<lambda>evts m. m\<lparr>mg_consume_events := (mg_consume_events m)[i := evts]\<rparr>)"

definition count_all_delivered :: "rat \<Rightarrow> ('m, nat) queue_proc" where
  "count_all_delivered = count_events_in_window mg_manager_delivery_events
     (\<lambda>evts m. m\<lparr>mg_manager_delivery_events := evts\<rparr>)"

definition count_all_consumed :: "rat \<Rightarrow> ('m, nat) queue_proc" where
  "count_all_consumed = count_events_in_window mg_manager_consume_events
     (\<lambda>evts m. m\<lparr>mg_manager_consume_events := evts\<rparr>)"

definition window_counts ::
  "(rat \<Rightarrow> ('m, nat) queue_proc) \<Rightarrow> (rat \<Rightarrow> ('m, nat) queue_proc) \<Rightarrow> ('m, window_stats) queue_proc"
where
  "window_counts delivered consumed =
     and_then (delivered 60) (\<lambda>d1.
     and_then (consumed 60) (\<lambda>c1.
     and_then (delivered 3600) (\<lambda>d60.
     and_then (consumed 3600) (\<lambda>c60.
     ret \<lparr>ws_delivered_1min = d1, ws_consumed_1min = c1,
          ws_delivered_1hour = d60, ws_consumed_1hour = c60\<rparr>))))"

definition update_queue_window :: "nat \<Rightarrow> unit \<Rightarrow> ('m, unit) queue_proc" where
  "update_queue_window i _ =
     and_then (window_counts (count_delivered i) (count_consumed i)) (\<lambda>w.
     writing (\<lambda>m. m\<lparr>mg_queue_stats := (mg_queue_stats m)
       [i := (mg_queue_stats m ! i)\<lparr>qs_window := w\<rparr>]\<rparr>))"

definition update_time_window_stats :: "('m, unit) queue_proc" where
  "update_time_window_stats m =
     and_then (fold_proc update_queue_window [0..<nat (mg_num_queues m)] ()) (\<lambda>_.
     and_then (window_counts count_all_delivered count_all_consumed) (\<lambda>w.
     writing (\<lambda>m. m\<lparr>mg_manager_stats := (mg_manager_stats m)\<lparr>ms_window := w\<rparr>\<rparr>))) m"

definition update_sizes :: "'m manager \<Rightarrow> 'm manager" where
  "update_sizes m = m\<lparr>mg_queue_stats :=
     map2 (\<lambda>q s. s\<lparr>qs_current_size := length q\<rparr>) (mg_queues m) (mg_queue_stats m)\<rparr>"

text \<open>The information on one queue, or on all.\<close>

definition get_queue_info :: "int option \<Rightarrow> ('m, payload + payload list) queue_proc" where
  "get_queue_info queue_id =
     and_then (writing update_sizes) (\<lambda>_.
     and_then update_time_window_stats (\<lambda>_ m.
     case queue_id of
       Some i \<Rightarrow>
         and_then (check (queue_id_error i m) (\<not> (i < 0 \<or> i \<ge> mg_num_queues m))) (\<lambda>_.
         reading (\<lambda>m. Inl (queue_stats_to_dict (mg_queue_stats m ! nat i)))) m
     | None \<Rightarrow> reading (\<lambda>m. Inr (map queue_stats_to_dict (mg_queue_stats m))) m))"

definition get_manager_stats :: "('m, payload) queue_proc" where
  "get_manager_stats =
     and_then time_now (\<lambda>t.
     and_then (writing (\<lambda>m. m\<lparr>mg_manager_stats := (mg_manager_stats m)
       \<lparr>ms_uptime_seconds := fsub t (mg_start_time m),
        ms_total_current := total_current_messages m\<rparr>\<rparr>)) (\<lambda>_.
     and_then update_time_window_stats (\<lambda>_.
     reading (\<lambda>m. manager_stats_to_dict (mg_manager_stats m)))))"

definition get_summary :: "('m, payload \<times> (payload + payload list)) queue_proc" where
  "get_summary =
     and_then get_manager_stats (\<lambda>g. and_then (get_queue_info None) (\<lambda>qs. ret (g, qs)))"

section \<open>Logging and shutdown\<close>

definition start_periodic_logging :: "'m manager \<Rightarrow> 'm manager" where
  "start_periodic_logging m =
     (if mg_running m then m else m\<lparr>mg_running := True, mg_log_task := Some True\<rparr>)"

text \<open>
  Stopping cancels a pending log task and waits until it ends; \<open>others\<close> is what the other tasks do
  in the meantime.
\<close>

definition stop_periodic_logging :: "('m manager \<Rightarrow> 'm manager) \<Rightarrow> 'm manager \<Rightarrow> 'm manager" where
  "stop_periodic_logging others m =
     (if \<not> mg_running m then m
      else
        let m' = m\<lparr>mg_running := False\<rparr> in
        if mg_log_task m = Some True then (others m')\<lparr>mg_log_task := Some False\<rparr> else m')"

fun drain :: "'a list \<Rightarrow> 'a list" where
  "drain [] = []"
| "drain (_ # q) = drain q"

definition discard_messages :: "'m manager \<Rightarrow> 'm manager" where
  "discard_messages m = m\<lparr>mg_queues := map drain (mg_queues m)\<rparr>"

definition perform_hard_shutdown :: "('m manager \<Rightarrow> 'm manager) \<Rightarrow> 'm manager \<Rightarrow> 'm manager" where
  "perform_hard_shutdown others m = discard_messages (stop_periodic_logging others m)"

definition reset_shutdown :: "'m manager \<Rightarrow> 'm manager" where
  "reset_shutdown m = m\<lparr>mg_shutdown_state := reset\<rparr>"

definition request_soft_shutdown :: "rat \<Rightarrow> rat option \<Rightarrow> 'm manager \<Rightarrow> 'm manager" where
  "request_soft_shutdown current_time max_delay_seconds m =
     (if sh_is_shutting_down (mg_shutdown_state m) then m
      else m\<lparr>mg_shutdown_state :=
             \<lparr>sh_is_shutting_down = True, sh_first_soft_shutdown_time = Some current_time,
              sh_max_delay_seconds = max_delay_seconds\<rparr>\<rparr>)"

text \<open>Whether a soft shutdown goes through now.\<close>

definition soft_shutdown_due :: "rat \<Rightarrow> 'm manager \<Rightarrow> queue_error + bool" where
  "soft_shutdown_due current_time m =
     (if total_current_messages m = 0 then Inr True
      else
        (case sh_first_soft_shutdown_time (mg_shutdown_state m) of
           None \<Rightarrow> Inl NoStartTime
         | Some first \<Rightarrow>
             (case sh_max_delay_seconds (mg_shutdown_state m) of
                None \<Rightarrow> Inr False
              | Some delay \<Rightarrow> Inr (fsub current_time first \<ge> delay))))"

definition finish_shutdown :: "('m manager \<Rightarrow> 'm manager) \<Rightarrow> ('m, bool) queue_proc" where
  "finish_shutdown others =
     and_then (writing (perform_hard_shutdown others)) (\<lambda>_.
     and_then (writing reset_shutdown) (\<lambda>_.
     ret True))"

definition shutdown ::
  "('m manager \<Rightarrow> 'm manager) \<Rightarrow> shutdown_mode \<Rightarrow> rat option \<Rightarrow> ('m, bool) queue_proc"
where
  "shutdown others mode max_delay_seconds =
     and_then time_now (\<lambda>current_time.
     case mode of
       SOFT \<Rightarrow>
         and_then (writing (request_soft_shutdown current_time max_delay_seconds)) (\<lambda>_.
         and_then (\<lambda>m. lift_result (soft_shutdown_due current_time m) m) (\<lambda>due.
         if due then finish_shutdown others else ret False))
     | HARD \<Rightarrow> finish_shutdown others)"

end
