(* ===== verification/Traces.thy ===== *)
theory Traces
  imports Main
begin

text \<open>
  Runs of a step relation with the events of their steps, in the order in which they happen, and the
  induction that the safety properties of the stateful components use.
\<close>

inductive traced :: "('s \<Rightarrow> 'e \<Rightarrow> 's \<Rightarrow> bool) \<Rightarrow> 's \<Rightarrow> 'e list \<Rightarrow> 's \<Rightarrow> bool" for step where
  traced_Nil: "traced step s [] s"
| traced_snoc: "traced step s es s' \<Longrightarrow> step s' e s'' \<Longrightarrow> traced step s (es @ [e]) s''"

lemma traced_Nil_iff [simp]: "traced step s [] s' \<longleftrightarrow> s' = s"
  by (auto elim: traced.cases intro: traced_Nil)

lemma traced_one: "step s e s' \<Longrightarrow> traced step s [e] s'"
  using traced_snoc [OF traced_Nil, where e = e and s'' = s' and step = step and s = s] by simp

lemma traced_append:
  "traced step s' fs s'' \<Longrightarrow> traced step s es s' \<Longrightarrow> traced step s (es @ fs) s''"
proof (induction rule: traced.induct)
  case (traced_snoc s' fs s1 e s2)
  then have "traced step s ((es @ fs) @ [e]) s2" by (blast intro: traced.traced_snoc)
  then show ?case by simp
qed simp

lemma traced_Cons: "step s e s' \<Longrightarrow> traced step s' es s'' \<Longrightarrow> traced step s (e # es) s''"
  using traced_append [OF _ traced_one] by fastforce

text \<open>A property of the events so far and the state, kept by every step.\<close>

lemma traced_invariant [consumes 1, case_names initial step]:
  assumes "traced step s es s'" and "I [] s"
    and "\<And>es s e s'. I es s \<Longrightarrow> step s e s' \<Longrightarrow> I (es @ [e]) s'"
  shows "I es s'"
  using assms(1,2) by (induction rule: traced.induct) (auto intro: assms(3))

end
