(* ===== verification/MsgGroupQueueProps.thy ===== *)
theory MsgGroupQueueProps
  imports MsgGroupQueue StateTriples Traces
begin

text \<open>
  The properties of the message group queue: \<open>manager_step\<close> is one uninterrupted step of any task
  that uses the manager, \<open>manager_run\<close> a sequence of such steps with what they delivered, consumed
  and discarded. The locale \<open>group_queue\<close> says what the order of the messages of a group rests on.
\<close>

section \<open>Statistics do not touch the messages\<close>

definition idle :: "'m manager \<Rightarrow> 'm manager \<Rightarrow> bool" where
  "idle m m' \<longleftrightarrow>
     mg_num_queues m' = mg_num_queues m \<and> mg_max_total_messages m' = mg_max_total_messages m \<and>
     mg_queues m' = mg_queues m \<and>
     map qs_total_delivered (mg_queue_stats m') = map qs_total_delivered (mg_queue_stats m) \<and>
     map qs_total_consumed (mg_queue_stats m') = map qs_total_consumed (mg_queue_stats m) \<and>
     ms_total_delivered (mg_manager_stats m') = ms_total_delivered (mg_manager_stats m) \<and>
     ms_total_consumed (mg_manager_stats m') = ms_total_consumed (mg_manager_stats m) \<and>
     ms_total_rejected (mg_manager_stats m') = ms_total_rejected (mg_manager_stats m) \<and>
     length (mg_delivery_events m') = length (mg_delivery_events m) \<and>
     length (mg_consume_events m') = length (mg_consume_events m)"

lemma idle_refl [simp]: "idle m m"
  by (simp add: idle_def)

interpretation idle_run: evolution "idle :: 'm manager \<Rightarrow> 'm manager \<Rightarrow> bool"
  by unfold_locales (auto simp: idle_def)

lemma map_update_same: "i < length xs \<Longrightarrow> f x = f (xs ! i) \<Longrightarrow> map f (xs[i := x]) = map f xs"
  by (metis list_update_id map_update)

lemma map_update_at:
  "f x = f (xs ! i) \<Longrightarrow> map f (xs[i := x]) = map f xs"
  by (cases "i < length xs") (simp_all add: map_update_same list_update_beyond)

lemma map_map2_same:
  "length xs = length ys \<Longrightarrow> (\<And>x y. f (g x y) = f y) \<Longrightarrow> map f (map2 g xs ys) = map f ys"
  by (induction xs ys rule: list_induct2) auto

lemma always_time_now: "always idle time_now"
  by (simp add: always_def time_now_def idle_def)

lemma always_count:
  assumes "\<And>evts m. idle m (put evts m)"
  shows "always idle (count_events_in_window deque put age)"
  unfolding count_events_in_window_def clean_old_events_def
  by (intro idle_run.always_intros always_time_now) (simp add: idle_run.always_writing assms)

lemma always_window_counts:
  assumes "\<And>age. always idle (delivered age)" "\<And>age. always idle (consumed age)"
  shows "always idle (window_counts delivered consumed)"
  unfolding window_counts_def by (intro idle_run.always_intros assms)

lemma always_update_queue_window: "always idle (update_queue_window i u)"
  unfolding update_queue_window_def count_delivered_def count_consumed_def
  by (intro idle_run.always_intros always_window_counts always_count)
    (simp_all add: idle_run.always_writing idle_def map_update_at)

lemma always_update_time_window_stats: "always idle update_time_window_stats"
proof -
  have "idle m (snd (update_time_window_stats m))" for m :: "'a manager"
    unfolding update_time_window_stats_def
    by (rule alwaysD, intro idle_run.always_intros always_update_queue_window always_window_counts)
      (simp_all add: idle_run.always_writing idle_def count_all_delivered_def count_all_consumed_def
        always_count)
  then show ?thesis by (simp add: always_def)
qed

lemma get_manager_stats_idle: "get_manager_stats m = (r, m') \<Longrightarrow> idle m m'"
  unfolding get_manager_stats_def
  by (rule alwaysD_eq [rotated], assumption,
      intro idle_run.always_intros always_time_now always_update_time_window_stats)
    (simp add: idle_run.always_writing idle_def)

section \<open>Well-formed managers\<close>

definition routed :: "(string \<Rightarrow> nat) \<Rightarrow> 'm manager \<Rightarrow> bool" where
  "routed digest m \<longleftrightarrow>
     (\<forall>i k x. i < length (mg_queues m) \<and> (k, x) \<in> set (mg_queues m ! i) \<longrightarrow>
        int (digest k) mod mg_num_queues m = int i)"

definition well_formed :: "'m manager \<Rightarrow> bool" where
  "well_formed m \<longleftrightarrow>
     length (mg_queues m) = nat (mg_num_queues m) \<and>
     length (mg_queue_stats m) = nat (mg_num_queues m) \<and>
     length (mg_delivery_events m) = nat (mg_num_queues m) \<and>
     length (mg_consume_events m) = nat (mg_num_queues m)"

lemma well_formed_new: "well_formed (new_manager n limit readings texts)"
  by (simp add: well_formed_def new_manager_def)

lemma routed_new: "routed digest (new_manager n limit readings texts)"
  by (auto simp: routed_def new_manager_def)

lemma idle_well_formed: "idle m m' \<Longrightarrow> well_formed m \<Longrightarrow> well_formed m'"
  by (auto simp: idle_def well_formed_def dest: map_eq_imp_length_eq)

lemma idle_routed: "idle m m' \<Longrightarrow> routed digest m \<Longrightarrow> routed digest m'"
  by (simp add: idle_def routed_def)

lemma update_sizes_idle: "well_formed m \<Longrightarrow> idle m (update_sizes m)"
  by (simp add: idle_def update_sizes_def well_formed_def map_map2_same del: map_map)

lemma get_queue_info_idle:
  assumes "get_queue_info q m = (r, m')" and "well_formed m"
  shows "idle m m'"
proof -
  have "idle m (snd (get_queue_info q m))"
    unfolding get_queue_info_def
  proof (rule idle_run.step_and_then)
    show "idle m (snd (writing update_sizes m :: (queue_error + unit) \<times> 'a manager))"
      using assms(2) by (simp add: proc_simps update_sizes_idle)
    fix a s'
    show "idle s' (snd (and_then update_time_window_stats (\<lambda>_ m.
        case q of
          Some i \<Rightarrow> and_then (check (queue_id_error i m) (\<not> (i < 0 \<or> i \<ge> mg_num_queues m))) (\<lambda>_.
            reading (\<lambda>m. Inl (queue_stats_to_dict (mg_queue_stats m ! nat i)))) m
        | None \<Rightarrow> reading (\<lambda>m. Inr (map queue_stats_to_dict (mg_queue_stats m))) m) s'))"
      by (rule alwaysD, rule idle_run.always_and_then [OF always_update_time_window_stats])
        (auto simp: always_def proc_simps split: option.split)
  qed
  then show ?thesis using assms(1) by simp
qed

section \<open>Steps\<close>

datatype 'm queue_event =
    is_Delivered: Delivered string 'm
  | is_Rejected: Rejected string
  | is_Consumed: Consumed string 'm
  | is_Discarded: Discarded nat
  | is_Internal: Internal

inductive manager_step ::
  "(string \<Rightarrow> nat) \<Rightarrow> 'm manager \<Rightarrow> 'm queue_event \<Rightarrow> 'm manager \<Rightarrow> bool" for digest where
  step_deliver: "deliver_message digest k x m = (Inr True, m') \<Longrightarrow> manager_step digest m (Delivered k x) m'"
| step_reject: "deliver_message digest k x m = (Inr False, m') \<Longrightarrow> manager_step digest m (Rejected k) m'"
| step_take: "i < length (mg_queues m) \<Longrightarrow> take_message i m = (Inr (Some (k, x)), m') \<Longrightarrow>
    manager_step digest m (Consumed k x) m'"
| step_info: "get_queue_info q m = (r, m') \<Longrightarrow> manager_step digest m Internal m'"
| step_stats: "get_manager_stats m = (s, m') \<Longrightarrow> manager_step digest m Internal m'"
| step_clock: "time_now m = (t, m') \<Longrightarrow> manager_step digest m Internal m'"
| step_start: "manager_step digest m Internal (start_periodic_logging m)"
| step_stop: "manager_step digest m Internal (m\<lparr>mg_running := False\<rparr>)"
| step_log_ended: "manager_step digest m Internal (m\<lparr>mg_log_task := Some False\<rparr>)"
| step_request: "manager_step digest m Internal (request_soft_shutdown t d m)"
| step_reset: "manager_step digest m Internal (reset_shutdown m)"
| step_discard: "manager_step digest m (Discarded (total_current_messages m)) (discard_messages m)"

abbreviation manager_run ::
  "(string \<Rightarrow> nat) \<Rightarrow> 'm manager \<Rightarrow> 'm queue_event list \<Rightarrow> 'm manager \<Rightarrow> bool" where
  "manager_run digest \<equiv> traced (manager_step digest)"

inductive_cases delivered_stepE: "manager_step digest m (Delivered k x) m'"
inductive_cases rejected_stepE: "manager_step digest m (Rejected k) m'"
inductive_cases consumed_stepE: "manager_step digest m (Consumed k x) m'"
inductive_cases discarded_stepE: "manager_step digest m (Discarded n) m'"
inductive_cases internal_stepE: "manager_step digest m Internal m'"

text \<open>What a delivery does, in each of its three ways to end.\<close>

lemma deliver_message_cases:
  assumes "deliver_message digest k x m = (r, m')"
  obtains (raised) e where "r = Inl e" "m' = m"
  | (rejected) i where "hash_route digest k m = Inr i" "r = Inr False" "m' = reject m" "\<not> can_deliver_message m"
  | (delivered) j i m1 where "hash_route digest k m = Inr j" "queue_position j m = Inr i" "r = Inr True"
      "can_deliver_message m"
      "m1 = (put_message i (k, x) m)\<lparr>mg_isos_read := Suc (mg_isos_read m), mg_times_read := Suc (mg_times_read m)\<rparr>"
      "m' = record_delivery i (mg_iso m (mg_isos_read m)) (mg_time m (mg_times_read m)) m1"
proof (cases "hash_route digest k m")
  case (Inl e)
  then show ?thesis using assms that(1) by (auto simp: deliver_message_def proc_simps)
next
  case j: (Inr j)
  show ?thesis
  proof (cases "queue_position j m")
    case (Inl e)
    then show ?thesis using assms j that(1) by (auto simp: deliver_message_def proc_simps)
  next
    case i: (Inr i)
    show ?thesis
    proof (cases "can_deliver_message m")
      case False
      then show ?thesis using assms i j that(2) by (auto simp: deliver_message_def proc_simps)
    next
      case True
      then have "r = Inr True" "m' = record_delivery i (mg_iso m (mg_isos_read m)) (mg_time m (mg_times_read m))
        ((put_message i (k, x) m)\<lparr>mg_isos_read := Suc (mg_isos_read m), mg_times_read := Suc (mg_times_read m)\<rparr>)"
        using assms i j by (auto simp: deliver_message_def proc_simps iso_now_def time_now_def put_message_def)
      then show ?thesis using that(3) i j True by blast
    qed
  qed
qed

lemma take_message_cases:
  assumes "take_message i m = (r, m')"
  obtains (empty) "mg_queues m ! i = []" "r = Inr None" "m' = m"
  | (taken) msg rest m1 where "mg_queues m ! i = msg # rest" "r = Inr (Some msg)"
      "m1 = m\<lparr>mg_queues := (mg_queues m)[i := rest],
              mg_isos_read := Suc (mg_isos_read m), mg_times_read := Suc (mg_times_read m)\<rparr>"
      "m' = record_consumption i (mg_iso m (mg_isos_read m)) (mg_time m (mg_times_read m)) m1"
proof (cases "mg_queues m ! i")
  case Nil
  then have "take_message i m = (Inr None, m)" by (simp add: take_message_def ret_apply)
  then show ?thesis using assms that(1) [OF Nil] by simp
next
  case (Cons msg rest)
  then have "take_message i m = (Inr (Some msg),
      record_consumption i (mg_iso m (mg_isos_read m)) (mg_time m (mg_times_read m))
        (m\<lparr>mg_queues := (mg_queues m)[i := rest],
           mg_isos_read := Suc (mg_isos_read m), mg_times_read := Suc (mg_times_read m)\<rparr>))"
    by (simp add: take_message_def proc_simps iso_now_def time_now_def)
  then show ?thesis using assms that(2) [OF Cons _ refl] by simp
qed

lemma drain_Nil [simp]: "drain q = []"
  by (induction q) auto

lemma internal_step_idle:
  assumes "manager_step digest m Internal m'" "well_formed m"
  shows "idle m m'"
  using assms
  by (auto elim!: internal_stepE dest: get_queue_info_idle get_manager_stats_idle
      simp: idle_def start_periodic_logging_def request_soft_shutdown_def reset_shutdown_def time_now_def)

text \<open>The position of a route exists, and is the route.\<close>

lemma route_position:
  assumes "well_formed m" "hash_route digest k m = Inr j" "queue_position j m = Inr i"
  shows "i < length (mg_queues m)" "int i = int (digest k) mod mg_num_queues m" "0 < mg_num_queues m"
proof -
  let ?n = "mg_num_queues m"
  have j: "?n \<noteq> 0" "j = int (digest k) mod ?n" using assms(2) by (auto simp: hash_route_def split: if_splits)
  show pos: "0 < ?n"
    using assms(1,3) j by (cases "0 < ?n") (auto simp: well_formed_def queue_position_def split: if_splits)
  then have "0 \<le> j" "j < ?n" using j by auto
  then show "i < length (mg_queues m)" "int i = int (digest k) mod ?n"
    using assms(1,3) j by (auto simp: well_formed_def queue_position_def split: if_splits)
qed

lemma step_well_formed:
  assumes "manager_step digest m e m'" "well_formed m"
  shows "well_formed m'"
proof (cases e)
  case (Delivered k x)
  then show ?thesis using assms
    by (auto elim!: delivered_stepE deliver_message_cases
        simp: well_formed_def record_delivery_def put_message_def Let_def)
next
  case (Rejected k)
  then show ?thesis using assms
    by (auto elim!: rejected_stepE deliver_message_cases simp: well_formed_def reject_def)
next
  case (Consumed k x)
  then show ?thesis using assms
    by (auto elim!: consumed_stepE take_message_cases simp: well_formed_def record_consumption_def Let_def)
next
  case (Discarded n)
  then show ?thesis using assms
    by (auto elim!: discarded_stepE simp: well_formed_def discard_messages_def)
next
  case Internal
  then show ?thesis using assms internal_step_idle idle_well_formed by blast
qed

section \<open>The order of the messages of a group\<close>

definition delivered_by :: "string \<Rightarrow> 'm queue_event \<Rightarrow> 'm list" where
  "delivered_by k e = (case e of Delivered j x \<Rightarrow> if j = k then [x] else [] | _ \<Rightarrow> [])"

definition consumed_by :: "string \<Rightarrow> 'm queue_event \<Rightarrow> 'm list" where
  "consumed_by k e = (case e of Consumed j x \<Rightarrow> if j = k then [x] else [] | _ \<Rightarrow> [])"

definition delivered_of :: "string \<Rightarrow> 'm queue_event list \<Rightarrow> 'm list" where
  "delivered_of k es = concat (map (delivered_by k) es)"

definition consumed_of :: "string \<Rightarrow> 'm queue_event list \<Rightarrow> 'm list" where
  "consumed_of k es = concat (map (consumed_by k) es)"

text \<open>The events since a shutdown last discarded the messages.\<close>

definition since_discard :: "'m queue_event list \<Rightarrow> 'm queue_event list" where
  "since_discard es = rev (takeWhile (\<lambda>e. \<not> is_Discarded e) (rev es))"

lemma since_discard_simps [simp]:
  "since_discard [] = []"
  "since_discard (es @ [e]) = (if is_Discarded e then [] else since_discard es @ [e])"
  by (simp_all add: since_discard_def)

lemma trace_of_simps [simp]:
  "delivered_of k [] = []" "delivered_of k (es @ [e]) = delivered_of k es @ delivered_by k e"
  "consumed_of k [] = []" "consumed_of k (es @ [e]) = consumed_of k es @ consumed_by k e"
  by (simp_all add: delivered_of_def consumed_of_def)

text \<open>
  What a queue promises to those who use it: every step changes what waits in a group by what it
  delivers and consumes.
\<close>

locale group_queue =
  fixes step :: "'s \<Rightarrow> 'm queue_event \<Rightarrow> 's \<Rightarrow> bool"
    and good :: "'s \<Rightarrow> bool"
    and waiting :: "string \<Rightarrow> 's \<Rightarrow> 'm list"
  assumes good_step: "step s e s' \<Longrightarrow> good s \<Longrightarrow> good s'"
    and kept: "step s e s' \<Longrightarrow> good s \<Longrightarrow> \<not> is_Discarded e \<Longrightarrow>
      waiting k s @ delivered_by k e = consumed_by k e @ waiting k s'"
    and discarded: "step s (Discarded n) s' \<Longrightarrow> good s \<Longrightarrow> waiting k s' = []"
begin

lemma run_good: "traced step s es s' \<Longrightarrow> good s \<Longrightarrow> good s'"
  by (induction rule: traced_invariant) (blast intro: good_step)+

lemma in_order:
  assumes "traced step s es s'" and "good s" and "\<And>k. waiting k s = []"
  shows "good s' \<and> delivered_of k (since_discard es) = consumed_of k (since_discard es) @ waiting k s'"
  using assms(1)
proof (induction rule: traced_invariant)
  case initial
  show ?case using assms(2,3) by simp
next
  case (step es s e s')
  show ?case
  proof (cases e)
    case (Discarded n)
    then show ?thesis using step discarded good_step by fastforce
  qed (use step good_step [OF step(2)] kept [OF step(2), where k = k] in auto)
qed

end

definition of_group :: "string \<Rightarrow> (string \<times> 'm) list \<Rightarrow> 'm list" where
  "of_group k q = map snd (filter (\<lambda>msg. fst msg = k) q)"

definition waiting_of :: "string \<Rightarrow> 'm manager \<Rightarrow> 'm list" where
  "waiting_of k m = of_group k (concat (mg_queues m))"

lemma of_group_simps [simp]:
  "of_group k [] = []"
  "of_group k ((j, x) # q) = (if j = k then [x] else []) @ of_group k q"
  "of_group k (q @ r) = of_group k q @ of_group k r"
  by (simp_all add: of_group_def)

lemma of_group_empty: "of_group k q = [] \<longleftrightarrow> (\<forall>x. (k, x) \<notin> set q)"
  by (auto simp: of_group_def filter_empty_conv)

lemma of_group_concat_empty: "of_group k (concat qs) = [] \<longleftrightarrow> (\<forall>q \<in> set qs. of_group k q = [])"
  by (auto simp: of_group_empty)

lemma of_group_concat:
  assumes "i < length qs" and "\<And>j. j < length qs \<Longrightarrow> j \<noteq> i \<Longrightarrow> of_group k (qs ! j) = []"
  shows "of_group k (concat qs) = of_group k (qs ! i)"
proof -
  have split: "qs = take i qs @ qs ! i # drop (Suc i) qs" using assms(1) by (rule id_take_nth_drop)
  have "of_group k (concat (take i qs)) = []" "of_group k (concat (drop (Suc i) qs)) = []"
    unfolding of_group_concat_empty using assms by (auto simp: in_set_conv_nth)
  then show ?thesis by (subst split) simp
qed

text \<open>The messages of a group wait in the queue of its route.\<close>

lemma waiting_of_route:
  assumes "routed digest m" "i < length (mg_queues m)" "int i = int (digest k) mod mg_num_queues m"
  shows "waiting_of k m = of_group k (mg_queues m ! i)"
  unfolding waiting_of_def
proof (rule of_group_concat [OF assms(2)])
  fix j
  assume "j < length (mg_queues m)" "j \<noteq> i"
  then show "of_group k (mg_queues m ! j) = []"
    using assms(1,3) unfolding of_group_empty routed_def by (metis of_nat_eq_iff)
qed

lemma waiting_of_other:
  assumes "mg_queues m' = (mg_queues m)[i := q]" "i < length (mg_queues m)"
    and "of_group k q = of_group k (mg_queues m ! i)"
  shows "waiting_of k m' = waiting_of k m"
proof -
  let ?qs = "mg_queues m"
  have "of_group k (concat (take i ?qs @ q # drop (Suc i) ?qs)) =
    of_group k (concat (take i ?qs @ ?qs ! i # drop (Suc i) ?qs))"
    using assms(3) by simp
  then show ?thesis
    using assms(1,2) by (simp add: waiting_of_def upd_conv_take_nth_drop id_take_nth_drop [symmetric])
qed

lemma routed_update:
  assumes "routed digest m" "mg_num_queues m' = mg_num_queues m" "mg_queues m' = (mg_queues m)[i := q]"
    and "\<And>j x. (j, x) \<in> set q \<Longrightarrow> i < length (mg_queues m) \<Longrightarrow> int (digest j) mod mg_num_queues m = int i"
  shows "routed digest m'"
  unfolding routed_def
proof (intro allI impI, elim conjE)
  fix j k x
  assume j: "j < length (mg_queues m')" and msg: "(k, x) \<in> set (mg_queues m' ! j)"
  show "int (digest k) mod mg_num_queues m' = int j"
  proof (cases "j = i")
    case True
    then show ?thesis using j msg assms(2,3) assms(4) [where j = k and x = x] by simp
  next
    case False
    then show ?thesis using j msg assms(1-3) by (auto simp: routed_def)
  qed
qed

lemma routed_position: "routed digest m \<Longrightarrow> i < length (mg_queues m) \<Longrightarrow> (k, x) \<in> set (mg_queues m ! i) \<Longrightarrow>
    int (digest k) mod mg_num_queues m = int i"
  unfolding routed_def by blast

lemma record_delivery_queues [simp]:
  "mg_queues (record_delivery i t s m) = mg_queues m"
  "mg_num_queues (record_delivery i t s m) = mg_num_queues m"
  "mg_queues (record_consumption i t s m) = mg_queues m"
  "mg_num_queues (record_consumption i t s m) = mg_num_queues m"
  by (simp_all add: record_delivery_def record_consumption_def Let_def)

lemma deliver_step_queues:
  assumes "manager_step digest m (Delivered k x) m'" "well_formed m"
  obtains i where "i < length (mg_queues m)" "int i = int (digest k) mod mg_num_queues m"
    "mg_num_queues m' = mg_num_queues m" "mg_queues m' = (mg_queues m)[i := mg_queues m ! i @ [(k, x)]]"
proof -
  from assms(1) have "deliver_message digest k x m = (Inr True, m')" by (rule delivered_stepE)
  then show ?thesis
  proof (cases rule: deliver_message_cases)
    case (delivered j i m1)
    show ?thesis
      by (rule that [OF route_position(1,2) [OF assms(2) delivered(1,2)]])
        (simp_all add: delivered(5,6) put_message_def)
  qed auto
qed

lemma consume_step_queues:
  assumes "manager_step digest m (Consumed k x) m'"
  obtains i rest where "i < length (mg_queues m)" "mg_queues m ! i = (k, x) # rest"
    "mg_num_queues m' = mg_num_queues m" "mg_queues m' = (mg_queues m)[i := rest]"
proof -
  from assms obtain i where i: "i < length (mg_queues m)" and t: "take_message i m = (Inr (Some (k, x)), m')"
    by (rule consumed_stepE)
  from t show ?thesis
  proof (cases rule: take_message_cases)
    case (taken msg rest m1)
    then show ?thesis using i by (intro that [of i rest]) simp_all
  qed simp
qed

lemma rejected_step_queues:
  assumes "manager_step digest m (Rejected k) m'"
  shows "m' = reject m"
  using assms by (auto elim!: rejected_stepE deliver_message_cases)

lemma discarded_step_queues:
  assumes "manager_step digest m (Discarded n) m'"
  shows "m' = discard_messages m" "n = total_current_messages m"
  using assms by (auto elim: discarded_stepE)

lemma waiting_of_discard: "waiting_of k (discard_messages m) = []"
  by (auto simp: waiting_of_def discard_messages_def of_group_concat_empty)

lemma routed_step:
  assumes step: "manager_step digest m e m'" and wf: "well_formed m" and "routed digest m"
  shows "routed digest m'"
proof (cases e)
  case (Delivered k x)
  obtain i where i: "i < length (mg_queues m)" "int i = int (digest k) mod mg_num_queues m"
    "mg_num_queues m' = mg_num_queues m" "mg_queues m' = (mg_queues m)[i := mg_queues m ! i @ [(k, x)]]"
    using step wf unfolding Delivered by (rule deliver_step_queues)
  show ?thesis
    by (rule routed_update [OF assms(3) i(3,4)]) (use i(2) routed_position [OF assms(3)] in auto)
next
  case (Consumed k x)
  obtain i rest where i: "mg_queues m ! i = (k, x) # rest"
    "mg_num_queues m' = mg_num_queues m" "mg_queues m' = (mg_queues m)[i := rest]"
    using step unfolding Consumed by (rule consume_step_queues)
  show ?thesis
    by (rule routed_update [OF assms(3) i(2,3)]) (metis i(1) list.set_intros(2) routed_position [OF assms(3)])
next
  case (Rejected k)
  then have "m' = reject m" using step rejected_step_queues by blast
  then show ?thesis using assms(3) by (simp add: reject_def routed_def)
next
  case (Discarded n)
  then have "m' = discard_messages m" using step discarded_step_queues by blast
  then show ?thesis by (auto simp: discard_messages_def routed_def)
next
  case Internal
  then show ?thesis using step wf assms(3) internal_step_idle idle_routed by blast
qed

lemma waiting_of_step:
  assumes step: "manager_step digest m e m'" and wf: "well_formed m" and routed: "routed digest m"
    and "\<not> is_Discarded e"
  shows "waiting_of j m @ delivered_by j e = consumed_by j e @ waiting_of j m'"
proof (cases e)
  case (Delivered k x)
  obtain i where i: "i < length (mg_queues m)" "int i = int (digest k) mod mg_num_queues m"
    and m': "mg_num_queues m' = mg_num_queues m" "mg_queues m' = (mg_queues m)[i := mg_queues m ! i @ [(k, x)]]"
    using step wf unfolding Delivered by (rule deliver_step_queues)
  show ?thesis
  proof (cases "j = k")
    case True
    have "routed digest m'" using step wf routed by (rule routed_step)
    then have "waiting_of k m' = of_group k (mg_queues m' ! i)" using i m' by (intro waiting_of_route) auto
    then show ?thesis
      using True Delivered i m' waiting_of_route [OF routed i]
      by (simp add: delivered_by_def consumed_by_def)
  next
    case False
    then have "waiting_of j m' = waiting_of j m" using i m' by (intro waiting_of_other [OF m'(2)]) auto
    then show ?thesis using False Delivered by (simp add: delivered_by_def consumed_by_def)
  qed
next
  case (Consumed k x)
  obtain i rest where i: "i < length (mg_queues m)" "mg_queues m ! i = (k, x) # rest"
    and m': "mg_num_queues m' = mg_num_queues m" "mg_queues m' = (mg_queues m)[i := rest]"
    using step unfolding Consumed by (rule consume_step_queues)
  show ?thesis
  proof (cases "j = k")
    case True
    have r: "int i = int (digest k) mod mg_num_queues m"
      using routed_position [OF routed i(1), where k = k and x = x] i(2) by simp
    have "routed digest m'" using step wf routed by (rule routed_step)
    then have "waiting_of k m' = of_group k (mg_queues m' ! i)" using i r m' by (intro waiting_of_route) auto
    then show ?thesis
      using True Consumed i m' waiting_of_route [OF routed i(1) r]
      by (simp add: delivered_by_def consumed_by_def)
  next
    case False
    then have "waiting_of j m' = waiting_of j m" using i m' by (intro waiting_of_other [OF m'(2)]) auto
    then show ?thesis using False Consumed by (simp add: delivered_by_def consumed_by_def)
  qed
next
  case (Rejected k)
  then have "m' = reject m" using step rejected_step_queues by blast
  then show ?thesis using Rejected by (simp add: reject_def waiting_of_def delivered_by_def consumed_by_def)
next
  case (Discarded n)
  then show ?thesis using assms(4) by simp
next
  case Internal
  then have "mg_queues m' = mg_queues m" using internal_step_idle step wf by (auto simp: idle_def)
  then show ?thesis using Internal by (simp add: waiting_of_def delivered_by_def consumed_by_def)
qed

interpretation message_groups: group_queue
  "manager_step digest" "\<lambda>m. well_formed m \<and> routed digest m" waiting_of for digest
proof
  show "well_formed m' \<and> routed digest m'"
    if "manager_step digest m e m'" "well_formed m \<and> routed digest m" for m e and m' :: "'a manager"
    using that step_well_formed routed_step by blast
  show "waiting_of k m @ delivered_by k e = consumed_by k e @ waiting_of k m'"
    if "manager_step digest m e m'" "well_formed m \<and> routed digest m" "\<not> is_Discarded e"
    for m e and m' :: "'a manager" and k
    using that waiting_of_step by blast
  show "waiting_of k m' = []"
    if "manager_step digest m (Discarded n) m'" "well_formed m \<and> routed digest m"
    for m n and m' :: "'a manager" and k
    using discarded_step_queues(1) [OF that(1)] by (simp add: waiting_of_discard)
qed

lemma waiting_of_new: "waiting_of k (new_manager n limit readings texts) = []"
  by (auto simp: waiting_of_def new_manager_def of_group_concat_empty)

section \<open>Waiting and shutting down are runs\<close>

text \<open>What other tasks do is any run of the manager.\<close>

definition acts :: "(string \<Rightarrow> nat) \<Rightarrow> ('m manager \<Rightarrow> 'm manager) \<Rightarrow> bool" where
  "acts digest f \<longleftrightarrow> (\<forall>m. \<exists>es. manager_run digest m es (f m))"

fun wakeup_acts :: "(string \<Rightarrow> nat) \<Rightarrow> 'm wakeup \<Rightarrow> bool" where
  "wakeup_acts digest (Resumed f) = acts digest f"
| "wakeup_acts digest (TimerFired f) = acts digest f"

text \<open>A result of a call, with the run that leads to it: a message is what the last step took.\<close>

definition run_returns ::
  "(string \<Rightarrow> nat) \<Rightarrow> 'm manager \<Rightarrow> queue_error + 'm outcome \<Rightarrow> 'm manager \<Rightarrow> bool"
where
  "run_returns digest m r m' \<longleftrightarrow>
     (case r of
        Inr (Returned (Some (k, x))) \<Rightarrow> \<exists>es. manager_run digest m (es @ [Consumed k x]) m'
      | _ \<Rightarrow> \<exists>es. manager_run digest m es m')"

lemma run_returns_after:
  assumes "manager_run digest m es m1" and "run_returns digest m1 r m'"
  shows "run_returns digest m r m'"
proof -
  have "\<exists>gs. manager_run digest m (gs @ t) m'" if "manager_run digest m1 (fs @ t) m'" for fs t
    using traced_append [OF that assms(1)] by (metis append.assoc)
  from this [where t = "[]"] this [where t = "[Consumed k x]" for k x] show ?thesis
    using assms(2) unfolding run_returns_def
    by (auto split: sum.splits outcome.splits option.splits)
qed

lemma take_message_returns:
  assumes "i < length (mg_queues m)" and "and_then (take_message i) (\<lambda>r. ret (Returned r)) m = (r, m')"
  shows "run_returns digest m r m'"
proof -
  obtain t m1 where t: "take_message i m = (t, m1)" by fastforce
  then show ?thesis
  proof (cases rule: take_message_cases)
    case empty
    then show ?thesis using assms(2) t by (auto simp: run_returns_def and_then_apply ret_apply intro!: exI [of _ "[]"])
  next
    case (taken msg rest m2)
    obtain k x where msg: "msg = (k, x)" by fastforce
    have "manager_step digest m (Consumed k x) m1"
      using assms(1) t taken(2) msg by (auto intro: step_take)
    then show ?thesis
      using assms(2) t taken(2) msg traced_one [of "manager_step digest"]
      by (auto simp: run_returns_def and_then_apply ret_apply intro!: exI [of _ "[]"])
  qed
qed

lemma run_num_queues:
  assumes "manager_step digest m e m'" and "well_formed m"
  shows "length (mg_queues m') = length (mg_queues m)"
proof (cases e)
  case (Delivered k x)
  show ?thesis by (rule deliver_step_queues [OF assms [unfolded Delivered]]) simp
next
  case (Consumed k x)
  show ?thesis by (rule consume_step_queues [OF assms(1) [unfolded Consumed]]) simp
next
  case (Rejected k)
  then have "m' = reject m" using assms(1) rejected_step_queues by blast
  then show ?thesis by (simp add: reject_def)
next
  case (Discarded n)
  then have "m' = discard_messages m" using assms(1) discarded_step_queues by blast
  then show ?thesis by (simp add: discard_messages_def)
next
  case Internal
  then have "idle m m'" using internal_step_idle assms by blast
  then show ?thesis by (simp add: idle_def)
qed

lemma run_keeps_shape:
  assumes "manager_run digest m es m'" and "well_formed m"
  shows "well_formed m' \<and> length (mg_queues m') = length (mg_queues m)"
  using assms(1)
proof (induction rule: traced_invariant)
  case initial
  show ?case using assms(2) by simp
next
  case (step es s e s')
  then show ?case using step_well_formed run_num_queues by metis
qed

lemma await_message_returns:
  assumes "await_message timed i ws m = (r, m')" and "i < length (mg_queues m)" and "well_formed m"
    and "\<forall>w \<in> set ws. wakeup_acts digest w"
  shows "run_returns digest m r m'"
  using assms
proof (induction ws arbitrary: m)
  case Nil
  show ?case
  proof (cases "mg_queues m ! i = []")
    case True
    then show ?thesis using Nil(1)
      by (auto simp: await_message.simps ret_apply run_returns_def intro!: exI [of _ "[]"])
  next
    case False
    then show ?thesis using Nil(1,2) by (intro take_message_returns) (simp_all add: await_message.simps)
  qed
next
  case (Cons w ws)
  have resumed: "run_returns digest m r m'"
    if acting: "acts digest f" and later: "await_message timed i ws (f m) = (r, m')" for f
  proof -
    obtain es where es: "manager_run digest m es (f m)" using acting by (auto simp: acts_def)
    then have "well_formed (f m)" "length (mg_queues (f m)) = length (mg_queues m)"
      using run_keeps_shape Cons.prems(3) by blast+
    then have "run_returns digest (f m) r m'"
      using later Cons.prems(2,4) by (intro Cons.IH) auto
    then show ?thesis by (rule run_returns_after [OF es])
  qed
  show ?case
  proof (cases "mg_queues m ! i = []")
    case False
    then show ?thesis using Cons.prems(1,2) by (intro take_message_returns) (simp_all add: await_message.simps)
  next
    case True
    then show ?thesis using Cons.prems(1,4) resumed
      by (cases w)
        (auto simp: await_message.simps [where ws = "_ # _"] acts_def run_returns_def ret_apply split: if_splits)
  qed
qed

lemma run_here: "\<exists>es. manager_run digest m es m"
  by (rule exI [of _ "[]"]) simp

lemma get_by_queue_returns:
  assumes call: "get_by_queue ws queue_id wait timeout m = (r, m')" and wf: "well_formed m"
    and acting: "\<forall>w \<in> set ws. wakeup_acts digest w"
  shows "run_returns digest m r m'"
proof (cases "0 \<le> queue_id \<and> queue_id < mg_num_queues m")
  case False
  then show ?thesis using call
    by (auto simp: get_by_queue_def proc_simps run_returns_def not_le intro!: exI [of _ "[]"])
next
  case True
  then have i: "nat queue_id < length (mg_queues m)" using wf by (simp add: well_formed_def)
  show ?thesis
  proof (cases "wait")
    case False
    then show ?thesis using call True
      by (intro take_message_returns [OF i]) (simp add: get_by_queue_def and_then_apply check_apply)
  next
    case wait: True
    show ?thesis
    proof (cases "\<exists>t. timeout = Some t \<and> t \<le> 0")
      case True
      then show ?thesis
        using call wait \<open>0 \<le> queue_id \<and> queue_id < mg_num_queues m\<close> acting
        by (cases ws rule: list.exhaust; cases "hd ws")
          (auto simp: get_by_queue_def wait_for_message_def and_then_apply check_apply ret_apply
            run_returns_def acts_def run_here)
    next
      case False
      then obtain timed where "await_message timed (nat queue_id) ws m = (r, m')"
        using call wait True
        by (auto simp: get_by_queue_def wait_for_message_def and_then_apply check_apply
            split: option.splits if_splits)
      then show ?thesis by (rule await_message_returns [OF _ i wf acting])
    qed
  qed
qed

text \<open>A shutdown is a run as well, in which the messages are discarded if it returns \<^verbatim>\<open>True\<close>.\<close>

lemma run_internal: "traced (manager_step digest) m es m' \<Longrightarrow> manager_step digest m' Internal m'' \<Longrightarrow>
    \<exists>fs. traced (manager_step digest) m fs m''"
  by (blast intro: traced_snoc)

lemma stop_periodic_logging_runs:
  assumes "acts digest others"
  shows "\<exists>es. manager_run digest m es (stop_periodic_logging others m)"
proof -
  let ?m = "m\<lparr>mg_running := False\<rparr>"
  have stop: "manager_run digest m [Internal] ?m" by (intro traced_one step_stop)
  show ?thesis
  proof (cases "mg_running m \<and> mg_log_task m = Some True")
    case True
    obtain es where "manager_run digest ?m es (others ?m)" using assms by (auto simp: acts_def)
    then have "manager_run digest m ([Internal] @ es) (others ?m)" using stop by (rule traced_append)
    then have "\<exists>fs. manager_run digest m fs ((others ?m)\<lparr>mg_log_task := Some False\<rparr>)"
      using run_internal step_log_ended by blast
    then show ?thesis using True by (simp add: stop_periodic_logging_def Let_def)
  next
    case False
    then show ?thesis
      using stop run_here [of digest m] by (cases "mg_running m") (auto simp: stop_periodic_logging_def Let_def)
  qed
qed

lemma finish_shutdown_runs:
  assumes "acts digest others" and "finish_shutdown others m = (r, m')"
  shows "r = Inr True \<and> (\<exists>es n. manager_run digest m (es @ [Discarded n, Internal]) m')"
proof -
  let ?m = "stop_periodic_logging others m"
  obtain es where es: "manager_run digest m es ?m" using stop_periodic_logging_runs [OF assms(1)] by blast
  have "manager_run digest m (es @ [Discarded (total_current_messages ?m)]) (discard_messages ?m)"
    by (rule traced_snoc [OF es step_discard])
  from traced_snoc [OF this step_reset] show ?thesis
    using assms(2) by (auto simp: finish_shutdown_def perform_hard_shutdown_def proc_simps)
qed

lemma shutdown_runs:
  assumes "acts digest others" and "shutdown others mode d m = (r, m')"
  shows "\<exists>es. manager_run digest m es m' \<and> (r = Inr True \<longrightarrow> since_discard es = [Internal])"
proof -
  obtain t m1 where t: "time_now m = (Inr t, m1)" by (auto simp: time_now_def)
  then have m1: "manager_run digest m [Internal] m1" by (intro traced_one step_clock)
  have finish: ?thesis if run: "manager_run digest m es m2" and f: "finish_shutdown others m2 = (r, m')" for es m2
  proof -
    obtain fs n where "manager_run digest m2 (fs @ [Discarded n, Internal]) m'"
      using finish_shutdown_runs [OF assms(1) f] by blast
    from traced_append [OF this run]
    have "manager_run digest m (((es @ fs) @ [Discarded n]) @ [Internal]) m'" by simp
    moreover have "since_discard (((es @ fs) @ [Discarded n]) @ [Internal]) = [Internal]"
      by (simp del: append_assoc)
    ultimately show ?thesis by blast
  qed
  show ?thesis
  proof (cases mode)
    case HARD
    then show ?thesis using assms(2) t m1 by (intro finish) (auto simp: shutdown_def and_then_apply)
  next
    case SOFT
    let ?m = "request_soft_shutdown t d m1"
    have m2: "manager_run digest m ([Internal] @ [Internal]) ?m" by (rule traced_snoc [OF m1 step_request])
    show ?thesis
    proof (cases "soft_shutdown_due t ?m")
      case (Inl e)
      then show ?thesis using assms(2) t m2 SOFT by (auto simp: shutdown_def proc_simps)
    next
      case (Inr due)
      then show ?thesis
        using assms(2) t m2 SOFT finish [OF m2] by (cases due) (auto simp: shutdown_def proc_simps)
    qed
  qed
qed

section \<open>Properties\<close>

text \<open>
  C28: whatever the tasks do and however their steps interleave, the messages of a group that were
  delivered since the last shutdown are, in the order of their delivery, those that were consumed,
  in the order of their consumption, followed by those that still wait: no message is lost,
  duplicated, invented or overtaken by another of its group.
\<close>

theorem group_messages_in_order:
  assumes "manager_run digest (new_manager num_queues limit readings texts) es m"
  shows "delivered_of k (since_discard es) = consumed_of k (since_discard es) @ waiting_of k m"
  using message_groups.in_order [OF assms] by (simp add: well_formed_new routed_new waiting_of_new)

end
