(* ===== verification/MsgGroupQueueCounts.thy ===== *)
theory MsgGroupQueueCounts
  imports MsgGroupQueueProps
begin

text \<open>
  The counters of the message group queue: what they say about a run, how far the limit on messages
  binds, and what the statistics of the last hour show.
\<close>

section \<open>The totals\<close>

definition discards :: "'m queue_event list \<Rightarrow> nat" where
  "discards es = sum_list (map (\<lambda>e. case e of Discarded n \<Rightarrow> n | _ \<Rightarrow> 0) es)"

definition accounts :: "'m queue_event list \<Rightarrow> 'm manager \<Rightarrow> bool" where
  "accounts es m \<longleftrightarrow>
     ms_total_delivered (mg_manager_stats m) = length (filter is_Delivered es) \<and>
     ms_total_consumed (mg_manager_stats m) = length (filter is_Consumed es) \<and>
     ms_total_rejected (mg_manager_stats m) = length (filter is_Rejected es) \<and>
     sum_list (map qs_total_delivered (mg_queue_stats m)) = length (filter is_Delivered es) \<and>
     sum_list (map qs_total_consumed (mg_queue_stats m)) = length (filter is_Consumed es) \<and>
     length (filter is_Delivered es) =
       length (filter is_Consumed es) + discards es + total_current_messages m"

lemma sum_map_update:
  "i < length xs \<Longrightarrow> f x = f (xs ! i) + d \<Longrightarrow>
     sum_list (map f (xs[i := x])) = sum_list (map f xs) + (d :: nat)"
proof (induction xs arbitrary: i)
  case (Cons y ys)
  then show ?case by (cases i) auto
qed simp

lemma sum_map_update_less:
  "i < length xs \<Longrightarrow> f (xs ! i) = f x + d \<Longrightarrow>
     sum_list (map f xs) = sum_list (map f (xs[i := x])) + (d :: nat)"
proof (induction xs arbitrary: i)
  case (Cons y ys)
  then show ?case by (cases i) auto
qed simp

lemma accounts_deliver:
  assumes "deliver_message digest k x m = (Inr True, m')" "well_formed m" "accounts es m"
  shows "accounts (es @ [Delivered k x]) m'"
  using assms(1)
proof (cases rule: deliver_message_cases)
  case (delivered j i m1)
  have i: "i < length (mg_queues m)" using route_position [OF assms(2) delivered(1,2)] by simp
  then have s: "i < length (mg_queue_stats m)" using assms(2) by (simp add: well_formed_def)
  have "total_current_messages m' = total_current_messages m + 1"
    unfolding total_current_messages_def
    using i by (simp add: delivered(5,6) put_message_def sum_map_update [where d = 1])
  moreover have "sum_list (map qs_total_delivered (mg_queue_stats m')) =
      sum_list (map qs_total_delivered (mg_queue_stats m)) + 1"
    using s by (simp add: delivered(5,6) put_message_def record_delivery_def Let_def sum_map_update [where d = 1])
  moreover have "map qs_total_consumed (mg_queue_stats m') = map qs_total_consumed (mg_queue_stats m)"
    by (simp add: delivered(5,6) put_message_def record_delivery_def Let_def map_update_at)
  ultimately show ?thesis
    using assms(3)
    by (simp add: accounts_def discards_def delivered(5,6) put_message_def record_delivery_def Let_def)
qed simp_all

lemma accounts_take:
  assumes "take_message i m = (Inr (Some (k, x)), m')" "i < length (mg_queues m)" "well_formed m" "accounts es m"
  shows "accounts (es @ [Consumed k x]) m'"
  using assms(1)
proof (cases rule: take_message_cases)
  case (taken msg rest m1)
  have s: "i < length (mg_queue_stats m)" using assms(2,3) by (simp add: well_formed_def)
  have "total_current_messages m = total_current_messages m' + 1"
    unfolding total_current_messages_def
    using assms(2) by (simp add: taken sum_map_update_less [where i = i and x = rest and d = 1])
  moreover have "sum_list (map qs_total_consumed (mg_queue_stats m')) =
      sum_list (map qs_total_consumed (mg_queue_stats m)) + 1"
    using s by (simp add: taken(3,4) record_consumption_def Let_def sum_map_update [where d = 1])
  moreover have "map qs_total_delivered (mg_queue_stats m') = map qs_total_delivered (mg_queue_stats m)"
    by (simp add: taken(3,4) record_consumption_def Let_def map_update_at)
  ultimately show ?thesis
    using assms(4) by (simp add: accounts_def discards_def taken(3,4) record_consumption_def Let_def)
qed simp

lemma accounts_step:
  assumes "manager_step digest m e m'" "well_formed m" "accounts es m"
  shows "accounts (es @ [e]) m'"
proof (cases e)
  case (Delivered k x)
  then have "deliver_message digest k x m = (Inr True, m')" using assms(1) by (auto elim: delivered_stepE)
  then show ?thesis using assms(2,3) unfolding Delivered by (rule accounts_deliver)
next
  case (Consumed k x)
  then obtain i where "i < length (mg_queues m)" "take_message i m = (Inr (Some (k, x)), m')"
    using assms(1) by (auto elim: consumed_stepE)
  then show ?thesis using assms(2,3) unfolding Consumed by (metis accounts_take)
next
  case (Rejected k)
  then have "m' = reject m" using assms(1) rejected_step_queues by blast
  then show ?thesis
    using assms(3) Rejected by (simp add: accounts_def discards_def reject_def total_current_messages_def)
next
  case (Discarded n)
  then have "m' = discard_messages m" "n = total_current_messages m"
    using assms(1) discarded_step_queues by blast+
  then show ?thesis
    using assms(3) Discarded
    by (simp add: accounts_def discards_def discard_messages_def total_current_messages_def o_def)
next
  case Internal
  then have "idle m m'" using internal_step_idle assms by blast
  then show ?thesis
    using assms(3) Internal by (simp add: accounts_def discards_def idle_def total_current_messages_def)
qed

lemma accounts_new: "accounts [] (new_manager n limit readings texts)"
  by (simp add: accounts_def discards_def new_manager_def total_current_messages_def new_queue_stats_def
      o_def sum_list_replicate sum_list_0)

lemma run_accounts:
  assumes "manager_run digest (new_manager num_queues limit readings texts) es m"
  shows "well_formed m \<and> accounts es m"
  using assms
proof (induction rule: traced_invariant)
  case initial
  show ?case by (simp add: well_formed_new accounts_new)
next
  case (step es s e s')
  then show ?case using step_well_formed accounts_step by blast
qed

text \<open>
  C29: the totals of the statistics account for every message: the manager and its queues count the
  accepted, the consumed and the refused messages of the run, and a delivered message was consumed,
  was discarded by a shutdown, or still waits.
\<close>

theorem queue_totals_account:
  assumes "manager_run digest (new_manager num_queues limit readings texts) es m"
  shows "ms_total_delivered (mg_manager_stats m) = length (filter is_Delivered es) \<and>
    ms_total_consumed (mg_manager_stats m) = length (filter is_Consumed es) \<and>
    ms_total_rejected (mg_manager_stats m) = length (filter is_Rejected es) \<and>
    sum_list (map qs_total_delivered (mg_queue_stats m)) = ms_total_delivered (mg_manager_stats m) \<and>
    sum_list (map qs_total_consumed (mg_queue_stats m)) = ms_total_consumed (mg_manager_stats m) \<and>
    ms_total_delivered (mg_manager_stats m) =
      ms_total_consumed (mg_manager_stats m) + discards es + total_current_messages m"
  using run_accounts [OF assms] by (simp add: accounts_def)

section \<open>The limit\<close>

lemma deliver_accepted:
  assumes "well_formed m" "0 < mg_num_queues m" "can_deliver_message m"
  obtains m' where "deliver_message digest k x m = (Inr True, m')"
proof -
  let ?j = "int (digest k) mod mg_num_queues m"
  have "0 \<le> ?j" "?j < mg_num_queues m" using assms(2) by simp_all
  then have "queue_position ?j m = Inr (nat ?j)" using assms(1) by (simp add: queue_position_def well_formed_def)
  then show ?thesis
    using that assms by (auto simp: deliver_message_def hash_route_def proc_simps iso_now_def time_now_def)
qed

text \<open>
  A delivery is refused only if no queue is empty. So one group fills its queue without any bound as
  long as another queue is empty.
\<close>

lemma fill_one_queue:
  fixes digest :: "string \<Rightarrow> nat" and k :: string
  assumes "2 \<le> num_queues"
  defines "j \<equiv> (if int (digest k) mod num_queues = 0 then 1 else 0 :: nat)"
  shows "\<exists>m. manager_run digest (new_manager num_queues limit readings texts) (replicate c (Delivered k x)) m \<and>
    mg_num_queues m = num_queues \<and> mg_queues m ! j = []"
proof (induction c)
  case 0
  have "j < nat num_queues" using assms by (simp add: j_def)
  then show ?case by (simp add: new_manager_def)
next
  case (Suc c)
  then obtain m where run: "manager_run digest (new_manager num_queues limit readings texts) (replicate c (Delivered k x)) m"
    and n: "mg_num_queues m = num_queues" and empty: "mg_queues m ! j = []" by blast
  have wf: "well_formed m" using run_keeps_shape [OF run] well_formed_new by blast
  then have j: "j < length (mg_queues m)" using assms n by (simp add: j_def well_formed_def)
  then have "can_deliver_message m"
    using empty nth_mem [OF j] by (auto simp: can_deliver_message_def list_ex_iff)
  then obtain m' where "deliver_message digest k x m = (Inr True, m')"
    using wf n assms(1) by (auto intro: deliver_accepted [where digest = digest and k = k and x = x and m = m])
  then have step: "manager_step digest m (Delivered k x) m'" by (rule step_deliver)
  obtain i where "int i = int (digest k) mod mg_num_queues m" "mg_num_queues m' = mg_num_queues m"
    "mg_queues m' = (mg_queues m)[i := mg_queues m ! i @ [(k, x)]]"
    using step wf by (rule deliver_step_queues)
  moreover from this have "i \<noteq> j" using n by (auto simp: j_def split: if_splits)
  ultimately show ?case
    using traced_snoc [OF run step] n empty by (auto simp: replicate_append_same [symmetric])
qed

lemma filter_replicate_Delivered [simp]:
  "filter is_Delivered (replicate c (Delivered k x)) = replicate c (Delivered k x)"
  "filter is_Consumed (replicate c (Delivered k x)) = []"
  "discards (replicate c (Delivered k x)) = 0"
  by (simp_all add: discards_def sum_list_replicate)

text \<open>
  The limit on the number of messages does not bound it. With two queues or more, one group alone
  can have any number of messages waiting, whatever the limit: each delivery is accepted because
  another queue is empty.
\<close>

theorem limit_does_not_bound:
  assumes "2 \<le> num_queues"
  shows "\<exists>m. manager_run digest (new_manager num_queues limit readings texts)
      (replicate c (Delivered k x)) m \<and> total_current_messages m = c"
proof -
  obtain m where run: "manager_run digest (new_manager num_queues limit readings texts)
      (replicate c (Delivered k x)) m"
    using fill_one_queue [OF assms, where limit = limit and c = c and digest = digest and k = k and x = x
        and readings = readings and texts = texts] by blast
  then have "total_current_messages m = c"
    using run_accounts by (fastforce simp: accounts_def)
  then show ?thesis using run by blast
qed

section \<open>The windows\<close>

definition hour_is_minute :: "window_stats \<Rightarrow> bool" where
  "hour_is_minute w \<longleftrightarrow>
     ws_delivered_1hour w = ws_delivered_1min w \<and> ws_consumed_1hour w = ws_consumed_1min w"

text \<open>Counting the events of a minute drops the older ones, so the count of the hour finds no more.\<close>

lemma dropWhile_later:
  assumes "later \<le> first + 3500"
  shows "dropWhile (\<lambda>e. fsub later e > 3600) (dropWhile (\<lambda>e. fsub first e > 60) es) =
    dropWhile (\<lambda>e. fsub first e > 60) es"
proof (cases "dropWhile (\<lambda>e. fsub first e > 60) es")
  case (Cons e rest)
  then have "\<not> fsub first e > 60" by (metis hd_dropWhile list.discI list.sel(1))
  moreover have "fl 61 = 61" by (rule fl_numeral) simp
  ultimately have "first - e < 61" using fl_mono [of 61 "first - e"] by (force simp: fsub_def)
  then have "later - e \<le> 3600" using assms by linarith
  moreover have "fl 3600 = 3600" by (rule fl_numeral) simp
  ultimately have "fsub later e \<le> 3600" using fl_mono [of "later - e" 3600] by (simp add: fsub_def)
  then show ?thesis using Cons by simp
next
  case Nil
  show ?thesis unfolding Nil by simp
qed

lemma count_events_apply:
  "count_events_in_window deque put age m =
     (let kept = dropWhile (\<lambda>e. fsub (mg_time m (mg_times_read m)) e > age) (deque m)
      in (Inr (length kept), put kept (m\<lparr>mg_times_read := Suc (mg_times_read m)\<rparr>)))"
  by (simp add: count_events_in_window_def clean_old_events_def time_now_def proc_simps Let_def)

lemmas count_defs = count_delivered_def count_consumed_def count_all_delivered_def count_all_consumed_def

lemma update_queue_window_hour:
  assumes "update_queue_window i u m = (r, m')"
    and "mg_time m (mg_times_read m + 2) \<le> mg_time m (mg_times_read m) + 3500"
    and "mg_time m (mg_times_read m + 3) \<le> mg_time m (mg_times_read m + 1) + 3500"
    and "i < length (mg_queue_stats m)" "i < length (mg_delivery_events m)" "i < length (mg_consume_events m)"
  shows "r = Inr () \<and> mg_times_read m' = mg_times_read m + 4 \<and> mg_time m' = mg_time m \<and>
    hour_is_minute (qs_window (mg_queue_stats m' ! i)) \<and>
    (\<forall>j. j \<noteq> i \<longrightarrow> mg_queue_stats m' ! j = mg_queue_stats m ! j) \<and>
    length (mg_queue_stats m') = length (mg_queue_stats m) \<and>
    length (mg_delivery_events m') = length (mg_delivery_events m) \<and>
    length (mg_consume_events m') = length (mg_consume_events m)"
  using assms
  by (auto simp: update_queue_window_def window_counts_def count_defs and_then_apply count_events_apply
      ret_apply writing_apply Let_def hour_is_minute_def dropWhile_later eval_nat_numeral)

text \<open>The loop over the queues reads the clock four times for each.\<close>

lemma windows_loop:
  assumes clock: "\<And>j. mg_times_read m \<le> j \<Longrightarrow> j < mg_times_read m + 4 * n \<Longrightarrow>
      mg_time m (j + 2) \<le> mg_time m j + 3500"
    and "n \<le> length (mg_queue_stats m)" "n \<le> length (mg_delivery_events m)" "n \<le> length (mg_consume_events m)"
    and "fold_proc update_queue_window [0..<n] () m = (r, m')"
  shows "r = Inr () \<and> mg_times_read m' = mg_times_read m + 4 * n \<and> mg_time m' = mg_time m \<and>
    (\<forall>i < n. hour_is_minute (qs_window (mg_queue_stats m' ! i))) \<and>
    length (mg_queue_stats m') = length (mg_queue_stats m) \<and>
    length (mg_delivery_events m') = length (mg_delivery_events m) \<and>
    length (mg_consume_events m') = length (mg_consume_events m)"
  using assms
proof (induction n arbitrary: r m')
  case 0
  then show ?case by (simp add: ret_apply)
next
  case (Suc n)
  obtain r1 m1 where first: "fold_proc update_queue_window [0..<n] () m = (r1, m1)" by fastforce
  have IH: "r1 = Inr () \<and> mg_times_read m1 = mg_times_read m + 4 * n \<and> mg_time m1 = mg_time m \<and>
    (\<forall>i < n. hour_is_minute (qs_window (mg_queue_stats m1 ! i))) \<and>
    length (mg_queue_stats m1) = length (mg_queue_stats m) \<and>
    length (mg_delivery_events m1) = length (mg_delivery_events m) \<and>
    length (mg_consume_events m1) = length (mg_consume_events m)"
    using Suc.prems(2-4) by (intro Suc.IH [OF _ _ _ _ first] Suc.prems(1)) auto
  have last: "update_queue_window n () m1 = (r, m')"
    using Suc.prems(5) first IH by (simp add: fold_proc_append and_then_apply ret_def split: prod.splits sum.splits)
  have step: "r = Inr () \<and> mg_times_read m' = mg_times_read m1 + 4 \<and> mg_time m' = mg_time m1 \<and>
    hour_is_minute (qs_window (mg_queue_stats m' ! n)) \<and>
    (\<forall>j. j \<noteq> n \<longrightarrow> mg_queue_stats m' ! j = mg_queue_stats m1 ! j) \<and>
    length (mg_queue_stats m') = length (mg_queue_stats m1) \<and>
    length (mg_delivery_events m') = length (mg_delivery_events m1) \<and>
    length (mg_consume_events m') = length (mg_consume_events m1)"
    using last IH Suc.prems(1) [of "mg_times_read m1"] Suc.prems(1) [of "mg_times_read m1 + 1"] Suc.prems(2-4)
    by (intro update_queue_window_hour) (simp_all add: numeral_3_eq_3)
  show ?case
  proof (intro conjI allI impI)
    show "hour_is_minute (qs_window (mg_queue_stats m' ! i))" if "i < Suc n" for i
      using that step IH by (cases "i = n") auto
  qed (use step IH in auto)
qed

lemma update_time_window_stats_hour:
  assumes "update_time_window_stats m = (r, m')" and wf: "well_formed m"
    and clock: "\<And>j. mg_times_read m \<le> j \<Longrightarrow> j < mg_times_read m + 4 * nat (mg_num_queues m) \<Longrightarrow>
      mg_time m (j + 2) \<le> mg_time m j + 3500"
  shows "\<forall>s \<in> set (mg_queue_stats m'). hour_is_minute (qs_window s)"
proof -
  obtain r1 m1 where loop: "fold_proc update_queue_window [0..<nat (mg_num_queues m)] () m = (r1, m1)"
    by fastforce
  have m1: "r1 = Inr () \<and> mg_times_read m1 = mg_times_read m + 4 * nat (mg_num_queues m) \<and>
    mg_time m1 = mg_time m \<and>
    (\<forall>i < nat (mg_num_queues m). hour_is_minute (qs_window (mg_queue_stats m1 ! i))) \<and>
    length (mg_queue_stats m1) = length (mg_queue_stats m) \<and>
    length (mg_delivery_events m1) = length (mg_delivery_events m) \<and>
    length (mg_consume_events m1) = length (mg_consume_events m)"
    using wf by (intro windows_loop [OF _ _ _ _ loop] clock) (simp_all add: well_formed_def)
  then have "mg_queue_stats m' = mg_queue_stats m1"
    using assms(1) loop
    by (auto simp: update_time_window_stats_def window_counts_def count_defs count_events_apply
        and_then_apply ret_apply writing_apply Let_def)
  then show ?thesis using m1 wf by (auto simp: well_formed_def in_set_conv_nth)
qed

lemma get_queue_info_stats:
  assumes "get_queue_info q m = (r, m')"
  obtains r1 where "update_time_window_stats (update_sizes m) = (r1, m')"
proof -
  obtain r1 m1 where u: "update_time_window_stats (update_sizes m) = (r1, m1)" by fastforce
  then have "m' = m1"
    using assms by (cases r1) (auto simp: get_queue_info_def proc_simps reading_def split: option.splits sum.splits)
  then show ?thesis using that u by blast
qed

text \<open>
  The statistics of the last hour show the last minute. As long as the readings of the clock
  within the call are less than an hour apart, the information on every queue has the same counts
  for the hour as for the minute.
\<close>

theorem hour_statistics_show_a_minute:
  assumes "get_queue_info queue_id m = (r, m')" and "well_formed m"
    and "\<And>j. mg_times_read m \<le> j \<Longrightarrow> j < mg_times_read m + 4 * nat (mg_num_queues m) \<Longrightarrow>
      mg_time m (j + 2) \<le> mg_time m j + 3500"
  shows "list_all (\<lambda>s. ws_delivered_1hour (qs_window s) = ws_delivered_1min (qs_window s) \<and>
    ws_consumed_1hour (qs_window s) = ws_consumed_1min (qs_window s)) (mg_queue_stats m')"
proof -
  obtain r1 where u: "update_time_window_stats (update_sizes m) = (r1, m')"
    using assms(1) by (rule get_queue_info_stats)
  have "well_formed (update_sizes m)" using update_sizes_idle idle_well_formed assms(2) by blast
  then have "\<forall>s \<in> set (mg_queue_stats m'). hour_is_minute (qs_window s)"
    using assms(3) by (intro update_time_window_stats_hour [OF u]) (simp_all add: update_sizes_def)
  then show ?thesis by (simp add: list_all_iff hour_is_minute_def)
qed

section \<open>Examples\<close>

text \<open>
  Two queues; the group \<open>a\<close> goes to the first, \<open>b\<close> to the second. The clock stands at 0 when the
  manager is made and when the first message is delivered, and at 1000 afterwards.
\<close>

definition ex_digest :: "string \<Rightarrow> nat" where
  "ex_digest k = (if k = ''a'' then 0 else 1)"

definition ex_clock :: "nat \<Rightarrow> rat" where
  "ex_clock n = (if n < 2 then 0 else 1000)"

definition ex_manager :: "nat manager" where
  "ex_manager = new_manager 2 1 ex_clock (\<lambda>_. [])"

definition ex_one :: "nat manager" where
  "ex_one = snd (deliver_message ex_digest ''a'' 1 ex_manager)"

definition ex_two :: "nat manager" where
  "ex_two = snd (deliver_message ex_digest ''a'' 2 ex_one)"

definition ex_three :: "nat manager" where
  "ex_three = snd (take_message 0 ex_two)"

lemma ex_one: "deliver_message ex_digest ''a'' 1 ex_manager = (Inr True, ex_one)"
  unfolding ex_one_def
  by (simp add: prod_eq_iff) code_simp

lemma ex_two: "deliver_message ex_digest ''a'' 2 ex_one = (Inr True, ex_two)"
  unfolding ex_two_def
  by (simp add: prod_eq_iff) code_simp

lemma ex_three: "take_message 0 ex_two = (Inr (Some (''a'', 1)), ex_three)"
  unfolding ex_three_def
  by (simp add: prod_eq_iff) code_simp

lemma ex_run:
  "manager_run ex_digest (new_manager 2 1 ex_clock (\<lambda>_. []))
     [Delivered ''a'' 1, Delivered ''a'' 2, Consumed ''a'' 1] ex_three"
proof -
  have "0 < length (mg_queues ex_two)" by code_simp
  then have "manager_run ex_digest ex_two [Consumed ''a'' 1] ex_three"
    using ex_three by (intro traced_one step_take)
  then have "manager_run ex_digest ex_one [Delivered ''a'' 2, Consumed ''a'' 1] ex_three"
    by (rule traced_Cons [where step = "manager_step ex_digest", OF step_deliver [OF ex_two]])
  then show ?thesis
    using traced_Cons [where step = "manager_step ex_digest", OF step_deliver [OF ex_one]] by (simp add: ex_manager_def)
qed

theorem group_messages_in_order_witness:
  "delivered_of ''a'' (since_discard [Delivered ''a'' 1, Delivered ''a'' 2, Consumed ''a'' 1]) = [1, 2 :: nat] \<and>
   consumed_of ''a'' (since_discard [Delivered ''a'' 1, Delivered ''a'' 2, Consumed ''a'' 1]) = [1 :: nat] \<and>
   waiting_of ''a'' ex_three = [2]"
  using group_messages_in_order [OF ex_run, where k = "''a''"]
  by (simp add: delivered_of_def consumed_of_def since_discard_def delivered_by_def consumed_by_def)

theorem queue_totals_account_witness:
  "ms_total_delivered (mg_manager_stats ex_three) = 2 \<and> ms_total_consumed (mg_manager_stats ex_three) = 1 \<and>
   total_current_messages ex_three = 1"
  using queue_totals_account [OF ex_run] by (simp add: discards_def)

theorem limit_does_not_bound_witness:
  "\<exists>m. manager_run ex_digest (new_manager 2 1 ex_clock (\<lambda>_. [])) (replicate 3 (Delivered ''a'' (7 :: nat))) m \<and>
     total_current_messages m = 3"
  by (rule limit_does_not_bound) simp

text \<open>Two messages were delivered within the hour; the statistics of the hour count one.\<close>

definition ex_info :: "nat manager" where
  "ex_info = snd (get_queue_info None ex_two)"

lemma ex_info: "get_queue_info None ex_two = (fst (get_queue_info None ex_two), ex_info)"
  by (simp add: ex_info_def)

lemma ex_two_clock: "2 \<le> mg_times_read ex_two" "mg_time ex_two = ex_clock" "well_formed ex_two"
proof -
  show "2 \<le> mg_times_read ex_two" by code_simp
  show "well_formed ex_two" unfolding well_formed_def by code_simp
  have "mg_time ex_one = ex_clock"
    by (simp add: ex_one_def ex_manager_def new_manager_def deliver_message_def proc_simps hash_route_def
        queue_position_def can_deliver_message_def iso_now_def time_now_def put_message_def
        record_delivery_def Let_def reject_def split: sum.split)
  then show "mg_time ex_two = ex_clock"
    by (simp add: ex_two_def deliver_message_def proc_simps iso_now_def time_now_def put_message_def
        record_delivery_def Let_def reject_def split: sum.split)
qed

lemma ex_two_fields:
  "mg_num_queues ex_two = 2" "mg_times_read ex_two = 3"
  "mg_delivery_events ex_two = [[0, 1000], []]" "mg_consume_events ex_two = [[], []]"
  "map qs_total_delivered (mg_queue_stats ex_two) = [2, 0]" "length (mg_queues ex_two) = 2"
  by code_simp+

lemma ex_ages: "fsub 1000 0 = 1000" "fsub 1000 1000 = 0"
  by (simp_all add: fsub_def fl_numeral)

lemma ex_two_stats:
  obtains s t where "mg_queue_stats ex_two = [s, t]" "qs_total_delivered s = 2" "qs_total_delivered t = 0"
  using ex_two_fields(5) by (auto simp: map_eq_Cons_conv)

lemma ex_two_queues: obtains q r where "mg_queues ex_two = [q, r]"
  using ex_two_fields(6) by (auto simp: numeral_2_eq_2 length_Suc_conv)

lemma ex_info_counts:
  "map qs_total_delivered (mg_queue_stats ex_info) = [2, 0] \<and>
   map (\<lambda>s. ws_delivered_1min (qs_window s)) (mg_queue_stats ex_info) = [1, 0]"
proof -
  obtain s t where st: "mg_queue_stats ex_two = [s, t]" "qs_total_delivered s = 2" "qs_total_delivered t = 0"
    by (rule ex_two_stats)
  obtain q r where qr: "mg_queues ex_two = [q, r]" by (rule ex_two_queues)
  have two: "[0..<2] = [0, Suc 0]" by (simp add: upt_rec)
  show ?thesis
    unfolding ex_info_def get_queue_info_def update_time_window_stats_def update_queue_window_def
      window_counts_def count_defs
    by (simp add: proc_simps count_events_apply update_sizes_def ex_two_fields(1-4) ex_two_clock(2)
        ex_clock_def ex_ages st qr two Let_def)
qed

theorem hour_statistics_show_a_minute_witness:
  "map (\<lambda>s. qs_total_delivered s) (mg_queue_stats ex_info) = [2, 0] \<and>
   map (\<lambda>s. ws_delivered_1min (qs_window s)) (mg_queue_stats ex_info) = [1, 0] \<and>
   map (\<lambda>s. ws_delivered_1hour (qs_window s)) (mg_queue_stats ex_info) = [1, 0]"
proof -
  have "list_all (\<lambda>s. ws_delivered_1hour (qs_window s) = ws_delivered_1min (qs_window s) \<and>
    ws_consumed_1hour (qs_window s) = ws_consumed_1min (qs_window s)) (mg_queue_stats ex_info)"
    by (rule hour_statistics_show_a_minute [OF ex_info ex_two_clock(3)])
      (use ex_two_clock(1) in \<open>simp add: ex_two_clock(2) ex_clock_def\<close>)
  then have "map (\<lambda>s. ws_delivered_1hour (qs_window s)) (mg_queue_stats ex_info) =
    map (\<lambda>s. ws_delivered_1min (qs_window s)) (mg_queue_stats ex_info)"
    by (simp add: list_all_iff)
  then show ?thesis using ex_info_counts by simp
qed

end
