(* ===== verification/StoreCandidates.thy ===== *)
theory StoreCandidates
  imports StoreRoutes StoreEvents StoreGraph
begin

text \<open>
  The tables of \<^verbatim>\<open>ResearchApiStateStore\<close> that hold what extraction found and what was
  confirmed: candidates, relations between candidates, claims, confirmed objects, references to
  evidence and conflicts between claims; and \<^verbatim>\<open>run_in_transaction\<close>.

  The memory link that a claim is shown with, and the trace of the language model that a candidate is
  shown with, are left out: no operation here reads them.
\<close>

section \<open>Transactions\<close>

text \<open>
  The statements of a transaction are undone together when it raises. The identifiers and times it
  drew stay drawn, and so do the local variables of the caller that it set, which are the second
  component of the state.
\<close>

type_synonym ('n, 'a) noted_proc = "(store \<times> 'n, api_error, 'a) proc"

definition rolled_back :: "store \<Rightarrow> store \<Rightarrow> store" where
  "rolled_back s s' = s\<lparr>drawn := drawn s', ticks := ticks s'\<rparr>"

definition run_in_transaction :: "('n, 'a) noted_proc \<Rightarrow> ('n, 'a) noted_proc" where
  "run_in_transaction m st =
     (case m st of
        (Inr a, st') \<Rightarrow> (Inr a, st')
      | (Inl e, st') \<Rightarrow> (Inl e, (rolled_back (fst st) (fst st'), snd st')))"

definition on_store :: "'a store_proc \<Rightarrow> ('n, 'a) noted_proc" where
  "on_store m st = (case m (fst st) of (r, s) \<Rightarrow> (r, (s, snd st)))"

definition set_note :: "'n \<Rightarrow> ('n, unit) noted_proc" where
  "set_note n = writing (\<lambda>(s, _). (s, n))"

section \<open>Candidates\<close>

definition get_candidate :: "string \<Rightarrow> candidate_row option store_proc" where
  "get_candidate candidate_id =
     reading (\<lambda>s. select_key cn_candidate_id candidate_id (candidate_rows (research s)))"

definition update_candidate_status :: "string \<Rightarrow> string \<Rightarrow> string option \<Rightarrow> unit store_proc" where
  "update_candidate_status candidate_id status reject_reason =
     writing (put_candidates (update_where (\<lambda>r. cn_candidate_id r = candidate_id)
       (\<lambda>r. r\<lparr>cn_status := status, cn_reject_reason := reject_reason\<rparr>)))"

definition list_candidates ::
  "string \<Rightarrow> string option \<Rightarrow> string option \<Rightarrow> string option \<Rightarrow> candidate_row list store_proc"
where
  "list_candidates workspace_id source_id candidate_type status =
     reading (\<lambda>s. filter (\<lambda>r. cn_workspace_id r = workspace_id \<and>
       (source_id = None \<or> source_id = Some (cn_source_id r)) \<and>
       (candidate_type = None \<or> candidate_type = Some (cn_candidate_type r)) \<and>
       (status = None \<or> status = Some (cn_status r))) (candidate_rows (research s)))"

section \<open>Relations between candidates\<close>

definition get_relation_candidate :: "string \<Rightarrow> relation_row option store_proc" where
  "get_relation_candidate relation_candidate_id =
     reading (\<lambda>s. select_key rl_relation_candidate_id relation_candidate_id (relation_rows (research s)))"

text \<open>The arguments of an insertion are the columns without the id, the batch and the time.\<close>

definition add_relation_candidate ::
  "string \<Rightarrow> string \<Rightarrow> string \<Rightarrow> string \<Rightarrow> relation_row \<Rightarrow> relation_row list \<Rightarrow> relation_row list store_proc"
where
  "add_relation_candidate candidate_batch_id workspace_id source_id job_id relation created =
     and_then (gen_id ''relcand'') (\<lambda>i.
     and_then now (\<lambda>t.
     and_then
       (insert_row rl_relation_candidate_id (\<lambda>s. relation_rows (research s)) put_relations
         (relation\<lparr>rl_relation_candidate_id := i, rl_workspace_id := workspace_id,
            rl_source_id := source_id, rl_candidate_batch_id := Some candidate_batch_id,
            rl_extraction_job_id := Some job_id,
            rl_relation_status := (if rl_relation_status relation = [] then ''unresolved''
                                   else rl_relation_status relation),
            rl_created_at := t\<rparr>)) (\<lambda>_.
     and_then (get_relation_candidate i) (\<lambda>loaded.
     ret (case loaded of None \<Rightarrow> created | Some r \<Rightarrow> created @ [r])))))"

definition add_relation_candidates_to_batch ::
  "string \<Rightarrow> string \<Rightarrow> string \<Rightarrow> string \<Rightarrow> relation_row list \<Rightarrow> relation_row list store_proc"
where
  "add_relation_candidates_to_batch candidate_batch_id workspace_id source_id job_id relations =
     fold_proc (add_relation_candidate candidate_batch_id workspace_id source_id job_id) relations []"

definition list_relation_candidates ::
  "string \<Rightarrow> string option \<Rightarrow> string option \<Rightarrow> string option \<Rightarrow> relation_row list store_proc"
where
  "list_relation_candidates workspace_id source_id candidate_batch_id relation_status =
     reading (\<lambda>s.
       concat (map (\<lambda>r. case select_key rl_relation_candidate_id (rl_relation_candidate_id r)
             (relation_rows (research s)) of None \<Rightarrow> [] | Some q \<Rightarrow> [q])
         (sort_key (\<lambda>r. (rl_created_at r, rl_relation_candidate_id r))
           (filter (\<lambda>r. rl_workspace_id r = workspace_id \<and>
              (source_id = None \<or> source_id = Some (rl_source_id r)) \<and>
              (candidate_batch_id = None \<or> candidate_batch_id = rl_candidate_batch_id r) \<and>
              (relation_status = None \<or> relation_status = Some (rl_relation_status r)))
            (relation_rows (research s))))))"

section \<open>Claims\<close>

definition get_claim :: "string \<Rightarrow> claim_row option store_proc" where
  "get_claim claim_id = reading (\<lambda>s. select_key cm_claim_id claim_id (claim_rows s))"

text \<open>The candidate of a claim is unique.\<close>

definition create_claim :: "claim_row \<Rightarrow> claim_row store_proc" where
  "create_claim args =
     and_then (gen_id ''claim'') (\<lambda>claim_id.
     and_then now (\<lambda>t.
     and_then (\<lambda>s. check (IntegrityError (cm_candidate_id args))
         (cm_candidate_id args \<notin> cm_candidate_id ` set (claim_rows s)) s) (\<lambda>_.
     and_then
       (insert_row cm_claim_id claim_rows claim_rows_update
         (args\<lparr>cm_claim_id := claim_id, cm_created_at := t, cm_updated_at := t\<rparr>)) (\<lambda>_.
     and_then (get_claim claim_id) (require NoneSubscript)))))"

definition claim_args :: "candidate_row \<Rightarrow> string \<Rightarrow> claim_row" where
  "claim_args c normalized_text =
     \<lparr>cm_claim_id = [], cm_workspace_id = cn_workspace_id c, cm_source_id = cn_source_id c,
      cm_candidate_id = cn_candidate_id c, cm_claim_type = cn_candidate_type c,
      cm_semantic_type = cn_semantic_type c, cm_text = cn_text c,
      cm_normalized_text = normalized_text, cm_quote = cn_quote c,
      cm_source_span = cn_source_span c, cm_trace_refs = cn_trace_refs c, cm_status = ''confirmed'',
      cm_created_at = 0, cm_updated_at = 0\<rparr>"

definition create_claim_from_candidate :: "candidate_row \<Rightarrow> string \<Rightarrow> claim_row store_proc" where
  "create_claim_from_candidate c normalized_text = create_claim (claim_args c normalized_text)"

definition get_claim_by_candidate_id :: "string \<Rightarrow> string \<Rightarrow> claim_row option store_proc" where
  "get_claim_by_candidate_id workspace_id candidate_id =
     and_then
       (reading (\<lambda>s. find (\<lambda>r. cm_workspace_id r = workspace_id \<and> cm_candidate_id r = candidate_id) (claim_rows s)))
       (\<lambda>row. case row of None \<Rightarrow> ret None | Some r \<Rightarrow> get_claim (cm_claim_id r))"

section \<open>Confirmed objects\<close>

text \<open>The tables are searched in their order; the first row of the first table that has one is found.\<close>

definition find_confirmed_object_by_normalized_text ::
  "string \<Rightarrow> string \<Rightarrow> (string \<times> string) option store_proc"
where
  "find_confirmed_object_by_normalized_text workspace_id normalized_text =
     reading (\<lambda>s.
       let hits = concat (map (\<lambda>ty. filter (\<lambda>r. ob_object_type r = ty \<and> ob_workspace_id r = workspace_id \<and>
               ob_normalized_text r = normalized_text) (object_rows s)) object_tables)
       in case hits of [] \<Rightarrow> None | r # _ \<Rightarrow> Some (ob_object_type r, ob_object_id r))"

definition object_args :: "candidate_row \<Rightarrow> string \<Rightarrow> string \<Rightarrow> object_row" where
  "object_args c normalized_text request_id =
     \<lparr>ob_object_type = cn_candidate_type c, ob_object_id = [], ob_candidate_id = cn_candidate_id c,
      ob_workspace_id = cn_workspace_id c, ob_source_id = cn_source_id c, ob_text = cn_text c,
      ob_normalized_text = normalized_text, ob_source_span = cn_source_span c,
      ob_semantic_type = cn_semantic_type c, ob_quote = cn_quote c, ob_trace_refs = cn_trace_refs c,
      ob_candidate_batch_id = cn_candidate_batch_id c,
      ob_extraction_job_id = cn_extraction_job_id c, ob_created_at = 0,
      ob_created_request_id = Some request_id\<rparr>"

text \<open>In the table of its type the id and the candidate of an object are unique.\<close>

definition insert_object :: "object_row \<Rightarrow> unit store_proc" where
  "insert_object r s =
     (if list_ex (\<lambda>q. ob_object_type q = ob_object_type r \<and>
           (ob_object_id q = ob_object_id r \<or> ob_candidate_id q = ob_candidate_id r)) (object_rows s)
      then (Inl (IntegrityError (ob_object_id r)), s)
      else (Inr (), object_rows_update (\<lambda>rs. rs @ [r]) s))"

definition create_confirmed_object_from_candidate ::
  "candidate_row \<Rightarrow> string \<Rightarrow> string \<Rightarrow> (string \<times> string) store_proc"
where
  "create_confirmed_object_from_candidate c normalized_text request_id =
     and_then
       (check (ConversionError (ValueError (''unsupported candidate_type: '' @ cn_candidate_type c)))
          (cn_candidate_type c \<in> set object_tables)) (\<lambda>_.
     and_then (gen_id (take 3 (cn_candidate_type c))) (\<lambda>object_id.
     and_then now (\<lambda>t.
     and_then
       (insert_object
          ((object_args c normalized_text request_id)\<lparr>ob_object_id := object_id, ob_created_at := t\<rparr>)) (\<lambda>_.
     ret (cn_candidate_type c, object_id)))))"

section \<open>References to evidence\<close>

definition get_source :: "string \<Rightarrow> source_row option store_proc" where
  "get_source source_id = reading (\<lambda>s. select_key so_source_id source_id (source_rows (research s)))"

definition get_evidence_ref :: "string \<Rightarrow> evidence_ref_row option store_proc" where
  "get_evidence_ref ref_id = reading (\<lambda>s. select_key er_ref_id ref_id (evidence_ref_rows (research s)))"

definition create_evidence_ref :: "evidence_ref_row \<Rightarrow> evidence_ref_row store_proc" where
  "create_evidence_ref args =
     and_then (gen_id ''eref'') (\<lambda>ref_id.
     and_then now (\<lambda>t.
     and_then
       (insert_row er_ref_id (\<lambda>s. evidence_ref_rows (research s)) put_evidence_refs
         (args\<lparr>er_ref_id := ref_id, er_created_at := t\<rparr>)) (\<lambda>_.
     and_then (get_evidence_ref ref_id) (require NoneSubscript))))"

section \<open>Conflicts between claims\<close>

definition get_claim_conflict :: "string \<Rightarrow> conflict_row option store_proc" where
  "get_claim_conflict conflict_id =
     reading (\<lambda>s. select_key cf_conflict_id conflict_id (conflict_rows (research s)))"

definition create_claim_conflict :: "conflict_row \<Rightarrow> conflict_row store_proc" where
  "create_claim_conflict args =
     and_then (gen_id ''claimconf'') (\<lambda>conflict_id.
     and_then now (\<lambda>t.
     and_then
       (insert_row cf_conflict_id (\<lambda>s. conflict_rows (research s)) put_conflicts
         (args\<lparr>cf_conflict_id := conflict_id, cf_decision_note := None, cf_resolved_request_id := None,
               cf_created_at := t, cf_updated_at := t\<rparr>)) (\<lambda>_.
     and_then (get_claim_conflict conflict_id) (require NoneSubscript))))"

text \<open>The newest conflict comes first; rows of the same time are ordered by id, downwards.\<close>

definition list_claim_conflicts :: "string \<Rightarrow> string option \<Rightarrow> conflict_row list store_proc" where
  "list_claim_conflicts workspace_id status =
     reading (\<lambda>s. rev (sort_key (\<lambda>r. (cf_created_at r, cf_conflict_id r))
       (filter (\<lambda>r. cf_workspace_id r = workspace_id \<and> (status = None \<or> status = Some (cf_status r)))
         (conflict_rows (research s)))))"

definition update_claim_conflict_status ::
  "string \<Rightarrow> string \<Rightarrow> string \<Rightarrow> string option \<Rightarrow> string option \<Rightarrow> conflict_row option store_proc"
where
  "update_claim_conflict_status conflict_id workspace_id status decision_note resolved_request_id =
     and_then (get_claim_conflict conflict_id) (\<lambda>current.
       if \<not> (case current of None \<Rightarrow> False | Some c \<Rightarrow> cf_workspace_id c = workspace_id) then ret None
       else
         and_then now (\<lambda>t.
         and_then
           (writing (put_conflicts (update_where
             (\<lambda>r. cf_conflict_id r = conflict_id \<and> cf_workspace_id r = workspace_id)
             (\<lambda>r. r\<lparr>cf_status := status, cf_decision_note := decision_note,
                    cf_resolved_request_id := resolved_request_id, cf_updated_at := t\<rparr>)))) (\<lambda>_.
         get_claim_conflict conflict_id)))"

end
