(* ===== verification/ClaimConflicts.thy ===== *)
theory ClaimConflicts
  imports StoreCandidates PyFloat
begin

text \<open>
  \<^verbatim>\<open>services/claim_conflict_service.py\<close>: which claims look contradictory, and the conflicts
  that are recorded for a new claim. The regular expressions of the service are sequences of words
  with blanks in between. The Chinese markers of negation cannot occur in the strings of the model,
  whose characters are below 256.
\<close>

section \<open>Words\<close>

text \<open>The code points below 256 that \<^verbatim>\<open>\w\<close> matches, and those of \<^verbatim>\<open>str.isdigit\<close>.\<close>

definition is_word :: "char \<Rightarrow> bool" where
  "is_word c =
     (let n = code_point c
      in 48 \<le> n \<and> n \<le> 57 \<or> 65 \<le> n \<and> n \<le> 90 \<or> n = 95 \<or> 97 \<le> n \<and> n \<le> 122 \<or>
         n \<in> set [170, 178, 179, 181, 185, 186, 188, 189, 190] \<or>
         192 \<le> n \<and> n \<noteq> 215 \<and> n \<noteq> 247)"

definition is_digit :: "char \<Rightarrow> bool" where
  "is_digit c = (let n = code_point c in 48 \<le> n \<and> n \<le> 57 \<or> n \<in> set [178, 179, 185])"

text \<open>
  \<open>match_words ws s\<close>: what is left of \<open>s\<close> after a match of \<^verbatim>\<open>w1\s+w2...\b\<close> at its start;
  \<open>match_length\<close> counts the characters of the match. \<open>after_word\<close> says whether the character
  before is one of a word, in which case \<^verbatim>\<open>\b\<close> fails in front of a word.
\<close>

fun match_words :: "string list \<Rightarrow> string \<Rightarrow> string option" where
  "match_words [] s = (case s of [] \<Rightarrow> Some [] | c # _ \<Rightarrow> if is_word c then None else Some s)"
| "match_words [w] s = (if is_prefix w s then match_words [] (drop (length w) s) else None)"
| "match_words (w # v # ws) s =
     (if is_prefix w s \<and> (case drop (length w) s of [] \<Rightarrow> False | c # _ \<Rightarrow> is_space c)
      then match_words (v # ws) (dropWhile is_space (drop (length w) s)) else None)"

definition match_length :: "string list \<Rightarrow> string \<Rightarrow> nat option" where
  "match_length ws s = map_option (\<lambda>r. length s - length r) (match_words ws s)"

fun search_words :: "string list \<Rightarrow> bool \<Rightarrow> string \<Rightarrow> bool" where
  "search_words ws after_word [] = False"
| "search_words ws after_word (c # cs) =
     (\<not> after_word \<and> match_length ws (c # cs) \<noteq> None \<or> search_words ws (is_word c) cs)"

text \<open>\<^verbatim>\<open>pattern.sub(" ", s)\<close>; the number counts the characters that a match still covers.\<close>

fun sub_from :: "string list \<Rightarrow> nat \<Rightarrow> bool \<Rightarrow> string \<Rightarrow> string" where
  "sub_from ws k after_word [] = []"
| "sub_from ws (Suc k) after_word (c # cs) = sub_from ws k (is_word c) cs"
| "sub_from ws 0 after_word (c # cs) =
     (case (if after_word then None else match_length ws (c # cs)) of
        Some n \<Rightarrow> '' '' @ sub_from ws (n - 1) (is_word c) cs
      | None \<Rightarrow> c # sub_from ws 0 (is_word c) cs)"

definition sub_words :: "string list \<Rightarrow> string \<Rightarrow> string" where
  "sub_words ws s = sub_from ws 0 False s"

fun word_runs :: "string \<Rightarrow> string \<Rightarrow> string list" where
  "word_runs acc [] = (if acc = [] then [] else [rev acc])"
| "word_runs acc (c # cs) =
     (if is_word c then word_runs (c # acc) cs
      else (if acc = [] then [] else [rev acc]) @ word_runs [] cs)"

section \<open>Polarity and tokens\<close>

definition negation_patterns :: "string list list" where
  "negation_patterns =
     [[''does'', ''not''], [''do'', ''not''], [''did'', ''not''], [''cannot''], [''can'', ''not''],
      [''fails'', ''to''], [''fail'', ''to''], [''not''], [''no'']]"

definition non_negating_not_patterns :: "string list list" where
  "non_negating_not_patterns = [[''not'', ''only''], [''not'', ''merely''], [''not'', ''just'']]"

definition stopwords :: "string list" where
  "stopwords =
     [''a'', ''an'', ''and'', ''are'', ''as'', ''at'', ''be'', ''been'', ''being'', ''but'', ''by'',
      ''did'', ''do'', ''does'', ''for'', ''from'', ''in'', ''into'', ''is'', ''it'', ''its'',
      ''just'', ''merely'', ''of'', ''on'', ''only'', ''or'', ''percent'', ''percentage'', ''than'',
      ''that'', ''the'', ''these'', ''this'', ''those'', ''to'', ''was'', ''were'', ''with'']"

definition canonical_tokens :: "(string \<times> string) list" where
  "canonical_tokens =
     [(''contradicted'', ''contradict''), (''contradicting'', ''contradict''),
      (''contradicts'', ''contradict''), (''decreased'', ''decrease''),
      (''decreases'', ''decrease''), (''decreasing'', ''decrease''), (''improved'', ''improve''),
      (''improves'', ''improve''), (''improving'', ''improve''), (''increased'', ''increase''),
      (''increases'', ''increase''), (''increasing'', ''increase''), (''supported'', ''support''),
      (''supporting'', ''support''), (''supports'', ''support''), (''worsened'', ''worsen''),
      (''worsening'', ''worsen''), (''worsens'', ''worsen'')]"

definition antonym_pairs :: "(string \<times> string) list" where
  "antonym_pairs =
     [(''contradict'', ''support''), (''decrease'', ''increase''), (''improve'', ''worsen'')]"

definition antonym_lookup :: "(string \<times> string) list" where
  "antonym_lookup = concat (map (\<lambda>(a, b). [(a, b), (b, a)]) antonym_pairs)"

definition stem_token :: "string \<Rightarrow> string" where
  "stem_token token =
     (case map_of canonical_tokens token of
        Some t \<Rightarrow> t
      | None \<Rightarrow>
          if length token > 3 \<and> last token = CHR ''s'' \<and> \<not> (token ! (length token - 2) = CHR ''s'')
          then butlast token else token)"

text \<open>A set of tokens is a list without repetitions.\<close>

definition polarity_tokens :: "string \<Rightarrow> bool \<times> string list" where
  "polarity_tokens txt =
     (let plain = fold sub_words non_negating_not_patterns (lower txt);
          negated = list_ex (\<lambda>ws. search_words ws False plain) negation_patterns;
          rest = fold sub_words negation_patterns plain;
          tokens = map stem_token
            (filter (\<lambda>t. length t > 1 \<and> \<not> list_all is_digit t) (word_runs [] rest))
      in (negated, remdups (filter (\<lambda>t. t \<noteq> [] \<and> t \<notin> set stopwords) tokens)))"

definition meet :: "string list \<Rightarrow> string list \<Rightarrow> string list" where
  "meet xs ys = filter (\<lambda>x. x \<in> set ys) xs"

definition has_antonym_pair :: "string list \<Rightarrow> string list \<Rightarrow> bool" where
  "has_antonym_pair new_tokens existing_tokens =
     list_ex (\<lambda>t. case map_of antonym_lookup t of
         None \<Rightarrow> False | Some u \<Rightarrow> u \<in> set existing_tokens) new_tokens"

text \<open>The division of two integers rounds the quotient to a double.\<close>

definition overlap :: "string list \<Rightarrow> string list \<Rightarrow> rat" where
  "overlap xs ys = fl (of_nat (length (meet xs ys)) / of_nat (max 1 (min (length xs) (length ys))))"

definition polarity_words :: "string list" where
  "polarity_words = map fst antonym_lookup @ map snd antonym_lookup"

definition overlap_without_antonyms :: "string list \<Rightarrow> string list \<Rightarrow> rat" where
  "overlap_without_antonyms new_tokens existing_tokens =
     overlap (filter (\<lambda>t. t \<notin> set polarity_words) new_tokens)
       (filter (\<lambda>t. t \<notin> set polarity_words) existing_tokens)"

definition looks_contradictory :: "string \<Rightarrow> string \<Rightarrow> bool" where
  "looks_contradictory new_text existing_text =
     (let (new_negated, new_tokens) = polarity_tokens new_text;
          (existing_negated, existing_tokens) = polarity_tokens existing_text
      in if new_tokens = [] \<or> existing_tokens = [] then False
         else if has_antonym_pair new_tokens existing_tokens then
           new_negated = existing_negated \<and>
           overlap_without_antonyms new_tokens existing_tokens \<ge> 1 / 2
         else if new_negated = existing_negated then False
         else overlap new_tokens existing_tokens \<ge> fl (6 / 10))"

section \<open>Detecting\<close>

definition has_unresolved_conflict :: "string \<Rightarrow> string \<Rightarrow> string \<Rightarrow> string \<Rightarrow> bool store_proc" where
  "has_unresolved_conflict workspace_id new_claim_id existing_claim_id conflict_type =
     and_then (list_claim_conflicts workspace_id (Some ''needs_review'')) (\<lambda>cs.
     ret (list_ex (\<lambda>c. cf_new_claim_id c = new_claim_id \<and> cf_existing_claim_id c = existing_claim_id \<and>
            cf_conflict_type c = conflict_type) cs))"

definition conflict_args :: "string \<Rightarrow> string \<Rightarrow> claim_row \<Rightarrow> claim_row \<Rightarrow> conflict_row" where
  "conflict_args workspace_id request_id new_claim existing =
     \<lparr>cf_conflict_id = [], cf_workspace_id = workspace_id, cf_new_claim_id = cm_claim_id new_claim,
      cf_existing_claim_id = cm_claim_id existing, cf_conflict_type = ''possible_contradiction'',
      cf_status = ''needs_review'',
      cf_evidence =
        [(''new_text'', VStr (cm_text new_claim)), (''existing_text'', VStr (cm_text existing)),
         (''detector'', VStr ''negation_overlap_v1'')],
      cf_source_ref =
        [(''new_claim_id'', VStr (cm_claim_id new_claim)),
         (''existing_claim_id'', VStr (cm_claim_id existing)),
         (''new_source_id'', VStr (cm_source_id new_claim)),
         (''existing_source_id'', VStr (cm_source_id existing)),
         (''new_source_span'', VDict (cm_source_span new_claim)),
         (''existing_source_span'', VDict (cm_source_span existing))],
      cf_decision_note = None, cf_created_request_id = Some request_id,
      cf_resolved_request_id = None, cf_created_at = 0, cf_updated_at = 0\<rparr>"

definition detect_step ::
  "string \<Rightarrow> string \<Rightarrow> claim_row \<Rightarrow> claim_row \<Rightarrow> string list \<Rightarrow> string list store_proc"
where
  "detect_step workspace_id request_id new_claim existing created =
     (if cm_claim_id existing = cm_claim_id new_claim \<or> cm_workspace_id existing \<noteq> workspace_id \<or>
         \<not> looks_contradictory (cm_normalized_text new_claim) (cm_normalized_text existing)
      then ret created
      else
        and_then
          (has_unresolved_conflict workspace_id (cm_claim_id new_claim) (cm_claim_id existing)
             ''possible_contradiction'') (\<lambda>known.
        if known then ret created
        else
          and_then (create_claim_conflict (conflict_args workspace_id request_id new_claim existing)) (\<lambda>c.
          ret (created @ [cf_conflict_id c]))))"

text \<open>\<^verbatim>\<open>candidate_claims\<close>, if given, replaces the look-up of \<^verbatim>\<open>candidate_claim_ids\<close>.\<close>

definition claims_by_id :: "string list \<Rightarrow> claim_row list store_proc" where
  "claims_by_id ids =
     fold_proc (\<lambda>i found. and_then (get_claim i) (\<lambda>c.
       ret (case c of None \<Rightarrow> found | Some r \<Rightarrow> found @ [r]))) ids []"

definition detect_for_claim ::
  "string \<Rightarrow> string \<Rightarrow> string list \<Rightarrow> string \<Rightarrow> claim_row list option \<Rightarrow> string list store_proc"
where
  "detect_for_claim workspace_id new_claim_id candidate_claim_ids request_id candidate_claims =
     and_then (get_claim new_claim_id) (\<lambda>found.
       case found of
         None \<Rightarrow> ret []
       | Some new_claim \<Rightarrow>
           if cm_workspace_id new_claim \<noteq> workspace_id then ret []
           else
             and_then (case candidate_claims of Some cs \<Rightarrow> ret cs | None \<Rightarrow> claims_by_id candidate_claim_ids)
               (\<lambda>existing_claims.
             fold_proc (detect_step workspace_id request_id new_claim) existing_claims []))"

end
