(* ===== verification/EvidenceRefs.thy ===== *)
theory EvidenceRefs
  imports StoreCandidates PyFloat
begin

text \<open>
  The part of \<^verbatim>\<open>services/scholarly_source_service.py\<close> that a confirmation calls: two
  references to the source of the confirmed object, one to the work and one to the fragment.
\<close>

section \<open>Metadata\<close>

definition optional_str :: "pyval \<Rightarrow> py_error + string option" where
  "optional_str raw =
     (if raw = VNone then Inr None
      else rbind (py_str raw) (\<lambda>s. Inr (if strip s = [] then None else Some (strip s))))"

definition normalize_authors :: "pyval \<Rightarrow> py_error + string list" where
  "normalize_authors raw =
     (case raw of
        VList xs \<Rightarrow> rbind (rmap py_str xs) (\<lambda>ss. Inr (filter (\<lambda>s. s \<noteq> []) (map strip ss)))
      | _ \<Rightarrow> Inr [])"

definition normalize_locator :: "payload \<Rightarrow> payload" where
  "normalize_locator raw =
     (let char_start = get_or raw ''char_start'' (get_or raw ''start'' VNone);
          char_end = get_or raw ''char_end'' (get_or raw ''end'' VNone)
      in [(''section'', get_or raw ''section'' VNone),
          (''paragraph_index'', get_or raw ''paragraph_index'' VNone),
          (''char_start'', char_start), (''char_end'', char_end),
          (''start'', char_start), (''end'', char_end),
          (''chunk_id'', get_or raw ''chunk_id'' VNone), (''text'', get_or raw ''text'' VNone)])"

section \<open>Authority\<close>

definition authority_tier_from_source :: "string \<Rightarrow> payload \<Rightarrow> string" where
  "authority_tier_from_source source_type metadata =
     (if source_type = ''paper'' \<and> py_bool (get_or metadata ''doi'' VNone) then ''tier_a_peer_reviewed''
      else if source_type = ''paper'' then ''tier_b_preprint_or_official_report''
      else if source_type \<in> set [''note'', ''failure_record''] then ''tier_c_internal_research_note''
      else ''tier_d_feedback_or_dialogue'')"

definition authority_base :: "(string \<times> rat) list" where
  "authority_base =
     [(''tier_a_peer_reviewed'', fl (95 / 100)), (''tier_b_preprint_or_official_report'', fl (80 / 100)),
      (''tier_c_internal_research_note'', fl (60 / 100)), (''tier_d_feedback_or_dialogue'', fl (45 / 100))]"

definition authority_score_from_source :: "string \<Rightarrow> payload \<Rightarrow> rat" where
  "authority_score_from_source source_type metadata =
     (let base = (case map_of authority_base (authority_tier_from_source source_type metadata) of
            Some b \<Rightarrow> b | None \<Rightarrow> fl (25 / 100));
          base = (if py_bool (get_or metadata ''venue'' VNone) then fadd base (fl (2 / 100)) else base);
          base = (if py_bool (get_or metadata ''authors'' VNone) then fadd base (fl (1 / 100)) else base)
      in min 1 (py_round 4 base))"

section \<open>The references\<close>

definition base_title :: "payload \<Rightarrow> string \<Rightarrow> py_error + string" where
  "base_title metadata title =
     (if py_bool (get_or metadata ''scholarly_title'' VNone)
      then py_str (get_or metadata ''scholarly_title'' VNone)
      else Inr (if title \<noteq> [] then title else ''scholarly source''))"

text \<open>What both drafts share, from the metadata; conversions that fail raise.\<close>

definition draft_of ::
  "candidate_row \<Rightarrow> string \<Rightarrow> string \<Rightarrow> source_row \<Rightarrow> py_error + evidence_ref_row"
where
  "draft_of c object_type object_id src =
     (let m = so_metadata src in
      rbind (base_title m (so_title src)) (\<lambda>title.
      rbind (optional_str (get_or m ''doi'' VNone)) (\<lambda>doi.
      rbind (optional_str (get_or m ''url'' VNone)) (\<lambda>url.
      rbind (optional_str (get_or m ''venue'' VNone)) (\<lambda>venue.
      rbind (if get_or m ''publication_year'' VNone = VNone then Inr None
             else rbind (py_int (get_or m ''publication_year'' VNone)) (\<lambda>y. Inr (Some y))) (\<lambda>year.
      rbind (normalize_authors (get_or m ''authors'' VNone)) (\<lambda>authors.
      Inr \<lparr>er_ref_id = [], er_workspace_id = cn_workspace_id c, er_source_id = cn_source_id c,
           er_object_type = object_type, er_object_id = object_id,
           er_ref_type = (if so_source_type src = ''paper'' then ''literature'' else ''note''),
           er_layer = ''work'', er_title = title, er_doi = doi, er_url = url, er_venue = venue,
           er_publication_year = year, er_authors = authors,
           er_excerpt = (if so_title src \<noteq> [] then so_title src else title),
           er_locator = [(''source_id'', VStr (cn_source_id c)), (''scope'', VStr ''work'')],
           er_authority_score = authority_score_from_source (so_source_type src) m,
           er_authority_tier = authority_tier_from_source (so_source_type src) m,
           er_metadata = [(''source_input_mode'', get_or m ''source_input_mode'' VNone),
                          (''external_provider'', get_or m ''external_provider'' VNone)],
           er_confirmed_at = None, er_created_at = 0\<rparr>)))))))"

definition fragment_of :: "candidate_row \<Rightarrow> string \<Rightarrow> evidence_ref_row \<Rightarrow> evidence_ref_row" where
  "fragment_of c request_id work = work
     \<lparr>er_layer := ''fragment'', er_excerpt := cn_text c, er_locator := normalize_locator (cn_source_span c),
      er_authority_score := min 1 (fadd (er_authority_score work) (fl (3 / 100))),
      er_metadata := [(''candidate_id'', VStr (cn_candidate_id c)),
                      (''candidate_batch_id'', opt_str (cn_candidate_batch_id c)),
                      (''request_id'', VStr request_id)]\<rparr>"

definition persist_draft :: "evidence_ref_row \<Rightarrow> evidence_ref_row list \<Rightarrow> evidence_ref_row list store_proc" where
  "persist_draft draft created =
     and_then now (\<lambda>t.
     and_then (create_evidence_ref (draft\<lparr>er_confirmed_at := Some t\<rparr>)) (\<lambda>r.
     ret (created @ [r])))"

text \<open>Without a source, the title is asked of \<^verbatim>\<open>None\<close>.\<close>

definition persist_evidence_refs_for_confirmation ::
  "candidate_row \<Rightarrow> string \<Rightarrow> string \<Rightarrow> string \<Rightarrow> evidence_ref_row list store_proc"
where
  "persist_evidence_refs_for_confirmation c object_type object_id request_id =
     and_then (get_source (cn_source_id c)) (\<lambda>found.
     and_then (require (ConversionError AttributeError) found) (\<lambda>src.
     and_then (lift_result (conversion_result (draft_of c object_type object_id src))) (\<lambda>work.
     fold_proc persist_draft [work, fragment_of c request_id work] [])))"

end
