(* ===== verification/GraphLabels.thy ===== *)
theory GraphLabels
  imports StoreCandidates
begin

text \<open>
  The labels of graph nodes, as \<^verbatim>\<open>graph_build_service.py\<close> and
  \<^verbatim>\<open>candidate_confirmation_service.py\<close> build them: the first sentence of the text, shortened.
  The Chinese punctuation marks of the code cannot occur in the strings of the model, and the
  Chinese label of an empty text is a parameter.
\<close>

definition collapse :: "string \<Rightarrow> string" where
  "collapse s = join_with '' '' (split_ws s)"

definition sentence_mark :: "char \<Rightarrow> bool" where
  "sentence_mark c = (c \<in> set ''!?;'')"

text \<open>\<^verbatim>\<open>re.split\<close> at a mark and the blanks after it.\<close>

fun split_sentences :: "bool \<Rightarrow> string \<Rightarrow> string \<Rightarrow> string list" where
  "split_sentences skip acc [] = [rev acc]"
| "split_sentences skip acc (c # cs) =
     (if skip \<and> is_space c then split_sentences True acc cs
      else if sentence_mark c then rev acc # split_sentences True [] cs
      else split_sentences False (c # acc) cs)"

definition shorten :: "nat \<Rightarrow> string \<Rightarrow> string" where
  "shorten max_len s = (if length s \<le> max_len then s else rstrip (take max_len s) @ ''...'')"

definition build_short_label :: "string \<Rightarrow> string \<Rightarrow> string" where
  "build_short_label unnamed raw_text =
     (let collapsed = collapse raw_text in
      if collapsed = [] then unnamed
      else
        let sentence_parts = split_sentences False [] collapsed;
            first_sentence = (case filter (\<lambda>p. p \<noteq> []) (map strip sentence_parts) of [] \<Rightarrow> [] | p # _ \<Rightarrow> p);
            preferred = (if first_sentence \<noteq> [] then first_sentence else collapsed);
            head = strip (hd sentence_parts)
        in shorten 36 (if head \<noteq> [] then head else preferred))"

lemma split_sentences_not_Nil: "split_sentences skip acc s \<noteq> []"
  by (induction s arbitrary: skip acc) auto

text \<open>A label has at most 39 characters.\<close>

lemma length_strip_le: "length (strip s) \<le> length s"
  using length_dropWhile_le [of is_space s] length_dropWhile_le [of is_space "rev (dropWhile is_space s)"]
  by (simp add: strip_def)

lemma length_rstrip_le: "length (rstrip s) \<le> length s"
  using length_dropWhile_le [of is_space "rev s"] by (simp add: rstrip_def)

lemma length_shorten: "length (shorten n s) \<le> n + 3"
  using length_rstrip_le [of "take n s"] by (auto simp: shorten_def)

lemma length_short_label: "length (build_short_label unnamed s) \<le> max 39 (length unnamed)"
  using length_shorten [of 36] by (auto simp: build_short_label_def Let_def le_max_iff_disj)

end
