(* ===== verification/CandidateConfirmation.thy ===== *)
theory CandidateConfirmation
  imports ClaimConflicts EvidenceRefs GraphLabels
begin

text \<open>
  \<^verbatim>\<open>services/candidate_confirmation_service.py\<close>: a pending candidate is confirmed, which makes it
  a claim, a formal object, a node of the graph and a new graph version in one transaction, or
  rejected.

  Parameters: the label of an empty text, the text of an exception, and the bridge to the memory of
  the other layers (\<^verbatim>\<open>ResearchMemoryBridge.sync_claim\<close>), which runs after the transaction and of
  which the service uses the status.
\<close>

record confirm_services =
  cs_unnamed_label :: string
  cs_error_text :: "api_error \<Rightarrow> string"
  cs_sync_claim :: "claim_row \<Rightarrow> string \<Rightarrow> string store_proc"

definition confirm_node_statuses :: "string list" where
  "confirm_node_statuses = [''active'', ''weakened'', ''conflicted'', ''failed'']"

definition normalize_candidate_text :: "string \<Rightarrow> string" where
  "normalize_candidate_text txt = lower (collapse txt)"

definition node_type_for_object_type :: "string \<Rightarrow> string" where
  "node_type_for_object_type object_type =
     (if object_type \<in> set object_tables then object_type else ''evidence'')"

definition edge_type_for_node_type :: "string \<Rightarrow> string" where
  "edge_type_for_node_type node_type =
     (if node_type = ''assumption'' then ''requires''
      else if node_type = ''conflict'' then ''conflicts''
      else if node_type = ''failure'' then ''weakens''
      else if node_type = ''validation'' then ''validates''
      else ''derives'')"

definition confirm_short_label :: "string \<Rightarrow> string \<Rightarrow> string" where
  "confirm_short_label unnamed raw_text = build_short_label unnamed raw_text"

section \<open>References to the source\<close>

definition build_source_refs :: "candidate_row \<Rightarrow> string \<Rightarrow> payload list" where
  "build_source_refs c claim_id =
     [[(''source_id'', VStr (cn_source_id c)), (''candidate_id'', VStr (cn_candidate_id c)),
       (''candidate_batch_id'', opt_str (cn_candidate_batch_id c)),
       (''artifact_id'', get_or (cn_trace_refs c) ''source_artifact_id'' VNone),
       (''anchor_id'', get_or (cn_trace_refs c) ''source_anchor_id'' VNone),
       (''claim_id'', VStr claim_id), (''source_span'', VDict (cn_source_span c)),
       (''quote'', opt_str (cn_quote c))]]"

text \<open>
  A record that is referred to: a candidate, or a confirmed object, whose listing has no batch.
  Without a source or a claim the reference is empty.
\<close>

record ref_record =
  rf_source_id :: string
  rf_candidate_id :: string
  rf_candidate_batch_id :: "string option"
  rf_trace_refs :: payload
  rf_source_span :: payload
  rf_quote :: "string option"

definition candidate_record :: "candidate_row \<Rightarrow> ref_record" where
  "candidate_record c =
     \<lparr>rf_source_id = cn_source_id c, rf_candidate_id = cn_candidate_id c,
      rf_candidate_batch_id = cn_candidate_batch_id c, rf_trace_refs = cn_trace_refs c,
      rf_source_span = cn_source_span c, rf_quote = cn_quote c\<rparr>"

definition object_record :: "object_view \<Rightarrow> ref_record" where
  "object_record r =
     \<lparr>rf_source_id = ob_source_id r, rf_candidate_id = ob_candidate_id r,
      rf_candidate_batch_id = None, rf_trace_refs = ob_trace_refs r,
      rf_source_span = ob_source_span r, rf_quote = ob_quote r\<rparr>"

definition confirm_source_ref :: "ref_record \<Rightarrow> string \<Rightarrow> payload" where
  "confirm_source_ref r claim_id =
     (let source_id = strip (rf_source_id r); resolved_claim_id = strip claim_id in
      if source_id = [] \<or> resolved_claim_id = [] then []
      else
        [(''source_id'', VStr source_id), (''candidate_id'', VStr (rf_candidate_id r)),
         (''candidate_batch_id'', opt_str (rf_candidate_batch_id r)),
         (''claim_id'', VStr resolved_claim_id),
         (''artifact_id'', get_or (rf_trace_refs r) ''source_artifact_id'' VNone),
         (''anchor_id'', get_or (rf_trace_refs r) ''source_anchor_id'' VNone),
         (''source_span'', VDict (rf_source_span r)), (''quote'', opt_str (rf_quote r))])"

definition confirm_edge_source_ref :: "object_view \<Rightarrow> object_view \<Rightarrow> string \<Rightarrow> string \<Rightarrow> payload" where
  "confirm_edge_source_ref source_object target_object relation_id relation_type =
     (let source_ref = confirm_source_ref (object_record target_object)
            (case ob_claim_id target_object of None \<Rightarrow> [] | Some i \<Rightarrow> i)
      in if source_ref = [] then []
         else source_ref @
           [(''source_claim_id'', opt_str (ob_claim_id source_object)),
            (''target_claim_id'', opt_str (ob_claim_id target_object))] @
           (if relation_id = [] then [] else [(''relation_candidate_id'', VStr relation_id)]) @
           (if relation_type = [] then [] else [(''relation_type'', VStr relation_type)]))"

definition build_short_tags :: "candidate_row \<Rightarrow> string list" where
  "build_short_tags c =
     (case cn_semantic_type c of
        None \<Rightarrow> [] | Some t \<Rightarrow> if strip t = [] then [] else [strip t])"

definition require_graph_traceability :: "candidate_row \<Rightarrow> claim_row \<Rightarrow> ('n, payload) noted_proc" where
  "require_graph_traceability c claim =
     (let source_ref = confirm_source_ref (candidate_record c) (cm_claim_id claim) in
      and_then
        (check (ServiceError 409 ''research.graph_projection_blocked''
             ''candidate confirmation cannot project node without claim/source traceability''
             [(''candidate_id'', VStr (cn_candidate_id c)), (''claim_id'', VStr (cm_claim_id claim)),
              (''source_id'', VStr (cn_source_id c))])
           (source_ref \<noteq> [])) (\<lambda>_.
        ret source_ref))"

section \<open>Active nodes and edges\<close>

definition list_active_nodes :: "string \<Rightarrow> node_row list store_proc" where
  "list_active_nodes workspace_id =
     and_then (list_graph_nodes workspace_id) (\<lambda>ns.
     ret (filter (\<lambda>n. nd_status n \<in> set confirm_node_statuses) ns))"

definition list_active_edges :: "string \<Rightarrow> edge_row list store_proc" where
  "list_active_edges workspace_id =
     and_then (list_graph_edges workspace_id) (\<lambda>es.
     ret (filter (\<lambda>e. eg_status e \<in> set confirm_node_statuses) es))"

definition resolve_active_node_by_object_ref ::
  "string \<Rightarrow> string \<Rightarrow> string \<Rightarrow> node_row option store_proc"
where
  "resolve_active_node_by_object_ref workspace_id object_ref_type object_ref_id =
     and_then (list_active_nodes workspace_id) (\<lambda>ns.
     ret (case filter (\<lambda>n. nd_object_ref_type n = object_ref_type \<and> nd_object_ref_id n = object_ref_id) ns of
            [] \<Rightarrow> None | matched \<Rightarrow> Some (last matched)))"

definition confirmed_object_by_candidate_id :: "string \<Rightarrow> string \<Rightarrow> object_view option store_proc" where
  "confirmed_object_by_candidate_id workspace_id candidate_id =
     and_then (list_confirmed_objects workspace_id) (\<lambda>objs.
     ret (find (\<lambda>r. ob_candidate_id r = candidate_id) objs))"

text \<open>The edge with this reference if it is active, or a new one.\<close>

definition ensure_active_edge ::
  "string \<Rightarrow> string \<Rightarrow> string \<Rightarrow> string \<Rightarrow> string \<Rightarrow> string \<Rightarrow> rat \<Rightarrow> string option \<Rightarrow> payload \<Rightarrow> edge_row store_proc"
where
  "ensure_active_edge workspace_id source_node_id target_node_id edge_type object_ref_type
     object_ref_id strength claim_id source_ref =
     and_then
       (find_graph_edge_by_ref workspace_id source_node_id target_node_id edge_type object_ref_type
          object_ref_id) (\<lambda>existing.
     case existing of
       Some e \<Rightarrow>
         if eg_status e \<in> set confirm_node_statuses then ret e
         else and_then
           (create_graph_edge workspace_id source_node_id target_node_id edge_type object_ref_type
              object_ref_id strength claim_id (VDict source_ref) ''active'') (require NoneSubscript)
     | None \<Rightarrow>
         and_then
           (create_graph_edge workspace_id source_node_id target_node_id edge_type object_ref_type
              object_ref_id strength claim_id (VDict source_ref) ''active'') (require NoneSubscript))"

section \<open>Edges of resolved relations\<close>

definition opt_text :: "string option \<Rightarrow> string" where
  "opt_text x = (case x of None \<Rightarrow> [] | Some s \<Rightarrow> s)"

definition materialize_relation ::
  "string \<Rightarrow> string \<Rightarrow> relation_row \<Rightarrow> string list \<Rightarrow> string list store_proc"
where
  "materialize_relation workspace_id candidate_id relation edge_ids =
     (let relation_type = strip (opt_text (rl_relation_type relation));
          source_candidate_id = opt_text (rl_source_candidate_id relation);
          target_candidate_id = opt_text (rl_target_candidate_id relation)
      in if rl_relation_status relation \<noteq> ''resolved'' \<or> relation_type = [] \<or>
            candidate_id \<notin> set [source_candidate_id, target_candidate_id]
         then ret edge_ids
         else
           and_then (confirmed_object_by_candidate_id workspace_id source_candidate_id) (\<lambda>source_object.
           and_then (confirmed_object_by_candidate_id workspace_id target_candidate_id) (\<lambda>target_object.
           case (source_object, target_object) of
             (Some so, Some ta) \<Rightarrow>
               and_then (resolve_active_node_by_object_ref workspace_id (ob_object_type so) (ob_object_id so))
                 (\<lambda>source_node.
               and_then (resolve_active_node_by_object_ref workspace_id (ob_object_type ta) (ob_object_id ta))
                 (\<lambda>target_node.
               case (source_node, target_node) of
                 (Some sn, Some tn) \<Rightarrow>
                   let relation_id = rl_relation_candidate_id relation;
                       edge_source_ref = confirm_edge_source_ref so ta relation_id relation_type;
                       target_claim_id = strip (opt_text (ob_claim_id ta))
                   in if nd_node_id sn = nd_node_id tn \<or> target_claim_id = [] \<or> edge_source_ref = []
                      then ret edge_ids
                      else
                        and_then
                          (ensure_active_edge workspace_id (nd_node_id sn) (nd_node_id tn) relation_type
                             ''relation_candidate'' relation_id (fl (9 / 10)) (Some target_claim_id)
                             edge_source_ref) (\<lambda>e.
                        ret (edge_ids @ [eg_edge_id e]))
               | _ \<Rightarrow> ret edge_ids))
           | _ \<Rightarrow> ret edge_ids)))"

definition relations_of_batch :: "string \<Rightarrow> string \<Rightarrow> candidate_row \<Rightarrow> relation_row list store_proc" where
  "relations_of_batch workspace_id source_id c =
     list_relation_candidates workspace_id (Some source_id) (Some (opt_text (cn_candidate_batch_id c))) None"

definition materialize_resolved_relation_edges ::
  "string \<Rightarrow> string \<Rightarrow> candidate_row \<Rightarrow> string list store_proc"
where
  "materialize_resolved_relation_edges workspace_id source_id c =
     and_then (relations_of_batch workspace_id source_id c) (\<lambda>relations.
     fold_proc (materialize_relation workspace_id (cn_candidate_id c)) relations [])"

section \<open>The graph version of a confirmation\<close>

definition confirm_event ::
  "candidate_row \<Rightarrow> string \<Rightarrow> string \<Rightarrow> string \<Rightarrow> string \<Rightarrow> string \<Rightarrow> payload \<Rightarrow> payload \<Rightarrow> payload option \<Rightarrow>
   unit store_proc"
where
  "confirm_event c workspace_id request_id event_name step status refs metrics error =
     emit_event
       ((event_args event_name (Some request_id) None (Some workspace_id)
           ''candidate_confirmation_service'' step status refs metrics error)
          \<lparr>evt_source_id := Some (cn_source_id c), evt_candidate_batch_id := cn_candidate_batch_id c\<rparr>)"

definition confirm_node ::
  "confirm_services \<Rightarrow> candidate_row \<Rightarrow> string \<Rightarrow> string \<Rightarrow> string \<Rightarrow> payload \<Rightarrow> (node_row \<times> bool) store_proc"
where
  "confirm_node sv c object_type object_id claim_id source_ref =
     and_then (resolve_active_node_by_object_ref (cn_workspace_id c) object_type object_id) (\<lambda>found.
     case found of
       Some n \<Rightarrow> ret (n, False)
     | None \<Rightarrow>
         and_then
           (create_graph_node (cn_workspace_id c) (node_type_for_object_type object_type) object_type
              object_id (confirm_short_label (cs_unnamed_label sv) (cn_text c)) (cn_text c)
              (build_short_tags c) ''workspace'' (map VDict (build_source_refs c claim_id))
              (Some claim_id) (VDict source_ref) ''active'') (\<lambda>created.
         and_then (require NoneSubscript created) (\<lambda>n. ret (n, True))))"

text \<open>The first evidence node of the same source, or its first node.\<close>

definition anchor_node :: "object_view list \<Rightarrow> string \<Rightarrow> string \<Rightarrow> node_row list \<Rightarrow> node_row option" where
  "anchor_node confirmed_objects source_id node_id active_nodes =
     (let object_source_map = map_of (rev (map (\<lambda>r. (ob_object_id r, ob_source_id r)) confirmed_objects));
          same_source_nodes = filter (\<lambda>n. nd_node_id n \<noteq> node_id \<and>
            object_source_map (nd_object_ref_id n) = Some source_id) active_nodes
      in case find (\<lambda>n. nd_node_type n = ''evidence'') same_source_nodes of
           Some n \<Rightarrow> Some n
         | None \<Rightarrow> (case same_source_nodes of [] \<Rightarrow> None | n # _ \<Rightarrow> Some n))"

definition anchor_edges ::
  "candidate_row \<Rightarrow> string \<Rightarrow> string \<Rightarrow> string \<Rightarrow> payload \<Rightarrow> node_row \<Rightarrow> relation_row list \<Rightarrow> node_row option \<Rightarrow>
   string list \<Rightarrow> string list store_proc"
where
  "anchor_edges c object_type object_id claim_id source_ref n relations anchor edge_ids =
     (case anchor of
        None \<Rightarrow> ret edge_ids
      | Some a \<Rightarrow>
          if relations \<noteq> [] \<or> nd_node_id a = nd_node_id n then ret edge_ids
          else
            and_then
              (ensure_active_edge (cn_workspace_id c) (nd_node_id a) (nd_node_id n)
                 (edge_type_for_node_type (nd_node_type n)) object_type object_id (fl (8 / 10))
                 (Some claim_id)
                 (dict_put ''anchor_claim_id'' (opt_str (nd_claim_id a)) source_ref)) (\<lambda>e.
            ret (edge_ids @ [eg_edge_id e])))"

definition confirm_diff_payload ::
  "candidate_row \<Rightarrow> string \<Rightarrow> string \<Rightarrow> string \<Rightarrow> string \<Rightarrow> string list \<Rightarrow> string list \<Rightarrow> payload"
where
  "confirm_diff_payload c object_type object_id claim_id request_id new_node_ids edge_ids =
     [(''change_type'', VStr ''candidate_confirm_materialization''),
      (''candidate_id'', VStr (cn_candidate_id c)),
      (''candidate_batch_id'', opt_str (cn_candidate_batch_id c)),
      (''formal_object_type'', VStr object_type), (''formal_object_id'', VStr object_id),
      (''claim_id'', VStr claim_id), (''source_id'', VStr (cn_source_id c)),
      (''request_id'', VStr request_id),
      (''added'', VDict [(''nodes'', VList (map VStr new_node_ids)), (''edges'', VList (map VStr edge_ids))]),
      (''archived'', VDict [(''nodes'', VList []), (''edges'', VList [])]),
      (''weakened'', VDict [(''nodes'', VList []), (''edges'', VList []), (''routes'', VList [])]),
      (''invalidated'', VDict [(''nodes'', VList []), (''edges'', VList []), (''routes'', VList [])]),
      (''branch_changes'',
         VDict [(''created_branch_node_ids'', VList []), (''created_branch_edge_ids'', VList [])]),
      (''route_score_changes'', VList [])]"

record graph_result =
  gs_node_id :: string
  gs_edge_ids :: "string list"
  gs_version_id :: string
  gs_node_count :: nat
  gs_edge_count :: nat

definition version_ref :: "string \<Rightarrow> pyval" where
  "version_ref version_id =
     VDict [(''resource_type'', VStr ''graph_version''), (''resource_id'', VStr version_id)]"

definition publish_confirmation ::
  "candidate_row \<Rightarrow> string \<Rightarrow> string \<Rightarrow> string \<Rightarrow> string \<Rightarrow> node_row \<Rightarrow> bool \<Rightarrow> string list \<Rightarrow>
   graph_result store_proc"
where
  "publish_confirmation c object_type object_id claim_id request_id n node_created edge_ids =
     (let w = cn_workspace_id c in
      and_then
        (create_graph_version w ''confirm_candidate'' (''confirm candidate '' @ cn_candidate_id c)
           (confirm_diff_payload c object_type object_id claim_id request_id
              (if node_created then [nd_node_id n] else []) edge_ids) (Some request_id)) (\<lambda>created.
      and_then (require NoneSubscript created) (\<lambda>v.
      and_then (list_active_nodes w) (\<lambda>ns.
      and_then (list_active_edges w) (\<lambda>es.
      and_then
        (upsert_graph_workspace w (Some (vs_version_id v)) ''ready'' (int (length ns)) (int (length es))) (\<lambda>_.
      and_then
        (confirm_event c w request_id ''graph_materialization_completed'' ''graph_materialization'' ''completed''
           [(''candidate_id'', VStr (cn_candidate_id c)), (''node_id'', VStr (nd_node_id n)),
            (''edge_ids'', VList (map VStr edge_ids)), (''version_id'', VStr (vs_version_id v)),
            (''result_ref'', version_ref (vs_version_id v))]
           [(''node_count'', VInt (int (length ns))), (''edge_count'', VInt (int (length es)))] None) (\<lambda>_.
      and_then
        (confirm_event c w request_id ''graph_version_created'' ''version_create'' ''completed''
           [(''candidate_id'', VStr (cn_candidate_id c)), (''version_id'', VStr (vs_version_id v)),
            (''result_ref'', version_ref (vs_version_id v))] [] None) (\<lambda>_.
      ret \<lparr>gs_node_id = nd_node_id n, gs_edge_ids = edge_ids, gs_version_id = vs_version_id v,
           gs_node_count = length ns, gs_edge_count = length es\<rparr>))))))))"

definition materialize_graph_version ::
  "confirm_services \<Rightarrow> candidate_row \<Rightarrow> claim_row \<Rightarrow> string \<times> string \<Rightarrow> string \<Rightarrow> ('n, graph_result) noted_proc"
where
  "materialize_graph_version sv c claim formal_object request_id =
     (let (object_type, object_id) = formal_object; claim_id = cm_claim_id claim; w = cn_workspace_id c in
      and_then (require_graph_traceability c claim) (\<lambda>source_ref.
      on_store
        (and_then (confirm_node sv c object_type object_id claim_id source_ref) (\<lambda>(n, node_created).
         and_then (list_confirmed_objects w) (\<lambda>confirmed_objects.
         and_then (list_active_nodes w) (\<lambda>active_nodes.
         and_then (relations_of_batch w (cn_source_id c) c) (\<lambda>relations.
         and_then (materialize_resolved_relation_edges w (cn_source_id c) c) (\<lambda>edge_ids.
         and_then
           (anchor_edges c object_type object_id claim_id source_ref n relations
              (anchor_node confirmed_objects (cn_source_id c) (nd_node_id n) active_nodes) edge_ids)
           (\<lambda>edge_ids.
         publish_confirmation c object_type object_id claim_id request_id n node_created edge_ids)))))))))"

section \<open>Confirming\<close>

definition load_candidate :: "string \<Rightarrow> string \<Rightarrow> candidate_row store_proc" where
  "load_candidate workspace_id candidate_id =
     and_then (get_candidate candidate_id) (\<lambda>found.
     and_then
       (require (ServiceError 404 ''research.not_found'' ''candidate not found''
            [(''candidate_id'', VStr candidate_id)]) found) (\<lambda>c.
     and_then
       (check (ServiceError 409 ''research.conflict'' ''workspace_id does not match candidate ownership''
            [(''candidate_id'', VStr candidate_id)]) (cn_workspace_id c = workspace_id)) (\<lambda>_.
     ret c)))"

definition ensure_pending :: "candidate_row \<Rightarrow> string \<Rightarrow> unit store_proc" where
  "ensure_pending c action =
     check (ServiceError 409 ''research.invalid_state''
         (''candidate cannot be '' @ action @ ''ed in current status'')
         [(''candidate_id'', VStr (cn_candidate_id c)), (''status'', VStr (cn_status c))])
       (cn_status c = ''pending'')"

definition service_error_payload :: "string \<Rightarrow> string \<Rightarrow> payload \<Rightarrow> payload" where
  "service_error_payload error_code message details =
     [(''error_code'', VStr error_code), (''message'', VStr message), (''details'', VDict details)]"

definition refuse_duplicate ::
  "candidate_row \<Rightarrow> string \<Rightarrow> string \<Rightarrow> string \<times> string \<Rightarrow> unit store_proc"
where
  "refuse_duplicate c workspace_id request_id conflict =
     (let message = ''candidate confirmation conflicts with existing confirmed object'';
          details =
            [(''candidate_id'', VStr (cn_candidate_id c)),
             (''reason'', VStr (if fst conflict = cn_candidate_type c then ''duplicate_confirmed_object''
                               else ''cross_type_confirmed_conflict'')),
             (''conflict_object_type'', VStr (fst conflict)),
             (''conflict_object_id'', VStr (snd conflict))]
      in and_then
           (confirm_event c workspace_id request_id ''candidate_confirmation_failed'' ''confirm'' ''failed''
              [(''candidate_id'', VStr (cn_candidate_id c)), (''conflict_object_id'', VStr (snd conflict)),
               (''conflict_object_type'', VStr (fst conflict))] []
              (Some (service_error_payload ''research.conflict'' message details))) (\<lambda>_.
         fail (ServiceError 409 ''research.conflict'' message details)))"

text \<open>The transaction; the formal object is noted as soon as it is created.\<close>

type_synonym 'a confirm_proc = "((string \<times> string) option, 'a) noted_proc"

definition confirm_txn ::
  "confirm_services \<Rightarrow> candidate_row \<Rightarrow> string \<Rightarrow> string \<Rightarrow> string \<Rightarrow>
   (claim_row \<times> (string \<times> string) \<times> graph_result) confirm_proc"
where
  "confirm_txn sv c workspace_id normalized_text request_id =
     and_then (on_store (create_claim_from_candidate c normalized_text)) (\<lambda>claim.
     and_then (on_store (create_confirmed_object_from_candidate c normalized_text request_id)) (\<lambda>formal_object.
     and_then (set_note (Some formal_object)) (\<lambda>_.
     and_then
       (on_store (persist_evidence_refs_for_confirmation c (fst formal_object) (snd formal_object) request_id))
       (\<lambda>_.
     and_then (on_store (update_candidate_status (cn_candidate_id c) ''confirmed'' None)) (\<lambda>_.
     and_then
       (on_store (confirm_event c workspace_id request_id ''candidate_confirmed'' ''confirm'' ''completed''
          [(''candidate_id'', VStr (cn_candidate_id c)),
           (''formal_object_type'', VStr (fst formal_object)),
           (''formal_object_id'', VStr (snd formal_object)), (''source_id'', VStr (cn_source_id c)),
           (''extraction_job_id'', opt_str (cn_extraction_job_id c))] [] None)) (\<lambda>_.
     and_then
       (on_store (confirm_event c workspace_id request_id ''claim_created'' ''claim_create'' ''completed''
          [(''candidate_id'', VStr (cn_candidate_id c)), (''claim_id'', VStr (cm_claim_id claim)),
           (''claim_type'', VStr (cm_claim_type claim)), (''source_id'', VStr (cn_source_id c))] [] None)) (\<lambda>_.
     and_then (materialize_graph_version sv c claim formal_object request_id) (\<lambda>graph.
     ret (claim, formal_object, graph)))))))))"

text \<open>
  The service's own exceptions pass; any other is logged and becomes one of the service. The
  transaction is undone in both cases.
\<close>

definition report_failed_confirmation ::
  "confirm_services \<Rightarrow> candidate_row \<Rightarrow> string \<Rightarrow> string \<Rightarrow> (string \<times> string) option \<Rightarrow> api_error \<Rightarrow>
   'a store_proc"
where
  "report_failed_confirmation sv c workspace_id request_id formal_object e =
     (let message = ''graph/version persistence failed during candidate confirmation'';
          details = [(''candidate_id'', VStr (cn_candidate_id c)), (''reason'', VStr (cs_error_text sv e))]
      in and_then
           (confirm_event c workspace_id request_id ''candidate_confirmation_failed'' ''graph_materialization''
              ''failed''
              [(''candidate_id'', VStr (cn_candidate_id c)),
               (''formal_object_type'', opt_str (map_option fst formal_object)),
               (''formal_object_id'', opt_str (map_option snd formal_object))] []
              (Some (service_error_payload ''research.version_diff_unavailable'' message details))) (\<lambda>_.
         fail (ServiceError 409 ''research.version_diff_unavailable'' message details)))"

definition confirm_in_transaction ::
  "confirm_services \<Rightarrow> candidate_row \<Rightarrow> string \<Rightarrow> string \<Rightarrow> string \<Rightarrow>
   (claim_row \<times> (string \<times> string) \<times> graph_result) store_proc"
where
  "confirm_in_transaction sv c workspace_id normalized_text request_id s =
     (case run_in_transaction (confirm_txn sv c workspace_id normalized_text request_id) (s, None) of
        (Inr a, (s', _)) \<Rightarrow> (Inr a, s')
      | (Inl (ServiceError status code message details), (s', _)) \<Rightarrow>
          (Inl (ServiceError status code message details), s')
      | (Inl e, (s', formal_object)) \<Rightarrow>
          report_failed_confirmation sv c workspace_id request_id formal_object e s')"

definition sync_memory :: "confirm_services \<Rightarrow> candidate_row \<Rightarrow> string \<Rightarrow> claim_row \<Rightarrow> string \<Rightarrow> string store_proc"
where
  "sync_memory sv c workspace_id claim request_id s =
     (case cs_sync_claim sv claim request_id s of
        (Inr status, s') \<Rightarrow> (Inr status, s')
      | (Inl e, s') \<Rightarrow>
          and_then
            (confirm_event c workspace_id request_id ''claim_memory_bridge_completed'' ''memory_bridge'' ''failed''
               [(''claim_id'', VStr (cm_claim_id claim)), (''reason'', VStr ''bridge_service_exception'')] []
               (Some [(''message'', VStr (cs_error_text sv e))])) (\<lambda>_. ret ''failed'') s')"

definition detection_event ::
  "candidate_row \<Rightarrow> string \<Rightarrow> string \<Rightarrow> string \<Rightarrow> payload \<Rightarrow> payload option \<Rightarrow> unit store_proc"
where
  "detection_event c workspace_id request_id status refs error =
     confirm_event c workspace_id request_id ''claim_conflict_detection_completed''
       ''claim_conflict_detection'' status refs [] error"

definition detect_claim_conflicts ::
  "candidate_row \<Rightarrow> string \<Rightarrow> claim_row \<Rightarrow> string \<Rightarrow> unit store_proc"
where
  "detect_claim_conflicts c workspace_id claim request_id =
     and_then (reading (list_claims workspace_id)) (\<lambda>claims.
     and_then
       (detect_for_claim workspace_id (cm_claim_id claim) [] request_id
          (Some (filter (\<lambda>r. cm_claim_id r \<noteq> cm_claim_id claim) claims))) (\<lambda>conflict_ids.
     detection_event c workspace_id request_id ''completed''
       [(''claim_id'', VStr (cm_claim_id claim)),
        (''created_count'', VInt (int (length conflict_ids))),
        (''conflict_ids'', VList (map VStr conflict_ids))] None))"

text \<open>Any exception of the detection is logged and swallowed.\<close>

definition detect_claim_conflicts_best_effort ::
  "confirm_services \<Rightarrow> candidate_row \<Rightarrow> string \<Rightarrow> claim_row \<Rightarrow> string \<Rightarrow> unit store_proc"
where
  "detect_claim_conflicts_best_effort sv c workspace_id claim request_id s =
     (case detect_claim_conflicts c workspace_id claim request_id s of
        (Inr _, s') \<Rightarrow> (Inr (), s')
      | (Inl e, s') \<Rightarrow>
          detection_event c workspace_id request_id ''failed''
            [(''claim_id'', VStr (cm_claim_id claim)), (''reason'', VStr ''claim_conflict_detection_exception'')]
            (Some [(''message'', VStr (cs_error_text sv e))]) s')"

record confirm_result =
  cr_candidate_id :: string
  cr_candidate_status :: string
  cr_claim_id :: string
  cr_claim_memory_sync_status :: string
  cr_formal_object_type :: string
  cr_formal_object_id :: string
  cr_graph_node_id :: string
  cr_graph_edge_ids :: "string list"
  cr_graph_version_id :: string

definition confirm_loaded ::
  "confirm_services \<Rightarrow> candidate_row \<Rightarrow> string \<Rightarrow> string \<Rightarrow> confirm_result store_proc"
where
  "confirm_loaded sv c workspace_id request_id =
     (let normalized_text = normalize_candidate_text (cn_text c) in
      and_then (find_confirmed_object_by_normalized_text workspace_id normalized_text) (\<lambda>conflict.
      and_then
        (case conflict of None \<Rightarrow> ret () | Some o1 \<Rightarrow> refuse_duplicate c workspace_id request_id o1) (\<lambda>_.
      and_then (confirm_in_transaction sv c workspace_id normalized_text request_id)
        (\<lambda>(claim, formal_object, graph).
      and_then (sync_memory sv c workspace_id claim request_id) (\<lambda>link_status.
      and_then (detect_claim_conflicts_best_effort sv c workspace_id claim request_id) (\<lambda>_.
      ret \<lparr>cr_candidate_id = cn_candidate_id c, cr_candidate_status = ''confirmed'',
           cr_claim_id = cm_claim_id claim, cr_claim_memory_sync_status = link_status,
           cr_formal_object_type = fst formal_object, cr_formal_object_id = snd formal_object,
           cr_graph_node_id = gs_node_id graph, cr_graph_edge_ids = gs_edge_ids graph,
           cr_graph_version_id = gs_version_id graph\<rparr>))))))"

definition confirm :: "confirm_services \<Rightarrow> string \<Rightarrow> string \<Rightarrow> string \<Rightarrow> confirm_result store_proc" where
  "confirm sv workspace_id candidate_id request_id =
     and_then (load_candidate workspace_id candidate_id) (\<lambda>c.
     and_then (ensure_pending c ''confirm'') (\<lambda>_.
     confirm_loaded sv c workspace_id request_id))"

definition reject_candidate :: "string \<Rightarrow> string \<Rightarrow> string \<Rightarrow> string \<Rightarrow> (string \<times> string) store_proc" where
  "reject_candidate workspace_id candidate_id reason request_id =
     and_then (load_candidate workspace_id candidate_id) (\<lambda>c.
     and_then (ensure_pending c ''reject'') (\<lambda>_.
     and_then (update_candidate_status candidate_id ''rejected'' (Some reason)) (\<lambda>_.
     and_then
       (confirm_event c workspace_id request_id ''candidate_rejected'' ''reject'' ''completed''
          [(''candidate_id'', VStr candidate_id), (''reason'', VStr reason),
           (''source_id'', VStr (cn_source_id c)),
           (''extraction_job_id'', opt_str (cn_extraction_job_id c))] [] None) (\<lambda>_.
     ret (candidate_id, ''rejected'')))))"

end
