(* ===== verification/StoreFresh.thy ===== *)
theory StoreFresh
  imports StoreCandidates
begin

text \<open>
  Statements that cannot fail: a store whose ids that are still to be drawn are new
  (\<open>fresh_ids\<close>), and the calls that return in every such store and leave one (\<open>never_raises\<close>).
\<close>

section \<open>New ids\<close>

text \<open>Ids with a prefix that are still to be drawn are not among the given ones.\<close>

definition unused :: "string \<Rightarrow> string set \<Rightarrow> store \<Rightarrow> bool" where
  "unused p K s \<longleftrightarrow>
     inj (hex_supply s) \<and> (\<forall>n \<ge> drawn s. p @ ''_'' @ hex_supply s n \<notin> K)"

lemma unused_next: "unused p K s \<Longrightarrow> p @ ''_'' @ hex_supply s (drawn s) \<notin> K"
  by (simp add: unused_def)

lemma unused_mono:
  "unused p K s \<Longrightarrow> hex_supply s' = hex_supply s \<Longrightarrow> drawn s \<le> drawn s' \<Longrightarrow> unused p K s'"
  by (simp add: unused_def)

lemma unused_insert:
  assumes "unused p K s" "hex_supply s' = hex_supply s" "drawn s' = Suc (drawn s)"
  shows "unused p (insert (p @ ''_'' @ hex_supply s (drawn s)) K) s'"
  using assms by (auto simp: unused_def dest: injD)

definition conflict_ids :: "store \<Rightarrow> string set" where
  "conflict_ids s = cf_conflict_id ` set (conflict_rows (research s))"

definition object_ids :: "string \<Rightarrow> store \<Rightarrow> string set" where
  "object_ids ty s = ob_object_id ` set (filter (\<lambda>r. ob_object_type r = ty) (object_rows s))"

definition fresh_ids :: "store \<Rightarrow> bool" where
  "fresh_ids s \<longleftrightarrow>
     unused ''node'' (nd_node_id ` set (node_rows s)) s \<and>
     unused ''edge'' (eg_edge_id ` set (edge_rows s)) s \<and>
     unused ''ver'' (vs_version_id ` set (version_rows s)) s \<and>
     unused ''event'' (evt_event_id ` set (event_rows s)) s \<and>
     unused ''claim'' (cm_claim_id ` set (claim_rows s)) s \<and>
     unused ''claimconf'' (conflict_ids s) s \<and>
     unused ''eref'' (er_ref_id ` set (evidence_ref_rows (research s))) s \<and>
     (\<forall>ty. unused (take 3 ty) (object_ids ty s) s)"

lemmas fresh_defs = fresh_ids_def conflict_ids_def object_ids_def

lemma inj_unary: "inj unary"
  by (rule injI) (metis length_replicate unary_def)

lemma fresh_empty_store: "fresh_ids empty_store"
  by (simp add: fresh_defs unused_def empty_store_def inj_unary)

definition never_raises :: "'a store_proc \<Rightarrow> ('a \<Rightarrow> bool) \<Rightarrow> bool" where
  "never_raises m Q \<longleftrightarrow> (\<forall>s. fresh_ids s \<longrightarrow> (\<exists>a s'. m s = (Inr a, s') \<and> Q a \<and> fresh_ids s'))"

lemma never_raisesI:
  "(\<And>s. fresh_ids s \<Longrightarrow> \<exists>a s'. m s = (Inr a, s') \<and> Q a \<and> fresh_ids s') \<Longrightarrow> never_raises m Q"
  by (simp add: never_raises_def)

lemma never_raisesE:
  assumes "never_raises m Q" "fresh_ids s"
  obtains a s' where "m s = (Inr a, s')" "Q a" "fresh_ids s'"
  using assms by (auto simp: never_raises_def)

lemma never_raises_ret: "Q a \<Longrightarrow> never_raises (ret a) Q"
  and never_raises_reading: "(\<And>s. Q (f s)) \<Longrightarrow> never_raises (reading f) Q"
  by (simp_all add: never_raises_def proc_simps)

lemma never_raises_and_then:
  assumes "never_raises m P" "\<And>a. P a \<Longrightarrow> never_raises (f a) Q"
  shows "never_raises (and_then m f) Q"
proof (rule never_raisesI)
  fix s assume "fresh_ids s"
  from never_raisesE [OF assms(1) this] obtain a s1 where "m s = (Inr a, s1)" "P a" "fresh_ids s1" .
  moreover from never_raisesE [OF assms(2) [OF this(2)] this(3)]
  obtain b s2 where "f a s1 = (Inr b, s2)" "Q b" "fresh_ids s2" .
  ultimately show "\<exists>b s2. and_then m f s = (Inr b, s2) \<and> Q b \<and> fresh_ids s2" by (simp add: and_then_def)
qed

lemma never_raises_weaken: "never_raises m P \<Longrightarrow> (\<And>a. P a \<Longrightarrow> Q a) \<Longrightarrow> never_raises m Q"
  by (fastforce simp: never_raises_def)

lemma never_raises_fold:
  assumes "\<And>x a. never_raises (body x a) (\<lambda>_. True)"
  shows "never_raises (fold_proc body xs a) (\<lambda>_. True)"
  by (induction xs arbitrary: a) (auto intro: never_raises_ret never_raises_and_then [OF assms])

text \<open>A row whose id was just drawn.\<close>

lemma fresh_ids_step:
  assumes "fresh_ids s" "hex_supply s' = hex_supply s" "drawn s \<le> drawn s'"
    and "node_rows s' = node_rows s" "edge_rows s' = edge_rows s" "version_rows s' = version_rows s"
    and "event_rows s' = event_rows s" "claim_rows s' = claim_rows s" "object_rows s' = object_rows s"
    and "conflict_rows (research s') = conflict_rows (research s)"
    and "evidence_ref_rows (research s') = evidence_ref_rows (research s)"
  shows "fresh_ids s'"
  using assms(1) unfolding fresh_defs assms(4-) by (meson unused_mono [OF _ assms(2,3)])

lemma fresh_ids_tick: "fresh_ids s \<Longrightarrow> fresh_ids (s\<lparr>ticks := t\<rparr>)"
  by (erule fresh_ids_step) simp_all

lemma fresh_rolled_back:
  assumes "fresh_ids s" "drawn s \<le> drawn s'"
  shows "fresh_ids (rolled_back s s')"
  by (rule fresh_ids_step [OF assms(1)]) (use assms(2) in \<open>simp_all add: rolled_back_def\<close>)

lemma emit_event_never_raises: "never_raises (emit_event args) (\<lambda>_. True)"
proof (rule never_raisesI)
  fix s assume f: "fresh_ids s"
  then have u: "unused ''event'' (evt_event_id ` set (event_rows s)) s" by (simp add: fresh_ids_def)
  obtain r s' where e: "emit_event args s = (r, s')" by (cases "emit_event args s")
  then show "\<exists>a s'. emit_event args s = (Inr a, s') \<and> True \<and> fresh_ids s'"
  proof (cases rule: emit_event_cases)
    case (taken k)
    then show ?thesis using unused_next [OF u] by simp
  next
    case (added x)
    then have "fresh_ids s'"
      using f unused_insert [OF u, of s'] by (auto simp: fresh_defs intro: unused_mono)
    then show ?thesis using e added(1) by auto
  qed
qed

lemma create_graph_node_never_raises:
  "never_raises (create_graph_node w ty rt ri lab desc tags vis srefs c sref st) (\<lambda>x. x \<noteq> None)"
proof (rule never_raisesI)
  fix s assume f: "fresh_ids s"
  then have u: "unused ''node'' (nd_node_id ` set (node_rows s)) s" by (simp add: fresh_ids_def)
  let ?m = "create_graph_node w ty rt ri lab desc tags vis srefs c sref st"
  obtain r s' where e: "?m s = (r, s')" by (cases "?m s")
  have ok: "r \<noteq> Inl x" for x
    using e unused_next [OF u]
    by (auto simp: create_graph_node_def and_then_def proc_simps insert_row_def split: if_splits)
  from e show "\<exists>a s'. ?m s = (Inr a, s') \<and> a \<noteq> None \<and> fresh_ids s'"
  proof (cases rule: create_graph_node_cases)
    case (taken k)
    then show ?thesis using ok by simp
  next
    case (created n)
    then have "fresh_ids s'"
      using f unused_insert [OF u, of s'] by (auto simp: fresh_defs intro: unused_mono)
    then show ?thesis using e created(1) by auto
  qed
qed

lemma create_graph_edge_never_raises:
  "never_raises (create_graph_edge w a b ty rt ri x c sref st) (\<lambda>x. x \<noteq> None)"
proof (rule never_raisesI)
  fix s assume f: "fresh_ids s"
  then have u: "unused ''edge'' (eg_edge_id ` set (edge_rows s)) s" by (simp add: fresh_ids_def)
  let ?m = "create_graph_edge w a b ty rt ri x c sref st"
  obtain r s' where e: "?m s = (r, s')" by (cases "?m s")
  have ok: "r \<noteq> Inl y" for y
    using e unused_next [OF u]
    by (auto simp: create_graph_edge_def and_then_def proc_simps insert_row_def split: if_splits)
  from e show "\<exists>a s'. ?m s = (Inr a, s') \<and> a \<noteq> None \<and> fresh_ids s'"
  proof (cases rule: create_graph_edge_cases)
    case (taken k)
    then show ?thesis using ok by simp
  next
    case (created n)
    then have "fresh_ids s'"
      using f unused_insert [OF u, of s'] by (auto simp: fresh_defs intro: unused_mono)
    then show ?thesis using e created(1) by auto
  qed
qed

lemma create_graph_version_never_raises:
  "never_raises (create_graph_version w ty sm p q) (\<lambda>x. x \<noteq> None)"
proof (rule never_raisesI)
  fix s assume f: "fresh_ids s"
  then have u: "unused ''ver'' (vs_version_id ` set (version_rows s)) s" by (simp add: fresh_ids_def)
  let ?s1 = "s\<lparr>drawn := Suc (drawn s), ticks := Suc (ticks s)\<rparr>"
  obtain v s' where e: "create_graph_version w ty sm p q s = (Inr (Some v), s')"
    and v: "vs_version_id v = ''ver_'' @ hex_supply s (drawn s)"
    and s': "s' = ?s1\<lparr>version_rows := version_rows s @ [v]\<rparr>"
    using unused_next [OF u]
    by (simp add: create_graph_version_def get_graph_version_def and_then_def proc_simps insert_row_def
        select_key_append select_key_fresh)
  have "fresh_ids s'"
    unfolding fresh_defs s'
    using f unused_insert [OF u, of s'] v s' by (auto simp: fresh_defs intro: unused_mono)
  then show "\<exists>a s'. create_graph_version w ty sm p q s = (Inr a, s') \<and> a \<noteq> None \<and> fresh_ids s'"
    using e by auto
qed

lemma upsert_graph_workspace_never_raises: "never_raises (upsert_graph_workspace w v st n e) (\<lambda>_. True)"
  by (rule never_raisesI)
    (auto simp: upsert_graph_workspace_def get_graph_workspace_def and_then_def proc_simps Let_def
      intro: fresh_ids_step)

lemma require_some_never_raises: "x \<noteq> None \<Longrightarrow> never_raises (require e x) (\<lambda>_. True)"
  by (auto simp: never_raises_def proc_simps)

lemmas never_raises_intros =
  never_raises_ret never_raises_reading never_raises_fold emit_event_never_raises
  upsert_graph_workspace_never_raises

end
