(* ===== verification/ClaimConflictProps.thy ===== *)
theory ClaimConflictProps
  imports ClaimConflicts StoreFresh
begin

text \<open>
  The properties of \<^verbatim>\<open>ClaimConflictService\<close>: the contradiction test does not depend on the
  order of its two texts, and the detection records one conflict for every contradicted claim that
  has none yet.
\<close>

section \<open>The contradiction test\<close>

lemma antonyms: "map_of antonym_lookup t = Some u \<longleftrightarrow> (t, u) \<in> set antonym_lookup"
  by (rule iffI, erule map_of_SomeD, rule map_of_is_SomeI)
    (simp_all add: antonym_lookup_def antonym_pairs_def)

lemma antonym_symmetric: "(t, u) \<in> set antonym_lookup \<longleftrightarrow> (u, t) \<in> set antonym_lookup"
  by (auto simp: antonym_lookup_def antonym_pairs_def)

lemma has_antonym_pair_iff:
  "has_antonym_pair xs ys \<longleftrightarrow> (\<exists>t \<in> set xs. \<exists>u \<in> set ys. (t, u) \<in> set antonym_lookup)"
  unfolding has_antonym_pair_def list_ex_iff
  by (rule bex_cong [OF HOL.refl]) (auto split: option.split simp: antonyms [symmetric])

lemma has_antonym_pair_sym: "has_antonym_pair xs ys = has_antonym_pair ys xs"
  using antonym_symmetric unfolding has_antonym_pair_iff by blast

lemma length_meet: "distinct xs \<Longrightarrow> length (meet xs ys) = card (set xs \<inter> set ys)"
  unfolding meet_def by (subst distinct_card [symmetric]) (auto simp: Int_def)

lemma overlap_sym: "distinct xs \<Longrightarrow> distinct ys \<Longrightarrow> overlap xs ys = overlap ys xs"
  by (simp add: overlap_def length_meet Int_commute min.commute)

lemma overlap_without_antonyms_sym:
  "distinct xs \<Longrightarrow> distinct ys \<Longrightarrow> overlap_without_antonyms xs ys = overlap_without_antonyms ys xs"
  unfolding overlap_without_antonyms_def by (intro overlap_sym) simp_all

lemma distinct_tokens: "distinct (snd (polarity_tokens t))"
  by (simp add: polarity_tokens_def Let_def)

lemma tokens_are_words:
  "t \<in> set (snd (polarity_tokens s)) \<Longrightarrow> t \<noteq> [] \<and> t \<notin> set stopwords"
  by (auto simp: polarity_tokens_def Let_def)

text \<open>
  Whether two claims look contradictory does not depend on which of them is the new one. Two
  texts of which one has no tokens, because it is blank or made of stop words and numbers, never do.
\<close>

theorem looks_contradictory_symmetric:
  "looks_contradictory a b = looks_contradictory b a \<and>
   (snd (polarity_tokens a) = [] \<longrightarrow> \<not> looks_contradictory a b)"
proof -
  obtain na xs nb ys where p: "polarity_tokens a = (na, xs)" "polarity_tokens b = (nb, ys)"
    by (metis surj_pair)
  then have d: "distinct xs" "distinct ys" using distinct_tokens by (metis snd_conv)+
  show ?thesis
    using has_antonym_pair_sym [of xs ys] overlap_sym [OF d] overlap_without_antonyms_sym [OF d]
    by (auto simp: looks_contradictory_def p)
qed

theorem looks_contradictory_symmetric_witness:
  "snd (polarity_tokens ''the 42'') = [] \<and> \<not> looks_contradictory ''the 42'' ''not 42''"
proof -
  have "snd (polarity_tokens ''the 42'') = []" by code_simp
  then show ?thesis using looks_contradictory_symmetric [of "''the 42''" "''not 42''"] by blast
qed

text \<open>
  A pair of antonyms is looked for across the two sets of tokens: a claim that says one thing of one
  subject and the opposite of another contradicts its own restatement.
\<close>

lemma restatement_looks_contradictory:
  "looks_contradictory ''ki improves vo worsens'' ''vo worsens ki improves''"
proof -
  have "polarity_tokens ''ki improves vo worsens'' = (False, [''ki'', ''improve'', ''vo'', ''worsen''])"
    and "polarity_tokens ''vo worsens ki improves'' = (False, [''vo'', ''worsen'', ''ki'', ''improve''])"
    by code_simp+
  moreover have "has_antonym_pair [''ki'', ''improve'', ''vo'', ''worsen'']
      [''vo'', ''worsen'', ''ki'', ''improve'']" by code_simp
  moreover have "overlap_without_antonyms [''ki'', ''improve'', ''vo'', ''worsen'']
      [''vo'', ''worsen'', ''ki'', ''improve''] = 1"
    by (simp add: overlap_without_antonyms_def polarity_words_def antonym_lookup_def antonym_pairs_def
        overlap_def meet_def)
  ultimately show ?thesis by (simp add: looks_contradictory_def)
qed

section \<open>Recording conflicts\<close>

definition open_conflict :: "string \<Rightarrow> string \<Rightarrow> string \<Rightarrow> conflict_row \<Rightarrow> bool" where
  "open_conflict w i e c \<longleftrightarrow>
     cf_workspace_id c = w \<and> cf_status c = ''needs_review'' \<and> cf_new_claim_id c = i \<and>
     cf_existing_claim_id c = e \<and> cf_conflict_type c = ''possible_contradiction''"

definition known :: "string \<Rightarrow> string \<Rightarrow> string \<Rightarrow> store \<Rightarrow> bool" where
  "known w i e s \<longleftrightarrow> (\<exists>c \<in> set (conflict_rows (research s)). open_conflict w i e c)"

definition suspect :: "string \<Rightarrow> claim_row \<Rightarrow> claim_row \<Rightarrow> bool" where
  "suspect w new_claim e \<longleftrightarrow>
     cm_claim_id e \<noteq> cm_claim_id new_claim \<and> cm_workspace_id e = w \<and>
     looks_contradictory (cm_normalized_text new_claim) (cm_normalized_text e)"

lemma has_unresolved_conflict_apply:
  "has_unresolved_conflict w i e ''possible_contradiction'' s = (Inr (known w i e s), s)"
  by (auto simp: has_unresolved_conflict_def list_claim_conflicts_def and_then_def proc_simps known_def
      open_conflict_def list_ex_iff)

lemma create_claim_conflict_fresh:
  assumes "unused ''claimconf'' (conflict_ids s) s"
  obtains r where
    "create_claim_conflict args s =
       (Inr r, put_conflicts (\<lambda>rs. rs @ [r]) (s\<lparr>drawn := Suc (drawn s), ticks := Suc (ticks s)\<rparr>))"
    and "r = args\<lparr>cf_conflict_id := ''claimconf_'' @ hex_supply s (drawn s), cf_decision_note := None,
                  cf_resolved_request_id := None, cf_created_at := clock s (ticks s),
                  cf_updated_at := clock s (ticks s)\<rparr>"
  using unused_next [OF assms] that
  by (auto simp: create_claim_conflict_def get_claim_conflict_def and_then_def proc_simps gen_id_def
      now_def insert_row_def conflict_ids_def put_defs select_key_append select_key_fresh)

text \<open>\<open>recorded\<close>: the rows that a detection adds, and that it adds nothing else.\<close>

definition recorded :: "string \<Rightarrow> string \<Rightarrow> claim_row \<Rightarrow> claim_row \<Rightarrow> conflict_row \<Rightarrow> bool" where
  "recorded w q new_claim e r \<longleftrightarrow>
     open_conflict w (cm_claim_id new_claim) (cm_claim_id e) r \<and> cf_created_request_id r = Some q \<and>
     cf_evidence r = cf_evidence (conflict_args w q new_claim e) \<and>
     cf_source_ref r = cf_source_ref (conflict_args w q new_claim e)"

definition with_conflicts :: "conflict_row list \<Rightarrow> store \<Rightarrow> store \<Rightarrow> bool" where
  "with_conflicts rows s s' \<longleftrightarrow>
     s' = put_conflicts (\<lambda>rs. rs @ rows) (s\<lparr>drawn := drawn s', ticks := ticks s'\<rparr>) \<and> drawn s \<le> drawn s'"

lemma rows_with_conflicts:
  "with_conflicts rows s s' \<Longrightarrow> conflict_rows (research s') = conflict_rows (research s) @ rows"
  unfolding with_conflicts_def
  by (drule conjunct1, erule ssubst) (simp add: put_defs)

lemma claims_with_conflicts: "with_conflicts rows s s' \<Longrightarrow> claim_rows s' = claim_rows s"
  unfolding with_conflicts_def by (drule conjunct1, erule ssubst) (simp add: put_defs)

lemma with_conflicts_refl: "with_conflicts [] s s"
  by (simp add: with_conflicts_def put_defs)

lemma with_conflicts_trans:
  assumes "with_conflicts r1 s s1" "with_conflicts r2 s1 s2"
  shows "with_conflicts (r1 @ r2) s s2"
  using assms unfolding with_conflicts_def put_defs
  by (cases s; cases s1; cases s2) (auto simp: o_def)

lemma detect_step_apply:
  "detect_step w q nc e created s =
     (if suspect w nc e \<and> \<not> known w (cm_claim_id nc) (cm_claim_id e) s
      then and_then (create_claim_conflict (conflict_args w q nc e)) (\<lambda>c. ret (created @ [cf_conflict_id c])) s
      else (Inr created, s))"
  by (auto simp: detect_step_def suspect_def and_then_def has_unresolved_conflict_apply proc_simps)

lemma detect_step_records:
  assumes "unused ''claimconf'' (conflict_ids s) s" "suspect w nc e"
    and "\<not> known w (cm_claim_id nc) (cm_claim_id e) s"
  obtains r s1 where "detect_step w q nc e created s = (Inr (created @ [cf_conflict_id r]), s1)"
    and "with_conflicts [r] s s1" and "recorded w q nc e r" and "unused ''claimconf'' (conflict_ids s1) s1"
proof -
  obtain r where c: "create_claim_conflict (conflict_args w q nc e) s =
      (Inr r, put_conflicts (\<lambda>rs. rs @ [r]) (s\<lparr>drawn := Suc (drawn s), ticks := Suc (ticks s)\<rparr>))"
    and r: "r = (conflict_args w q nc e)
      \<lparr>cf_conflict_id := ''claimconf_'' @ hex_supply s (drawn s), cf_decision_note := None,
       cf_resolved_request_id := None, cf_created_at := clock s (ticks s), cf_updated_at := clock s (ticks s)\<rparr>"
    by (rule create_claim_conflict_fresh [OF assms(1)])
  let ?s1 = "put_conflicts (\<lambda>rs. rs @ [r]) (s\<lparr>drawn := Suc (drawn s), ticks := Suc (ticks s)\<rparr>)"
  show thesis
  proof (rule that)
    show "detect_step w q nc e created s = (Inr (created @ [cf_conflict_id r]), ?s1)"
      using assms(2,3) by (simp add: detect_step_apply and_then_def c proc_simps)
    show "with_conflicts [r] s ?s1" by (simp add: with_conflicts_def put_defs)
    show "recorded w q nc e r" by (simp add: recorded_def open_conflict_def r conflict_args_def)
    have "conflict_ids ?s1 = insert (''claimconf'' @ ''_'' @ hex_supply s (drawn s)) (conflict_ids s)"
      by (simp add: conflict_ids_def put_defs r)
    moreover have "unused ''claimconf'' (insert (''claimconf'' @ ''_'' @ hex_supply s (drawn s)) (conflict_ids s)) ?s1"
      by (rule unused_insert [OF assms(1)]) (simp_all add: put_defs)
    ultimately show "unused ''claimconf'' (conflict_ids ?s1) ?s1" by simp
  qed
qed

lemma known_with_conflicts:
  assumes "with_conflicts [r] s s1" "recorded w q nc e r" "cm_claim_id e' \<noteq> cm_claim_id e"
  shows "known w (cm_claim_id nc) (cm_claim_id e') s1 = known w (cm_claim_id nc) (cm_claim_id e') s"
  using assms by (auto simp: known_def rows_with_conflicts recorded_def open_conflict_def)

definition contradicted :: "string \<Rightarrow> claim_row \<Rightarrow> claim_row list \<Rightarrow> store \<Rightarrow> claim_row list" where
  "contradicted w nc es s =
     filter (\<lambda>e. suspect w nc e \<and> \<not> known w (cm_claim_id nc) (cm_claim_id e) s) es"

lemma detect_loop:
  assumes "unused ''claimconf'' (conflict_ids s) s" "distinct (map cm_claim_id es)"
  shows "\<exists>rows s'. fold_proc (detect_step w q nc) es created s = (Inr (created @ map cf_conflict_id rows), s') \<and>
    with_conflicts rows s s' \<and> list_all2 (recorded w q nc) (contradicted w nc es s) rows"
  using assms
proof (induction es arbitrary: created s)
  case Nil
  show ?case
    by (intro exI [of _ "[]"] exI [of _ s]) (simp add: proc_simps with_conflicts_refl contradicted_def)
next
  case (Cons e es)
  show ?case
  proof (cases "suspect w nc e \<and> \<not> known w (cm_claim_id nc) (cm_claim_id e) s")
    case False
    then have "fold_proc (detect_step w q nc) (e # es) created s = fold_proc (detect_step w q nc) es created s"
      by (simp add: and_then_def detect_step_apply del: de_Morgan_conj)
    moreover have "contradicted w nc (e # es) s = contradicted w nc es s" using False by (auto simp: contradicted_def)
    ultimately show ?thesis using Cons.IH [OF Cons.prems(1)] Cons.prems(2) by simp
  next
    case True
    obtain r s1 where d: "detect_step w q nc e created s = (Inr (created @ [cf_conflict_id r]), s1)"
      and w: "with_conflicts [r] s s1" and r: "recorded w q nc e r"
      and u: "unused ''claimconf'' (conflict_ids s1) s1"
      using detect_step_records [OF Cons.prems(1)] True by metis
    obtain rows s' where i: "fold_proc (detect_step w q nc) es (created @ [cf_conflict_id r]) s1 =
        (Inr ((created @ [cf_conflict_id r]) @ map cf_conflict_id rows), s')"
      "with_conflicts rows s1 s'" "list_all2 (recorded w q nc) (contradicted w nc es s1) rows"
      using Cons.IH [OF u] Cons.prems(2) by fastforce
    have "known w (cm_claim_id nc) (cm_claim_id x) s1 = known w (cm_claim_id nc) (cm_claim_id x) s"
      if "x \<in> set es" for x
      using that Cons.prems(2) by (intro known_with_conflicts [OF w r]) (metis distinct.simps(2) image_eqI list.set_map list.simps(9))
    then have "contradicted w nc es s1 = contradicted w nc es s"
      unfolding contradicted_def by (intro filter_cong) auto
    then have "list_all2 (recorded w q nc) (contradicted w nc (e # es) s) (r # rows)"
      using True r i(3) by (simp add: contradicted_def)
    moreover have "fold_proc (detect_step w q nc) (e # es) created s =
        (Inr (created @ map cf_conflict_id (r # rows)), s')"
      using i(1) by (simp add: and_then_def d)
    ultimately show ?thesis using with_conflicts_trans [OF w i(2)] by (metis append_Cons append_Nil)
  qed
qed

text \<open>
  C15: Detecting the conflicts of a claim. If the claim is in the workspace, the claims it is compared
  with have different ids and the ids drawn for conflicts are new, the detection returns. It adds to
  the table of conflicts, in the order of the claims, one open conflict for every claim of the
  workspace that looks contradictory and has no open conflict with the new one yet, returns the ids of
  these rows and changes no other row of the store. Afterwards every contradictory claim has an open
  conflict, and a second detection records nothing.
\<close>

theorem detect_for_claim_records_contradictions:
  assumes "select_key cm_claim_id i (claim_rows s) = Some nc" "cm_workspace_id nc = w"
    and "distinct (map cm_claim_id cs)" "unused ''claimconf'' (conflict_ids s) s"
  shows "\<exists>rows s'. detect_for_claim w i ids q (Some cs) s = (Inr (map cf_conflict_id rows), s') \<and>
    with_conflicts rows s s' \<and> list_all2 (recorded w q nc) (contradicted w nc cs s) rows \<and>
    (\<forall>e \<in> set cs. suspect w nc e \<longrightarrow> known w i (cm_claim_id e) s') \<and>
    detect_for_claim w i ids q' (Some cs) s' = (Inr [], s')"
proof -
  have i: "cm_claim_id nc = i" using select_key_Some [OF assms(1)] by simp
  have run: "detect_for_claim w i ids q (Some cs) t = fold_proc (detect_step w q nc) cs [] t"
    if "claim_rows t = claim_rows s" for q t
    using assms(1,2) that by (simp add: detect_for_claim_def get_claim_def and_then_def proc_simps)
  obtain rows s' where d: "fold_proc (detect_step w q nc) cs [] s = (Inr (map cf_conflict_id rows), s')"
    "with_conflicts rows s s'" "list_all2 (recorded w q nc) (contradicted w nc cs s) rows"
    using detect_loop [OF assms(4,3), of w q nc "[]"] by auto
  have k: "known w i (cm_claim_id e) s'" if e: "e \<in> set cs" "suspect w nc e" for e
  proof (cases "known w i (cm_claim_id e) s")
    case True
    then show ?thesis by (auto simp: known_def rows_with_conflicts [OF d(2)])
  next
    case False
    then have "e \<in> set (contradicted w nc cs s)" using e i by (simp add: contradicted_def)
    then obtain r where "r \<in> set rows" "recorded w q nc e r"
      using d(3) by (metis in_set_conv_nth list_all2_conv_all_nth)
    then show ?thesis by (auto simp: known_def rows_with_conflicts [OF d(2)] recorded_def i)
  qed
  have step: "detect_step w q' nc e [] s' = (Inr [], s')" if "e \<in> set cs" for e
    using k [OF that] i by (auto simp: detect_step_apply)
  have "fold_proc (detect_step w q' nc) cs' [] s' = (Inr [], s')" if "set cs' \<subseteq> set cs" for cs'
    using that by (induction cs') (simp_all add: and_then_def step proc_simps)
  moreover have "claim_rows s' = claim_rows s"
    by (rule claims_with_conflicts [OF d(2)])
  ultimately have "detect_for_claim w i ids q' (Some cs) s' = (Inr [], s')" using run [of s' q'] by simp
  moreover have "detect_for_claim w i ids q (Some cs) s = (Inr (map cf_conflict_id rows), s')"
    using run [of s q] d(1) by simp
  ultimately show ?thesis using d(2,3) k by (intro exI [of _ rows] exI [of _ s']) blast
qed

text \<open>Two claims of which the second says the opposite of the first.\<close>

definition sample_claim :: "string \<Rightarrow> string \<Rightarrow> string \<Rightarrow> claim_row" where
  "sample_claim i w txt =
     \<lparr>cm_claim_id = i, cm_workspace_id = w, cm_source_id = ''src'', cm_candidate_id = i,
      cm_claim_type = ''evidence'', cm_semantic_type = None, cm_text = txt, cm_normalized_text = txt,
      cm_quote = None, cm_source_span = [], cm_trace_refs = [], cm_status = ''confirmed'',
      cm_created_at = 0, cm_updated_at = 0\<rparr>"

definition two_claims :: store where
  "two_claims = empty_store
     \<lparr>claim_rows := [sample_claim ''c1'' ''w'' ''dose rises'', sample_claim ''c2'' ''w'' ''dose does not rises'']\<rparr>"

lemma two_claims_suspect:
  "suspect ''w'' (sample_claim ''c2'' ''w'' ''dose does not rises'') (sample_claim ''c1'' ''w'' ''dose rises'')"
proof -
  have "polarity_tokens ''dose does not rises'' = (True, [''dose'', ''rise''])"
    and "polarity_tokens ''dose rises'' = (False, [''dose'', ''rise''])" by code_simp+
  moreover have "\<not> has_antonym_pair [''dose'', ''rise''] [''dose'', ''rise'']" by code_simp
  moreover have "overlap [''dose'', ''rise''] [''dose'', ''rise''] = 1" by (simp add: overlap_def meet_def)
  ultimately have "looks_contradictory ''dose does not rises'' ''dose rises''"
    by (simp add: looks_contradictory_def fl_le_1)
  then show ?thesis by (simp add: suspect_def sample_claim_def)
qed

theorem detect_for_claim_records_contradictions_witness:
  "\<exists>r s'. detect_for_claim ''w'' ''c2'' [] ''q'' (Some [sample_claim ''c1'' ''w'' ''dose rises'']) two_claims =
     (Inr [cf_conflict_id r], s') \<and> conflict_rows (research s') = [r] \<and>
     recorded ''w'' ''q'' (sample_claim ''c2'' ''w'' ''dose does not rises'') (sample_claim ''c1'' ''w'' ''dose rises'') r"
proof -
  let ?nc = "sample_claim ''c2'' ''w'' ''dose does not rises''" and ?e = "sample_claim ''c1'' ''w'' ''dose rises''"
  have c: "contradicted ''w'' ?nc [?e] two_claims = [?e]"
    using two_claims_suspect by (simp add: contradicted_def known_def two_claims_def empty_store_def)
  have pre: "select_key cm_claim_id ''c2'' (claim_rows two_claims) = Some ?nc" "cm_workspace_id ?nc = ''w''"
    "distinct (map cm_claim_id [?e])" "unused ''claimconf'' (conflict_ids two_claims) two_claims"
    by (simp_all add: two_claims_def sample_claim_def empty_store_def unused_def conflict_ids_def inj_unary)
  obtain rows s' where d: "detect_for_claim ''w'' ''c2'' [] ''q'' (Some [?e]) two_claims =
      (Inr (map cf_conflict_id rows), s')" "with_conflicts rows two_claims s'"
    "list_all2 (recorded ''w'' ''q'' ?nc) [?e] rows"
    using detect_for_claim_records_contradictions [OF pre, of "[]" "''q''" "''q''"] unfolding c by blast
  then obtain r where "rows = [r]" "recorded ''w'' ''q'' ?nc ?e r" by (auto simp: list_all2_Cons1)
  then show ?thesis
    using d(1) rows_with_conflicts [OF d(2)] by (auto simp: two_claims_def empty_store_def)
qed

end
