(* ===== verification/CandidateConfirmationProps.thy ===== *)
theory CandidateConfirmationProps
  imports CandidateConfirmation ClaimConflictProps
begin

text \<open>
  The properties of \<^verbatim>\<open>CandidateConfirmationService\<close>: a refused confirmation changes nothing but
  the log, a confirmation of a candidate that is in order returns, and what it publishes.
\<close>

section \<open>Entering\<close>

lemma load_candidate_Inr:
  "load_candidate w i s = (Inr c, s') \<longleftrightarrow>
     s' = s \<and> select_key cn_candidate_id i (candidate_rows (research s)) = Some c \<and> cn_workspace_id c = w"
  by (auto simp: load_candidate_def get_candidate_def and_then_def proc_simps split: option.splits if_splits)

lemma load_candidate_state: "load_candidate w i s = (r, s') \<Longrightarrow> s' = s"
  by (auto simp: load_candidate_def get_candidate_def and_then_def proc_simps split: option.splits if_splits)

lemma ensure_pending_apply:
  "ensure_pending c a s = (if cn_status c = ''pending'' then Inr () else
     Inl (ServiceError 409 ''research.invalid_state''
         (''candidate cannot be '' @ a @ ''ed in current status'')
         [(''candidate_id'', VStr (cn_candidate_id c)), (''status'', VStr (cn_status c))]), s)"
  by (simp add: ensure_pending_def proc_simps)

definition duplicate_of :: "string \<Rightarrow> string \<Rightarrow> store \<Rightarrow> (string \<times> string) option" where
  "duplicate_of w t s = (case find_confirmed_object_by_normalized_text w t s of (Inr x, _) \<Rightarrow> x | _ \<Rightarrow> None)"

lemma find_confirmed_apply:
  "find_confirmed_object_by_normalized_text w t s = (Inr (duplicate_of w t s), s)"
  by (simp add: duplicate_of_def find_confirmed_object_by_normalized_text_def proc_simps)

lemma duplicate_of_None:
  "duplicate_of w t s = None \<longleftrightarrow>
     (\<forall>r \<in> set (object_rows s). ob_object_type r \<in> set object_tables \<longrightarrow>
        \<not> (ob_workspace_id r = w \<and> ob_normalized_text r = t))"
proof -
  define hits where "hits = concat (map (\<lambda>ty. filter (\<lambda>r. ob_object_type r = ty \<and> ob_workspace_id r = w \<and>
               ob_normalized_text r = t) (object_rows s)) object_tables)"
  have "duplicate_of w t s = (case hits of [] \<Rightarrow> None | r # _ \<Rightarrow> Some (ob_object_type r, ob_object_id r))"
    by (simp add: duplicate_of_def find_confirmed_object_by_normalized_text_def proc_simps Let_def hits_def)
  then have "duplicate_of w t s = None \<longleftrightarrow> hits = []" by (cases hits) simp_all
  also have "\<dots> \<longleftrightarrow> (\<forall>r \<in> set (object_rows s). ob_object_type r \<in> set object_tables \<longrightarrow>
        \<not> (ob_workspace_id r = w \<and> ob_normalized_text r = t))"
    unfolding hits_def by (auto simp: concat_eq_Nil_conv filter_empty_conv)
  finally show ?thesis .
qed

section \<open>The transaction without its note\<close>

text \<open>\<open>plain m b\<close>: on the store, \<open>m\<close> does what \<open>b\<close> does.\<close>

definition plain :: "('n, 'a) noted_proc \<Rightarrow> 'a store_proc \<Rightarrow> bool" where
  "plain m b \<longleftrightarrow> (\<forall>s n. \<exists>n'. m (s, n) = (fst (b s), (snd (b s), n')))"

lemma plain_on_store: "plain (on_store m) m"
  by (simp add: plain_def on_store_def split: prod.split)

lemma plain_set_note: "plain (set_note x) (ret ())"
  by (simp add: plain_def set_note_def proc_simps)

lemma plain_check: "plain (check e b) (check e b)"
  by (simp add: plain_def proc_simps)

lemma plain_ret: "plain (ret a) (ret a)"
  by (simp add: plain_def proc_simps)

lemma plain_and_then:
  assumes "plain m b" "\<And>a. plain (f a) (g a)"
  shows "plain (and_then m f) (and_then b g)"
  unfolding plain_def
proof (intro allI)
  fix s n
  obtain n1 where m: "m (s, n) = (fst (b s), (snd (b s), n1))" using assms(1) by (auto simp: plain_def)
  show "\<exists>n'. and_then m f (s, n) = (fst (and_then b g s), (snd (and_then b g s), n'))"
  proof (cases "fst (b s)")
    case (Inl e)
    then show ?thesis using m by (cases "b s") (simp add: and_then_def)
  next
    case (Inr a)
    obtain n2 where "f a (snd (b s), n1) = (fst (g a (snd (b s))), (snd (g a (snd (b s))), n2))"
      using assms(2) [of a] unfolding plain_def by blast
    then show ?thesis using m Inr by (cases "b s") (simp add: and_then_def)
  qed
qed

lemmas plain_intros = plain_on_store plain_set_note plain_check plain_ret plain_and_then

text \<open>The graph part and the whole, on the store.\<close>

definition graph_body ::
  "confirm_services \<Rightarrow> candidate_row \<Rightarrow> string \<Rightarrow> string \<Rightarrow> string \<Rightarrow> payload \<Rightarrow> string \<Rightarrow> graph_result store_proc"
where
  "graph_body sv c object_type object_id claim_id source_ref q =
     (let w = cn_workspace_id c in
        (and_then (confirm_node sv c object_type object_id claim_id source_ref) (\<lambda>(n, node_created).
         and_then (list_confirmed_objects w) (\<lambda>confirmed_objects.
         and_then (list_active_nodes w) (\<lambda>active_nodes.
         and_then (relations_of_batch w (cn_source_id c) c) (\<lambda>relations.
         and_then (materialize_resolved_relation_edges w (cn_source_id c) c) (\<lambda>edge_ids.
         and_then
           (anchor_edges c object_type object_id claim_id source_ref n relations
              (anchor_node confirmed_objects (cn_source_id c) (nd_node_id n) active_nodes) edge_ids)
           (\<lambda>edge_ids.
         publish_confirmation c object_type object_id claim_id q n node_created edge_ids))))))))"

definition confirm_body ::
  "confirm_services \<Rightarrow> candidate_row \<Rightarrow> string \<Rightarrow> string \<Rightarrow> string \<Rightarrow>
   (claim_row \<times> (string \<times> string) \<times> graph_result) store_proc"
where
  "confirm_body sv c w t q =
     and_then (create_claim_from_candidate c t) (\<lambda>claim.
     and_then (create_confirmed_object_from_candidate c t q) (\<lambda>obj.
     and_then (persist_evidence_refs_for_confirmation c (fst obj) (snd obj) q) (\<lambda>_.
     and_then (update_candidate_status (cn_candidate_id c) ''confirmed'' None) (\<lambda>_.
     and_then
       (confirm_event c w q ''candidate_confirmed'' ''confirm'' ''completed''
          [(''candidate_id'', VStr (cn_candidate_id c)),
           (''formal_object_type'', VStr (fst obj)),
           (''formal_object_id'', VStr (snd obj)), (''source_id'', VStr (cn_source_id c)),
           (''extraction_job_id'', opt_str (cn_extraction_job_id c))] [] None) (\<lambda>_.
     and_then
       (confirm_event c w q ''claim_created'' ''claim_create'' ''completed''
          [(''candidate_id'', VStr (cn_candidate_id c)), (''claim_id'', VStr (cm_claim_id claim)),
           (''claim_type'', VStr (cm_claim_type claim)), (''source_id'', VStr (cn_source_id c))] [] None) (\<lambda>_.
     and_then
       (check (ServiceError 409 ''research.graph_projection_blocked''
             ''candidate confirmation cannot project node without claim/source traceability''
             [(''candidate_id'', VStr (cn_candidate_id c)), (''claim_id'', VStr (cm_claim_id claim)),
              (''source_id'', VStr (cn_source_id c))])
          (confirm_source_ref (candidate_record c) (cm_claim_id claim) \<noteq> [])) (\<lambda>_.
     and_then
       (graph_body sv c (fst obj) (snd obj) (cm_claim_id claim)
          (confirm_source_ref (candidate_record c) (cm_claim_id claim)) q) (\<lambda>graph.
     ret (claim, obj, graph)))))))))"

lemma materialize_plain:
  "plain (materialize_graph_version sv c claim obj q)
     (and_then
       (check (ServiceError 409 ''research.graph_projection_blocked''
             ''candidate confirmation cannot project node without claim/source traceability''
             [(''candidate_id'', VStr (cn_candidate_id c)), (''claim_id'', VStr (cm_claim_id claim)),
              (''source_id'', VStr (cn_source_id c))])
          (confirm_source_ref (candidate_record c) (cm_claim_id claim) \<noteq> [])) (\<lambda>_.
        graph_body sv c (fst obj) (snd obj) (cm_claim_id claim)
          (confirm_source_ref (candidate_record c) (cm_claim_id claim)) q))"
  by (cases obj)
    (auto simp: materialize_graph_version_def require_graph_traceability_def graph_body_def Let_def
      and_then_def plain_def proc_simps on_store_def split: prod.split sum.split)

lemma confirm_txn_plain: "plain (confirm_txn sv c w t q) (confirm_body sv c w t q)"
proof -
  have skip: "and_then m (\<lambda>a. and_then (ret ()) (\<lambda>_. f a)) = and_then m f" for m :: "'x store_proc" and f :: "'x \<Rightarrow> 'y store_proc"
    by simp
  have assoc: "and_then (and_then m f) g = and_then m (\<lambda>a. and_then (f a) g)"
    for m :: "'x store_proc" and f :: "'x \<Rightarrow> 'y store_proc" and g :: "'y \<Rightarrow> 'z store_proc"
    by (rule ext) (simp add: and_then_def split: prod.split sum.split)
  have "plain (confirm_txn sv c w t q)
    (and_then (create_claim_from_candidate c t) (\<lambda>claim.
     and_then (create_confirmed_object_from_candidate c t q) (\<lambda>obj.
     and_then (ret ()) (\<lambda>_. 
     and_then (persist_evidence_refs_for_confirmation c (fst obj) (snd obj) q) (\<lambda>_.
     and_then (update_candidate_status (cn_candidate_id c) ''confirmed'' None) (\<lambda>_.
     and_then
       (confirm_event c w q ''candidate_confirmed'' ''confirm'' ''completed''
          [(''candidate_id'', VStr (cn_candidate_id c)),
           (''formal_object_type'', VStr (fst obj)),
           (''formal_object_id'', VStr (snd obj)), (''source_id'', VStr (cn_source_id c)),
           (''extraction_job_id'', opt_str (cn_extraction_job_id c))] [] None) (\<lambda>_.
     and_then
       (confirm_event c w q ''claim_created'' ''claim_create'' ''completed''
          [(''candidate_id'', VStr (cn_candidate_id c)), (''claim_id'', VStr (cm_claim_id claim)),
           (''claim_type'', VStr (cm_claim_type claim)), (''source_id'', VStr (cn_source_id c))] [] None) (\<lambda>_.
     and_then
       (and_then
         (check (ServiceError 409 ''research.graph_projection_blocked''
             ''candidate confirmation cannot project node without claim/source traceability''
             [(''candidate_id'', VStr (cn_candidate_id c)), (''claim_id'', VStr (cm_claim_id claim)),
              (''source_id'', VStr (cn_source_id c))])
           (confirm_source_ref (candidate_record c) (cm_claim_id claim) \<noteq> [])) (\<lambda>_.
         graph_body sv c (fst obj) (snd obj) (cm_claim_id claim)
           (confirm_source_ref (candidate_record c) (cm_claim_id claim)) q)) (\<lambda>graph.
     ret (claim, obj, graph))))))))))"
    unfolding confirm_txn_def by (intro plain_intros materialize_plain)
  then show ?thesis unfolding confirm_body_def assoc by simp
qed

lemma report_never_returns: "report_failed_confirmation sv c w q obj e s \<noteq> (Inr x, s')"
  by (auto simp: report_failed_confirmation_def Let_def and_then_Inr_iff fail_apply)

lemma refuse_never_returns: "refuse_duplicate c w q o1 s \<noteq> (Inr x, s')"
  by (auto simp: refuse_duplicate_def Let_def and_then_Inr_iff fail_apply)

lemma confirm_in_transaction_Inr:
  assumes "confirm_in_transaction sv c w t q s = (Inr x, s')"
  shows "confirm_body sv c w t q s = (Inr x, s')"
proof -
  obtain n where p: "confirm_txn sv c w t q (s, None) =
      (fst (confirm_body sv c w t q s), (snd (confirm_body sv c w t q s), n))"
    using confirm_txn_plain [of sv c w t q] unfolding plain_def by blast
  show ?thesis
  proof (cases "confirm_body sv c w t q s")
    case (Pair r s1)
    then show ?thesis
      using assms p
      by (cases r)
        (auto simp: confirm_in_transaction_def run_in_transaction_def report_never_returns
          split: api_error.splits)
  qed
qed

lemma confirm_in_transaction_returns:
  "confirm_body sv c w t q s = (Inr x, s') \<Longrightarrow> confirm_in_transaction sv c w t q s = (Inr x, s')"
proof -
  assume b: "confirm_body sv c w t q s = (Inr x, s')"
  obtain n where "confirm_txn sv c w t q (s, None) = (Inr x, (s', n))"
    using confirm_txn_plain [of sv c w t q] b unfolding plain_def by (metis fst_conv snd_conv)
  then show ?thesis by (simp add: confirm_in_transaction_def run_in_transaction_def)
qed

section \<open>A refused confirmation\<close>

text \<open>\<open>logs es\<close>: nothing changes but the log, which gains the events \<open>es\<close>.\<close>

definition logs :: "event_row list \<Rightarrow> store \<Rightarrow> store \<Rightarrow> bool" where
  "logs es s s' \<longleftrightarrow>
     s' = s\<lparr>drawn := drawn s', ticks := ticks s', event_rows := event_rows s @ es\<rparr>"

lemma logs_Nil: "logs [] s s"
  by (simp add: logs_def)

lemma logs_rolled_back: "logs es (rolled_back s s1) s' \<Longrightarrow> logs es s s'"
  by (simp add: logs_def rolled_back_def)

lemma rolled_back_logs: "logs [] s (rolled_back s s1)"
  by (simp add: logs_def rolled_back_def)

lemma confirm_event_result:
  assumes "confirm_event c w q name st stat refs ms err s = (r, s')"
  shows "(\<exists>k. r = Inl (IntegrityError k)) \<or>
    r = Inr () \<and> (\<exists>e. logs [e] s s' \<and> evt_event_name e = name \<and> evt_workspace_id e = Some w \<and>
      evt_status e = stat)"
  using assms unfolding confirm_event_def
proof (cases rule: emit_event_cases)
  case (added e)
  then have "logs [e] s s'" by (simp add: logs_def)
  then show ?thesis using added by (auto simp: event_args_def)
qed simp

definition refusal_logged :: "string \<Rightarrow> store \<Rightarrow> store \<Rightarrow> bool" where
  "refusal_logged w s s' \<longleftrightarrow>
     (\<exists>es. logs es s s' \<and> length es \<le> 1 \<and>
        (\<forall>e \<in> set es. evt_event_name e = ''candidate_confirmation_failed'' \<and>
           evt_workspace_id e = Some w \<and> evt_status e = ''failed''))"

lemma refusal_logged_Nil: "logs [] s s' \<Longrightarrow> refusal_logged w s s'"
  unfolding refusal_logged_def by (intro exI [of _ "[]"]) simp

lemma refusal_logged_one:
  "logs [e] s s' \<Longrightarrow> evt_event_name e = ''candidate_confirmation_failed'' \<Longrightarrow> evt_workspace_id e = Some w \<Longrightarrow>
   evt_status e = ''failed'' \<Longrightarrow> refusal_logged w s s'"
  unfolding refusal_logged_def by (intro exI [of _ "[e]"]) simp

lemma refuse_duplicate_service:
  assumes "refuse_duplicate c w q o1 s = (Inl (ServiceError st code msg det), s')"
  shows "refusal_logged w s s'"
  using assms unfolding refuse_duplicate_def Let_def and_then_Inl_iff
  by (auto simp: proc_simps dest!: confirm_event_result intro: refusal_logged_one)

lemma confirm_in_transaction_service:
  assumes "confirm_in_transaction sv c w t q s = (Inl (ServiceError st code msg det), s')"
  shows "refusal_logged w s s'"
proof -
  obtain r s1 n1 where t: "confirm_txn sv c w t q (s, None) = (r, (s1, n1))"
    by (cases "confirm_txn sv c w t q (s, None)") auto
  have rep: "refusal_logged w s s'"
    if "report_failed_confirmation sv c w q n1 e (rolled_back s s1) = (Inl (ServiceError st code msg det), s')" for e
    using that unfolding report_failed_confirmation_def Let_def and_then_Inl_iff
    by (auto simp: proc_simps dest!: confirm_event_result dest: logs_rolled_back intro: refusal_logged_one)
  show ?thesis
    using assms t rep rolled_back_logs [of s s1]
    by (auto simp: confirm_in_transaction_def run_in_transaction_def refusal_logged_Nil
        split: sum.splits api_error.splits)
qed

lemma sync_memory_error: "sync_memory sv c w cl q s = (Inl e, s') \<Longrightarrow> \<exists>k. e = IntegrityError k"
  by (auto simp: sync_memory_def and_then_Inl_iff proc_simps dest: confirm_event_result
      split: prod.splits sum.splits)

lemma detect_best_effort_error:
  "detect_claim_conflicts_best_effort sv c w cl q s = (Inl e, s') \<Longrightarrow> \<exists>k. e = IntegrityError k"
  by (auto simp: detect_claim_conflicts_best_effort_def detection_event_def dest: confirm_event_result
      split: prod.splits sum.splits)

lemma confirm_error_cases:
  assumes "confirm sv w i q s = (Inl e, s')"
  shows "s' = s \<or> (\<exists>c. confirm_loaded sv c w q s = (Inl e, s'))"
  using assms unfolding confirm_def and_then_Inl_iff load_candidate_Inr
  by (auto simp: ensure_pending_apply dest: load_candidate_state)

text \<open>
  C9: A confirmation that the service refuses changes nothing. If \<open>confirm\<close> raises one of the
  service's own errors, whatever the reason (an unknown candidate, another workspace, a candidate that
  is not pending, a duplicate, a node without a source, or any exception inside the transaction, which
  is turned into such an error), every row of every table is as before; the log gains at most one
  event, which says that the confirmation failed. Nothing is assumed of the store or of the bridge to
  the memory.
\<close>

theorem confirm_refused_changes_nothing:
  assumes "confirm sv w i q s = (Inl (ServiceError st code msg det), s')"
  shows "\<exists>es. logs es s s' \<and> length es \<le> 1 \<and>
    (\<forall>e \<in> set es. evt_event_name e = ''candidate_confirmation_failed'' \<and>
       evt_workspace_id e = Some w \<and> evt_status e = ''failed'')"
  unfolding refusal_logged_def [symmetric]
proof -
  from assms consider "s' = s" | (loaded) c where "confirm_loaded sv c w q s = (Inl (ServiceError st code msg det), s')"
    using confirm_error_cases by blast
  then show "refusal_logged w s s'"
  proof cases
    case 1
    then show ?thesis using refusal_logged_Nil logs_Nil by blast
  next
    case loaded
    let ?t = "normalize_candidate_text (cn_text c)"
    show ?thesis
    proof (cases "duplicate_of w ?t s")
      case (Some o1)
      then have "refuse_duplicate c w q o1 s = (Inl (ServiceError st code msg det), s') \<or>
          (\<exists>s1. refuse_duplicate c w q o1 s = (Inr (), s1))"
        using loaded by (auto simp: confirm_loaded_def Let_def and_then_Inl_iff find_confirmed_apply)
      then show ?thesis using refuse_duplicate_service refuse_never_returns by metis
    next
      case None
      then show ?thesis
        using loaded
        by (auto simp: confirm_loaded_def Let_def and_then_Inl_iff find_confirmed_apply ret_apply
            dest: confirm_in_transaction_service sync_memory_error detect_best_effort_error)
    qed
  qed
qed

definition quiet_services :: confirm_services where
  "quiet_services =
     \<lparr>cs_unnamed_label = ''unnamed'', cs_error_text = (\<lambda>_. ''error''), cs_sync_claim = (\<lambda>_ _. ret ''linked'')\<rparr>"

theorem confirm_refused_changes_nothing_witness:
  "\<exists>es. logs es empty_store (snd (confirm quiet_services ''w'' ''a'' ''q'' empty_store)) \<and> length es \<le> 1 \<and>
    (\<forall>e \<in> set es. evt_event_name e = ''candidate_confirmation_failed'' \<and>
       evt_workspace_id e = Some ''w'' \<and> evt_status e = ''failed'')"
proof -
  have "confirm quiet_services ''w'' ''a'' ''q'' empty_store =
      (Inl (ServiceError 404 ''research.not_found'' ''candidate not found'' [(''candidate_id'', VStr ''a'')]),
       empty_store)"
    by (simp add: confirm_def load_candidate_def get_candidate_def and_then_def reading_apply require_apply
        empty_store_def)
  from confirm_refused_changes_nothing [OF this] this show ?thesis by simp
qed

end
