(* ===== verification/ConfirmationEffects.thy ===== *)
theory ConfirmationEffects
  imports CandidateConfirmationProps RecomputeProps
begin

text \<open>
  What the graph part of a confirmation does: it finds or adds the node of the object, adds edges
  between active nodes of the workspace, and publishes one version.
\<close>

section \<open>Active nodes\<close>

definition is_active :: "string \<Rightarrow> node_row \<Rightarrow> bool" where
  "is_active w n \<longleftrightarrow> nd_workspace_id n = w \<and> nd_status n \<in> set confirm_node_statuses"

definition active_ids :: "string \<Rightarrow> store \<Rightarrow> string set" where
  "active_ids w s = nd_node_id ` set (filter (is_active w) (node_rows s))"

definition active_count :: "string \<Rightarrow> store \<Rightarrow> nat" where
  "active_count w s = length (filter (is_active w) (node_rows s))"

definition active_edge_count :: "string \<Rightarrow> store \<Rightarrow> nat" where
  "active_edge_count w s =
     length (filter (\<lambda>e. eg_workspace_id e = w \<and> eg_status e \<in> set confirm_node_statuses) (edge_rows s))"

lemma list_active_nodes_apply:
  "list_active_nodes w s = (Inr (map node_view (filter (is_active w) (node_rows s))), s)"
proof -
  have "filter (\<lambda>n. nd_status n \<in> set confirm_node_statuses)
      (map node_view (filter (\<lambda>r. nd_workspace_id r = w) rs)) = map node_view (filter (is_active w) rs)" for rs
    by (induction rs) (auto simp: is_active_def)
  then show ?thesis by (simp add: list_active_nodes_def list_graph_nodes_def and_then_def proc_simps)
qed

lemma list_active_edges_apply:
  "list_active_edges w s = (Inr (filter (\<lambda>e. eg_workspace_id e = w \<and>
     eg_status e \<in> set confirm_node_statuses) (edge_rows s)), s)"
  by (simp add: list_active_edges_def list_graph_edges_def and_then_def proc_simps conj_commute)

lemma resolve_active_node_state:
  "resolve_active_node_by_object_ref w ty i s = (r, s') \<Longrightarrow> s' = s \<and> (\<exists>x. r = Inr x)"
  by (auto simp: resolve_active_node_by_object_ref_def and_then_def list_active_nodes_apply ret_apply)

lemma resolve_active_node_Some:
  assumes "resolve_active_node_by_object_ref w ty i s = (Inr (Some n), s')"
  shows "nd_node_id n \<in> active_ids w s \<and> nd_object_ref_type n = ty \<and> nd_object_ref_id n = i"
proof -
  let ?ms = "filter (\<lambda>n. nd_object_ref_type n = ty \<and> nd_object_ref_id n = i)
      (map node_view (filter (is_active w) (node_rows s)))"
  have "?ms \<noteq> []" "n = last ?ms"
    using assms
    by (auto simp: resolve_active_node_by_object_ref_def and_then_def list_active_nodes_apply ret_apply
        split: list.splits)
  then have "n \<in> set ?ms" using last_in_set by blast
  then show ?thesis by (auto simp: active_ids_def)
qed

section \<open>Edges\<close>

lemma find_graph_edge_by_ref_result:
  assumes "find_graph_edge_by_ref w a b ty rt ri s = (r, s')"
  shows "s' = s \<and> (\<exists>x. r = Inr x)"
  using assms
  by (auto simp: find_graph_edge_by_ref_def and_then_def reading_apply get_graph_edge_apply ret_apply
      split: option.splits)

definition joins :: "string \<Rightarrow> store \<Rightarrow> edge_row \<Rightarrow> bool" where
  "joins w s e \<longleftrightarrow> eg_workspace_id e = w \<and> eg_status e = ''active'' \<and>
     eg_source_node_id e \<noteq> eg_target_node_id e \<and>
     eg_source_node_id e \<in> active_ids w s \<and> eg_target_node_id e \<in> active_ids w s"

text \<open>From \<open>s0\<close>, only edges between its active nodes were added, whose ids are all in the list.\<close>

definition grown :: "string \<Rightarrow> store \<Rightarrow> string list \<Rightarrow> store \<Rightarrow> bool" where
  "grown w s0 ids s \<longleftrightarrow> (\<exists>es d t. s = s0\<lparr>drawn := d, ticks := t, edge_rows := edge_rows s0 @ es\<rparr> \<and>
     (\<forall>e \<in> set es. joins w s0 e \<and> eg_edge_id e \<in> set ids))"

lemma grown_refl: "grown w s ids s"
  unfolding grown_def by (intro exI [of _ "[]"] exI [of _ "drawn s"] exI [of _ "ticks s"]) simp

lemma grown_more: "grown w s0 ids s \<Longrightarrow> grown w s0 (ids @ js) s"
  unfolding grown_def by fastforce

lemma grown_active: "grown w s0 ids s \<Longrightarrow> active_ids v s = active_ids v s0"
  by (auto simp: grown_def active_ids_def)

lemma grown_add:
  assumes "grown w s0 ids s" "joins w s0 e"
  shows "grown w s0 (ids @ [eg_edge_id e])
    (s\<lparr>drawn := Suc (drawn s), ticks := Suc (ticks s), edge_rows := edge_rows s @ [e]\<rparr>)"
proof -
  obtain es d t where "s = s0\<lparr>drawn := d, ticks := t, edge_rows := edge_rows s0 @ es\<rparr>"
    "\<forall>e \<in> set es. joins w s0 e \<and> eg_edge_id e \<in> set ids"
    using assms(1) by (auto simp: grown_def)
  then show ?thesis
    unfolding grown_def using assms(2)
    by (intro exI [of _ "es @ [e]"] exI [of _ "Suc d"] exI [of _ "Suc t"]) auto
qed

lemma ensure_active_edge_result:
  assumes "ensure_active_edge w a b ty rt ri x c sref s = (Inr e, s')"
    and "grown w s0 ids s" "a \<noteq> b" "a \<in> active_ids w s0" "b \<in> active_ids w s0"
  shows "grown w s0 (ids @ [eg_edge_id e]) s'"
proof -
  obtain f where f: "find_graph_edge_by_ref w a b ty rt ri s = (Inr f, s)"
    using find_graph_edge_by_ref_result by (metis surj_pair)
  let ?new = "and_then (create_graph_edge w a b ty rt ri x c (VDict sref) ''active'') (require NoneSubscript)"
  have "?new s = (Inr e, s') \<or> s' = s"
    using assms(1) by (auto simp: ensure_active_edge_def and_then_def f ret_apply split: option.splits if_splits)
  moreover have "grown w s0 (ids @ [eg_edge_id e]) s'" if new: "?new s = (Inr e, s')"
  proof -
    obtain r s1 where c: "create_graph_edge w a b ty rt ri x c (VDict sref) ''active'' s = (r, s1)"
      by (cases "create_graph_edge w a b ty rt ri x c (VDict sref) ''active'' s")
    from c show ?thesis
    proof (cases rule: create_graph_edge_cases)
      case (taken k)
      then show ?thesis using new c by (simp add: and_then_def)
    next
      case (created g)
      then have "g = e" "s' = s1" using new c by (auto simp: and_then_def require_apply)
      moreover have "joins w s0 g" using created assms(3-5) by (simp add: joins_def)
      ultimately show ?thesis using grown_add [OF assms(2)] created(2) by blast
    qed
  qed
  ultimately show ?thesis using assms(2) grown_more by blast
qed

lemma confirmed_object_state:
  "confirmed_object_by_candidate_id w i s = (r, s') \<Longrightarrow> s' = s \<and> (\<exists>x. r = Inr x)"
  by (auto simp: confirmed_object_by_candidate_id_def list_confirmed_objects_def and_then_def proc_simps)

lemma materialize_relation_grows:
  assumes "grown w s0 ids s" and "materialize_relation w i rel ids s = (Inr ids', s')"
  shows "grown w s0 ids' s'"
proof -
  obtain x y where obj:
      "confirmed_object_by_candidate_id w (opt_text (rl_source_candidate_id rel)) s = (Inr x, s)"
      "confirmed_object_by_candidate_id w (opt_text (rl_target_candidate_id rel)) s = (Inr y, s)"
    using confirmed_object_state by (metis surj_pair)
  show ?thesis
  proof (cases "ids' = ids \<and> s' = s")
    case True
    then show ?thesis using assms(1) by simp
  next
    case changed: False
    then obtain so ta where xy: "x = Some so" "y = Some ta"
      using assms(2) obj
      by (auto simp: materialize_relation_def Let_def and_then_def ret_apply split: if_splits option.splits)
    obtain a b where node:
      "resolve_active_node_by_object_ref w (ob_object_type so) (ob_object_id so) s = (Inr a, s)"
      "resolve_active_node_by_object_ref w (ob_object_type ta) (ob_object_id ta) s = (Inr b, s)"
      using resolve_active_node_state by (metis surj_pair)
    obtain sn tn where ab: "a = Some sn" "b = Some tn"
      using changed assms(2) obj xy node
      by (auto simp: materialize_relation_def Let_def and_then_def ret_apply split: if_splits option.splits)
    obtain e rt sref cl where "ensure_active_edge w (nd_node_id sn) (nd_node_id tn) rt ''relation_candidate''
        (rl_relation_candidate_id rel) (fl (9 / 10)) cl sref s = (Inr e, s')"
      and n: "nd_node_id sn \<noteq> nd_node_id tn" and ids': "ids' = ids @ [eg_edge_id e]"
      using changed assms(2) obj xy node ab
      by (auto simp: materialize_relation_def Let_def and_then_def ret_apply
          split: if_splits option.splits prod.splits sum.splits)
    then show ?thesis
      using ensure_active_edge_result [OF _ assms(1) n] grown_active [OF assms(1), of w]
        resolve_active_node_Some node ab by metis
  qed
qed

lemma materialize_resolved_relation_edges_grows:
  assumes "materialize_resolved_relation_edges w src c s = (Inr ids, s')"
  shows "grown w s ids s'"
proof -
  obtain rels where "fold_proc (materialize_relation w (cn_candidate_id c)) rels [] s = (Inr ids, s')"
    using assms
    by (auto simp: materialize_resolved_relation_edges_def relations_of_batch_def
        list_relation_candidates_def and_then_def reading_apply)
  then show ?thesis
    by (rule fold_proc_invariant [where P = "grown w s"]) (simp_all add: grown_refl materialize_relation_grows)
qed

section \<open>The node\<close>

lemma confirm_node_result:
  assumes "confirm_node sv c ty i cl sref s = (Inr (n, new), s')"
  obtains (found) "\<not> new" and "s' = s" and "nd_node_id n \<in> active_ids (cn_workspace_id c) s"
      and "nd_object_ref_type n = ty" and "nd_object_ref_id n = i"
  | (added) row where "new"
      and "s' = s\<lparr>drawn := Suc (drawn s), ticks := Suc (ticks s), node_rows := node_rows s @ [row]\<rparr>"
      and "nd_node_id n = nd_node_id row" and "is_active (cn_workspace_id c) row"
      and "nd_object_ref_type row = ty" and "nd_object_ref_id row = i"
proof -
  obtain x where x: "resolve_active_node_by_object_ref (cn_workspace_id c) ty i s = (Inr x, s)"
    using resolve_active_node_state by (metis surj_pair)
  show thesis
  proof (cases x)
    case (Some m)
    then have "m = n" "\<not> new" "s' = s" using assms x by (auto simp: confirm_node_def and_then_def ret_apply)
    then show thesis using resolve_active_node_Some x Some found by metis
  next
    case None
    let ?m = "create_graph_node (cn_workspace_id c) (node_type_for_object_type ty) ty i
        (confirm_short_label (cs_unnamed_label sv) (cn_text c)) (cn_text c)
        (build_short_tags c) ''workspace'' (map VDict (build_source_refs c cl)) (Some cl) (VDict sref) ''active''"
    obtain r s1 where m: "?m s = (r, s1)" by (cases "?m s")
    then show thesis
    proof (cases rule: create_graph_node_cases)
      case (taken e)
      then show thesis using assms x None m by (simp add: confirm_node_def and_then_def)
    next
      case (created row)
      then have n: "n = node_view row" "new" "s' = s1"
        using assms x None m by (auto simp: confirm_node_def and_then_def ret_apply require_apply)
      show thesis
        by (rule added [of row]) (use created n in \<open>simp_all add: is_active_def confirm_node_statuses_def\<close>)
    qed
  qed
qed

end
