(* ===== verification/ConfirmationOutcome.thy ===== *)
theory ConfirmationOutcome
  imports ConfirmationEffects
begin

text \<open>
  What a confirmation that returns leaves behind, table by table, and that a confirmation of a
  candidate that is in order returns.
\<close>

section \<open>The published graph\<close>

lemma resolve_active_row:
  assumes "resolve_active_node_by_object_ref w ty i s = (Inr (Some n), s')"
  shows "\<exists>row \<in> set (node_rows s). is_active w row \<and> nd_node_id row = nd_node_id n \<and>
    nd_object_ref_type row = ty \<and> nd_object_ref_id row = i"
proof -
  let ?ms = "filter (\<lambda>n. nd_object_ref_type n = ty \<and> nd_object_ref_id n = i)
      (map node_view (filter (is_active w) (node_rows s)))"
  have "?ms \<noteq> []" "n = last ?ms"
    using assms
    by (auto simp: resolve_active_node_by_object_ref_def and_then_def list_active_nodes_apply ret_apply
        split: list.splits)
  then have "n \<in> set ?ms" using last_in_set by blast
  then show ?thesis by auto
qed

definition node_of :: "string \<Rightarrow> string \<Rightarrow> string \<Rightarrow> string \<Rightarrow> store \<Rightarrow> bool" where
  "node_of w ty i k s \<longleftrightarrow> (\<exists>row \<in> set (node_rows s). is_active w row \<and> nd_node_id row = k \<and>
     nd_object_ref_type row = ty \<and> nd_object_ref_id row = i)"

lemma confirm_node_row:
  assumes "confirm_node sv c ty i cl sref s = (Inr (n, new), s')"
  obtains ns d t where "s' = s\<lparr>drawn := d, ticks := t, node_rows := node_rows s @ ns\<rparr>"
    and "node_of (cn_workspace_id c) ty i (nd_node_id n) s'"
    and "map nd_node_id ns = (if new then [nd_node_id n] else [])"
    and "\<forall>m \<in> set ns. is_active (cn_workspace_id c) m"
  using assms
proof (cases rule: confirm_node_result)
  case found
  obtain x where x: "resolve_active_node_by_object_ref (cn_workspace_id c) ty i s = (Inr x, s)"
    using resolve_active_node_state by (metis surj_pair)
  then have "x = Some n"
    using assms found(1) by (cases x) (auto simp: confirm_node_def and_then_Inr_iff ret_apply)
  then show ?thesis
    using resolve_active_row x found
    by (intro that [where ns = "[]" and d = "drawn s" and t = "ticks s"]) (auto simp: node_of_def)
next
  case (added row)
  then show ?thesis by (intro that [where ns = "[row]"]) (auto simp: node_of_def)
qed

lemma node_of_active: "node_of w ty i k s \<Longrightarrow> k \<in> active_ids w s"
  by (auto simp: node_of_def active_ids_def)

lemma anchor_node_Some:
  assumes "anchor_node objs src k ns = Some a"
  shows "a \<in> set ns \<and> nd_node_id a \<noteq> k"
proof -
  define same where "same = filter (\<lambda>n. nd_node_id n \<noteq> k \<and>
      map_of (rev (map (\<lambda>r. (ob_object_id r, ob_source_id r)) objs)) (nd_object_ref_id n) = Some src) ns"
  have "anchor_node objs src k ns = (case find (\<lambda>n. nd_node_type n = ''evidence'') same of
           Some n \<Rightarrow> Some n
         | None \<Rightarrow> (case same of [] \<Rightarrow> None | n # _ \<Rightarrow> Some n))"
    unfolding anchor_node_def Let_def same_def by (rule HOL.refl)
  then have "find (\<lambda>n. nd_node_type n = ''evidence'') same = Some a \<or> (\<exists>rest. same = a # rest)"
    using assms by (auto split: option.splits list.splits)
  then have "a \<in> set same" by (auto simp: find_Some_iff)
  then show ?thesis by (simp add: same_def)
qed

lemma anchor_edges_grows:
  assumes "anchor_edges c ty i cl sref n rels anchor ids s = (Inr ids', s')"
    and "grown (cn_workspace_id c) s0 ids s" "nd_node_id n \<in> active_ids (cn_workspace_id c) s0"
    and "\<And>a. anchor = Some a \<Longrightarrow> nd_node_id a \<in> active_ids (cn_workspace_id c) s0"
  shows "grown (cn_workspace_id c) s0 ids' s'"
proof (cases "ids' = ids \<and> s' = s")
  case True
  then show ?thesis using assms(2) by simp
next
  case False
  then obtain a e where a: "anchor = Some a" "nd_node_id a \<noteq> nd_node_id n"
    and e: "ensure_active_edge (cn_workspace_id c) (nd_node_id a) (nd_node_id n)
        (edge_type_for_node_type (nd_node_type n)) ty i (fl (8 / 10)) (Some cl)
        (dict_put ''anchor_claim_id'' (opt_str (nd_claim_id a)) sref) s = (Inr e, s')"
    and ids': "ids' = ids @ [eg_edge_id e]"
    using assms(1)
    by (auto simp: anchor_edges_def ret_apply and_then_Inr_iff split: option.splits if_splits)
  show ?thesis
    unfolding ids' using ensure_active_edge_result [OF e assms(2) a(2)] assms(3,4) a(1) by simp
qed

definition workspace_points_to ::
  "string \<Rightarrow> string \<Rightarrow> store \<Rightarrow> bool"
where
  "workspace_points_to w v s \<longleftrightarrow> (\<exists>g. select_key ws_workspace_id w (workspace_rows s) = Some g \<and>
     ws_latest_version_id g = Some v \<and> ws_status g = ''ready'' \<and>
     ws_node_count g = int (active_count w s) \<and> ws_edge_count g = int (active_edge_count w s))"

lemma confirm_event_Inr:
  assumes "confirm_event c w q name st stat refs ms err s = (Inr x, s')"
  obtains e d t where "s' = s\<lparr>drawn := d, ticks := t, event_rows := event_rows s @ [e]\<rparr>"
    and "evt_workspace_id e = Some w" and "evt_event_name e = name"
  using confirm_event_result [OF assms] by (auto simp: logs_def)

definition version_published ::
  "candidate_row \<Rightarrow> string \<times> string \<Rightarrow> string \<Rightarrow> string \<Rightarrow> node_row list \<Rightarrow> graph_result \<Rightarrow> version_row \<Rightarrow> bool"
where
  "version_published c obj cl q ns g v \<longleftrightarrow>
     vs_version_id v = gs_version_id g \<and> vs_workspace_id v = cn_workspace_id c \<and>
     vs_trigger_type v = ''confirm_candidate'' \<and> vs_request_id v = Some q \<and>
     vs_diff_payload v =
       confirm_diff_payload c (fst obj) (snd obj) cl q (map nd_node_id ns) (gs_edge_ids g)"

lemma publish_confirmation_result:
  assumes "publish_confirmation c ty i cl q n new ids s = (Inr g, s')"
    and "map nd_node_id ns = (if new then [nd_node_id n] else [])"
  obtains v ws evs d t where
      "s' = s\<lparr>drawn := d, ticks := t, version_rows := version_rows s @ [v], workspace_rows := ws,
              event_rows := event_rows s @ evs\<rparr>"
    and "version_published c (ty, i) cl q ns g v"
    and "vs_version_id v \<notin> vs_version_id ` set (version_rows s)"
    and "workspace_points_to (cn_workspace_id c) (gs_version_id g) s'"
    and "gs_node_id g = nd_node_id n" and "gs_edge_ids g = ids"
    and "filter (\<lambda>r. ws_workspace_id r \<noteq> cn_workspace_id c) ws =
      filter (\<lambda>r. ws_workspace_id r \<noteq> cn_workspace_id c) (workspace_rows s)"
    and "\<forall>e \<in> set evs. evt_workspace_id e = Some (cn_workspace_id c)"
proof -
  let ?w = "cn_workspace_id c"
  let ?p = "confirm_diff_payload c ty i cl q (if new then [nd_node_id n] else []) ids"
  obtain r s1 where v0: "create_graph_version ?w ''confirm_candidate'' (''confirm candidate '' @ cn_candidate_id c)
      ?p (Some q) s = (r, s1)"
    by (cases "create_graph_version ?w ''confirm_candidate'' (''confirm candidate '' @ cn_candidate_id c)
      ?p (Some q) s")
  from v0 show thesis
  proof (cases rule: create_graph_version_cases)
    case (taken e)
    then show thesis using assms(1) v0 by (simp add: publish_confirmation_def Let_def and_then_def)
  next
    case (created v)
    define s2 where "s2 = snd (upsert_graph_workspace ?w (Some (vs_version_id v)) ''ready''
      (int (active_count ?w s1)) (int (active_edge_count ?w s1)) s1)"
    define gw where "gw = \<lparr>ws_workspace_id = ?w, ws_latest_version_id = Some (vs_version_id v),
      ws_status = ''ready'', ws_node_count = int (active_count ?w s1),
      ws_edge_count = int (active_edge_count ?w s1), ws_updated_at = clock s1 (ticks s1)\<rparr>"
    have s2: "s2 = s1\<lparr>ticks := Suc (ticks s1), workspace_rows := upserted gw (workspace_rows s1)\<rparr>"
      by (simp add: s2_def upsert_apply gw_def Let_def)
    have ns: "length (map node_view (filter (is_active ?w) (node_rows s1))) = active_count ?w s1"
      by (simp add: active_count_def)
    obtain s3 e1 e2 m1 m2 x1 x2 y1 y2 z1 z2 where
        a: "confirm_event c ?w q ''graph_materialization_completed'' x1 x2 m1 m2 None s2 = (Inr (), s3)"
      and b: "confirm_event c ?w q ''graph_version_created'' y1 y2 z1 z2 None s3 = (Inr (), s')"
      and g: "g = \<lparr>gs_node_id = nd_node_id n, gs_edge_ids = ids, gs_version_id = vs_version_id v,
           gs_node_count = active_count ?w s1, gs_edge_count = active_edge_count ?w s1\<rparr>"
      using assms(1) v0 created(1) ns
      by (auto simp: publish_confirmation_def Let_def and_then_Inr_iff require_apply ret_apply
          list_active_nodes_apply list_active_edges_apply active_edge_count_def upsert_apply s2 gw_def)
    obtain e1 d1 t1 where e1: "s3 = s2\<lparr>drawn := d1, ticks := t1, event_rows := event_rows s2 @ [e1]\<rparr>"
      "evt_workspace_id e1 = Some ?w" by (rule confirm_event_Inr [OF a])
    obtain e2 d2 t2 where e2: "s' = s3\<lparr>drawn := d2, ticks := t2, event_rows := event_rows s3 @ [e2]\<rparr>"
      "evt_workspace_id e2 = Some ?w" by (rule confirm_event_Inr [OF b])
    have s': "s' = s\<lparr>drawn := d2, ticks := t2, version_rows := version_rows s @ [v],
        workspace_rows := upserted gw (workspace_rows s), event_rows := event_rows s @ [e1, e2]\<rparr>"
      by (simp add: e1(1) e2(1) s2 created(2))
    have up: "select_key ws_workspace_id ?w (upserted gw (workspace_rows s)) = Some gw"
      using select_upserted [of gw "workspace_rows s"] by (simp add: gw_def)
    show thesis
    proof (rule that [OF s'])
      show "version_published c (ty, i) cl q ns g v"
        using created assms(2) by (simp add: version_published_def g)
      show "workspace_points_to ?w (gs_version_id g) s'"
        using up by (simp add: workspace_points_to_def s' g gw_def active_count_def active_edge_count_def created(2))
      show "filter (\<lambda>r. ws_workspace_id r \<noteq> ?w) (upserted gw (workspace_rows s)) =
          filter (\<lambda>r. ws_workspace_id r \<noteq> ?w) (workspace_rows s)"
        using filter_upserted [of gw "workspace_rows s"] by (simp add: gw_def)
    qed (use created e1(2) e2(2) g in auto)
  qed
qed

definition graph_outcome ::
  "candidate_row \<Rightarrow> string \<times> string \<Rightarrow> string \<Rightarrow> string \<Rightarrow> graph_result \<Rightarrow> store \<Rightarrow> node_row list \<Rightarrow> edge_row list \<Rightarrow>
   version_row \<Rightarrow> workspace_row list \<Rightarrow> store \<Rightarrow> bool"
where
  "graph_outcome c obj cl q g s ns es v ws s' \<longleftrightarrow>
     version_published c obj cl q ns g v \<and> vs_version_id v \<notin> vs_version_id ` set (version_rows s) \<and>
     workspace_points_to (cn_workspace_id c) (gs_version_id g) s' \<and>
     node_of (cn_workspace_id c) (fst obj) (snd obj) (gs_node_id g) s' \<and>
     length ns \<le> 1 \<and> (\<forall>n \<in> set ns. is_active (cn_workspace_id c) n \<and> nd_node_id n = gs_node_id g) \<and>
     (\<forall>e \<in> set es. joins (cn_workspace_id c) s' e \<and> eg_edge_id e \<in> set (gs_edge_ids g)) \<and>
     filter (\<lambda>r. ws_workspace_id r \<noteq> cn_workspace_id c) ws =
       filter (\<lambda>r. ws_workspace_id r \<noteq> cn_workspace_id c) (workspace_rows s)"

lemma graph_body_result:
  assumes "graph_body sv c ty i cl sref q s = (Inr g, s')"
  obtains ns es v ws evs d t where
      "s' = s\<lparr>drawn := d, ticks := t, node_rows := node_rows s @ ns, edge_rows := edge_rows s @ es,
              version_rows := version_rows s @ [v], workspace_rows := ws, event_rows := event_rows s @ evs\<rparr>"
    and "graph_outcome c (ty, i) cl q g s ns es v ws s'"
    and "\<forall>e \<in> set evs. evt_workspace_id e = Some (cn_workspace_id c)"
proof -
  let ?w = "cn_workspace_id c"
  obtain n new s1 where n: "confirm_node sv c ty i cl sref s = (Inr (n, new), s1)"
    using assms by (auto simp: graph_body_def Let_def and_then_Inr_iff)
  obtain objs rels ids1 s2 ids2 s3 where
      r: "materialize_resolved_relation_edges ?w (cn_source_id c) c s1 = (Inr ids1, s2)"
    and a: "anchor_edges c ty i cl sref n rels (anchor_node objs (cn_source_id c) (nd_node_id n)
        (map node_view (filter (is_active ?w) (node_rows s1)))) ids1 s2 = (Inr ids2, s3)"
    and p: "publish_confirmation c ty i cl q n new ids2 s3 = (Inr g, s')"
    using assms n
    by (auto simp: graph_body_def Let_def and_then_Inr_iff list_active_nodes_apply list_confirmed_objects_def
        relations_of_batch_def list_relation_candidates_def reading_apply)
  obtain ns d1 t1 where
      s1: "s1 = s\<lparr>drawn := d1, ticks := t1, node_rows := node_rows s @ ns\<rparr>"
    and node: "node_of ?w ty i (nd_node_id n) s1" and ids: "map nd_node_id ns = (if new then [nd_node_id n] else [])"
    and act: "\<forall>m \<in> set ns. is_active ?w m"
    by (rule confirm_node_row [OF n])
  have "grown ?w s1 ids2 s3"
    by (rule anchor_edges_grows [OF a materialize_resolved_relation_edges_grows [OF r] node_of_active [OF node]])
      (auto dest!: anchor_node_Some simp: active_ids_def)
  then obtain es d3 t3 where s3: "s3 = s1\<lparr>drawn := d3, ticks := t3, edge_rows := edge_rows s1 @ es\<rparr>"
    and es: "\<forall>e \<in> set es. joins ?w s1 e \<and> eg_edge_id e \<in> set ids2" by (auto simp: grown_def)
  obtain v ws evs d t where s': "s' = s3\<lparr>drawn := d, ticks := t, version_rows := version_rows s3 @ [v],
        workspace_rows := ws, event_rows := event_rows s3 @ evs\<rparr>"
    and v: "version_published c (ty, i) cl q ns g v" "vs_version_id v \<notin> vs_version_id ` set (version_rows s3)"
    and w: "workspace_points_to ?w (gs_version_id g) s'" "gs_node_id g = nd_node_id n" "gs_edge_ids g = ids2"
      "filter (\<lambda>r. ws_workspace_id r \<noteq> ?w) ws = filter (\<lambda>r. ws_workspace_id r \<noteq> ?w) (workspace_rows s3)"
    and ev: "\<forall>e \<in> set evs. evt_workspace_id e = Some ?w"
    by (rule publish_confirmation_result [OF p ids])
  show thesis
  proof (rule that [OF _ _ ev])
    show "s' = s\<lparr>drawn := d, ticks := t, node_rows := node_rows s @ ns, edge_rows := edge_rows s @ es,
              version_rows := version_rows s @ [v], workspace_rows := ws, event_rows := event_rows s @ evs\<rparr>"
      by (simp add: s' s3 s1)
    have same: "node_rows s' = node_rows s1" by (simp add: s' s3)
    have "length ns \<le> 1" using arg_cong [OF ids, of length] by (auto split: if_splits)
    moreover have "\<forall>m \<in> set ns. nd_node_id m = nd_node_id n"
      using arg_cong [OF ids, of set] by (auto split: if_splits)
    moreover have "joins ?w s' e" if "joins ?w s1 e" for e
      using that same by (simp add: joins_def active_ids_def)
    ultimately show "graph_outcome c (ty, i) cl q g s ns es v ws s'"
      using v w es act node same by (auto simp: graph_outcome_def node_of_def s3 s1)
  qed
qed

section \<open>The rows of a confirmation\<close>

lemma create_claim_Inr:
  assumes "create_claim args s = (Inr cl, s')"
  shows "s' = s\<lparr>drawn := Suc (drawn s), ticks := Suc (ticks s), claim_rows := claim_rows s @ [cl]\<rparr> \<and>
    cl = args\<lparr>cm_claim_id := ''claim_'' @ hex_supply s (drawn s), cm_created_at := clock s (ticks s),
              cm_updated_at := clock s (ticks s)\<rparr> \<and>
    cm_claim_id cl \<notin> cm_claim_id ` set (claim_rows s) \<and> cm_candidate_id args \<notin> cm_candidate_id ` set (claim_rows s)"
  using assms
  by (auto simp: create_claim_def get_claim_def and_then_def gen_id_def now_def check_apply insert_row_def
      reading_apply require_apply select_key_append select_key_fresh split: if_splits)

lemma create_object_Inr:
  assumes "create_confirmed_object_from_candidate c nt q s = (Inr obj, s')"
  obtains ob where "s' = s\<lparr>drawn := Suc (drawn s), ticks := Suc (ticks s), object_rows := object_rows s @ [ob]\<rparr>"
    and "ob = (object_args c nt q)\<lparr>ob_object_id := snd obj, ob_created_at := clock s (ticks s)\<rparr>"
    and "fst obj = cn_candidate_type c" and "cn_candidate_type c \<in> set object_tables"
    and "\<forall>r \<in> set (object_rows s). ob_object_type r = cn_candidate_type c \<longrightarrow>
          ob_object_id r \<noteq> snd obj \<and> ob_candidate_id r \<noteq> cn_candidate_id c"
  using assms
  by (auto simp: create_confirmed_object_from_candidate_def and_then_def gen_id_def now_def check_apply
      insert_object_def ret_apply list_ex_iff object_args_def split: if_splits)

definition evidence_of :: "candidate_row \<Rightarrow> string \<times> string \<Rightarrow> evidence_ref_row list \<Rightarrow> bool" where
  "evidence_of c obj rs \<longleftrightarrow> map er_layer rs = [''work'', ''fragment''] \<and>
     (\<forall>r \<in> set rs. er_workspace_id r = cn_workspace_id c \<and> er_source_id r = cn_source_id c \<and>
        er_object_type r = fst obj \<and> er_object_id r = snd obj \<and> er_confirmed_at r \<noteq> None)"

lemma create_evidence_ref_Inr:
  assumes "create_evidence_ref args s = (Inr r, s')"
  shows "s' = put_evidence_refs (\<lambda>rs. rs @ [r]) (s\<lparr>drawn := Suc (drawn s), ticks := Suc (ticks s)\<rparr>) \<and>
    (\<exists>i t. r = args\<lparr>er_ref_id := i, er_created_at := t\<rparr>)"
  using assms
  by (auto simp: create_evidence_ref_def get_evidence_ref_def and_then_def gen_id_def now_def insert_row_def
      reading_apply require_apply select_key_append select_key_fresh put_defs split: if_splits)

lemma draft_of_Inr:
  assumes "draft_of c ty i src = Inr d"
  shows "er_workspace_id d = cn_workspace_id c \<and> er_source_id d = cn_source_id c \<and> er_object_type d = ty \<and>
    er_object_id d = i \<and> er_layer d = ''work''"
  using assms by (auto simp: draft_of_def Let_def rbind_Inr_iff)

lemma persist_evidence_refs_Inr:
  assumes "persist_evidence_refs_for_confirmation c ty i q s = (Inr x, s')"
  obtains rs d t where "s' = put_evidence_refs (\<lambda>r. r @ rs) (s\<lparr>drawn := d, ticks := t\<rparr>)"
    and "evidence_of c (ty, i) rs"
proof -
  obtain src work where w: "draft_of c ty i src = Inr work"
    and f: "fold_proc persist_draft [work, fragment_of c q work] [] s = (Inr x, s')"
    using assms
    by (auto simp: persist_evidence_refs_for_confirmation_def and_then_Inr_iff get_source_def reading_apply
        require_apply lift_result_apply conversion_result_def split: option.splits sum.splits)
  let ?s1 = "s\<lparr>ticks := Suc (ticks s)\<rparr>"
  obtain r1 s2 where r1: "create_evidence_ref (work\<lparr>er_confirmed_at := Some (clock s (ticks s))\<rparr>) ?s1 = (Inr r1, s2)"
    and f2: "fold_proc persist_draft [fragment_of c q work] [r1] s2 = (Inr x, s')"
    using f by (auto simp: persist_draft_def and_then_Inr_iff now_def ret_apply)
  obtain r2 where r2: "create_evidence_ref ((fragment_of c q work)\<lparr>er_confirmed_at := Some (clock s2 (ticks s2))\<rparr>)
      (s2\<lparr>ticks := Suc (ticks s2)\<rparr>) = (Inr r2, s')"
    using f2 by (auto simp: persist_draft_def and_then_Inr_iff now_def ret_apply)
  have "s' = put_evidence_refs (\<lambda>r. r @ [r1, r2]) (s\<lparr>drawn := Suc (drawn s2), ticks := Suc (Suc (ticks s2))\<rparr>)"
    using create_evidence_ref_Inr [OF r1] create_evidence_ref_Inr [OF r2]
    by (cases s) (auto simp: put_defs o_def)
  moreover have "evidence_of c (ty, i) [r1, r2]"
    using create_evidence_ref_Inr [OF r1] create_evidence_ref_Inr [OF r2] draft_of_Inr [OF w]
    by (auto simp: evidence_of_def fragment_of_def)
  ultimately show thesis by (rule that)
qed

end
