(* ===== verification/ConfirmationReturns.thy ===== *)
theory ConfirmationReturns
  imports ConfirmationOutcome
begin

text \<open>
  A confirmation of a candidate that is in order returns: no statement of the transaction and of
  what follows it can fail when the ids that are still to be drawn are new.
\<close>

section \<open>The graph part\<close>

lemma list_confirmed_objects_never_raises: "never_raises (list_confirmed_objects w) (\<lambda>_. True)"
  by (simp add: list_confirmed_objects_def never_raises_reading)

lemma list_relation_candidates_never_raises: "never_raises (list_relation_candidates w a b c) (\<lambda>_. True)"
  by (simp add: list_relation_candidates_def never_raises_reading)

lemma list_active_nodes_never_raises: "never_raises (list_active_nodes w) (\<lambda>_. True)"
  and list_active_edges_never_raises: "never_raises (list_active_edges w) (\<lambda>_. True)"
  by (simp_all add: never_raises_def list_active_nodes_apply list_active_edges_apply)

lemma confirmed_object_never_raises: "never_raises (confirmed_object_by_candidate_id w i) (\<lambda>_. True)"
  unfolding never_raises_def using confirmed_object_state by (metis surj_pair)

lemma resolve_active_node_never_raises: "never_raises (resolve_active_node_by_object_ref w ty i) (\<lambda>_. True)"
  unfolding never_raises_def using resolve_active_node_state by (metis surj_pair)

lemma find_graph_edge_by_ref_never_raises: "never_raises (find_graph_edge_by_ref w a b ty rt ri) (\<lambda>_. True)"
  unfolding never_raises_def using find_graph_edge_by_ref_result by (metis surj_pair)

lemma confirm_event_never_raises: "never_raises (confirm_event c w q name st stat refs ms err) (\<lambda>_. True)"
  by (simp add: confirm_event_def emit_event_never_raises)

lemma ensure_active_edge_never_raises: "never_raises (ensure_active_edge w a b ty rt ri x c sref) (\<lambda>_. True)"
proof -
  have new: "never_raises (and_then (create_graph_edge w a b ty rt ri x c (VDict sref) ''active'')
      (require NoneSubscript)) (\<lambda>_. True)"
    by (rule never_raises_and_then [OF create_graph_edge_never_raises require_some_never_raises])
  show ?thesis
    unfolding ensure_active_edge_def
    by (rule never_raises_and_then [OF find_graph_edge_by_ref_never_raises])
      (auto split: option.split intro: new never_raises_ret)
qed

lemma materialize_relation_never_raises: "never_raises (materialize_relation w i rel ids) (\<lambda>_. True)"
  unfolding materialize_relation_def Let_def
  by (auto intro!: never_raises_ret never_raises_and_then [OF confirmed_object_never_raises]
      never_raises_and_then [OF resolve_active_node_never_raises]
      never_raises_and_then [OF ensure_active_edge_never_raises] split: option.split)

lemma materialize_edges_never_raises: "never_raises (materialize_resolved_relation_edges w src c) (\<lambda>_. True)"
  unfolding materialize_resolved_relation_edges_def relations_of_batch_def
  by (rule never_raises_and_then [OF list_relation_candidates_never_raises])
    (rule never_raises_fold [OF materialize_relation_never_raises])

lemma anchor_edges_never_raises: "never_raises (anchor_edges c ty i cl sref n rels anchor ids) (\<lambda>_. True)"
  unfolding anchor_edges_def
  by (auto intro!: never_raises_ret never_raises_and_then [OF ensure_active_edge_never_raises] split: option.split)

lemma confirm_node_never_raises: "never_raises (confirm_node sv c ty i cl sref) (\<lambda>_. True)"
  unfolding confirm_node_def
proof (rule never_raises_and_then [OF resolve_active_node_never_raises])
  fix found :: "node_row option"
  show "never_raises (case found of Some n \<Rightarrow> ret (n, False) | None \<Rightarrow>
         and_then
           (create_graph_node (cn_workspace_id c) (node_type_for_object_type ty) ty
              i (confirm_short_label (cs_unnamed_label sv) (cn_text c)) (cn_text c)
              (build_short_tags c) ''workspace'' (map VDict (build_source_refs c cl))
              (Some cl) (VDict sref) ''active'') (\<lambda>created.
         and_then (require NoneSubscript created) (\<lambda>n. ret (n, True)))) (\<lambda>_. True)"
    by (auto split: option.split intro!: never_raises_ret never_raises_and_then [OF create_graph_node_never_raises]
        never_raises_and_then [OF require_some_never_raises])
qed

lemma publish_confirmation_never_raises:
  "never_raises (publish_confirmation c ty i cl q n new ids) (\<lambda>_. True)"
  unfolding publish_confirmation_def Let_def
  by (intro never_raises_ret never_raises_and_then [OF create_graph_version_never_raises]
      never_raises_and_then [OF require_some_never_raises]
      never_raises_and_then [OF list_active_nodes_never_raises]
      never_raises_and_then [OF list_active_edges_never_raises]
      never_raises_and_then [OF upsert_graph_workspace_never_raises]
      never_raises_and_then [OF confirm_event_never_raises]) simp_all

lemma graph_body_never_raises: "never_raises (graph_body sv c ty i cl sref q) (\<lambda>_. True)"
  unfolding graph_body_def Let_def relations_of_batch_def
  by (rule never_raises_and_then [OF confirm_node_never_raises])
    (auto intro!: never_raises_and_then [OF list_confirmed_objects_never_raises]
      never_raises_and_then [OF list_active_nodes_never_raises]
      never_raises_and_then [OF list_relation_candidates_never_raises]
      never_raises_and_then [OF materialize_edges_never_raises]
      never_raises_and_then [OF anchor_edges_never_raises] publish_confirmation_never_raises)

section \<open>The rows\<close>

lemma create_claim_returns:
  assumes f: "fresh_ids s" and "cm_candidate_id args \<notin> cm_candidate_id ` set (claim_rows s)"
  obtains cl where "create_claim args s =
      (Inr cl, s\<lparr>drawn := Suc (drawn s), ticks := Suc (ticks s), claim_rows := claim_rows s @ [cl]\<rparr>)"
    and "cm_claim_id cl = ''claim_'' @ hex_supply s (drawn s)"
    and "fresh_ids (s\<lparr>drawn := Suc (drawn s), ticks := Suc (ticks s), claim_rows := claim_rows s @ [cl]\<rparr>)"
proof -
  have u: "unused ''claim'' (cm_claim_id ` set (claim_rows s)) s" using f by (simp add: fresh_ids_def)
  let ?cl = "args\<lparr>cm_claim_id := ''claim_'' @ hex_supply s (drawn s), cm_created_at := clock s (ticks s),
              cm_updated_at := clock s (ticks s)\<rparr>"
  let ?s = "s\<lparr>drawn := Suc (drawn s), ticks := Suc (ticks s), claim_rows := claim_rows s @ [?cl]\<rparr>"
  have "create_claim args s = (Inr ?cl, ?s)"
    using assms(2) unused_next [OF u]
    by (auto simp: create_claim_def get_claim_def and_then_def gen_id_def now_def check_apply insert_row_def
        reading_apply require_apply select_key_append select_key_fresh)
  moreover have "fresh_ids ?s"
    using f unused_insert [OF u, of ?s] by (auto simp: fresh_defs intro: unused_mono)
  ultimately show thesis by (intro that [of ?cl]) simp_all
qed

lemma create_object_returns:
  assumes f: "fresh_ids s" and "cn_candidate_type c \<in> set object_tables"
    and "\<forall>r \<in> set (object_rows s). ob_object_type r = cn_candidate_type c \<longrightarrow> ob_candidate_id r \<noteq> cn_candidate_id c"
  obtains obj s' where "create_confirmed_object_from_candidate c nt q s = (Inr obj, s')" "fresh_ids s'"
    and "research s' = research s" "claim_rows s' = claim_rows s"
proof -
  let ?ty = "cn_candidate_type c"
  have u: "unused (take 3 ?ty) (object_ids ?ty s) s" using f by (simp add: fresh_ids_def)
  define i where "i = take 3 ?ty @ ''_'' @ hex_supply s (drawn s)"
  have i: "take 3 ?ty @ CHR ''_'' # hex_supply s (drawn s) = i" by (simp add: i_def)
  define ob where "ob = (object_args c nt q)\<lparr>ob_object_id := i, ob_created_at := clock s (ticks s)\<rparr>"
  have ob: "ob_object_type ob = ?ty" "ob_object_id ob = i" "ob_candidate_id ob = cn_candidate_id c"
    by (simp_all add: ob_def object_args_def)
  let ?s = "s\<lparr>drawn := Suc (drawn s), ticks := Suc (ticks s), object_rows := object_rows s @ [ob]\<rparr>"
  have "i \<notin> object_ids ?ty s" unfolding i_def by (rule unused_next [OF u])
  then have "\<not> list_ex (\<lambda>q. ob_object_type q = ?ty \<and> (ob_object_id q = i \<or> ob_candidate_id q = cn_candidate_id c))
      (object_rows s)"
    using assms(3) by (auto simp: list_ex_iff object_ids_def)
  then have "insert_object ob (s\<lparr>drawn := Suc (drawn s), ticks := Suc (ticks s)\<rparr>) = (Inr (), ?s)"
    by (simp add: insert_object_def ob)
  then have run: "create_confirmed_object_from_candidate c nt q s = (Inr (?ty, i), ?s)"
    using assms(2)
    by (simp add: create_confirmed_object_from_candidate_def and_then_def gen_id_def now_def check_apply
        ret_apply i ob_def [symmetric])
  have "unused (take 3 ty) (object_ids ty ?s) ?s" for ty
  proof (cases "ty = ?ty")
    case True
    then show ?thesis
      using unused_insert [OF u, of ?s] by (simp add: object_ids_def ob i)
  next
    case False
    then have "object_ids ty ?s = object_ids ty s" using ob(1) by (simp add: object_ids_def)
    moreover have "unused (take 3 ty) (object_ids ty s) s" using f by (simp add: fresh_ids_def)
    ultimately show ?thesis by (simp add: unused_mono)
  qed
  moreover have "unused p K ?s" if "unused p K s" for p K using that by (rule unused_mono) simp_all
  ultimately have "fresh_ids ?s"
    using f unfolding fresh_ids_def conflict_ids_def by simp
  then show thesis using run by (intro that [of "(?ty, i)" ?s]) simp_all
qed

lemma create_evidence_ref_never_raises: "never_raises (create_evidence_ref args) (\<lambda>_. True)"
proof (rule never_raisesI)
  fix s assume f: "fresh_ids s"
  then have u: "unused ''eref'' (er_ref_id ` set (evidence_ref_rows (research s))) s" by (simp add: fresh_ids_def)
  let ?r = "args\<lparr>er_ref_id := ''eref_'' @ hex_supply s (drawn s), er_created_at := clock s (ticks s)\<rparr>"
  let ?s = "put_evidence_refs (\<lambda>rs. rs @ [?r]) (s\<lparr>drawn := Suc (drawn s), ticks := Suc (ticks s)\<rparr>)"
  have "create_evidence_ref args s = (Inr ?r, ?s)"
    using unused_next [OF u]
    by (auto simp: create_evidence_ref_def get_evidence_ref_def and_then_def gen_id_def now_def insert_row_def
        reading_apply require_apply select_key_append select_key_fresh put_defs)
  moreover have "fresh_ids ?s"
    using f unused_insert [OF u, of ?s] by (auto simp: fresh_defs put_defs intro: unused_mono)
  ultimately show "\<exists>a s'. create_evidence_ref args s = (Inr a, s') \<and> True \<and> fresh_ids s'" by blast
qed

lemma now_never_raises: "never_raises now (\<lambda>_. True)"
  by (simp add: never_raises_def now_def) (metis fresh_ids_tick)

lemma persist_draft_never_raises: "never_raises (persist_draft d acc) (\<lambda>_. True)"
  unfolding persist_draft_def
  by (intro never_raises_and_then [OF now_never_raises] never_raises_ret
      never_raises_and_then [OF create_evidence_ref_never_raises]) simp

lemma persist_evidence_refs_returns:
  assumes "fresh_ids s" "select_key so_source_id (cn_source_id c) (source_rows (research s)) = Some src"
    and "draft_of c ty i src = Inr work"
  obtains x s' where "persist_evidence_refs_for_confirmation c ty i q s = (Inr x, s')" "fresh_ids s'"
proof -
  obtain x s' where "fold_proc persist_draft [work, fragment_of c q work] [] s = (Inr x, s')" "fresh_ids s'"
    by (rule never_raisesE [OF never_raises_fold [OF persist_draft_never_raises] assms(1)])
  then show thesis
    using assms(2,3)
    by (intro that) (simp_all add: persist_evidence_refs_for_confirmation_def and_then_def get_source_def
        reading_apply require_apply lift_result_apply conversion_result_def)
qed

lemma update_candidate_status_never_raises: "never_raises (update_candidate_status i st x) (\<lambda>_. True)"
proof (rule never_raisesI)
  fix s assume "fresh_ids s"
  then have "fresh_ids (snd (update_candidate_status i st x s))"
    by (rule fresh_ids_step) (simp_all add: update_candidate_status_def writing_apply put_defs)
  then show "\<exists>a s'. update_candidate_status i st x s = (Inr a, s') \<and> True \<and> fresh_ids s'"
    by (simp add: update_candidate_status_def writing_apply)
qed

end
