(* ===== verification/ConfirmationRecords.thy ===== *)
theory ConfirmationRecords
  imports ConfirmationReturns
begin

text \<open>
  The outcome of a confirmation: either nothing but the log changes, or the claim, the object, the
  references, the node, the edges and one version are recorded.
\<close>

section \<open>What the transaction leaves\<close>

text \<open>
  \<open>claim_recorded\<close>: the claim, the object, the two references to the source and the new status of
  the candidate. \<open>cfs\<close> are the conflicts that the detection afterwards adds.
\<close>

definition confirmed_candidates :: "string \<Rightarrow> candidate_row list \<Rightarrow> candidate_row list" where
  "confirmed_candidates i =
     update_where (\<lambda>r. cn_candidate_id r = i) (\<lambda>r. r\<lparr>cn_status := ''confirmed'', cn_reject_reason := None\<rparr>)"

definition claim_recorded ::
  "candidate_row \<Rightarrow> string \<Rightarrow> claim_row \<Rightarrow> string \<times> string \<Rightarrow> conflict_row list \<Rightarrow> store \<Rightarrow> store \<Rightarrow> bool"
where
  "claim_recorded c q cl obj cfs s s' \<longleftrightarrow>
     (let nt = normalize_candidate_text (cn_text c) in
      cm_candidate_id cl \<notin> cm_candidate_id ` set (claim_rows s) \<and>
      claim_rows s' = claim_rows s @ [cl] \<and>
      cl = (claim_args c nt)\<lparr>cm_claim_id := cm_claim_id cl, cm_created_at := cm_created_at cl,
             cm_updated_at := cm_created_at cl\<rparr> \<and>
      fst obj = cn_candidate_type c \<and> fst obj \<in> set object_tables \<and>
      (\<exists>t. object_rows s' = object_rows s @ [(object_args c nt q)\<lparr>ob_object_id := snd obj, ob_created_at := t\<rparr>]) \<and>
      (\<exists>ers. evidence_of c obj ers \<and>
        research s' = (research s)
          \<lparr>candidate_rows := confirmed_candidates (cn_candidate_id c) (candidate_rows (research s)),
           evidence_ref_rows := evidence_ref_rows (research s) @ ers,
           conflict_rows := conflict_rows (research s) @ cfs\<rparr>))"

definition version_recorded ::
  "candidate_row \<Rightarrow> string \<Rightarrow> string \<Rightarrow> string \<times> string \<Rightarrow> graph_result \<Rightarrow> store \<Rightarrow> store \<Rightarrow> bool"
where
  "version_recorded c q i obj g s s' \<longleftrightarrow>
     (\<exists>ns es v. node_rows s' = node_rows s @ ns \<and> edge_rows s' = edge_rows s @ es \<and>
        version_rows s' = version_rows s @ [v] \<and>
        graph_outcome c obj i q g s ns es v (workspace_rows s') s') \<and>
     route_rows s' = route_rows s \<and> failure_rows s' = failure_rows s \<and> job_rows s' = job_rows s"

lemma confirm_body_result:
  assumes "confirm_body sv c w (normalize_candidate_text (cn_text c)) q s = (Inr (cl, obj, g), s')"
  shows "claim_recorded c q cl obj [] s s' \<and> version_recorded c q (cm_claim_id cl) obj g s s'"
proof -
  let ?nt = "normalize_candidate_text (cn_text c)"
  obtain x s1 s2 s3 s4 s5 s6 n1 a1 b1 r1 m1 n2 a2 b2 r2 m2 where
      c1: "create_claim (claim_args c ?nt) s = (Inr cl, s1)"
    and c2: "create_confirmed_object_from_candidate c ?nt q s1 = (Inr obj, s2)"
    and c3: "persist_evidence_refs_for_confirmation c (fst obj) (snd obj) q s2 = (Inr x, s3)"
    and c4: "update_candidate_status (cn_candidate_id c) ''confirmed'' None s3 = (Inr (), s4)"
    and c5: "confirm_event c w q n1 a1 b1 r1 m1 None s4 = (Inr (), s5)"
    and c6: "confirm_event c w q n2 a2 b2 r2 m2 None s5 = (Inr (), s6)"
    and c7: "graph_body sv c (fst obj) (snd obj) (cm_claim_id cl)
        (confirm_source_ref (candidate_record c) (cm_claim_id cl)) q s6 = (Inr g, s')"
    using assms
    unfolding confirm_body_def and_then_Inr_iff create_claim_from_candidate_def
    by (auto simp: ret_apply check_apply)
  note k1 = create_claim_Inr [OF c1]
  obtain ob where k2: "s2 = s1\<lparr>drawn := Suc (drawn s1), ticks := Suc (ticks s1), object_rows := object_rows s1 @ [ob]\<rparr>"
      "ob = (object_args c ?nt q)\<lparr>ob_object_id := snd obj, ob_created_at := clock s1 (ticks s1)\<rparr>"
      "fst obj = cn_candidate_type c" "cn_candidate_type c \<in> set object_tables"
    by (rule create_object_Inr [OF c2])
  obtain ers d3 t3 where k3: "s3 = put_evidence_refs (\<lambda>r. r @ ers) (s2\<lparr>drawn := d3, ticks := t3\<rparr>)"
      "evidence_of c (fst obj, snd obj) ers" by (rule persist_evidence_refs_Inr [OF c3])
  have k4: "s4 = put_candidates (confirmed_candidates (cn_candidate_id c)) s3"
    using c4 by (simp add: update_candidate_status_def writing_apply confirmed_candidates_def)
  obtain e5 d5 t5 where k5: "s5 = s4\<lparr>drawn := d5, ticks := t5, event_rows := event_rows s4 @ [e5]\<rparr>"
    by (rule confirm_event_Inr [OF c5])
  obtain e6 d6 t6 where k6: "s6 = s5\<lparr>drawn := d6, ticks := t6, event_rows := event_rows s5 @ [e6]\<rparr>"
    by (rule confirm_event_Inr [OF c6])
  obtain ns es v ws evs d7 t7 where
      k7: "s' = s6\<lparr>drawn := d7, ticks := t7, node_rows := node_rows s6 @ ns, edge_rows := edge_rows s6 @ es,
              version_rows := version_rows s6 @ [v], workspace_rows := ws, event_rows := event_rows s6 @ evs\<rparr>"
    and g: "graph_outcome c (fst obj, snd obj) (cm_claim_id cl) q g s6 ns es v ws s'"
    by (rule graph_body_result [OF c7])
  have s': "claim_rows s' = claim_rows s @ [cl]" "object_rows s' = object_rows s @ [ob]"
    "research s' = (research s)
          \<lparr>candidate_rows := confirmed_candidates (cn_candidate_id c) (candidate_rows (research s)),
           evidence_ref_rows := evidence_ref_rows (research s) @ ers\<rparr>"
    "node_rows s' = node_rows s @ ns" "edge_rows s' = edge_rows s @ es" "version_rows s' = version_rows s @ [v]"
    "workspace_rows s' = ws" "route_rows s' = route_rows s" "failure_rows s' = failure_rows s" "job_rows s' = job_rows s"
    using k1 by (simp_all add: k7 k6 k5 k4 k3(1) k2(1) put_defs)
  have old: "version_rows s6 = version_rows s" "workspace_rows s6 = workspace_rows s"
    using k1 by (simp_all add: k6 k5 k4 k3(1) k2(1) put_defs)
  have cl: "cl = (claim_args c ?nt)\<lparr>cm_claim_id := cm_claim_id cl, cm_created_at := cm_created_at cl,
      cm_updated_at := cm_created_at cl\<rparr>" "cm_candidate_id cl \<notin> cm_candidate_id ` set (claim_rows s)"
    using k1 by (simp, auto simp: claim_args_def)
  have "graph_outcome c obj (cm_claim_id cl) q g s ns es v ws s'"
    using g by (simp add: graph_outcome_def old)
  then have "version_recorded c q (cm_claim_id cl) obj g s s'"
    unfolding version_recorded_def s' by blast
  moreover have ev: "evidence_of c obj ers" using k3(2) by simp
  moreover have "claim_recorded c q cl obj [] s s'"
    unfolding claim_recorded_def Let_def
    using cl k2(2-4) ev s'(1-3) by (intro conjI) (auto intro!: exI [of _ ers])
  ultimately show ?thesis by blast
qed

section \<open>What follows the transaction\<close>

definition only_events :: "store \<Rightarrow> store \<Rightarrow> bool" where
  "only_events s s' \<longleftrightarrow> (\<exists>es. logs es s s')"

text \<open>Events and conflicts are added, nothing else.\<close>

definition only_conflicts :: "store \<Rightarrow> store \<Rightarrow> bool" where
  "only_conflicts s s' \<longleftrightarrow> (\<exists>cfs es d t. s' = put_conflicts (\<lambda>r. r @ cfs)
     (s\<lparr>drawn := d, ticks := t, event_rows := event_rows s @ es\<rparr>))"

lemma put_no_conflicts: "put_conflicts (\<lambda>r. r @ []) s = s"
  by (simp add: put_defs)

lemma only_conflicts_event: "only_events s s' \<Longrightarrow> only_conflicts s s'"
  unfolding only_events_def logs_def only_conflicts_def using put_no_conflicts by metis

interpretation later: evolution only_conflicts
proof unfold_locales
  show "only_conflicts s s" for s
    by (rule only_conflicts_event) (auto simp: only_events_def intro: logs_Nil)
  show "only_conflicts s s''" if "only_conflicts s s'" "only_conflicts s' s''" for s s' s''
  proof -
    from that obtain c1 e1 d1 t1 c2 e2 d2 t2 where
      "s' = put_conflicts (\<lambda>r. r @ c1) (s\<lparr>drawn := d1, ticks := t1, event_rows := event_rows s @ e1\<rparr>)"
      "s'' = put_conflicts (\<lambda>r. r @ c2) (s'\<lparr>drawn := d2, ticks := t2, event_rows := event_rows s' @ e2\<rparr>)"
      by (auto simp: only_conflicts_def)
    then have "s'' = put_conflicts (\<lambda>r. r @ (c1 @ c2))
        (s\<lparr>drawn := d2, ticks := t2, event_rows := event_rows s @ e1 @ e2\<rparr>)"
      by (cases s) (simp add: put_defs o_def)
    then show ?thesis unfolding only_conflicts_def by blast
  qed
qed

lemma emit_event_only: "only_events s (snd (emit_event args s))"
proof -
  obtain r s' where e: "emit_event args s = (r, s')" by (cases "emit_event args s")
  then have "\<exists>es. logs es s s'"
  proof (cases rule: emit_event_cases)
    case taken
    then have "logs [] s s'" by (simp add: logs_def)
    then show ?thesis by blast
  next
    case (added x)
    then have "logs [x] s s'" by (simp add: logs_def)
    then show ?thesis by blast
  qed
  then show ?thesis using e by (simp add: only_events_def)
qed

lemma only_events_iff:
  "only_events s s' \<longleftrightarrow> (\<exists>es d t. s' = s\<lparr>drawn := d, ticks := t, event_rows := event_rows s @ es\<rparr>)"
  unfolding only_events_def logs_def by fastforce

interpretation logging: evolution only_events
proof unfold_locales
  show "only_events s s" for s using logs_Nil unfolding only_events_def by blast
  show "only_events s s''" if "only_events s s'" "only_events s' s''" for s s' s''
    using that unfolding only_events_iff by fastforce
qed

lemma confirm_event_only: "always only_events (confirm_event c w q n st sta refs ms err)"
  by (simp add: always_def confirm_event_def emit_event_only)

lemma refuse_duplicate_only: "always only_events (refuse_duplicate c w q o1)"
  unfolding refuse_duplicate_def Let_def
  by (intro logging.always_and_then confirm_event_only logging.always_fail)

lemma report_failed_only: "always only_events (report_failed_confirmation sv c w q obj e)"
  unfolding report_failed_confirmation_def Let_def
  by (intro logging.always_and_then confirm_event_only logging.always_fail)

lemma emit_event_later: "always only_conflicts (emit_event args)"
  unfolding always_def using emit_event_only only_conflicts_event by blast

lemma create_claim_conflict_later: "always only_conflicts (create_claim_conflict args)"
  unfolding always_def
proof
  fix s :: store
  let ?i = "''claimconf_'' @ hex_supply s (drawn s)"
  let ?r = "args\<lparr>cf_conflict_id := ?i, cf_decision_note := None, cf_resolved_request_id := None,
              cf_created_at := clock s (ticks s), cf_updated_at := clock s (ticks s)\<rparr>"
  have "snd (create_claim_conflict args s) \<in>
      {put_conflicts (\<lambda>rs. rs @ []) (s\<lparr>drawn := Suc (drawn s), ticks := Suc (ticks s), event_rows := event_rows s @ []\<rparr>),
       put_conflicts (\<lambda>rs. rs @ [?r]) (s\<lparr>drawn := Suc (drawn s), ticks := Suc (ticks s), event_rows := event_rows s @ []\<rparr>)}"
    by (cases "?i \<in> cf_conflict_id ` set (conflict_rows (research s))")
      (auto simp: create_claim_conflict_def get_claim_conflict_def and_then_def gen_id_def now_def insert_row_def
        reading_apply require_apply select_key_append select_key_fresh put_defs)
  then show "only_conflicts s (snd (create_claim_conflict args s))" unfolding only_conflicts_def by blast
qed

lemma detect_step_later: "always only_conflicts (detect_step w q nc e created)"
proof -
  have "always only_conflicts (and_then (create_claim_conflict (conflict_args w q nc e))
      (\<lambda>c. ret (created @ [cf_conflict_id c])))"
    by (intro later.always_and_then create_claim_conflict_later later.always_ret)
  then show ?thesis using later.refl by (auto simp: detect_step_apply always_def)
qed

lemma confirm_event_later: "always only_conflicts (confirm_event c w q n st sta refs ms err)"
  by (simp add: confirm_event_def emit_event_later)

lemma detect_claim_conflicts_later: "always only_conflicts (detect_claim_conflicts c w cl q)"
  unfolding detect_claim_conflicts_def detect_for_claim_def get_claim_def detection_event_def
  by (intro later.always_and_then later.always_reading)
    (auto split: option.split intro!: later.always_ret later.always_and_then later.always_fold
      detect_step_later confirm_event_later)

lemma detect_best_effort_later: "only_conflicts s (snd (detect_claim_conflicts_best_effort sv c w cl q s))"
proof -
  obtain r s1 where d: "detect_claim_conflicts c w cl q s = (r, s1)" by (cases "detect_claim_conflicts c w cl q s")
  then have "only_conflicts s s1" using alwaysD_eq [OF detect_claim_conflicts_later] by blast
  then show ?thesis
    using d later.trans alwaysD [OF confirm_event_later]
    by (cases r) (auto simp: detect_claim_conflicts_best_effort_def detection_event_def)
qed

lemma sync_memory_later:
  assumes "\<And>cl q. always only_events (cs_sync_claim sv cl q)"
  shows "only_conflicts s (snd (sync_memory sv c w cl q s))"
proof -
  obtain r s1 where d: "cs_sync_claim sv cl q s = (r, s1)" by (cases "cs_sync_claim sv cl q s")
  then have "only_conflicts s s1" using alwaysD_eq [OF assms] only_conflicts_event by blast
  moreover have "only_conflicts s1 (snd (and_then (confirm_event c w q n st sta refs ms err) (\<lambda>_. ret x) s1))"
    for n st sta refs ms err and x :: string
    by (rule alwaysD) (intro later.always_and_then confirm_event_later later.always_ret)
  ultimately show ?thesis using d later.trans by (cases r) (auto simp: sync_memory_def)
qed

section \<open>The outcome of a confirmation\<close>

lemma claim_recorded_later:
  assumes "claim_recorded c q cl obj [] s s1" "only_conflicts s1 s'"
  shows "\<exists>cfs. claim_recorded c q cl obj cfs s s'"
proof -
  obtain cfs es d t where s': "s' = put_conflicts (\<lambda>r. r @ cfs)
      (s1\<lparr>drawn := d, ticks := t, event_rows := event_rows s1 @ es\<rparr>)"
    using assms(2) by (auto simp: only_conflicts_def)
  then have "claim_recorded c q cl obj cfs s s'"
    using assms(1) by (auto simp: claim_recorded_def Let_def put_defs)
  then show ?thesis by blast
qed

lemma version_recorded_later:
  assumes "version_recorded c q i obj g s s1" "only_conflicts s1 s'"
  shows "version_recorded c q i obj g s s'"
proof -
  obtain cfs es d t where s': "s' = put_conflicts (\<lambda>r. r @ cfs)
      (s1\<lparr>drawn := d, ticks := t, event_rows := event_rows s1 @ es\<rparr>)"
    using assms(2) by (auto simp: only_conflicts_def)
  have same: "node_rows s' = node_rows s1" "edge_rows s' = edge_rows s1" "version_rows s' = version_rows s1"
    "workspace_rows s' = workspace_rows s1" "route_rows s' = route_rows s1" "failure_rows s' = failure_rows s1"
    "job_rows s' = job_rows s1"
    by (simp_all add: s' put_defs)
  have "graph_outcome c obj i q g s ns es v ws s' = graph_outcome c obj i q g s ns es v ws s1" for ns es v ws
    by (simp add: graph_outcome_def workspace_points_to_def node_of_def joins_def active_ids_def active_count_def
        active_edge_count_def same)
  then show ?thesis using assms(1) by (simp add: version_recorded_def same)
qed

lemma rolled_back_events: "only_events (rolled_back s s1) s' \<Longrightarrow> only_events s s'"
  unfolding only_events_def using logs_rolled_back by blast

lemma confirm_in_transaction_error:
  assumes "confirm_in_transaction sv c w t q s = (Inl e, s')"
  shows "only_events s s'"
proof -
  obtain r s1 n1 where t: "confirm_txn sv c w t q (s, None) = (r, (s1, n1))"
    by (cases "confirm_txn sv c w t q (s, None)") auto
  have "only_events s s'" if "report_failed_confirmation sv c w q n1 e1 (rolled_back s s1) = (Inl e, s')" for e1
    using alwaysD_eq [OF report_failed_only that] by (rule rolled_back_events)
  then show ?thesis
    using assms t rolled_back_logs [of s s1]
    by (auto simp: confirm_in_transaction_def run_in_transaction_def only_events_def
        split: sum.splits api_error.splits)
qed

definition confirmed_now ::
  "string \<Rightarrow> string \<Rightarrow> string \<Rightarrow> claim_row \<Rightarrow> string \<times> string \<Rightarrow> graph_result \<Rightarrow> store \<Rightarrow> store \<Rightarrow> bool"
where
  "confirmed_now w i q cl obj g s s' \<longleftrightarrow>
     (\<exists>c cfs. select_key cn_candidate_id i (candidate_rows (research s)) = Some c \<and> cn_workspace_id c = w \<and>
        cn_status c = ''pending'' \<and> duplicate_of w (normalize_candidate_text (cn_text c)) s = None \<and>
        claim_recorded c q cl obj cfs s s' \<and> version_recorded c q (cm_claim_id cl) obj g s s')"

lemma confirm_loaded_outcome:
  assumes bridge: "\<And>cl q. always only_events (cs_sync_claim sv cl q)"
    and run: "confirm_loaded sv c w q s = (r, s')"
    and c: "select_key cn_candidate_id i (candidate_rows (research s)) = Some c" "cn_workspace_id c = w"
      "cn_status c = ''pending''"
  shows "(\<exists>e. r = Inl e) \<and> only_events s s' \<or>
    (\<exists>cl obj g. confirmed_now w i q cl obj g s s' \<and>
      (\<forall>x. r = Inr x \<longrightarrow> cr_claim_id x = cm_claim_id cl \<and>
         (cr_formal_object_type x, cr_formal_object_id x) = obj \<and> cr_graph_node_id x = gs_node_id g \<and>
         cr_graph_edge_ids x = gs_edge_ids g \<and> cr_graph_version_id x = gs_version_id g))"
proof -
  let ?t = "normalize_candidate_text (cn_text c)"
  show ?thesis
  proof (cases "duplicate_of w ?t s")
    case (Some o1)
    obtain e s1 where d: "refuse_duplicate c w q o1 s = (Inl e, s1)"
      using refuse_never_returns by (metis obj_sumE surj_pair)
    then have "r = Inl e" "s' = s1"
      using run Some by (auto simp: confirm_loaded_def Let_def and_then_def find_confirmed_apply)
    then show ?thesis using alwaysD_eq [OF refuse_duplicate_only d] by blast
  next
    case None
    obtain r1 s1 where t: "confirm_in_transaction sv c w ?t q s = (r1, s1)"
      by (cases "confirm_in_transaction sv c w ?t q s")
    show ?thesis
    proof (cases r1)
      case (Inl e)
      then have "r = Inl e" "s' = s1"
        using run t None by (auto simp: confirm_loaded_def Let_def and_then_def find_confirmed_apply ret_apply)
      then show ?thesis using confirm_in_transaction_error t Inl by blast
    next
      case (Inr y)
      obtain cl obj g where y: "y = (cl, obj, g)" by (cases y)
      note body = confirm_body_result [OF confirm_in_transaction_Inr [OF t [unfolded Inr y]]]
      let ?rest = "and_then (sync_memory sv c w cl q) (\<lambda>link_status.
          and_then (detect_claim_conflicts_best_effort sv c w cl q) (\<lambda>_.
          ret \<lparr>cr_candidate_id = cn_candidate_id c, cr_candidate_status = ''confirmed'',
           cr_claim_id = cm_claim_id cl, cr_claim_memory_sync_status = link_status,
           cr_formal_object_type = fst obj, cr_formal_object_id = snd obj,
           cr_graph_node_id = gs_node_id g, cr_graph_edge_ids = gs_edge_ids g,
           cr_graph_version_id = gs_version_id g\<rparr>))"
      have rest: "?rest s1 = (r, s')"
        using run t None y Inr by (simp add: confirm_loaded_def Let_def and_then_def find_confirmed_apply ret_apply)
      have "always only_conflicts ?rest"
        by (intro later.always_and_then later.always_ret)
          (simp_all add: always_def sync_memory_later [OF bridge] detect_best_effort_later)
      from alwaysD_eq [OF this rest] have l: "only_conflicts s1 s'" .
      obtain cfs where "claim_recorded c q cl obj cfs s s'" using claim_recorded_later body l by blast
      moreover have "version_recorded c q (cm_claim_id cl) obj g s s'" using version_recorded_later body l by blast
      ultimately have "confirmed_now w i q cl obj g s s'" unfolding confirmed_now_def using c None by blast
      moreover have "cr_claim_id x = cm_claim_id cl \<and>
         (cr_formal_object_type x, cr_formal_object_id x) = obj \<and> cr_graph_node_id x = gs_node_id g \<and>
         cr_graph_edge_ids x = gs_edge_ids g \<and> cr_graph_version_id x = gs_version_id g" if x: "r = Inr x" for x
      proof -
        have "?rest s1 = (Inr x, s')" using rest x by simp
        then show ?thesis unfolding and_then_Inr_iff ret_apply by (cases obj) auto
      qed
      ultimately show ?thesis by blast
    qed
  qed
qed

end
