(* ===== verification/ConfirmationTheorems.thy ===== *)
theory ConfirmationTheorems
  imports ConfirmationRecords
begin

text \<open>
  The properties of a confirmation: what it records and publishes when it returns, that it returns,
  and the invariant that every sequence of confirmations and rejections keeps.
\<close>

section \<open>A confirmation that returns\<close>

lemma confirm_outcome:
  assumes bridge: "\<And>cl q. always only_events (cs_sync_claim sv cl q)" and run: "confirm sv w i q s = (r, s')"
  shows "(\<exists>e. r = Inl e) \<and> only_events s s' \<or>
    (\<exists>cl obj g. confirmed_now w i q cl obj g s s' \<and>
      (\<forall>x. r = Inr x \<longrightarrow> cr_claim_id x = cm_claim_id cl \<and>
         (cr_formal_object_type x, cr_formal_object_id x) = obj \<and> cr_graph_node_id x = gs_node_id g \<and>
         cr_graph_edge_ids x = gs_edge_ids g \<and> cr_graph_version_id x = gs_version_id g))"
proof -
  obtain r1 s1 where l: "load_candidate w i s = (r1, s1)" by (cases "load_candidate w i s")
  then have s1: "s1 = s" by (rule load_candidate_state)
  show ?thesis
  proof (cases r1)
    case (Inl e)
    then show ?thesis using run l s1 logging.refl by (auto simp: confirm_def and_then_def)
  next
    case (Inr c)
    then have c: "select_key cn_candidate_id i (candidate_rows (research s)) = Some c" "cn_workspace_id c = w"
      using l load_candidate_Inr by auto
    show ?thesis
    proof (cases "cn_status c = ''pending''")
      case False
      then show ?thesis
        using run l s1 Inr logging.refl by (auto simp: confirm_def and_then_def ensure_pending_apply)
    next
      case True
      then have "confirm_loaded sv c w q s = (r, s')"
        using run l s1 Inr by (simp add: confirm_def and_then_def ensure_pending_apply)
      from confirm_loaded_outcome [OF bridge this c True] show ?thesis .
    qed
  qed
qed

text \<open>
  C6: What a confirmation records. If \<open>confirm\<close> returns and the bridge to the memory only writes
  events in the tables of the model, then the candidate was pending in the workspace and no confirmed
  object of the workspace had its normalised text; one claim and one object of the candidate's type,
  with the returned ids and the columns of the candidate, and two references to its source, to the
  work and to the fragment, are added; the status of the candidate is \<open>confirmed\<close>; of the tables of
  sources, candidates, relations, references and conflicts nothing else changes, except that the
  detection may add conflicts.
\<close>

theorem confirm_records_claim:
  assumes "\<And>cl q. always only_events (cs_sync_claim sv cl q)" and "confirm sv w i q s = (Inr x, s')"
  shows "\<exists>c cl cfs. select_key cn_candidate_id i (candidate_rows (research s)) = Some c \<and>
    cn_workspace_id c = w \<and> cn_status c = ''pending'' \<and>
    duplicate_of w (normalize_candidate_text (cn_text c)) s = None \<and> cm_claim_id cl = cr_claim_id x \<and>
    claim_recorded c q cl (cr_formal_object_type x, cr_formal_object_id x) cfs s s'"
  using confirm_outcome [OF assms] by (auto simp: confirmed_now_def) metis

text \<open>
  C7: What a confirmation publishes. If \<open>confirm\<close> returns, exactly one version is added to the version
  table, with the returned id, the trigger \<open>confirm_candidate\<close> and the new node and the edges in its
  diff; at most one node is added, and the returned node is active in the workspace and refers to the
  new object; the added edges join two different active nodes of the workspace and are among the
  returned ones; the workspace is ready, points to the version and counts its active nodes and edges;
  other workspaces keep their versions, and routes, failures and jobs are unchanged.
\<close>

theorem confirm_publishes_version:
  assumes "\<And>cl q. always only_events (cs_sync_claim sv cl q)" and "confirm sv w i q s = (Inr x, s')"
  shows "\<exists>c g. select_key cn_candidate_id i (candidate_rows (research s)) = Some c \<and> cn_workspace_id c = w \<and>
    version_recorded c q (cr_claim_id x) (cr_formal_object_type x, cr_formal_object_id x) g s s' \<and>
    gs_node_id g = cr_graph_node_id x \<and> gs_edge_ids g = cr_graph_edge_ids x \<and>
    gs_version_id g = cr_graph_version_id x"
  using confirm_outcome [OF assms] by (auto simp: confirmed_now_def)

section \<open>Consistency\<close>

text \<open>
  Candidate ids are unique; claims and confirmed objects correspond in order, row by row, and to
  different candidates; the confirmed candidates are exactly those with a claim; and within a
  workspace no two objects have the same normalised text.
\<close>

definition same_claim :: "claim_row \<Rightarrow> object_row \<Rightarrow> bool" where
  "same_claim cl ob \<longleftrightarrow> cm_candidate_id cl = ob_candidate_id ob \<and> cm_workspace_id cl = ob_workspace_id ob \<and>
     cm_source_id cl = ob_source_id ob \<and> cm_text cl = ob_text ob \<and>
     cm_normalized_text cl = ob_normalized_text ob \<and> cm_claim_type cl = ob_object_type ob"

definition confirmed_ids :: "candidate_row list \<Rightarrow> string set" where
  "confirmed_ids cs = cn_candidate_id ` set (filter (\<lambda>c. cn_status c = ''confirmed'') cs)"

definition consistent :: "store \<Rightarrow> bool" where
  "consistent s \<longleftrightarrow>
     distinct (map cn_candidate_id (candidate_rows (research s))) \<and>
     list_all2 same_claim (claim_rows s) (object_rows s) \<and>
     distinct (map cm_candidate_id (claim_rows s)) \<and>
     cm_candidate_id ` set (claim_rows s) = confirmed_ids (candidate_rows (research s)) \<and>
     (\<forall>ob \<in> set (object_rows s). ob_object_type ob \<in> set object_tables) \<and>
     distinct (map (\<lambda>ob. (ob_workspace_id ob, ob_normalized_text ob)) (object_rows s))"

lemma consistent_frame:
  assumes "consistent s" "claim_rows s' = claim_rows s" "object_rows s' = object_rows s"
    and "candidate_rows (research s') = candidate_rows (research s)"
  shows "consistent s'"
  using assms by (simp add: consistent_def)

lemma consistent_events: "consistent s \<Longrightarrow> only_events s s' \<Longrightarrow> consistent s'"
  unfolding only_events_iff by (erule exE)+ (auto intro: consistent_frame)

lemma in_confirmed_ids:
  "k \<in> confirmed_ids cs \<longleftrightarrow> (\<exists>r \<in> set cs. cn_candidate_id r = k \<and> cn_status r = ''confirmed'')"
  by (auto simp: confirmed_ids_def)

lemma in_confirmed_update:
  "k \<in> confirmed_ids (update_where P f cs) \<longleftrightarrow>
     (\<exists>r \<in> set cs. cn_candidate_id (if P r then f r else r) = k \<and> cn_status (if P r then f r else r) = ''confirmed'')"
  by (simp only: in_confirmed_ids set_update_where bex_simps)

lemma confirmed_ids_update:
  assumes "distinct (map cn_candidate_id cs)" "c \<in> set cs" "cn_candidate_id c = i" "cn_status c = ''pending''"
  shows "confirmed_ids (confirmed_candidates i cs) = insert i (confirmed_ids cs)"
    and "st \<noteq> ''confirmed'' \<Longrightarrow>
      confirmed_ids (update_where (\<lambda>r. cn_candidate_id r = i) (\<lambda>r. r\<lparr>cn_status := st, cn_reject_reason := x\<rparr>) cs) =
      confirmed_ids cs"
    and "i \<notin> confirmed_ids cs"
proof -
  have row: "r = c" if "r \<in> set cs" "cn_candidate_id r = i" for r
    using unique_row [OF assms(1) that(1) assms(2)] that(2) assms(3) by simp
  show "confirmed_ids (confirmed_candidates i cs) = insert i (confirmed_ids cs)"
    using assms(2,3) unfolding confirmed_candidates_def
    by (intro set_eqI, subst in_confirmed_update) (auto simp: in_confirmed_ids split: if_splits, metis)
  show "i \<notin> confirmed_ids cs" using row assms(4) by (auto simp: in_confirmed_ids)
  show "confirmed_ids (update_where (\<lambda>r. cn_candidate_id r = i) (\<lambda>r. r\<lparr>cn_status := st, cn_reject_reason := x\<rparr>) cs) =
      confirmed_ids cs" if "st \<noteq> ''confirmed''"
  proof -
    have "cn_candidate_id r \<noteq> i" if "r \<in> set cs" "cn_status r = ''confirmed''" for r
      using row [OF that(1)] assms(4) that(2) by auto
    then show ?thesis
      using that
      by (intro set_eqI, subst in_confirmed_update) (auto simp: in_confirmed_ids split: if_splits)
  qed
qed

lemma consistent_confirmed:
  assumes s: "consistent s" and n: "confirmed_now w i q cl obj g s s'"
  shows "consistent s'"
proof -
  obtain c cfs where c: "select_key cn_candidate_id i (candidate_rows (research s)) = Some c" "cn_workspace_id c = w"
      "cn_status c = ''pending''" and d: "duplicate_of w (normalize_candidate_text (cn_text c)) s = None"
    and r: "claim_recorded c q cl obj cfs s s'" using n by (auto simp: confirmed_now_def)
  let ?nt = "normalize_candidate_text (cn_text c)"
  have ci: "c \<in> set (candidate_rows (research s))" "cn_candidate_id c = i" using select_key_Some [OF c(1)] by auto
  have claims: "claim_rows s' = claim_rows s @ [cl]" "cm_candidate_id cl \<notin> cm_candidate_id ` set (claim_rows s)"
    and cl: "cl = (claim_args c ?nt)\<lparr>cm_claim_id := cm_claim_id cl, cm_created_at := cm_created_at cl,
      cm_updated_at := cm_created_at cl\<rparr>"
    and ty: "cn_candidate_type c \<in> set object_tables"
    using r unfolding claim_recorded_def Let_def by (blast, blast, blast, metis)
  obtain t where
      obj: "object_rows s' = object_rows s @ [(object_args c ?nt q)\<lparr>ob_object_id := snd obj, ob_created_at := t\<rparr>]"
    using r unfolding claim_recorded_def Let_def by blast
  obtain ers where "research s' = (research s)
          \<lparr>candidate_rows := confirmed_candidates (cn_candidate_id c) (candidate_rows (research s)),
           evidence_ref_rows := evidence_ref_rows (research s) @ ers,
           conflict_rows := conflict_rows (research s) @ cfs\<rparr>"
    using r unfolding claim_recorded_def Let_def by blast
  then have cand: "candidate_rows (research s') = confirmed_candidates i (candidate_rows (research s))"
    by (simp add: ci(2))
  let ?ob = "(object_args c ?nt q)\<lparr>ob_object_id := snd obj, ob_created_at := t\<rparr>"
  have id: "cm_candidate_id cl = i" by (subst cl) (simp add: claim_args_def ci(2))
  have same: "same_claim cl ?ob" by (subst cl) (simp add: same_claim_def claim_args_def object_args_def)
  have key: "(w, ?nt) \<notin> (\<lambda>ob. (ob_workspace_id ob, ob_normalized_text ob)) ` set (object_rows s)"
    using d s by (auto simp: duplicate_of_None consistent_def)
  have "distinct (map cn_candidate_id (candidate_rows (research s)))" using s by (simp add: consistent_def)
  note ids = confirmed_ids_update [OF this ci c(3)]
  have uniq: "distinct (map cn_candidate_id (confirmed_candidates i (candidate_rows (research s))))"
    using s by (simp add: consistent_def confirmed_candidates_def keys_update_where)
  have "list_all2 same_claim (claim_rows s @ [cl]) (object_rows s @ [?ob])"
    using s same by (intro list_all2_appendI) (simp_all add: consistent_def)
  moreover have "distinct (map cm_candidate_id (claim_rows s @ [cl]))"
    using s claims(2) by (simp add: consistent_def)
  moreover have "cm_candidate_id ` set (claim_rows s @ [cl]) =
      confirmed_ids (confirmed_candidates i (candidate_rows (research s)))"
    unfolding ids(1) using s id by (simp add: consistent_def)
  moreover have "\<forall>ob \<in> set (object_rows s @ [?ob]). ob_object_type ob \<in> set object_tables"
    using s ty by (simp add: consistent_def object_args_def)
  moreover have "distinct (map (\<lambda>ob. (ob_workspace_id ob, ob_normalized_text ob)) (object_rows s @ [?ob]))"
    using s key c(2) by (simp add: consistent_def object_args_def)
  ultimately show ?thesis using uniq unfolding consistent_def claims(1) obj cand by blast
qed

datatype candidate_call = Confirm string string string | Reject string string string string

definition candidate_step :: "confirm_services \<Rightarrow> candidate_call \<Rightarrow> store \<Rightarrow> store" where
  "candidate_step sv k s = (case k of
       Confirm w i q \<Rightarrow> snd (confirm sv w i q s)
     | Reject w i reason q \<Rightarrow> snd (reject_candidate w i reason q s))"

lemma reject_consistent:
  assumes "consistent s"
  shows "consistent (snd (reject_candidate w i reason q s))"
proof -
  obtain r s' where run: "reject_candidate w i reason q s = (r, s')" by (cases "reject_candidate w i reason q s")
  show ?thesis
  proof (cases "\<exists>c. load_candidate w i s = (Inr c, s) \<and> cn_status c = ''pending''")
    case False
    then have "s' = s"
      using run
      by (cases "load_candidate w i s"; cases "fst (load_candidate w i s)")
        (auto simp: reject_candidate_def and_then_def ensure_pending_apply load_candidate_Inr
          dest: load_candidate_state split: if_splits)
    then show ?thesis using assms run by simp
  next
    case True
    then obtain c where l: "load_candidate w i s = (Inr c, s)" "cn_status c = ''pending''" by blast
    then have "select_key cn_candidate_id i (candidate_rows (research s)) = Some c" using load_candidate_Inr by blast
    then have ci: "c \<in> set (candidate_rows (research s))" "cn_candidate_id c = i" using select_key_Some by fast+
    let ?s1 = "put_candidates (update_where (\<lambda>r. cn_candidate_id r = i)
       (\<lambda>r. r\<lparr>cn_status := ''rejected'', cn_reject_reason := Some reason\<rparr>)) s"
    let ?ev = "confirm_event c w q ''candidate_rejected'' ''reject'' ''completed''
          [(''candidate_id'', VStr i), (''reason'', VStr reason), (''source_id'', VStr (cn_source_id c)),
           (''extraction_job_id'', opt_str (cn_extraction_job_id c))] [] None"
    obtain re s2 where ev: "?ev ?s1 = (re, s2)" by (cases "?ev ?s1")
    then have "s' = s2"
      using run l by (cases re) (auto simp: reject_candidate_def and_then_def ensure_pending_apply
          update_candidate_status_def writing_apply ret_apply)
    then have "only_events ?s1 s'" using alwaysD_eq [OF confirm_event_only ev] by simp
    moreover have "distinct (map cn_candidate_id (candidate_rows (research s)))" using assms by (simp add: consistent_def)
    from confirmed_ids_update [OF this ci l(2)] have "consistent ?s1"
      using assms by (simp add: consistent_def put_defs keys_update_where)
    ultimately show ?thesis using consistent_events run by simp
  qed
qed

text \<open>
  C10: In every sequence of confirmations and rejections, whatever each call returns or raises, the
  tables stay consistent: claims and confirmed objects correspond row by row, every claim belongs to
  another candidate, a candidate is confirmed exactly if it has a claim, and within a workspace no two
  confirmed objects, of whatever types, have the same normalised text.
\<close>

theorem confirmations_keep_consistency:
  assumes "\<And>cl q. always only_events (cs_sync_claim sv cl q)" and "consistent s"
  shows "consistent (fold (candidate_step sv) calls s)"
  using assms(2)
proof (induction calls arbitrary: s)
  case (Cons k calls)
  have "consistent (candidate_step sv k s)"
  proof (cases k)
    case (Confirm w i q)
    obtain r s' where run: "confirm sv w i q s = (r, s')" by (cases "confirm sv w i q s")
    from confirm_outcome [OF assms(1) this] have "consistent s'"
      using consistent_events consistent_confirmed Cons.prems by blast
    then show ?thesis using Confirm run by (simp add: candidate_step_def)
  next
    case (Reject w i reason q)
    then show ?thesis using reject_consistent [OF Cons.prems] by (simp add: candidate_step_def)
  qed
  then show ?case using Cons.IH by simp
qed simp

section \<open>A confirmation returns\<close>

text \<open>
  \<open>confirmable\<close>: the candidate is pending in the workspace, of a type with a table of objects, its
  source exists and has metadata that can be converted, its id is not blank, and no confirmed object
  of the workspace has its normalised text.
\<close>

definition confirmable :: "string \<Rightarrow> string \<Rightarrow> store \<Rightarrow> bool" where
  "confirmable w i s \<longleftrightarrow>
     (\<exists>c src work. select_key cn_candidate_id i (candidate_rows (research s)) = Some c \<and>
        cn_workspace_id c = w \<and> cn_status c = ''pending'' \<and> cn_candidate_type c \<in> set object_tables \<and>
        strip (cn_source_id c) \<noteq> [] \<and>
        select_key so_source_id (cn_source_id c) (source_rows (research s)) = Some src \<and>
        draft_of c (cn_candidate_type c) [] src = Inr work \<and>
        (\<forall>ob \<in> set (object_rows s).
           (ob_workspace_id ob, ob_normalized_text ob) \<noteq> (w, normalize_candidate_text (cn_text c))))"

lemma draft_of_other:
  "draft_of c ty' i' src =
     rbind (draft_of c ty i src) (\<lambda>d. Inr (d\<lparr>er_object_type := ty', er_object_id := i'\<rparr>))"
  by (simp add: draft_of_def Let_def rbind_def split: sum.split)

lemma draft_of_any: "draft_of c ty i src = Inr work \<Longrightarrow> \<exists>work'. draft_of c ty' i' src = Inr work'"
  by (simp add: draft_of_other [of c ty' i' src ty i])

lemma and_then_Inr: "m s = (Inr a, s') \<Longrightarrow> and_then m f s = f a s'"
  by (simp add: and_then_def)

lemma claim_id_not_blank: "strip (''claim_'' @ h) \<noteq> []"
  by (auto simp: strip_eq_Nil_iff is_space_def code_point_def)

lemma confirm_body_returns:
  assumes f: "fresh_ids s" and "cn_candidate_id c \<notin> cm_candidate_id ` set (claim_rows s)"
    and ty: "cn_candidate_type c \<in> set object_tables" and "\<forall>ob \<in> set (object_rows s). ob_candidate_id ob \<noteq> cn_candidate_id c"
    and src: "select_key so_source_id (cn_source_id c) (source_rows (research s)) = Some src"
    and draft: "draft_of c (cn_candidate_type c) [] src = Inr work" and "strip (cn_source_id c) \<noteq> []"
  shows "\<exists>y s'. confirm_body sv c w t q s = (Inr y, s') \<and> fresh_ids s'"
proof -
  let ?q = "confirm_source_ref (candidate_record c)"
  have "cm_candidate_id (claim_args c t) \<notin> cm_candidate_id ` set (claim_rows s)"
    using assms(2) by (simp add: claim_args_def)
  from create_claim_returns [OF f this] obtain cl where
      c1: "create_claim (claim_args c t) s =
        (Inr cl, s\<lparr>drawn := Suc (drawn s), ticks := Suc (ticks s), claim_rows := claim_rows s @ [cl]\<rparr>)"
    and id: "cm_claim_id cl = ''claim_'' @ hex_supply s (drawn s)"
    and f1: "fresh_ids (s\<lparr>drawn := Suc (drawn s), ticks := Suc (ticks s), claim_rows := claim_rows s @ [cl]\<rparr>)" .
  let ?s1 = "s\<lparr>drawn := Suc (drawn s), ticks := Suc (ticks s), claim_rows := claim_rows s @ [cl]\<rparr>"
  have "\<forall>r \<in> set (object_rows ?s1). ob_object_type r = cn_candidate_type c \<longrightarrow> ob_candidate_id r \<noteq> cn_candidate_id c"
    using assms(4) by simp
  from create_object_returns [OF f1 ty this, of t q] obtain obj s2 where
      c2: "create_confirmed_object_from_candidate c t q ?s1 = (Inr obj, s2)" and f2: "fresh_ids s2"
    and r2: "research s2 = research ?s1" "claim_rows s2 = claim_rows ?s1" .
  have same: "research s2 = research s" using r2 by simp
  obtain work' where draft': "draft_of c (fst obj) (snd obj) src = Inr work'" using draft_of_any [OF draft] by blast
  have src': "select_key so_source_id (cn_source_id c) (source_rows (research s2)) = Some src" using src same by simp
  obtain x s3 where c3: "persist_evidence_refs_for_confirmation c (fst obj) (snd obj) q s2 = (Inr x, s3)"
    and f3: "fresh_ids s3" by (rule persist_evidence_refs_returns [OF f2 src' draft'])
  have ref: "?q (cm_claim_id cl) \<noteq> []"
    using assms(7) id claim_id_not_blank
    by (simp add: confirm_source_ref_def candidate_record_def Let_def)
  let ?rest = "and_then (update_candidate_status (cn_candidate_id c) ''confirmed'' None) (\<lambda>_.
     and_then
       (confirm_event c w q ''candidate_confirmed'' ''confirm'' ''completed''
          [(''candidate_id'', VStr (cn_candidate_id c)),
           (''formal_object_type'', VStr (fst obj)),
           (''formal_object_id'', VStr (snd obj)), (''source_id'', VStr (cn_source_id c)),
           (''extraction_job_id'', opt_str (cn_extraction_job_id c))] [] None) (\<lambda>_.
     and_then
       (confirm_event c w q ''claim_created'' ''claim_create'' ''completed''
          [(''candidate_id'', VStr (cn_candidate_id c)), (''claim_id'', VStr (cm_claim_id cl)),
           (''claim_type'', VStr (cm_claim_type cl)), (''source_id'', VStr (cn_source_id c))] [] None) (\<lambda>_.
     and_then (ret ()) (\<lambda>_.
     and_then (graph_body sv c (fst obj) (snd obj) (cm_claim_id cl) (?q (cm_claim_id cl)) q) (\<lambda>graph.
     ret (cl, obj, graph))))))"
  have "never_raises ?rest (\<lambda>_. True)"
    by (intro never_raises_and_then [OF update_candidate_status_never_raises]
        never_raises_and_then [OF confirm_event_never_raises] never_raises_ret
        never_raises_and_then [OF never_raises_ret [where Q = "\<lambda>_. True"]]
        never_raises_and_then [OF graph_body_never_raises]) simp_all
  from never_raisesE [OF this f3] obtain y s' where y: "fresh_ids s'" and run: "?rest s3 = (Inr y, s')" .
  have "confirm_body sv c w t q s = (Inr y, s')"
    unfolding confirm_body_def create_claim_from_candidate_def
      and_then_Inr [where m = "create_claim (claim_args c t)" and s = s, OF c1]
      and_then_Inr [where m = "create_confirmed_object_from_candidate c t q" and s = ?s1, OF c2]
      and_then_Inr [where m = "persist_evidence_refs_for_confirmation c (fst obj) (snd obj) q" and s = s2, OF c3]
      check_def if_P [OF ref]
    by (rule run)
  then show ?thesis using y by blast
qed

lemma create_claim_conflict_never_raises: "never_raises (create_claim_conflict args) (\<lambda>_. True)"
proof (rule never_raisesI)
  fix s assume f: "fresh_ids s"
  then have u: "unused ''claimconf'' (conflict_ids s) s" by (simp add: fresh_ids_def)
  obtain r where c: "create_claim_conflict args s =
       (Inr r, put_conflicts (\<lambda>rs. rs @ [r]) (s\<lparr>drawn := Suc (drawn s), ticks := Suc (ticks s)\<rparr>))"
    and r: "r = args\<lparr>cf_conflict_id := ''claimconf_'' @ hex_supply s (drawn s), cf_decision_note := None,
                  cf_resolved_request_id := None, cf_created_at := clock s (ticks s),
                  cf_updated_at := clock s (ticks s)\<rparr>"
    by (rule create_claim_conflict_fresh [OF u])
  let ?s = "put_conflicts (\<lambda>rs. rs @ [r]) (s\<lparr>drawn := Suc (drawn s), ticks := Suc (ticks s)\<rparr>)"
  have "fresh_ids ?s"
    using f unused_insert [OF u, of ?s] r by (auto simp: fresh_defs put_defs intro: unused_mono)
  then show "\<exists>a s'. create_claim_conflict args s = (Inr a, s') \<and> True \<and> fresh_ids s'" using c by blast
qed

lemma detect_step_never_raises: "never_raises (detect_step w q nc e created) (\<lambda>_. True)"
proof -
  have "never_raises (and_then (create_claim_conflict (conflict_args w q nc e))
      (\<lambda>c. ret (created @ [cf_conflict_id c]))) (\<lambda>_. True)"
    by (intro never_raises_and_then [OF create_claim_conflict_never_raises] never_raises_ret) simp
  then show ?thesis by (auto simp: never_raises_def detect_step_apply)
qed

lemma detect_claim_conflicts_never_raises: "never_raises (detect_claim_conflicts c w cl q) (\<lambda>_. True)"
proof -
  have claims: "never_raises (reading f) (\<lambda>_. True)" for f :: "store \<Rightarrow> 'x" by (simp add: never_raises_reading)
  show ?thesis
    unfolding detect_claim_conflicts_def detect_for_claim_def get_claim_def detection_event_def
    by (intro never_raises_and_then [OF claims] never_raises_and_then [where P = "\<lambda>_. True"]
        confirm_event_never_raises)
      (auto split: option.split intro!: never_raises_ret never_raises_and_then [where P = "\<lambda>_. True"]
        never_raises_fold detect_step_never_raises claims)
qed

lemma detect_best_effort_never_raises:
  "never_raises (detect_claim_conflicts_best_effort sv c w cl q) (\<lambda>_. True)"
proof (rule never_raisesI)
  fix s assume "fresh_ids s"
  from never_raisesE [OF detect_claim_conflicts_never_raises this] obtain a s' where
    "detect_claim_conflicts c w cl q s = (Inr a, s')" "fresh_ids s'" .
  then show "\<exists>a s'. detect_claim_conflicts_best_effort sv c w cl q s = (Inr a, s') \<and> True \<and> fresh_ids s'"
    by (simp add: detect_claim_conflicts_best_effort_def)
qed

lemma sync_memory_never_raises:
  assumes "\<And>cl q s. fresh_ids s \<Longrightarrow> fresh_ids (snd (cs_sync_claim sv cl q s))"
  shows "never_raises (sync_memory sv c w cl q) (\<lambda>_. True)"
proof (rule never_raisesI)
  fix s assume f: "fresh_ids s"
  obtain r s1 where d: "cs_sync_claim sv cl q s = (r, s1)" by (cases "cs_sync_claim sv cl q s")
  then have f1: "fresh_ids s1" using assms [OF f, of cl q] by simp
  have e: "never_raises (and_then (confirm_event c w q n st sta refs ms err) (\<lambda>_. ret x)) (\<lambda>_. True)"
    for n st sta refs ms err and x :: string
    by (intro never_raises_and_then [OF confirm_event_never_raises] never_raises_ret) simp
  show "\<exists>a s'. sync_memory sv c w cl q s = (Inr a, s') \<and> True \<and> fresh_ids s'"
    using d f1 e [unfolded never_raises_def, rule_format, OF f1] by (cases r) (auto simp: sync_memory_def)
qed

lemma list_all2_candidates:
  assumes "list_all2 same_claim cls obs" "ob \<in> set obs"
  shows "ob_candidate_id ob \<in> cm_candidate_id ` set cls"
  using assms by (induction rule: list_all2_induct) (auto simp: same_claim_def)

lemma confirmable_returns:
  assumes k: "confirmable w i s" and s: "consistent s" and f: "fresh_ids s"
    and bridge: "\<And>cl q s. fresh_ids s \<Longrightarrow> fresh_ids (snd (cs_sync_claim sv cl q s))"
  shows "\<exists>x s'. confirm sv w i q s = (Inr x, s')"
proof -
  obtain c src work where c: "select_key cn_candidate_id i (candidate_rows (research s)) = Some c"
        "cn_workspace_id c = w" "cn_status c = ''pending''" "cn_candidate_type c \<in> set object_tables"
        "strip (cn_source_id c) \<noteq> []"
    and src: "select_key so_source_id (cn_source_id c) (source_rows (research s)) = Some src"
        "draft_of c (cn_candidate_type c) [] src = Inr work"
    and new: "\<forall>ob \<in> set (object_rows s).
           (ob_workspace_id ob, ob_normalized_text ob) \<noteq> (w, normalize_candidate_text (cn_text c))"
    using k by (auto simp: confirmable_def)
  let ?t = "normalize_candidate_text (cn_text c)"
  have ci: "c \<in> set (candidate_rows (research s))" "cn_candidate_id c = i" using select_key_Some [OF c(1)] by auto
  have "distinct (map cn_candidate_id (candidate_rows (research s)))" using s by (simp add: consistent_def)
  from confirmed_ids_update(3) [OF this ci c(3)] have cl: "cn_candidate_id c \<notin> cm_candidate_id ` set (claim_rows s)"
    using s ci(2) by (simp add: consistent_def)
  then have ob: "\<forall>ob \<in> set (object_rows s). ob_candidate_id ob \<noteq> cn_candidate_id c"
    using s list_all2_candidates unfolding consistent_def by metis
  have dup: "duplicate_of w ?t s = None" using new by (auto simp: duplicate_of_None)
  obtain cl obj g s1 where t: "confirm_in_transaction sv c w ?t q s = (Inr (cl, obj, g), s1)" and f1: "fresh_ids s1"
    using confirm_body_returns [OF f cl c(4) ob src c(5), of sv w ?t q] confirm_in_transaction_returns
    by (metis prod_cases3)
  obtain l s2 where m: "sync_memory sv c w cl q s1 = (Inr l, s2)" and f2: "fresh_ids s2"
    by (rule never_raisesE [OF sync_memory_never_raises [OF bridge] f1])
  obtain u s3 where d: "detect_claim_conflicts_best_effort sv c w cl q s2 = (Inr u, s3)"
    by (rule never_raisesE [OF detect_best_effort_never_raises f2])
  have "load_candidate w i s = (Inr c, s)" using c by (simp add: load_candidate_Inr)
  then show ?thesis
    using c(3) t m d dup
    by (simp add: confirm_def confirm_loaded_def Let_def and_then_def ensure_pending_apply find_confirmed_apply ret_apply)
qed

text \<open>
  C8: A candidate that is in order can be confirmed. In consistent tables whose ids that are still to
  be drawn are new, \<open>confirm\<close> returns for every pending candidate of the workspace whose type has a
  table, whose source exists and has metadata that can be converted, and whose normalised text no
  confirmed object of the workspace has, whatever the graph, the relations of its batch and the other
  claims are, and whether the bridge to the memory returns or raises.
\<close>

theorem confirm_returns:
  assumes "confirmable w i s" "consistent s" "fresh_ids s"
    and "\<And>cl q s. fresh_ids s \<Longrightarrow> fresh_ids (snd (cs_sync_claim sv cl q s))"
  shows "\<exists>x s'. confirm sv w i q s = (Inr x, s')"
  using assms by (rule confirmable_returns)

text \<open>
  The service reads the metadata of a missing source as empty, but asks \<^verbatim>\<open>None\<close> for its title:
  a candidate without a source row is never confirmed.
\<close>

lemma missing_source_raises:
  assumes "select_key so_source_id (cn_source_id c) (source_rows (research s)) = None"
  shows "persist_evidence_refs_for_confirmation c ty i q s = (Inl (ConversionError AttributeError), s)"
  using assms
  by (simp add: persist_evidence_refs_for_confirmation_def get_source_def and_then_def reading_apply require_apply)

section \<open>Witnesses\<close>

definition sample_candidate :: "string \<Rightarrow> string \<Rightarrow> candidate_row" where
  "sample_candidate i txt =
     \<lparr>cn_candidate_id = i, cn_workspace_id = ''w'', cn_source_id = ''src'', cn_candidate_type = ''evidence'',
      cn_semantic_type = None, cn_text = txt, cn_status = ''pending'', cn_source_span = [], cn_quote = None,
      cn_trace_refs = [], cn_candidate_batch_id = None, cn_extraction_job_id = None,
      cn_extractor_name = None, cn_reject_reason = None\<rparr>"

definition sample_source :: source_row where
  "sample_source =
     \<lparr>so_source_id = ''src'', so_workspace_id = ''w'', so_source_type = ''note'', so_title = ''Note'',
      so_metadata = []\<rparr>"

definition pending_store :: store where
  "pending_store = empty_store\<lparr>research :=
     \<lparr>source_rows = [sample_source], candidate_rows = [sample_candidate ''a'' ''Dose rises''],
      relation_rows = [], evidence_ref_rows = [], conflict_rows = []\<rparr>\<rparr>"

lemma quiet_bridge:
  "always only_events (cs_sync_claim quiet_services cl q)"
  "fresh_ids s \<Longrightarrow> fresh_ids (snd (cs_sync_claim quiet_services cl q s))"
  by (simp_all add: quiet_services_def logging.always_ret ret_apply)

lemma pending_store_ok: "confirmable ''w'' ''a'' pending_store" "consistent pending_store" "fresh_ids pending_store"
proof -
  have "draft_of (sample_candidate ''a'' ''Dose rises'') ''evidence'' [] sample_source \<noteq> Inl e" for e
    by (simp add: draft_of_def sample_candidate_def sample_source_def base_title_def optional_str_def
        normalize_authors_def get_or_def Let_def)
  then obtain work where "draft_of (sample_candidate ''a'' ''Dose rises'') ''evidence'' [] sample_source = Inr work"
    by (metis obj_sumE)
  moreover have "strip ''src'' \<noteq> []" by (simp add: strip_eq_Nil_iff is_space_def code_point_def)
  ultimately show "confirmable ''w'' ''a'' pending_store"
    by (simp add: confirmable_def pending_store_def empty_store_def sample_candidate_def sample_source_def
        object_tables_def)
  show "consistent pending_store"
    by (simp add: consistent_def pending_store_def empty_store_def confirmed_ids_def sample_candidate_def)
  show "fresh_ids pending_store"
    by (rule fresh_ids_step [OF fresh_empty_store]) (simp_all add: pending_store_def empty_store_def)
qed

theorem confirm_returns_witness:
  "\<exists>x s'. confirm quiet_services ''w'' ''a'' ''q'' pending_store = (Inr x, s')"
  by (rule confirm_returns [OF pending_store_ok quiet_bridge(2)])

theorem confirm_records_claim_witness:
  "\<exists>x s' cl. confirm quiet_services ''w'' ''a'' ''q'' pending_store = (Inr x, s') \<and> claim_rows s' = [cl] \<and>
     cm_claim_id cl = cr_claim_id x"
proof -
  obtain x s' where x: "confirm quiet_services ''w'' ''a'' ''q'' pending_store = (Inr x, s')"
    using confirmable_returns [OF pending_store_ok quiet_bridge(2)] by blast
  from confirm_records_claim [OF quiet_bridge(1) this] obtain c cl cfs where "cm_claim_id cl = cr_claim_id x"
    "claim_recorded c ''q'' cl (cr_formal_object_type x, cr_formal_object_id x) cfs pending_store s'" by blast
  moreover have "claim_rows pending_store = []" by (simp add: pending_store_def empty_store_def)
  ultimately show ?thesis using x unfolding claim_recorded_def Let_def by auto
qed

theorem confirm_publishes_version_witness:
  "\<exists>x s' v. confirm quiet_services ''w'' ''a'' ''q'' pending_store = (Inr x, s') \<and> version_rows s' = [v]"
proof -
  obtain x s' where x: "confirm quiet_services ''w'' ''a'' ''q'' pending_store = (Inr x, s')"
    using confirmable_returns [OF pending_store_ok quiet_bridge(2)] by blast
  from confirm_publishes_version [OF quiet_bridge(1) this] obtain c g where
    "version_recorded c ''q'' (cr_claim_id x) (cr_formal_object_type x, cr_formal_object_id x) g pending_store s'"
    by blast
  moreover have "version_rows pending_store = []" by (simp add: pending_store_def empty_store_def)
  ultimately show ?thesis using x unfolding version_recorded_def by auto
qed

theorem confirmations_keep_consistency_witness:
  "consistent (fold (candidate_step quiet_services)
     [Confirm ''w'' ''a'' ''q'', Confirm ''w'' ''a'' ''q'', Reject ''w'' ''a'' ''late'' ''q''] pending_store)"
  by (rule confirmations_keep_consistency [OF quiet_bridge(1) pending_store_ok(2)])

end
