(* ===== verification/GraphBuild.thy ===== *)
theory GraphBuild
  imports CandidateConfirmation
begin

text \<open>
  \<^verbatim>\<open>services/graph_build_service.py\<close> over \<^verbatim>\<open>graph/repository.py\<close>: the graph of a
  workspace is built anew from its confirmed objects. The earlier nodes and edges are superseded, an
  object whose node was archived is skipped, resolved relations become edges, and the nodes of a
  source without relations are joined to an anchor.

  The methods of the repository that only pass their arguments on are left out; the label of an empty
  text is a parameter.
\<close>

section \<open>The repository\<close>

definition node_status_values :: "string list" where
  "node_status_values =
     [''active'', ''weakened'', ''conflicted'', ''failed'', ''superseded'', ''archived'']"

definition edge_status_values :: "string list" where
  "edge_status_values =
     [''active'', ''weakened'', ''conflicted'', ''invalidated'', ''superseded'', ''archived'']"

definition update_node ::
  "string \<Rightarrow> string option \<Rightarrow> string option \<Rightarrow> string list option \<Rightarrow> string option \<Rightarrow> pyval list option \<Rightarrow>
   string option \<Rightarrow> node_row option store_proc"
where
  "update_node node_id short_label full_description short_tags visibility source_refs status =
     and_then
       (check (ConversionError (ValueError ''invalid graph node status''))
          (case status of None \<Rightarrow> True | Some st \<Rightarrow> st \<in> set node_status_values)) (\<lambda>_.
     and_then
       (check (ConversionError (ValueError ''empty graph node update''))
          (\<not> (short_label = None \<and> full_description = None \<and> short_tags = None \<and> visibility = None \<and>
              source_refs = None \<and> status = None))) (\<lambda>_.
     update_graph_node node_id short_label full_description short_tags visibility source_refs status))"

definition update_edge :: "string \<Rightarrow> string option \<Rightarrow> rat option \<Rightarrow> edge_row option store_proc" where
  "update_edge edge_id status strength =
     and_then
       (check (ConversionError (ValueError ''invalid graph edge status''))
          (case status of None \<Rightarrow> True | Some st \<Rightarrow> st \<in> set edge_status_values)) (\<lambda>_.
     and_then
       (check (ConversionError (ValueError ''empty graph edge update''))
          (\<not> (status = None \<and> strength = None))) (\<lambda>_.
     update_graph_edge edge_id status strength))"

definition graph_event ::
  "string \<Rightarrow> string \<Rightarrow> string \<Rightarrow> string \<Rightarrow> string \<Rightarrow> payload \<Rightarrow> payload \<Rightarrow> unit store_proc"
where
  "graph_event event_name request_id workspace_id step status refs metrics =
     emit_event
       (event_args event_name (Some request_id) None (Some workspace_id) ''research_graph'' step status
          refs metrics None)"

section \<open>References to the source\<close>

definition build_graph_source_ref :: "object_view \<Rightarrow> payload" where
  "build_graph_source_ref obj =
     (let claim_id = strip (opt_text (ob_claim_id obj)); source_id = strip (ob_source_id obj) in
      if claim_id = [] \<or> source_id = [] then []
      else
        [(''source_id'', VStr source_id), (''candidate_id'', VStr (ob_candidate_id obj)),
         (''claim_id'', VStr claim_id),
         (''artifact_id'', get_or (ob_trace_refs obj) ''source_artifact_id'' VNone),
         (''anchor_id'', get_or (ob_trace_refs obj) ''source_anchor_id'' VNone),
         (''source_span'', VDict (ob_source_span obj)), (''quote'', opt_str (ob_quote obj))])"

definition build_edge_source_ref :: "object_view \<Rightarrow> object_view \<Rightarrow> relation_row \<Rightarrow> payload" where
  "build_edge_source_ref source_object target_object relation =
     (let source_ref = build_graph_source_ref target_object in
      if source_ref = [] then []
      else source_ref @
        [(''source_claim_id'', opt_str (ob_claim_id source_object)),
         (''target_claim_id'', opt_str (ob_claim_id target_object)),
         (''relation_candidate_id'', VStr (rl_relation_candidate_id relation)),
         (''relation_type'', opt_str (rl_relation_type relation))])"

definition object_source_refs :: "object_view \<Rightarrow> payload list" where
  "object_source_refs obj =
     [[(''source_id'', VStr (ob_source_id obj)), (''object_id'', VStr (ob_object_id obj)),
       (''object_type'', VStr (ob_object_type obj)), (''candidate_id'', VStr (ob_candidate_id obj)),
       (''claim_id'', VStr (strip (opt_text (ob_claim_id obj)))),
       (''artifact_id'', get_or (ob_trace_refs obj) ''source_artifact_id'' VNone),
       (''anchor_id'', get_or (ob_trace_refs obj) ''source_anchor_id'' VNone),
       (''source_span'', VDict (ob_source_span obj)), (''quote'', opt_str (ob_quote obj))]]"

section \<open>Nodes\<close>

text \<open>The local variables of the first loop.\<close>

record projection =
  pj_created :: "node_row list"
  pj_source_nodes :: "(string \<times> node_row list) list"
  pj_candidate_nodes :: "(string \<times> (node_row \<times> object_view)) list"
  pj_skipped_archived :: nat
  pj_skipped_untraceable :: nat

definition no_projection :: projection where
  "no_projection =
     \<lparr>pj_created = [], pj_source_nodes = [], pj_candidate_nodes = [], pj_skipped_archived = 0,
      pj_skipped_untraceable = 0\<rparr>"

definition note_node :: "object_view \<Rightarrow> node_row \<Rightarrow> projection \<Rightarrow> projection" where
  "note_node obj n p =
     (let src = ob_source_id obj; cand = ob_candidate_id obj in
      p\<lparr>pj_created := pj_created p @ [n],
        pj_source_nodes := dict_put src
          ((case map_of (pj_source_nodes p) src of None \<Rightarrow> [] | Some ns \<Rightarrow> ns) @ [n]) (pj_source_nodes p),
        pj_candidate_nodes := (if cand = [] then pj_candidate_nodes p
                               else dict_put cand (n, obj) (pj_candidate_nodes p))\<rparr>)"

definition project_object ::
  "string \<Rightarrow> string \<Rightarrow> string \<Rightarrow> (string \<times> string) list \<Rightarrow> object_view \<Rightarrow> projection \<Rightarrow> projection store_proc"
where
  "project_object unnamed workspace_id request_id archived_refs obj p =
     (let claim_id = strip (opt_text (ob_claim_id obj)); source_ref = build_graph_source_ref obj;
          semantic_type = strip (opt_text (ob_semantic_type obj))
      in if (ob_object_type obj, ob_object_id obj) \<in> set archived_refs
         then ret (p\<lparr>pj_skipped_archived := pj_skipped_archived p + 1\<rparr>)
         else if claim_id = [] \<or> source_ref = [] then
           and_then
             (graph_event ''graph_projection_skipped'' request_id workspace_id ''projection'' ''skipped''
                [(''object_type'', VStr (ob_object_type obj)), (''object_id'', VStr (ob_object_id obj)),
                 (''candidate_id'', VStr (ob_candidate_id obj)),
                 (''reason'', VStr ''missing_claim_or_source_ref'')] []) (\<lambda>_.
           ret (p\<lparr>pj_skipped_untraceable := pj_skipped_untraceable p + 1\<rparr>))
         else
           and_then
             (create_graph_node workspace_id (node_type_for_object_type (ob_object_type obj))
                (ob_object_type obj) (ob_object_id obj) (build_short_label unnamed (ob_text obj))
                (ob_text obj) (if semantic_type = [] then [] else [semantic_type]) ''workspace''
                (map VDict (object_source_refs obj)) (Some claim_id) (VDict source_ref) ''active'')
             (\<lambda>created.
           and_then (require NoneSubscript created) (\<lambda>n. ret (note_node obj n p))))"

section \<open>Edges\<close>

definition relation_edge ::
  "string \<Rightarrow> projection \<Rightarrow> relation_row \<Rightarrow> edge_row list \<Rightarrow> edge_row list store_proc"
where
  "relation_edge workspace_id p relation created =
     (let relation_type = strip (opt_text (rl_relation_type relation)) in
      if rl_relation_status relation \<noteq> ''resolved'' \<or> relation_type = [] then ret created
      else
        case (map_of (pj_candidate_nodes p) (opt_text (rl_source_candidate_id relation)),
              map_of (pj_candidate_nodes p) (opt_text (rl_target_candidate_id relation))) of
          (Some (source_node, source_object), Some (target_node, target_object)) \<Rightarrow>
            let edge_source_ref = build_edge_source_ref source_object target_object relation;
                target_claim_id = strip (opt_text (ob_claim_id target_object))
            in if target_claim_id = [] \<or> edge_source_ref = [] then ret created
               else
                 and_then
                   (create_graph_edge workspace_id (nd_node_id source_node) (nd_node_id target_node)
                      relation_type ''relation_candidate'' (rl_relation_candidate_id relation)
                      (fl (9 / 10)) (Some target_claim_id) (VDict edge_source_ref) ''active'') (\<lambda>e.
                 and_then (require NoneSubscript e) (\<lambda>e. ret (created @ [e])))
        | _ \<Rightarrow> ret created)"

definition anchor_of :: "node_row list \<Rightarrow> node_row" where
  "anchor_of ns = (case filter (\<lambda>n. nd_node_type n = ''evidence'') ns of [] \<Rightarrow> hd ns | n # _ \<Rightarrow> n)"

definition anchor_edge :: "string \<Rightarrow> node_row \<Rightarrow> node_row \<Rightarrow> edge_row list \<Rightarrow> edge_row list store_proc" where
  "anchor_edge workspace_id anchor n created =
     (if nd_node_id n = nd_node_id anchor then ret created
      else
        and_then
          (create_graph_edge workspace_id (nd_node_id anchor) (nd_node_id n)
             (edge_type_for_node_type (nd_node_type n)) (nd_object_ref_type n) (nd_object_ref_id n)
             (fl (8 / 10)) (if opt_text (nd_claim_id n) = [] then None else nd_claim_id n)
             (VDict (dict_put ''anchor_claim_id'' (opt_str (nd_claim_id anchor)) (nd_source_ref n)))
             ''active'') (\<lambda>e.
        and_then (require NoneSubscript e) (\<lambda>e. ret (created @ [e]))))"

definition source_edges ::
  "string \<Rightarrow> string list \<Rightarrow> string \<times> node_row list \<Rightarrow> edge_row list \<Rightarrow> edge_row list store_proc"
where
  "source_edges workspace_id related source_nodes created =
     (if fst source_nodes \<in> set related then ret created
      else fold_proc (anchor_edge workspace_id (anchor_of (snd source_nodes))) (snd source_nodes) created)"

section \<open>Building\<close>

definition archived_object_refs :: "node_row list \<Rightarrow> (string \<times> string) list" where
  "archived_object_refs ns =
     map (\<lambda>n. (nd_object_ref_type n, nd_object_ref_id n)) (filter (\<lambda>n. nd_status n = ''archived'') ns)"

definition built_graph_payload :: "projection \<Rightarrow> edge_row list \<Rightarrow> payload" where
  "built_graph_payload p created_edges =
     [(''node_count'', VInt (int (length (pj_created p)))),
      (''edge_count'', VInt (int (length created_edges))),
      (''source_ids'', VList (map VStr (sort (map fst (pj_source_nodes p))))),
      (''skipped_archived_count'', VInt (int (pj_skipped_archived p))),
      (''skipped_missing_traceability_count'', VInt (int (pj_skipped_untraceable p)))]"

record build_result =
  br_workspace_id :: string
  br_version_id :: string
  br_node_count :: nat
  br_edge_count :: nat

definition publish_build ::
  "string \<Rightarrow> string \<Rightarrow> nat \<Rightarrow> projection \<Rightarrow> edge_row list \<Rightarrow> build_result store_proc"
where
  "publish_build workspace_id request_id object_count p created_edges =
     (let ns = length (pj_created p); es = length created_edges in
      and_then
        (create_graph_version workspace_id ''confirm_candidate''
           (''build graph from '' @ int_str (int object_count) @ '' confirmed objects'')
           (built_graph_payload p created_edges) (Some request_id)) (\<lambda>created.
      and_then (require NoneSubscript created) (\<lambda>v.
      and_then
        (upsert_graph_workspace workspace_id (Some (vs_version_id v)) ''ready'' (int ns) (int es)) (\<lambda>stored.
      and_then (require NoneSubscript stored) (\<lambda>_.
      and_then
        (graph_event ''graph_build_completed'' request_id workspace_id ''build'' ''completed''
           [(''version_id'', VStr (vs_version_id v))]
           [(''node_count'', VInt (int ns)), (''edge_count'', VInt (int es)),
            (''skipped_missing_traceability_count'', VInt (int (pj_skipped_untraceable p)))]) (\<lambda>_.
      ret \<lparr>br_workspace_id = workspace_id, br_version_id = vs_version_id v, br_node_count = ns,
           br_edge_count = es\<rparr>))))))"

definition build_workspace_graph :: "string \<Rightarrow> string \<Rightarrow> string \<Rightarrow> build_result store_proc" where
  "build_workspace_graph unnamed workspace_id request_id =
     and_then (graph_event ''graph_build_started'' request_id workspace_id ''build'' ''started'' [] []) (\<lambda>_.
     and_then (list_confirmed_objects workspace_id) (\<lambda>objs.
     and_then (clear_graph_workspace workspace_id) (\<lambda>_.
     and_then (list_graph_nodes workspace_id) (\<lambda>ns.
     and_then
       (fold_proc (project_object unnamed workspace_id request_id (archived_object_refs ns)) objs no_projection)
       (\<lambda>p.
     and_then (list_relation_candidates workspace_id None None None) (\<lambda>relations.
     and_then (fold_proc (relation_edge workspace_id p) relations []) (\<lambda>created.
     and_then
       (fold_proc (source_edges workspace_id (map rl_source_id relations)) (pj_source_nodes p) created)
       (\<lambda>created.
     publish_build workspace_id request_id (length objs) p created))))))))"

end
