(* ===== verification/GraphBuildProps.thy ===== *)
theory GraphBuildProps
  imports GraphBuild ConfirmationReturns
begin

text \<open>
  What building a graph does: the earlier graph is closed, every confirmed object with a claim and a
  source gets one active node unless its node was archived, every resolved relation between two such
  objects gets one edge, and the other sources are joined to their anchors.
\<close>

section \<open>Loops over a list with the part that is done\<close>

lemma fold_proc_prefix:
  assumes "fold_proc body xs a s = (Inr b, s')" and "P [] a s"
    and step: "\<And>ys x zs a s b s'. xs = ys @ x # zs \<Longrightarrow> P ys a s \<Longrightarrow> body x a s = (Inr b, s') \<Longrightarrow> P (ys @ [x]) b s'"
  shows "P xs b s'"
proof -
  have "P (ys @ zs) b s'" if "xs = ys @ zs" "P ys a s" "fold_proc body zs a s = (Inr b, s')" for ys zs a s
    using that
  proof (induction zs arbitrary: ys a s)
    case Nil
    then show ?case by (simp add: ret_apply)
  next
    case (Cons z zs)
    then obtain a1 s1 where "body z a s = (Inr a1, s1)" "fold_proc body zs a1 s1 = (Inr b, s')"
      by (auto simp: and_then_Inr_iff)
    then show ?case using Cons.IH [of "ys @ [z]"] step [OF Cons.prems(1,2)] Cons.prems(1) by simp
  qed
  from this [of "[]" xs] show ?thesis using assms(1,2) by simp
qed

section \<open>Nodes\<close>

definition projectable :: "(string \<times> string) list \<Rightarrow> object_view \<Rightarrow> bool" where
  "projectable archived o1 \<longleftrightarrow> (ob_object_type o1, ob_object_id o1) \<notin> set archived \<and>
     strip (opt_text (ob_claim_id o1)) \<noteq> [] \<and> strip (ob_source_id o1) \<noteq> []"

definition shows_object :: "string \<Rightarrow> string \<Rightarrow> object_view \<Rightarrow> node_row \<Rightarrow> bool" where
  "shows_object unnamed w o1 n \<longleftrightarrow>
     nd_workspace_id n = w \<and> nd_status n = ''active'' \<and>
     nd_node_type n = node_type_for_object_type (ob_object_type o1) \<and>
     nd_object_ref_type n = ob_object_type o1 \<and> nd_object_ref_id n = ob_object_id o1 \<and>
     nd_short_label n = build_short_label unnamed (ob_text o1) \<and> nd_full_description n = ob_text o1 \<and>
     nd_short_tags n = (let ty = strip (opt_text (ob_semantic_type o1)) in if ty = [] then [] else [ty]) \<and>
     nd_visibility n = ''workspace'' \<and> nd_claim_id n = Some (strip (opt_text (ob_claim_id o1))) \<and>
     nd_source_ref n = build_graph_source_ref o1 \<and> nd_source_refs n = object_source_refs o1"

lemma build_graph_source_ref_Nil:
  "build_graph_source_ref o1 = [] \<longleftrightarrow> strip (opt_text (ob_claim_id o1)) = [] \<or> strip (ob_source_id o1) = []"
  by (simp add: build_graph_source_ref_def Let_def)

lemma graph_event_Inr:
  assumes "graph_event name q w st stat refs ms s = (Inr x, s')"
  obtains e d t where "s' = s\<lparr>drawn := d, ticks := t, event_rows := event_rows s @ [e]\<rparr>"
    and "evt_workspace_id e = Some w" and "evt_event_name e = name"
  using assms unfolding graph_event_def
  by (cases rule: emit_event_cases) (auto simp: event_args_def)

lemma project_object_skips:
  assumes "project_object unnamed w q arch o1 p s = (Inr p', s')" and "\<not> projectable arch o1"
  obtains evs d t where "s' = s\<lparr>drawn := d, ticks := t, event_rows := event_rows s @ evs\<rparr>"
    and "\<forall>e \<in> set evs. evt_workspace_id e = Some w"
    and "pj_created p' = pj_created p" and "pj_source_nodes p' = pj_source_nodes p"
    and "pj_candidate_nodes p' = pj_candidate_nodes p"
proof (cases "(ob_object_type o1, ob_object_id o1) \<in> set arch")
  case True
  then show thesis
    using assms(1)
    by (intro that [where evs = "[]" and d = "drawn s" and t = "ticks s"])
      (auto simp: project_object_def Let_def ret_apply)
next
  case False
  then have no: "strip (opt_text (ob_claim_id o1)) = [] \<or> build_graph_source_ref o1 = []"
    using assms(2) by (simp add: projectable_def build_graph_source_ref_Nil)
  then obtain refs x where
      "graph_event ''graph_projection_skipped'' q w ''projection'' ''skipped'' refs [] s = (Inr x, s')"
    and p: "p' = p\<lparr>pj_skipped_untraceable := pj_skipped_untraceable p + 1\<rparr>"
    using assms(1) False by (auto simp: project_object_def Let_def and_then_Inr_iff ret_apply)
  from this(1) obtain e d t where "s' = s\<lparr>drawn := d, ticks := t, event_rows := event_rows s @ [e]\<rparr>"
    "evt_workspace_id e = Some w" by (rule graph_event_Inr)
  then show thesis by (intro that [where evs = "[e]" and d = d and t = t]) (simp_all add: p)
qed

lemma create_graph_node_Inr:
  assumes "create_graph_node w ty rt ri lab desc tags vis srefs c sref st s = (Inr x, s')" and "vis \<noteq> []"
  obtains n i t where "x = Some n" and "s' = s\<lparr>drawn := Suc (drawn s), ticks := Suc (ticks s), node_rows := node_rows s @ [n]\<rparr>"
    and "n = \<lparr>nd_node_id = i, nd_workspace_id = w, nd_node_type = ty,
          nd_object_ref_type = rt, nd_object_ref_id = ri,
          nd_short_label = lab, nd_full_description = desc,
          nd_short_tags = normalize_tags [] tags, nd_visibility = vis,
          nd_source_refs = dicts_of srefs, nd_claim_id = c,
          nd_source_ref = dict_or_empty sref, nd_status = st, nd_created_at = t, nd_updated_at = t\<rparr>"
    and "i \<notin> nd_node_id ` set (node_rows s)"
  using assms
  by (auto simp: create_graph_node_def get_graph_node_def node_view_def and_then_def proc_simps insert_row_def
      select_key_append select_key_fresh split: if_splits)

lemma project_object_adds:
  assumes "project_object unnamed w q arch o1 p s = (Inr p', s')" and "projectable arch o1"
  obtains n where "s' = s\<lparr>drawn := Suc (drawn s), ticks := Suc (ticks s), node_rows := node_rows s @ [n]\<rparr>"
    and "shows_object unnamed w o1 n" and "p' = note_node o1 n p"
    and "nd_node_id n \<notin> nd_node_id ` set (node_rows s)"
proof -
  let ?c = "strip (opt_text (ob_claim_id o1))" and ?ty = "strip (opt_text (ob_semantic_type o1))"
  obtain x n where new: "create_graph_node w (node_type_for_object_type (ob_object_type o1))
      (ob_object_type o1) (ob_object_id o1) (build_short_label unnamed (ob_text o1)) (ob_text o1)
      (if ?ty = [] then [] else [?ty]) ''workspace'' (map VDict (object_source_refs o1)) (Some ?c)
      (VDict (build_graph_source_ref o1)) ''active'' s = (Inr x, s')"
    and x: "x = Some n" "p' = note_node o1 n p"
    using assms
    by (auto simp: project_object_def projectable_def build_graph_source_ref_Nil Let_def and_then_Inr_iff
        ret_apply require_apply split: option.splits)
  show thesis
    by (rule create_graph_node_Inr [OF new])
      (use x in \<open>auto simp: shows_object_def Let_def dicts_of_def dict_or_empty_def object_source_refs_def intro!: that\<close>)
qed

text \<open>
  The nodes of the loop, each with its object. \<open>noted ps p\<close>: the local variables of the loop say
  what these pairs say.
\<close>

definition from_source :: "string \<Rightarrow> (object_view \<times> node_row) list \<Rightarrow> node_row list" where
  "from_source src ps = map snd (filter (\<lambda>(o1, n). ob_source_id o1 = src) ps)"

definition add_new :: "'a \<Rightarrow> 'a list \<Rightarrow> 'a list" where
  "add_new x xs = (if x \<in> set xs then xs else xs @ [x])"

definition sources_of :: "(object_view \<times> node_row) list \<Rightarrow> string list" where
  "sources_of ps = fold (add_new \<circ> ob_source_id \<circ> fst) ps []"

lemma sources_of_snoc: "sources_of (ps @ [(o1, n)]) = add_new (ob_source_id o1) (sources_of ps)"
  by (simp add: sources_of_def)

lemma distinct_sources_of: "distinct (sources_of ps)"
proof (induction ps rule: rev_induct)
  case Nil
  show ?case by (simp add: sources_of_def)
next
  case (snoc x ps)
  then show ?case by (cases x) (simp add: sources_of_snoc add_new_def)
qed

definition noted :: "(object_view \<times> node_row) list \<Rightarrow> projection \<Rightarrow> bool" where
  "noted ps p \<longleftrightarrow> pj_created p = map snd ps \<and>
     map fst (pj_source_nodes p) = sources_of ps \<and>
     (\<forall>src. map_of (pj_source_nodes p) src =
        (if from_source src ps = [] then None else Some (from_source src ps))) \<and>
     (\<forall>c. map_of (pj_candidate_nodes p) c =
        (if c = [] then None else map_of (rev (map (\<lambda>(o1, n). (ob_candidate_id o1, (n, o1))) ps)) c))"

lemma noted_Nil: "noted [] no_projection"
  by (simp add: noted_def no_projection_def from_source_def sources_of_def)

lemma noted_note:
  assumes "noted ps p"
  shows "noted (ps @ [(o1, n)]) (note_node o1 n p)"
proof -
  have "(ob_source_id o1 \<in> fst ` set (pj_source_nodes p)) = (ob_source_id o1 \<in> set (sources_of ps))"
    using assms by (metis list.set_map noted_def)
  then have "map fst (pj_source_nodes (note_node o1 n p)) = sources_of (ps @ [(o1, n)])"
    using assms by (simp add: noted_def note_node_def Let_def keys_dict_put sources_of_snoc add_new_def)
  then show ?thesis
    using assms by (auto simp: noted_def note_node_def Let_def from_source_def split: option.splits)
qed

lemma noted_same:
  assumes "noted ps p" "pj_created p' = pj_created p" "pj_source_nodes p' = pj_source_nodes p"
    "pj_candidate_nodes p' = pj_candidate_nodes p"
  shows "noted ps p'"
  using assms by (simp add: noted_def)

definition nodes_added ::
  "string \<Rightarrow> string \<Rightarrow> (string \<times> string) list \<Rightarrow> store \<Rightarrow> object_view list \<Rightarrow> (object_view \<times> node_row) list \<Rightarrow>
   store \<Rightarrow> bool"
where
  "nodes_added unnamed w arch s0 objs ps s \<longleftrightarrow> map fst ps = filter (projectable arch) objs \<and>
     (\<forall>(o1, n) \<in> set ps. shows_object unnamed w o1 n) \<and>
     distinct (map (nd_node_id \<circ> snd) ps) \<and>
     (\<forall>(o1, n) \<in> set ps. nd_node_id n \<notin> nd_node_id ` set (node_rows s0)) \<and>
     (\<exists>evs d t. s = s0\<lparr>drawn := d, ticks := t, node_rows := node_rows s0 @ map snd ps,
                     event_rows := event_rows s0 @ evs\<rparr> \<and>
        (\<forall>e \<in> set evs. evt_workspace_id e = Some w))"

lemma nodes_addedI:
  assumes "map fst ps = filter (projectable arch) objs" "\<forall>(o1, n) \<in> set ps. shows_object unnamed w o1 n"
    and "distinct (map (nd_node_id \<circ> snd) ps)"
    and "\<forall>(o1, n) \<in> set ps. nd_node_id n \<notin> nd_node_id ` set (node_rows s0)"
    and "s = s0\<lparr>drawn := d, ticks := t, node_rows := node_rows s0 @ map snd ps,
              event_rows := event_rows s0 @ evs\<rparr>" "\<forall>e \<in> set evs. evt_workspace_id e = Some w"
  shows "nodes_added unnamed w arch s0 objs ps s"
  using assms unfolding nodes_added_def by blast

lemma nodes_added_Nil: "nodes_added unnamed w arch s [] [] s"
  by (rule nodes_addedI [where evs = "[]" and d = "drawn s" and t = "ticks s"]) simp_all

lemma project_object_step:
  assumes "project_object unnamed w q arch o1 p s = (Inr p', s')"
    and "nodes_added unnamed w arch s0 objs ps s" and "noted ps p"
  shows "\<exists>ps'. nodes_added unnamed w arch s0 (objs @ [o1]) ps' s' \<and> noted ps' p'"
proof -
  obtain evs d t where s: "s = s0\<lparr>drawn := d, ticks := t, node_rows := node_rows s0 @ map snd ps,
                     event_rows := event_rows s0 @ evs\<rparr>" and ev: "\<forall>e \<in> set evs. evt_workspace_id e = Some w"
    and ps: "map fst ps = filter (projectable arch) objs" "\<forall>(o1, n) \<in> set ps. shows_object unnamed w o1 n"
      "distinct (map (nd_node_id \<circ> snd) ps)" "\<forall>(o1, n) \<in> set ps. nd_node_id n \<notin> nd_node_id ` set (node_rows s0)"
    using assms(2) by (auto simp: nodes_added_def)
  show ?thesis
  proof (cases "projectable arch o1")
    case True
    obtain n where n: "s' = s\<lparr>drawn := Suc (drawn s), ticks := Suc (ticks s), node_rows := node_rows s @ [n]\<rparr>"
      "shows_object unnamed w o1 n" "p' = note_node o1 n p" "nd_node_id n \<notin> nd_node_id ` set (node_rows s)"
      by (rule project_object_adds [OF assms(1) True])
    have "nodes_added unnamed w arch s0 (objs @ [o1]) (ps @ [(o1, n)]) s'"
      by (rule nodes_addedI [where evs = evs and d = "Suc d" and t = "Suc t"])
        (use ps ev n True in \<open>auto simp: s\<close>)
    then show ?thesis using noted_note [OF assms(3)] n(3) by blast
  next
    case False
    obtain evs' d' t' where e: "s' = s\<lparr>drawn := d', ticks := t', event_rows := event_rows s @ evs'\<rparr>"
      "\<forall>e \<in> set evs'. evt_workspace_id e = Some w"
      and same: "pj_created p' = pj_created p" "pj_source_nodes p' = pj_source_nodes p"
        "pj_candidate_nodes p' = pj_candidate_nodes p"
      by (rule project_object_skips [OF assms(1) False])
    have "nodes_added unnamed w arch s0 (objs @ [o1]) ps s'"
      by (rule nodes_addedI [where evs = "evs @ evs'" and d = d' and t = t'])
        (use ps ev e False in \<open>auto simp: s\<close>)
    then show ?thesis using noted_same [OF assms(3) same] by blast
  qed
qed

lemma project_objects_result:
  assumes "fold_proc (project_object unnamed w q arch) objs no_projection s = (Inr p, s')"
  obtains ps where "nodes_added unnamed w arch s objs ps s'" "noted ps p"
proof -
  have "\<exists>ps. nodes_added unnamed w arch s objs ps s' \<and> noted ps p"
    by (rule fold_proc_prefix [OF assms, where P = "\<lambda>xs p t. \<exists>ps. nodes_added unnamed w arch s xs ps t \<and> noted ps p"])
      (use nodes_added_Nil noted_Nil project_object_step in blast)+
  then show thesis using that by blast
qed

end
