(* ===== verification/GraphBuildEdges.thy ===== *)
theory GraphBuildEdges
  imports GraphBuildProps
begin

text \<open>
  The edges of a build: one for each resolved relation between two new nodes, and one from the anchor
  of each source without relations to each of its other nodes.
\<close>

section \<open>Adding edges\<close>

definition edges_added :: "store \<Rightarrow> edge_row list \<Rightarrow> store \<Rightarrow> bool" where
  "edges_added s0 es s \<longleftrightarrow>
     (\<exists>d t. s = s0\<lparr>drawn := d, ticks := t, edge_rows := edge_rows s0 @ es\<rparr>) \<and>
     distinct (map eg_edge_id es) \<and> eg_edge_id ` set es \<inter> eg_edge_id ` set (edge_rows s0) = {}"

lemma edges_added_Nil: "edges_added s [] s"
proof -
  have "s = s\<lparr>drawn := drawn s, ticks := ticks s, edge_rows := edge_rows s @ []\<rparr>" by simp
  then have "\<exists>d t. s = s\<lparr>drawn := d, ticks := t, edge_rows := edge_rows s @ []\<rparr>" by blast
  then show ?thesis by (simp add: edges_added_def)
qed

lemma edges_added_snoc:
  assumes "edges_added s0 es s" and "s' = s\<lparr>drawn := d, ticks := t, edge_rows := edge_rows s @ [e]\<rparr>"
    and "eg_edge_id e \<notin> eg_edge_id ` set (edge_rows s)"
  shows "edges_added s0 (es @ [e]) s'"
  using assms unfolding edges_added_def by fastforce

lemma create_graph_edge_Inr:
  assumes "and_then (create_graph_edge w a b ty rt ri x c sref st)
      (\<lambda>e. and_then (require NoneSubscript e) (\<lambda>e. ret (created @ [e]))) s = (Inr es, s')"
  obtains e where "es = created @ [e]"
    and "s' = s\<lparr>drawn := Suc (drawn s), ticks := Suc (ticks s), edge_rows := edge_rows s @ [e]\<rparr>"
    and "eg_edge_id e \<notin> eg_edge_id ` set (edge_rows s)"
    and "eg_workspace_id e = w" "eg_source_node_id e = a" "eg_target_node_id e = b" "eg_edge_type e = ty"
      "eg_object_ref_type e = rt" "eg_object_ref_id e = ri" "eg_strength e = x" "eg_claim_id e = c"
      "eg_source_ref e = dict_or_empty sref" "eg_status e = st"
  using assms
  by (auto simp: create_graph_edge_def get_graph_edge_def and_then_def proc_simps insert_row_def
      select_key_append select_key_fresh split: if_splits)

section \<open>Relations\<close>

definition node_for :: "(object_view \<times> node_row) list \<Rightarrow> string \<Rightarrow> (node_row \<times> object_view) option" where
  "node_for ps c =
     (if c = [] then None else map_of (rev (map (\<lambda>(o1, n). (ob_candidate_id o1, (n, o1))) ps)) c)"

definition linkable :: "(object_view \<times> node_row) list \<Rightarrow> relation_row \<Rightarrow> bool" where
  "linkable ps rel \<longleftrightarrow> rl_relation_status rel = ''resolved'' \<and> strip (opt_text (rl_relation_type rel)) \<noteq> [] \<and>
     node_for ps (opt_text (rl_source_candidate_id rel)) \<noteq> None \<and>
     node_for ps (opt_text (rl_target_candidate_id rel)) \<noteq> None"

definition shows_relation :: "(object_view \<times> node_row) list \<Rightarrow> string \<Rightarrow> relation_row \<Rightarrow> edge_row \<Rightarrow> bool" where
  "shows_relation ps w rel e \<longleftrightarrow> eg_workspace_id e = w \<and> eg_status e = ''active'' \<and>
     eg_edge_type e = strip (opt_text (rl_relation_type rel)) \<and> eg_object_ref_type e = ''relation_candidate'' \<and>
     eg_object_ref_id e = rl_relation_candidate_id rel \<and> eg_strength e = fl (9 / 10) \<and>
     (\<exists>a oa b ob. node_for ps (opt_text (rl_source_candidate_id rel)) = Some (a, oa) \<and>
        node_for ps (opt_text (rl_target_candidate_id rel)) = Some (b, ob) \<and>
        eg_source_node_id e = nd_node_id a \<and> eg_target_node_id e = nd_node_id b \<and>
        eg_claim_id e = nd_claim_id b \<and> eg_source_ref e = build_edge_source_ref oa ob rel)"

lemma node_for_pair: "node_for ps c = Some (n, o1) \<Longrightarrow> (o1, n) \<in> set ps \<and> ob_candidate_id o1 = c"
  by (auto simp: node_for_def split: if_splits dest!: map_of_SomeD)

lemma relation_edge_step:
  assumes "relation_edge w p rel created s = (Inr es, s')" and "noted ps p"
    and "\<forall>(o1, n) \<in> set ps. projectable arch o1 \<and> shows_object unnamed w o1 n"
    and "edges_added s0 created s" and "list_all2 (shows_relation ps w) (filter (linkable ps) rels) created"
  shows "edges_added s0 es s' \<and> list_all2 (shows_relation ps w) (filter (linkable ps) (rels @ [rel])) es"
proof -
  have cand: "map_of (pj_candidate_nodes p) c = node_for ps c" for c
    using assms(2) by (simp add: noted_def node_for_def)
  show ?thesis
  proof (cases "linkable ps rel")
    case False
    then have "es = created \<and> s' = s"
      using assms(1) by (auto simp: relation_edge_def Let_def cand linkable_def ret_apply split: option.splits if_splits)
    then show ?thesis using False assms(4,5) by simp
  next
    case True
    then obtain a oa b ob where ends: "node_for ps (opt_text (rl_source_candidate_id rel)) = Some (a, oa)"
        "node_for ps (opt_text (rl_target_candidate_id rel)) = Some (b, ob)"
      by (auto simp: linkable_def)
    let ?c = "strip (opt_text (ob_claim_id ob))"
    have b: "projectable arch ob" "shows_object unnamed w ob b"
      using node_for_pair [OF ends(2)] assms(3) by auto
    then have ok: "?c \<noteq> []" "nd_claim_id b = Some ?c" "build_edge_source_ref oa ob rel \<noteq> []"
      by (auto simp: projectable_def shows_object_def build_edge_source_ref_def Let_def build_graph_source_ref_Nil)
    have "and_then (create_graph_edge w (nd_node_id a) (nd_node_id b) (strip (opt_text (rl_relation_type rel)))
        ''relation_candidate'' (rl_relation_candidate_id rel) (fl (9 / 10)) (Some ?c)
        (VDict (build_edge_source_ref oa ob rel)) ''active'')
      (\<lambda>e. and_then (require NoneSubscript e) (\<lambda>e. ret (created @ [e]))) s = (Inr es, s')"
      using assms(1) True ends ok by (simp add: relation_edge_def Let_def cand linkable_def)
    then obtain e where e: "es = created @ [e]"
        "s' = s\<lparr>drawn := Suc (drawn s), ticks := Suc (ticks s), edge_rows := edge_rows s @ [e]\<rparr>"
        "eg_edge_id e \<notin> eg_edge_id ` set (edge_rows s)"
      and "shows_relation ps w rel e"
      by (rule create_graph_edge_Inr) (use ends ok in \<open>simp add: shows_relation_def dict_or_empty_def\<close>)
    then show ?thesis using assms(5) True edges_added_snoc [OF assms(4) e(2,3)] by (simp add: list_all2_appendI)
  qed
qed

lemma relation_edges_result:
  assumes "fold_proc (relation_edge w p) rels [] s = (Inr es, s')" and "noted ps p"
    and "\<forall>(o1, n) \<in> set ps. projectable arch o1 \<and> shows_object unnamed w o1 n"
  shows "edges_added s es s' \<and> list_all2 (shows_relation ps w) (filter (linkable ps) rels) es"
  by (rule fold_proc_prefix [OF assms(1), where P = "\<lambda>xs es t. edges_added s es t \<and>
        list_all2 (shows_relation ps w) (filter (linkable ps) xs) es"])
    (use edges_added_Nil relation_edge_step [OF _ assms(2,3)] in \<open>simp, blast\<close>)

section \<open>Anchors\<close>

definition shows_anchor :: "string \<Rightarrow> node_row \<times> node_row \<Rightarrow> edge_row \<Rightarrow> bool" where
  "shows_anchor w an e \<longleftrightarrow> eg_workspace_id e = w \<and> eg_status e = ''active'' \<and>
     eg_source_node_id e = nd_node_id (fst an) \<and> eg_target_node_id e = nd_node_id (snd an) \<and>
     eg_edge_type e = edge_type_for_node_type (nd_node_type (snd an)) \<and>
     eg_object_ref_type e = nd_object_ref_type (snd an) \<and> eg_object_ref_id e = nd_object_ref_id (snd an) \<and>
     eg_strength e = fl (8 / 10) \<and>
     eg_claim_id e = (if opt_text (nd_claim_id (snd an)) = [] then None else nd_claim_id (snd an)) \<and>
     eg_source_ref e = dict_put ''anchor_claim_id'' (opt_str (nd_claim_id (fst an))) (nd_source_ref (snd an))"

definition anchored :: "node_row list \<Rightarrow> (node_row \<times> node_row) list" where
  "anchored ns = map (Pair (anchor_of ns)) (filter (\<lambda>n. nd_node_id n \<noteq> nd_node_id (anchor_of ns)) ns)"

definition anchored_sources ::
  "string list \<Rightarrow> (string \<times> node_row list) list \<Rightarrow> (node_row \<times> node_row) list"
where
  "anchored_sources related groups =
     concat (map (anchored \<circ> snd) (filter (\<lambda>g. fst g \<notin> set related) groups))"

lemma anchor_edges_result:
  assumes "fold_proc (anchor_edge w a) ns created s = (Inr es, s')" and "edges_added s0 created s"
    and "list_all2 (shows_anchor w) ps new" and "created = old @ new"
  shows "edges_added s0 es s' \<and> (\<exists>new. es = old @ new \<and> list_all2 (shows_anchor w)
    (ps @ map (Pair a) (filter (\<lambda>n. nd_node_id n \<noteq> nd_node_id a) ns)) new)"
proof (rule fold_proc_prefix [OF assms(1), where P = "\<lambda>xs es t. edges_added s0 es t \<and>
      (\<exists>new. es = old @ new \<and> list_all2 (shows_anchor w)
         (ps @ map (Pair a) (filter (\<lambda>n. nd_node_id n \<noteq> nd_node_id a) xs)) new)"])
  show "edges_added s0 created s \<and> (\<exists>new. created = old @ new \<and> list_all2 (shows_anchor w)
         (ps @ map (Pair a) (filter (\<lambda>n. nd_node_id n \<noteq> nd_node_id a) [])) new)"
    using assms(2-4) by simp
next
  fix ys n zs es1 s1 es2 s2
  assume inv: "edges_added s0 es1 s1 \<and> (\<exists>new. es1 = old @ new \<and> list_all2 (shows_anchor w)
         (ps @ map (Pair a) (filter (\<lambda>n. nd_node_id n \<noteq> nd_node_id a) ys)) new)"
    and run: "anchor_edge w a n es1 s1 = (Inr es2, s2)"
  then obtain new where new: "es1 = old @ new" "list_all2 (shows_anchor w)
         (ps @ map (Pair a) (filter (\<lambda>n. nd_node_id n \<noteq> nd_node_id a) ys)) new" by blast
  show "edges_added s0 es2 s2 \<and> (\<exists>new. es2 = old @ new \<and> list_all2 (shows_anchor w)
         (ps @ map (Pair a) (filter (\<lambda>n. nd_node_id n \<noteq> nd_node_id a) (ys @ [n]))) new)"
  proof (cases "nd_node_id n = nd_node_id a")
    case True
    then show ?thesis using inv run by (simp add: anchor_edge_def ret_apply)
  next
    case False
    let ?c = "if opt_text (nd_claim_id n) = [] then None else nd_claim_id n"
    have "and_then (create_graph_edge w (nd_node_id a) (nd_node_id n) (edge_type_for_node_type (nd_node_type n))
        (nd_object_ref_type n) (nd_object_ref_id n) (fl (8 / 10)) ?c
        (VDict (dict_put ''anchor_claim_id'' (opt_str (nd_claim_id a)) (nd_source_ref n))) ''active'')
      (\<lambda>e. and_then (require NoneSubscript e) (\<lambda>e. ret (es1 @ [e]))) s1 = (Inr es2, s2)"
      using run False by (simp add: anchor_edge_def)
    then obtain e where e: "es2 = es1 @ [e]"
        "s2 = s1\<lparr>drawn := Suc (drawn s1), ticks := Suc (ticks s1), edge_rows := edge_rows s1 @ [e]\<rparr>"
        "eg_edge_id e \<notin> eg_edge_id ` set (edge_rows s1)"
      and sh: "shows_anchor w (a, n) e"
      by (rule create_graph_edge_Inr) (simp add: shows_anchor_def dict_or_empty_def)
    have "list_all2 (shows_anchor w)
         (ps @ map (Pair a) (filter (\<lambda>n. nd_node_id n \<noteq> nd_node_id a) (ys @ [n]))) (new @ [e])"
      using list_all2_appendI [OF new(2), of "[(a, n)]" "[e]"] sh False by simp
    moreover have "edges_added s0 es2 s2"
      unfolding e(1) using inv by (intro edges_added_snoc [OF _ e(2,3)]) blast
    ultimately show ?thesis using e(1) new(1) by auto
  qed
qed

lemma source_edges_result:
  assumes "fold_proc (source_edges w related) groups created s = (Inr es, s')" and "edges_added s0 created s"
  shows "edges_added s0 es s' \<and>
    (\<exists>new. es = created @ new \<and> list_all2 (shows_anchor w) (anchored_sources related groups) new)"
proof (rule fold_proc_prefix [OF assms(1), where P = "\<lambda>xs es t. edges_added s0 es t \<and>
      (\<exists>new. es = created @ new \<and> list_all2 (shows_anchor w) (anchored_sources related xs) new)"])
  show "edges_added s0 created s \<and>
      (\<exists>new. created = created @ new \<and> list_all2 (shows_anchor w) (anchored_sources related []) new)"
    using assms(2) by (simp add: anchored_sources_def)
next
  fix ys g zs es1 s1 es2 s2
  assume inv: "edges_added s0 es1 s1 \<and>
      (\<exists>new. es1 = created @ new \<and> list_all2 (shows_anchor w) (anchored_sources related ys) new)"
    and run: "source_edges w related g es1 s1 = (Inr es2, s2)"
  then obtain new where new: "es1 = created @ new" "list_all2 (shows_anchor w) (anchored_sources related ys) new"
    by blast
  show "edges_added s0 es2 s2 \<and>
      (\<exists>new. es2 = created @ new \<and> list_all2 (shows_anchor w) (anchored_sources related (ys @ [g])) new)"
  proof (cases "fst g \<in> set related")
    case True
    then show ?thesis using inv run by (simp add: source_edges_def ret_apply anchored_sources_def)
  next
    case False
    then have "fold_proc (anchor_edge w (anchor_of (snd g))) (snd g) es1 s1 = (Inr es2, s2)"
      using run by (simp add: source_edges_def)
    from anchor_edges_result [OF this conjunct1 [OF inv] new(2,1)] show ?thesis
      using False by (simp add: anchored_sources_def anchored_def)
  qed
qed

lemma in_anchored: "(a, n) \<in> set (anchored ns) \<longleftrightarrow> n \<in> set ns \<and> a = anchor_of ns \<and> nd_node_id n \<noteq> nd_node_id a"
  by (auto simp: anchored_def)

lemma noted_groups:
  assumes "noted ps p"
  shows "pj_source_nodes p = map (\<lambda>src. (src, from_source src ps)) (map fst (pj_source_nodes p))"
    and "set (map fst (pj_source_nodes p)) = ob_source_id ` fst ` set ps"
proof -
  have in_groups: "(src, g) \<in> set (pj_source_nodes p) \<longleftrightarrow> g = from_source src ps \<and> g \<noteq> []" for src g
    using assms distinct_sources_of [of ps]
    by (subst map_of_eq_Some_iff [symmetric]) (auto simp: noted_def)
  then show "pj_source_nodes p = map (\<lambda>src. (src, from_source src ps)) (map fst (pj_source_nodes p))"
    unfolding map_map by (intro map_idI [symmetric]) (auto simp: o_def)
  have "from_source src ps \<noteq> [] \<longleftrightarrow> src \<in> ob_source_id ` fst ` set ps" for src
    by (force simp: from_source_def filter_empty_conv)
  then show "set (map fst (pj_source_nodes p)) = ob_source_id ` fst ` set ps"
    using in_groups by (force simp: image_iff)
qed

lemma noted_anchored_sources:
  assumes "noted ps p"
  shows "anchored_sources related (pj_source_nodes p) =
    concat (map (\<lambda>src. anchored (from_source src ps)) (filter (\<lambda>src. src \<notin> set related) (sources_of ps)))"
  using assms by (subst noted_groups(1) [OF assms]) (simp add: anchored_sources_def filter_map o_def noted_def)

lemma anchor_of_in: "ns \<noteq> [] \<Longrightarrow> anchor_of ns \<in> set ns"
  by (cases "filter (\<lambda>n. nd_node_type n = ''evidence'') ns")
    (auto simp: anchor_of_def filter_eq_Cons_iff)

end
