(* ===== verification/GraphBuildTheorems.thy ===== *)
theory GraphBuildTheorems
  imports GraphBuildEdges
begin

text \<open>
  The graph after a build, that a build returns, and that building twice shows the same objects and
  relations.
\<close>

section \<open>What a build leaves\<close>

definition open_nodes :: "string \<Rightarrow> store \<Rightarrow> node_row list" where
  "open_nodes w s = filter (\<lambda>n. nd_workspace_id n = w \<and> \<not> closed_status (nd_status n)) (node_rows s)"

definition open_edges :: "string \<Rightarrow> store \<Rightarrow> edge_row list" where
  "open_edges w s = filter (\<lambda>e. eg_workspace_id e = w \<and> \<not> closed_status (eg_status e)) (edge_rows s)"

definition confirmed_objects :: "string \<Rightarrow> store \<Rightarrow> object_view list" where
  "confirmed_objects w s = (case fst (list_confirmed_objects w s) of Inl _ \<Rightarrow> [] | Inr os \<Rightarrow> os)"

definition relation_list :: "string \<Rightarrow> store \<Rightarrow> relation_row list" where
  "relation_list w s = (case fst (list_relation_candidates w None None None s) of Inl _ \<Rightarrow> [] | Inr rs \<Rightarrow> rs)"

lemma confirmed_objects_apply: "list_confirmed_objects w s = (Inr (confirmed_objects w s), s)"
  and relation_list_apply: "list_relation_candidates w None None None s = (Inr (relation_list w s), s)"
  by (simp_all add: confirmed_objects_def list_confirmed_objects_def relation_list_def
      list_relation_candidates_def reading_apply)

definition archived_objects :: "string \<Rightarrow> store \<Rightarrow> (string \<times> string) list" where
  "archived_objects w s = archived_object_refs (filter (\<lambda>n. nd_workspace_id n = w) (node_rows s))"

definition anchor_pairs ::
  "string list \<Rightarrow> (object_view \<times> node_row) list \<Rightarrow> (node_row \<times> node_row) list"
where
  "anchor_pairs related ps = concat (map (\<lambda>src. anchored (from_source src ps))
     (filter (\<lambda>src. src \<notin> set related) (sources_of ps)))"

definition graph_built ::
  "string \<Rightarrow> string \<Rightarrow> store \<Rightarrow> (object_view \<times> node_row) list \<Rightarrow> store \<Rightarrow> bool"
where
  "graph_built unnamed w s ps s' \<longleftrightarrow>
     map snd ps = open_nodes w s' \<and> distinct (map nd_node_id (open_nodes w s')) \<and>
     map fst ps = filter (projectable (archived_objects w s)) (confirmed_objects w s) \<and>
     (\<forall>(o1, n) \<in> set ps. shows_object unnamed w o1 n) \<and>
     (\<exists>rs as. open_edges w s' = rs @ as \<and>
        list_all2 (shows_relation ps w) (filter (linkable ps) (relation_list w s)) rs \<and>
        list_all2 (shows_anchor w) (anchor_pairs (map rl_source_id (relation_list w s)) ps) as)"

text \<open>What the version says of the nodes and edges shown and of the objects left out.\<close>

definition build_diff ::
  "string \<Rightarrow> store \<Rightarrow> (object_view \<times> node_row) list \<Rightarrow> nat \<Rightarrow> nat \<Rightarrow> payload"
where
  "build_diff w s ps ns es =
     (let objs = confirmed_objects w s;
          archived = (\<lambda>o1. (ob_object_type o1, ob_object_id o1) \<in> set (archived_objects w s))
      in [(''node_count'', VInt (int ns)), (''edge_count'', VInt (int es)),
          (''source_ids'', VList (map VStr (sorted_list_of_set (ob_source_id ` fst ` set ps)))),
          (''skipped_archived_count'', VInt (int (length (filter archived objs)))),
          (''skipped_missing_traceability_count'', VInt (int (length
            (filter (\<lambda>o1. \<not> archived o1 \<and> \<not> projectable (archived_objects w s) o1) objs))))])"

definition graph_published ::
  "string \<Rightarrow> string \<Rightarrow> (object_view \<times> node_row) list \<Rightarrow> build_result \<Rightarrow> store \<Rightarrow> store \<Rightarrow> bool"
where
  "graph_published w q ps r s s' \<longleftrightarrow>
     br_workspace_id r = w \<and> br_node_count r = length (open_nodes w s') \<and>
     br_edge_count r = length (open_edges w s') \<and>
     (\<exists>v. version_rows s' = version_rows s @ [v] \<and> vs_version_id v = br_version_id r \<and>
        vs_version_id v \<notin> vs_version_id ` set (version_rows s) \<and>
        vs_workspace_id v = w \<and> vs_request_id v = Some q \<and> vs_trigger_type v = ''confirm_candidate'' \<and>
        vs_change_summary v = ''build graph from '' @ int_str (int (length (confirmed_objects w s))) @
          '' confirmed objects'' \<and>
        vs_diff_payload v = build_diff w s ps (length (open_nodes w s')) (length (open_edges w s'))) \<and>
     (\<exists>g. select_key ws_workspace_id w (workspace_rows s') = Some g \<and>
        ws_latest_version_id g = Some (br_version_id r) \<and> ws_status g = ''ready'' \<and>
        ws_node_count g = int (length (open_nodes w s')) \<and>
        ws_edge_count g = int (length (open_edges w s')))"

lemma graph_builtD:
  assumes "graph_built u w s ps s'"
  shows "map snd ps = open_nodes w s'" "distinct (map nd_node_id (open_nodes w s'))"
    and "map fst ps = filter (projectable (archived_objects w s)) (confirmed_objects w s)"
    and "\<forall>(o1, n) \<in> set ps. shows_object u w o1 n"
  using assms by (simp_all add: graph_built_def)

section \<open>Closing the earlier graph\<close>

definition superseded_nodes :: "string \<Rightarrow> time \<Rightarrow> node_row list \<Rightarrow> node_row list" where
  "superseded_nodes w t = update_where (\<lambda>r. nd_workspace_id r = w \<and> \<not> closed_status (nd_status r))
     (\<lambda>r. r\<lparr>nd_status := ''superseded'', nd_updated_at := t\<rparr>)"

definition superseded_edges :: "string \<Rightarrow> time \<Rightarrow> edge_row list \<Rightarrow> edge_row list" where
  "superseded_edges w t = update_where (\<lambda>r. eg_workspace_id r = w \<and> \<not> closed_status (eg_status r))
     (\<lambda>r. r\<lparr>eg_status := ''superseded'', eg_updated_at := t\<rparr>)"

lemma clear_graph_workspace_apply:
  "clear_graph_workspace w s = (Inr (), s\<lparr>ticks := Suc (ticks s),
     node_rows := superseded_nodes w (clock s (ticks s)) (node_rows s),
     edge_rows := superseded_edges w (clock s (ticks s)) (edge_rows s)\<rparr>)"
  by (simp add: clear_graph_workspace_def superseded_nodes_def superseded_edges_def and_then_def now_def
      writing_apply)

lemma closed_superseded: "closed_status ''superseded''" "closed_status ''archived''" "\<not> closed_status ''active''"
  by (simp_all add: closed_status_def)

lemma no_open_nodes_superseded:
  "filter (\<lambda>n. nd_workspace_id n = w \<and> \<not> closed_status (nd_status n)) (superseded_nodes w t ns) = []"
  unfolding superseded_nodes_def update_where_def by (induction ns) (auto simp: closed_superseded)

lemma no_open_edges_superseded:
  "filter (\<lambda>n. eg_workspace_id n = w \<and> \<not> closed_status (eg_status n)) (superseded_edges w t es) = []"
  unfolding superseded_edges_def update_where_def by (induction es) (auto simp: closed_superseded)

lemma filter_update_apart:
  "(\<And>r. Q r \<Longrightarrow> \<not> P r \<and> \<not> P (f r)) \<Longrightarrow> filter P (update_where Q f rs) = filter P rs"
  unfolding update_where_def by (induction rs) auto

lemma archived_object_refs_view: "archived_object_refs (map node_view ns) = archived_object_refs ns"
  by (simp add: archived_object_refs_def node_view_def filter_map o_def)

lemma archived_superseded:
  "archived_object_refs (map node_view (filter (\<lambda>n. nd_workspace_id n = w) (superseded_nodes w t ns))) =
   archived_object_refs (filter (\<lambda>n. nd_workspace_id n = w) ns)"
proof -
  have "filter (\<lambda>n. nd_workspace_id n = w \<and> nd_status n = ''archived'') (superseded_nodes w t ns) =
      filter (\<lambda>n. nd_workspace_id n = w \<and> nd_status n = ''archived'') ns"
    unfolding superseded_nodes_def
  proof (rule filter_update_apart)
    fix r assume "nd_workspace_id r = w \<and> \<not> closed_status (nd_status r)"
    then have "nd_status r \<noteq> ''archived''" using closed_superseded(2) by metis
    then show "\<not> (nd_workspace_id r = w \<and> nd_status r = ''archived'') \<and>
        \<not> (nd_workspace_id (r\<lparr>nd_status := ''superseded'', nd_updated_at := t\<rparr>) = w \<and>
           nd_status (r\<lparr>nd_status := ''superseded'', nd_updated_at := t\<rparr>) = ''archived'')" by simp
  qed
  then show ?thesis
    unfolding archived_object_refs_view by (simp add: archived_object_refs_def)
qed

lemma other_nodes_superseded:
  "filter (\<lambda>n. nd_workspace_id n \<noteq> w) (superseded_nodes w t ns) = filter (\<lambda>n. nd_workspace_id n \<noteq> w) ns"
  unfolding superseded_nodes_def by (rule filter_update_apart) simp

lemma other_edges_superseded:
  "filter (\<lambda>n. eg_workspace_id n \<noteq> w) (superseded_edges w t es) = filter (\<lambda>n. eg_workspace_id n \<noteq> w) es"
  unfolding superseded_edges_def by (rule filter_update_apart) simp

section \<open>Publishing\<close>

lemma publish_build_result:
  assumes "publish_build w q k p es s = (Inr r, s')"
  obtains v g evs d t where "s' = s\<lparr>drawn := d, ticks := t, version_rows := version_rows s @ [v],
      workspace_rows := upserted g (workspace_rows s), event_rows := event_rows s @ evs\<rparr>"
    and "\<forall>e \<in> set evs. evt_workspace_id e = Some w"
    and "vs_version_id v = br_version_id r" "vs_version_id v \<notin> vs_version_id ` set (version_rows s)"
      "vs_workspace_id v = w" "vs_request_id v = Some q" "vs_diff_payload v = built_graph_payload p es"
      "vs_trigger_type v = ''confirm_candidate''"
      "vs_change_summary v = ''build graph from '' @ int_str (int k) @ '' confirmed objects''"
    and "ws_workspace_id g = w" "ws_latest_version_id g = Some (br_version_id r)" "ws_status g = ''ready''"
      "ws_node_count g = int (length (pj_created p))" "ws_edge_count g = int (length es)"
    and "br_workspace_id r = w" "br_node_count r = length (pj_created p)" "br_edge_count r = length es"
proof -
  let ?sm = "''build graph from '' @ int_str (int k) @ '' confirmed objects''"
  let ?m = "create_graph_version w ''confirm_candidate'' ?sm (built_graph_payload p es) (Some q)"
  obtain x s1 where m: "?m s = (x, s1)" by (cases "?m s")
  then show thesis
  proof (cases rule: create_graph_version_cases)
    case (taken k)
    then show thesis using assms m by (simp add: publish_build_def Let_def and_then_def)
  next
    case (created v)
    define g where "g = \<lparr>ws_workspace_id = w, ws_latest_version_id = Some (vs_version_id v), ws_status = ''ready'',
      ws_node_count = int (length (pj_created p)), ws_edge_count = int (length es), ws_updated_at = clock s1 (ticks s1)\<rparr>"
    define s2 where "s2 = s1\<lparr>ticks := Suc (ticks s1), workspace_rows := upserted g (workspace_rows s1)\<rparr>"
    obtain refs ms where e: "graph_event ''graph_build_completed'' q w ''build'' ''completed'' refs ms s2 = (Inr (), s')"
      and r: "r = \<lparr>br_workspace_id = w, br_version_id = vs_version_id v, br_node_count = length (pj_created p),
        br_edge_count = length es\<rparr>"
      using assms m created(1)
      by (auto simp: publish_build_def Let_def and_then_Inr_iff require_apply ret_apply upsert_apply s2_def g_def)
    obtain ev d t where "s' = s2\<lparr>drawn := d, ticks := t, event_rows := event_rows s2 @ [ev]\<rparr>"
      "evt_workspace_id ev = Some w" by (rule graph_event_Inr [OF e])
    then show thesis
      by (intro that [where v = v and g = g and evs = "[ev]" and d = d and t = t])
        (use created in \<open>simp_all add: r s2_def g_def\<close>)
  qed
qed

section \<open>The sources and the objects left out\<close>

lemma sorted_sources:
  assumes "noted ps p"
  shows "sort (map fst (pj_source_nodes p)) = sorted_list_of_set (ob_source_id ` fst ` set ps)"
proof -
  let ?xs = "map fst (pj_source_nodes p)"
  have "distinct ?xs" using assms distinct_sources_of [of ps] by (simp add: noted_def)
  then have "sort ?xs = sorted_list_of_set (set ?xs)"
    by (simp only: sorted_list_of_set_sort_remdups distinct_remdups_id)
  then show ?thesis unfolding noted_groups(2) [OF assms] .
qed

lemma project_object_skip_counts:
  assumes "project_object unnamed w q arch o1 p s = (Inr p', s')"
  shows "pj_skipped_archived p' = pj_skipped_archived p +
      (if (ob_object_type o1, ob_object_id o1) \<in> set arch then 1 else 0) \<and>
    pj_skipped_untraceable p' = pj_skipped_untraceable p +
      (if (ob_object_type o1, ob_object_id o1) \<notin> set arch \<and> \<not> projectable arch o1 then 1 else 0)"
  using assms
  by (auto simp: project_object_def projectable_def build_graph_source_ref_Nil note_node_def Let_def and_then_Inr_iff
      ret_apply split: if_splits)

lemma skips_counted:
  assumes "fold_proc (project_object unnamed w q arch) objs no_projection s = (Inr p, s')"
  shows "pj_skipped_archived p = length (filter (\<lambda>o1. (ob_object_type o1, ob_object_id o1) \<in> set arch) objs) \<and>
    pj_skipped_untraceable p = length (filter (\<lambda>o1. (ob_object_type o1, ob_object_id o1) \<notin> set arch \<and>
      \<not> projectable arch o1) objs)"
  by (rule fold_proc_prefix [OF assms, where P = "\<lambda>xs p _.
        pj_skipped_archived p = length (filter (\<lambda>o1. (ob_object_type o1, ob_object_id o1) \<in> set arch) xs) \<and>
        pj_skipped_untraceable p = length (filter (\<lambda>o1. (ob_object_type o1, ob_object_id o1) \<notin> set arch \<and>
          \<not> projectable arch o1) xs)"])
    (simp add: no_projection_def, drule project_object_skip_counts, simp)

section \<open>The whole build\<close>

lemma build_frame:
  assumes "build_workspace_graph unnamed w q s = (Inr r, s')"
  obtains ps ns es v g evs d t where "s' = s\<lparr>drawn := d, ticks := t, node_rows := ns @ map snd ps, edge_rows := es,
      version_rows := version_rows s @ [v], workspace_rows := upserted g (workspace_rows s),
      event_rows := event_rows s @ evs\<rparr>"
    and "\<exists>t. ns = superseded_nodes w t (node_rows s)"
    and "\<exists>t. es = superseded_edges w t (edge_rows s) @ open_edges w s'"
    and "\<forall>e \<in> set evs. evt_workspace_id e = Some w" "vs_workspace_id v = w" "ws_workspace_id g = w"
    and "graph_built unnamed w s ps s'" and "graph_published w q ps r s s'"
proof -
  let ?c = "confirmed_objects w s" and ?rels = "relation_list w s" and ?arch = "archived_objects w s"
  obtain s1 where start: "graph_event ''graph_build_started'' q w ''build'' ''started'' [] [] s = (Inr (), s1)"
    using assms by (auto simp: build_workspace_graph_def and_then_Inr_iff)
  obtain ev d1 t1 where s1: "s1 = s\<lparr>drawn := d1, ticks := t1, event_rows := event_rows s @ [ev]\<rparr>"
    and ev: "evt_workspace_id ev = Some w" by (rule graph_event_Inr [OF start])
  have objs: "confirmed_objects w s1 = ?c"
    by (simp add: s1 confirmed_objects_def list_confirmed_objects_def reading_apply claim_of_candidate_def
        list_claims_def cong: map_cong)
  define T where "T = clock s1 (ticks s1)"
  define s2 where "s2 = s1\<lparr>ticks := Suc (ticks s1), node_rows := superseded_nodes w T (node_rows s),
     edge_rows := superseded_edges w T (edge_rows s)\<rparr>"
  have clear: "clear_graph_workspace w s1 = (Inr (), s2)"
    by (simp add: clear_graph_workspace_apply s2_def T_def s1)
  have arch: "archived_object_refs (map node_view (filter (\<lambda>n. nd_workspace_id n = w) (node_rows s2))) = ?arch"
    by (simp add: s2_def archived_superseded archived_objects_def)
  obtain p s3 where loop: "fold_proc (project_object unnamed w q ?arch) ?c no_projection s2 = (Inr p, s3)"
    and rest: "and_then (list_relation_candidates w None None None) (\<lambda>relations.
     and_then (fold_proc (relation_edge w p) relations []) (\<lambda>created.
     and_then (fold_proc (source_edges w (map rl_source_id relations)) (pj_source_nodes p) created) (\<lambda>created.
     publish_build w q (length ?c) p created))) s3 = (Inr r, s')"
    using assms start
    by (auto simp: build_workspace_graph_def and_then_Inr_iff confirmed_objects_apply objs clear
        list_graph_nodes_def reading_apply arch)
  obtain ps where ps: "nodes_added unnamed w ?arch s2 ?c ps s3" "noted ps p"
    by (rule project_objects_result [OF loop])
  obtain evs1 d3 t3 where s3: "s3 = s2\<lparr>drawn := d3, ticks := t3, node_rows := node_rows s2 @ map snd ps,
                     event_rows := event_rows s2 @ evs1\<rparr>"
    and evs1: "\<forall>e \<in> set evs1. evt_workspace_id e = Some w"
    and fs: "map fst ps = filter (projectable ?arch) ?c" and sh: "\<forall>(o1, n) \<in> set ps. shows_object unnamed w o1 n"
    and dn: "distinct (map (nd_node_id \<circ> snd) ps)"
    using ps(1) by (auto simp: nodes_added_def)
  have rels: "relation_list w s3 = ?rels"
    by (simp add: s3 s2_def s1 relation_list_def list_relation_candidates_def reading_apply)
  obtain rs s4 es s5 where
      f1: "fold_proc (relation_edge w p) ?rels [] s3 = (Inr rs, s4)"
    and f2: "fold_proc (source_edges w (map rl_source_id ?rels)) (pj_source_nodes p) rs s4 = (Inr es, s5)"
    and f3: "publish_build w q (length ?c) p es s5 = (Inr r, s')"
    using rest by (auto simp: and_then_Inr_iff relation_list_apply rels)
  have "projectable ?arch o1" if "(o1, n) \<in> set ps" for o1 n
    using arg_cong [OF fs, of set] imageI [OF that, of fst] by auto
  then have "\<forall>(o1, n) \<in> set ps. projectable ?arch o1 \<and> shows_object unnamed w o1 n" using sh by auto
  note r1 = relation_edges_result [OF f1 ps(2) this]
  obtain as where e2: "edges_added s3 es s5" "es = rs @ as"
      "list_all2 (shows_anchor w) (anchored_sources (map rl_source_id ?rels) (pj_source_nodes p)) as"
    using source_edges_result [OF f2 conjunct1 [OF r1]] by blast
  obtain d5 t5 where s5: "s5 = s3\<lparr>drawn := d5, ticks := t5, edge_rows := edge_rows s3 @ es\<rparr>"
    using e2(1) by (auto simp: edges_added_def)
  obtain v g evs2 d t where s': "s' = s5\<lparr>drawn := d, ticks := t, version_rows := version_rows s5 @ [v],
      workspace_rows := upserted g (workspace_rows s5), event_rows := event_rows s5 @ evs2\<rparr>"
    and evs2: "\<forall>e \<in> set evs2. evt_workspace_id e = Some w"
    and v: "vs_version_id v = br_version_id r" "vs_version_id v \<notin> vs_version_id ` set (version_rows s5)"
      "vs_workspace_id v = w" "vs_request_id v = Some q" "vs_diff_payload v = built_graph_payload p es"
      "vs_trigger_type v = ''confirm_candidate''"
      "vs_change_summary v = ''build graph from '' @ int_str (int (length ?c)) @ '' confirmed objects''"
    and g: "ws_workspace_id g = w" "ws_latest_version_id g = Some (br_version_id r)" "ws_status g = ''ready''"
      "ws_node_count g = int (length (pj_created p))" "ws_edge_count g = int (length es)"
    and r: "br_workspace_id r = w" "br_node_count r = length (pj_created p)" "br_edge_count r = length es"
    by (rule publish_build_result [OF f3])
  have open_n: "open_nodes w s' = map snd ps"
  proof -
    have "filter (\<lambda>n. nd_workspace_id n = w \<and> \<not> closed_status (nd_status n)) (map snd ps) = map snd ps"
      using sh by (auto simp: filter_id_conv shows_object_def closed_superseded)
    then show ?thesis by (simp add: open_nodes_def s' s5 s3 s2_def no_open_nodes_superseded)
  qed
  have "eg_workspace_id e = w \<and> eg_status e = ''active''" if "e \<in> set es" for e
  proof -
    have "e \<in> set rs \<or> e \<in> set as" using that e2(2) by auto
    then show ?thesis
      using conjunct2 [OF r1] e2(3)
      by (auto simp: in_set_conv_nth list_all2_conv_all_nth shows_relation_def shows_anchor_def)
  qed
  then have "filter (\<lambda>e. eg_workspace_id e = w \<and> \<not> closed_status (eg_status e)) es = es"
    by (auto simp: filter_id_conv closed_superseded)
  then have open_e: "open_edges w s' = es"
    by (simp add: open_edges_def s' s5 s3 s2_def no_open_edges_superseded)
  have count: "pj_created p = map snd ps" using ps(2) by (simp add: noted_def)
  have built: "graph_built unnamed w s ps s'"
    unfolding graph_built_def open_n open_e
    using sh fs dn conjunct2 [OF r1] e2(2,3) noted_anchored_sources [OF ps(2)]
    by (auto simp: anchor_pairs_def)
  have sel: "select_key ws_workspace_id w (workspace_rows s') = Some g"
    using select_upserted [of g "workspace_rows s5"] g(1) by (simp add: s')
  have diff: "vs_diff_payload v = build_diff w s ps (length (map snd ps)) (length es)"
    using v(5) count sorted_sources [OF ps(2)] skips_counted [OF loop]
    by (simp add: built_graph_payload_def build_diff_def Let_def)
  have published: "graph_published w q ps r s s'"
    unfolding graph_published_def open_n open_e
    using v g r count sel diff by (auto simp: s' s5 s3 s2_def s1)
  have evs: "\<forall>e \<in> set (ev # evs1 @ evs2). evt_workspace_id e = Some w" using ev evs1 evs2 by auto
  show thesis
  proof (rule that [OF _ _ _ evs v(3) g(1) built published])
    show "s' = s\<lparr>drawn := d, ticks := t, node_rows := superseded_nodes w T (node_rows s) @ map snd ps,
        edge_rows := superseded_edges w T (edge_rows s) @ es, version_rows := version_rows s @ [v],
        workspace_rows := upserted g (workspace_rows s), event_rows := event_rows s @ ev # evs1 @ evs2\<rparr>"
      by (simp add: s' s5 s3 s2_def s1)
    show "\<exists>t. superseded_nodes w T (node_rows s) = superseded_nodes w t (node_rows s)" by blast
    show "\<exists>t. superseded_edges w T (edge_rows s) @ es = superseded_edges w t (edge_rows s) @ open_edges w s'"
      unfolding open_e by blast
  qed
qed

section \<open>A build returns\<close>

lemma clear_graph_workspace_never_raises: "never_raises (clear_graph_workspace w) (\<lambda>_. True)"
proof (rule never_raisesI)
  fix s :: store
  assume f: "fresh_ids s"
  have "nd_node_id ` set (superseded_nodes w t ns) = nd_node_id ` set ns" for t ns
    unfolding superseded_nodes_def update_where_def set_map image_image by (rule image_cong) auto
  moreover have "eg_edge_id ` set (superseded_edges w t es) = eg_edge_id ` set es" for t es
    unfolding superseded_edges_def update_where_def set_map image_image by (rule image_cong) auto
  ultimately have "fresh_ids (snd (clear_graph_workspace w s))"
    using f by (auto simp: clear_graph_workspace_apply fresh_defs unused_def)
  then show "\<exists>a s'. clear_graph_workspace w s = (Inr a, s') \<and> True \<and> fresh_ids s'"
    by (simp add: clear_graph_workspace_apply)
qed

lemma graph_event_never_raises: "never_raises (graph_event name q w st stat refs ms) (\<lambda>_. True)"
  by (simp add: graph_event_def emit_event_never_raises)

lemma list_graph_nodes_never_raises: "never_raises (list_graph_nodes w) (\<lambda>_. True)"
  by (simp add: list_graph_nodes_def never_raises_reading)

lemma project_object_never_raises: "never_raises (project_object unnamed w q arch o1 p) (\<lambda>_. True)"
  unfolding project_object_def Let_def
  by (auto intro!: never_raises_ret never_raises_and_then [OF graph_event_never_raises]
      never_raises_and_then [OF create_graph_node_never_raises]
      never_raises_and_then [OF require_some_never_raises])

lemma relation_edge_never_raises: "never_raises (relation_edge w p rel created) (\<lambda>_. True)"
  unfolding relation_edge_def Let_def
  by (auto intro!: never_raises_ret never_raises_and_then [OF create_graph_edge_never_raises]
      never_raises_and_then [OF require_some_never_raises] split: option.split)

lemma anchor_edge_never_raises: "never_raises (anchor_edge w a n created) (\<lambda>_. True)"
  unfolding anchor_edge_def
  by (auto intro!: never_raises_ret never_raises_and_then [OF create_graph_edge_never_raises]
      never_raises_and_then [OF require_some_never_raises])

lemma source_edges_never_raises: "never_raises (source_edges w related g created) (\<lambda>_. True)"
  unfolding source_edges_def by (auto intro!: never_raises_ret never_raises_fold anchor_edge_never_raises)

lemma publish_build_never_raises: "never_raises (publish_build w q k p es) (\<lambda>_. True)"
proof -
  have up: "never_raises (upsert_graph_workspace w v st n e) (\<lambda>x. x \<noteq> None)" for v st n e
    by (rule never_raisesI) (auto simp: upsert_apply Let_def intro: fresh_ids_step)
  show ?thesis
    unfolding publish_build_def Let_def
    by (intro never_raises_ret never_raises_and_then [OF create_graph_version_never_raises]
        never_raises_and_then [OF require_some_never_raises] never_raises_and_then [OF up]
        never_raises_and_then [OF graph_event_never_raises]) simp_all
qed

lemma build_never_raises: "never_raises (build_workspace_graph unnamed w q) (\<lambda>_. True)"
  unfolding build_workspace_graph_def
  by (intro never_raises_and_then [OF graph_event_never_raises]
      never_raises_and_then [OF list_confirmed_objects_never_raises]
      never_raises_and_then [OF clear_graph_workspace_never_raises]
      never_raises_and_then [OF list_graph_nodes_never_raises]
      never_raises_and_then [OF list_relation_candidates_never_raises]
      never_raises_and_then [OF never_raises_fold [OF project_object_never_raises]]
      never_raises_and_then [OF never_raises_fold [OF relation_edge_never_raises]]
      never_raises_and_then [OF never_raises_fold [OF source_edges_never_raises]]
      publish_build_never_raises)

section \<open>Building again\<close>

definition node_content ::
  "node_row \<Rightarrow> (string \<times> string \<times> string \<times> string \<times> string) \<times> string list \<times> string option \<times> payload \<times> payload list"
where
  "node_content n = ((nd_node_type n, nd_object_ref_type n, nd_object_ref_id n, nd_short_label n,
      nd_full_description n), nd_short_tags n, nd_claim_id n, nd_source_ref n, nd_source_refs n)"

lemma same_content:
  assumes "map fst ps = map fst ps'" "\<forall>(o1, n) \<in> set ps. shows_object u w o1 n" "\<forall>(o1, n) \<in> set ps'. shows_object u w o1 n"
  shows "map node_content (map snd ps) = map node_content (map snd ps')"
proof (rule nth_equalityI)
  show len: "length (map node_content (map snd ps)) = length (map node_content (map snd ps'))"
    using arg_cong [OF assms(1), of length] by simp
  fix i assume i: "i < length (map node_content (map snd ps))"
  then have i': "i < length ps" "i < length ps'" using len by simp_all
  obtain x n y m where xy: "ps ! i = (x, n)" "ps' ! i = (y, m)" by (metis surj_pair)
  have "fst (ps ! i) = fst (ps' ! i)" using assms(1) i' by (metis nth_map)
  then have "x = y" using xy by simp
  moreover have "shows_object u w x n" "shows_object u w y m"
    using assms(2,3) i' nth_mem xy by (metis case_prodD)+
  ultimately show "map node_content (map snd ps) ! i = map node_content (map snd ps') ! i"
    using i' xy by (simp add: node_content_def shows_object_def)
qed

lemma length_anchored:
  assumes "distinct (map nd_node_id ns)" "ns \<noteq> []"
  shows "length (anchored ns) = length ns - 1"
proof -
  have "set (filter (\<lambda>n. nd_node_id n = nd_node_id (anchor_of ns)) ns) = {anchor_of ns}"
    using anchor_of_in [OF assms(2)] assms(1) by (auto simp: distinct_map dest: inj_onD)
  moreover have "distinct ns" using assms(1) by (simp add: distinct_map)
  ultimately have "length (filter (\<lambda>n. nd_node_id n = nd_node_id (anchor_of ns)) ns) = 1"
    by (metis distinct_card distinct_filter is_singletonI is_singleton_altdef)
  then show ?thesis
    using sum_length_filter_compl [of "\<lambda>n. nd_node_id n = nd_node_id (anchor_of ns)" ns] by (simp add: anchored_def)
qed

text \<open>How many edges a build makes only depends on the objects and the relations.\<close>

definition edge_count :: "relation_row list \<Rightarrow> (object_view \<times> node_row) list \<Rightarrow> nat" where
  "edge_count rels ps = length (filter (linkable ps) rels) +
     (\<Sum>src \<leftarrow> filter (\<lambda>src. src \<notin> set (map rl_source_id rels)) (sources_of ps). length (from_source src ps) - 1)"

lemma graph_built_edge_count:
  assumes "graph_built u w s ps s'"
  shows "length (open_edges w s') = edge_count (relation_list w s) ps"
proof -
  let ?rel = "map rl_source_id (relation_list w s)"
  have d: "distinct (map nd_node_id (map snd ps))" using assms by (simp add: graph_built_def)
  have sub: "distinct (map nd_node_id (from_source src ps))" for src
    using d by (induction ps) (auto simp: from_source_def)
  have "set (sources_of ps) = ob_source_id ` fst ` set ps"
    by (induction ps rule: rev_induct) (auto simp: sources_of_def add_new_def)
  then have ne: "from_source src ps \<noteq> []" if "src \<in> set (sources_of ps)" for src
    using that by (force simp: from_source_def filter_empty_conv)
  have "length (anchor_pairs ?rel ps) = (\<Sum>src \<leftarrow> filter (\<lambda>src. src \<notin> set ?rel) (sources_of ps). length (from_source src ps) - 1)"
    unfolding anchor_pairs_def length_concat map_map o_def
    by (rule arg_cong [where f = sum_list]) (auto simp: length_anchored [OF sub ne])
  then show ?thesis
    using assms by (auto simp: graph_built_def edge_count_def dest!: list_all2_lengthD)
qed

lemma edge_count_cong:
  assumes "map fst ps = map fst ps'"
  shows "edge_count rels ps = edge_count rels ps'"
proof -
  have node: "node_for qs c \<noteq> None \<longleftrightarrow> c \<noteq> [] \<and> c \<in> ob_candidate_id ` set (map fst qs)" for qs :: "(object_view \<times> node_row) list" and c
  proof -
    have "fst ` set (rev (map (\<lambda>(o1, n). (ob_candidate_id o1, (n, o1))) qs)) = ob_candidate_id ` set (map fst qs)"
      by (auto simp: image_image case_prod_beta)
    then show ?thesis by (simp only: node_for_def map_of_eq_None_iff split: if_split) simp
  qed
  have lin: "linkable ps = linkable ps'" unfolding linkable_def node assms ..
  have src: "sources_of qs = fold (add_new \<circ> ob_source_id) (map fst qs) []" for qs
    by (simp add: sources_of_def fold_map o_assoc)
  have len: "length (from_source src qs) = length (filter (\<lambda>o1. ob_source_id o1 = src) (map fst qs))" for src qs
    by (induction qs) (auto simp: from_source_def)
  show ?thesis unfolding edge_count_def src lin len assms ..
qed

lemma built_archived:
  assumes "build_workspace_graph u w q s = (Inr r, s')"
  shows "archived_objects w s' = archived_objects w s"
    and "confirmed_objects w s' = confirmed_objects w s" and "relation_list w s' = relation_list w s"
proof -
  obtain ps ns es v g evs d t T where s': "s' = s\<lparr>drawn := d, ticks := t, node_rows := ns @ map snd ps, edge_rows := es,
      version_rows := version_rows s @ [v], workspace_rows := upserted g (workspace_rows s),
      event_rows := event_rows s @ evs\<rparr>"
    and ns: "ns = superseded_nodes w T (node_rows s)" and "graph_built u w s ps s'"
    by (rule build_frame [OF assms]) blast
  then have "nd_status n = ''active''" if "n \<in> set (map snd ps)" for n
    using that by (auto simp: graph_built_def shows_object_def)
  then have "archived_object_refs (filter (\<lambda>n. nd_workspace_id n = w) (map snd ps)) = []"
    by (fastforce simp: archived_object_refs_def filter_empty_conv)
  moreover have "archived_object_refs (xs @ ys) = archived_object_refs xs @ archived_object_refs ys" for xs ys
    by (simp add: archived_object_refs_def)
  ultimately show "archived_objects w s' = archived_objects w s"
    using archived_superseded [of w T "node_rows s"]
    by (simp add: archived_objects_def s' ns archived_object_refs_view)
  show "confirmed_objects w s' = confirmed_objects w s"
    by (simp add: s' confirmed_objects_def list_confirmed_objects_def reading_apply claim_of_candidate_def
        list_claims_def cong: map_cong)
  show "relation_list w s' = relation_list w s"
    by (simp add: s' relation_list_def list_relation_candidates_def reading_apply)
qed

section \<open>The theorems\<close>

text \<open>
  C16: when no id repeats, building a graph returns, and afterwards the open nodes of the workspace are
  one active node for each confirmed object that has a claim and a source and whose node was not
  archived, in the order of the objects and with its type, label, claim and source reference; the open
  edges are one for each resolved relation between two of them, and one from the anchor of each source
  without relations to each of its other nodes. One version is published, whose diff counts exactly these
  nodes and edges and the objects left out and lists the sources shown, and the workspace points to it
  with the same counts.
\<close>

theorem build_workspace_graph_correct:
  assumes "fresh_ids s"
  shows "\<exists>r s' ps. build_workspace_graph unnamed w q s = (Inr r, s') \<and> graph_built unnamed w s ps s' \<and>
    graph_published w q ps r s s'"
proof -
  obtain r s' where b: "build_workspace_graph unnamed w q s = (Inr r, s')"
    using never_raisesE [OF build_never_raises assms] by blast
  show ?thesis by (rule build_frame [OF b]) (use b in blast)
qed

text \<open>
  Building a graph twice shows the same: the second build makes nodes with the same content in the
  same order and as many edges, whatever was built before, and only adds one more version.
\<close>

theorem rebuild_shows_the_same:
  assumes "build_workspace_graph unnamed w q s = (Inr r, s1)"
    and "build_workspace_graph unnamed w q' s1 = (Inr r', s2)"
  shows "map node_content (open_nodes w s2) = map node_content (open_nodes w s1) \<and>
    br_node_count r' = br_node_count r \<and> br_edge_count r' = br_edge_count r \<and>
    br_version_id r' \<noteq> br_version_id r"
proof -
  obtain ps where 1: "graph_built unnamed w s ps s1" "graph_published w q ps r s s1" by (rule build_frame [OF assms(1)])
  obtain ps' where 2: "graph_built unnamed w s1 ps' s2" "graph_published w q' ps' r' s1 s2"
    by (rule build_frame [OF assms(2)])
  have fs: "map fst ps' = map fst ps"
    unfolding graph_builtD(3) [OF 1(1)] graph_builtD(3) [OF 2(1)] built_archived [OF assms(1)] ..
  then have content: "map node_content (open_nodes w s2) = map node_content (open_nodes w s1)"
    unfolding graph_builtD(1) [OF 1(1), symmetric] graph_builtD(1) [OF 2(1), symmetric]
    by (rule same_content [OF _ graph_builtD(4) [OF 2(1)] graph_builtD(4) [OF 1(1)]])
  moreover have "length (open_edges w s2) = length (open_edges w s1)"
    using graph_built_edge_count [OF 1(1)] graph_built_edge_count [OF 2(1)] edge_count_cong [OF fs]
      built_archived(3) [OF assms(1)] by simp
  moreover have "length (open_nodes w s2) = length (open_nodes w s1)"
    using arg_cong [OF content, of length] by simp
  ultimately show ?thesis using 1(2) 2(2) by (auto simp: graph_published_def)
qed

text \<open>
  C17: building the graph of one workspace leaves the nodes, edges, versions, events and the entry of
  every other workspace as they were, and every other table untouched.
\<close>

theorem build_stays_in_workspace:
  assumes "build_workspace_graph unnamed w q s = (Inr r, s')"
  shows "elsewhere_same w f s s' \<and> failure_rows s' = failure_rows s \<and> route_rows s' = route_rows s"
proof -
  obtain ps ns es v g evs d t where s': "s' = s\<lparr>drawn := d, ticks := t, node_rows := ns @ map snd ps, edge_rows := es,
      version_rows := version_rows s @ [v], workspace_rows := upserted g (workspace_rows s),
      event_rows := event_rows s @ evs\<rparr>"
    and ns: "\<exists>t. ns = superseded_nodes w t (node_rows s)"
    and es: "\<exists>t. es = superseded_edges w t (edge_rows s) @ open_edges w s'"
    and ev: "\<forall>e \<in> set evs. evt_workspace_id e = Some w" "vs_workspace_id v = w" "ws_workspace_id g = w"
    and b: "graph_built unnamed w s ps s'" by (rule build_frame [OF assms])
  have "filter (\<lambda>n. nd_workspace_id n \<noteq> w) (map snd ps) = []"
    unfolding graph_builtD(1) [OF b] by (simp add: open_nodes_def filter_empty_conv)
  then have "filter (\<lambda>r. nd_workspace_id r \<noteq> w) (node_rows s') = filter (\<lambda>r. nd_workspace_id r \<noteq> w) (node_rows s)"
    using ns other_nodes_superseded by (auto simp: s')
  moreover have "filter (\<lambda>r. eg_workspace_id r \<noteq> w) (edge_rows s') = filter (\<lambda>r. eg_workspace_id r \<noteq> w) (edge_rows s)"
  proof -
    have "filter (\<lambda>r. eg_workspace_id r \<noteq> w) (open_edges w s') = []"
      by (simp add: open_edges_def filter_empty_conv)
    moreover have "edge_rows s' = es" by (simp add: s')
    ultimately show ?thesis using es other_edges_superseded by auto
  qed
  moreover have "filter (\<lambda>e. evt_workspace_id e \<noteq> Some w) evs = []" using ev(1) by (simp add: filter_empty_conv)
  moreover have "filter (\<lambda>r. ws_workspace_id r \<noteq> w) (upserted g (workspace_rows s)) =
      filter (\<lambda>r. ws_workspace_id r \<noteq> w) (workspace_rows s)"
    using filter_upserted [of g "workspace_rows s"] ev(3) by simp
  ultimately show ?thesis using ev(2) by (simp add: elsewhere_same_def s')
qed

section \<open>A small workspace\<close>

text \<open>Two objects of one source, the second without a claim.\<close>

definition sample_object :: "string \<Rightarrow> string \<Rightarrow> object_row" where
  "sample_object ty i =
     \<lparr>ob_object_type = ty, ob_object_id = i, ob_candidate_id = i, ob_workspace_id = ''w'', ob_source_id = ''s'',
      ob_text = ''Dose rises'', ob_normalized_text = ''dose rises'', ob_source_span = [], ob_semantic_type = None,
      ob_quote = None, ob_trace_refs = [], ob_candidate_batch_id = None, ob_extraction_job_id = None,
      ob_created_at = 0, ob_created_request_id = None\<rparr>"

definition claim_for :: "string \<Rightarrow> claim_row" where
  "claim_for i =
     \<lparr>cm_claim_id = ''c'' @ i, cm_workspace_id = ''w'', cm_source_id = ''s'', cm_candidate_id = i,
      cm_claim_type = ''evidence'', cm_semantic_type = None, cm_text = ''Dose rises'',
      cm_normalized_text = ''dose rises'', cm_quote = None, cm_source_span = [], cm_trace_refs = [],
      cm_status = ''active'', cm_created_at = 0, cm_updated_at = 0\<rparr>"

definition confirmed_store :: store where
  "confirmed_store = empty_store\<lparr>object_rows := [sample_object ''evidence'' ''x'', sample_object ''conclusion'' ''y'',
       sample_object ''gap'' ''z''], claim_rows := [claim_for ''x'', claim_for ''z'']\<rparr>"

lemma fresh_confirmed_store: "fresh_ids confirmed_store"
proof -
  have "unused p K s" if "inj (hex_supply s)" "\<forall>k \<in> K. CHR ''_'' \<notin> set k" for p K and s :: store
    using that by (fastforce simp: unused_def)
  then show ?thesis
    by (auto simp: fresh_defs confirmed_store_def empty_store_def inj_unary sample_object_def claim_for_def)
qed

lemma confirmed_store_projected:
  "map ob_object_id (filter (projectable (archived_objects ''w'' confirmed_store)) (confirmed_objects ''w'' confirmed_store)) =
     [''x'', ''z'']"
  by code_simp

theorem build_workspace_graph_correct_witness:
  "\<exists>r s'. build_workspace_graph ''unnamed'' ''w'' ''q'' confirmed_store = (Inr r, s') \<and> br_node_count r = 2 \<and>
     map nd_object_ref_id (open_nodes ''w'' s') = [''x'', ''z'']"
proof -
  obtain r s' ps where b: "build_workspace_graph ''unnamed'' ''w'' ''q'' confirmed_store = (Inr r, s')"
      "graph_built ''unnamed'' ''w'' confirmed_store ps s'" "graph_published ''w'' ''q'' ps r confirmed_store s'"
    using build_workspace_graph_correct [OF fresh_confirmed_store] by blast
  have "\<forall>x \<in> set ps. nd_object_ref_id (snd x) = ob_object_id (fst x)"
    using graph_builtD(4) [OF b(2)] by (auto simp: shows_object_def)
  then have "map nd_object_ref_id (map snd ps) = map ob_object_id (map fst ps)" by simp
  then have ids: "map nd_object_ref_id (open_nodes ''w'' s') = [''x'', ''z'']"
    unfolding graph_builtD(1) [OF b(2)] graph_builtD(3) [OF b(2)] confirmed_store_projected .
  have "length (map nd_object_ref_id (open_nodes ''w'' s')) = 2" unfolding ids by simp
  then show ?thesis using b ids by (auto simp: graph_published_def)
qed

lemma two_builds:
  obtains r s1 r' s2 where "build_workspace_graph ''unnamed'' ''w'' ''q'' confirmed_store = (Inr r, s1)"
    and "build_workspace_graph ''unnamed'' ''w'' ''q'' s1 = (Inr r', s2)"
proof -
  obtain r s1 where 1: "build_workspace_graph ''unnamed'' ''w'' ''q'' confirmed_store = (Inr r, s1)" "fresh_ids s1"
    using never_raisesE [OF build_never_raises fresh_confirmed_store] by blast
  obtain r' s2 where "build_workspace_graph ''unnamed'' ''w'' ''q'' s1 = (Inr r', s2)"
    using never_raisesE [OF build_never_raises 1(2)] by blast
  then show thesis by (rule that [OF 1(1)])
qed

theorem rebuild_shows_the_same_witness:
  "\<exists>r s1 r' s2. build_workspace_graph ''unnamed'' ''w'' ''q'' confirmed_store = (Inr r, s1) \<and>
     build_workspace_graph ''unnamed'' ''w'' ''q'' s1 = (Inr r', s2) \<and> br_edge_count r' = br_edge_count r"
proof -
  obtain r s1 r' s2 where b: "build_workspace_graph ''unnamed'' ''w'' ''q'' confirmed_store = (Inr r, s1)"
      "build_workspace_graph ''unnamed'' ''w'' ''q'' s1 = (Inr r', s2)" by (rule two_builds)
  from rebuild_shows_the_same [OF this] show ?thesis using b by blast
qed

theorem build_stays_in_workspace_witness:
  "\<exists>r s'. build_workspace_graph ''unnamed'' ''w'' ''q'' confirmed_store = (Inr r, s') \<and>
     elsewhere_same ''w'' ''f'' confirmed_store s'"
proof -
  obtain r s1 where b: "build_workspace_graph ''unnamed'' ''w'' ''q'' confirmed_store = (Inr r, s1)"
    using two_builds by blast
  from build_stays_in_workspace [OF this] show ?thesis using b by blast
qed

end
