(* ===== verification/RedisLock.thy ===== *)
theory RedisLock
  imports StateError PyFloat PyValue
begin

text \<open>
  \<^verbatim>\<open>core/lock/redis_distributed_lock.py\<close>: a lock that a task may take again while it holds it,
  kept in a redis hash with the fields \<^verbatim>\<open>owner\<close> and \<^verbatim>\<open>count\<close> and changed by Lua scripts that
  redis runs one after the other.

  The redis commands that the scripts call are the parameter \<open>R\<close> on a state \<open>'r\<close>; what redis documents
  of them is the locale \<open>redis_hashes\<close> of the theory with the lemmas. The count is a number here and text
  in redis. A call over the network can be lost before it reaches redis or after it was run
  (\<open>fault\<close>). The handlers of the code name Python's own \<^verbatim>\<open>ConnectionError\<close>, \<^verbatim>\<open>TimeoutError\<close> and
  \<^verbatim>\<open>OSError\<close> (\<open>Os_error\<close>); the client raises \<^verbatim>\<open>redis.exceptions.ConnectionError\<close> and
  \<^verbatim>\<open>TimeoutError\<close>, which are \<^verbatim>\<open>RedisError\<close>s and none of these, so that they pass the handlers
  (\<open>Redis_error\<close>). Which of the two a lost call raises is a parameter, as is what other clients and the
  expiry of keys do to redis between two attempts. The attribute
  \<^verbatim>\<open>_acquired\<close> of a lock is written and never read, and is left out with the log output.
\<close>

section \<open>Redis\<close>

record 'r redis =
  rd_hmget :: "string \<Rightarrow> 'r \<Rightarrow> string option \<times> int option"
  rd_hmset :: "string \<Rightarrow> string \<Rightarrow> int \<Rightarrow> 'r \<Rightarrow> 'r"
  rd_hset_count :: "string \<Rightarrow> int \<Rightarrow> 'r \<Rightarrow> 'r"
  rd_pexpire :: "string \<Rightarrow> int \<Rightarrow> 'r \<Rightarrow> 'r"
  rd_del :: "string \<Rightarrow> 'r \<Rightarrow> int \<times> 'r"

section \<open>The scripts\<close>

text \<open>\<^verbatim>\<open>tonumber(x) or 0\<close>.\<close>

definition number_or_zero :: "int option \<Rightarrow> int" where
  "number_or_zero c = (case c of None \<Rightarrow> 0 | Some n \<Rightarrow> n)"

definition acquire_script :: "'r redis \<Rightarrow> string \<Rightarrow> string \<Rightarrow> int \<Rightarrow> 'r \<Rightarrow> int \<times> 'r" where
  "acquire_script R lock_key owner_id timeout_ms s =
     (let (current_owner, c) = rd_hmget R lock_key s; current_count = number_or_zero c
      in if current_owner = None \<or> current_owner = Some owner_id then
           let new_count = current_count + 1; s1 = rd_hmset R lock_key owner_id new_count s
           in (new_count, if 0 < timeout_ms then rd_pexpire R lock_key timeout_ms s1 else s1)
         else (0, s))"

definition release_script :: "'r redis \<Rightarrow> string \<Rightarrow> string \<Rightarrow> 'r \<Rightarrow> int \<times> 'r" where
  "release_script R lock_key owner_id s =
     (let (current_owner, c) = rd_hmget R lock_key s; current_count = number_or_zero c
      in if current_owner \<noteq> Some owner_id then (0, s)
         else
           let new_count = current_count - 1
           in if new_count \<le> 0 then (- 1, snd (rd_del R lock_key s))
              else (new_count, rd_hset_count R lock_key new_count s))"

definition status_script :: "'r redis \<Rightarrow> string \<Rightarrow> string \<Rightarrow> 'r \<Rightarrow> (int \<times> int) \<times> 'r" where
  "status_script R lock_key owner_id s =
     (let (current_owner, c) = rd_hmget R lock_key s; current_count = number_or_zero c
      in ((case current_owner of
             None \<Rightarrow> (0, 0)
           | Some q \<Rightarrow> if q = owner_id then (1, current_count) else (2, current_count)), s))"

section \<open>The manager\<close>

text \<open>\<open>Os_error\<close>: an exception that \<^verbatim>\<open>except (ConnectionError, TimeoutError, OSError)\<close> catches.\<close>

datatype net_error = Os_error | Redis_error

datatype 'e lock_error =
    DistributedLockError string
  | NetError net_error
  | LockRuntimeError string
  | BodyError 'e

datatype fault = Delivered | Request_lost net_error | Reply_lost net_error

record 'r lock_manager =
  lm_redis :: 'r
  lm_registered :: bool

type_synonym ('r, 'e, 'a) lock_proc = "('r lock_manager, 'e lock_error, 'a) proc"

definition lock_key :: "string \<Rightarrow> string" where
  "lock_key resource = ''reentrant_lock:'' @ resource"

text \<open>A client and a call of a script or command: its answer, or the exception raised for a lost call.\<close>

definition redis_call :: "('r \<Rightarrow> 'a \<times> 'r) \<Rightarrow> fault \<Rightarrow> 'r \<Rightarrow> (net_error + 'a) \<times> 'r" where
  "redis_call f flt s =
     (case flt of
        Delivered \<Rightarrow> (Inr (fst (f s)), snd (f s))
      | Request_lost e \<Rightarrow> (Inl e, s)
      | Reply_lost e \<Rightarrow> (Inl e, snd (f s)))"

definition on_redis :: "('r \<Rightarrow> (net_error + 'a) \<times> 'r) \<Rightarrow> ('r, 'e, 'a) lock_proc" where
  "on_redis f m = (let (x, s) = f (lm_redis m) in (map_sum NetError id x, m\<lparr>lm_redis := s\<rparr>))"

text \<open>\<^verbatim>\<open>try: m except (ConnectionError, TimeoutError, OSError): return d\<close>.\<close>

definition catching :: "'a \<Rightarrow> ('r, 'e, 'a) lock_proc \<Rightarrow> ('r, 'e, 'a) lock_proc" where
  "catching d m s =
     (case m s of
        (Inl e, s') \<Rightarrow> (if e = NetError Os_error then Inr d else Inl e, s')
      | (Inr x, s') \<Rightarrow> (Inr x, s'))"

text \<open>Getting a client can fail with \<open>outage\<close>, unless the scripts are registered already.\<close>

definition ensure_scripts :: "net_error option \<Rightarrow> ('r, 'e, unit) lock_proc" where
  "ensure_scripts outage =
     and_then (reading lm_registered) (\<lambda>registered.
     if registered then ret ()
     else case outage of
       None \<Rightarrow> writing (lm_registered_update (\<lambda>_. True))
     | Some e \<Rightarrow> fail (NetError e))"

text \<open>\<^verbatim>\<open>asyncio.current_task()\<close>: a task with its \<^verbatim>\<open>id\<close>, none, or no running loop.\<close>

datatype current_task = NoLoop string | NoTask | Task nat

definition get_owner_id :: "current_task \<Rightarrow> 'e lock_error + string" where
  "get_owner_id task =
     (case task of
        NoLoop e \<Rightarrow>
          Inl (DistributedLockError (''Distributed lock must be used in coroutine environment: '' @ e))
      | NoTask \<Rightarrow>
          Inl (DistributedLockError
            ''Distributed lock must be used in coroutine environment, no running coroutine task'')
      | Task i \<Rightarrow> Inr (''task_'' @ int_str (int i)))"

section \<open>Acquiring and releasing\<close>

definition py_trunc :: "rat \<Rightarrow> int" where
  "py_trunc x = (if 0 \<le> x then \<lfloor>x\<rfloor> else - \<lfloor>- x\<rfloor>)"

definition timeout_millis :: "rat \<Rightarrow> int" where
  "timeout_millis timeout = (if 0 < timeout then py_trunc (fl (timeout * 1000)) else 0)"

definition retry_interval :: rat where
  "retry_interval = 3"

definition retry_count :: "rat \<Rightarrow> nat" where
  "retry_count blocking_timeout = nat (max 1 (py_trunc (fl (blocking_timeout / retry_interval))))"

text \<open>
  One attempt after the other: what happened to redis before the attempt, while the task slept, and the
  fate of the call.
\<close>

fun acquire_attempts ::
  "'r redis \<Rightarrow> string \<Rightarrow> string \<Rightarrow> int \<Rightarrow> (('r \<Rightarrow> 'r) \<times> fault) list \<Rightarrow> 'r \<Rightarrow> (net_error + bool) \<times> 'r"
where
  "acquire_attempts R key owner_id timeout_ms [] s = (Inr False, s)"
| "acquire_attempts R key owner_id timeout_ms ((others, flt) # attempts) s =
     (case redis_call (acquire_script R key owner_id timeout_ms) flt (others s) of
        (Inr n, s') \<Rightarrow>
          if 0 < n then (Inr True, s') else acquire_attempts R key owner_id timeout_ms attempts s'
      | (Inl e, s') \<Rightarrow>
          if e = Os_error then acquire_attempts R key owner_id timeout_ms attempts s' else (Inl e, s'))"

definition acquire_lock ::
  "'r redis \<Rightarrow> net_error option \<Rightarrow> (nat \<Rightarrow> ('r \<Rightarrow> 'r) \<times> fault) \<Rightarrow> current_task \<Rightarrow> string \<Rightarrow> rat \<Rightarrow> rat \<Rightarrow>
   ('r, 'e, bool) lock_proc"
where
  "acquire_lock R outage world task resource timeout blocking_timeout =
     and_then (ensure_scripts outage) (\<lambda>_.
     and_then (lift_result (get_owner_id task)) (\<lambda>owner_id.
     on_redis (acquire_attempts R (lock_key resource) owner_id (timeout_millis timeout)
       (map world [0..<retry_count blocking_timeout]))))"

definition release_lock :: "'r redis \<Rightarrow> fault \<Rightarrow> current_task \<Rightarrow> string \<Rightarrow> ('r, 'e, unit) lock_proc" where
  "release_lock R flt task resource =
     and_then (lift_result (get_owner_id task)) (\<lambda>owner_id.
     catching ()
       (and_then (on_redis (redis_call (release_script R (lock_key resource) owner_id) flt)) (\<lambda>_. ret ())))"

section \<open>Asking\<close>

text \<open>The status of the lock; \<open>None\<close> when a connection error was caught.\<close>

definition lock_status ::
  "'r redis \<Rightarrow> net_error option \<Rightarrow> fault \<Rightarrow> current_task \<Rightarrow> string \<Rightarrow> ('r, 'e, (int \<times> int) option) lock_proc"
where
  "lock_status R outage flt task resource =
     catching None
       (and_then (ensure_scripts outage) (\<lambda>_.
        and_then (lift_result (get_owner_id task)) (\<lambda>owner_id.
        and_then (on_redis (redis_call (status_script R (lock_key resource) owner_id) flt)) (\<lambda>result.
        ret (Some result)))))"

definition is_locked ::
  "'r redis \<Rightarrow> net_error option \<Rightarrow> fault \<Rightarrow> current_task \<Rightarrow> string \<Rightarrow> ('r, 'e, bool) lock_proc"
where
  "is_locked R outage flt task resource =
     and_then (lock_status R outage flt task resource) (\<lambda>st.
     ret (case st of None \<Rightarrow> False | Some (code, _) \<Rightarrow> 0 < code))"

definition is_owned_by_current_coroutine ::
  "'r redis \<Rightarrow> net_error option \<Rightarrow> fault \<Rightarrow> current_task \<Rightarrow> string \<Rightarrow> ('r, 'e, bool) lock_proc"
where
  "is_owned_by_current_coroutine R outage flt task resource =
     and_then (lock_status R outage flt task resource) (\<lambda>st.
     ret (case st of None \<Rightarrow> False | Some (code, _) \<Rightarrow> code = 1))"

definition get_reentry_count ::
  "'r redis \<Rightarrow> net_error option \<Rightarrow> fault \<Rightarrow> current_task \<Rightarrow> string \<Rightarrow> ('r, 'e, int) lock_proc"
where
  "get_reentry_count R outage flt task resource =
     and_then (lock_status R outage flt task resource) (\<lambda>st.
     ret (case st of None \<Rightarrow> 0 | Some (code, n) \<Rightarrow> if code = 1 then n else 0))"

definition force_unlock :: "'r redis \<Rightarrow> fault \<Rightarrow> string \<Rightarrow> ('r, 'e, bool) lock_proc" where
  "force_unlock R flt resource =
     catching False
       (and_then (on_redis (redis_call (rd_del R (lock_key resource)) flt)) (\<lambda>result. ret (0 < result)))"

section \<open>The context manager and the decorator\<close>

definition default_lock_timeout :: rat where
  "default_lock_timeout = 60"

definition default_blocking_timeout :: rat where
  "default_blocking_timeout = 80"

text \<open>\<^verbatim>\<open>t or default\<close>.\<close>

definition timeout_or :: "rat \<Rightarrow> rat option \<Rightarrow> rat" where
  "timeout_or d t = (case t of None \<Rightarrow> d | Some x \<Rightarrow> if x = 0 then d else x)"

text \<open>\<^verbatim>\<open>try: m finally: h\<close>.\<close>

definition finally_do :: "('s, 'e, 'a) proc \<Rightarrow> ('s, 'e, unit) proc \<Rightarrow> ('s, 'e, 'a) proc" where
  "finally_do m h s =
     (let (r, s') = m s in case h s' of (Inl e, s'') \<Rightarrow> (Inl e, s'') | (Inr _, s'') \<Rightarrow> (r, s''))"

text \<open>
  \<^verbatim>\<open>async with lock.acquire(timeout, blocking_timeout) as acquired: body\<close>, where \<open>world\<close> and \<open>flt\<close> are
  the attempts and the fate of the release.
\<close>

definition lock_scope ::
  "'r redis \<Rightarrow> net_error option \<Rightarrow> (nat \<Rightarrow> ('r \<Rightarrow> 'r) \<times> fault) \<Rightarrow> fault \<Rightarrow> current_task \<Rightarrow> string \<Rightarrow> rat option \<Rightarrow>
   rat option \<Rightarrow> (bool \<Rightarrow> ('r, 'e, 'a) lock_proc) \<Rightarrow> ('r, 'e, 'a) lock_proc"
where
  "lock_scope R outage world flt task resource timeout blocking_timeout body =
     and_then
       (acquire_lock R outage world task resource (timeout_or default_lock_timeout timeout)
          (timeout_or default_blocking_timeout blocking_timeout)) (\<lambda>acquired.
     finally_do (body acquired) (skip_unless acquired (catching () (release_lock R flt task resource))))"

definition with_distributed_lock ::
  "'r redis \<Rightarrow> net_error option \<Rightarrow> (nat \<Rightarrow> ('r \<Rightarrow> 'r) \<times> fault) \<Rightarrow> fault \<Rightarrow> current_task \<Rightarrow> string \<Rightarrow> rat option \<Rightarrow>
   rat option \<Rightarrow> ('r, 'e, 'a) lock_proc \<Rightarrow> ('r, 'e, 'a) lock_proc"
where
  "with_distributed_lock R outage world flt task resource timeout blocking_timeout func =
     lock_scope R outage world flt task resource timeout blocking_timeout (\<lambda>acquired.
       if acquired then func
       else fail (LockRuntimeError (''Failed to acquire distributed lock: '' @ resource)))"

end
