(* ===== verification/RedisLockProps.thy ===== *)
theory RedisLockProps
  imports RedisLock
begin

text \<open>
  Mutual exclusion, reentrancy and release of the redis lock. \<open>reentrant_lock\<close> is the contract of a lock
  that its holder may take again, \<open>redis_hashes\<close> what redis documents of its commands; the scripts turn
  the second into the first. Both are interpreted on a table of hashes.
\<close>

section \<open>Runs of a lock\<close>

text \<open>
  Owners enter and leave one after the other. \<open>d\<close> counts for each owner the blocks it is in; an owner only
  leaves a block that it is in.
\<close>

inductive lock_run ::
  "(int \<Rightarrow> 'o \<Rightarrow> 's \<Rightarrow> int \<times> 's) \<Rightarrow> ('o \<Rightarrow> 's \<Rightarrow> int \<times> 's) \<Rightarrow> ('s \<Rightarrow> 's \<Rightarrow> bool) \<Rightarrow> 's \<Rightarrow> 's \<Rightarrow> ('o \<Rightarrow> int) \<Rightarrow> bool"
  for acq rel elsewhere s0
where
  unlocked: "lock_run acq rel elsewhere s0 s0 (\<lambda>_. 0)"
| entered: "lock_run acq rel elsewhere s0 s d \<Longrightarrow> acq ms q s = (n, s') \<Longrightarrow> 0 < n \<Longrightarrow>
    lock_run acq rel elsewhere s0 s' (d(q := d q + 1))"
| refused: "lock_run acq rel elsewhere s0 s d \<Longrightarrow> acq ms q s = (n, s') \<Longrightarrow> n \<le> 0 \<Longrightarrow>
    lock_run acq rel elsewhere s0 s' d"
| left: "lock_run acq rel elsewhere s0 s d \<Longrightarrow> 0 < d q \<Longrightarrow> rel q s = (n, s') \<Longrightarrow>
    lock_run acq rel elsewhere s0 s' (d(q := d q - 1))"
| other: "lock_run acq rel elsewhere s0 s d \<Longrightarrow> elsewhere s s' \<Longrightarrow> lock_run acq rel elsewhere s0 s' d"

inductive_cases lock_runE: "lock_run acq rel elsewhere s0 s d"

section \<open>The contract of the lock\<close>

definition taken_by :: "('o \<times> int) option \<Rightarrow> 'o \<Rightarrow> ('o \<times> int)" where
  "taken_by h q = (case h of None \<Rightarrow> (q, 1) | Some (p, n) \<Rightarrow> (q, n + 1))"

locale reentrant_lock =
  fixes acq :: "int \<Rightarrow> 'o \<Rightarrow> 's \<Rightarrow> int \<times> 's"
    and rel :: "'o \<Rightarrow> 's \<Rightarrow> int \<times> 's"
    and elsewhere :: "'s \<Rightarrow> 's \<Rightarrow> bool"
    and holder :: "'s \<Rightarrow> ('o \<times> int) option"
    and ok :: "'s \<Rightarrow> bool"
  assumes acq_mine: "ok s \<Longrightarrow> (case holder s of None \<Rightarrow> True | Some (p, n) \<Rightarrow> p = q) \<Longrightarrow>
      ok (snd (acq ms q s)) \<and> holder (snd (acq ms q s)) = Some (taken_by (holder s) q) \<and>
      fst (acq ms q s) = snd (taken_by (holder s) q)"
    and acq_other: "ok s \<Longrightarrow> holder s = Some (p, n) \<Longrightarrow> p \<noteq> q \<Longrightarrow> acq ms q s = (0, s)"
    and rel_last: "ok s \<Longrightarrow> holder s = Some (q, n) \<Longrightarrow> n \<le> 1 \<Longrightarrow>
      fst (rel q s) = - 1 \<and> ok (snd (rel q s)) \<and> holder (snd (rel q s)) = None"
    and rel_more: "ok s \<Longrightarrow> holder s = Some (q, n) \<Longrightarrow> 1 < n \<Longrightarrow>
      fst (rel q s) = n - 1 \<and> ok (snd (rel q s)) \<and> holder (snd (rel q s)) = Some (q, n - 1)"
    and rel_other: "ok s \<Longrightarrow> (case holder s of None \<Rightarrow> True | Some (p, n) \<Rightarrow> p \<noteq> q) \<Longrightarrow> rel q s = (0, s)"
    and elsewhere: "ok s \<Longrightarrow> elsewhere s s' \<Longrightarrow> ok s' \<and> holder s' = holder s"
begin

definition agrees :: "'s \<Rightarrow> ('o \<Rightarrow> int) \<Rightarrow> bool" where
  "agrees s d \<longleftrightarrow> ok s \<and>
     (case holder s of None \<Rightarrow> d = (\<lambda>_. 0) | Some (p, n) \<Rightarrow> 1 \<le> n \<and> d = (\<lambda>_. 0)(p := n))"

lemma agrees_entered:
  assumes "agrees s d" "acq ms q s = (n, s')" "0 < n"
  shows "agrees s' (d(q := d q + 1))"
proof -
  have ok: "ok s" using assms(1) by (simp add: agrees_def)
  have mine: "case holder s of None \<Rightarrow> True | Some (p, n) \<Rightarrow> p = q"
    using acq_other [OF ok, of _ _ q ms] assms(2,3) by (auto split: option.split)
  show ?thesis
    using acq_mine [OF ok mine, of ms] mine assms(1,2)
    by (auto simp: agrees_def taken_by_def fun_eq_iff split: option.splits)
qed

lemma agrees_refused:
  assumes "agrees s d" "acq ms q s = (n, s')" "n \<le> 0"
  shows "s' = s"
proof -
  have ok: "ok s" using assms(1) by (simp add: agrees_def)
  have "\<not> (case holder s of None \<Rightarrow> True | Some (p, n) \<Rightarrow> p = q)"
    using acq_mine [OF ok, of q ms] assms by (auto simp: agrees_def taken_by_def split: option.splits)
  then show ?thesis using acq_other [OF ok, of _ _ q ms] assms(2) by (auto split: option.splits)
qed

lemma agrees_left:
  assumes "agrees s d" "0 < d q" "rel q s = (n, s')"
  shows "agrees s' (d(q := d q - 1))"
proof -
  have ok: "ok s" using assms(1) by (simp add: agrees_def)
  obtain k where k: "holder s = Some (q, k)" "1 \<le> k" "d = (\<lambda>_. 0)(q := k)"
    using assms(1,2) by (auto simp: agrees_def fun_upd_def split: option.splits if_splits)
  show ?thesis
  proof (cases "k \<le> 1")
    case True
    then show ?thesis using rel_last [OF ok k(1)] k assms(3) by (auto simp: agrees_def fun_eq_iff)
  next
    case False
    then show ?thesis using rel_more [OF ok k(1)] k assms(3) by (auto simp: agrees_def fun_eq_iff)
  qed
qed

lemma run_agrees:
  assumes "lock_run acq rel elsewhere s0 s d" "ok s0" "holder s0 = None"
  shows "agrees s d"
  using assms
proof induction
  case unlocked
  then show ?case by (simp add: agrees_def)
next
  case (refused s d ms q n s')
  then show ?case using agrees_refused by metis
next
  case (other s d s')
  then show ?case using elsewhere [of s s'] by (simp add: agrees_def)
qed (simp_all add: agrees_entered agrees_left)

lemma excludes:
  assumes "lock_run acq rel elsewhere s0 s d" "ok s0" "holder s0 = None"
  shows "ok s \<and> (\<forall>q n. holder s = Some (q, n) \<longleftrightarrow> 0 < d q \<and> n = d q) \<and> (holder s = None \<longleftrightarrow> d = (\<lambda>_. 0))"
proof (cases "holder s")
  case None
  then show ?thesis using run_agrees [OF assms] by (auto simp: agrees_def)
next
  case (Some h)
  then obtain p k where h: "holder s = Some (p, k)" by (cases h) auto
  then have d: "1 \<le> k" "d = (\<lambda>_. 0)(p := k)" "ok s" using run_agrees [OF assms] by (simp_all add: agrees_def)
  then have "d p \<noteq> 0" by simp
  then show ?thesis using d h by (auto simp: fun_eq_iff)
qed

text \<open>What one owner does never takes the lock from another.\<close>

lemma foreign_steps_keep:
  assumes "ok s" "holder s = Some (p, n)" "q \<noteq> p"
  shows "acq ms q s = (0, s)" "rel q s = (0, s)"
  using acq_other [OF assms(1,2), of q ms] rel_other [OF assms(1), of q] assms(2,3) by auto

end

section \<open>What redis documents\<close>

locale redis_hashes =
  fixes R :: "'r redis"
  assumes hmget_hmset: "rd_hmget R k (rd_hmset R k' q c s) = (if k' = k then (Some q, Some c) else rd_hmget R k s)"
    and hmget_hset_count:
      "rd_hmget R k (rd_hset_count R k' c s) = (if k' = k then (fst (rd_hmget R k s), Some c) else rd_hmget R k s)"
    and hmget_pexpire: "0 < ms \<Longrightarrow> rd_hmget R k (rd_pexpire R k' ms s) = rd_hmget R k s"
    and hmget_del: "rd_hmget R k (snd (rd_del R k' s)) = (if k' = k then (None, None) else rd_hmget R k s)"
begin

definition entry_of :: "string \<Rightarrow> 'r \<Rightarrow> (string \<times> int) option" where
  "entry_of k s = (case fst (rd_hmget R k s) of None \<Rightarrow> None | Some q \<Rightarrow> Some (q, number_or_zero (snd (rd_hmget R k s))))"

definition sound :: "string \<Rightarrow> 'r \<Rightarrow> bool" where
  "sound k s \<longleftrightarrow> (rd_hmget R k s = (None, None) \<or> (\<exists>q n. rd_hmget R k s = (Some q, Some n)))"

lemma hmget_acquire_expire:
  "rd_hmget R k (if 0 < ms then rd_pexpire R k' ms s else s) = rd_hmget R k s"
  by (simp add: hmget_pexpire)

lemmas hash_simps = hmget_hmset hmget_hset_count hmget_acquire_expire hmget_del

lemma scripts_elsewhere:
  "k' \<noteq> k \<Longrightarrow> rd_hmget R k (snd (acquire_script R k' q ms s)) = rd_hmget R k s"
  "k' \<noteq> k \<Longrightarrow> rd_hmget R k (snd (release_script R k' q s)) = rd_hmget R k s"
  by (simp_all add: acquire_script_def release_script_def Let_def hash_simps split: prod.split)

end

sublocale redis_hashes \<subseteq> lock: reentrant_lock
  "\<lambda>ms q. acquire_script R k q ms" "release_script R k" "\<lambda>s s'. rd_hmget R k s' = rd_hmget R k s" "entry_of k" "sound k" for k
  by unfold_locales
    (auto simp: acquire_script_def release_script_def entry_of_def sound_def taken_by_def number_or_zero_def
      Let_def hash_simps split: prod.splits option.splits if_splits)

context redis_hashes
begin

lemma scripts_exclude:
  assumes "lock_run (\<lambda>ms q. acquire_script R q' q ms) (release_script R q')
      (\<lambda>s s'. rd_hmget R q' s' = rd_hmget R q' s) s0 s d"
    and "rd_hmget R q' s0 = (None, None)"
  shows "(\<forall>q n. rd_hmget R q' s = (Some q, Some n) \<longleftrightarrow> 0 < d q \<and> n = d q) \<and>
    (rd_hmget R q' s = (None, None) \<longleftrightarrow> d = (\<lambda>_. 0))"
proof -
  have "sound q' s0" "entry_of q' s0 = None" using assms(2) by (simp_all add: sound_def entry_of_def)
  note e = lock.excludes [OF assms(1) this]
  have "sound q' s" using e by blast
  then have "entry_of q' s = Some (q, n) \<longleftrightarrow> rd_hmget R q' s = (Some q, Some n)"
    "entry_of q' s = None \<longleftrightarrow> rd_hmget R q' s = (None, None)" for q n
    unfolding sound_def by (auto simp: entry_of_def number_or_zero_def)
  then show ?thesis using e by simp
qed

end

section \<open>A table of hashes\<close>

type_synonym lock_table = "string \<Rightarrow> string option \<times> int option"

definition table_redis :: "lock_table redis" where
  "table_redis =
     \<lparr>rd_hmget = (\<lambda>k s. s k), rd_hmset = (\<lambda>k q c s. s(k := (Some q, Some c))),
      rd_hset_count = (\<lambda>k c s. s(k := (fst (s k), Some c))), rd_pexpire = (\<lambda>k ms s. s),
      rd_del = (\<lambda>k s. (if s k = (None, None) then 0 else 1, s(k := (None, None))))\<rparr>"

definition no_locks :: lock_table where
  "no_locks = (\<lambda>_. (None, None))"

interpretation table: redis_hashes table_redis
  by unfold_locales (simp_all add: table_redis_def)

section \<open>Attempts\<close>

text \<open>What happens between the attempts leaves the lock as it is.\<close>

definition steady :: "'r redis \<Rightarrow> string \<Rightarrow> (nat \<Rightarrow> ('r \<Rightarrow> 'r) \<times> fault) \<Rightarrow> bool" where
  "steady R key world \<longleftrightarrow> (\<forall>i s. rd_hmget R key (fst (world i) s) = rd_hmget R key s)"

definition calm :: "'r redis \<Rightarrow> string \<Rightarrow> (nat \<Rightarrow> ('r \<Rightarrow> 'r) \<times> fault) \<Rightarrow> bool" where
  "calm R key world \<longleftrightarrow> steady R key world \<and> (\<forall>i. snd (world i) = Delivered)"

definition task_owner :: "nat \<Rightarrow> string" where
  "task_owner i = ''task_'' @ int_str (int i)"

definition breaks_off :: "fault \<Rightarrow> bool" where
  "breaks_off flt \<longleftrightarrow> flt = Request_lost Redis_error \<or> flt = Reply_lost Redis_error"

lemma attempts_refused:
  assumes "redis_hashes R" "\<forall>w \<in> set ws. \<forall>s. rd_hmget R key (fst w s) = rd_hmget R key s"
    and "rd_hmget R key s = (Some p, Some n)" "p \<noteq> q"
  shows "\<exists>s'. acquire_attempts R key q ms ws s =
      (if \<exists>w \<in> set ws. breaks_off (snd w) then Inl Redis_error else Inr False, s') \<and>
    rd_hmget R key s' = rd_hmget R key s"
  using assms(2,3)
proof (induction ws arbitrary: s)
  case Nil
  then show ?case by simp
next
  case (Cons w ws)
  obtain others flt where w: "w = (others, flt)" by (cases w)
  let ?s = "others s"
  have e: "rd_hmget R key ?s = (Some p, Some n)" using Cons.prems w by simp
  then have "acquire_script R key q ms ?s = (0, ?s)" using assms(4) by (simp add: acquire_script_def)
  then have step: "acquire_attempts R key q ms (w # ws) s =
      (if breaks_off flt then (Inl Redis_error, ?s) else acquire_attempts R key q ms ws ?s)"
    by (cases flt; simp add: w redis_call_def breaks_off_def; metis net_error.exhaust)
  show ?case
  proof (cases "breaks_off flt")
    case True
    then show ?thesis unfolding step using Cons.prems(2) e by (simp add: w)
  next
    case False
    then show ?thesis unfolding step using Cons.IH [of ?s] Cons.prems e by (simp add: w)
  qed
qed

lemma retry_count_pos: "retry_count b = Suc (retry_count b - 1)"
  by (simp add: retry_count_def)

lemma attempts_split: "map world [0..<retry_count b] = world 0 # map world [1..<retry_count b]"
  using retry_count_pos [of b] by (metis One_nat_def list.simps(9) upt_conv_Cons zero_less_Suc)

definition mine :: "'r redis \<Rightarrow> string \<Rightarrow> string \<Rightarrow> 'r \<Rightarrow> int \<Rightarrow> bool" where
  "mine R key q s n \<longleftrightarrow> 0 \<le> n \<and> rd_hmget R key s = (if n = 0 then (None, None) else (Some q, Some n))"

lemma acquire_script_mine:
  assumes "redis_hashes R" "mine R key q s n"
  shows "fst (acquire_script R key q ms s) = n + 1 \<and> mine R key q (snd (acquire_script R key q ms s)) (n + 1)"
  using assms(2)
  by (auto simp: mine_def acquire_script_def number_or_zero_def Let_def redis_hashes.hash_simps [OF assms(1)]
      split: if_splits)

lemma release_script_mine:
  assumes "redis_hashes R" "mine R key q s (n + 1)" "0 \<le> n"
  shows "mine R key q (snd (release_script R key q s)) n"
  using assms(2,3)
  by (auto simp: mine_def release_script_def number_or_zero_def Let_def redis_hashes.hash_simps [OF assms(1)]
      split: if_splits)

lemma ensure_scripts_connected:
  fixes m :: "'r lock_manager"
  assumes "lm_registered m \<or> outage = None"
  shows "ensure_scripts outage m = (Inr (), m\<lparr>lm_registered := True\<rparr>)"
  using assms by (cases m) (auto simp: ensure_scripts_def proc_simps)

lemma acquire_lock_apply:
  fixes m :: "'r lock_manager"
  assumes "lm_registered m \<or> outage = None"
  shows "acquire_lock R outage world (Task i) resource t b m =
    (let (x, s) = acquire_attempts R (lock_key resource) (task_owner i) (timeout_millis t)
       (map world [0..<retry_count b]) (lm_redis m)
     in (map_sum NetError id x, m\<lparr>lm_redis := s, lm_registered := True\<rparr>))"
  using assms
  by (simp add: acquire_lock_def and_then_def ensure_scripts_connected lift_result_apply get_owner_id_def
      task_owner_def on_redis_def split: prod.split)

lemma acquire_lock_mine:
  fixes m :: "'r lock_manager"
  assumes "redis_hashes R" "calm R (lock_key resource) world" "lm_registered m \<or> outage = None"
    and "mine R (lock_key resource) (task_owner i) (lm_redis m) n"
  obtains m' where "acquire_lock R outage world (Task i) resource t b m = (Inr True, m')" "lm_registered m'"
    and "mine R (lock_key resource) (task_owner i) (lm_redis m') (n + 1)"
proof -
  let ?k = "lock_key resource"
  let ?s = "fst (world 0) (lm_redis m)"
  let ?a = "acquire_script R ?k (task_owner i) (timeout_millis t)"
  have s: "mine R ?k (task_owner i) ?s n" using assms(2,4) by (simp add: mine_def calm_def steady_def)
  have a: "fst (?a ?s) = n + 1" "mine R ?k (task_owner i) (snd (?a ?s)) (n + 1)" "0 \<le> n"
    using acquire_script_mine [OF assms(1) s, of "timeout_millis t"] s by (auto simp: mine_def)
  have "acquire_attempts R ?k (task_owner i) (timeout_millis t) (map world [0..<retry_count b]) (lm_redis m) =
      (Inr True, snd (?a ?s))"
    unfolding attempts_split using assms(2) a by (cases "world 0") (auto simp: calm_def redis_call_def dest: spec [of _ 0])
  then show thesis
    using a by (intro that [of "m\<lparr>lm_redis := snd (?a ?s), lm_registered := True\<rparr>"])
      (simp_all add: acquire_lock_apply [OF assms(3)])
qed

lemma release_lock_mine:
  fixes m :: "'r lock_manager"
  assumes "redis_hashes R" "mine R (lock_key resource) (task_owner i) (lm_redis m) (n + 1)" "0 \<le> n"
  obtains m' where "release_lock R Delivered (Task i) resource m = (Inr (), m')" "lm_registered m' = lm_registered m"
    and "mine R (lock_key resource) (task_owner i) (lm_redis m') n"
  by (rule that [of "m\<lparr>lm_redis := snd (release_script R (lock_key resource) (task_owner i) (lm_redis m))\<rparr>"])
    (use release_script_mine [OF assms] in \<open>simp_all add: release_lock_def and_then_def lift_result_apply
       get_owner_id_def on_redis_def redis_call_def task_owner_def ret_apply catching_def\<close>)

section \<open>Blocks\<close>

text \<open>
  A body that, when it starts with the lock held \<open>n\<close> times, ends so, whether it returns or raises.
\<close>

definition balanced :: "'r redis \<Rightarrow> string \<Rightarrow> nat \<Rightarrow> ('r, 'e, 'a) lock_proc \<Rightarrow> bool" where
  "balanced R resource i body \<longleftrightarrow> (\<forall>m n. mine R (lock_key resource) (task_owner i) (lm_redis m) n \<and> lm_registered m \<longrightarrow>
     mine R (lock_key resource) (task_owner i) (lm_redis (snd (body m))) n \<and> lm_registered (snd (body m)))"

lemma lock_scope_runs:
  fixes m :: "'r lock_manager" and body :: "bool \<Rightarrow> ('r, 'e, 'a) lock_proc"
  assumes "redis_hashes R" "calm R (lock_key resource) world" "lm_registered m \<or> outage = None"
    and "mine R (lock_key resource) (task_owner i) (lm_redis m) n" and "balanced R resource i (body True)"
  obtains m1 m2 where "mine R (lock_key resource) (task_owner i) (lm_redis m1) (n + 1)" "lm_registered m1"
    and "lock_scope R outage world Delivered (Task i) resource t b body m = (fst (body True m1), m2)"
    and "mine R (lock_key resource) (task_owner i) (lm_redis m2) n" "lm_registered m2"
proof -
  obtain m1 where m1: "acquire_lock R outage world (Task i) resource (timeout_or default_lock_timeout t)
      (timeout_or default_blocking_timeout b) m = (Inr True :: 'e lock_error + bool, m1)" "lm_registered m1"
      "mine R (lock_key resource) (task_owner i) (lm_redis m1) (n + 1)"
    by (rule acquire_lock_mine [OF assms(1-4)])
  obtain r mb where body: "body True m1 = (r, mb)" by (cases "body True m1")
  have mb: "mine R (lock_key resource) (task_owner i) (lm_redis mb) (n + 1)" "lm_registered mb"
    using assms(5) m1(2,3) body unfolding balanced_def by (metis snd_conv)+
  have n: "0 \<le> n" using assms(4) by (simp add: mine_def)
  obtain m2 where m2: "release_lock R Delivered (Task i) resource mb = (Inr () :: 'e lock_error + unit, m2)" "lm_registered m2"
      "mine R (lock_key resource) (task_owner i) (lm_redis m2) n"
    using release_lock_mine [OF assms(1) mb(1) n] mb(2) by metis
  have "lock_scope R outage world Delivered (Task i) resource t b body m = (r, m2)"
    using m1(1) body m2(1) by (simp add: lock_scope_def and_then_def finally_do_def catching_def)
  then show thesis by (intro that [OF m1(3,2) _ m2(3,2)]) (simp add: body)
qed

text \<open>So a block is balanced itself, and blocks can be nested to any depth.\<close>

lemma lock_scope_balanced:
  fixes R :: "'r redis"
  assumes "redis_hashes R" "calm R (lock_key resource) world" "balanced R resource i (body True)"
  shows "balanced R resource i (lock_scope R outage world Delivered (Task i) resource t b body)"
  unfolding balanced_def
proof (intro allI impI)
  fix m :: "'r lock_manager" and n
  assume m: "mine R (lock_key resource) (task_owner i) (lm_redis m) n \<and> lm_registered m"
  then have "lm_registered m \<or> outage = None" by simp
  from m show "mine R (lock_key resource) (task_owner i)
      (lm_redis (snd (lock_scope R outage world Delivered (Task i) resource t b body m))) n \<and>
    lm_registered (snd (lock_scope R outage world Delivered (Task i) resource t b body m))"
    using lock_scope_runs [where body = body and m = m, OF assms(1,2) \<open>lm_registered m \<or> outage = None\<close> _ assms(3)]
    by (metis snd_conv)
qed

text \<open>A function that calls itself under the lock \<open>k\<close> times.\<close>

fun nested ::
  "'r redis \<Rightarrow> net_error option \<Rightarrow> (nat \<Rightarrow> ('r \<Rightarrow> 'r) \<times> fault) \<Rightarrow> nat \<Rightarrow> string \<Rightarrow> nat \<Rightarrow> ('r, 'e, 'a) lock_proc \<Rightarrow>
   ('r, 'e, 'a) lock_proc"
where
  "nested R outage world i resource 0 func = func"
| "nested R outage world i resource (Suc k) func =
     with_distributed_lock R outage world Delivered (Task i) resource None None
       (nested R outage world i resource k func)"

lemma nested_balanced:
  assumes "redis_hashes R" "calm R (lock_key resource) world" "balanced R resource i func"
  shows "balanced R resource i (nested R outage world i resource k func)"
  by (induction k) (simp_all add: assms with_distributed_lock_def lock_scope_balanced)

lemma nested_runs:
  fixes m :: "'r lock_manager"
  assumes "redis_hashes R" "calm R (lock_key resource) world" "balanced R resource i func"
    and "lm_registered m \<or> outage = None" "mine R (lock_key resource) (task_owner i) (lm_redis m) n"
  shows "\<exists>m1 m2. mine R (lock_key resource) (task_owner i) (lm_redis m1) (n + int k) \<and>
    nested R outage world i resource k func m = (fst (func m1), m2) \<and>
    (0 < k \<longrightarrow> mine R (lock_key resource) (task_owner i) (lm_redis m2) n)"
  using assms(4,5)
proof (induction k arbitrary: m n)
  case 0
  obtain r m2 where "func m = (r, m2)" by (cases "func m")
  then show ?case using 0 by (intro exI [of _ m] exI [of _ m2]) simp
next
  case (Suc k)
  let ?body = "\<lambda>acquired. if acquired then nested R outage world i resource k func
    else fail (LockRuntimeError (''Failed to acquire distributed lock: '' @ resource))"
  have "balanced R resource i (?body True)" by (simp add: nested_balanced [OF assms(1-3)])
  then obtain m1 m2 where m1: "mine R (lock_key resource) (task_owner i) (lm_redis m1) (n + 1)" "lm_registered m1"
    and run: "lock_scope R outage world Delivered (Task i) resource None None ?body m = (fst (?body True m1), m2)"
    and m2: "mine R (lock_key resource) (task_owner i) (lm_redis m2) n"
    by (rule lock_scope_runs [where body = ?body and m = m, OF assms(1,2) Suc.prems])
  obtain m1' m2' where inner: "mine R (lock_key resource) (task_owner i) (lm_redis m1') (n + 1 + int k)"
      "nested R outage world i resource k func m1 = (fst (func m1'), m2')"
    using Suc.IH [of m1 "n + 1"] m1 by blast
  have res: "fst (?body True m1) = fst (func m1')" unfolding if_True inner(2) fst_conv ..
  have "n + 1 + int k = n + int (Suc k)" by simp
  note at = inner(1) [unfolded this]
  show ?case
    using run at m2 unfolding res nested.simps with_distributed_lock_def by blast
qed

section \<open>Asking and giving up\<close>

lemma get_reentry_count_mine:
  fixes m :: "'r lock_manager"
  assumes "mine R (lock_key resource) (task_owner i) (lm_redis m) n" "lm_registered m \<or> outage = None"
  shows "get_reentry_count R outage Delivered (Task i) resource m = (Inr n, m\<lparr>lm_registered := True\<rparr>)"
  using assms(1)
  by (auto simp: get_reentry_count_def lock_status_def and_then_def ensure_scripts_connected [OF assms(2)] lift_result_apply
      get_owner_id_def task_owner_def on_redis_def redis_call_def status_script_def mine_def number_or_zero_def
      catching_def ret_apply Let_def split: if_splits)

lemma get_reentry_count_balanced: "balanced R resource i (get_reentry_count R outage Delivered (Task i) resource)"
  unfolding balanced_def
proof (intro allI impI)
  fix m :: "'a lock_manager" and n
  assume m: "mine R (lock_key resource) (task_owner i) (lm_redis m) n \<and> lm_registered m"
  then have "lm_registered m \<or> outage = None" by simp
  then show "mine R (lock_key resource) (task_owner i)
       (lm_redis (snd (get_reentry_count R outage Delivered (Task i) resource m))) n \<and>
     lm_registered (snd (get_reentry_count R outage Delivered (Task i) resource m))"
    using m by (simp add: get_reentry_count_mine [OF conjunct1 [OF m]])
qed

lemma default_retries: "retry_count default_blocking_timeout = 26"
  by code_simp

text \<open>
  An attempt that raises an exception the loop catches is repeated. When the script ran before its reply was
  lost, the repetition counts the lock twice.
\<close>

lemma repeated_attempt_counts_twice:
  assumes "redis_hashes R" "mine R key q s 0"
    and "\<forall>s. rd_hmget R key (others s) = rd_hmget R key s" "\<forall>s. rd_hmget R key (others' s) = rd_hmget R key s"
  shows "\<exists>s'. acquire_attempts R key q ms ((others, Reply_lost Os_error) # (others', Delivered) # ws) s = (Inr True, s') \<and>
    mine R key q s' 2"
proof -
  let ?a = "acquire_script R key q ms"
  let ?s1 = "snd (?a (others s))"
  have "mine R key q (others s) 0" using assms(2,3) by (simp add: mine_def)
  from acquire_script_mine [OF assms(1) this, of ms] have 1: "mine R key q ?s1 1" by simp
  then have "mine R key q (others' ?s1) 1" using assms(4) by (simp add: mine_def)
  from acquire_script_mine [OF assms(1) this, of ms] show ?thesis
    by (simp add: redis_call_def)
qed

text \<open>A call while another owner holds the lock.\<close>

lemma call_refused:
  fixes m :: "'r lock_manager"
  assumes "redis_hashes R" "steady R (lock_key resource) world" "lm_registered m \<or> outage = None"
    and "rd_hmget R (lock_key resource) (lm_redis m) = (Some p, Some n)" "p \<noteq> task_owner i"
  shows "\<exists>m'. with_distributed_lock R outage world flt (Task i) resource t b func m =
      (Inl (if \<exists>j < retry_count (timeout_or default_blocking_timeout b). breaks_off (snd (world j))
            then NetError Redis_error
            else LockRuntimeError (''Failed to acquire distributed lock: '' @ resource)), m') \<and>
    rd_hmget R (lock_key resource) (lm_redis m') = (Some p, Some n)"
proof -
  let ?b = "timeout_or default_blocking_timeout b" and ?t = "timeout_or default_lock_timeout t"
  let ?ws = "map world [0..<retry_count ?b]"
  have w: "\<forall>w \<in> set ?ws. \<forall>s. rd_hmget R (lock_key resource) (fst w s) = rd_hmget R (lock_key resource) s"
    using assms(2) by (auto simp: steady_def)
  have broken: "(\<exists>w \<in> set ?ws. breaks_off (snd w)) \<longleftrightarrow> (\<exists>j < retry_count ?b. breaks_off (snd (world j)))"
    by auto
  obtain s' where "acquire_attempts R (lock_key resource) (task_owner i) (timeout_millis ?t) ?ws (lm_redis m) =
        (if \<exists>j < retry_count ?b. breaks_off (snd (world j)) then Inl Redis_error else Inr False, s')"
      "rd_hmget R (lock_key resource) s' = (Some p, Some n)"
    using attempts_refused [OF assms(1) w assms(4,5), of "timeout_millis ?t"] assms(4) unfolding broken by auto
  then show ?thesis
    by (simp add: with_distributed_lock_def lock_scope_def and_then_def acquire_lock_apply [OF assms(3)]
        finally_do_def fail_apply ret_apply)
qed

section \<open>The theorems\<close>

text \<open>
  C18: in every run of the lock, in which owners take and release it in any order, its hash names the
  owner that is inside and how many blocks it is in; nobody is inside exactly when there is no hash; so two
  owners are never inside at once. Nothing else changes the hash in such a run: no key expires and nobody
  forces the lock.
\<close>

theorem lock_mutual_exclusion:
  assumes "redis_hashes R" "rd_hmget R key s0 = (None, None)"
    and "lock_run (\<lambda>ms q. acquire_script R key q ms) (release_script R key)
      (\<lambda>s s'. rd_hmget R key s' = rd_hmget R key s) s0 s d"
  shows "(\<forall>q n. rd_hmget R key s = (Some q, Some n) \<longleftrightarrow> 0 < d q \<and> n = d q) \<and>
    (rd_hmget R key s = (None, None) \<longleftrightarrow> (\<forall>q. d q = 0)) \<and>
    (\<forall>p q. 0 < d p \<longrightarrow> 0 < d q \<longrightarrow> p = q)"
proof -
  note e = redis_hashes.scripts_exclude [OF assms(1,3,2)]
  then have "p = q" if "0 < d p" "0 < d q" for p q using that by (metis option.inject prod.inject)
  then show ?thesis using e unfolding fun_eq_iff by blast
qed

text \<open>
  C19: a function decorated with the lock can call itself to any depth in the same task: at depth \<open>k\<close> it
  runs with the lock counted \<open>k\<close> times more than before, its result or exception is the result of the outermost
  call, and after the outermost call the lock is as it was, whether the function returned or raised.
\<close>

theorem reentrant_calls_restore_lock:
  fixes m :: "'r lock_manager"
  assumes "redis_hashes R" "calm R (lock_key resource) world" "lm_registered m \<or> outage = None"
    and "balanced R resource i func" "mine R (lock_key resource) (task_owner i) (lm_redis m) n"
  shows "\<exists>m1 m2. mine R (lock_key resource) (task_owner i) (lm_redis m1) (n + int (Suc k)) \<and>
    nested R outage world i resource (Suc k) func m = (fst (func m1), m2) \<and>
    mine R (lock_key resource) (task_owner i) (lm_redis m2) n"
  using nested_runs [OF assms(1,2,4,3,5), of "Suc k"] by blast

text \<open>
  C20: while another owner holds the lock, a decorated function is not run: the call raises
  \<^verbatim>\<open>RuntimeError\<close> after its attempts, or the exception of the client when one of them raises it, and
  leaves the lock as it was.
\<close>

theorem refused_call_not_run:
  fixes m :: "'r lock_manager"
  assumes "redis_hashes R" "steady R (lock_key resource) world" "lm_registered m \<or> outage = None"
    and "rd_hmget R (lock_key resource) (lm_redis m) = (Some p, Some n)" "p \<noteq> task_owner i"
  shows "\<exists>m'. with_distributed_lock R outage world flt (Task i) resource t b func m =
      (Inl (if \<exists>j < retry_count (timeout_or default_blocking_timeout b). breaks_off (snd (world j))
            then NetError Redis_error
            else LockRuntimeError (''Failed to acquire distributed lock: '' @ resource)), m') \<and>
    rd_hmget R (lock_key resource) (lm_redis m') = (Some p, Some n)"
  by (rule call_refused [OF assms])


section \<open>On the table\<close>

definition idle_manager :: "lock_table lock_manager" where
  "idle_manager = \<lparr>lm_redis = no_locks, lm_registered = False\<rparr>"

definition prompt :: "nat \<Rightarrow> (lock_table \<Rightarrow> lock_table) \<times> fault" where
  "prompt i = (id, Delivered)"

definition flaky :: "net_error \<Rightarrow> nat \<Rightarrow> (lock_table \<Rightarrow> lock_table) \<times> fault" where
  "flaky e i = (id, if i = 0 then Reply_lost e else Delivered)"

lemma table_laws: "redis_hashes table_redis"
  by (rule table.redis_hashes_axioms)

lemma worlds_calm: "calm table_redis k prompt" "steady table_redis k (flaky e)"
  by (simp_all add: calm_def steady_def prompt_def flaky_def)

lemma idle_mine: "mine table_redis k q (lm_redis idle_manager) 0"
  by (simp add: mine_def idle_manager_def no_locks_def table_redis_def)

theorem lock_mutual_exclusion_witness:
  "\<exists>s d. lock_run (\<lambda>ms q. acquire_script table_redis ''k'' q ms) (release_script table_redis ''k'')
      (\<lambda>s s'. rd_hmget table_redis ''k'' s' = rd_hmget table_redis ''k'' s) no_locks s d \<and>
     d ''a'' = 2 \<and> rd_hmget table_redis ''k'' s = (Some ''a'', Some 2)"
proof -
  let ?acq = "\<lambda>ms q. acquire_script table_redis ''k'' q ms" and ?rel = "release_script table_redis ''k''"
  let ?else = "\<lambda>s s'. rd_hmget table_redis ''k'' s' = rd_hmget table_redis ''k'' s"
  define s1 where "s1 = no_locks(''k'' := (Some ''a'', Some 1))"
  define s2 where "s2 = no_locks(''k'' := (Some ''a'', Some 2))"
  have a: "?acq 60000 ''a'' no_locks = (1, s1)" "?acq 60000 ''a'' s1 = (2, s2)" "?acq 60000 ''b'' s2 = (0, s2)"
    by (simp_all add: s1_def s2_def no_locks_def acquire_script_def table_redis_def number_or_zero_def Let_def)
  let ?run = "lock_run ?acq ?rel ?else no_locks"
  have "?run no_locks (\<lambda>_. 0)" by (rule lock_run.unlocked)
  then have "?run s1 ((\<lambda>_. 0)(''a'' := 0 + 1))" by (rule lock_run.entered [where s = no_locks and acq = ?acq, OF _ a(1)]) simp
  then have "?run s2 ((\<lambda>_. 0)(''a'' := 0 + 1, ''a'' := ((\<lambda>_. 0)(''a'' := 0 + 1)) ''a'' + 1))"
    by (rule lock_run.entered [where s = s1 and acq = ?acq, OF _ a(2)]) simp
  then have "?run s2 ((\<lambda>_. 0)(''a'' := 1, ''a'' := 2))" by simp
  then have run: "?run s2 ((\<lambda>_. 0)(''a'' := 1, ''a'' := 2))" by (rule lock_run.refused [where s = s2 and acq = ?acq, OF _ a(3)]) simp
  have "rd_hmget table_redis ''k'' no_locks = (None, None)" by (simp add: no_locks_def table_redis_def)
  from lock_mutual_exclusion [OF table_laws this run]
  have "rd_hmget table_redis ''k'' s2 = (Some ''a'', Some (((\<lambda>_. 0)(''a'' := 1, ''a'' := (2::int))) ''a''))"
    by (metis fun_upd_same zero_less_numeral)
  then show ?thesis using run by (intro exI [of _ s2] exI [of _ "(\<lambda>_. 0)(''a'' := 1, ''a'' := 2)"]) simp
qed

theorem reentrant_calls_restore_lock_witness:
  "\<exists>m. nested table_redis None prompt 7 ''r'' 3
     (get_reentry_count table_redis None Delivered (Task 7) ''r'' :: (lock_table, string, int) lock_proc) idle_manager =
       (Inr 3, m) \<and> rd_hmget table_redis (lock_key ''r'') (lm_redis m) = (None, None)"
proof -
  let ?f = "get_reentry_count table_redis None Delivered (Task 7) ''r'' :: (lock_table, string, int) lock_proc"
  have "lm_registered idle_manager \<or> (None :: net_error option) = None" by simp
  note reentrant_calls_restore_lock [where func = ?f and k = 2,
      OF table_laws worlds_calm(1) this get_reentry_count_balanced idle_mine]
  then
  obtain m1 m2 where m: "mine table_redis (lock_key ''r'') (task_owner 7) (lm_redis m1) 3"
      "nested table_redis None prompt 7 ''r'' 3 ?f idle_manager = (fst (?f m1), m2)"
      "mine table_redis (lock_key ''r'') (task_owner 7) (lm_redis m2) 0"
    unfolding numeral_3_eq_3 by (auto simp del: nested.simps simp: numeral_2_eq_2)
  have "lm_registered m1 \<or> (None :: net_error option) = None" by simp
  then have "fst (?f m1) = Inr 3" by (simp add: get_reentry_count_mine [OF m(1)])
  then show ?thesis using m(2,3) by (auto simp: mine_def)
qed

theorem refused_call_not_run_witness:
  "\<exists>m'. with_distributed_lock table_redis None (flaky Os_error) (Reply_lost Redis_error) (Task 7) ''r'' None (Some 5)
     (ret () :: (lock_table, string, unit) lock_proc)
     (idle_manager\<lparr>lm_redis := no_locks(lock_key ''r'' := (Some (task_owner 8), Some 1))\<rparr>) =
       (Inl (LockRuntimeError ''Failed to acquire distributed lock: r''), m')"
proof -
  let ?m = "idle_manager\<lparr>lm_redis := no_locks(lock_key ''r'' := (Some (task_owner 8), Some 1))\<rparr>"
  have "rd_hmget table_redis (lock_key ''r'') (lm_redis ?m) = (Some (task_owner 8), Some 1)" by (simp add: table_redis_def)
  moreover have "task_owner 8 \<noteq> task_owner 7" by code_simp
  moreover have "lm_registered ?m \<or> (None :: net_error option) = None" by simp
  moreover have "\<not> breaks_off (snd (flaky Os_error j))" for j by (simp add: breaks_off_def flaky_def)
  ultimately show ?thesis
    using refused_call_not_run [OF table_laws worlds_calm(2), of ?m None "''r''" "task_owner 8" 1 7 Os_error
      "Reply_lost Redis_error" None "Some 5" "ret () :: (lock_table, string, unit) lock_proc"] by auto
qed


end
