(* ===== verification/PyText.thy ===== *)
theory PyText
  imports Prelude "HOL-Library.Sublist"
begin

text \<open>
  Python text as a list of code points, for the components whose behaviour depends on characters above
  255: the white space and the decimal digits of Unicode 15, the version of Python 3.12, and the patterns
  of \<^verbatim>\<open>re\<close> that these components use, as a matcher with backtracking.
\<close>

type_synonym utext = "int list"

definition utext_of :: "string \<Rightarrow> utext" where
  "utext_of s = map of_char s"

section \<open>Characters\<close>

text \<open>\<^verbatim>\<open>str.isspace\<close> and \<^verbatim>\<open>\s\<close>, \<^verbatim>\<open>\d\<close> (the characters of category Nd come in tens).\<close>

definition space_cp :: "int \<Rightarrow> bool" where
  "space_cp c \<longleftrightarrow>
     c \<in> set [9, 10, 11, 12, 13, 28, 29, 30, 31, 32, 133, 160, 5760, 8192, 8193, 8194, 8195, 8196, 8197, 8198,
             8199, 8200, 8201, 8202, 8232, 8233, 8239, 8287, 12288]"

definition digit_zeros :: "int list" where
  "digit_zeros =
     [48, 1632, 1776, 1984, 2406, 2534, 2662, 2790, 2918, 3046, 3174, 3302, 3430, 3558, 3664, 3792, 3872, 4160,
      4240, 6112, 6160, 6470, 6608, 6784, 6800, 6992, 7088, 7232, 7248, 42528, 43216, 43264, 43472, 43504, 43600,
      44016, 65296, 66720, 68912, 69734, 69872, 69942, 70096, 70384, 70736, 70864, 71248, 71360, 71472, 71904,
      72016, 72784, 73040, 73120, 73552, 92768, 92864, 93008, 120782, 120792, 120802, 120812, 120822, 123200,
      123632, 124144, 125264, 130032]"

definition digit_cp :: "int \<Rightarrow> bool" where
  "digit_cp c \<longleftrightarrow> list_ex (\<lambda>z. z \<le> c \<and> c < z + 10) digit_zeros"

definition letter_cp :: "int \<Rightarrow> bool" where
  "letter_cp c \<longleftrightarrow> 65 \<le> c \<and> c \<le> 90 \<or> 97 \<le> c \<and> c \<le> 122"

section \<open>Text\<close>

definition ulstrip :: "utext \<Rightarrow> utext" where
  "ulstrip s = dropWhile space_cp s"

definition urstrip :: "utext \<Rightarrow> utext" where
  "urstrip s = rev (dropWhile space_cp (rev s))"

definition ustrip :: "utext \<Rightarrow> utext" where
  "ustrip s = urstrip (ulstrip s)"

text \<open>
  \<^verbatim>\<open>int(s)\<close>, \<open>None\<close> where it raises: decimal digits, single underscores between them, an optional sign,
  and white space around it, of which a text of ASCII characters has six; more than 4300 digits are refused.
\<close>

definition digit_of_cp :: "int \<Rightarrow> nat option" where
  "digit_of_cp c = map_option (\<lambda>z. nat (c - z)) (find (\<lambda>z. z \<le> c \<and> c < z + 10) digit_zeros)"

fun udigits_value :: "nat \<Rightarrow> utext \<Rightarrow> nat option" where
  "udigits_value n [] = Some n"
| "udigits_value n (c # cs) =
     (case digit_of_cp c of
        Some d \<Rightarrow> udigits_value (10 * n + d) cs
      | None \<Rightarrow> if c = 95 \<and> cs \<noteq> [] \<and> digit_of_cp (hd cs) \<noteq> None then udigits_value n cs else None)"

definition unsigned_uvalue :: "utext \<Rightarrow> nat option" where
  "unsigned_uvalue s =
     (if s = [] \<or> digit_of_cp (hd s) = None \<or> 4300 < length (filter digit_cp s) then None
      else udigits_value 0 s)"

definition int_space_cp :: "utext \<Rightarrow> int \<Rightarrow> bool" where
  "int_space_cp s c = (if list_all (\<lambda>d. d < 128) s then c \<in> set [9, 10, 11, 12, 13, 32] else space_cp c)"

definition int_of_utext :: "utext \<Rightarrow> int option" where
  "int_of_utext s =
     (let t = rev (dropWhile (int_space_cp s) (rev (dropWhile (int_space_cp s) s))) in
      case t of
        [] \<Rightarrow> None
      | c # cs \<Rightarrow>
          if c = 45 then map_option (\<lambda>n. - int n) (unsigned_uvalue cs)
          else if c = 43 then map_option int (unsigned_uvalue cs)
          else map_option int (unsigned_uvalue t))"

text \<open>\<^verbatim>\<open>re.sub(r"\s+", " ", s)\<close>.\<close>

fun collapse_spaces :: "utext \<Rightarrow> utext" where
  "collapse_spaces [] = []"
| "collapse_spaces [c] = [if space_cp c then 32 else c]"
| "collapse_spaces (c # d # s) =
     (if space_cp c then (if space_cp d then collapse_spaces (d # s) else 32 # collapse_spaces (d # s))
      else c # collapse_spaces (d # s))"

text \<open>\<^verbatim>\<open>s.split()\<close> and \<^verbatim>\<open>s.splitlines()\<close>, with the part read so far reversed.\<close>

fun usplit_from :: "utext \<Rightarrow> utext \<Rightarrow> utext list" where
  "usplit_from acc [] = (if acc = [] then [] else [rev acc])"
| "usplit_from acc (c # s) =
     (if space_cp c then (if acc = [] then [] else [rev acc]) @ usplit_from [] s else usplit_from (c # acc) s)"

definition usplit :: "utext \<Rightarrow> utext list" where
  "usplit s = usplit_from [] s"

definition line_end_cp :: "int \<Rightarrow> bool" where
  "line_end_cp c \<longleftrightarrow> c \<in> set [10, 11, 12, 13, 28, 29, 30, 133, 8232, 8233]"

fun ulines_from :: "utext \<Rightarrow> utext \<Rightarrow> utext list" where
  "ulines_from acc [] = (if acc = [] then [] else [rev acc])"
| "ulines_from acc (c # s) =
     (if c = 13 then rev acc # (case s of [] \<Rightarrow> [] | d # s' \<Rightarrow> if d = 10 then ulines_from [] s' else ulines_from [] s)
      else if line_end_cp c then rev acc # ulines_from [] s
      else ulines_from (c # acc) s)"

definition ulines :: "utext \<Rightarrow> utext list" where
  "ulines s = ulines_from [] s"

definition ucontains :: "utext \<Rightarrow> utext \<Rightarrow> bool" where
  "ucontains t s \<longleftrightarrow> list_ex (prefix t) (suffixes s)"

text \<open>\<^verbatim>\<open>sep.join(xs)\<close>.\<close>

fun ujoin :: "utext \<Rightarrow> utext list \<Rightarrow> utext" where
  "ujoin sep [] = []"
| "ujoin sep [x] = x"
| "ujoin sep (x # y # xs) = x @ sep @ ujoin sep (y # xs)"

lemma urstrip_prefix: "\<exists>t. s = urstrip s @ t \<and> (\<forall>c \<in> set t. space_cp c)"
proof (intro exI conjI)
  show "s = urstrip s @ rev (takeWhile space_cp (rev s))"
    by (metis urstrip_def rev_append rev_rev_ident takeWhile_dropWhile_id)
  show "\<forall>c \<in> set (rev (takeWhile space_cp (rev s))). space_cp c" by (auto dest: set_takeWhileD)
qed

text \<open>Stripping takes white space off both ends.\<close>

lemma ustrip_split:
  obtains a b where "s = a @ ustrip s @ b" "a = takeWhile space_cp s" "\<forall>c \<in> set b. space_cp c"
proof -
  obtain b where "ulstrip s = ustrip s @ b" "\<forall>c \<in> set b. space_cp c"
    using urstrip_prefix [of "ulstrip s"] by (auto simp: ustrip_def)
  then show thesis
    by (intro that [of "takeWhile space_cp s" b]) (metis takeWhile_dropWhile_id ulstrip_def, simp_all)
qed

lemma ustrip_Nil_iff: "ustrip s = [] \<longleftrightarrow> (\<forall>c \<in> set s. space_cp c)"
proof
  assume e: "ustrip s = []"
  obtain a b where "s = a @ ustrip s @ b" "a = takeWhile space_cp s" "\<forall>c \<in> set b. space_cp c" by (rule ustrip_split)
  then show "\<forall>c \<in> set s. space_cp c" using e by (metis Un_iff append_Nil set_append set_takeWhileD)
next
  assume "\<forall>c \<in> set s. space_cp c"
  then have "dropWhile space_cp s = []" using dropWhile_eq_Nil_conv by metis
  then show "ustrip s = []" unfolding ustrip_def urstrip_def ulstrip_def by (simp only: rev.simps dropWhile.simps)
qed

lemma ustrip_ends:
  assumes "ustrip s \<noteq> []"
  shows "\<not> space_cp (hd (ustrip s))" and "\<not> space_cp (last (ustrip s))"
proof -
  have ne: "ulstrip s \<noteq> []" "dropWhile space_cp (rev (ulstrip s)) \<noteq> []"
    using assms by (auto simp: ustrip_def urstrip_def)
  show "\<not> space_cp (last (ustrip s))"
    using hd_dropWhile [OF ne(2)] ne(2) by (simp add: ustrip_def urstrip_def last_rev)
  obtain t where "ulstrip s = ustrip s @ t" using urstrip_prefix [of "ulstrip s"] by (auto simp: ustrip_def)
  then have "hd (ustrip s) = hd (ulstrip s)" using assms by (metis hd_append2)
  then show "\<not> space_cp (hd (ustrip s))" using hd_dropWhile ne(1) by (simp add: ulstrip_def)
qed

lemma ustrip_id:
  assumes "s \<noteq> []" "\<not> space_cp (hd s)" "\<not> space_cp (last s)"
  shows "ustrip s = s"
proof -
  have "dropWhile space_cp s = s" using assms(1,2) by (cases s) auto
  moreover have "dropWhile space_cp (rev s) = rev s" using assms(1,3) by (cases s rule: rev_cases) auto
  ultimately show ?thesis by (simp add: ustrip_def urstrip_def ulstrip_def)
qed

lemma ustrip_idem [simp]: "ustrip (ustrip s) = ustrip s"
  by (metis ustrip_Nil_iff ustrip_ends ustrip_id empty_iff list.set(1))

section \<open>Patterns\<close>

text \<open>
  \<open>Rep m k p\<close> is \<^verbatim>\<open>p{m,m+k}\<close> and \<open>Many p\<close> is \<^verbatim>\<open>p*\<close>. \<open>ends p s\<close> are the rests of \<open>s\<close> after the
  matches of \<open>p\<close> at its start, in the order in which Python tries them.
\<close>

datatype rx =
    Chr "int \<Rightarrow> bool"
  | Seq rx rx
  | Or rx rx
  | Rep nat nat rx
  | Many rx

fun rx_size :: "rx \<Rightarrow> nat" where
  "rx_size (Chr P) = 1"
| "rx_size (Seq p q) = Suc (rx_size p + rx_size q)"
| "rx_size (Or p q) = Suc (rx_size p + rx_size q)"
| "rx_size (Rep m k p) = Suc (m + k + rx_size p)"
| "rx_size (Many p) = Suc (rx_size p)"

function (sequential) ends :: "rx \<Rightarrow> utext \<Rightarrow> utext list" where
  "ends (Chr P) s = (case s of [] \<Rightarrow> [] | c # cs \<Rightarrow> if P c then [cs] else [])"
| "ends (Seq p q) s = concat (map (ends q) (filter (\<lambda>t. length t \<le> length s) (ends p s)))"
| "ends (Or p q) s = ends p s @ ends q s"
| "ends (Rep 0 0 p) s = [s]"
| "ends (Rep 0 (Suc k) p) s =
     concat (map (ends (Rep 0 k p)) (filter (\<lambda>t. length t \<le> length s) (ends p s))) @ [s]"
| "ends (Rep (Suc m) k p) s =
     concat (map (ends (Rep m k p)) (filter (\<lambda>t. length t \<le> length s) (ends p s)))"
| "ends (Many p) s =
     concat (map (ends (Many p)) (filter (\<lambda>t. length t < length s) (ends p s))) @ [s]"
  by pat_completeness auto
termination
  by (relation "measures [\<lambda>(p, s). length s, \<lambda>(p, s). rx_size p]") (auto simp: le_eq_less_or_eq)

definition opt_rx :: "rx \<Rightarrow> rx" where
  "opt_rx p = Rep 0 1 p"

definition some_rx :: "rx \<Rightarrow> rx" where
  "some_rx p = Seq p (Many p)"

fun lit :: "utext \<Rightarrow> rx" where
  "lit [] = Rep 0 0 (Chr (\<lambda>_. False))"
| "lit (c # s) = Seq (Chr (\<lambda>x. x = c)) (lit s)"

fun seqs :: "rx list \<Rightarrow> rx" where
  "seqs [] = Rep 0 0 (Chr (\<lambda>_. False))"
| "seqs (p # ps) = Seq p (seqs ps)"

fun ors :: "rx list \<Rightarrow> rx" where
  "ors [] = Chr (\<lambda>_. False)"
| "ors (p # ps) = Or p (ors ps)"

text \<open>
  \<^verbatim>\<open>re.match(p + "$", s)\<close> for an \<open>s\<close> without a final newline, \<^verbatim>\<open>re.match(p, s)\<close> and
  \<^verbatim>\<open>re.search(p, s)\<close>, each as whether there is a match.
\<close>

definition matches_all :: "rx \<Rightarrow> utext \<Rightarrow> bool" where
  "matches_all p s \<longleftrightarrow> [] \<in> set (ends p s)"

definition matches_start :: "rx \<Rightarrow> utext \<Rightarrow> bool" where
  "matches_start p s \<longleftrightarrow> ends p s \<noteq> []"

definition found_in :: "rx \<Rightarrow> utext \<Rightarrow> bool" where
  "found_in p s \<longleftrightarrow> list_ex (matches_start p) (suffixes s)"

text \<open>What the patterns mean: \<open>says p u\<close> when \<open>u\<close> is a word of the language of \<open>p\<close>.\<close>

inductive says :: "rx \<Rightarrow> utext \<Rightarrow> bool" where
  "P c \<Longrightarrow> says (Chr P) [c]"
| "says p u \<Longrightarrow> says q v \<Longrightarrow> says (Seq p q) (u @ v)"
| "says p u \<Longrightarrow> says (Or p q) u"
| "says q u \<Longrightarrow> says (Or p q) u"
| "says (Rep 0 k p) []"
| "says p u \<Longrightarrow> says (Rep 0 k p) v \<Longrightarrow> says (Rep 0 (Suc k) p) (u @ v)"
| "says p u \<Longrightarrow> says (Rep m k p) v \<Longrightarrow> says (Rep (Suc m) k p) (u @ v)"
| "says (Many p) []"
| "says p u \<Longrightarrow> says (Many p) v \<Longrightarrow> says (Many p) (u @ v)"

inductive_cases saysE:
  "says (Chr P) u" "says (Seq p q) u" "says (Or p q) u" "says (Rep 0 0 p) u" "says (Rep 0 (Suc k) p) u"
  "says (Rep (Suc m) k p) u"

text \<open>The last equation would be unfolded for ever.\<close>

declare ends.simps(7) [simp del]

lemma in_Many:
  "t \<in> set (ends (Many p) s) \<longleftrightarrow>
    t = s \<or> (\<exists>r \<in> set (ends p s). length r < length s \<and> t \<in> set (ends (Many p) r))"
  by (subst ends.simps(7)) auto

lemma in_chain:
  "t \<in> set (concat (map f (filter P xs))) \<longleftrightarrow> (\<exists>r \<in> set xs. P r \<and> t \<in> set (f r))"
  by auto

lemma ends_says: "t \<in> set (ends p s) \<Longrightarrow> \<exists>u. s = u @ t \<and> says p u"
proof (induction p s arbitrary: t rule: ends.induct)
  case (1 P s)
  then show ?case by (auto split: list.splits if_splits intro: says.intros)
next
  case (2 p q s)
  then obtain r where r: "r \<in> set (ends p s)" "length r \<le> length s" "t \<in> set (ends q r)" by (auto simp: in_chain)
  obtain u where "s = u @ r" "says p u" using 2(1) [OF r(1)] by blast
  moreover obtain v where "r = v @ t" "says q v" using 2(2) [of r t] r by auto
  ultimately show ?case by (metis append_assoc says.intros(2))
next
  case (3 p q s)
  from 3(3) have "t \<in> set (ends p s) \<or> t \<in> set (ends q s)" by simp
  then show ?case using 3(1,2) says.intros(3,4) by metis
next
  case (4 p s)
  then show ?case by (auto intro: says.intros(5))
next
  case (5 k p s)
  show ?case
  proof (cases "t = s")
    case False
    then obtain r where r: "r \<in> set (ends p s)" "length r \<le> length s" "t \<in> set (ends (Rep 0 k p) r)"
      using 5(3) by (auto simp: in_chain)
    obtain u where "s = u @ r" "says p u" using 5(1) [OF r(1)] by blast
    moreover obtain v where "r = v @ t" "says (Rep 0 k p) v" using 5(2) [of r t] r by auto
    ultimately show ?thesis by (metis append_assoc says.intros(6))
  qed (auto intro: says.intros(5))
next
  case (6 m k p s)
  then obtain r where r: "r \<in> set (ends p s)" "length r \<le> length s" "t \<in> set (ends (Rep m k p) r)"
    by (auto simp: in_chain)
  obtain u where "s = u @ r" "says p u" using 6(1) [OF r(1)] by blast
  moreover obtain v where "r = v @ t" "says (Rep m k p) v" using 6(2) [of r t] r by auto
  ultimately show ?case by (metis append_assoc says.intros(7))
next
  case (7 p s)
  show ?case
  proof (cases "t = s")
    case False
    then obtain r where r: "r \<in> set (ends p s)" "length r < length s" "t \<in> set (ends (Many p) r)"
      using 7(3) in_Many by metis
    obtain u where "s = u @ r" "says p u" using 7(1) [OF r(1)] by blast
    moreover obtain v where "r = v @ t" "says (Many p) v" using 7(2) [of r t] r by auto
    ultimately show ?thesis by (metis append_assoc says.intros(9))
  qed (auto intro: says.intros(8))
qed

lemma says_Many_cases:
  assumes "says (Many p) u"
  shows "u = [] \<or> (\<exists>v w. u = v @ w \<and> v \<noteq> [] \<and> says p v \<and> says (Many p) w)"
  using assms
proof (induction "Many p" u rule: says.induct)
  case (9 u v)
  then show ?case by (cases "u = []") auto
qed simp

lemma says_ends: "says p u \<Longrightarrow> t \<in> set (ends p (u @ t))"
proof (induction p "u @ t" arbitrary: u t rule: ends.induct)
  case (1 P)
  then show ?case by (auto elim: saysE)
next
  case (2 p q)
  obtain v w where u: "u = v @ w" "says p v" "says q w" using 2(3) by (auto elim: saysE)
  have 1: "w @ t \<in> set (ends p (u @ t))" using 2(1) [of v "w @ t"] u by simp
  moreover have "t \<in> set (ends q (w @ t))" by (rule 2(2)) (use 1 u in auto)
  ultimately show ?case using u by (auto simp: in_chain intro!: bexI [of _ "w @ t"])
next
  case (3 p q)
  then show ?case by (auto elim: saysE)
next
  case (4 p)
  then show ?case by (auto elim: saysE)
next
  case (5 k p)
  show ?case
  proof (cases "u = []")
    case False
    from 5(3) obtain v w where u: "u = v @ w" "says p v" "says (Rep 0 k p) w"
      by (cases rule: says.cases) (use False in auto)
    have 1: "w @ t \<in> set (ends p (u @ t))" using 5(1) [of v "w @ t"] u by simp
    moreover have "t \<in> set (ends (Rep 0 k p) (w @ t))" by (rule 5(2)) (use 1 u in auto)
    ultimately show ?thesis using u by (auto simp: in_chain intro!: bexI [of _ "w @ t"])
  qed simp
next
  case (6 m k p)
  obtain v w where u: "u = v @ w" "says p v" "says (Rep m k p) w" using 6(3) by (cases rule: says.cases) auto
  have 1: "w @ t \<in> set (ends p (u @ t))" using 6(1) [of v "w @ t"] u by simp
  moreover have "t \<in> set (ends (Rep m k p) (w @ t))" by (rule 6(2)) (use 1 u in auto)
  ultimately show ?case using u by (auto simp: in_chain intro!: bexI [of _ "w @ t"])
next
  case (7 p)
  show ?case
  proof (cases "u = []")
    case False
    then obtain v w where u: "u = v @ w" "v \<noteq> []" "says p v" "says (Many p) w"
      using says_Many_cases [OF 7(3)] by blast
    have 1: "w @ t \<in> set (ends p (u @ t))" using 7(1) [of v "w @ t"] u by simp
    moreover have "t \<in> set (ends (Many p) (w @ t))" by (rule 7(2)) (use 1 u in auto)
    moreover have "length (w @ t) < length (u @ t)" using u(1,2) by simp
    ultimately show ?thesis using in_Many by blast
  qed (subst in_Many, simp)
qed

lemma ends_iff: "t \<in> set (ends p s) \<longleftrightarrow> (\<exists>u. s = u @ t \<and> says p u)"
  using ends_says says_ends by blast

lemma matches_all_iff: "matches_all p s \<longleftrightarrow> says p s"
  by (simp add: matches_all_def ends_iff)

lemma found_in_iff: "found_in p s \<longleftrightarrow> (\<exists>a u b. s = a @ u @ b \<and> says p u)"
proof
  assume "found_in p s"
  then obtain v t where "suffix v s" "t \<in> set (ends p v)"
    by (fastforce simp: found_in_def list_ex_iff matches_start_def neq_Nil_conv)
  then show "\<exists>a u b. s = a @ u @ b \<and> says p u" unfolding suffix_def ends_iff by blast
next
  assume "\<exists>a u b. s = a @ u @ b \<and> says p u"
  then obtain a u b where s: "s = a @ u @ b" "says p u" by blast
  then have "b \<in> set (ends p (u @ b))" by (simp add: says_ends)
  then have "matches_start p (u @ b)" by (auto simp: matches_start_def)
  moreover have "suffix (u @ b) s" using s(1) by (simp add: suffix_def)
  ultimately show "found_in p s" by (auto simp: found_in_def list_ex_iff)
qed

end
