(* ===== verification/SourceParser.thy ===== *)
theory SourceParser
  imports PyText
begin

text \<open>
  \<^verbatim>\<open>services/source_parser.py\<close>: the content of a source is normalized and cut into segments at the
  ends of sentences, or its segments are taken from the blocks that an importer found in it.

  A block is given with the values the code reads from its dictionary: text as text (empty where the
  code would take the empty text), its start and its two page fields as values of any type, which the code
  tests and converts itself. Metadata that is not a dictionary with a list of blocks is the empty list.
  Infinite numbers are left out.
\<close>

section \<open>Data\<close>

record segment =
  sg_start :: int
  sg_end :: int
  sg_text :: utext
  sg_artifact_type :: string
  sg_raw_text :: "utext option"
  sg_page :: "int option"
  sg_block_id :: "utext option"
  sg_paragraph_id :: "utext option"
  sg_section_path :: "utext list"

definition text_segment :: "int \<Rightarrow> int \<Rightarrow> utext \<Rightarrow> segment" where
  "text_segment start end_pos text =
     \<lparr>sg_start = start, sg_end = end_pos, sg_text = text, sg_artifact_type = ''text'', sg_raw_text = None,
      sg_page = None, sg_block_id = None, sg_paragraph_id = None, sg_section_path = []\<rparr>"

record parsed_source =
  ps_source_type :: string
  ps_normalized_content :: utext
  ps_segments :: "segment list"

datatype parse_error = ParseFailureError string

text \<open>A value of a dictionary, as far as \<^verbatim>\<open>int(value)\<close> and its truth see it; a container is empty or not.\<close>

datatype raw_value = RNone | RBool bool | RInt int | RFloat rat | RText utext | RContainer bool

record block =
  bk_raw_text :: utext
  bk_text :: utext
  bk_start :: raw_value
  bk_page_number :: raw_value
  bk_page :: raw_value
  bk_anchor_id :: utext
  bk_block_id :: utext
  bk_paragraph_ids :: "utext list"
  bk_section_path :: "utext list"

section \<open>Sentences\<close>

definition normalize_content :: "utext \<Rightarrow> utext" where
  "normalize_content content = ustrip (collapse_spaces content)"

text \<open>The stops are \<^verbatim>\<open>. ! ? ;\<close> and their full width forms.\<close>

definition stop_cp :: "int \<Rightarrow> bool" where
  "stop_cp c \<longleftrightarrow> c \<in> set [46, 33, 63, 59, 12290, 65281, 65311, 65307]"

definition run_cp :: "int \<Rightarrow> bool" where
  "run_cp c \<longleftrightarrow> c \<noteq> 10 \<and> \<not> stop_cp c"

text \<open>
  The matches of \<^verbatim>\<open>_split_pattern\<close>, a longest run followed by all its stops or by the end of the text,
  each with its position. A run before a line feed that is not the last character is no match.
\<close>

function find_sentences :: "nat \<Rightarrow> utext \<Rightarrow> (nat \<times> utext) list" where
  "find_sentences pos [] = []"
| "find_sentences pos (c # s) =
     (if \<not> run_cp c then find_sentences (pos + 1) s
      else
        let run = c # takeWhile run_cp s; rest = dropWhile run_cp s; stops = takeWhile stop_cp rest
        in if rest = [] \<or> rest = [10] then (pos, run) # find_sentences (pos + length run) rest
           else if stops = [] then find_sentences (pos + length run) rest
           else (pos, run @ stops) # find_sentences (pos + length (run @ stops)) (dropWhile stop_cp rest))"
  by pat_completeness auto
termination
  by (relation "measure (\<lambda>(pos, s). length s)")
    (auto simp: le_imp_less_Suc length_dropWhile_le intro: le_less_trans [OF length_dropWhile_le])

definition sentence_segments :: "nat \<times> utext \<Rightarrow> segment list" where
  "sentence_segments m =
     (let text = ustrip (snd m); start = fst m + (length (snd m) - length (ulstrip (snd m)))
      in if text = [] then [] else [text_segment (int start) (int (start + length text)) text])"

definition extract_segments :: "utext \<Rightarrow> segment list" where
  "extract_segments normalized_content = concat (map sentence_segments (find_sentences 0 normalized_content))"

section \<open>Kinds of blocks\<close>

definition digits_in :: "utext \<Rightarrow> nat" where
  "digits_in s = length (filter digit_cp s)"

definition looks_like_table_block :: "utext \<Rightarrow> bool" where
  "looks_like_table_block text =
     (if 9 \<in> set text \<or> 124 \<in> set text then True
      else
        let lines = filter (\<lambda>l. l \<noteq> []) (map ustrip (ulines text))
        in if 3 \<le> length lines then 2 \<le> length (filter (\<lambda>l. 2 \<le> digits_in l) lines)
           else
             let tokens = usplit text
             in 6 \<le> length tokens \<and> 4 \<le> length (filter (\<lambda>t. list_ex digit_cp t) tokens))"

definition one_of :: "int list \<Rightarrow> rx" where
  "one_of cs = Chr (\<lambda>c. c \<in> set cs)"

definition cjk_digits :: "int list" where
  "cjk_digits = [19968, 20108, 19977, 22235, 20116, 20845, 19971, 20843, 20061, 21313]"

text \<open>\<^verbatim>\<open>Figure\<close> and \<^verbatim>\<open>Fig\<close> in any case; the letter i then also matches its two Turkish forms.\<close>

definition figure_rx :: rx where
  "figure_rx =
     (let fig = [one_of [70, 102], one_of [73, 105, 304, 305], one_of [71, 103]] in
      seqs
        [ors [one_of [22270], seqs (fig @ [one_of [85, 117], one_of [82, 114], one_of [69, 101]]),
              seqs (fig @ [opt_rx (one_of [46])])],
         Many (Chr space_cp), Or (Chr digit_cp) (one_of cjk_digits)])"

definition formula_start_rx :: rx where
  "formula_start_rx =
     seqs [opt_rx (one_of [65288, 40]), some_rx (Chr digit_cp), opt_rx (one_of [65289, 41]),
           Many (Chr space_cp), one_of [61, 8776, 8721, 8747, 8730]]"

definition equals_number_rx :: rx where
  "equals_number_rx = seqs [one_of [61, 8776], Many (Chr space_cp), opt_rx (one_of [45, 43]), Chr digit_cp]"

definition equals_symbol_rx :: rx where
  "equals_symbol_rx =
     seqs
       [one_of [61, 8776], Many (Chr (\<lambda>c. c \<noteq> 10)),
        ors [one_of [8721, 8747, 8730, 8711, 916, 945, 946, 947, 951, 955, 956, 963, 952, 960],
             seqs [lit (utext_of ''x_''), one_of [123, 40]], seqs [Chr letter_cp, one_of [40]]]]"

definition code_markers :: "string list" where
  "code_markers =
     [''def '', ''class '', ''return '', ''if '', ''else:'', ''for '', ''while '', ''{'', ''}'', ''=>'',
      ''#include'', ''public '', ''private '', ''const '', ''let '', ''var '', ''import '']"

definition looks_like_code_block :: "utext \<Rightarrow> bool" where
  "looks_like_code_block text =
     (let lines = map urstrip (filter (\<lambda>l. ustrip l \<noteq> []) (ulines text)) in
      if length lines < 2 then False
      else
        let marked = length (filter (\<lambda>l. list_ex (\<lambda>m. ucontains (utext_of m) l) code_markers) lines);
            indented = length (filter (\<lambda>l. prefix (replicate 4 32) l \<or> prefix [9] l \<or>
              matches_start (seqs [some_rx (Chr digit_cp), one_of [46], Chr space_cp]) l) lines)
        in 2 \<le> marked \<or> 1 \<le> marked \<and> 1 \<le> indented)"

definition classify_block_artifact :: "utext \<Rightarrow> string" where
  "classify_block_artifact text =
     (let stripped = ustrip text in
      if stripped = [] then ''text''
      else if matches_start figure_rx stripped then ''figure''
      else if matches_start formula_start_rx stripped \<or> found_in equals_number_rx stripped \<or>
          found_in equals_symbol_rx stripped then ''formula''
      else if looks_like_code_block stripped then ''code''
      else ''text'')"

section \<open>Blocks\<close>

definition first_text :: "utext \<Rightarrow> utext \<Rightarrow> utext" where
  "first_text s t = (if s = [] then t else s)"

text \<open>\<^verbatim>\<open>x or y\<close>, and \<^verbatim>\<open>int(value)\<close> with the exceptions caught.\<close>

fun raw_truthy :: "raw_value \<Rightarrow> bool" where
  "raw_truthy RNone = False"
| "raw_truthy (RBool b) = b"
| "raw_truthy (RInt i) = (i \<noteq> 0)"
| "raw_truthy (RFloat x) = (x \<noteq> 0)"
| "raw_truthy (RText s) = (s \<noteq> [])"
| "raw_truthy (RContainer b) = b"

definition raw_or :: "raw_value \<Rightarrow> raw_value \<Rightarrow> raw_value" where
  "raw_or v w = (if raw_truthy v then v else w)"

fun coerce_optional_int :: "raw_value \<Rightarrow> int option" where
  "coerce_optional_int (RBool b) = Some (if b then 1 else 0)"
| "coerce_optional_int (RInt i) = Some i"
| "coerce_optional_int (RFloat x) = Some (if 0 \<le> x then \<lfloor>x\<rfloor> else - \<lfloor>- x\<rfloor>)"
| "coerce_optional_int (RText s) = int_of_utext s"
| "coerce_optional_int _ = None"

definition coerce_int :: "raw_value \<Rightarrow> int \<Rightarrow> int" where
  "coerce_int v d = (case coerce_optional_int v of None \<Rightarrow> d | Some n \<Rightarrow> n)"

definition block_page :: "block \<Rightarrow> int option" where
  "block_page b = coerce_optional_int (raw_or (bk_page_number b) (bk_page b))"

definition located :: "block \<Rightarrow> int \<Rightarrow> int \<Rightarrow> utext \<Rightarrow> string \<Rightarrow> utext \<Rightarrow> segment" where
  "located b start end_pos text artifact_type raw_text =
     \<lparr>sg_start = start, sg_end = end_pos, sg_text = text, sg_artifact_type = artifact_type,
      sg_raw_text = Some raw_text, sg_page = block_page b,
      sg_block_id =
        (let i = ustrip (first_text (bk_anchor_id b) (bk_block_id b)) in if i = [] then None else Some i),
      sg_paragraph_id = (case bk_paragraph_ids b of [] \<Rightarrow> None | p # _ \<Rightarrow> Some p),
      sg_section_path = bk_section_path b\<rparr>"

definition block_segments :: "block \<Rightarrow> segment list" where
  "block_segments b =
     (let raw_block_text = first_text (bk_raw_text b) (bk_text b);
          block_text = normalize_content (first_text (bk_text b) raw_block_text)
      in if block_text = [] then []
         else
           let block_start = coerce_int (bk_start b) 0;
               shown = first_text raw_block_text block_text;
               whole = (\<lambda>ty. [located b block_start (block_start + int (length block_text)) block_text ty
                          (first_text (ustrip raw_block_text) block_text)])
           in if looks_like_table_block shown then whole ''table''
              else
                let ty = classify_block_artifact shown
                in if ty \<in> set [''formula'', ''figure'', ''code''] then whole ty
                   else map (\<lambda>s. located b (block_start + sg_start s) (block_start + sg_end s) (sg_text s) ty (sg_text s))
                     (extract_segments block_text))"

definition extract_structured_segments :: "block list \<Rightarrow> segment list" where
  "extract_structured_segments blocks = concat (map block_segments blocks)"

section \<open>Parsing\<close>

definition parse_source :: "string \<Rightarrow> utext \<Rightarrow> block list \<Rightarrow> parse_error + parsed_source" where
  "parse_source source_type content blocks =
     (let normalized = normalize_content content in
      if ucontains (utext_of ''[[PARSE_FAIL]]'') normalized then
        Inl (ParseFailureError ''parser marker requested failure'')
      else if normalized = [] then Inl (ParseFailureError ''empty normalized content'')
      else
        let structured = extract_structured_segments blocks;
            segments = (if structured = [] then extract_segments normalized else structured)
        in if segments = [] then Inl (ParseFailureError ''no parseable segments found'')
           else
             Inr \<lparr>ps_source_type = source_type, ps_normalized_content = normalized, ps_segments = segments\<rparr>)"

end
