(* ===== verification/SourceChunking.thy ===== *)
theory SourceChunking
  imports SourceParser PyValue
begin

text \<open>
  \<^verbatim>\<open>services/source_chunking_service.py\<close>: consecutive segments of a parsed source are joined to chunks
  of bounded size; a heading starts a new chunk and names its section. \<^verbatim>\<open>hashlib.sha1\<close> of the text, in
  hexadecimal, is the parameter \<open>sha1\<close>.
\<close>

section \<open>Headings\<close>

definition separator_rx :: "int list \<Rightarrow> rx" where
  "separator_rx cs = Chr (\<lambda>c. c \<in> set cs \<or> space_cp c)"

definition solid_rx :: rx where
  "solid_rx = Chr (\<lambda>c. \<not> space_cp c)"

definition numeric_heading_rx :: rx where
  "numeric_heading_rx =
     (let number = some_rx (Chr digit_cp); dot = one_of [46] in
      seqs [number, dot, number, Rep 0 2 (seqs [dot, number]),
            Many (separator_rx [46, 41, 12289, 58, 65306, 45]), Rep 1 63 solid_rx])"

definition cjk_heading_rx :: rx where
  "cjk_heading_rx =
     seqs [Rep 1 2 (one_of cjk_digits), some_rx (separator_rx [12289, 46, 41, 65306, 58, 45]), Rep 1 63 solid_rx]"

definition chapter_heading_rx :: rx where
  "chapter_heading_rx =
     seqs [one_of [31532], Rep 1 5 (Or (one_of cjk_digits) (Chr digit_cp)),
           one_of [31456, 33410, 37096, 20998, 31687], Many (separator_rx [65306, 58, 45]), Rep 0 64 solid_rx]"

definition looks_like_heading :: "utext \<Rightarrow> bool" where
  "looks_like_heading text =
     (let stripped = ustrip text in
      if stripped = [] \<or> 80 < length stripped then False
      else if 10 \<in> set stripped then False
      else
        let digit_count = digits_in stripped;
            semantic_letter_count = length (filter (\<lambda>c. letter_cp c \<or> 19968 \<le> c \<and> c \<le> 40959) stripped)
        in if 1 \<le> digit_count \<and> semantic_letter_count \<le> 4 \<and> length stripped \<le> 18 then False
           else if last stripped \<in> set [12290, 65281, 65311, 33, 63, 65307, 59, 65292, 44] then False
           else matches_all numeric_heading_rx stripped \<or> matches_all cjk_heading_rx stripped \<or>
             matches_all chapter_heading_rx stripped)"

section \<open>Chunks\<close>

record source_chunk =
  ck_chunk_id :: string
  ck_chunk_index :: nat
  ck_section_hint :: utext
  ck_start :: int
  ck_end :: int
  ck_text :: utext
  ck_chunk_hash :: string

record chunking_service =
  ch_max_chars :: int
  ch_max_segments :: int

text \<open>\<^verbatim>\<open>__init__\<close>.\<close>

definition chunking_service :: "int \<Rightarrow> int \<Rightarrow> chunking_service" where
  "chunking_service max_chars max_segments =
     \<lparr>ch_max_chars = max 400 max_chars, ch_max_segments = max 1 max_segments\<rparr>"

definition hash_text :: "(utext \<Rightarrow> string) \<Rightarrow> utext \<Rightarrow> string" where
  "hash_text sha1 text = take 16 (sha1 text)"

definition chunk_id_of :: "string \<Rightarrow> nat \<Rightarrow> string" where
  "chunk_id_of source_id i = source_id @ '':chunk:'' @ int_str (int i)"

text \<open>For a list of segments that is not empty.\<close>

definition build_chunk ::
  "(utext \<Rightarrow> string) \<Rightarrow> string \<Rightarrow> nat \<Rightarrow> utext \<Rightarrow> segment list \<Rightarrow> source_chunk"
where
  "build_chunk sha1 source_id chunk_index section_hint segments =
     (let text = ujoin [10, 10] (filter (\<lambda>t. t \<noteq> []) (map (\<lambda>s. ustrip (sg_text s)) segments)) in
      \<lparr>ck_chunk_id = chunk_id_of source_id chunk_index, ck_chunk_index = chunk_index,
       ck_section_hint = (if section_hint = [] then utext_of ''full'' else section_hint),
       ck_start = sg_start (hd segments), ck_end = sg_end (last segments), ck_text = text,
       ck_chunk_hash = hash_text sha1 text\<rparr>)"

text \<open>The local variables of the loop.\<close>

record planning =
  pl_chunks :: "source_chunk list"
  pl_pending :: "segment list"
  pl_section :: utext
  pl_chars :: int

definition planning_start :: planning where
  "planning_start = \<lparr>pl_chunks = [], pl_pending = [], pl_section = utext_of ''full'', pl_chars = 0\<rparr>"

definition flush_pending :: "(utext \<Rightarrow> string) \<Rightarrow> string \<Rightarrow> planning \<Rightarrow> planning" where
  "flush_pending sha1 source_id p =
     p\<lparr>pl_chunks := pl_chunks p @
         [build_chunk sha1 source_id (length (pl_chunks p)) (pl_section p) (pl_pending p)],
       pl_pending := [], pl_chars := 0\<rparr>"

definition plan_segment ::
  "chunking_service \<Rightarrow> (utext \<Rightarrow> string) \<Rightarrow> string \<Rightarrow> segment \<Rightarrow> planning \<Rightarrow> planning"
where
  "plan_segment sv sha1 source_id s p =
     (let text = ustrip (sg_text s) in
      if text = [] then p
      else if looks_like_heading text then
        let q = (if pl_pending p \<noteq> [] then flush_pending sha1 source_id p else p)
        in q\<lparr>pl_section := text, pl_pending := pl_pending q @ [s], pl_chars := int (length text)\<rparr>
      else
        let next_chars = pl_chars p + int (length text) + (if pl_pending p \<noteq> [] then 2 else 0);
            q = (if pl_pending p \<noteq> [] \<and>
                   (ch_max_chars sv < next_chars \<or> ch_max_segments sv \<le> int (length (pl_pending p)))
                 then flush_pending sha1 source_id p else p)
        in q\<lparr>pl_pending := pl_pending q @ [s],
             pl_chars := pl_chars q + int (length text) + (if pl_chars q \<noteq> 0 then 2 else 0)\<rparr>)"

definition plan_chunks ::
  "chunking_service \<Rightarrow> (utext \<Rightarrow> string) \<Rightarrow> string \<Rightarrow> parsed_source \<Rightarrow> source_chunk list"
where
  "plan_chunks sv sha1 source_id parsed =
     (let p = fold (plan_segment sv sha1 source_id) (ps_segments parsed) planning_start;
          q = (if pl_pending p \<noteq> [] then flush_pending sha1 source_id p else p)
      in if pl_chunks q = [] then
           [\<lparr>ck_chunk_id = chunk_id_of source_id 0, ck_chunk_index = 0, ck_section_hint = utext_of ''full'',
             ck_start = 0, ck_end = int (length (ps_normalized_content parsed)),
             ck_text = ps_normalized_content parsed,
             ck_chunk_hash = hash_text sha1 (ps_normalized_content parsed)\<rparr>]
         else pl_chunks q)"

end
