(* ===== verification/SourceParserProps.thy ===== *)
theory SourceParserProps
  imports SourceParser
begin

text \<open>
  Where the segments of a parsed source are: each is a slice of the normalized content, they follow each
  other, and together they hold every character that is neither white space nor a stop.
\<close>

section \<open>Matches\<close>

definition match_of :: "utext \<Rightarrow> nat \<times> utext \<Rightarrow> bool" where
  "match_of s m \<longleftrightarrow> snd m \<noteq> [] \<and> fst m + length (snd m) \<le> length s \<and>
     snd m = take (length (snd m)) (drop (fst m) s)"

lemma match_of_append: "match_of s m \<Longrightarrow> match_of (u @ s) (length u + fst m, snd m)"
  by (auto simp: match_of_def)

lemma match_of_prefix: "u \<noteq> [] \<Longrightarrow> match_of (u @ s) (0, u)"
  by (simp add: match_of_def)

definition shifted :: "nat \<Rightarrow> (nat \<times> utext) list \<Rightarrow> (nat \<times> utext) list" where
  "shifted k ms = map (\<lambda>(i, m). (k + i, m)) ms"

lemma shifted_simps [simp]:
  "shifted k [] = []" "shifted k ((i, m) # ms) = (k + i, m) # shifted k ms" "shifted a (shifted b ms) = shifted (a + b) ms"
  by (auto simp: shifted_def)

text \<open>The matches do not depend on the position at which the text starts.\<close>

lemma find_sentences_shift: "find_sentences (k + pos) s = shifted k (find_sentences pos s)"
proof (induction pos s rule: find_sentences.induct)
  case (2 pos c s)
  then show ?case by (auto simp: Let_def add.assoc)
qed simp

lemma find_sentences_at: "find_sentences k s = shifted k (find_sentences 0 s)"
  using find_sentences_shift [of k 0 s] by simp

definition matches_well :: "utext \<Rightarrow> (nat \<times> utext) list \<Rightarrow> bool" where
  "matches_well s ms \<longleftrightarrow> (\<forall>m \<in> set ms. match_of s m) \<and>
     sorted_wrt (\<lambda>m n. fst m + length (snd m) \<le> fst n) ms \<and>
     (10 \<notin> set s \<longrightarrow> (\<forall>k < length s. run_cp (s ! k) \<longrightarrow> (\<exists>m \<in> set ms. fst m \<le> k \<and> k < fst m + length (snd m))))"

lemma matches_well_Nil: "matches_well [] []"
  by (simp add: matches_well_def)

lemma matches_well_skip:
  assumes "matches_well s ms" "10 \<notin> set (u @ s) \<longrightarrow> (\<forall>c \<in> set u. \<not> run_cp c)"
  shows "matches_well (u @ s) (shifted (length u) ms)"
proof -
  have "sorted_wrt (\<lambda>m n. fst m + length (snd m) \<le> fst n) (shifted (length u) ms)"
    using assms(1) by (auto simp: matches_well_def shifted_def sorted_wrt_map case_prod_beta)
  moreover have "\<exists>m \<in> set (shifted (length u) ms). fst m \<le> k \<and> k < fst m + length (snd m)"
    if k: "10 \<notin> set (u @ s)" "k < length (u @ s)" "run_cp ((u @ s) ! k)" for k
  proof -
    have "\<not> k < length u" using assms(2) k(1,3) by (auto simp: nth_append)
    then have "k - length u < length s" "run_cp (s ! (k - length u))" using k(2,3) by (auto simp: nth_append)
    then obtain m where "m \<in> set ms" "fst m \<le> k - length u" "k - length u < fst m + length (snd m)"
      using assms(1) k(1) by (auto simp: matches_well_def)
    then show ?thesis using \<open>\<not> k < length u\<close> by (intro bexI [of _ "(length u + fst m, snd m)"]) (auto simp: shifted_def)
  qed
  ultimately show ?thesis
    using assms(1) match_of_append [of s _ u] by (auto simp: matches_well_def shifted_def)
qed

lemma matches_well_take:
  assumes "matches_well s ms" "u \<noteq> []"
  shows "matches_well (u @ s) ((0, u) # shifted (length u) ms)"
proof -
  have "sorted_wrt (\<lambda>m n. fst m + length (snd m) \<le> fst n) ((0, u) # shifted (length u) ms)"
    using assms(1) by (auto simp: matches_well_def shifted_def sorted_wrt_map case_prod_beta)
  moreover have "\<exists>m \<in> set ((0, u) # shifted (length u) ms). fst m \<le> k \<and> k < fst m + length (snd m)"
    if k: "10 \<notin> set (u @ s)" "k < length (u @ s)" "run_cp ((u @ s) ! k)" for k
  proof (cases "k < length u")
    case False
    then have "k - length u < length s" "run_cp (s ! (k - length u))" using k(2,3) by (auto simp: nth_append)
    then obtain m where "m \<in> set ms" "fst m \<le> k - length u" "k - length u < fst m + length (snd m)"
      using assms(1) k(1) by (auto simp: matches_well_def)
    then show ?thesis
      using False by (intro bexI [of _ "(length u + fst m, snd m)"]) (auto simp: shifted_def)
  qed simp
  ultimately show ?thesis
    using assms match_of_append [of s _ u] match_of_prefix [of u s] by (auto simp: matches_well_def shifted_def)
qed

lemma find_sentences_well: "matches_well s (find_sentences 0 s)"
proof (induction "length s" arbitrary: s rule: less_induct)
  case less
  show ?case
  proof (cases s)
    case Nil
    then show ?thesis by (simp add: matches_well_Nil)
  next
    case s: (Cons c t)
    let ?run = "c # takeWhile run_cp t" and ?rest = "dropWhile run_cp t"
    let ?stops = "takeWhile stop_cp ?rest" and ?rest2 = "dropWhile stop_cp ?rest"
    have split: "s = ?run @ ?rest" "s = (?run @ ?stops) @ ?rest2" by (simp_all add: s)
    have shorter: "length ?rest < length s" "length ?rest2 < length s"
      using length_dropWhile_le [of run_cp t] length_dropWhile_le [of stop_cp ?rest] by (auto simp: s)
    consider (none) "\<not> run_cp c" | (ending) "run_cp c" "?rest = [] \<or> ?rest = [10]"
      | (line) "run_cp c" "\<not> (?rest = [] \<or> ?rest = [10])" "?stops = []"
      | (sentence) "run_cp c" "\<not> (?rest = [] \<or> ?rest = [10])" "?stops \<noteq> []" by blast
    then show ?thesis
    proof cases
      case none
      have "matches_well ([c] @ t) (shifted (length [c]) (find_sentences 0 t))"
        using less [of t] none by (intro matches_well_skip) (auto simp: s)
      then show ?thesis using none find_sentences_at [of 1 t] by (simp add: s)
    next
      case ending
      have "matches_well (?run @ ?rest) ((0, ?run) # shifted (length ?run) (find_sentences 0 ?rest))"
        using less [OF shorter(1)] by (intro matches_well_take) auto
      then show ?thesis
        using ending find_sentences_at [of "length ?run" ?rest] split(1) by (simp add: s Let_def)
    next
      case line
      then have "hd ?rest = 10" "?rest \<noteq> []"
        using hd_dropWhile [of run_cp t] by (auto simp: run_cp_def takeWhile_eq_Nil_iff)
      then have "10 \<in> set s" using split(1) by (metis Un_iff hd_in_set set_append)
      then have "matches_well (?run @ ?rest) (shifted (length ?run) (find_sentences 0 ?rest))"
        using less [OF shorter(1)] split(1) by (intro matches_well_skip) auto
      then show ?thesis
        using line find_sentences_at [of "length ?run" ?rest] split(1) by (auto simp: s Let_def)
    next
      case sentence
      have "matches_well ((?run @ ?stops) @ ?rest2) ((0, ?run @ ?stops) # shifted (length (?run @ ?stops)) (find_sentences 0 ?rest2))"
        using less [OF shorter(2)] by (intro matches_well_take) auto
      then show ?thesis
        using sentence find_sentences_at [of "length (?run @ ?stops)" ?rest2] split(2) by (auto simp: s Let_def)
    qed
  qed
qed

section \<open>Segments\<close>

definition slice_of :: "utext \<Rightarrow> segment \<Rightarrow> bool" where
  "slice_of s g \<longleftrightarrow> 0 \<le> sg_start g \<and> sg_end g = sg_start g + int (length (sg_text g)) \<and>
     sg_end g \<le> int (length s) \<and> sg_text g = take (length (sg_text g)) (drop (nat (sg_start g)) s) \<and>
     sg_text g \<noteq> [] \<and> ustrip (sg_text g) = sg_text g"

definition covers_pos :: "segment \<Rightarrow> nat \<Rightarrow> bool" where
  "covers_pos g k \<longleftrightarrow> sg_start g \<le> int k \<and> int k < sg_end g"

lemma sentence_segments_cases:
  assumes "match_of s m"
  shows "sentence_segments m = [] \<and> (\<forall>c \<in> set (snd m). space_cp c) \<or>
    (\<exists>g. sentence_segments m = [g] \<and> slice_of s g \<and> int (fst m) \<le> sg_start g \<and>
       sg_end g \<le> int (fst m + length (snd m)) \<and>
       (\<forall>k. fst m \<le> k \<and> k < fst m + length (snd m) \<and> \<not> space_cp (s ! k) \<longrightarrow> covers_pos g k))"
proof (cases "ustrip (snd m) = []")
  case True
  then show ?thesis by (simp add: sentence_segments_def ustrip_Nil_iff)
next
  case False
  obtain i u where m: "m = (i, u)" by (cases m)
  obtain a b where u: "u = a @ ustrip u @ b" "a = takeWhile space_cp u" "\<forall>c \<in> set b. space_cp c" by (rule ustrip_split)
  have lead: "length u - length (ulstrip u) = length a"
  proof -
    have "length u = length a + length (ulstrip u)"
      using u(2) by (metis length_append takeWhile_dropWhile_id ulstrip_def)
    then show ?thesis by simp
  qed
  let ?g = "text_segment (int (i + length a)) (int (i + length a + length (ustrip u))) (ustrip u)"
  have g: "sentence_segments m = [?g]" using False m lead by (simp add: sentence_segments_def Let_def)
  have mu: "i + length u \<le> length s" "u = take (length u) (drop i s)" using assms m by (simp_all add: match_of_def)
  have len: "length u = length a + length (ustrip u) + length b" by (metis u(1) length_append add.assoc)
  have "ustrip u = take (length (ustrip u)) (drop (length a) u)" by (subst (3) u(1)) simp
  also have "\<dots> = take (length (ustrip u)) (drop (length a) (take (length u) (drop i s)))" using mu(2) by simp
  also have "\<dots> = take (length (ustrip u)) (drop (i + length a) s)" using len by (simp add: drop_take add.commute)
  finally have "slice_of s ?g" using mu(1) len False m by (simp add: slice_of_def text_segment_def nat_int_add)
  moreover have "covers_pos ?g k" if k: "i \<le> k" "k < i + length u" "\<not> space_cp (s ! k)" for k
  proof -
    have sk: "s ! k = u ! (k - i)" using mu k(1,2) by (metis add_diff_inverse_nat nth_drop nth_take less_diff_conv2 linorder_not_less add.commute le_add1 order_trans)
    have "\<not> k - i < length a"
    proof
      assume "k - i < length a"
      then have "u ! (k - i) \<in> set a" by (subst u(1)) (simp add: nth_append)
      then show False using u(2) k(3) sk by (metis set_takeWhileD)
    qed
    moreover have "\<not> length a + length (ustrip u) \<le> k - i"
    proof
      assume ge: "length a + length (ustrip u) \<le> k - i"
      then have "(a @ ustrip u @ b) ! (k - i) = b ! (k - i - length a - length (ustrip u))"
        by (auto simp: nth_append)
      then have "u ! (k - i) = b ! (k - i - length a - length (ustrip u))" using u(1) by simp
      moreover have "k - i - length a - length (ustrip u) < length b" using ge k(1,2) len by simp
      ultimately have "u ! (k - i) \<in> set b" by simp
      then show False using u(3) k(3) sk by simp
    qed
    ultimately have "i + length a \<le> k" "k < i + length a + length (ustrip u)" using k(1) by linarith+
    then show ?thesis by (simp add: covers_pos_def text_segment_def)
  qed
  ultimately show ?thesis using g m len by (auto simp: text_segment_def)
qed

definition segments_well :: "utext \<Rightarrow> segment list \<Rightarrow> bool" where
  "segments_well s gs \<longleftrightarrow> (\<forall>g \<in> set gs. slice_of s g) \<and> sorted_wrt (\<lambda>g h. sg_end g \<le> sg_start h) gs \<and>
     (\<forall>k < length s. \<not> space_cp (s ! k) \<and> \<not> stop_cp (s ! k) \<longrightarrow> (\<exists>g \<in> set gs. covers_pos g k))"

lemma extract_sorted:
  assumes "\<forall>m \<in> set ms. match_of s m" "sorted_wrt (\<lambda>m n. fst m + length (snd m) \<le> fst n) ms"
  shows "sorted_wrt (\<lambda>g h. sg_end g \<le> sg_start h) (concat (map sentence_segments ms))"
  using assms
proof (induction ms)
  case (Cons m ms)
  have "sg_end g \<le> sg_start h"
    if g: "g \<in> set (sentence_segments m)" and h: "h \<in> set (concat (map sentence_segments ms))" for g h
  proof -
    obtain n where n: "n \<in> set ms" "h \<in> set (sentence_segments n)" using h by auto
    have "sg_end g \<le> int (fst m + length (snd m))" using sentence_segments_cases [of s m] g Cons.prems(1) by auto
    moreover have "int (fst n) \<le> sg_start h" using sentence_segments_cases [of s n] n Cons.prems(1) by auto
    moreover have "fst m + length (snd m) \<le> fst n" using Cons.prems(2) n(1) by simp
    ultimately show ?thesis by linarith
  qed
  moreover have "sorted_wrt (\<lambda>g h. sg_end g \<le> sg_start h) (sentence_segments m)"
    by (simp add: sentence_segments_def Let_def)
  ultimately show ?case using Cons by (simp add: sorted_wrt_append)
qed simp

lemma extract_segments_well:
  assumes "10 \<notin> set s"
  shows "segments_well s (extract_segments s)"
proof -
  let ?ms = "find_sentences 0 s"
  have well: "\<forall>m \<in> set ?ms. match_of s m" "sorted_wrt (\<lambda>m n. fst m + length (snd m) \<le> fst n) ?ms"
    and cover: "\<And>k. k < length s \<Longrightarrow> run_cp (s ! k) \<Longrightarrow> \<exists>m \<in> set ?ms. fst m \<le> k \<and> k < fst m + length (snd m)"
    using find_sentences_well [of s] assms by (auto simp: matches_well_def)
  have "\<exists>g \<in> set (extract_segments s). covers_pos g k"
    if k: "k < length s" "\<not> space_cp (s ! k)" "\<not> stop_cp (s ! k)" for k
  proof -
    have "run_cp (s ! k)" using k assms by (metis nth_mem run_cp_def)
    then obtain m where m: "m \<in> set ?ms" "fst m \<le> k" "k < fst m + length (snd m)" using cover k(1) by blast
    have mk: "s ! k \<in> set (snd m)"
    proof -
      have mm: "snd m = take (length (snd m)) (drop (fst m) s)" "fst m + length (snd m) \<le> length s"
        using well(1) m(1) by (auto simp: match_of_def)
      have "snd m ! (k - fst m) = drop (fst m) s ! (k - fst m)"
        by (subst mm(1)) (use m(2,3) in simp)
      also have "\<dots> = s ! k" using mm(2) m(2) by simp
      finally have "snd m ! (k - fst m) = s ! k" .
      moreover have "k - fst m < length (snd m)" using m(2,3) by simp
      ultimately show ?thesis using nth_mem by metis
    qed
    have "match_of s m" using well(1) m(1) by blast
    from sentence_segments_cases [OF this] mk k(2) m(2,3) obtain g where g: "sentence_segments m = [g]" "covers_pos g k"
      by blast
    have "set (sentence_segments m) \<subseteq> set (extract_segments s)" using m(1) unfolding extract_segments_def by fastforce
    then show ?thesis using g by auto
  qed
  moreover have "slice_of s g" if "g \<in> set (extract_segments s)" for g
  proof -
    have "g \<in> (\<Union>m \<in> set ?ms. set (sentence_segments m))" using that unfolding extract_segments_def by simp
    then obtain m where "m \<in> set ?ms" "g \<in> set (sentence_segments m)" by (rule UN_E)
    then show ?thesis using sentence_segments_cases [of s m] well(1) by auto
  qed
  ultimately show ?thesis using extract_sorted [OF well] by (simp add: segments_well_def extract_segments_def)
qed

section \<open>Normalized content\<close>

lemma collapse_spaces_no_line_feed: "c \<in> set (collapse_spaces s) \<Longrightarrow> c = 32 \<or> \<not> space_cp c"
  by (induction s rule: collapse_spaces.induct) (auto split: if_splits)

lemma normalize_no_line_feed: "10 \<notin> set (normalize_content s)"
proof
  assume "10 \<in> set (normalize_content s)"
  moreover obtain a b where "collapse_spaces s = a @ normalize_content s @ b"
    by (metis normalize_content_def ustrip_split)
  ultimately have "10 \<in> set (collapse_spaces s)" by (metis Un_iff set_append)
  then show False using collapse_spaces_no_line_feed [of 10 s] by (simp add: space_cp_def)
qed

lemma find_sentences_Nil: "10 \<notin> set s \<Longrightarrow> find_sentences k s = [] \<longleftrightarrow> (\<forall>c \<in> set s. stop_cp c)"
proof (induction k s rule: find_sentences.induct)
  case (2 pos c s)
  show ?case
  proof (cases "run_cp c")
    case True
    then have "stop_cp (hd (dropWhile run_cp s))" if "dropWhile run_cp s \<noteq> []"
      using that 2(5) hd_dropWhile [OF that] by (metis hd_in_set set_dropWhileD list.set_intros(2) run_cp_def)
    then have "takeWhile stop_cp (dropWhile run_cp s) \<noteq> []" if "dropWhile run_cp s \<noteq> []"
      using that by (cases "dropWhile run_cp s") auto
    then show ?thesis using True by (auto simp: Let_def run_cp_def)
  next
    case False
    then show ?thesis using 2 by (auto simp: run_cp_def)
  qed
qed simp

lemma stop_not_space: "stop_cp c \<Longrightarrow> \<not> space_cp c"
  by (auto simp: stop_cp_def space_cp_def)

lemma find_sentences_solid:
  "10 \<notin> set s \<Longrightarrow> s \<noteq> [] \<Longrightarrow> \<not> space_cp (last s) \<Longrightarrow> c \<in> set s \<Longrightarrow> \<not> stop_cp c \<Longrightarrow>
    \<exists>m \<in> set (find_sentences k s). \<not> (\<forall>d \<in> set (snd m). space_cp d)"
proof (induction k s rule: find_sentences.induct)
  case (2 pos d s)
  let ?rest = "dropWhile run_cp s"
  show ?case
  proof (cases "run_cp d")
    case False
    then have "stop_cp d" using 2(5) by (auto simp: run_cp_def)
    then have "c \<in> set s" using 2(8,9) by auto
    then have "\<exists>m \<in> set (find_sentences (pos + 1) s). \<not> (\<forall>d \<in> set (snd m). space_cp d)"
      using 2(1) [OF False] 2(5-9) by (auto split: if_splits)
    then show ?thesis using False by simp
  next
    case run: True
    show ?thesis
    proof (cases "?rest = []")
      case True
      then have whole: "takeWhile run_cp s = s" by (metis append_Nil2 takeWhile_dropWhile_id)
      have "(pos, d # s) \<in> set (find_sentences pos (d # s))"
        unfolding find_sentences.simps Let_def True whole using run by simp
      moreover have "last (d # s) \<in> set (d # s)" by (rule last_in_set) simp
      ultimately show ?thesis using 2(7) by (intro bexI [of _ "(pos, d # s)"]) (simp, metis)
    next
      case False
      have "hd ?rest \<in> set s" using False by (metis hd_in_set set_dropWhileD)
      then have hd: "stop_cp (hd ?rest)" "?rest \<noteq> [10]"
        using hd_dropWhile [OF False] 2(5) set_dropWhileD [of 10 run_cp s] by (auto simp: run_cp_def)
      then have st: "hd ?rest \<in> set (takeWhile stop_cp ?rest)" "takeWhile stop_cp ?rest \<noteq> []"
        using False by (cases ?rest; simp)+
      have "find_sentences pos (d # s) = (pos, (d # takeWhile run_cp s) @ takeWhile stop_cp ?rest) #
          find_sentences (pos + length ((d # takeWhile run_cp s) @ takeWhile stop_cp ?rest)) (dropWhile stop_cp ?rest)"
        using run False hd(2) st(2) by (auto simp: Let_def)
      then show ?thesis using st(1) stop_not_space [OF hd(1)] by auto
    qed
  qed
qed simp

lemma extract_segments_Nil_iff:
  "extract_segments (normalize_content s) = [] \<longleftrightarrow> (\<forall>c \<in> set (normalize_content s). stop_cp c)"
proof (cases "normalize_content s = []")
  case True
  then show ?thesis by (simp add: extract_segments_def)
next
  case ne: False
  let ?n = "normalize_content s"
  have "ustrip (collapse_spaces s) \<noteq> []" using ne by (simp add: normalize_content_def)
  from ustrip_ends(2) [OF this] have solid: "\<not> space_cp (last ?n)" by (simp add: normalize_content_def)
  show ?thesis
  proof
    assume none: "extract_segments ?n = []"
    show "\<forall>c \<in> set ?n. stop_cp c"
    proof (rule ccontr)
      assume "\<not> (\<forall>c \<in> set ?n. stop_cp c)"
      then obtain m where m: "m \<in> set (find_sentences 0 ?n)" "\<not> (\<forall>d \<in> set (snd m). space_cp d)"
        using find_sentences_solid [OF normalize_no_line_feed ne solid] by blast
      then have "match_of ?n m" using find_sentences_well [of ?n] by (simp add: matches_well_def)
      from sentence_segments_cases [OF this] m(2) have "sentence_segments m \<noteq> []" by auto
      then show False using none m(1) by (simp add: extract_segments_def)
    qed
  next
    assume "\<forall>c \<in> set ?n. stop_cp c"
    then have "find_sentences 0 ?n = []" using find_sentences_Nil [OF normalize_no_line_feed] by blast
    then show "extract_segments ?n = []" by (simp add: extract_segments_def)
  qed
qed

section \<open>The theorems\<close>

text \<open>
  C22: the segments of a content without blocks are slices of the normalized content at their positions, without
  white space at their ends, one after the other without overlap, and every character of the content that is
  neither white space nor a stop is in one of them.
\<close>

theorem parsed_segments_locate_text:
  assumes "parse_source ty content [] = Inr p"
  shows "ps_normalized_content p = normalize_content content \<and> ps_segments p \<noteq> [] \<and>
    segments_well (normalize_content content) (ps_segments p)"
  using assms extract_segments_well [OF normalize_no_line_feed, of content]
  by (auto simp: parse_source_def Let_def extract_structured_segments_def split: if_splits)

text \<open>
  A content without blocks is refused exactly when it has the marker of a failure or when its normalized
  form is empty or only has stops.
\<close>

theorem parse_returns_iff:
  "(\<exists>p. parse_source ty content [] = Inr p) \<longleftrightarrow>
    \<not> ucontains (utext_of ''[[PARSE_FAIL]]'') (normalize_content content) \<and>
    (\<exists>c \<in> set (normalize_content content). \<not> stop_cp c)"
  using extract_segments_Nil_iff [of content]
  by (auto simp: parse_source_def Let_def extract_structured_segments_def)

theorem parsed_segments_locate_text_witness:
  "\<exists>p. parse_source ''note'' (utext_of ''  Dose rises.  Risk; falls '') [] = Inr p \<and>
    segments_well (normalize_content (utext_of ''  Dose rises.  Risk; falls '')) (ps_segments p) \<and>
    map sg_text (ps_segments p) = map utext_of [''Dose rises.'', ''Risk;'', ''falls'']"
proof -
  let ?p = "\<lparr>ps_source_type = ''note'', ps_normalized_content = utext_of ''Dose rises. Risk; falls'',
      ps_segments = extract_segments (utext_of ''Dose rises. Risk; falls'')\<rparr>"
  have "parse_source ''note'' (utext_of ''  Dose rises.  Risk; falls '') [] = Inr ?p" by code_simp
  moreover have "map sg_text (ps_segments ?p) = map utext_of [''Dose rises.'', ''Risk;'', ''falls'']" by code_simp
  ultimately show ?thesis using parsed_segments_locate_text by blast
qed

end
