(* ===== verification/SourceChunkingProps.thy ===== *)
theory SourceChunkingProps
  imports SourceChunking SourceParserProps
begin

text \<open>
  The chunks of a plan are the segments that are not blank, cut into consecutive groups: the plan loses and
  repeats nothing, every group respects the limits, and a group only ends where the next segment would not
  have fitted or starts a section.
\<close>

section \<open>Groups of segments\<close>

definition stripped_text :: "segment \<Rightarrow> utext" where
  "stripped_text s = ustrip (sg_text s)"

definition nonblank :: "segment list \<Rightarrow> segment list" where
  "nonblank ss = filter (\<lambda>s. stripped_text s \<noteq> []) ss"

definition heading :: "segment \<Rightarrow> bool" where
  "heading s \<longleftrightarrow> looks_like_heading (stripped_text s)"

definition joined :: "segment list \<Rightarrow> utext" where
  "joined g = ujoin [10, 10] (map stripped_text g)"

definition group_ok :: "chunking_service \<Rightarrow> segment list \<Rightarrow> bool" where
  "group_ok sv g \<longleftrightarrow> g \<noteq> [] \<and> int (length g) \<le> ch_max_segments sv \<and> (\<forall>s \<in> set (tl g). \<not> heading s) \<and>
     (1 < length g \<longrightarrow> int (length (joined g)) \<le> ch_max_chars sv)"

definition closes :: "chunking_service \<Rightarrow> segment list \<Rightarrow> segment \<Rightarrow> bool" where
  "closes sv g s \<longleftrightarrow> heading s \<or> ch_max_segments sv \<le> int (length g) \<or>
     ch_max_chars sv < int (length (joined (g @ [s])))"

definition well_cut :: "chunking_service \<Rightarrow> segment list list \<Rightarrow> bool" where
  "well_cut sv gs \<longleftrightarrow> (\<forall>g \<in> set gs. group_ok sv g) \<and>
     (\<forall>i. Suc i < length gs \<longrightarrow> closes sv (gs ! i) (hd (gs ! Suc i)))"

text \<open>The section in force after some segments: the text of the last heading.\<close>

definition section_after :: "segment list \<Rightarrow> utext" where
  "section_after ss = fold (\<lambda>s h. if heading s then stripped_text s else h) ss (utext_of ''full'')"

definition chunks_of :: "(utext \<Rightarrow> string) \<Rightarrow> string \<Rightarrow> segment list list \<Rightarrow> source_chunk list" where
  "chunks_of sha1 source_id gs =
     map (\<lambda>i. build_chunk sha1 source_id i (section_after (concat (take i gs) @ [hd (gs ! i)])) (gs ! i))
       [0..<length gs]"

lemma section_after_append: "section_after (xs @ ys) = fold (\<lambda>s h. if heading s then stripped_text s else h) ys (section_after xs)"
  by (simp add: section_after_def)

lemma section_after_no_headings: "\<forall>s \<in> set ys. \<not> heading s \<Longrightarrow> section_after (xs @ ys) = section_after xs"
  by (induction ys rule: rev_induct) (auto simp: section_after_append)

lemma section_of_group:
  assumes "g \<noteq> []" "\<forall>s \<in> set (tl g). \<not> heading s"
  shows "section_after (xs @ g) = section_after (xs @ [hd g])"
  using section_after_no_headings [OF assms(2), of "xs @ [hd g]"] assms(1) by simp

lemma chunks_of_snoc:
  "chunks_of sha1 source_id (gs @ [g]) = chunks_of sha1 source_id gs @
     [build_chunk sha1 source_id (length gs) (section_after (concat gs @ [hd g])) g]"
  by (simp add: chunks_of_def nth_append)

lemma length_joined_snoc:
  "length (joined (g @ [s])) = length (joined g) + length (stripped_text s) + (if g \<noteq> [] then 2 else 0)"
proof -
  have "length (ujoin sep (xs @ [x])) = length (ujoin sep xs) + length x + (if xs \<noteq> [] then length sep else 0)" for sep x xs
    by (induction sep xs rule: ujoin.induct) auto
  then show ?thesis by (simp add: joined_def)
qed

lemma joined_Nil_iff: "\<forall>s \<in> set g. stripped_text s \<noteq> [] \<Longrightarrow> joined g = [] \<longleftrightarrow> g = []"
proof (cases g rule: rev_cases)
  case (snoc h s)
  moreover assume "\<forall>s \<in> set g. stripped_text s \<noteq> []"
  ultimately have "length (joined g) \<noteq> 0" using length_joined_snoc [of h s] by simp
  then show ?thesis using snoc by auto
qed (simp add: joined_def)

lemma well_cut_snoc:
  "well_cut sv (gs @ [g]) \<longleftrightarrow> well_cut sv gs \<and> group_ok sv g \<and> (gs \<noteq> [] \<longrightarrow> closes sv (last gs) (hd g))"
proof (cases gs rule: rev_cases)
  case (snoc hs h)
  have "(\<forall>i. Suc i < length (gs @ [g]) \<longrightarrow> closes sv ((gs @ [g]) ! i) (hd ((gs @ [g]) ! Suc i))) \<longleftrightarrow>
      (\<forall>i. Suc i < length gs \<longrightarrow> closes sv (gs ! i) (hd (gs ! Suc i))) \<and> closes sv (last gs) (hd g)"
    (is "?l \<longleftrightarrow> ?r")
  proof
    assume l: ?l
    have "closes sv (gs ! i) (hd (gs ! Suc i))" if "Suc i < length gs" for i
      using l [rule_format, of i] that by (simp add: nth_append)
    moreover have "closes sv (last gs) (hd g)"
      using l [rule_format, of "length hs"] by (simp add: snoc nth_append)
    ultimately show ?r by blast
  next
    assume r: ?r
    show ?l
    proof (intro allI impI)
      fix i assume i: "Suc i < length (gs @ [g])"
      show "closes sv ((gs @ [g]) ! i) (hd ((gs @ [g]) ! Suc i))"
      proof (cases "Suc i < length gs")
        case True
        then show ?thesis using r by (simp add: nth_append)
      next
        case False
        then have "i = length hs" using i snoc by simp
        then show ?thesis using r by (simp add: snoc nth_append)
      qed
    qed
  qed
  then show ?thesis using snoc by (auto simp: well_cut_def)
qed (simp add: well_cut_def)

section \<open>The loop\<close>

definition planned ::
  "chunking_service \<Rightarrow> (utext \<Rightarrow> string) \<Rightarrow> string \<Rightarrow> segment list \<Rightarrow> segment list list \<Rightarrow> planning \<Rightarrow> bool"
where
  "planned sv sha1 source_id done_segments gs p \<longleftrightarrow>
     pl_chunks p = chunks_of sha1 source_id gs \<and> pl_section p = section_after (nonblank done_segments) \<and>
     pl_chars p = int (length (joined (pl_pending p))) \<and>
     concat gs @ pl_pending p = nonblank done_segments \<and>
     (if pl_pending p = [] then gs = [] else well_cut sv (gs @ [pl_pending p]))"

lemma nonblank_snoc: "nonblank (ss @ [s]) = (if stripped_text s = [] then nonblank ss else nonblank ss @ [s])"
  by (simp add: nonblank_def)

lemma planned_start: "planned sv sha1 source_id [] [] planning_start"
  by (simp add: planned_def planning_start_def chunks_of_def nonblank_def section_after_def joined_def)

lemma planned_flush:
  assumes "planned sv sha1 source_id ss gs p" "pl_pending p \<noteq> []"
  shows "pl_chunks (flush_pending sha1 source_id p) = chunks_of sha1 source_id (gs @ [pl_pending p])"
proof -
  let ?g = "pl_pending p"
  have ok: "group_ok sv ?g" using assms by (simp add: planned_def well_cut_snoc)
  have "pl_section p = section_after (concat gs @ [hd ?g])"
    using section_of_group [of ?g "concat gs"] ok assms by (simp add: planned_def group_ok_def)
  moreover have "length (pl_chunks p) = length gs" using assms(1) by (simp add: planned_def chunks_of_def)
  ultimately show ?thesis using assms(1) by (simp add: flush_pending_def chunks_of_snoc planned_def)
qed

text \<open>A segment starts a new group, or joins the pending one.\<close>

lemma planned_new_group:
  assumes "planned sv sha1 source_id ss gs p" "stripped_text s \<noteq> []" "1 \<le> ch_max_segments sv"
    and "pl_pending p \<noteq> [] \<Longrightarrow> closes sv (pl_pending p) s"
    and "q = (if pl_pending p \<noteq> [] then flush_pending sha1 source_id p else p)"
    and "p' = q\<lparr>pl_section := section_after (nonblank (ss @ [s])), pl_pending := [s], pl_chars := int (length (stripped_text s))\<rparr>"
  shows "planned sv sha1 source_id (ss @ [s]) (gs @ (if pl_pending p \<noteq> [] then [pl_pending p] else [])) p'"
proof -
  have one: "group_ok sv [s]" using assms(3) by (simp add: group_ok_def)
  have len: "length (joined [s]) = length (stripped_text s)" by (simp add: joined_def)
  show ?thesis
  proof (cases "pl_pending p = []")
    case True
    then show ?thesis
      using assms(1,2,5,6) one len by (auto simp: planned_def nonblank_snoc well_cut_def)
  next
    case False
    have "well_cut sv ((gs @ [pl_pending p]) @ [[s]])"
      using assms(1) assms(4) [OF False] one False by (subst well_cut_snoc) (simp add: planned_def)
    then show ?thesis
      using assms(1,2,5,6) len False planned_flush [OF assms(1) False]
      by (simp add: planned_def nonblank_snoc)
  qed
qed

lemma planned_same_group:
  assumes "planned sv sha1 source_id ss gs p" "stripped_text s \<noteq> []" "pl_pending p \<noteq> []"
    and "\<not> closes sv (pl_pending p) s"
    and "p' = p\<lparr>pl_pending := pl_pending p @ [s], pl_chars := int (length (joined (pl_pending p @ [s])))\<rparr>"
  shows "planned sv sha1 source_id (ss @ [s]) gs p'"
proof -
  let ?g = "pl_pending p"
  have cut: "well_cut sv gs" "group_ok sv ?g" "gs \<noteq> [] \<longrightarrow> closes sv (last gs) (hd ?g)"
    using assms(1,3) by (simp_all add: planned_def well_cut_snoc)
  have "group_ok sv (?g @ [s])"
    using cut(2) assms(3,4) by (auto simp: group_ok_def closes_def)
  moreover have "section_after (nonblank ss @ [s]) = section_after (nonblank ss)"
    using assms(4) by (simp add: section_after_append closes_def)
  ultimately show ?thesis
    using assms(1-3,5) cut by (auto simp: planned_def nonblank_snoc well_cut_snoc)
qed

lemma plan_segment_step:
  assumes "planned sv sha1 source_id ss gs p" "1 \<le> ch_max_segments sv"
  shows "\<exists>gs'. planned sv sha1 source_id (ss @ [s]) gs' (plan_segment sv sha1 source_id s p)"
proof (cases "stripped_text s = []")
  case True
  then show ?thesis
    using assms(1) by (auto simp: planned_def nonblank_snoc plan_segment_def stripped_text_def intro!: exI [of _ gs])
next
  case ne: False
  have stripping: "ustrip (sg_text s) = stripped_text s" by (simp add: stripped_text_def)
  let ?p' = "plan_segment sv sha1 source_id s p"
  let ?g = "pl_pending p"
  have chars: "pl_chars p = int (length (joined ?g))" using assms(1) by (simp add: planned_def)
  have solid: "\<forall>x \<in> set ?g. stripped_text x \<noteq> []"
  proof -
    have "set ?g \<subseteq> set (nonblank ss)" using assms(1) by (metis Un_upper2 planned_def set_append)
    then show ?thesis by (auto simp: nonblank_def)
  qed
  have next_chars: "pl_chars p + int (length (stripped_text s)) + (if ?g \<noteq> [] then 2 else 0) = int (length (joined (?g @ [s])))"
    by (simp add: chars length_joined_snoc)
  show ?thesis
  proof (cases "?g \<noteq> [] \<and> \<not> closes sv ?g s")
    case True
    have "pl_chars p \<noteq> 0" using joined_Nil_iff [OF solid] True chars by simp
    then have "?p' = p\<lparr>pl_pending := ?g @ [s], pl_chars := int (length (joined (?g @ [s])))\<rparr>"
      using True ne by (auto simp: plan_segment_def stripping Let_def closes_def heading_def chars length_joined_snoc)
    then show ?thesis using planned_same_group [OF assms(1) ne] True by blast
  next
    case False
    let ?q = "if ?g \<noteq> [] then flush_pending sha1 source_id p else p"
    have q: "pl_pending ?q = []" "pl_chars ?q = 0" "pl_section ?q = pl_section p"
      using chars by (auto simp: flush_pending_def joined_def)
    have here: "section_after (nonblank (ss @ [s])) = (if heading s then stripped_text s else pl_section p)"
      using assms(1) ne by (simp add: nonblank_snoc section_after_append planned_def)
    have "?p' = ?q\<lparr>pl_section := section_after (nonblank (ss @ [s])), pl_pending := [s],
        pl_chars := int (length (stripped_text s))\<rparr>"
    proof (cases "heading s")
      case True
      then show ?thesis using ne here q by (simp add: plan_segment_def stripping Let_def heading_def)
    next
      case nh: False
      then have full: "?g \<noteq> [] \<Longrightarrow> ch_max_chars sv < int (length (joined (?g @ [s]))) \<or> ch_max_segments sv \<le> int (length ?g)"
        using False by (auto simp: closes_def)
      have "?p' = ?q\<lparr>pl_pending := pl_pending ?q @ [s], pl_chars := pl_chars ?q + int (length (stripped_text s)) +
          (if pl_chars ?q \<noteq> 0 then 2 else 0)\<rparr>"
        using nh ne full unfolding plan_segment_def stripping Let_def heading_def next_chars by (cases "?g = []") auto
      then show ?thesis using nh here q by (cases "?q") simp
    qed
    then show ?thesis using planned_new_group [OF assms(1) ne assms(2) _ HOL.refl] False by blast
  qed
qed

lemma plan_loop:
  assumes "1 \<le> ch_max_segments sv"
  shows "\<exists>gs. planned sv sha1 source_id ss gs (fold (plan_segment sv sha1 source_id) ss planning_start)"
proof (induction ss rule: rev_induct)
  case Nil
  then show ?case using planned_start by auto
next
  case (snoc s ss)
  then show ?case using plan_segment_step assms by fastforce
qed

section \<open>The theorems\<close>

lemma plan_chunks_groups:
  assumes "1 \<le> ch_max_segments sv" "nonblank (ps_segments parsed) \<noteq> []"
  shows "\<exists>gs. plan_chunks sv sha1 source_id parsed = chunks_of sha1 source_id gs \<and>
    concat gs = nonblank (ps_segments parsed) \<and> well_cut sv gs"
proof -
  let ?p = "fold (plan_segment sv sha1 source_id) (ps_segments parsed) planning_start"
  obtain gs where p: "planned sv sha1 source_id (ps_segments parsed) gs ?p" using plan_loop [OF assms(1)] by blast
  have ne: "pl_pending ?p \<noteq> []"
  proof
    assume "pl_pending ?p = []"
    then have "nonblank (ps_segments parsed) = []" using p by (auto simp: planned_def)
    then show False using assms(2) by simp
  qed
  have all: "concat (gs @ [pl_pending ?p]) = nonblank (ps_segments parsed)" "well_cut sv (gs @ [pl_pending ?p])"
    using p ne by (simp_all add: planned_def)
  have "plan_chunks sv sha1 source_id parsed = chunks_of sha1 source_id (gs @ [pl_pending ?p])"
    unfolding plan_chunks_def Let_def using ne planned_flush [OF p ne] by (simp add: chunks_of_def)
  then show ?thesis using all by blast
qed

lemma service_limits: "1 \<le> ch_max_segments (chunking_service a b)" "400 \<le> ch_max_chars (chunking_service a b)"
  by (simp_all add: chunking_service_def)

text \<open>
  C23: the chunks of a source with a segment that is not blank are built from consecutive groups that
  together are exactly these segments in order; no group has more segments than the limit, a group of several
  has no more characters than the limit and no heading but its first segment, and a group only ends
  before a heading or where the next segment would break a limit. The chunk with index \<open>i\<close> has the text and
  the positions of group \<open>i\<close> and the last heading before its end as its section.
\<close>

theorem plan_chunks_correct:
  assumes "nonblank (ps_segments parsed) \<noteq> []"
  shows "\<exists>gs. plan_chunks (chunking_service max_chars max_segments) sha1 source_id parsed = chunks_of sha1 source_id gs \<and>
    concat gs = nonblank (ps_segments parsed) \<and> well_cut (chunking_service max_chars max_segments) gs"
  by (rule plan_chunks_groups [OF service_limits(1) assms])

lemma chunk_text_joined:
  assumes "\<forall>s \<in> set g. stripped_text s \<noteq> []"
  shows "ck_text (build_chunk sha1 source_id i h g) = joined g"
proof -
  have "filter (\<lambda>t. t \<noteq> []) (map (\<lambda>s. ustrip (sg_text s)) g) = map stripped_text g"
    using assms unfolding stripped_text_def [abs_def] by (induction g) auto
  then show ?thesis by (simp add: build_chunk_def joined_def Let_def)
qed

section \<open>Sizes\<close>

lemma extracted_stripped:
  assumes "g \<in> set (extract_segments (normalize_content s))"
  shows "sg_text g \<noteq> [] \<and> ustrip (sg_text g) = sg_text g"
  using extract_segments_well [OF normalize_no_line_feed, of s] assms by (auto simp: segments_well_def slice_of_def)

lemma structured_stripped:
  assumes "g \<in> set (block_segments b)"
  shows "sg_text g \<noteq> [] \<and> ustrip (sg_text g) = sg_text g"
proof -
  define raw where "raw = first_text (bk_text b) (first_text (bk_raw_text b) (bk_text b))"
  have "sg_text g = normalize_content raw \<and> normalize_content raw \<noteq> [] \<or>
      (\<exists>h \<in> set (extract_segments (normalize_content raw)). sg_text g = sg_text h)"
    using assms unfolding block_segments_def Let_def raw_def [symmetric]
    by (auto simp: located_def split: if_splits)
  moreover have "ustrip (normalize_content raw) = normalize_content raw" by (simp add: normalize_content_def)
  ultimately show ?thesis using extracted_stripped [of _ raw] by metis
qed

lemma parsed_stripped:
  assumes "parse_source ty content blocks = Inr parsed"
  shows "ps_segments parsed \<noteq> []" and "g \<in> set (ps_segments parsed) \<Longrightarrow> sg_text g \<noteq> [] \<and> ustrip (sg_text g) = sg_text g"
proof -
  have p: "ps_segments parsed = extract_structured_segments blocks \<or>
      ps_segments parsed = extract_segments (normalize_content content)"
    and ne: "ps_segments parsed \<noteq> []"
    using assms by (auto simp: parse_source_def Let_def split: if_splits)
  show "ps_segments parsed \<noteq> []" by (rule ne)
  show "sg_text g \<noteq> [] \<and> ustrip (sg_text g) = sg_text g" if "g \<in> set (ps_segments parsed)"
    using p that structured_stripped extracted_stripped by (auto simp: extract_structured_segments_def)
qed

text \<open>
  C24: no chunk of a parsed source is longer than the limit on characters, 400 at least, unless it is a
  single segment.
\<close>

theorem chunk_sizes:
  assumes "parse_source ty content blocks = Inr parsed"
    and "ck \<in> set (plan_chunks (chunking_service max_chars max_segments) sha1 source_id parsed)"
  shows "int (length (ck_text ck)) \<le> max 400 max_chars \<or> (\<exists>s \<in> set (ps_segments parsed). ck_text ck = sg_text s)"
proof -
  let ?sv = "chunking_service max_chars max_segments" and ?ss = "ps_segments parsed"
  have all: "nonblank ?ss = ?ss"
    using parsed_stripped(2) [OF assms(1)] by (auto simp: nonblank_def stripped_text_def filter_id_conv)
  then have "nonblank ?ss \<noteq> []" using parsed_stripped(1) [OF assms(1)] by simp
  from plan_chunks_groups [OF service_limits(1) this] obtain gs where
      gs: "plan_chunks ?sv sha1 source_id parsed = chunks_of sha1 source_id gs" "concat gs = ?ss" "well_cut ?sv gs"
    unfolding all by blast
  obtain i where i: "i < length gs"
      "ck = build_chunk sha1 source_id i (section_after (concat (take i gs) @ [hd (gs ! i)])) (gs ! i)"
    using assms(2) unfolding gs(1) chunks_of_def by auto
  have sub: "set (gs ! i) \<subseteq> set ?ss" using nth_mem [OF i(1)] unfolding gs(2) [symmetric] by auto
  then have st: "\<forall>s \<in> set (gs ! i). stripped_text s = sg_text s \<and> stripped_text s \<noteq> []"
    using parsed_stripped(2) [OF assms(1)] by (auto simp: stripped_text_def)
  then have text_eq: "ck_text ck = joined (gs ! i)" unfolding i(2) using chunk_text_joined by blast
  have ok: "group_ok ?sv (gs ! i)" using gs(3) i(1) by (simp add: well_cut_def)
  show ?thesis
  proof (cases "1 < length (gs ! i)")
    case True
    then show ?thesis using ok text_eq by (simp add: group_ok_def chunking_service_def)
  next
    case False
    then obtain s where "gs ! i = [s]" using ok by (cases "gs ! i") (auto simp: group_ok_def)
    then show ?thesis using sub st text_eq by (auto simp: joined_def)
  qed
qed

section \<open>A small source\<close>

definition sample_parsed :: parsed_source where
  "sample_parsed =
     \<lparr>ps_source_type = ''note'', ps_normalized_content = utext_of ''Dose rises. Risk falls.'',
      ps_segments = extract_segments (utext_of ''Dose rises. Risk falls.'')\<rparr>"

lemma sample_parsed_ok: "parse_source ''note'' (utext_of ''Dose rises. Risk falls.'') [] = Inr sample_parsed"
  by code_simp

theorem plan_chunks_correct_witness:
  "\<exists>gs. plan_chunks (chunking_service 3200 1) (\<lambda>_. ''hash'') ''src'' sample_parsed = chunks_of (\<lambda>_. ''hash'') ''src'' gs \<and>
    concat gs = ps_segments sample_parsed \<and> well_cut (chunking_service 3200 1) gs"
proof -
  have "nonblank (ps_segments sample_parsed) = ps_segments sample_parsed"
    using parsed_stripped(2) [OF sample_parsed_ok] by (auto simp: nonblank_def stripped_text_def filter_id_conv)
  moreover have "ps_segments sample_parsed \<noteq> []" by (rule parsed_stripped(1) [OF sample_parsed_ok])
  ultimately show ?thesis using plan_chunks_correct [of sample_parsed 3200 1] by simp
qed

theorem chunk_sizes_witness:
  "\<exists>ck. ck \<in> set (plan_chunks (chunking_service 3200 1) (\<lambda>_. ''hash'') ''src'' sample_parsed) \<and>
     (int (length (ck_text ck)) \<le> 3200 \<or> (\<exists>s \<in> set (ps_segments sample_parsed). ck_text ck = sg_text s))"
proof -
  have "length (plan_chunks (chunking_service 3200 1) (\<lambda>_. ''hash'') ''src'' sample_parsed) = 2" by code_simp
  then obtain ck where ck: "ck \<in> set (plan_chunks (chunking_service 3200 1) (\<lambda>_. ''hash'') ''src'' sample_parsed)"
    by (metis length_greater_0_conv list.set_sel(1) zero_less_numeral)
  have "max 400 3200 = (3200 :: int)" by simp
  then show ?thesis using ck chunk_sizes [OF sample_parsed_ok ck] by auto
qed

end
