(* ===== verification/PackageStore.thy ===== *)
theory PackageStore
  imports StoreRoutes StoreGraph StoreEvents
begin

text \<open>
  The tables of validations, packages and published packages of \<^verbatim>\<open>ResearchApiStateStore\<close>
  (\<^verbatim>\<open>api/controllers/_state_store.py\<close>), and the snapshot that a package holds. The
  dictionaries of a snapshot have fixed keys and are records. A JSON column of a package that is null
  reads as an empty list or dictionary, and is one here; an empty dictionary is \<open>None\<close>.
\<close>

section \<open>The snapshot of a package\<close>

record gap_trace =
  gt_private_node_id :: string
  gt_route_ids :: "string list"
  gt_object_ref_type :: string
  gt_object_ref_id :: string

record snap_node =
  sn_node_id :: string
  sn_workspace_id :: string
  sn_node_type :: string
  sn_object_ref_type :: string
  sn_object_ref_id :: string
  sn_short_label :: string
  sn_full_description :: string
  sn_status :: string
  sn_trace_refs :: "gap_trace option"

record snap_route =
  st_route_id :: string
  st_workspace_id :: string
  st_status :: string
  st_title :: string
  st_summary :: string
  st_version_id :: "string option"
  st_route_node_ids :: "string list"
  st_conclusion_node_id :: "string option"
  st_next_validation_node_id :: "string option"
  st_top_factors :: "payload list"

record snap_validation =
  sv_validation_id :: string
  sv_workspace_id :: string
  sv_target_object :: string
  sv_method :: string
  sv_success_signal :: string
  sv_weakening_signal :: string

record dependency_flag =
  df_private_node_id :: string
  df_object_ref_type :: string
  df_object_ref_id :: string
  df_reason :: string
  df_referenced_by_route_ids :: "string list"
  df_replacement_gap_node_id :: string

record review_issue =
  is_code :: string
  is_severity :: string
  is_message :: string
  is_refs :: payload

record review =
  rw_generated_by :: string
  rw_readiness :: string
  rw_blocking_issues :: "review_issue list"
  rw_warnings :: "review_issue list"
  rw_suggestions :: "string list"

record route_trace =
  rt_node_ids :: "string list"
  rt_version_id :: "string option"
  rt_next_validation_node_id :: "string option"

record traceability =
  tc_routes :: "(string \<times> route_trace) list"
  tc_node_ids :: "string list"
  tc_validation_ids :: "string list"
  tc_missing_route_validation_ids :: "string list"
  tc_private_dependency_node_ids :: "string list"
  tc_public_gap_node_ids :: "string list"
  tc_replacement_map :: "(string \<times> string) list"
  tc_review_readiness :: string
  tc_review_blocking_refs :: "payload list"
  tc_review_warning_refs :: "payload list"

record package_snapshot =
  ss_package_id :: string
  ss_workspace_id :: string
  ss_snapshot_type :: string
  ss_snapshot_version :: string
  ss_title :: string
  ss_summary :: string
  ss_routes :: "snap_route list"
  ss_nodes :: "snap_node list"
  ss_validations :: "snap_validation list"
  ss_private_dependency_flags :: "dependency_flag list"
  ss_public_gap_nodes :: "snap_node list"
  ss_boundary_notes :: "string list"
  ss_pre_publish_review :: review
  ss_traceability_refs :: traceability

section \<open>Rows\<close>

record validation_row =
  vd_validation_id :: string
  vd_workspace_id :: string
  vd_target_object :: string
  vd_method :: string
  vd_success_signal :: string
  vd_weakening_signal :: string
  vd_status :: string
  vd_latest_outcome :: "string option"
  vd_latest_result_id :: "string option"
  vd_updated_at :: "time option"

record validation_result_row =
  vr_result_id :: string
  vr_validation_id :: string
  vr_workspace_id :: string
  vr_outcome :: string
  vr_target_type :: "string option"
  vr_target_id :: "string option"
  vr_note :: "string option"
  vr_request_id :: "string option"
  vr_triggered_failure_id :: "string option"
  vr_recompute_job_id :: "string option"
  vr_created_at :: time

record package_row =
  pk_package_id :: string
  pk_workspace_id :: string
  pk_title :: string
  pk_summary :: string
  pk_included_route_ids :: "string list"
  pk_included_node_ids :: "string list"
  pk_included_validation_ids :: "string list"
  pk_status :: string
  pk_snapshot_type :: "string option"
  pk_snapshot_version :: "string option"
  pk_private_dependency_flags :: "dependency_flag list"
  pk_public_gap_nodes :: "snap_node list"
  pk_boundary_notes :: "string list"
  pk_traceability_refs :: "traceability option"
  pk_snapshot_payload :: "package_snapshot option"
  pk_replay_ready :: "bool option"
  pk_build_request_id :: "string option"
  pk_created_at :: "time option"
  pk_updated_at :: "time option"
  pk_published_at :: "time option"

record publish_row =
  pp_publish_result_id :: string
  pp_package_id :: string
  pp_workspace_id :: string
  pp_snapshot_type :: string
  pp_snapshot_version :: string
  pp_boundary_notes :: "string list"
  pp_published_snapshot :: "package_snapshot option"
  pp_published_at :: time
  pp_request_id :: "string option"

text \<open>The store with these tables.\<close>

record desk =
  dk_store :: store
  validation_rows :: "validation_row list"
  validation_result_rows :: "validation_result_row list"
  package_rows :: "package_row list"
  publish_rows :: "publish_row list"

type_synonym 'a desk_proc = "(desk, api_error, 'a) proc"

definition in_desk :: "'a store_proc \<Rightarrow> 'a desk_proc" where
  "in_desk m d = (case m (dk_store d) of (r, s) \<Rightarrow> (r, d\<lparr>dk_store := s\<rparr>))"

section \<open>Validations\<close>

text \<open>\<^verbatim>\<open>row["status"] or "pending"\<close>.\<close>

definition validation_view :: "validation_row \<Rightarrow> validation_row" where
  "validation_view r = r\<lparr>vd_status := (if vd_status r = [] then ''pending'' else vd_status r)\<rparr>"

definition get_validation :: "string \<Rightarrow> validation_row option desk_proc" where
  "get_validation validation_id =
     reading (\<lambda>d. map_option validation_view (select_key vd_validation_id validation_id (validation_rows d)))"

definition list_validations :: "string \<Rightarrow> validation_row list desk_proc" where
  "list_validations workspace_id =
     reading (\<lambda>d. map validation_view (sort_key vd_validation_id
       (filter (\<lambda>r. vd_workspace_id r = workspace_id) (validation_rows d))))"

definition create_validation ::
  "string \<Rightarrow> string \<Rightarrow> string \<Rightarrow> string \<Rightarrow> string \<Rightarrow> validation_row option desk_proc"
where
  "create_validation workspace_id target_object meth success_signal weakening_signal =
     and_then (in_desk (gen_id ''validation'')) (\<lambda>validation_id.
     and_then (in_desk now) (\<lambda>t.
     and_then
       (insert_row vd_validation_id validation_rows validation_rows_update
         \<lparr>vd_validation_id = validation_id, vd_workspace_id = workspace_id,
          vd_target_object = target_object, vd_method = meth, vd_success_signal = success_signal,
          vd_weakening_signal = weakening_signal, vd_status = ''pending'', vd_latest_outcome = None,
          vd_latest_result_id = None, vd_updated_at = Some t\<rparr>) (\<lambda>_.
     get_validation validation_id)))"

text \<open>The arguments are the fields of a row, of which the id and the time are set here.\<close>

definition create_validation_result :: "validation_result_row \<Rightarrow> validation_result_row desk_proc" where
  "create_validation_result args =
     and_then (in_desk (gen_id ''validation_result'')) (\<lambda>result_id.
     and_then (in_desk now) (\<lambda>t.
     let r = args\<lparr>vr_result_id := result_id, vr_created_at := t\<rparr> in
     and_then (insert_row vr_result_id validation_result_rows validation_result_rows_update r) (\<lambda>_.
     and_then
       (writing (validation_rows_update (update_where (\<lambda>v. vd_validation_id v = vr_validation_id args)
         (\<lambda>v. v\<lparr>vd_status := vr_outcome args, vd_latest_outcome := Some (vr_outcome args),
                vd_latest_result_id := Some result_id, vd_updated_at := Some t\<rparr>)))) (\<lambda>_.
     ret r))))"

section \<open>Packages\<close>

definition package_view :: "package_row \<Rightarrow> package_row" where
  "package_view r =
     r\<lparr>pk_snapshot_type := default_str ''research_package_snapshot'' (pk_snapshot_type r),
       pk_snapshot_version := default_str ''slice11.v1'' (pk_snapshot_version r),
       pk_replay_ready := Some (case pk_replay_ready r of None \<Rightarrow> False | Some b \<Rightarrow> b)\<rparr>"

definition get_package :: "string \<Rightarrow> package_row option desk_proc" where
  "get_package package_id =
     reading (\<lambda>d. map_option package_view (select_key pk_package_id package_id (package_rows d)))"

text \<open>Again the arguments are the fields of a row; an id that is missing or empty is drawn.\<close>

definition create_package :: "string option \<Rightarrow> package_row \<Rightarrow> package_row option desk_proc" where
  "create_package package_id args =
     and_then
       (case package_id of
          Some i \<Rightarrow> if i \<noteq> [] then ret i else in_desk (gen_id ''pkg'')
        | None \<Rightarrow> in_desk (gen_id ''pkg'')) (\<lambda>i.
     and_then (in_desk now) (\<lambda>t.
     and_then
       (insert_row pk_package_id package_rows package_rows_update
         (args\<lparr>pk_package_id := i, pk_created_at := Some t, pk_updated_at := Some t,
               pk_published_at := None\<rparr>)) (\<lambda>_.
     get_package i)))"

text \<open>\<^verbatim>\<open>ORDER BY created_at DESC\<close>: a null is the smallest value, and ties keep the order of the scan.\<close>

definition newest_first :: "package_row list \<Rightarrow> package_row list" where
  "newest_first = sort_key (\<lambda>r. - (case pk_created_at r of None \<Rightarrow> - 1 | Some t \<Rightarrow> int t))"

definition list_packages :: "string \<Rightarrow> string option \<Rightarrow> package_row list desk_proc" where
  "list_packages workspace_id status =
     reading (\<lambda>d. map package_view (newest_first
       (filter (\<lambda>r. pk_workspace_id r = workspace_id \<and> matches status (Some (pk_status r))) (package_rows d))))"

definition update_package_status :: "string \<Rightarrow> string \<Rightarrow> time option \<Rightarrow> package_row option desk_proc" where
  "update_package_status package_id status published_at =
     and_then (in_desk now) (\<lambda>t.
     and_then
       (writing (package_rows_update (update_where (\<lambda>r. pk_package_id r = package_id)
         (\<lambda>r. r\<lparr>pk_status := status, pk_updated_at := Some t,
                pk_published_at := (case published_at of None \<Rightarrow> pk_published_at r | Some x \<Rightarrow> Some x)\<rparr>)))) (\<lambda>_.
     get_package package_id))"

definition get_package_publish_result :: "string \<Rightarrow> publish_row option desk_proc" where
  "get_package_publish_result publish_result_id =
     reading (\<lambda>d. select_key pp_publish_result_id publish_result_id (publish_rows d))"

definition create_package_publish_result :: "publish_row \<Rightarrow> publish_row option desk_proc" where
  "create_package_publish_result args =
     and_then (in_desk (gen_id ''pkg_publish'')) (\<lambda>publish_result_id.
     and_then (in_desk now) (\<lambda>t.
     and_then
       (insert_row pp_publish_result_id publish_rows publish_rows_update
         (args\<lparr>pp_publish_result_id := publish_result_id, pp_published_at := t\<rparr>)) (\<lambda>_.
     get_package_publish_result publish_result_id)))"

end
