(* ===== verification/PackageBuild.thy ===== *)
theory PackageBuild
  imports PackageStore ScoringFactors
begin

text \<open>
  \<^verbatim>\<open>services/package_build_service.py\<close>: \<open>build_snapshot\<close> collects the routes, nodes and
  validations of a request, replaces every private dependency by a gap node, and stores the whole as a
  draft package; \<open>publish_snapshot\<close> copies the snapshot of a package into a publish result.
\<close>

section \<open>Ids\<close>

fun dedupe_from :: "string list \<Rightarrow> string list \<Rightarrow> string list" where
  "dedupe_from seen [] = []"
| "dedupe_from seen (v # vs) =
     (let normalized = strip v
      in if normalized = [] \<or> normalized \<in> set seen then dedupe_from seen vs
         else normalized # dedupe_from (normalized # seen) vs)"

definition dedupe_ids :: "string list \<Rightarrow> string list" where
  "dedupe_ids = dedupe_from []"

definition collect_route_node_ids :: "route_view \<Rightarrow> string list" where
  "collect_route_node_ids r =
     dedupe_ids (filter (\<lambda>i. i \<noteq> [])
       (rr_route_node_ids r @
        (case rr_conclusion_node_id r of None \<Rightarrow> [] | Some i \<Rightarrow> [i]) @
        (case rr_next_validation_node_id r of None \<Rightarrow> [] | Some i \<Rightarrow> [i])))"

text \<open>\<^verbatim>\<open>{key(x): x for x in xs}\<close>.\<close>

definition dict_by :: "('x \<Rightarrow> string) \<Rightarrow> 'x list \<Rightarrow> (string \<times> 'x) list" where
  "dict_by key xs = fold (\<lambda>x. dict_put (key x) x) xs []"

text \<open>\<^verbatim>\<open>refs_by_node.setdefault(node_id, []).append(route_id)\<close>.\<close>

definition add_route_ref :: "string \<Rightarrow> string \<Rightarrow> (string \<times> string list) list \<Rightarrow> (string \<times> string list) list" where
  "add_route_ref route_id node_id d =
     dict_put node_id ((case map_of d node_id of None \<Rightarrow> [] | Some ids \<Rightarrow> ids) @ [route_id]) d"

definition build_route_refs_by_node :: "(string \<times> route_trace) list \<Rightarrow> (string \<times> string list) list" where
  "build_route_refs_by_node trace =
     map (\<lambda>(node_id, route_ids). (node_id, sorted_set route_ids))
       (fold (\<lambda>(route_id, t). fold (add_route_ref route_id) (rt_node_ids t)) trace [])"

section \<open>Resolving\<close>

definition resolve_route :: "string \<Rightarrow> string \<Rightarrow> route_view list \<Rightarrow> route_view list desk_proc" where
  "resolve_route workspace_id route_id resolved =
     and_then (in_desk (get_route route_id)) (\<lambda>found.
     and_then
       (require (ServiceError 404 ''research.not_found'' ''route not found'' [(''route_id'', VStr route_id)])
          found) (\<lambda>route.
     and_then
       (check (ServiceError 409 ''research.conflict'' ''workspace_id does not match route ownership''
          [(''route_id'', VStr route_id)]) (rr_workspace_id route = workspace_id)) (\<lambda>_.
     ret (resolved @ [route]))))"

definition resolve_routes :: "string \<Rightarrow> string list \<Rightarrow> route_view list desk_proc" where
  "resolve_routes workspace_id route_ids = fold_proc (resolve_route workspace_id) route_ids []"

definition resolve_node :: "string \<Rightarrow> string \<Rightarrow> node_row list \<Rightarrow> node_row list desk_proc" where
  "resolve_node workspace_id node_id resolved =
     and_then (in_desk (get_graph_node node_id)) (\<lambda>found.
     and_then
       (require (ServiceError 404 ''research.not_found'' ''graph node not found'' [(''node_id'', VStr node_id)])
          found) (\<lambda>node.
     and_then
       (check (ServiceError 409 ''research.conflict'' ''workspace_id does not match node ownership''
          [(''node_id'', VStr node_id)]) (nd_workspace_id node = workspace_id)) (\<lambda>_.
     ret (resolved @ [node]))))"

definition resolve_nodes :: "string \<Rightarrow> string list \<Rightarrow> node_row list desk_proc" where
  "resolve_nodes workspace_id node_ids = fold_proc (resolve_node workspace_id) node_ids []"

definition resolve_validation ::
  "(string \<times> validation_row) list \<Rightarrow> string \<Rightarrow> validation_row list \<Rightarrow> validation_row list desk_proc"
where
  "resolve_validation validation_map validation_id resolved =
     and_then
       (require (ServiceError 404 ''research.not_found'' ''validation not found''
          [(''validation_id'', VStr validation_id)]) (map_of validation_map validation_id)) (\<lambda>v.
     ret (resolved @ [v]))"

text \<open>The validation that a route asks for next, when its node stands for one.\<close>

definition next_validation_ids :: "string \<Rightarrow> route_view \<Rightarrow> string list desk_proc" where
  "next_validation_ids workspace_id route =
     (case rr_next_validation_node_id route of
        None \<Rightarrow> ret []
      | Some i \<Rightarrow>
          if i = [] then ret []
          else and_then (in_desk (get_graph_node i)) (\<lambda>found.
            ret (case found of
                None \<Rightarrow> []
              | Some node \<Rightarrow>
                  if nd_workspace_id node = workspace_id \<and>
                     nd_object_ref_type node \<in> set [''validation_action'', ''research_validation'', ''validation'']
                  then [nd_object_ref_id node] else [])))"

text \<open>What the loop over the routes collects.\<close>

record route_facts =
  rf_traceability :: "(string \<times> route_trace) list"
  rf_node_ids :: "string list"
  rf_validation_ids :: "string list"

definition no_facts :: route_facts where
  "no_facts = \<lparr>rf_traceability = [], rf_node_ids = [], rf_validation_ids = []\<rparr>"

definition collect_route :: "string \<Rightarrow> route_view \<Rightarrow> route_facts \<Rightarrow> route_facts desk_proc" where
  "collect_route workspace_id route f =
     (let route_node_ids = collect_route_node_ids route in
      and_then (next_validation_ids workspace_id route) (\<lambda>validation_ids.
      ret (f\<lparr>rf_traceability := dict_put (rr_route_id route)
               \<lparr>rt_node_ids = route_node_ids, rt_version_id = rr_version_id route,
                rt_next_validation_node_id = rr_next_validation_node_id route\<rparr> (rf_traceability f),
             rf_node_ids := rf_node_ids f @ route_node_ids,
             rf_validation_ids := rf_validation_ids f @ validation_ids\<rparr>)))"

section \<open>Gaps\<close>

definition is_private :: "node_row \<Rightarrow> bool" where
  "is_private n \<longleftrightarrow> nd_node_type n = ''private_dependency''"

definition gap_node :: "string \<Rightarrow> string \<Rightarrow> string \<Rightarrow> string list \<Rightarrow> node_row \<Rightarrow> snap_node" where
  "gap_node package_id workspace_id gap_id route_ids private_node =
     \<lparr>sn_node_id = gap_id, sn_workspace_id = workspace_id, sn_node_type = ''gap'',
      sn_object_ref_type = ''public_gap'',
      sn_object_ref_id = package_id @ '':'' @ nd_node_id private_node,
      sn_short_label = ''Public gap for private dependency '' @ nd_node_id private_node,
      sn_full_description = ''Private dependency excluded from package snapshot; '' @
        ''this public gap marks required follow-up validation.'',
      sn_status = ''active'',
      sn_trace_refs = Some \<lparr>gt_private_node_id = nd_node_id private_node, gt_route_ids = route_ids,
        gt_object_ref_type = nd_object_ref_type private_node,
        gt_object_ref_id = nd_object_ref_id private_node\<rparr>\<rparr>"

definition dependency_flag_of :: "string \<Rightarrow> string list \<Rightarrow> node_row \<Rightarrow> dependency_flag" where
  "dependency_flag_of gap_id route_ids private_node =
     \<lparr>df_private_node_id = nd_node_id private_node,
      df_object_ref_type = nd_object_ref_type private_node,
      df_object_ref_id = nd_object_ref_id private_node,
      df_reason = ''private_dependency_requires_public_gap'',
      df_referenced_by_route_ids = route_ids, df_replacement_gap_node_id = gap_id\<rparr>"

definition replace_private ::
  "string \<Rightarrow> string \<Rightarrow> (string \<times> string list) list \<Rightarrow> node_row \<Rightarrow> (snap_node \<times> dependency_flag) list \<Rightarrow>
   (snap_node \<times> dependency_flag) list desk_proc"
where
  "replace_private package_id workspace_id route_refs private_node gaps =
     and_then (in_desk (gen_id ''pkg_gap'')) (\<lambda>gap_id.
     let route_ids = (case map_of route_refs (nd_node_id private_node) of None \<Rightarrow> [] | Some ids \<Rightarrow> ids)
     in ret (gaps @ [(gap_node package_id workspace_id gap_id route_ids private_node,
                      dependency_flag_of gap_id route_ids private_node)]))"

definition replacement_map_of :: "dependency_flag list \<Rightarrow> (string \<times> string) list" where
  "replacement_map_of flags =
     fold (\<lambda>f. dict_put (df_private_node_id f) (df_replacement_gap_node_id f)) flags []"

text \<open>\<^verbatim>\<open>replacement_map.get(i, i)\<close>.\<close>

definition replaced :: "(string \<times> string) list \<Rightarrow> string \<Rightarrow> string" where
  "replaced replacement_map i = (case map_of replacement_map i of None \<Rightarrow> i | Some g \<Rightarrow> g)"

section \<open>Normal forms\<close>

definition normalize_route :: "(string \<times> string) list \<Rightarrow> route_view \<Rightarrow> snap_route" where
  "normalize_route replacement_map r =
     \<lparr>st_route_id = rr_route_id r, st_workspace_id = rr_workspace_id r, st_status = rr_status r,
      st_title = rr_title r, st_summary = rr_summary r, st_version_id = rr_version_id r,
      st_route_node_ids = dedupe_ids (map (replaced replacement_map) (rr_route_node_ids r)),
      st_conclusion_node_id = map_option (replaced replacement_map) (rr_conclusion_node_id r),
      st_next_validation_node_id = map_option (replaced replacement_map) (rr_next_validation_node_id r),
      st_top_factors = rr_top_factors r\<rparr>"

text \<open>A node of the graph has no \<^verbatim>\<open>trace_refs\<close>; a gap node is in normal form already.\<close>

definition normalize_node :: "node_row \<Rightarrow> snap_node" where
  "normalize_node n =
     \<lparr>sn_node_id = nd_node_id n, sn_workspace_id = nd_workspace_id n, sn_node_type = nd_node_type n,
      sn_object_ref_type = nd_object_ref_type n, sn_object_ref_id = nd_object_ref_id n,
      sn_short_label = nd_short_label n, sn_full_description = nd_full_description n,
      sn_status = nd_status n, sn_trace_refs = None\<rparr>"

definition normalize_validation :: "validation_row \<Rightarrow> snap_validation" where
  "normalize_validation v =
     \<lparr>sv_validation_id = vd_validation_id v, sv_workspace_id = vd_workspace_id v,
      sv_target_object = vd_target_object v, sv_method = vd_method v,
      sv_success_signal = vd_success_signal v, sv_weakening_signal = vd_weakening_signal v\<rparr>"

section \<open>The review before publication\<close>

definition blocking_issue :: "string \<Rightarrow> string \<Rightarrow> payload \<Rightarrow> review_issue" where
  "blocking_issue code message refs =
     \<lparr>is_code = code, is_severity = ''blocking'', is_message = message, is_refs = refs\<rparr>"

definition warning_issue :: "string \<Rightarrow> string \<Rightarrow> payload \<Rightarrow> review_issue" where
  "warning_issue code message refs =
     \<lparr>is_code = code, is_severity = ''warning'', is_message = message, is_refs = refs\<rparr>"

text \<open>The blocking issues, the warnings and the suggestions that one route gives.\<close>

definition review_route :: "route_view \<Rightarrow> review_issue list \<times> review_issue list \<times> string list" where
  "review_route r =
     (let route_id = rr_route_id r; risk_score = rr_risk_score r;
          refs = [(''route_id'', VStr route_id), (''risk_score'', VFloat risk_score)];
          high = 70 \<le> risk_score; unexplained = rr_top_factors r = []
      in (if high then [blocking_issue (''route_high_risk:'' @ route_id)
                          ''Route risk score is above publish threshold.'' refs] else [],
          (if \<not> high \<and> 55 \<le> risk_score
           then [warning_issue (''route_elevated_risk:'' @ route_id)
                   ''Route risk score is elevated for publication.'' refs] else []) @
          (if unexplained
           then [warning_issue (''route_missing_top_factors:'' @ route_id)
                   ''Route lacks top factor traceability for reviewer context.''
                   [(''route_id'', VStr route_id)]] else []),
          (if high then [''Reduce high-risk routes or add stronger mitigation evidence.''] else []) @
          (if unexplained then [''Re-score routes to persist top factors before package publication.''] else [])))"

definition build_pre_publish_review ::
  "string \<Rightarrow> route_view list \<Rightarrow> snap_node list \<Rightarrow> snap_validation list \<Rightarrow> dependency_flag list \<Rightarrow>
   string list \<Rightarrow> review"
where
  "build_pre_publish_review workspace_id routes nodes validations flags missing =
     (let rs = map review_route routes; ws = [(''workspace_id'', VStr workspace_id)];
          blocking_issues =
            (if routes = [] then [blocking_issue ''no_routes_in_snapshot''
               ''Snapshot must include at least one route.'' ws] else []) @
            concat (map fst rs) @
            (if missing \<noteq> [] then [blocking_issue ''missing_route_validations''
               ''Some route-derived validation references cannot be resolved.''
               (ws @ [(''validation_ids'', strs missing)])] else []) @
            (if nodes = [] then [blocking_issue ''snapshot_without_nodes''
               ''Snapshot contains no graph nodes after normalization.'' ws] else []);
          warnings =
            concat (map (fst \<circ> snd) rs) @
            (if validations = [] then [warning_issue ''snapshot_without_validation''
               ''Snapshot includes no validation actions.'' ws] else []) @
            (if flags \<noteq> [] then [warning_issue ''private_dependency_public_gap_present''
               ''Private dependencies were converted to public gaps; review completeness.''
               [(''private_node_ids'', strs (map df_private_node_id flags))]] else []);
          suggestions =
            (if routes = [] then [''Include at least one validated route before publishing.''] else []) @
            concat (map (snd \<circ> snd) rs) @
            (if validations = []
             then [''Include at least one validation action to improve publication readiness.''] else []) @
            (if missing \<noteq> []
             then [''Resolve route validation references or remove stale route links.''] else []) @
            (if flags \<noteq> []
             then [''Verify each public gap has a follow-up validation owner and timeline.''] else [])
      in \<lparr>rw_generated_by = ''package_build_service.pre_publish_review.v1'',
          rw_readiness = (if blocking_issues \<noteq> [] then ''blocked''
            else if warnings \<noteq> [] then ''review_required'' else ''ready''),
          rw_blocking_issues = blocking_issues, rw_warnings = warnings,
          rw_suggestions = (if suggestions = []
            then [''No blocking concerns detected; proceed with standard publication checks.'']
            else sorted_set suggestions)\<rparr>)"

section \<open>Building\<close>

text \<open>What the service has read, before it makes anything.\<close>

record gathered =
  gd_routes :: "route_view list"
  gd_traceability :: "(string \<times> route_trace) list"
  gd_nodes :: "node_row list"
  gd_validations :: "validation_row list"
  gd_missing :: "string list"

definition gather :: "string \<Rightarrow> string list \<Rightarrow> string list \<Rightarrow> string list \<Rightarrow> gathered desk_proc" where
  "gather workspace_id route_ids node_ids validation_ids =
     and_then (resolve_routes workspace_id route_ids) (\<lambda>routes.
     and_then (fold_proc (collect_route workspace_id) routes no_facts) (\<lambda>f.
     and_then (resolve_nodes workspace_id (dedupe_ids (node_ids @ rf_node_ids f))) (\<lambda>nodes.
     and_then (list_validations workspace_id) (\<lambda>vs.
     let validation_map = dict_by vd_validation_id vs; derived = dedupe_ids (rf_validation_ids f) in
     and_then (fold_proc (resolve_validation validation_map) validation_ids []) (\<lambda>requested.
     ret \<lparr>gd_routes = routes, gd_traceability = rf_traceability f, gd_nodes = nodes,
          gd_validations = map snd (dict_by vd_validation_id
            (requested @ List.map_filter (map_of validation_map) derived)),
          gd_missing = filter (\<lambda>i. map_of validation_map i = None) derived\<rparr>)))))"

definition boundary_notes :: "dependency_flag list \<Rightarrow> string list \<Rightarrow> string list" where
  "boundary_notes flags missing =
     [''This package is a snapshot and does not live-sync with workspace state.'',
      ''Private dependencies are converted into public gap nodes for transparent boundaries.''] @
     (if flags = [] then [''No private dependency conversion was required for this snapshot.''] else []) @
     (if missing \<noteq> []
      then [''Some route-derived validation references could not be resolved '' @
            ''to formal validation actions and were excluded from snapshot validations.''] else [])"

definition traceability_of ::
  "gathered \<Rightarrow> snap_node list \<Rightarrow> snap_validation list \<Rightarrow> (snap_node \<times> dependency_flag) list \<Rightarrow> review \<Rightarrow>
   traceability"
where
  "traceability_of g nodes validations gaps rw =
     \<lparr>tc_routes = gd_traceability g, tc_node_ids = map sn_node_id nodes,
      tc_validation_ids = map sv_validation_id validations,
      tc_missing_route_validation_ids = gd_missing g,
      tc_private_dependency_node_ids = map (df_private_node_id \<circ> snd) gaps,
      tc_public_gap_node_ids = map (sn_node_id \<circ> fst) gaps,
      tc_replacement_map = replacement_map_of (map snd gaps),
      tc_review_readiness = rw_readiness rw,
      tc_review_blocking_refs = map is_refs (rw_blocking_issues rw),
      tc_review_warning_refs = map is_refs (rw_warnings rw)\<rparr>"

definition snapshot_of ::
  "string \<Rightarrow> string \<Rightarrow> string \<Rightarrow> string \<Rightarrow> gathered \<Rightarrow> (snap_node \<times> dependency_flag) list \<Rightarrow> package_snapshot"
where
  "snapshot_of package_id workspace_id title summary g gaps =
     (let flags = map snd gaps;
          routes = map (normalize_route (replacement_map_of flags)) (gd_routes g);
          validations = map normalize_validation (gd_validations g);
          nodes = map normalize_node (filter (\<lambda>n. \<not> is_private n) (gd_nodes g)) @ map fst gaps;
          rw = build_pre_publish_review workspace_id (gd_routes g) nodes validations flags (gd_missing g)
      in \<lparr>ss_package_id = package_id, ss_workspace_id = workspace_id,
          ss_snapshot_type = ''research_package_snapshot'', ss_snapshot_version = ''slice11.v1'',
          ss_title = title, ss_summary = summary, ss_routes = routes, ss_nodes = nodes,
          ss_validations = validations, ss_private_dependency_flags = flags,
          ss_public_gap_nodes = map fst gaps, ss_boundary_notes = boundary_notes flags (gd_missing g),
          ss_pre_publish_review = rw, ss_traceability_refs = traceability_of g nodes validations gaps rw\<rparr>)"

text \<open>The row of a new package; the times are set by the store.\<close>

definition package_args :: "string option \<Rightarrow> package_snapshot \<Rightarrow> package_row" where
  "package_args request_id ss =
     \<lparr>pk_package_id = ss_package_id ss, pk_workspace_id = ss_workspace_id ss, pk_title = ss_title ss,
      pk_summary = ss_summary ss, pk_included_route_ids = map st_route_id (ss_routes ss),
      pk_included_node_ids = map sn_node_id (ss_nodes ss),
      pk_included_validation_ids = map sv_validation_id (ss_validations ss), pk_status = ''draft'',
      pk_snapshot_type = Some ''research_package_snapshot'', pk_snapshot_version = Some ''slice11.v1'',
      pk_private_dependency_flags = ss_private_dependency_flags ss,
      pk_public_gap_nodes = ss_public_gap_nodes ss, pk_boundary_notes = ss_boundary_notes ss,
      pk_traceability_refs = Some (ss_traceability_refs ss), pk_snapshot_payload = Some ss,
      pk_replay_ready = Some True, pk_build_request_id = request_id, pk_created_at = None,
      pk_updated_at = None, pk_published_at = None\<rparr>"

definition package_event ::
  "string \<Rightarrow> string \<Rightarrow> string \<Rightarrow> string option \<Rightarrow> string \<Rightarrow> string \<Rightarrow> payload \<Rightarrow> payload \<Rightarrow> payload option \<Rightarrow>
   unit desk_proc"
where
  "package_event event_name workspace_id request_id job_id step status refs metrics error =
     in_desk (emit_event (event_args event_name (Some request_id) job_id (Some workspace_id)
       ''package_build_service'' step status refs metrics error))"

text \<open>The handler of \<^verbatim>\<open>PackageBuildServiceError\<close>.\<close>

definition emit_package_failed ::
  "string \<Rightarrow> string \<Rightarrow> string \<Rightarrow> string option \<Rightarrow> string \<Rightarrow> string \<Rightarrow> api_error \<Rightarrow> unit desk_proc"
where
  "emit_package_failed event_name workspace_id request_id job_id step package_id e =
     (case e of
        ServiceError status_code error_code message details \<Rightarrow>
          package_event event_name workspace_id request_id job_id step ''failed''
            [(''package_id'', VStr package_id)] []
            (Some [(''error_code'', VStr error_code), (''message'', VStr message),
                   (''details'', VDict details)])
      | _ \<Rightarrow> ret ())"

definition build_attempt ::
  "string \<Rightarrow> string \<Rightarrow> string \<Rightarrow> string list \<Rightarrow> string list \<Rightarrow> string list \<Rightarrow> string \<Rightarrow> string \<Rightarrow>
   package_row option desk_proc"
where
  "build_attempt workspace_id title summary route_ids node_ids validation_ids request_id package_id =
     and_then (gather workspace_id route_ids node_ids validation_ids) (\<lambda>g.
     and_then
       (fold_proc (replace_private package_id workspace_id (build_route_refs_by_node (gd_traceability g)))
          (filter is_private (gd_nodes g)) []) (\<lambda>gaps.
     let ss = snapshot_of package_id workspace_id title summary g gaps in
     and_then (create_package (Some package_id) (package_args (Some request_id) ss)) (\<lambda>package.
     and_then
       (package_event ''package_build_completed'' workspace_id request_id None ''build'' ''completed''
          [(''package_id'', VStr package_id)]
          [(''included_route_count'', int_len (ss_routes ss)),
           (''included_node_count'', int_len (ss_nodes ss)),
           (''included_validation_count'', int_len (ss_validations ss)),
           (''private_dependency_count'', int_len gaps), (''public_gap_count'', int_len gaps),
           (''replay_ready'', VBool True)] None) (\<lambda>_.
     ret package))))"

definition build_snapshot ::
  "string \<Rightarrow> string \<Rightarrow> string \<Rightarrow> string list \<Rightarrow> string list \<Rightarrow> string list \<Rightarrow> string \<Rightarrow>
   package_row option desk_proc"
where
  "build_snapshot workspace_id title summary included_route_ids included_node_ids
     included_validation_ids request_id =
     and_then
       (check (ServiceError 400 ''research.invalid_request''
          ''package build requires at least one route/node/validation reference'' [])
          (included_route_ids \<noteq> [] \<or> included_node_ids \<noteq> [] \<or> included_validation_ids \<noteq> [])) (\<lambda>_.
     let route_ids = dedupe_ids included_route_ids; node_ids = dedupe_ids included_node_ids;
         validation_ids = dedupe_ids included_validation_ids
     in and_then (in_desk (gen_id ''pkg'')) (\<lambda>package_id.
        and_then
          (package_event ''package_build_started'' workspace_id request_id None ''build'' ''started''
             [(''package_id'', VStr package_id), (''included_route_ids'', strs route_ids),
              (''included_node_ids'', strs node_ids), (''included_validation_ids'', strs validation_ids)]
             [(''request_route_count'', int_len route_ids), (''request_node_count'', int_len node_ids),
              (''request_validation_count'', int_len validation_ids)] None) (\<lambda>_.
        on_error
          (build_attempt workspace_id title summary route_ids node_ids validation_ids request_id package_id)
          (emit_package_failed ''package_build_completed'' workspace_id request_id None ''build'' package_id))))"

section \<open>Publishing\<close>

text \<open>\<^verbatim>\<open>str(x)\<close> of a text that may be missing.\<close>

definition str_opt :: "string option \<Rightarrow> string" where
  "str_opt x = (case x of None \<Rightarrow> ''None'' | Some s \<Rightarrow> s)"

definition publish_attempt :: "string \<Rightarrow> package_row \<Rightarrow> string \<Rightarrow> string option \<Rightarrow> publish_row desk_proc" where
  "publish_attempt workspace_id package request_id job_id =
     (let package_id = pk_package_id package in
      and_then
        (create_package_publish_result
           \<lparr>pp_publish_result_id = [], pp_package_id = package_id, pp_workspace_id = workspace_id,
            pp_snapshot_type = str_opt (pk_snapshot_type package),
            pp_snapshot_version = str_opt (pk_snapshot_version package),
            pp_boundary_notes = pk_boundary_notes package,
            pp_published_snapshot = pk_snapshot_payload package, pp_published_at = 0,
            pp_request_id = Some request_id\<rparr>) (\<lambda>created.
      and_then (require NoneSubscript created) (\<lambda>result.
      and_then (update_package_status package_id ''published'' (Some (pp_published_at result))) (\<lambda>_.
      and_then
        (package_event ''package_publish_completed'' workspace_id request_id job_id ''publish'' ''completed''
           [(''package_id'', VStr package_id), (''publish_result_id'', VStr (pp_publish_result_id result))]
           [(''snapshot_version'', VStr (str_opt (pk_snapshot_version package))),
            (''boundary_note_count'', int_len (pk_boundary_notes package))] None) (\<lambda>_.
      ret result)))))"

definition publish_snapshot ::
  "string \<Rightarrow> string \<Rightarrow> string \<Rightarrow> string option \<Rightarrow> bool \<Rightarrow> publish_row desk_proc"
where
  "publish_snapshot workspace_id package_id request_id job_id async_mode =
     and_then (get_package package_id) (\<lambda>found.
     let details = [(''package_id'', VStr package_id)] in
     and_then (require (ServiceError 404 ''research.not_found'' ''package not found'' details) found) (\<lambda>package.
     and_then
       (check (ServiceError 409 ''research.conflict'' ''workspace_id does not match package ownership'' details)
          (pk_workspace_id package = workspace_id)) (\<lambda>_.
     and_then
       (check (ServiceError 409 ''research.invalid_state'' ''package is already published'' details)
          (pk_status package \<noteq> ''published'')) (\<lambda>_.
     and_then
       (check (ServiceError 409 ''research.invalid_state'' ''package snapshot is not replay-ready'' details)
          (pk_replay_ready package = Some True)) (\<lambda>_.
     and_then
       (package_event ''package_publish_started'' workspace_id request_id job_id ''publish'' ''started''
          [(''package_id'', VStr package_id), (''async_mode'', VBool async_mode)] [] None) (\<lambda>_.
     on_error (publish_attempt workspace_id package request_id job_id)
       (emit_package_failed ''package_publish_completed'' workspace_id request_id job_id ''publish''
          package_id)))))))"

end
