(* ===== verification/PackageGather.thy ===== *)
theory PackageGather
  imports PackageBuild StoreFresh
begin

text \<open>
  What \<open>gather\<close> returns: it only reads, and what it collects is determined by the rows it finds.
\<close>

section \<open>Deduplication\<close>

lemma dedupe_from_set: "set (dedupe_from seen vs) = strip ` set vs - insert [] (set seen)"
  by (induction seen vs rule: dedupe_from.induct) (auto simp: Let_def)

lemma dedupe_from_distinct: "distinct (dedupe_from seen vs)"
  by (induction seen vs rule: dedupe_from.induct) (auto simp: Let_def dedupe_from_set)

lemma set_dedupe_ids [simp]: "set (dedupe_ids vs) = strip ` set vs - {[]}"
  by (simp add: dedupe_ids_def dedupe_from_set)

lemma distinct_dedupe_ids [simp]: "distinct (dedupe_ids vs)"
  by (simp add: dedupe_ids_def dedupe_from_distinct)

section \<open>Loops that only read\<close>

lemma fold_lookup:
  assumes "\<And>x acc. body x acc d = (case f x of Inl e \<Rightarrow> (Inl e, d) | Inr y \<Rightarrow> (Inr (acc @ [y]), d))"
  shows "fold_proc body xs acc d = (case rmap f xs of Inl e \<Rightarrow> (Inl e, d) | Inr ys \<Rightarrow> (Inr (acc @ ys), d))"
proof (induction xs arbitrary: acc)
  case (Cons x xs)
  show ?case
    by (cases "f x"; cases "rmap f xs") (simp_all add: and_then_def assms Cons.IH rbind_def)
qed (simp add: proc_simps)

definition route_at :: "desk \<Rightarrow> string \<Rightarrow> string \<Rightarrow> api_error + route_view" where
  "route_at d w i =
     (case select_key rr_route_id i (route_rows (dk_store d)) of
        None \<Rightarrow> Inl (ServiceError 404 ''research.not_found'' ''route not found'' [(''route_id'', VStr i)])
      | Some r \<Rightarrow>
          if rr_workspace_id r = w then Inr (route_view_of r)
          else Inl (ServiceError 409 ''research.conflict'' ''workspace_id does not match route ownership''
            [(''route_id'', VStr i)]))"

definition node_at :: "desk \<Rightarrow> string \<Rightarrow> string \<Rightarrow> api_error + node_row" where
  "node_at d w i =
     (case select_key nd_node_id i (node_rows (dk_store d)) of
        None \<Rightarrow> Inl (ServiceError 404 ''research.not_found'' ''graph node not found'' [(''node_id'', VStr i)])
      | Some n \<Rightarrow>
          if nd_workspace_id n = w then Inr (node_view n)
          else Inl (ServiceError 409 ''research.conflict'' ''workspace_id does not match node ownership''
            [(''node_id'', VStr i)]))"

definition validation_at :: "(string \<times> validation_row) list \<Rightarrow> string \<Rightarrow> api_error + validation_row" where
  "validation_at m i =
     (case map_of m i of
        None \<Rightarrow> Inl (ServiceError 404 ''research.not_found'' ''validation not found'' [(''validation_id'', VStr i)])
      | Some v \<Rightarrow> Inr v)"

lemma in_desk_reading [simp]: "in_desk (reading f) d = (Inr (f (dk_store d)), d)"
  by (simp add: in_desk_def proc_simps)

lemma view_fields [simp]:
  "rr_route_id (route_view_of r) = rr_route_id r"
  "rr_workspace_id (route_view_of r) = rr_workspace_id r"
  "rr_route_node_ids (route_view_of r) = rr_route_node_ids r"
  "rr_conclusion_node_id (route_view_of r) = rr_conclusion_node_id r"
  "rr_next_validation_node_id (route_view_of r) = rr_next_validation_node_id r"
  by (simp_all add: route_view_of_def route_row.defs route_view.defs Let_def split: prod.split)

lemma node_view_fields [simp]:
  "nd_node_id (node_view n) = nd_node_id n" "nd_workspace_id (node_view n) = nd_workspace_id n"
  "nd_node_type (node_view n) = nd_node_type n"
  by (simp_all add: node_view_def)

lemma resolve_routes_eq:
  "resolve_routes w ids d = (case rmap (route_at d w) ids of Inl e \<Rightarrow> (Inl e, d) | Inr rs \<Rightarrow> (Inr rs, d))"
  unfolding resolve_routes_def
  by (subst fold_lookup [where f = "route_at d w"])
    (auto simp: resolve_route_def get_route_def and_then_def proc_simps route_at_def split: option.splits sum.splits)

lemma resolve_nodes_eq:
  "resolve_nodes w ids d = (case rmap (node_at d w) ids of Inl e \<Rightarrow> (Inl e, d) | Inr ns \<Rightarrow> (Inr ns, d))"
  unfolding resolve_nodes_def
  by (subst fold_lookup [where f = "node_at d w"])
    (auto simp: resolve_node_def get_graph_node_def and_then_def proc_simps node_at_def split: option.splits sum.splits)

lemma resolve_validations_eq:
  "fold_proc (resolve_validation m) ids [] d =
    (case rmap (validation_at m) ids of Inl e \<Rightarrow> (Inl e, d) | Inr vs \<Rightarrow> (Inr vs, d))"
  by (subst fold_lookup [where f = "validation_at m"])
    (auto simp: resolve_validation_def and_then_def proc_simps validation_at_def split: option.splits sum.splits)

lemma next_validation_ids_returns: "\<exists>ids. next_validation_ids w r d = (Inr ids, d)"
  by (auto simp: next_validation_ids_def get_graph_node_def and_then_def proc_simps split: option.split)

lemma collect_routes:
  "\<exists>f'. fold_proc (collect_route w) rs f d = (Inr f', d) \<and>
    rf_node_ids f' = rf_node_ids f @ concat (map collect_route_node_ids rs)"
proof (induction rs arbitrary: f)
  case (Cons r rs)
  obtain ids where n: "next_validation_ids w r d = (Inr ids, d)" using next_validation_ids_returns by blast
  define f1 where "f1 = f\<lparr>rf_traceability := dict_put (rr_route_id r)
               \<lparr>rt_node_ids = collect_route_node_ids r, rt_version_id = rr_version_id r,
                rt_next_validation_node_id = rr_next_validation_node_id r\<rparr> (rf_traceability f),
             rf_node_ids := rf_node_ids f @ collect_route_node_ids r,
             rf_validation_ids := rf_validation_ids f @ ids\<rparr>"
  have c: "collect_route w r f d = (Inr f1, d)"
    by (simp add: collect_route_def and_then_def n proc_simps f1_def Let_def)
  obtain f' where "fold_proc (collect_route w) rs f1 d = (Inr f', d)"
      "rf_node_ids f' = rf_node_ids f1 @ concat (map collect_route_node_ids rs)"
    using Cons.IH by blast
  then show ?case by (simp add: and_then_def c f1_def)
qed (simp add: proc_simps)

section \<open>Gathering\<close>

definition validations_of :: "desk \<Rightarrow> string \<Rightarrow> (string \<times> validation_row) list" where
  "validations_of d w =
     dict_by vd_validation_id (map validation_view (sort_key vd_validation_id
       (filter (\<lambda>r. vd_workspace_id r = w) (validation_rows d))))"

text \<open>The three outcomes in the order of the code: a route, a node or a validation is refused.\<close>

lemma gather_cases:
  obtains (routes) e where "rmap (route_at d w) rids = Inl e" "gather w rids nids vids d = (Inl e, d)"
  | (nodes) rs e where "rmap (route_at d w) rids = Inr rs"
      "rmap (node_at d w) (dedupe_ids (nids @ concat (map collect_route_node_ids rs))) = Inl e"
      "gather w rids nids vids d = (Inl e, d)"
  | (validations) rs ns e where "rmap (route_at d w) rids = Inr rs"
      "rmap (node_at d w) (dedupe_ids (nids @ concat (map collect_route_node_ids rs))) = Inr ns"
      "rmap (validation_at (validations_of d w)) vids = Inl e" "gather w rids nids vids d = (Inl e, d)"
  | (all) rs ns vs g where "rmap (route_at d w) rids = Inr rs"
      "rmap (node_at d w) (dedupe_ids (nids @ concat (map collect_route_node_ids rs))) = Inr ns"
      "rmap (validation_at (validations_of d w)) vids = Inr vs" "gather w rids nids vids d = (Inr g, d)"
      "gd_routes g = rs" "gd_nodes g = ns"
proof (cases "rmap (route_at d w) rids")
  case (Inl e)
  then show thesis by (intro routes) (simp_all add: gather_def and_then_def resolve_routes_eq)
next
  case r: (Inr rs)
  obtain f where f: "fold_proc (collect_route w) rs no_facts d = (Inr f, d)"
      "rf_node_ids f = concat (map collect_route_node_ids rs)"
    using collect_routes [of w rs no_facts d] by (auto simp: no_facts_def)
  let ?ids = "dedupe_ids (nids @ concat (map collect_route_node_ids rs))"
  show thesis
  proof (cases "rmap (node_at d w) ?ids")
    case (Inl e)
    with r show thesis by (intro nodes) (simp_all add: gather_def and_then_def resolve_routes_eq resolve_nodes_eq f)
  next
    case n: (Inr ns)
    show thesis
    proof (cases "rmap (validation_at (validations_of d w)) vids")
      case (Inl e)
      with r n show thesis
        by (intro validations) (simp_all add: gather_def and_then_def resolve_routes_eq resolve_nodes_eq
          resolve_validations_eq list_validations_def proc_simps f Let_def flip: validations_of_def)
    next
      case (Inr vs)
      with r n show thesis
        by (intro all) (simp_all add: gather_def and_then_def resolve_routes_eq resolve_nodes_eq
          resolve_validations_eq list_validations_def proc_simps f Let_def flip: validations_of_def)
    qed
  qed
qed

lemma rmap_keys:
  assumes "rmap f xs = Inr ys" and "\<And>x y. f x = Inr y \<Longrightarrow> key y = x"
  shows "map key ys = xs"
  using assms(1) by (induction xs arbitrary: ys) (auto simp: rbind_Inr_iff assms(2))

lemma rmap_result_from: "rmap f xs = Inr ys \<Longrightarrow> y \<in> set ys \<Longrightarrow> \<exists>x \<in> set xs. f x = Inr y"
  by (induction xs arbitrary: ys) (auto simp: rbind_Inr_iff)

lemma rmap_Inr_iff: "(\<exists>ys. rmap f xs = Inr ys) \<longleftrightarrow> (\<forall>x \<in> set xs. \<exists>y. f x = Inr y)"
  by (induction xs) (auto simp: rbind_Inr_iff)

lemma rmap_Inl_set: "rmap f xs = Inl e \<Longrightarrow> \<exists>x \<in> set xs. f x = Inl e"
  by (induction xs) (auto simp: rbind_Inl_iff)

lemma route_at_Inr: "route_at d w i = Inr r \<Longrightarrow> rr_route_id r = i \<and> rr_workspace_id r = w \<and>
    (\<exists>q \<in> set (route_rows (dk_store d)). r = route_view_of q)"
  by (auto simp: route_at_def dest: select_key_Some split: option.splits if_splits)

lemma node_at_Inr: "node_at d w i = Inr n \<Longrightarrow> nd_node_id n = i \<and> nd_workspace_id n = w \<and>
    (\<exists>m \<in> set (node_rows (dk_store d)). n = node_view m)"
  by (auto simp: node_at_def dest: select_key_Some split: option.splits if_splits)

text \<open>A refusal is an exception of the service.\<close>

lemma gather_refuses:
  assumes "gather w rids nids vids d = (Inl e, d')"
  shows "d' = d \<and> (\<exists>code kind msg det. e = ServiceError code kind msg det)"
  by (cases rule: gather_cases [of d w rids nids vids])
    (use assms in \<open>auto simp: route_at_def node_at_def validation_at_def dest!: rmap_Inl_set split: option.splits if_splits\<close>)

end
