(* ===== verification/PackageProps.thy ===== *)
theory PackageProps
  imports PackageGather
begin

text \<open>
  What a build stores: a snapshot whose routes only refer to nodes in it, without private
  dependencies, and nothing else; and when it is refused.
\<close>

section \<open>The log\<close>

definition desk_logs :: "desk \<Rightarrow> desk \<Rightarrow> bool" where
  "desk_logs d d' \<longleftrightarrow> (\<exists>es n t. drawn (dk_store d) \<le> n \<and>
     d' = d\<lparr>dk_store := (dk_store d)\<lparr>drawn := n, ticks := t, event_rows := event_rows (dk_store d) @ es\<rparr>\<rparr>)"

lemma desk_logsI:
  "drawn (dk_store d) \<le> n \<Longrightarrow>
     desk_logs d (d\<lparr>dk_store := (dk_store d)\<lparr>drawn := n, ticks := t, event_rows := event_rows (dk_store d) @ es\<rparr>\<rparr>)"
  by (auto simp: desk_logs_def)

interpretation logging: evolution desk_logs
proof unfold_locales
  show "desk_logs d d" for d
    using desk_logsI [of d "drawn (dk_store d)" "[]" "ticks (dk_store d)"] by simp
  show "desk_logs d d''" if "desk_logs d d'" "desk_logs d' d''" for d d' d''
  proof -
    from that(1) obtain es n t where 1: "drawn (dk_store d) \<le> n"
        "d' = d\<lparr>dk_store := (dk_store d)\<lparr>drawn := n, ticks := t, event_rows := event_rows (dk_store d) @ es\<rparr>\<rparr>"
      by (auto simp: desk_logs_def)
    from that(2) obtain es' n' t' where 2: "n \<le> n'"
        "d'' = d'\<lparr>dk_store := (dk_store d')\<lparr>drawn := n', ticks := t', event_rows := event_rows (dk_store d') @ es'\<rparr>\<rparr>"
      by (auto simp: desk_logs_def 1)
    have "d'' = d\<lparr>dk_store := (dk_store d)\<lparr>drawn := n', ticks := t', event_rows := event_rows (dk_store d) @ (es @ es')\<rparr>\<rparr>"
      by (simp add: 1 2)
    then show ?thesis using 1(1) 2(1) desk_logsI [of d n'] by (metis order_trans)
  qed
qed

lemma desk_logs_keeps:
  assumes "desk_logs d d'"
  shows "node_rows (dk_store d') = node_rows (dk_store d)" "route_rows (dk_store d') = route_rows (dk_store d)"
    "hex_supply (dk_store d') = hex_supply (dk_store d)" "drawn (dk_store d) \<le> drawn (dk_store d')"
    "package_rows d' = package_rows d" "publish_rows d' = publish_rows d" "validation_rows d' = validation_rows d"
  using assms by (auto simp: desk_logs_def)

lemma desk_logs_event: "in_desk (emit_event args) d = (r, d') \<Longrightarrow> desk_logs d d'"
proof -
  assume e: "in_desk (emit_event args) d = (r, d')"
  obtain r1 s1 where s: "emit_event args (dk_store d) = (r1, s1)" by (cases "emit_event args (dk_store d)")
  then show ?thesis
  proof (cases rule: emit_event_cases)
    case taken
    then show ?thesis
      using e s desk_logsI [of d "Suc (drawn (dk_store d))" "[]" "Suc (ticks (dk_store d))"] by (simp add: in_desk_def)
  next
    case (added x)
    then show ?thesis
      using e s desk_logsI [of d "Suc (drawn (dk_store d))" "[x]" "Suc (ticks (dk_store d))"] by (simp add: in_desk_def)
  qed
qed

lemma always_event: "always desk_logs (in_desk (emit_event args))"
  unfolding always_def by (metis desk_logs_event prod.collapse)

lemma always_gen_id: "always desk_logs (in_desk (gen_id p))"
proof -
  have "desk_logs d (snd (in_desk (gen_id p) d))" for d
    using desk_logsI [of d "Suc (drawn (dk_store d))" "[]" "ticks (dk_store d)"] by (simp add: in_desk_def gen_id_def)
  then show ?thesis by (simp add: always_def)
qed

lemma always_now: "always desk_logs (in_desk now)"
proof -
  have "desk_logs d (snd (in_desk now d))" for d
    using desk_logsI [of d "drawn (dk_store d)" "[]" "Suc (ticks (dk_store d))"] by (simp add: in_desk_def now_def)
  then show ?thesis by (simp add: always_def)
qed

lemma always_failed: "always desk_logs (emit_package_failed n w q j st p e)"
  by (cases e) (simp_all add: emit_package_failed_def package_event_def always_event logging.always_ret)

section \<open>Gaps\<close>

definition gap_for :: "string \<Rightarrow> string \<Rightarrow> (string \<times> string list) list \<Rightarrow> string \<Rightarrow> node_row \<Rightarrow> snap_node \<times> dependency_flag" where
  "gap_for p w refs gap_id n =
     (let ids = (case map_of refs (nd_node_id n) of None \<Rightarrow> [] | Some ids \<Rightarrow> ids)
      in (gap_node p w gap_id ids n, dependency_flag_of gap_id ids n))"

definition gap_id_of :: "store \<Rightarrow> nat \<Rightarrow> string" where
  "gap_id_of s k = ''pkg_gap_'' @ hex_supply s k"

lemma gaps_loop:
  "fold_proc (replace_private p w refs) ns gaps d =
     (Inr (gaps @ map2 (gap_for p w refs) (map (gap_id_of (dk_store d)) [drawn (dk_store d)..<drawn (dk_store d) + length ns]) ns),
      d\<lparr>dk_store := (dk_store d)\<lparr>drawn := drawn (dk_store d) + length ns\<rparr>\<rparr>)"
proof (induction ns arbitrary: gaps d)
  case (Cons n ns)
  let ?s = "dk_store d"
  let ?d = "d\<lparr>dk_store := ?s\<lparr>drawn := Suc (drawn ?s)\<rparr>\<rparr>"
  have r: "replace_private p w refs n gaps d = (Inr (gaps @ [gap_for p w refs (gap_id_of ?s (drawn ?s)) n]), ?d)"
    by (simp add: replace_private_def and_then_def in_desk_def gen_id_def proc_simps gap_for_def gap_id_of_def Let_def)
  have "[drawn ?s..<drawn ?s + length (n # ns)] = drawn ?s # [Suc (drawn ?s)..<Suc (drawn ?s) + length ns]"
    by (simp add: upt_rec)
  moreover have "gap_id_of (?s\<lparr>drawn := k\<rparr>) = gap_id_of ?s" for k by (simp add: fun_eq_iff gap_id_of_def)
  ultimately show ?case using Cons.IH [of _ ?d] by (simp add: and_then_def r)
qed (simp add: proc_simps)

lemma map_of_replacement:
  "map_of (fold (\<lambda>f. dict_put (key f) (val f)) fs m) i =
     (case find (\<lambda>f. key f = i) (rev fs) of None \<Rightarrow> map_of m i | Some f \<Rightarrow> Some (val f))"
proof (induction fs rule: rev_induct)
  case (snoc f fs)
  then show ?case by auto
qed simp

lemma find_Some_member: "find P xs = Some x \<Longrightarrow> x \<in> set xs \<and> P x"
  by (induction xs) (auto split: if_splits)

lemma replaced_cases:
  obtains (public) "i \<notin> df_private_node_id ` set flags" "replaced (replacement_map_of flags) i = i"
  | (gap) f where "f \<in> set flags" "df_private_node_id f = i"
      "replaced (replacement_map_of flags) i = df_replacement_gap_node_id f"
proof (cases "find (\<lambda>f. df_private_node_id f = i) (rev flags)")
  case None
  then have "i \<notin> df_private_node_id ` set flags" by (auto simp: find_None_iff)
  with None show thesis by (intro public) (simp_all add: replaced_def replacement_map_of_def map_of_replacement)
next
  case (Some f)
  then have "f \<in> set (rev flags) \<and> df_private_node_id f = i" by (rule find_Some_member)
  with Some show thesis by (intro gap [of f]) (simp_all add: replaced_def replacement_map_of_def map_of_replacement)
qed

section \<open>Closed snapshots\<close>

text \<open>The nodes a route of the snapshot refers to.\<close>

definition route_refs :: "snap_route \<Rightarrow> string list" where
  "route_refs r = filter (\<lambda>i. i \<noteq> [])
     (st_route_node_ids r @ (case st_conclusion_node_id r of None \<Rightarrow> [] | Some i \<Rightarrow> [i]) @
      (case st_next_validation_node_id r of None \<Rightarrow> [] | Some i \<Rightarrow> [i]))"

definition neat_route :: "('a) route_row_scheme \<Rightarrow> bool" where
  "neat_route r \<longleftrightarrow> (\<forall>i \<in> set (rr_route_node_ids r) \<union> set_option (rr_conclusion_node_id r) \<union>
     set_option (rr_next_validation_node_id r). strip i = i)"

definition node_ids_of :: "package_snapshot \<Rightarrow> string list" where
  "node_ids_of ss = map sn_node_id (ss_nodes ss)"

lemma neat_ids_collected:
  assumes "neat_route r" "i \<noteq> []"
    and "i \<in> set (rr_route_node_ids r) \<union> set_option (rr_conclusion_node_id r) \<union>
      set_option (rr_next_validation_node_id r)"
  shows "i \<in> set (collect_route_node_ids r)"
proof -
  have "strip i = i" using assms(1,3) by (auto simp: neat_route_def)
  then show ?thesis
    using assms(2,3) by (force simp: collect_route_node_ids_def split: option.splits intro: image_eqI [of _ _ i])
qed

lemma snapshot_refs_closed:
  assumes "\<forall>r \<in> set (gd_routes g). set (collect_route_node_ids r) \<subseteq> nd_node_id ` set (gd_nodes g) \<and> neat_route r"
    and priv: "map (df_private_node_id \<circ> snd) gaps = map nd_node_id (filter is_private (gd_nodes g))"
    and ids: "\<forall>(n, f) \<in> set gaps. sn_node_id n = df_replacement_gap_node_id f \<and> strip (sn_node_id n) = sn_node_id n"
    and blank: "[] \<notin> nd_node_id ` set (gd_nodes g)"
    and r: "r \<in> set (ss_routes (snapshot_of p w ti su g gaps))" "i \<in> set (route_refs r)"
  shows "i \<in> set (node_ids_of (snapshot_of p w ti su g gaps))"
proof -
  let ?flags = "map snd gaps" and ?ss = "snapshot_of p w ti su g gaps"
  let ?m = "replacement_map_of ?flags"
  have P: "df_private_node_id ` set ?flags = nd_node_id ` set (filter is_private (gd_nodes g))"
    using arg_cong [OF priv, of set] by (simp add: image_image)
  have nodes: "set (node_ids_of ?ss) = nd_node_id ` {n \<in> set (gd_nodes g). \<not> is_private n} \<union> sn_node_id ` set (map fst gaps)"
    by (auto simp: node_ids_of_def snapshot_of_def Let_def normalize_node_def)
  have "replaced ?m j = [] \<or> strip (replaced ?m j) = replaced ?m j \<and> replaced ?m j \<in> set (node_ids_of ?ss)"
    if j: "j = [] \<or> j \<in> nd_node_id ` set (gd_nodes g) \<and> strip j = j" for j
  proof (cases rule: replaced_cases [of j ?flags])
    case public
    then have "j \<notin> nd_node_id ` {n \<in> set (gd_nodes g). is_private n}" using P by auto
    then show ?thesis using j public(2) unfolding nodes by auto
  next
    case (gap f)
    then obtain n where "(n, f) \<in> set gaps" by auto
    then have "replaced ?m j = sn_node_id n" "strip (sn_node_id n) = sn_node_id n" "sn_node_id n \<in> sn_node_id ` set (map fst gaps)"
      using ids gap(3) by (auto intro!: image_eqI)
    then show ?thesis unfolding nodes by auto
  qed
  note R = this
  obtain q where q: "q \<in> set (gd_routes g)" "r = normalize_route ?m q"
    using r(1) by (auto simp: snapshot_of_def Let_def)
  then have n: "neat_route q" and c: "set (collect_route_node_ids q) \<subseteq> nd_node_id ` set (gd_nodes g)"
    using assms(1) by auto
  have J: "j = [] \<or> j \<in> nd_node_id ` set (gd_nodes g) \<and> strip j = j"
    if "j \<in> set (rr_route_node_ids q) \<union> set_option (rr_conclusion_node_id q) \<union> set_option (rr_next_validation_node_id q)" for j
    using neat_ids_collected [OF n _ that] c n that by (auto simp: neat_route_def)
  from r(2) consider j where "i \<noteq> []" "j \<in> set (rr_route_node_ids q)" "i = strip (replaced ?m j)"
    | j where "i \<noteq> []" "j \<in> set_option (rr_conclusion_node_id q)" "i = replaced ?m j"
    | j where "i \<noteq> []" "j \<in> set_option (rr_next_validation_node_id q)" "i = replaced ?m j"
    unfolding q(2) route_refs_def normalize_route_def by (auto split: option.splits)
  then show ?thesis
  proof cases
    case 1
    then show ?thesis using R [OF J [of j]] by auto
  next
    case 2
    then show ?thesis using R [OF J [of j]] by auto
  next
    case 3
    then show ?thesis using R [OF J [of j]] by auto
  qed
qed

end
