(* ===== verification/PackageTheorems.thy ===== *)
theory PackageTheorems
  imports PackageProps
begin

text \<open>
  The properties of \<^verbatim>\<open>services/package_build_service.py\<close>: what a build stores and when it is refused,
  when a package is published, and what holds in every run of builds and publications.
\<close>

section \<open>Storing\<close>

lemma package_view_args [simp]:
  "package_view ((package_args q ss)\<lparr>pk_package_id := i, pk_created_at := c, pk_updated_at := u, pk_published_at := p\<rparr>) =
     (package_args q ss)\<lparr>pk_package_id := i, pk_created_at := c, pk_updated_at := u, pk_published_at := p\<rparr>"
  by (simp add: package_view_def package_args_def default_str_def)

lemma create_package_cases:
  assumes "create_package (Some i) (package_args q ss) d = (r, d')" "i \<noteq> []"
  obtains (taken) k where "r = Inl (IntegrityError k)" "desk_logs d d'" "i \<in> pk_package_id ` set (package_rows d)"
  | (added) row d1 t where "r = Inr (Some row)" "desk_logs d d1" "d' = d1\<lparr>package_rows := package_rows d @ [row]\<rparr>"
      "row = (package_args q ss)\<lparr>pk_package_id := i, pk_created_at := Some t, pk_updated_at := Some t, pk_published_at := None\<rparr>"
      "i \<notin> pk_package_id ` set (package_rows d)"
proof -
  obtain t d1 where n: "in_desk now d = (Inr t, d1)" by (simp add: in_desk_def now_def)
  then have l: "desk_logs d d1" using alwaysD_eq [OF always_now] by blast
  let ?row = "(package_args q ss)\<lparr>pk_package_id := i, pk_created_at := Some t, pk_updated_at := Some t, pk_published_at := None\<rparr>"
  show thesis
  proof (cases "i \<in> pk_package_id ` set (package_rows d)")
    case True
    then have "r = Inl (IntegrityError i)" "d' = d1"
      using assms by (simp_all add: create_package_def and_then_def proc_simps n insert_row_def desk_logs_keeps [OF l])
    then show thesis using taken l True by simp
  next
    case False
    have u: "package_rows_update (\<lambda>rs. rs @ [?row]) d1 = d1\<lparr>package_rows := package_rows d @ [?row]\<rparr>"
      using desk_logs_keeps(5) [OF l] by (cases d1) simp
    have "r = Inr (Some ?row)" "d' = package_rows_update (\<lambda>rs. rs @ [?row]) d1"
      using assms False by (simp_all add: create_package_def and_then_def proc_simps n insert_row_def get_package_def
        desk_logs_keeps [OF l] select_key_append select_key_fresh)
    from added [OF this(1) l this(2) [unfolded u] refl False] show thesis .
  qed
qed

lemma desk_logs_package_rows:
  assumes "desk_logs d d'"
  shows "desk_logs (d\<lparr>package_rows := ps\<rparr>) (d'\<lparr>package_rows := ps\<rparr>)"
proof -
  from assms obtain es n t where "drawn (dk_store d) \<le> n"
      "d' = d\<lparr>dk_store := (dk_store d)\<lparr>drawn := n, ticks := t, event_rows := event_rows (dk_store d) @ es\<rparr>\<rparr>"
    by (auto simp: desk_logs_def)
  then show ?thesis using desk_logsI [of "d\<lparr>package_rows := ps\<rparr>" n es t] by (cases d) simp
qed

lemma on_error_Inr: "on_error m h s = (Inr a, s') \<Longrightarrow> m s = (Inr a, s')"
  by (auto simp: on_error_def split: prod.splits sum.splits)

section \<open>A build that returns\<close>

definition gaps_for :: "string \<Rightarrow> string \<Rightarrow> gathered \<Rightarrow> store \<Rightarrow> (snap_node \<times> dependency_flag) list" where
  "gaps_for p w g s =
     (let ns = filter is_private (gd_nodes g)
      in map2 (gap_for p w (build_route_refs_by_node (gd_traceability g)))
           (map (gap_id_of s) [drawn s..<drawn s + length ns]) ns)"

lemma build_attempt_returns:
  assumes "build_attempt w ti su rids nids vids q i d = (Inr p, d')" "i \<noteq> []"
  obtains g row t where "gather w rids nids vids d = (Inr g, d)" "p = Some row"
    "row = (package_args (Some q) (snapshot_of i w ti su g (gaps_for i w g (dk_store d))))
       \<lparr>pk_package_id := i, pk_created_at := Some t, pk_updated_at := Some t, pk_published_at := None\<rparr>"
    "desk_logs d (d'\<lparr>package_rows := package_rows d\<rparr>)" "package_rows d' = package_rows d @ [row]"
proof -
  obtain g where g: "gather w rids nids vids d = (Inr g, d)"
    using assms(1) by (cases rule: gather_cases [of d w rids nids vids]) (auto simp: build_attempt_def and_then_def)
  let ?s = "dk_store d"
  let ?d = "d\<lparr>dk_store := ?s\<lparr>drawn := drawn ?s + length (filter is_private (gd_nodes g))\<rparr>\<rparr>"
  let ?ss = "snapshot_of i w ti su g (gaps_for i w g ?s)"
  have dl: "desk_logs d ?d"
    using desk_logsI [of d "drawn ?s + length (filter is_private (gd_nodes g))" "[]" "ticks ?s"] by simp
  obtain r2 d2 where c: "create_package (Some i) (package_args (Some q) ?ss) ?d = (r2, d2)"
    by (cases "create_package (Some i) (package_args (Some q) ?ss) ?d")
  have loop: "fold_proc (replace_private i w (build_route_refs_by_node (gd_traceability g)))
      (filter is_private (gd_nodes g)) [] d = (Inr (gaps_for i w g ?s), ?d)"
    by (simp add: gaps_loop gaps_for_def Let_def)
  obtain package where r2: "r2 = Inr package" and e: "\<exists>args. in_desk (emit_event args) d2 = (Inr (), d')"
      and p: "p = package"
    using assms(1) unfolding build_attempt_def
    by (auto simp: and_then_def g loop c package_event_def ret_apply Let_def split: sum.splits prod.splits)
  from c assms(2) show thesis
  proof (cases rule: create_package_cases)
    case (added row d1 t)
    from e have l: "desk_logs d2 d'" using desk_logs_event by blast
    have "d1\<lparr>package_rows := package_rows d\<rparr> = d1" using desk_logs_keeps(5) [OF added(2)] by (cases d1) simp
    then have "desk_logs d1 (d'\<lparr>package_rows := package_rows d\<rparr>)"
      using desk_logs_package_rows [OF l, of "package_rows d"] by (simp add: added(3))
    then have "desk_logs ?d (d'\<lparr>package_rows := package_rows d\<rparr>)" by (rule logging.trans [OF added(2)])
    then have "desk_logs d (d'\<lparr>package_rows := package_rows d\<rparr>)" by (rule logging.trans [OF dl])
    moreover have "package_rows d' = package_rows d @ [row]" using desk_logs_keeps(5) [OF l] added(3) by simp
    moreover have "p = Some row" using added(1) r2 p by simp
    ultimately show thesis using that [OF g _ added(4)] by blast
  qed (use r2 in simp)
qed

text \<open>The package that a build stores, and that nothing but it and events are added.\<close>

definition package_built ::
  "string \<Rightarrow> string \<Rightarrow> string \<Rightarrow> string list \<Rightarrow> package_snapshot \<Rightarrow> package_row \<Rightarrow> desk \<Rightarrow> desk \<Rightarrow> bool"
where
  "package_built w ti su rids ss row d d' \<longleftrightarrow>
     pk_snapshot_payload row = Some ss \<and> pk_status row = ''draft'' \<and> pk_replay_ready row = Some True \<and>
     pk_workspace_id row = w \<and> pk_title row = ti \<and> pk_summary row = su \<and>
     pk_included_node_ids row = node_ids_of ss \<and> map st_route_id (ss_routes ss) = rids \<and>
     package_rows d' = package_rows d @ [row] \<and> desk_logs d (d'\<lparr>package_rows := package_rows d\<rparr>)"

definition snapshot_closed :: "desk \<Rightarrow> string list \<Rightarrow> package_snapshot \<Rightarrow> bool" where
  "snapshot_closed d nids ss \<longleftrightarrow>
     (\<forall>r \<in> set (ss_routes ss). set (route_refs r) \<subseteq> set (node_ids_of ss)) \<and>
     set nids \<subseteq> set (node_ids_of ss) \<union> df_private_node_id ` set (ss_private_dependency_flags ss) \<and>
     df_replacement_gap_node_id ` set (ss_private_dependency_flags ss) \<subseteq> set (node_ids_of ss) \<and>
     distinct (node_ids_of ss) \<and>
     (\<forall>n \<in> set (ss_nodes ss). sn_node_type n \<noteq> ''private_dependency'') \<and>
     (\<forall>i \<in> set (node_ids_of ss). \<forall>m. select_key nd_node_id i (node_rows (dk_store d)) = Some m \<longrightarrow> \<not> is_private m)"

lemma map2_right: "length xs = length ys \<Longrightarrow> map2 (\<lambda>x y. g y) xs ys = map g ys"
  and map2_left: "length xs = length ys \<Longrightarrow> map2 (\<lambda>x y. x) xs ys = xs"
  by (induction xs ys rule: list_induct2) auto

lemma gaps_for_fields:
  "map (df_private_node_id \<circ> snd) (gaps_for p w g s) = map nd_node_id (filter is_private (gd_nodes g))"
  "map (sn_node_id \<circ> fst) (gaps_for p w g s) =
     map (gap_id_of s) [drawn s..<drawn s + length (filter is_private (gd_nodes g))]"
  "\<forall>(n, f) \<in> set (gaps_for p w g s). sn_node_id n = df_replacement_gap_node_id f \<and> sn_node_type n = ''gap'' \<and>
     (\<exists>k \<ge> drawn s. sn_node_id n = gap_id_of s k)"
proof -
  let ?ns = "filter is_private (gd_nodes g)" and ?refs = "build_route_refs_by_node (gd_traceability g)"
  have p: "df_private_node_id (snd (gap_for p w ?refs i n)) = nd_node_id n"
      "sn_node_id (fst (gap_for p w ?refs i n)) = i" "sn_node_type (fst (gap_for p w ?refs i n)) = ''gap''"
      "df_replacement_gap_node_id (snd (gap_for p w ?refs i n)) = i" for i n
    by (simp_all add: gap_for_def gap_node_def dependency_flag_of_def Let_def)
  have l: "length (map (gap_id_of s) [drawn s..<drawn s + length ?ns]) = length ?ns" by simp
  have m: "map f (gaps_for p w g s) = map2 (\<lambda>i n. f (gap_for p w ?refs i n)) (map (gap_id_of s) [drawn s..<drawn s + length ?ns]) ?ns"
    for f :: "snap_node \<times> dependency_flag \<Rightarrow> string"
    by (auto simp: gaps_for_def Let_def)
  show "map (df_private_node_id \<circ> snd) (gaps_for p w g s) = map nd_node_id ?ns"
    unfolding m o_def p by (rule map2_right [OF l])
  show "map (sn_node_id \<circ> fst) (gaps_for p w g s) = map (gap_id_of s) [drawn s..<drawn s + length ?ns]"
    unfolding m o_def p by (rule map2_left [OF l])
  show "\<forall>(n, f) \<in> set (gaps_for p w g s). sn_node_id n = df_replacement_gap_node_id f \<and> sn_node_type n = ''gap'' \<and>
     (\<exists>k \<ge> drawn s. sn_node_id n = gap_id_of s k)"
  proof safe
    fix n f assume "(n, f) \<in> set (gaps_for p w g s)"
    then obtain i q where "(n, f) = gap_for p w ?refs i q" and i: "i \<in> gap_id_of s ` {drawn s..<drawn s + length ?ns}"
      unfolding gaps_for_def Let_def by (auto dest: set_zip_leftD)
    then have n: "n = fst (gap_for p w ?refs i q)" "f = snd (gap_for p w ?refs i q)" by (metis fst_conv snd_conv)+
    show "sn_node_id n = df_replacement_gap_node_id f" "sn_node_type n = ''gap''" unfolding n p by simp_all
    show "\<exists>k \<ge> drawn s. sn_node_id n = gap_id_of s k" using i unfolding n p by auto
  qed
qed

lemma node_at_lookup:
  "node_at d w i = Inr n \<Longrightarrow> nd_node_id n = i \<and>
     (\<exists>m. select_key nd_node_id i (node_rows (dk_store d)) = Some m \<and> (is_private n \<longleftrightarrow> is_private m))"
  by (auto simp: node_at_def is_private_def dest: select_key_Some split: option.splits if_splits)

lemma gathered_nodes:
  assumes "rmap (node_at d w) (dedupe_ids ids) = Inr ns"
  shows "map nd_node_id ns = dedupe_ids ids"
    and "n \<in> set ns \<Longrightarrow> select_key nd_node_id (nd_node_id n) (node_rows (dk_store d)) = Some m \<Longrightarrow>
      is_private m \<longleftrightarrow> is_private n"
proof -
  show "map nd_node_id ns = dedupe_ids ids" using rmap_keys [OF assms] node_at_lookup by blast
  show "is_private m \<longleftrightarrow> is_private n"
    if "n \<in> set ns" "select_key nd_node_id (nd_node_id n) (node_rows (dk_store d)) = Some m"
    using rmap_result_from [OF assms that(1)] node_at_lookup that(2) by fastforce
qed

lemma snapshot_fields:
  "node_ids_of (snapshot_of p w ti su g gaps) =
     map nd_node_id (filter (\<lambda>n. \<not> is_private n) (gd_nodes g)) @ map (sn_node_id \<circ> fst) gaps"
  "ss_private_dependency_flags (snapshot_of p w ti su g gaps) = map snd gaps"
  "map st_route_id (ss_routes (snapshot_of p w ti su g gaps)) = map rr_route_id (gd_routes g)"
  "set (ss_nodes (snapshot_of p w ti su g gaps)) =
     normalize_node ` {n \<in> set (gd_nodes g). \<not> is_private n} \<union> fst ` set gaps"
  by (auto simp: node_ids_of_def snapshot_of_def Let_def normalize_node_def normalize_route_def)

lemma distinct_gap_ids: "inj (hex_supply s) \<Longrightarrow> distinct (map (gap_id_of s) [m..<n])"
  by (auto simp: distinct_map inj_on_def gap_id_of_def dest: injD)

lemma snapshot_of_closed:
  assumes ns: "rmap (node_at d w) (dedupe_ids (nids @ concat (map collect_route_node_ids (gd_routes g)))) = Inr (gd_nodes g)"
    and neat: "\<forall>r \<in> set (gd_routes g). neat_route r"
    and u: "unused ''pkg_gap'' (nd_node_id ` set (node_rows (dk_store d))) (dk_store d)"
    and hex: "\<forall>k. strip (gap_id_of (dk_store d) k) = gap_id_of (dk_store d) k"
    and s: "hex_supply s = hex_supply (dk_store d)" "drawn (dk_store d) \<le> drawn s"
    and nids: "nids = dedupe_ids ids"
  shows "snapshot_closed d nids (snapshot_of p w ti su g (gaps_for p w g s))"
proof -
  let ?gaps = "gaps_for p w g s" and ?all = "nids @ concat (map collect_route_node_ids (gd_routes g))"
  let ?ss = "snapshot_of p w ti su g ?gaps"
  have gd: "map nd_node_id (gd_nodes g) = dedupe_ids ?all" by (rule gathered_nodes(1) [OF ns])
  have gid: "gap_id_of s k = gap_id_of (dk_store d) k" for k by (simp add: gap_id_of_def s(1))
  have fresh: "select_key nd_node_id (gap_id_of s k) (node_rows (dk_store d)) = None" if "drawn s \<le> k" for k
  proof (rule select_key_fresh)
    have "drawn (dk_store d) \<le> k" using s(2) that by simp
    then show "gap_id_of s k \<notin> nd_node_id ` set (node_rows (dk_store d))"
      using u unfolding unused_def gap_id_of_def s(1) by simp
  qed
  have found: "select_key nd_node_id (nd_node_id n) (node_rows (dk_store d)) \<noteq> None" if "n \<in> set (gd_nodes g)" for n
    using rmap_result_from [OF ns that] node_at_lookup by fastforce
  have ids: "set (dedupe_ids ?all) = nd_node_id ` set (gd_nodes g)" using arg_cong [OF gd, of set] by simp
  have collected: "set (collect_route_node_ids r) \<subseteq> nd_node_id ` set (gd_nodes g)" if "r \<in> set (gd_routes g)" for r
  proof -
    have "i \<in> set (dedupe_ids ?all)" if "i \<in> set (collect_route_node_ids r)" for i
    proof -
      have "strip i = i" "i \<noteq> []" using that unfolding collect_route_node_ids_def by auto
      moreover have "i \<in> set ?all" using that \<open>r \<in> set (gd_routes g)\<close> by auto
      ultimately show ?thesis unfolding set_dedupe_ids by (metis Diff_iff imageI singletonD)
    qed
    then show ?thesis unfolding ids by blast
  qed
  have gap: "\<exists>k \<ge> drawn s. i = gap_id_of s k" if "i \<in> (sn_node_id \<circ> fst) ` set ?gaps" for i
    using gaps_for_fields(3) [of p w g s] that by fastforce
  have P: "df_private_node_id ` set (map snd ?gaps) = nd_node_id ` {n \<in> set (gd_nodes g). is_private n}"
    using arg_cong [OF gaps_for_fields(1) [of p w g s], of set] by (simp add: image_image)
  have "set (route_refs r) \<subseteq> set (node_ids_of ?ss)" if "r \<in> set (ss_routes ?ss)" for r
  proof
    fix i assume i: "i \<in> set (route_refs r)"
    show "i \<in> set (node_ids_of ?ss)"
    proof (rule snapshot_refs_closed [OF _ gaps_for_fields(1) _ _ that i])
      show "\<forall>r \<in> set (gd_routes g). set (collect_route_node_ids r) \<subseteq> nd_node_id ` set (gd_nodes g) \<and> neat_route r"
        using collected neat by blast
      show "\<forall>(n, f) \<in> set ?gaps. sn_node_id n = df_replacement_gap_node_id f \<and> strip (sn_node_id n) = sn_node_id n"
      proof clarify
        fix n f assume "(n, f) \<in> set ?gaps"
        with gaps_for_fields(3) [of p w g s] obtain k where
          "sn_node_id n = df_replacement_gap_node_id f" "sn_node_id n = gap_id_of s k" by blast
        then show "sn_node_id n = df_replacement_gap_node_id f \<and> strip (sn_node_id n) = sn_node_id n"
          using spec [OF hex, of k] gid [of k] by simp
      qed
      show "[] \<notin> nd_node_id ` set (gd_nodes g)" unfolding ids [symmetric] by simp
    qed
  qed
  moreover have "set nids \<subseteq> set (node_ids_of ?ss) \<union> df_private_node_id ` set (ss_private_dependency_flags ?ss)"
  proof
    fix i assume "i \<in> set nids"
    moreover from this have "strip i = i" "i \<noteq> []" unfolding nids by auto
    ultimately have "i \<in> set (dedupe_ids ?all)"
      unfolding set_dedupe_ids set_append by (metis Diff_iff UnI1 imageI singletonD)
    then have "i \<in> nd_node_id ` set (gd_nodes g)" unfolding ids .
    then show "i \<in> set (node_ids_of ?ss) \<union> df_private_node_id ` set (ss_private_dependency_flags ?ss)"
      unfolding snapshot_fields P by auto
  qed
  moreover have "df_replacement_gap_node_id ` set (ss_private_dependency_flags ?ss) \<subseteq> set (node_ids_of ?ss)"
  proof -
    have "df_replacement_gap_node_id ` set (map snd ?gaps) = (sn_node_id \<circ> fst) ` set ?gaps"
      using gaps_for_fields(3) [of p w g s] by (force simp: image_image intro: image_cong)
    then show ?thesis unfolding snapshot_fields by auto
  qed
  moreover have "distinct (node_ids_of ?ss)"
  proof -
    have "distinct (map nd_node_id (filter (\<lambda>n. \<not> is_private n) (gd_nodes g)))"
      using gd distinct_dedupe_ids [of ?all] by (metis distinct_map_filter)
    moreover have "distinct (map (sn_node_id \<circ> fst) ?gaps)"
      unfolding gaps_for_fields using u s(1) by (intro distinct_gap_ids) (simp add: unused_def)
    moreover have "nd_node_id n \<notin> (sn_node_id \<circ> fst) ` set ?gaps" if "n \<in> set (gd_nodes g)" for n
      using gap found [OF that] fresh by metis
    ultimately show ?thesis unfolding snapshot_fields by auto
  qed
  moreover have "sn_node_type n \<noteq> ''private_dependency''" if "n \<in> set (ss_nodes ?ss)" for n
    using that gaps_for_fields(3) [of p w g s] unfolding snapshot_fields
    by (fastforce simp: normalize_node_def is_private_def)
  moreover have "\<not> is_private m"
    if i: "i \<in> set (node_ids_of ?ss)" and m: "select_key nd_node_id i (node_rows (dk_store d)) = Some m" for i m
  proof -
    from i consider n where "n \<in> set (gd_nodes g)" "\<not> is_private n" "i = nd_node_id n" | "i \<in> (sn_node_id \<circ> fst) ` set ?gaps"
      unfolding snapshot_fields by auto
    then show ?thesis
    proof cases
      case 1
      then show ?thesis using gathered_nodes(2) [OF ns, of n m] m by simp
    next
      case 2
      then show ?thesis using gap [OF 2] fresh m by auto
    qed
  qed
  ultimately show ?thesis unfolding snapshot_closed_def by blast
qed

section \<open>A build\<close>

definition build_start :: "string \<Rightarrow> string \<Rightarrow> string list \<Rightarrow> string list \<Rightarrow> string list \<Rightarrow> string \<Rightarrow> unit desk_proc" where
  "build_start w q rids nids vids i =
     package_event ''package_build_started'' w q None ''build'' ''started''
       [(''package_id'', VStr i), (''included_route_ids'', strs rids), (''included_node_ids'', strs nids),
        (''included_validation_ids'', strs vids)]
       [(''request_route_count'', int_len rids), (''request_node_count'', int_len nids),
        (''request_validation_count'', int_len vids)] None"

definition new_package_id :: "desk \<Rightarrow> string" where
  "new_package_id d = ''pkg_'' @ hex_supply (dk_store d) (drawn (dk_store d))"

definition nothing_requested :: api_error where
  "nothing_requested = ServiceError 400 ''research.invalid_request''
     ''package build requires at least one route/node/validation reference'' []"

lemma build_snapshot_cases:
  assumes "build_snapshot w ti su rids nids vids q d = (r, d')"
  obtains (blank) "rids = []" "nids = []" "vids = []" "r = Inl nothing_requested" "d' = d"
  | (started) r0 d0 d1 where "rids \<noteq> [] \<or> nids \<noteq> [] \<or> vids \<noteq> []"
      "d0 = d\<lparr>dk_store := (dk_store d)\<lparr>drawn := Suc (drawn (dk_store d))\<rparr>\<rparr>"
      "build_start w q (dedupe_ids rids) (dedupe_ids nids) (dedupe_ids vids) (new_package_id d) d0 = (r0, d1)"
      "case r0 of Inl e \<Rightarrow> r = Inl e \<and> d' = d1
       | Inr _ \<Rightarrow> on_error (build_attempt w ti su (dedupe_ids rids) (dedupe_ids nids) (dedupe_ids vids) q (new_package_id d))
           (emit_package_failed ''package_build_completed'' w q None ''build'' (new_package_id d)) d1 = (r, d')"
proof (cases "rids \<noteq> [] \<or> nids \<noteq> [] \<or> vids \<noteq> []")
  case False
  with assms show thesis
    by (intro blank) (simp_all add: build_snapshot_def and_then_def proc_simps nothing_requested_def)
next
  case True
  let ?d0 = "d\<lparr>dk_store := (dk_store d)\<lparr>drawn := Suc (drawn (dk_store d))\<rparr>\<rparr>"
  obtain r0 d1 where s: "build_start w q (dedupe_ids rids) (dedupe_ids nids) (dedupe_ids vids) (new_package_id d) ?d0 = (r0, d1)"
    by (cases "build_start w q (dedupe_ids rids) (dedupe_ids nids) (dedupe_ids vids) (new_package_id d) ?d0")
  have "in_desk (gen_id ''pkg'') d = (Inr (new_package_id d), ?d0)"
    by (simp add: in_desk_def gen_id_def new_package_id_def)
  then have "build_snapshot w ti su rids nids vids q d =
      and_then (build_start w q (dedupe_ids rids) (dedupe_ids nids) (dedupe_ids vids) (new_package_id d)) (\<lambda>_.
        on_error (build_attempt w ti su (dedupe_ids rids) (dedupe_ids nids) (dedupe_ids vids) q (new_package_id d))
           (emit_package_failed ''package_build_completed'' w q None ''build'' (new_package_id d))) ?d0"
    unfolding build_snapshot_def build_start_def Let_def using True by (simp add: and_then_def proc_simps)
  then show thesis
    using started [OF True refl s] assms by (simp add: and_then_def s split: sum.splits)
qed

lemma always_start: "always desk_logs (build_start w q rids nids vids i)"
  by (simp add: build_start_def package_event_def always_event)

lemma drawn_logs: "desk_logs d (d\<lparr>dk_store := (dk_store d)\<lparr>drawn := Suc (drawn (dk_store d))\<rparr>\<rparr>)"
  using desk_logsI [of d "Suc (drawn (dk_store d))" "[]" "ticks (dk_store d)"] by simp

text \<open>A build that returns: what was gathered from the rows, and the package.\<close>

lemma build_snapshot_returns:
  assumes "build_snapshot w ti su rids nids vids q d = (Inr p, d')"
  obtains g row d1 where "desk_logs d d1"
    "gather w (dedupe_ids rids) (dedupe_ids nids) (dedupe_ids vids) d1 = (Inr g, d1)" "p = Some row"
    "package_built w ti su (map rr_route_id (gd_routes g))
       (snapshot_of (new_package_id d) w ti su g (gaps_for (new_package_id d) w g (dk_store d1))) row d d'"
  using assms
proof (cases rule: build_snapshot_cases)
  case (started r0 d0 d1)
  let ?i = "new_package_id d"
  have l: "desk_logs d d1"
    using logging.trans [OF drawn_logs [of d, folded started(2)] alwaysD_eq [OF always_start started(3)]] .
  from started(4) have "build_attempt w ti su (dedupe_ids rids) (dedupe_ids nids) (dedupe_ids vids) q ?i d1 = (Inr p, d')"
    by (auto split: sum.splits dest: on_error_Inr)
  moreover have "?i \<noteq> []" by (simp add: new_package_id_def)
  ultimately show thesis
  proof (cases rule: build_attempt_returns)
    case (1 g row t)
    let ?ss = "snapshot_of ?i w ti su g (gaps_for ?i w g (dk_store d1))"
    have "desk_logs d (d'\<lparr>package_rows := package_rows d\<rparr>)"
      using logging.trans [OF l 1(4)] desk_logs_keeps(5) [OF l] by simp
    moreover have "package_rows d' = package_rows d @ [row]" using 1(5) desk_logs_keeps(5) [OF l] by simp
    moreover have "map st_route_id (ss_routes ?ss) = map rr_route_id (gd_routes g)" by (rule snapshot_fields(3))
    ultimately have "package_built w ti su (map rr_route_id (gd_routes g)) ?ss row d d'"
      unfolding package_built_def by (simp add: 1(3) package_args_def node_ids_of_def snapshot_of_def Let_def)
    then show thesis by (rule that [OF l 1(1,2)])
  qed
qed simp

text \<open>
  C11: the snapshot of a package that was built is closed: its routes are the requested ones, they only refer to
  nodes in it, every requested node is in it or replaced by a gap in it, no node repeats, and none of
  them is a private dependency. The package is a draft, and nothing else changes but the log, as long as
  the ids in the routes and the ids drawn for the gaps have no white space at their ends and the latter
  are new.
\<close>

theorem built_snapshot_closed:
  assumes "build_snapshot w ti su rids nids vids q d = (Inr p, d')"
    and "\<forall>r \<in> set (route_rows (dk_store d)). neat_route r"
    and "unused ''pkg_gap'' (nd_node_id ` set (node_rows (dk_store d))) (dk_store d)"
    and "\<forall>k. strip (gap_id_of (dk_store d) k) = gap_id_of (dk_store d) k"
  shows "\<exists>row ss. p = Some row \<and> package_built w ti su (dedupe_ids rids) ss row d d' \<and>
    snapshot_closed d (dedupe_ids nids) ss"
proof -
  obtain g row d1 where l: "desk_logs d d1" and
      g: "gather w (dedupe_ids rids) (dedupe_ids nids) (dedupe_ids vids) d1 = (Inr g, d1)" and p: "p = Some row" and
      b: "package_built w ti su (map rr_route_id (gd_routes g))
        (snapshot_of (new_package_id d) w ti su g (gaps_for (new_package_id d) w g (dk_store d1))) row d d'"
    by (rule build_snapshot_returns [OF assms(1)])
  from g obtain rs where rs: "rmap (route_at d1 w) (dedupe_ids rids) = Inr rs" "gd_routes g = rs"
    and ns: "rmap (node_at d1 w) (dedupe_ids (dedupe_ids nids @ concat (map collect_route_node_ids rs))) = Inr (gd_nodes g)"
    by (cases rule: gather_cases [of d1 w "dedupe_ids rids" "dedupe_ids nids" "dedupe_ids vids"]) auto
  have at: "node_at d1 w = node_at d w" by (simp add: fun_eq_iff node_at_def desk_logs_keeps [OF l])
  have "neat_route r" if "r \<in> set rs" for r
    using rmap_result_from [OF rs(1) that] route_at_Inr assms(2)
    by (fastforce simp: neat_route_def desk_logs_keeps [OF l])
  then have "snapshot_closed d (dedupe_ids nids)
      (snapshot_of (new_package_id d) w ti su g (gaps_for (new_package_id d) w g (dk_store d1)))"
    using snapshot_of_closed [OF _ _ assms(3,4) desk_logs_keeps(3,4) [OF l] refl] ns rs(2) at by simp
  moreover have "map rr_route_id (gd_routes g) = dedupe_ids rids"
    using rmap_keys [OF rs(1)] route_at_Inr rs(2) by blast
  ultimately show ?thesis using b p by auto
qed

end
