(* ===== verification/PackageReturns.thy ===== *)
theory PackageReturns
  imports PackageTheorems
begin

text \<open>
  When a build is refused, when a package is published, and that a package is published at most once.
\<close>

section \<open>Events that are written\<close>

lemma event_written:
  assumes "fresh_ids (dk_store d)"
  obtains d' where "in_desk (emit_event args) d = (Inr (), d')" "fresh_ids (dk_store d')" "desk_logs d d'"
proof -
  from never_raisesE [OF emit_event_never_raises assms] obtain u s' where
    "emit_event args (dk_store d) = (Inr u, s')" "fresh_ids s'" by blast
  then have e: "in_desk (emit_event args) d = (Inr (), d\<lparr>dk_store := s'\<rparr>)" by (simp add: in_desk_def)
  show thesis by (rule that [OF e _ desk_logs_event [OF e]]) (simp add: \<open>fresh_ids s'\<close>)
qed

lemma fresh_drawn: "fresh_ids s \<Longrightarrow> drawn s \<le> n \<Longrightarrow> fresh_ids (s\<lparr>drawn := n\<rparr>)"
  by (erule fresh_ids_step) simp_all

section \<open>What can be built\<close>

definition node_present :: "desk \<Rightarrow> string \<Rightarrow> string \<Rightarrow> bool" where
  "node_present d w i \<longleftrightarrow> (\<exists>n. select_key nd_node_id i (node_rows (dk_store d)) = Some n \<and> nd_workspace_id n = w)"

definition requestable :: "string \<Rightarrow> string list \<Rightarrow> string list \<Rightarrow> string list \<Rightarrow> desk \<Rightarrow> bool" where
  "requestable w rids nids vids d \<longleftrightarrow>
     (\<forall>i \<in> set rids. \<exists>r. select_key rr_route_id i (route_rows (dk_store d)) = Some r \<and> rr_workspace_id r = w \<and>
        (\<forall>j \<in> set (collect_route_node_ids (route_view_of r)). node_present d w j)) \<and>
     (\<forall>j \<in> set nids. node_present d w j) \<and>
     (\<forall>v \<in> set vids. \<exists>x \<in> set (validation_rows d). vd_validation_id x = v \<and> vd_workspace_id x = w)"

lemma route_at_ok: "(\<exists>r. route_at d w i = Inr r) \<longleftrightarrow>
    (\<exists>q. select_key rr_route_id i (route_rows (dk_store d)) = Some q \<and> rr_workspace_id q = w)"
  by (auto simp: route_at_def split: option.splits)

lemma node_at_ok: "(\<exists>n. node_at d w i = Inr n) \<longleftrightarrow> node_present d w i"
  by (auto simp: node_at_def node_present_def split: option.splits)

lemma dict_by_keys: "dom (map_of (fold (\<lambda>x. dict_put (key x) x) xs m)) = key ` set xs \<union> dom (map_of m)"
  by (induction xs arbitrary: m) auto

lemma validation_at_ok: "(\<exists>x. validation_at (validations_of d w) v = Inr x) \<longleftrightarrow>
    (\<exists>x \<in> set (validation_rows d). vd_validation_id x = v \<and> vd_workspace_id x = w)"
proof -
  have "(\<exists>x. validation_at (validations_of d w) v = Inr x) \<longleftrightarrow> v \<in> dom (map_of (validations_of d w))"
    by (auto simp: validation_at_def split: option.splits)
  also have "\<dots> \<longleftrightarrow> v \<in> vd_validation_id ` {r \<in> set (validation_rows d). vd_workspace_id r = w}"
    by (auto simp: validations_of_def dict_by_def dict_by_keys validation_view_def image_image)
  finally show ?thesis by auto
qed

lemma rmap_Inr_image: "rmap f xs = Inr ys \<Longrightarrow> set ys = {y. \<exists>x \<in> set xs. f x = Inr y}"
  by (induction xs arbitrary: ys) (auto simp: rbind_Inr_iff)

lemma neat_image:
  assumes "\<forall>i \<in> A. strip i = i \<and> i \<noteq> []"
  shows "strip ` A - {[]} = A"
proof -
  have "strip ` A = A" using image_cong [of A A strip id] assms by simp
  then show ?thesis using assms by auto
qed

lemma requestable_iff:
  assumes "\<forall>i \<in> set nids. strip i = i \<and> i \<noteq> []"
  shows "requestable w rids nids vids d \<longleftrightarrow>
    (\<exists>rs ns vs. rmap (route_at d w) rids = Inr rs \<and>
      rmap (node_at d w) (dedupe_ids (nids @ concat (map collect_route_node_ids rs))) = Inr ns \<and>
      rmap (validation_at (validations_of d w)) vids = Inr vs)"
proof -
  have nodes: "(\<exists>ns. rmap (node_at d w) (dedupe_ids (nids @ concat (map collect_route_node_ids rs))) = Inr ns) \<longleftrightarrow>
      (\<forall>j \<in> set nids. node_present d w j) \<and> (\<forall>r \<in> set rs. \<forall>j \<in> set (collect_route_node_ids r). node_present d w j)"
    for rs
  proof -
    have "strip i = i \<and> i \<noteq> []" if "i \<in> set (collect_route_node_ids r)" for i and r :: route_view
      using that by (auto simp: collect_route_node_ids_def)
    then have "\<forall>i \<in> set (nids @ concat (map collect_route_node_ids rs)). strip i = i \<and> i \<noteq> []"
      using assms by auto
    from neat_image [OF this] have "set (dedupe_ids (nids @ concat (map collect_route_node_ids rs))) =
        set (nids @ concat (map collect_route_node_ids rs))"
      by (simp only: set_dedupe_ids)
    then have "set (dedupe_ids (nids @ concat (map collect_route_node_ids rs))) =
        set nids \<union> (\<Union>r \<in> set rs. set (collect_route_node_ids r))" by simp
    then show ?thesis unfolding rmap_Inr_iff node_at_ok by blast
  qed
  show ?thesis
  proof (cases "\<exists>rs. rmap (route_at d w) rids = Inr rs")
    case True
    then obtain rs where rs: "rmap (route_at d w) rids = Inr rs" ..
    have "set rs = {r. \<exists>i \<in> set rids. route_at d w i = Inr r}"
      by (rule rmap_Inr_image [OF rs])
    moreover have "route_at d w i = Inr r \<longleftrightarrow>
        (\<exists>q. select_key rr_route_id i (route_rows (dk_store d)) = Some q \<and> rr_workspace_id q = w \<and> r = route_view_of q)" for i r
      by (auto simp: route_at_def split: option.splits)
    ultimately have image: "set rs = {r. \<exists>i \<in> set rids. \<exists>q. select_key rr_route_id i (route_rows (dk_store d)) = Some q \<and>
        rr_workspace_id q = w \<and> r = route_view_of q}" by simp
    note found = True [unfolded rmap_Inr_iff route_at_ok]
    have part: "(\<forall>i \<in> set rids. \<exists>r. select_key rr_route_id i (route_rows (dk_store d)) = Some r \<and> rr_workspace_id r = w \<and>
        (\<forall>j \<in> set (collect_route_node_ids (route_view_of r)). node_present d w j)) \<longleftrightarrow>
      (\<forall>r \<in> set rs. \<forall>j \<in> set (collect_route_node_ids r). node_present d w j)" (is "?L = ?R")
    proof
      show ?R if ?L using that unfolding image by fastforce
      show ?L if ?R
      proof
        fix i assume i: "i \<in> set rids"
        with found obtain q where q: "select_key rr_route_id i (route_rows (dk_store d)) = Some q" "rr_workspace_id q = w"
          by blast
        then have "route_view_of q \<in> set rs" unfolding image using i by blast
        with that q show "\<exists>r. select_key rr_route_id i (route_rows (dk_store d)) = Some r \<and> rr_workspace_id r = w \<and>
            (\<forall>j \<in> set (collect_route_node_ids (route_view_of r)). node_present d w j)" by blast
      qed
    qed
    have "(\<exists>vs. rmap (validation_at (validations_of d w)) vids = Inr vs) \<longleftrightarrow>
        (\<forall>v \<in> set vids. \<exists>x \<in> set (validation_rows d). vd_validation_id x = v \<and> vd_workspace_id x = w)"
      unfolding rmap_Inr_iff validation_at_ok ..
    then show ?thesis using nodes [of rs] rs unfolding requestable_def part by auto
  next
    case False
    then have "\<not> (\<forall>i \<in> set rids. \<exists>q. select_key rr_route_id i (route_rows (dk_store d)) = Some q \<and> rr_workspace_id q = w)"
      unfolding rmap_Inr_iff route_at_ok .
    then show ?thesis using False unfolding requestable_def by blast
  qed
qed

lemma requestable_logs: "desk_logs d d' \<Longrightarrow> requestable w rids nids vids d' \<longleftrightarrow> requestable w rids nids vids d"
  by (simp add: requestable_def node_present_def desk_logs_keeps)

section \<open>Builds that return\<close>

lemma gather_returns_iff:
  assumes "\<forall>i \<in> set nids. strip i = i \<and> i \<noteq> []"
  shows "(\<exists>g. gather w rids nids vids d = (Inr g, d)) \<longleftrightarrow> requestable w rids nids vids d"
  unfolding requestable_iff [OF assms] by (cases rule: gather_cases [of d w rids nids vids]) auto

lemma create_package_fresh:
  assumes "fresh_ids (dk_store d)" "i \<noteq> []" "i \<notin> pk_package_id ` set (package_rows d)"
  obtains row d' where "create_package (Some i) (package_args q ss) d = (Inr (Some row), d')" "fresh_ids (dk_store d')"
proof -
  obtain r d' where c: "create_package (Some i) (package_args q ss) d = (r, d')"
    by (cases "create_package (Some i) (package_args q ss) d")
  from c assms(2) show thesis
  proof (cases rule: create_package_cases)
    case (added row d1 t)
    have "dk_store d' = (dk_store d)\<lparr>ticks := Suc (ticks (dk_store d))\<rparr>"
      using c assms(2,3) by (auto simp: create_package_def and_then_def proc_simps in_desk_def now_def insert_row_def get_package_def)
    then have "fresh_ids (dk_store d')" using fresh_ids_tick [OF assms(1)] by simp
    then show thesis using that c added(1) by blast
  qed (use assms(3) in auto)
qed

lemma build_attempt_total:
  assumes "gather w rids nids vids d = (Inr g, d)" "fresh_ids (dk_store d)"
    and "i \<noteq> []" "i \<notin> pk_package_id ` set (package_rows d)"
  shows "\<exists>p d'. build_attempt w ti su rids nids vids q i d = (Inr p, d')"
proof -
  let ?s = "dk_store d"
  let ?d = "d\<lparr>dk_store := ?s\<lparr>drawn := drawn ?s + length (filter is_private (gd_nodes g))\<rparr>\<rparr>"
  let ?ss = "snapshot_of i w ti su g (gaps_for i w g ?s)"
  have loop: "fold_proc (replace_private i w (build_route_refs_by_node (gd_traceability g)))
      (filter is_private (gd_nodes g)) [] d = (Inr (gaps_for i w g ?s), ?d)"
    by (simp add: gaps_loop gaps_for_def Let_def)
  have "fresh_ids (dk_store ?d)" using fresh_drawn [OF assms(2)] by simp
  then obtain row d2 where c: "create_package (Some i) (package_args (Some q) ?ss) ?d = (Inr (Some row), d2)" "fresh_ids (dk_store d2)"
    using create_package_fresh [of ?d i "Some q" ?ss] assms(3,4) by auto
  obtain d3 where "package_event ''package_build_completed'' w q None ''build'' ''completed''
      [(''package_id'', VStr i)]
      [(''included_route_count'', int_len (ss_routes ?ss)), (''included_node_count'', int_len (ss_nodes ?ss)),
       (''included_validation_count'', int_len (ss_validations ?ss)),
       (''private_dependency_count'', int_len (gaps_for i w g ?s)), (''public_gap_count'', int_len (gaps_for i w g ?s)),
       (''replay_ready'', VBool True)] None d2 = (Inr (), d3)"
    unfolding package_event_def by (rule event_written [OF c(2)])
  then show ?thesis
    unfolding build_attempt_def by (simp add: and_then_def assms(1) loop c(1) ret_apply Let_def)
qed

definition buildable :: "string \<Rightarrow> string list \<Rightarrow> string list \<Rightarrow> string list \<Rightarrow> desk \<Rightarrow> bool" where
  "buildable w rids nids vids d \<longleftrightarrow>
     (rids \<noteq> [] \<or> nids \<noteq> [] \<or> vids \<noteq> []) \<and>
     requestable w (dedupe_ids rids) (dedupe_ids nids) (dedupe_ids vids) d"

lemma start_written:
  assumes "build_start w q rids nids vids i d = (r, d1)" "fresh_ids (dk_store d)"
  shows "r = Inr () \<and> fresh_ids (dk_store d1) \<and> desk_logs d d1"
proof -
  obtain d2 where "build_start w q rids nids vids i d = (Inr (), d2)" "fresh_ids (dk_store d2)" "desk_logs d d2"
    unfolding build_start_def package_event_def by (rule event_written [OF assms(2)])
  then show ?thesis using assms(1) by simp
qed

text \<open>The attempt with its handler returns exactly when everything requested is there.\<close>

lemma attempt_settles:
  assumes "on_error (build_attempt w ti su rids nids vids q i)
      (emit_package_failed ''package_build_completed'' w q None ''build'' i) d = (r, d')"
    and "fresh_ids (dk_store d)" "i \<noteq> []" "i \<notin> pk_package_id ` set (package_rows d)"
    and "\<forall>i \<in> set nids. strip i = i \<and> i \<noteq> []"
  shows "case r of Inr p \<Rightarrow> requestable w rids nids vids d
    | Inl e \<Rightarrow> \<not> requestable w rids nids vids d \<and> desk_logs d d' \<and> (\<exists>code kind msg det. e = ServiceError code kind msg det)"
proof (cases "requestable w rids nids vids d")
  case True
  then obtain g where "gather w rids nids vids d = (Inr g, d)" using gather_returns_iff [OF assms(5)] by blast
  then obtain p d2 where "build_attempt w ti su rids nids vids q i d = (Inr p, d2)"
    using build_attempt_total [OF _ assms(2-4)] by blast
  then show ?thesis using assms(1) True by (auto simp: on_error_def)
next
  case False
  obtain r2 d2 where g: "gather w rids nids vids d = (r2, d2)" by (cases "gather w rids nids vids d")
  have "\<nexists>g. gather w rids nids vids d = (Inr g, d)" using False gather_returns_iff [OF assms(5)] by blast
  with g obtain e where e: "r2 = Inl e" by (cases rule: gather_cases [of d w rids nids vids]) auto
  with g gather_refuses obtain code kind msg det where se: "d2 = d" "e = ServiceError code kind msg det" by blast
  have m: "build_attempt w ti su rids nids vids q i d = (Inl e, d)" using g e se(1) by (simp add: build_attempt_def and_then_def)
  obtain d3 where "emit_package_failed ''package_build_completed'' w q None ''build'' i e d = (Inr (), d3)" "desk_logs d d3"
    unfolding se emit_package_failed_def package_event_def api_error.case by (rule event_written [OF assms(2)])
  then have "r = Inl e" "d' = d3" using assms(1) by (simp_all add: on_error_def m)
  then show ?thesis using False se(2) \<open>desk_logs d d3\<close> by simp
qed

text \<open>
  C12: a build returns exactly when something is requested, every requested route, node and
  validation is in the workspace and so is every node a requested route refers to. Otherwise the service
  raises an error of its own and nothing changes but the log.
\<close>

theorem build_returns_iff:
  assumes "fresh_ids (dk_store d)"
    and "unused ''pkg'' (pk_package_id ` set (package_rows d)) (dk_store d)"
  shows "case build_snapshot w ti su rids nids vids q d of
      (Inr p, d') \<Rightarrow> buildable w rids nids vids d
    | (Inl e, d') \<Rightarrow> \<not> buildable w rids nids vids d \<and> desk_logs d d' \<and>
        (\<exists>code kind msg det. e = ServiceError code kind msg det)"
proof -
  obtain r d' where b: "build_snapshot w ti su rids nids vids q d = (r, d')"
    by (cases "build_snapshot w ti su rids nids vids q d")
  then show ?thesis
  proof (cases rule: build_snapshot_cases)
    case blank
    then show ?thesis unfolding b by (simp add: buildable_def nothing_requested_def logging.refl)
  next
    case (started r0 d0 d1)
    let ?i = "new_package_id d"
    have "fresh_ids (dk_store d0)" using fresh_drawn [OF assms(1)] started(2) by simp
    with start_written [OF started(3)] have s: "r0 = Inr ()" "fresh_ids (dk_store d1)" "desk_logs d0 d1" by simp_all
    have l: "desk_logs d d1" using logging.trans [OF drawn_logs [of d, folded started(2)] s(3)] .
    have i: "?i \<noteq> []" "?i \<notin> pk_package_id ` set (package_rows d1)"
      using unused_next [OF assms(2)] by (simp_all add: new_package_id_def desk_logs_keeps [OF l])
    have neat: "\<forall>i \<in> set (dedupe_ids nids). strip i = i \<and> i \<noteq> []" by auto
    have run: "on_error (build_attempt w ti su (dedupe_ids rids) (dedupe_ids nids) (dedupe_ids vids) q ?i)
        (emit_package_failed ''package_build_completed'' w q None ''build'' ?i) d1 = (r, d')"
      using started(4) s(1) by simp
    have B: "buildable w rids nids vids d \<longleftrightarrow> requestable w (dedupe_ids rids) (dedupe_ids nids) (dedupe_ids vids) d1"
      using started(1) unfolding buildable_def by (simp add: requestable_logs [OF l])
    show ?thesis
      using attempt_settles [OF run s(2) i neat] logging.trans [OF l] unfolding b B by (auto split: sum.splits)
  qed
qed

end
