(* ===== verification/PackagePublish.thy ===== *)
theory PackagePublish
  imports PackageReturns
begin

text \<open>
  Publication: when it returns and what it stores, and an invariant of every run of builds and
  publications.
\<close>

section \<open>One publication\<close>

definition publishable :: "string \<Rightarrow> string \<Rightarrow> desk \<Rightarrow> bool" where
  "publishable w pid d \<longleftrightarrow>
     (\<exists>r. select_key pk_package_id pid (package_rows d) = Some r \<and> pk_workspace_id r = w \<and>
        pk_status r \<noteq> ''published'' \<and> pk_replay_ready r = Some True)"

text \<open>The result \<open>x\<close> of publishing the package \<open>r\<close>, and the row of the package afterwards.\<close>

definition publishes :: "string \<Rightarrow> package_row \<Rightarrow> publish_row \<Rightarrow> bool" where
  "publishes w r x \<longleftrightarrow>
     pp_package_id x = pk_package_id r \<and> pp_workspace_id x = w \<and>
     pp_published_snapshot x = pk_snapshot_payload r \<and> pp_boundary_notes x = pk_boundary_notes r \<and>
     Some (pp_snapshot_version x) = pk_snapshot_version (package_view r)"

definition mark_published :: "time \<Rightarrow> publish_row \<Rightarrow> package_row \<Rightarrow> package_row" where
  "mark_published t x r =
     r\<lparr>pk_status := ''published'', pk_updated_at := Some t, pk_published_at := Some (pp_published_at x)\<rparr>"

definition package_published :: "string \<Rightarrow> string \<Rightarrow> publish_row \<Rightarrow> desk \<Rightarrow> desk \<Rightarrow> bool" where
  "package_published w pid x d d' \<longleftrightarrow>
     (\<exists>r t. select_key pk_package_id pid (package_rows d) = Some r \<and> publishes w r x \<and>
        publish_rows d' = publish_rows d @ [x] \<and>
        package_rows d' = update_where (\<lambda>r. pk_package_id r = pid) (mark_published t x) (package_rows d) \<and>
        desk_logs d (d'\<lparr>publish_rows := publish_rows d, package_rows := package_rows d\<rparr>))"

lemma default_str_Some: "\<exists>s. default_str d x = Some s"
  by (cases x) (simp_all add: default_str_def)

text \<open>Ids and times are drawn, nothing else.\<close>

definition draws :: "desk \<Rightarrow> desk \<Rightarrow> bool" where
  "draws d d' \<longleftrightarrow> (\<exists>n t. drawn (dk_store d) \<le> n \<and> d' = d\<lparr>dk_store := (dk_store d)\<lparr>drawn := n, ticks := t\<rparr>\<rparr>)"

lemma draws_logs: "draws d d' \<Longrightarrow> desk_logs d d'"
  using desk_logsI [of d _ "[]"] by (fastforce simp: draws_def)

lemma draws_trans:
  assumes "draws d d'" "draws d' d''"
  shows "draws d d''"
proof -
  obtain n t where 1: "drawn (dk_store d) \<le> n" "d' = d\<lparr>dk_store := (dk_store d)\<lparr>drawn := n, ticks := t\<rparr>\<rparr>"
    using assms(1) by (auto simp: draws_def)
  obtain n' t' where 2: "n \<le> n'" "d'' = d'\<lparr>dk_store := (dk_store d')\<lparr>drawn := n', ticks := t'\<rparr>\<rparr>"
    using assms(2) by (auto simp: draws_def 1(2))
  have "d'' = d\<lparr>dk_store := (dk_store d)\<lparr>drawn := n', ticks := t'\<rparr>\<rparr>" by (simp add: 1 2)
  moreover have "drawn (dk_store d) \<le> n'" using 1(1) 2(1) by (rule order_trans)
  ultimately show ?thesis unfolding draws_def by blast
qed

lemma draws_fresh: "draws d d' \<Longrightarrow> fresh_ids (dk_store d) \<Longrightarrow> fresh_ids (dk_store d')"
  by (auto simp: draws_def elim!: fresh_ids_step)

lemma draws_gen_id: "draws d (d\<lparr>dk_store := (dk_store d)\<lparr>drawn := Suc (drawn (dk_store d))\<rparr>\<rparr>)"
proof -
  let ?s = "dk_store d"
  have "?s\<lparr>drawn := Suc (drawn ?s)\<rparr> = ?s\<lparr>drawn := Suc (drawn ?s), ticks := ticks ?s\<rparr>" by simp
  then show ?thesis unfolding draws_def by (metis le_SucI order_refl)
qed

lemma draws_now: "in_desk now d = (r, d') \<Longrightarrow> draws d d'"
proof -
  assume "in_desk now d = (r, d')"
  then have "d' = d\<lparr>dk_store := (dk_store d)\<lparr>drawn := drawn (dk_store d), ticks := Suc (ticks (dk_store d))\<rparr>\<rparr>"
    by (auto simp: in_desk_def now_def)
  then show ?thesis unfolding draws_def by blast
qed

lemma create_publish_cases:
  assumes "create_package_publish_result args d = (r, d')"
  obtains (taken) k where "r = Inl (IntegrityError k)" "desk_logs d d'"
      "''pkg_publish_'' @ hex_supply (dk_store d) (drawn (dk_store d)) \<in> pp_publish_result_id ` set (publish_rows d)"
  | (added) x d1 t where "r = Inr (Some x)" "draws d d1" "d' = d1\<lparr>publish_rows := publish_rows d @ [x]\<rparr>"
      "x = args\<lparr>pp_publish_result_id := ''pkg_publish_'' @ hex_supply (dk_store d) (drawn (dk_store d)), pp_published_at := t\<rparr>"
proof -
  let ?i = "''pkg_publish_'' @ hex_supply (dk_store d) (drawn (dk_store d))"
  let ?d0 = "d\<lparr>dk_store := (dk_store d)\<lparr>drawn := Suc (drawn (dk_store d))\<rparr>\<rparr>"
  have g: "in_desk (gen_id ''pkg_publish'') d = (Inr ?i, ?d0)" by (simp add: in_desk_def gen_id_def)
  obtain t d1 where n: "in_desk now ?d0 = (Inr t, d1)" by (simp add: in_desk_def now_def)
  have dr: "draws d d1" by (rule draws_trans [OF draws_gen_id draws_now [OF n]])
  note l = draws_logs [OF dr]
  let ?x = "args\<lparr>pp_publish_result_id := ?i, pp_published_at := t\<rparr>"
  show thesis
  proof (cases "?i \<in> pp_publish_result_id ` set (publish_rows d)")
    case True
    then have "r = Inl (IntegrityError ?i)" "d' = d1"
      using assms by (simp_all add: create_package_publish_result_def and_then_def proc_simps g n insert_row_def desk_logs_keeps [OF l])
    then show thesis using taken l True by simp
  next
    case False
    have u: "publish_rows_update (\<lambda>rs. rs @ [?x]) d1 = d1\<lparr>publish_rows := publish_rows d @ [?x]\<rparr>"
      using desk_logs_keeps(6) [OF l] by (cases d1) simp
    have "r = Inr (Some ?x)" "d' = publish_rows_update (\<lambda>rs. rs @ [?x]) d1"
      using assms False by (simp_all add: create_package_publish_result_def and_then_def proc_simps g n insert_row_def
        get_package_publish_result_def desk_logs_keeps [OF l] select_key_append select_key_fresh)
    from added [OF this(1) dr this(2) [unfolded u] refl] show thesis .
  qed
qed

lemma update_status_eq:
  obtains r d1 t where "update_package_status pid st (Some p) d =
      (Inr r, d1\<lparr>package_rows := update_where (\<lambda>r. pk_package_id r = pid)
        (\<lambda>r. r\<lparr>pk_status := st, pk_updated_at := Some t, pk_published_at := Some p\<rparr>) (package_rows d)\<rparr>)"
    "draws d d1"
proof -
  obtain t d1 where n: "in_desk now d = (Inr t, d1)" by (simp add: in_desk_def now_def)
  note l = draws_logs [OF draws_now [OF n]]
  let ?up = "update_where (\<lambda>r. pk_package_id r = pid)
        (\<lambda>r. r\<lparr>pk_status := st, pk_updated_at := Some t, pk_published_at := Some p\<rparr>)"
  have "package_rows_update ?up d1 = d1\<lparr>package_rows := ?up (package_rows d)\<rparr>"
    using desk_logs_keeps(5) [OF l] by (cases d1) simp
  then show thesis
    by (intro that [OF _ draws_now [OF n]]) (simp add: update_package_status_def and_then_def proc_simps n get_package_def)
qed

lemma draws_rows:
  assumes "draws d d'"
  shows "draws (d\<lparr>publish_rows := xs, package_rows := ps\<rparr>) (d'\<lparr>publish_rows := xs, package_rows := ps\<rparr>)"
proof -
  from assms obtain n t where "drawn (dk_store d) \<le> n" "d' = d\<lparr>dk_store := (dk_store d)\<lparr>drawn := n, ticks := t\<rparr>\<rparr>"
    by (auto simp: draws_def)
  then show ?thesis unfolding draws_def by (cases d) auto
qed

lemma desk_logs_reset:
  assumes "desk_logs d d'"
  shows "desk_logs (d\<lparr>publish_rows := xs, package_rows := ps\<rparr>) (d'\<lparr>publish_rows := xs, package_rows := ps\<rparr>)"
proof -
  from assms obtain es n t where "drawn (dk_store d) \<le> n"
      "d' = d\<lparr>dk_store := (dk_store d)\<lparr>drawn := n, ticks := t, event_rows := event_rows (dk_store d) @ es\<rparr>\<rparr>"
    by (auto simp: desk_logs_def)
  then show ?thesis using desk_logsI [of "d\<lparr>publish_rows := xs, package_rows := ps\<rparr>" n es t] by (cases d) simp
qed

lemma publish_attempt_cases:
  assumes "publish_attempt w (package_view r) q j d = (res, d')"
    and "select_key pk_package_id pid (package_rows d) = Some r"
  obtains (taken) k where "res = Inl (IntegrityError k)" "desk_logs d d'"
      "''pkg_publish_'' @ hex_supply (dk_store d) (drawn (dk_store d)) \<in> pp_publish_result_id ` set (publish_rows d)"
  | (published) x d2 ev u where "package_published w pid x d d'" "in_desk (emit_event ev) d2 = (u, d')"
      "res = (case u of Inl e \<Rightarrow> Inl e | Inr _ \<Rightarrow> Inr x)" "fresh_ids (dk_store d) \<Longrightarrow> fresh_ids (dk_store d2)"
proof -
  have id: "pk_package_id r = pid" using select_key_Some [OF assms(2)] by simp
  then have vid: "pk_package_id (package_view r) = pid" by (simp add: package_view_def)
  let ?args = "\<lparr>pp_publish_result_id = [], pp_package_id = pid, pp_workspace_id = w,
            pp_snapshot_type = str_opt (pk_snapshot_type (package_view r)),
            pp_snapshot_version = str_opt (pk_snapshot_version (package_view r)),
            pp_boundary_notes = pk_boundary_notes (package_view r),
            pp_published_snapshot = pk_snapshot_payload (package_view r), pp_published_at = 0,
            pp_request_id = Some q\<rparr>"
  obtain c d1 where c: "create_package_publish_result ?args d = (c, d1)"
    by (cases "create_package_publish_result ?args d")
  then show thesis
  proof (cases rule: create_publish_cases)
    case (taken k)
    then have "res = Inl (IntegrityError k)" "d' = d1"
      using assms(1) by (simp_all add: publish_attempt_def vid and_then_def c Let_def)
    then show thesis using taken(2,3) by (intro that(1)) simp_all
  next
    case (added x d0 t)
    obtain r2 d3 t2 where up: "update_package_status pid ''published'' (Some (pp_published_at x)) d1 =
        (Inr r2, d3\<lparr>package_rows := update_where (\<lambda>r. pk_package_id r = pid) (mark_published t2 x) (package_rows d1)\<rparr>)"
        "draws d1 d3"
      unfolding mark_published_def by (rule update_status_eq)
    let ?d2 = "d3\<lparr>package_rows := update_where (\<lambda>r. pk_package_id r = pid) (mark_published t2 x) (package_rows d1)\<rparr>"
    let ?ev = "event_args ''package_publish_completed'' (Some q) j (Some w) ''package_build_service'' ''publish'' ''completed''
        [(''package_id'', VStr pid), (''publish_result_id'', VStr (pp_publish_result_id x))]
        [(''snapshot_version'', VStr (str_opt (pk_snapshot_version (package_view r)))),
         (''boundary_note_count'', int_len (pk_boundary_notes (package_view r)))] None"
    obtain u d4 where e4: "in_desk (emit_event ?ev) ?d2 = (u, d4)" by (cases "in_desk (emit_event ?ev) ?d2")
    have "publish_attempt w (package_view r) q j d = (case u of Inl e \<Rightarrow> Inl e | Inr _ \<Rightarrow> Inr x, d4)"
      by (simp add: publish_attempt_def vid and_then_def c added(1) require_apply ret_apply up(1) package_event_def e4 Let_def
        split: sum.split)
    then have e: "in_desk (emit_event ?ev) ?d2 = (u, d')" "res = (case u of Inl e \<Rightarrow> Inl e | Inr _ \<Rightarrow> Inr x)"
      using assms(1) e4 by simp_all
    have d1: "package_rows d1 = package_rows d" using desk_logs_keeps(5) [OF draws_logs [OF added(2)]] added(3) by simp
    have p3: "publish_rows d3 = publish_rows d @ [x]" using desk_logs_keeps(6) [OF draws_logs [OF up(2)]] added(3) by simp
    have ld: "desk_logs ?d2 d'" by (rule desk_logs_event [OF e(1)])
    have rows: "publish_rows d' = publish_rows d @ [x]"
        "package_rows d' = update_where (\<lambda>r. pk_package_id r = pid) (mark_published t2 x) (package_rows d)"
      using desk_logs_keeps(5,6) [OF ld] p3 d1 by simp_all
    let ?reset = "\<lambda>d'. d'\<lparr>publish_rows := publish_rows d, package_rows := package_rows d\<rparr>"
    have "?reset d1 = d0" using desk_logs_keeps(5,6) [OF draws_logs [OF added(2)]] by (cases d0) (simp add: added(3))
    then have "draws d0 (?reset d3)" using draws_rows [OF up(2), of "package_rows d" "publish_rows d"] by simp
    then have "draws d (?reset d3)" by (rule draws_trans [OF added(2)])
    from draws_logs [OF this] have "desk_logs d (?reset ?d2)" by simp
    from logging.trans [OF this desk_logs_reset [OF ld]] have frame: "desk_logs d (?reset d')" .
    have "publishes w r x"
      using default_str_Some [of "''slice11.v1''" "pk_snapshot_version r"] id
      by (auto simp: publishes_def added(4) package_view_def str_opt_def)
    then have "package_published w pid x d d'"
      unfolding package_published_def using assms(2) rows frame by blast
    moreover have "fresh_ids (dk_store ?d2)" if "fresh_ids (dk_store d)"
      using draws_fresh [OF up(2)] draws_fresh [OF added(2) that] by (simp add: added(3))
    ultimately show thesis using that(2) [OF _ e] by blast
  qed
qed

lemma event_result:
  assumes "in_desk (emit_event args) d = (u, d')"
  shows "u = Inr () \<or> (\<exists>k. u = Inl (IntegrityError k))"
proof -
  obtain r s where e: "emit_event args (dk_store d) = (r, s)" by (cases "emit_event args (dk_store d)")
  then have "u = r" using assms by (simp add: in_desk_def)
  with e show ?thesis by (cases rule: emit_event_cases) auto
qed

lemma package_published_logs:
  assumes "desk_logs d d1" "package_published w pid x d1 d2"
  shows "package_published w pid x d d2"
proof -
  have k: "package_rows d1 = package_rows d" "publish_rows d1 = publish_rows d" using desk_logs_keeps [OF assms(1)] by simp_all
  show ?thesis
    using assms(2) logging.trans [OF assms(1)] unfolding package_published_def k by blast
qed

lemma publish_cases:
  assumes "publish_snapshot w pid q j a d = (res, d')"
  obtains (refused) code kind msg det where "res = Inl (ServiceError code kind msg det)" "d' = d" "\<not> publishable w pid d"
  | (failed) k where "publishable w pid d" "res = Inl (IntegrityError k)" "desk_logs d d'"
      "fresh_ids (dk_store d) \<Longrightarrow> \<exists>n \<ge> drawn (dk_store d).
         ''pkg_publish_'' @ hex_supply (dk_store d) n \<in> pp_publish_result_id ` set (publish_rows d)"
  | (published_case) x where "publishable w pid d" "package_published w pid x d d'"
      "res = Inr x \<or> (\<exists>k. res = Inl (IntegrityError k))" "fresh_ids (dk_store d) \<Longrightarrow> res = Inr x"
proof (cases "publishable w pid d")
  case False
  have "\<exists>code kind msg det. res = Inl (ServiceError code kind msg det) \<and> d' = d"
    using assms False
    by (auto simp: publish_snapshot_def get_package_def package_view_def publishable_def and_then_def proc_simps Let_def
      split: option.splits if_splits)
  then show thesis using refused False by blast
next
  case True
  then obtain r where r: "select_key pk_package_id pid (package_rows d) = Some r" "pk_workspace_id r = w"
      "pk_status r \<noteq> ''published''" "pk_replay_ready r = Some True"
    by (auto simp: publishable_def)
  let ?start = "package_event ''package_publish_started'' w q j ''publish'' ''started''
          [(''package_id'', VStr pid), (''async_mode'', VBool a)] [] None"
  let ?m = "publish_attempt w (package_view r) q j"
  let ?h = "emit_package_failed ''package_publish_completed'' w q j ''publish'' pid"
  have run: "and_then ?start (\<lambda>_. on_error ?m ?h) d = (res, d')"
    using assms r by (simp add: publish_snapshot_def get_package_def package_view_def and_then_def proc_simps Let_def)
  obtain u d1 where s: "?start d = (u, d1)" by (cases "?start d")
  then have l: "desk_logs d d1" unfolding package_event_def by (rule desk_logs_event)
  have iu: "u = Inr () \<or> (\<exists>k. u = Inl (IntegrityError k))"
    using s unfolding package_event_def by (rule event_result)
  have fresh1: "u = Inr () \<and> fresh_ids (dk_store d1)" if f: "fresh_ids (dk_store d)"
  proof -
    obtain d2 where "?start d = (Inr (), d2)" "fresh_ids (dk_store d2)"
      unfolding package_event_def by (rule event_written [OF f])
    then show ?thesis using s by simp
  qed
  show thesis
  proof (cases u)
    case (Inl e)
    then have "res = Inl e" "d' = d1" using run by (simp_all add: and_then_def s)
    moreover from Inl iu obtain k where "e = IntegrityError k" by auto
    ultimately have "res = Inl (IntegrityError k)" "desk_logs d d'" using l by simp_all
    from failed [OF True this] show thesis using fresh1 Inl by blast
  next
    case (Inr v)
    then have e: "on_error ?m ?h d1 = (res, d')" using run by (simp add: and_then_def s)
    obtain r2 d2 where m: "?m d1 = (r2, d2)" by (cases "?m d1")
    have r1: "select_key pk_package_id pid (package_rows d1) = Some r" using r(1) by (simp add: desk_logs_keeps [OF l])
    have passed: "res = r2 \<and> d' = d2" if "\<nexists>code kind msg det. r2 = Inl (ServiceError code kind msg det)"
      using e that by (cases r2) (auto simp: on_error_def m emit_package_failed_def ret_apply split: api_error.splits)
    from m r1 show thesis
    proof (cases rule: publish_attempt_cases)
      case (taken k)
      have "res = Inl (IntegrityError k)" "d' = d2" using passed taken(1) by simp_all
      moreover have "\<exists>n \<ge> drawn (dk_store d).
         ''pkg_publish_'' @ hex_supply (dk_store d) n \<in> pp_publish_result_id ` set (publish_rows d)"
        using taken(3) desk_logs_keeps(3,4,6) [OF l] by auto
      ultimately show thesis using failed [OF True] logging.trans [OF l taken(2)] by simp
    next
      case (published x d3 ev u3)
      have "u3 = Inr () \<or> (\<exists>k. u3 = Inl (IntegrityError k))" using published(2) by (rule event_result)
      then have r2: "r2 = Inr x \<or> (\<exists>k. r2 = Inl (IntegrityError k))" using published(3) by auto
      then have res: "res = r2" "d' = d2" using passed by auto
      have "package_published w pid x d d'"
        unfolding res(2) by (rule package_published_logs [OF l published(1)])
      moreover have "res = Inr x" if "fresh_ids (dk_store d)"
      proof -
        have "fresh_ids (dk_store d3)" using published(4) fresh1 [OF that] by simp
        then obtain d4 where "in_desk (emit_event ev) d3 = (Inr (), d4)" by (rule event_written)
        then have "u3 = Inr ()" using published(2) by simp
        then show ?thesis using published(3) res by simp
      qed
      ultimately show thesis using published_case [OF True] r2 res by blast
    qed
  qed
qed

text \<open>
  C14: publishing returns exactly when the package is in the workspace, is not published and can be
  replayed, whatever its review says. It stores one publish result with the snapshot and the notes of the package, marks the
  package as published at that time and changes nothing else but the log. A refusal changes nothing at all.
\<close>

theorem publish_returns_iff:
  assumes "fresh_ids (dk_store d)"
    and "unused ''pkg_publish'' (pp_publish_result_id ` set (publish_rows d)) (dk_store d)"
  shows "case publish_snapshot w pid q j a d of
      (Inr x, d') \<Rightarrow> publishable w pid d \<and> package_published w pid x d d'
    | (Inl e, d') \<Rightarrow> \<not> publishable w pid d \<and> d' = d \<and> (\<exists>code kind msg det. e = ServiceError code kind msg det)"
proof -
  obtain res d' where p: "publish_snapshot w pid q j a d = (res, d')" by (cases "publish_snapshot w pid q j a d")
  then show ?thesis
  proof (cases rule: publish_cases)
    case refused
    then show ?thesis by (simp add: p)
  next
    case (failed k)
    then show ?thesis using assms unfolding unused_def by auto
  next
    case (published_case x)
    then show ?thesis using assms(1) by (simp add: p)
  qed
qed

section \<open>Runs\<close>

text \<open>Builds and publications in any order, with other work on the store between them.\<close>

inductive package_run :: "desk \<Rightarrow> desk \<Rightarrow> bool" for d0 where
  start: "package_run d0 d0"
| build: "package_run d0 d \<Longrightarrow> build_snapshot w ti su rids nids vids q d = (r, d') \<Longrightarrow> package_run d0 d'"
| publish: "package_run d0 d \<Longrightarrow> publish_snapshot w pid q j a d = (x, d') \<Longrightarrow> package_run d0 d'"
| other: "package_run d0 d \<Longrightarrow> package_rows d' = package_rows d \<Longrightarrow> publish_rows d' = publish_rows d \<Longrightarrow>
    package_run d0 d'"

text \<open>
  A published package has one publish result, with its snapshot; any other package has none.
\<close>

definition publication_of :: "publish_row list \<Rightarrow> package_row \<Rightarrow> bool" where
  "publication_of xs r \<longleftrightarrow>
     (if pk_status r = ''published''
      then \<exists>x. filter (\<lambda>x. pp_package_id x = pk_package_id r) xs = [x] \<and>
        pp_published_snapshot x = pk_snapshot_payload r \<and> pp_workspace_id x = pk_workspace_id r
      else filter (\<lambda>x. pp_package_id x = pk_package_id r) xs = [])"

definition packages_consistent :: "desk \<Rightarrow> bool" where
  "packages_consistent d \<longleftrightarrow>
     distinct (map pk_package_id (package_rows d)) \<and>
     (\<forall>r \<in> set (package_rows d). publication_of (publish_rows d) r) \<and>
     (\<forall>x \<in> set (publish_rows d). pp_package_id x \<in> pk_package_id ` set (package_rows d))"

text \<open>Packages keep their snapshot, and a published one stays so.\<close>

definition snapshots_kept :: "package_row list \<Rightarrow> package_row list \<Rightarrow> bool" where
  "snapshots_kept rs rs' \<longleftrightarrow>
     (\<forall>r \<in> set rs. \<exists>r' \<in> set rs'. pk_package_id r' = pk_package_id r \<and>
        pk_snapshot_payload r' = pk_snapshot_payload r \<and> (pk_status r = ''published'' \<longrightarrow> pk_status r' = ''published''))"

lemma snapshots_kept_refl: "snapshots_kept rs rs"
  and snapshots_kept_trans: "snapshots_kept rs rs' \<Longrightarrow> snapshots_kept rs' rs'' \<Longrightarrow> snapshots_kept rs rs''"
  by (fastforce simp: snapshots_kept_def)+

lemma build_attempt_frame:
  assumes "build_attempt w ti su rids nids vids q i d = (r, d')" "i \<noteq> []"
  shows "publish_rows d' = publish_rows d \<and> (package_rows d' = package_rows d \<or>
    (\<exists>row. package_rows d' = package_rows d @ [row] \<and> pk_status row = ''draft'' \<and>
       pk_package_id row \<notin> pk_package_id ` set (package_rows d)))"
proof -
  obtain rg dg where g: "gather w rids nids vids d = (rg, dg)" by (cases "gather w rids nids vids d")
  show ?thesis
  proof (cases rg)
    case (Inl e)
    then have "dg = d" "d' = dg" using gather_refuses g assms(1) by (auto simp: build_attempt_def and_then_def)
    then show ?thesis by simp
  next
    case (Inr gd)
    then have "dg = d" using g by (cases rule: gather_cases [of d w rids nids vids]) auto
    let ?s = "dk_store d"
    let ?d = "d\<lparr>dk_store := ?s\<lparr>drawn := drawn ?s + length (filter is_private (gd_nodes gd))\<rparr>\<rparr>"
    let ?ss = "snapshot_of i w ti su gd (gaps_for i w gd ?s)"
    have loop: "fold_proc (replace_private i w (build_route_refs_by_node (gd_traceability gd)))
        (filter is_private (gd_nodes gd)) [] d = (Inr (gaps_for i w gd ?s), ?d)"
      by (simp add: gaps_loop gaps_for_def Let_def)
    obtain r2 d2 where c: "create_package (Some i) (package_args (Some q) ?ss) ?d = (r2, d2)"
      by (cases "create_package (Some i) (package_args (Some q) ?ss) ?d")
    have rest: "case r2 of Inl e \<Rightarrow> d' = d2 | Inr p \<Rightarrow> \<exists>ev u. in_desk (emit_event ev) d2 = (u, d')"
      using assms(1) unfolding build_attempt_def
      by (auto simp: and_then_def g Inr \<open>dg = d\<close> loop c package_event_def ret_apply Let_def split: sum.splits prod.splits)
    from c assms(2) show ?thesis
    proof (cases rule: create_package_cases)
      case (taken k)
      then show ?thesis using rest desk_logs_keeps(5,6) [OF taken(2)] by simp
    next
      case (added row d1 t)
      then obtain ev u where "in_desk (emit_event ev) d2 = (u, d')" using rest by auto
      from desk_logs_keeps(5,6) [OF desk_logs_event [OF this]] have
        "package_rows d' = package_rows d @ [row]" "publish_rows d' = publish_rows d"
        using added(3) desk_logs_keeps(6) [OF added(2)] by simp_all
      moreover have "pk_status row = ''draft''" "pk_package_id row = i" by (simp_all add: added(4) package_args_def)
      ultimately show ?thesis using added(5) by simp
    qed
  qed
qed

lemma package_build_frame:
  assumes "build_snapshot w ti su rids nids vids q d = (r, d')"
  shows "publish_rows d' = publish_rows d \<and> (package_rows d' = package_rows d \<or>
    (\<exists>row. package_rows d' = package_rows d @ [row] \<and> pk_status row = ''draft'' \<and>
       pk_package_id row \<notin> pk_package_id ` set (package_rows d)))"
  using assms
proof (cases rule: build_snapshot_cases)
  case (started r0 d0 d1)
  let ?i = "new_package_id d"
  let ?m = "build_attempt w ti su (dedupe_ids rids) (dedupe_ids nids) (dedupe_ids vids) q ?i"
  let ?h = "emit_package_failed ''package_build_completed'' w q None ''build'' ?i"
  have l: "desk_logs d d1"
    using logging.trans [OF drawn_logs [of d, folded started(2)] alwaysD_eq [OF always_start started(3)]] .
  obtain r2 d2 where m: "?m d1 = (r2, d2)" by (cases "?m d1")
  have "desk_logs d2 d' \<or> d' = d1"
    using started(4) logging.refl
    by (auto simp: on_error_def m split: sum.splits prod.splits dest: alwaysD_eq [OF always_failed])
  moreover have "?i \<noteq> []" by (simp add: new_package_id_def)
  ultimately show ?thesis
    using build_attempt_frame [OF m] desk_logs_keeps(5,6) [OF l] desk_logs_keeps(5,6) [of d2 d'] by auto
qed simp

lemma publication_of_other:
  assumes "pp_package_id x \<noteq> pk_package_id r"
  shows "publication_of (xs @ [x]) r \<longleftrightarrow> publication_of xs r"
  using assms by (simp add: publication_of_def)

lemma mark_published_fields [simp]:
  "pk_package_id (mark_published t x r) = pk_package_id r" "pk_status (mark_published t x r) = ''published''"
  "pk_snapshot_payload (mark_published t x r) = pk_snapshot_payload r"
  "pk_workspace_id (mark_published t x r) = pk_workspace_id r"
  by (simp_all add: mark_published_def)

lemma consistent_build:
  assumes "packages_consistent d" "publish_rows d' = publish_rows d"
    and "package_rows d' = package_rows d @ [row]" "pk_status row = ''draft''"
    and "pk_package_id row \<notin> pk_package_id ` set (package_rows d)"
  shows "packages_consistent d'"
proof -
  have "pp_package_id x \<noteq> pk_package_id row" if "x \<in> set (publish_rows d)" for x
    using assms(1,5) that by (metis packages_consistent_def)
  then have "publication_of (publish_rows d) row"
    using assms(4) by (simp add: publication_of_def filter_empty_conv)
  then show ?thesis using assms by (auto simp: packages_consistent_def)
qed

lemma consistent_publish:
  assumes "packages_consistent d" "publishable w pid d" "package_published w pid x d d'"
  shows "packages_consistent d' \<and> snapshots_kept (package_rows d) (package_rows d')"
proof -
  obtain r t where r: "select_key pk_package_id pid (package_rows d) = Some r" "publishes w r x"
      "publish_rows d' = publish_rows d @ [x]"
      "package_rows d' = update_where (\<lambda>r. pk_package_id r = pid) (mark_published t x) (package_rows d)"
    using assms(3) by (auto simp: package_published_def)
  have id: "pk_package_id r = pid" "r \<in> set (package_rows d)" using select_key_Some [OF r(1)] by simp_all
  have st: "pk_status r \<noteq> ''published''" "pk_workspace_id r = w" using assms(2) r(1) by (auto simp: publishable_def)
  have x: "pp_package_id x = pid" "pp_published_snapshot x = pk_snapshot_payload r" "pp_workspace_id x = w"
    using r(2) id(1) by (simp_all add: publishes_def)
  have dist: "distinct (map pk_package_id (package_rows d))" using assms(1) by (simp add: packages_consistent_def)
  have only: "q = r" if "q \<in> set (package_rows d)" "pk_package_id q = pid" for q
    using select_key_distinct [OF dist that(1)] that(2) r(1) by simp
  have "publication_of (publish_rows d) r" using assms(1) id(2) by (simp add: packages_consistent_def)
  then have none: "filter (\<lambda>x. pp_package_id x = pid) (publish_rows d) = []" using st(1) id(1) by (simp add: publication_of_def)
  have "publication_of (publish_rows d') q" if mem: "q \<in> set (package_rows d')" for q
  proof -
    obtain q0 where q0: "q0 \<in> set (package_rows d)" "q = (if pk_package_id q0 = pid then mark_published t x q0 else q0)"
      using mem unfolding r(4) set_update_where by blast
    show ?thesis
    proof (cases "pk_package_id q0 = pid")
      case True
      then have "q = mark_published t x r" using q0 only by simp
      then show ?thesis using none x st(2) id(1) by (simp add: publication_of_def r(3))
    next
      case False
      then have "q = q0" "publication_of (publish_rows d) q0" using q0 assms(1) by (simp_all add: packages_consistent_def)
      then show ?thesis using False x(1) by (simp add: r(3) publication_of_other)
    qed
  qed
  moreover have "map pk_package_id (package_rows d') = map pk_package_id (package_rows d)"
    unfolding r(4) by (rule keys_update_where) simp
  moreover from arg_cong [OF this, of set] have "pk_package_id ` set (package_rows d') = pk_package_id ` set (package_rows d)"
    by simp
  ultimately have "packages_consistent d'"
    using assms(1) dist id x(1) by (auto simp: packages_consistent_def r(3))
  moreover have "snapshots_kept (package_rows d) (package_rows d')"
    unfolding snapshots_kept_def
  proof
    fix q assume "q \<in> set (package_rows d)"
    then have "(if pk_package_id q = pid then mark_published t x q else q) \<in> set (package_rows d')"
      unfolding r(4) set_update_where by (rule imageI)
    then show "\<exists>r' \<in> set (package_rows d'). pk_package_id r' = pk_package_id q \<and>
        pk_snapshot_payload r' = pk_snapshot_payload q \<and> (pk_status q = ''published'' \<longrightarrow> pk_status r' = ''published'')"
      by (rule bexI [rotated]) simp
  qed
  ultimately show ?thesis by blast
qed

lemma build_keeps:
  assumes "build_snapshot w ti su rids nids vids q d = (r, d')" "packages_consistent d"
  shows "packages_consistent d' \<and> publish_rows d' = publish_rows d \<and> snapshots_kept (package_rows d) (package_rows d')"
proof -
  from package_build_frame [OF assms(1)] have p: "publish_rows d' = publish_rows d" and
    "package_rows d' = package_rows d \<or> (\<exists>row. package_rows d' = package_rows d @ [row] \<and> pk_status row = ''draft'' \<and>
       pk_package_id row \<notin> pk_package_id ` set (package_rows d))" by blast+
  then show ?thesis
  proof (elim disjE exE conjE)
    assume "package_rows d' = package_rows d"
    then show ?thesis using assms(2) p by (simp add: packages_consistent_def snapshots_kept_refl)
  next
    fix row assume row: "package_rows d' = package_rows d @ [row]" "pk_status row = ''draft''"
      "pk_package_id row \<notin> pk_package_id ` set (package_rows d)"
    have "snapshots_kept (package_rows d) (package_rows d')" unfolding row(1) snapshots_kept_def by auto
    then show ?thesis using consistent_build [OF assms(2) p row] p by simp
  qed
qed

text \<open>
  C13: in every run of builds and publications, whatever they return or raise, a package is published at most once, and exactly
  when it is marked so; the published snapshot is the one that was built. Publish results are never
  changed or removed, a package keeps its snapshot, and a published package stays published.
\<close>

theorem packages_published_once:
  assumes "package_run d0 d" "packages_consistent d0"
  shows "packages_consistent d \<and> (\<exists>xs. publish_rows d = publish_rows d0 @ xs) \<and>
    snapshots_kept (package_rows d0) (package_rows d)"
  using assms
proof (induction rule: package_run.induct)
  case start
  then show ?case by (simp add: snapshots_kept_refl)
next
  case (build d w ti su rids nids vids q r d')
  then have "packages_consistent d" "snapshots_kept (package_rows d0) (package_rows d)"
    "\<exists>xs. publish_rows d = publish_rows d0 @ xs" by simp_all
  with build_keeps [OF build.hyps(2)] snapshots_kept_trans show ?case by metis
next
  case (publish d w pid q j a x d')
  from publish.hyps(2) show ?case
  proof (cases rule: publish_cases)
    case refused
    then show ?thesis using publish by simp
  next
    case (failed k)
    then show ?thesis using publish desk_logs_keeps(5,6) [OF failed(3)] by (simp add: packages_consistent_def)
  next
    case (published_case y)
    have c: "packages_consistent d" and s: "snapshots_kept (package_rows d0) (package_rows d)"
      and "\<exists>xs. publish_rows d = publish_rows d0 @ xs"
      using publish by simp_all
    moreover have "publish_rows d' = publish_rows d @ [y]" using published_case(2) by (auto simp: package_published_def)
    ultimately show ?thesis
      using consistent_publish [OF c published_case(1,2)] snapshots_kept_trans [OF s] by auto
  qed
next
  case (other d d')
  then show ?case by (simp add: packages_consistent_def)
qed

end
