(* ===== verification/PackageWitnesses.thy ===== *)
theory PackageWitnesses
  imports PackagePublish
begin

text \<open>
  The properties of the package service at a concrete workspace: a route through an evidence node to a
  private dependency.
\<close>

definition sample_desk :: desk where
  "sample_desk =
     \<lparr>dk_store = empty_store
        \<lparr>node_rows := [sample_node ''n'' ''w'' ''evidence'' ''active'',
                       sample_node ''p'' ''w'' ''private_dependency'' ''active''],
         route_rows := [(sample_route ''r'' ''w'' ''active'' [''n'', ''p''] [])\<lparr>rr_conclusion_node_id := Some ''p'', rr_risk_score := 80\<rparr>]\<rparr>,
      validation_rows = [], validation_result_rows = [], package_rows = [], publish_rows = []\<rparr>"

lemma sample_build:
  "case build_snapshot ''w'' ''t'' ''s'' [''r''] [''p''] [] ''q'' sample_desk of
     (Inr (Some row), d) \<Rightarrow> pk_package_id row = ''pkg_'' \<and> pk_status row = ''draft'' \<and>
        pk_workspace_id row = ''w'' \<and> pk_replay_ready row = Some True \<and>
        pk_included_node_ids row = [''n'', ''pkg_gap_xx''] \<and>
        (case pk_snapshot_payload row of Some ss \<Rightarrow>
           rw_readiness (ss_pre_publish_review ss) = ''blocked'' \<and>
           map st_conclusion_node_id (ss_routes ss) = [Some ''pkg_gap_xx''] | None \<Rightarrow> False)
   | _ \<Rightarrow> False"
  by code_simp

lemma sample_built:
  obtains row d ss where "build_snapshot ''w'' ''t'' ''s'' [''r''] [''p''] [] ''q'' sample_desk = (Inr (Some row), d)"
    "pk_package_id row = ''pkg_''" "pk_status row = ''draft''" "pk_workspace_id row = ''w''" "pk_replay_ready row = Some True"
    "pk_snapshot_payload row = Some ss" "rw_readiness (ss_pre_publish_review ss) = ''blocked''"
    "map st_conclusion_node_id (ss_routes ss) = [Some ''pkg_gap_xx'']"
  using sample_build by (auto split: prod.splits sum.splits option.splits)

lemma sample_fresh: "fresh_ids (dk_store sample_desk)"
  by (simp add: sample_desk_def sample_simps fresh_defs unused_def inj_unary)

lemma sample_unused: "unused p {} (dk_store sample_desk)"
  by (simp add: unused_def sample_desk_def empty_store_def inj_unary)

lemma sample_consistent: "packages_consistent sample_desk"
  by (simp add: packages_consistent_def sample_desk_def)

lemma unary_gap_ids: "strip (gap_id_of (dk_store sample_desk) k) = gap_id_of (dk_store sample_desk) k"
proof (rule strip_stripped)
  have "hex_supply (dk_store sample_desk) = unary" by (simp add: sample_desk_def empty_store_def)
  then show "stripped (gap_id_of (dk_store sample_desk) k)"
    by (cases k) (simp_all add: gap_id_of_def stripped_def unary_def is_space_def code_point_def)
qed

theorem built_snapshot_closed_witness:
  "\<exists>row d ss. build_snapshot ''w'' ''t'' ''s'' [''r''] [''p''] [] ''q'' sample_desk = (Inr (Some row), d) \<and>
     package_built ''w'' ''t'' ''s'' [''r''] ss row sample_desk d \<and> snapshot_closed sample_desk [''p''] ss \<and>
     map st_conclusion_node_id (ss_routes ss) = [Some ''pkg_gap_xx'']"
proof -
  obtain row d ss where b: "build_snapshot ''w'' ''t'' ''s'' [''r''] [''p''] [] ''q'' sample_desk = (Inr (Some row), d)"
      "pk_snapshot_payload row = Some ss" "map st_conclusion_node_id (ss_routes ss) = [Some ''pkg_gap_xx'']"
    by (rule sample_built)
  have "\<forall>r \<in> set (route_rows (dk_store sample_desk)). neat_route r"
    by (simp add: sample_desk_def sample_route_def neat_route_def strip_def is_space_def code_point_def)
  moreover have "unused ''pkg_gap'' (nd_node_id ` set (node_rows (dk_store sample_desk))) (dk_store sample_desk)"
    by (simp add: unused_def sample_desk_def sample_simps inj_unary)
  ultimately obtain row' ss' where c: "Some row = Some row'"
      "package_built ''w'' ''t'' ''s'' (dedupe_ids [''r'']) ss' row' sample_desk d" "snapshot_closed sample_desk (dedupe_ids [''p'']) ss'"
    using built_snapshot_closed [OF b(1)] unary_gap_ids by blast
  moreover have "ss' = ss" using c(1,2) b(2) by (simp add: package_built_def)
  moreover have "dedupe_ids [''r''] = [''r'']" "dedupe_ids [''p''] = [''p'']" by code_simp+
  ultimately show ?thesis using b by auto
qed

theorem build_returns_iff_witness:
  "buildable ''w'' [''r''] [''p''] [] sample_desk \<and>
   (\<exists>e. build_snapshot ''w'' ''t'' ''s'' [''r''] [''missing''] [] ''q'' sample_desk = (Inl e, snd (build_snapshot ''w'' ''t'' ''s'' [''r''] [''missing''] [] ''q'' sample_desk)) \<and>
     \<not> buildable ''w'' [''r''] [''missing''] [] sample_desk)"
proof -
  have u: "unused ''pkg'' (pk_package_id ` set (package_rows sample_desk)) (dk_store sample_desk)"
    using sample_unused by (simp add: sample_desk_def)
  obtain row d where b: "build_snapshot ''w'' ''t'' ''s'' [''r''] [''p''] [] ''q'' sample_desk = (Inr (Some row), d)"
    by (rule sample_built)
  have "buildable ''w'' [''r''] [''p''] [] sample_desk"
    using build_returns_iff [OF sample_fresh u, where w = "''w''" and ti = "''t''" and su = "''s''" and rids = "[''r'']"
        and nids = "[''p'']" and vids = "[]" and q = "''q''"] by (simp add: b)
  moreover have "\<not> buildable ''w'' [''r''] [''missing''] [] sample_desk"
  proof -
    have "dedupe_ids [''missing''] = [''missing'']" by code_simp
    then show ?thesis
      by (simp add: buildable_def requestable_def node_present_def sample_desk_def sample_simps)
  qed
  moreover obtain r d' where m: "build_snapshot ''w'' ''t'' ''s'' [''r''] [''missing''] [] ''q'' sample_desk = (r, d')"
    by (cases "build_snapshot ''w'' ''t'' ''s'' [''r''] [''missing''] [] ''q'' sample_desk")
  ultimately show ?thesis
    using build_returns_iff [OF sample_fresh u, where w = "''w''" and ti = "''t''" and su = "''s''" and rids = "[''r'']"
        and nids = "[''missing'']" and vids = "[]" and q = "''q''"]
    by (auto simp: m split: sum.splits)
qed

text \<open>A package whose review is blocked is published like any other.\<close>

theorem publish_returns_iff_witness:
  "\<exists>row ss d x d'. package_rows d = [row] \<and> pk_snapshot_payload row = Some ss \<and>
     rw_readiness (ss_pre_publish_review ss) = ''blocked'' \<and>
     publish_snapshot ''w'' ''pkg_'' ''q'' None False d = (Inr x, d') \<and> pp_published_snapshot x = Some ss"
proof -
  obtain row d0 ss where b: "build_snapshot ''w'' ''t'' ''s'' [''r''] [''p''] [] ''q'' sample_desk = (Inr (Some row), d0)"
      "pk_package_id row = ''pkg_''" "pk_status row = ''draft''" "pk_workspace_id row = ''w''" "pk_replay_ready row = Some True"
      "pk_snapshot_payload row = Some ss" "rw_readiness (ss_pre_publish_review ss) = ''blocked''"
    by (rule sample_built)
  let ?d = "sample_desk\<lparr>package_rows := [row]\<rparr>"
  have f: "fresh_ids (dk_store ?d)" using sample_fresh by simp
  have u: "unused ''pkg_publish'' (pp_publish_result_id ` set (publish_rows ?d)) (dk_store ?d)"
    using sample_unused by (simp add: sample_desk_def)
  obtain r d' where p: "publish_snapshot ''w'' ''pkg_'' ''q'' None False ?d = (r, d')"
    by (cases "publish_snapshot ''w'' ''pkg_'' ''q'' None False ?d")
  have "publishable ''w'' ''pkg_'' ?d" using b(2-5) by (simp add: publishable_def)
  with publish_returns_iff [OF f u, where w = "''w''" and pid = "''pkg_''" and q = "''q''" and j = None and a = False] obtain x where
    x: "r = Inr x" "package_published ''w'' ''pkg_'' x ?d d'"
    by (auto simp: p split: sum.splits)
  then have "pp_published_snapshot x = Some ss" using b(2,6) by (auto simp: package_published_def publishes_def)
  then show ?thesis using b(6,7) p x(1) by (intro exI [of _ row] exI [of _ ss] exI [of _ ?d] exI [of _ x] exI [of _ d']) simp
qed

theorem packages_published_once_witness:
  "\<exists>d x d'. package_run sample_desk d' \<and> publish_snapshot ''w'' ''pkg_'' ''q'' None False d = (x, d') \<and>
     packages_consistent d' \<and> snapshots_kept (package_rows d) (package_rows d')"
proof -
  obtain row d where b: "build_snapshot ''w'' ''t'' ''s'' [''r''] [''p''] [] ''q'' sample_desk = (Inr (Some row), d)"
    by (rule sample_built)
  obtain x d' where p: "publish_snapshot ''w'' ''pkg_'' ''q'' None False d = (x, d')"
    by (cases "publish_snapshot ''w'' ''pkg_'' ''q'' None False d")
  have r: "package_run sample_desk d" using package_run.build [OF package_run.start b] .
  have "packages_consistent d" using packages_published_once [OF r sample_consistent] by blast
  from packages_published_once [OF package_run.publish [OF package_run.start p] this] show ?thesis
    using package_run.publish [OF r p] p by blast
qed

end
