(* ===== verification/Spec2Isabelle.thy ===== *)
theory Spec2Isabelle
  imports DomainAggregates RecomputeReturns ScoreAccuracy RouteGenerationReturns MsgGroupQueueCounts ConfirmationTheorems GraphBuildTheorems RedisLockProps SourceChunkingProps PackageWitnesses
begin

text \<open>
  A verification library for the research layer of Mironicky, the Python package
  \<^verbatim>\<open>research_layer\<close> under \<^verbatim>\<open>src/backend/src\<close>. Paths below are relative to that package unless they
  start with another directory of \<^verbatim>\<open>src/backend/src\<close>.

  \<^bold>\<open>The program.\<close> A workspace holds a reasoning graph of evidence, assumptions, conclusions,
  conflicts, failures and validations, and a list of routes through it. All state is in one sqlite
  database behind \<^verbatim>\<open>ResearchApiStateStore\<close> (\<^verbatim>\<open>api/controllers/_state_store.py\<close>). The services read
  and write it: \<^verbatim>\<open>RouteGenerationService\<close> replaces the routes of a workspace by those its graph
  supports, \<^verbatim>\<open>ScoreService\<close> scores a route from its graph neighbourhood, \<^verbatim>\<open>FailureImpactService\<close>
  applies a failure report to nodes, edges and routes, and \<^verbatim>\<open>RecomputeService\<close> ties these together
  after a failure: apply the report, score every route again, compare the snapshots before and
  after with \<^verbatim>\<open>VersionDiffService\<close>, and publish a new version. Before the graph, a source is parsed and
  cut into chunks, candidates are extracted from them, and \<^verbatim>\<open>CandidateConfirmationService\<close> turns a
  candidate into a claim, an object with its evidence and a node of the graph; \<^verbatim>\<open>GraphBuildService\<close>
  builds the graph of all confirmed objects anew. After the graph, \<^verbatim>\<open>PackageBuildService\<close> stores and
  publishes snapshots of it. Every service writes events to the log of the store, and reads it back to
  detect work that is done already.

  \<^bold>\<open>Shared theories.\<close>
  \<^item> \<open>Prelude\<close>: results (an error or a value), strings, dictionaries in insertion order, sorted
    sets. \<open>PyFloat\<close>: Python's floats. \<open>PyValue\<close>: dynamically typed payloads, their conversions
    and exceptions, and ISO timestamps.
  \<^item> \<open>StateError\<close>: procedures over a state that may raise and leave the state they reached; the
    locale \<open>evolution\<close>, by which a relation that every statement keeps is kept by every program.
    \<open>StateTriples\<close>: triples with a postcondition for the return and one for the exception.
    \<open>TableEvolution\<close>: the locale \<open>row_evolution\<close>, how a table may change while a service runs.

  \<^bold>\<open>The domain model.\<close>
  \<^item> \<open>DomainEnums\<close>: \<^verbatim>\<open>domain/enums/research_enums.py\<close> and the transition tables of
    \<^verbatim>\<open>domain/models/research_domain.py\<close>. Every enum is an instance of the locale \<open>str_enum\<close> (member
    and text determine each other), every table of \<open>lifecycle\<close> (phases that never decrease, terminal
    members that nothing leaves).
  \<^item> \<open>DomainModels\<close> and \<open>DomainAggregates\<close>: the classes of \<^verbatim>\<open>research_domain.py\<close> and
    \<^verbatim>\<open>domain/value_objects\<close> with their constructors, \<^verbatim>\<open>to_dict\<close>, \<^verbatim>\<open>from_dict\<close> and \<^verbatim>\<open>transition_to\<close>. Every
    class is an instance of \<open>serializable\<close>: what is printed parses to itself, and what parses is
    valid. The properties say which statuses an object can reach from which, on the code's
    \<^verbatim>\<open>transition_to\<close>.

  \<^bold>\<open>The state store.\<close> \<open>StoreRows\<close> holds the rows, the \<open>store\<close> record and the four kinds of
  statements, and the locale \<open>store_table\<close> that each table with a key is an instance of. The
  operations of \<^verbatim>\<open>_state_store.py\<close> are in \<open>StoreGraph\<close> (nodes, edges, versions, workspaces),
  \<open>StoreRoutes\<close> (routes, confirmed objects), \<open>StoreEvents\<close> (failures, jobs, events),
  \<open>StoreCandidates\<close> (candidates, relation candidates, claims, evidence references, conflicts, and the
  transaction of \<^verbatim>\<open>run_in_transaction\<close>, which restores the rows when its body raises) and \<open>PackageStore\<close>
  (validations, packages and their publication, in a record \<open>desk\<close> around the store). \<open>StoreFresh\<close>
  shows that the statements cannot fail while the ids still to be drawn are new (\<open>fresh_ids\<close>,
  \<open>never_raises\<close>). A statement is
  one transaction, as each method of the class opens a connection of its own. Primary keys
  are checked, so that an insertion can raise. The clock and the random identifiers are two
  sequences in the store with the number drawn so far.

  \<^bold>\<open>Scoring.\<close> \<open>ScoringTemplates\<close> (\<^verbatim>\<open>scoring/templates.py\<close>), \<open>ScoringFactors\<close>
  (\<^verbatim>\<open>scoring/heuristics.py\<close>, all fifteen factors), \<open>ScoringExplain\<close> (\<^verbatim>\<open>scoring/explainer.py\<close>),
  \<open>ScoreService\<close> (\<^verbatim>\<open>services/score_service.py\<close>), and \<open>ScoreAccuracy\<close>, the error of the three scores
  against the exact weighted sums. Shown: the factors are complete and within bounds; the stored
  scores are the weighted sums of the factors, stored with the top factors, the breakdowns and the
  template and with no other column changed; a refused scoring writes events only; and a scoring
  returns whenever the route and its graph exist.

  \<^bold>\<open>Failure impact.\<close> \<open>FailureImpact\<close> (\<^verbatim>\<open>services/failure_impact_service.py\<close>) has the validation
  of targets and the whole cascade. \<open>FailureImpactProps\<close> shows, for every way an application may
  end: rows of other workspaces are unchanged, rows keep their place and every column the cascade does
  not own, node statuses move along the domain table. The service reads a report before it compares
  its workspace, and reading an old row completes its impact columns: a refused call for a report of
  another workspace leaves that and nothing else. A second application returns the same summary and
  moves only the time of the impact in the row of the report.

  \<^bold>\<open>Version diff and recomputation.\<close> \<open>VersionDiff\<close> (\<^verbatim>\<open>services/version_diff_service.py\<close>): every
  category of the difference holds exactly the ids it should. \<open>Recompute\<close>
  (\<^verbatim>\<open>services/recompute_service.py\<close>) with \<open>RecomputeProps\<close> (isolation, exactly one version on return,
  none on a refusal) and \<open>RecomputeReturns\<close> (the run returns in a workspace that is in order).

  \<^bold>\<open>Routing.\<close> \<open>RouteCandidates\<close> (\<^verbatim>\<open>routing/candidate_builder.py\<close>): the loop over the seeds equals
  a selection, and every candidate is a sound route. \<open>RouteRanker\<close> (\<^verbatim>\<open>routing/ranker.py\<close>): the ranking
  is a permutation in the order of the keys and does not depend on the order of the input.
  \<open>RouteSummary\<close> (\<^verbatim>\<open>routing/summarizer.py\<close>, \<^verbatim>\<open>services/llm_trace.py\<close>): an accepted summary refers to
  nodes of its route. \<open>RouteGeneration\<close> (\<^verbatim>\<open>services/route_generation_service.py\<close>) composes them with
  the score service. \<open>RouteGenerationProps\<close>: a run that raises leaves the routes of the workspace as
  they were, a run that returns replaces them. \<open>RouteGenerationReturns\<close>: a run returns when a
  candidate exists, the fallback is allowed, drawn identifiers are fresh, the run is neither cancelled
  nor disturbed by other tasks, and the language model answers with token counts that are numbers or
  fails with the error of its client; a token count that is no number makes the run raise.

  \<^bold>\<open>Sources.\<close> \<open>PyText\<close> has Unicode text as lists of code points and regular expressions: a matcher
  that returns the ends of the matches in the order in which backtracking finds them, proved against
  the language of the expression. \<open>SourceParser\<close> (\<^verbatim>\<open>services/source_parser.py\<close>) and \<open>SourceChunking\<close>
  (\<^verbatim>\<open>services/source_chunking_service.py\<close>): the segments are slices of the text at their positions
  that leave out only white space and stops; the chunks are groups of consecutive segments cut at
  headings and limits.

  \<^bold>\<open>Confirmation and graph building.\<close> \<open>EvidenceRefs\<close> (\<^verbatim>\<open>services/scholarly_source_service.py\<close>, the
  part a confirmation uses), \<open>ClaimConflicts\<close> (\<^verbatim>\<open>services/claim_conflict_service.py\<close>), \<open>GraphLabels\<close>
  and \<open>CandidateConfirmation\<close> (\<^verbatim>\<open>services/candidate_confirmation_service.py\<close>). \<open>ClaimConflictProps\<close>:
  the conflicts recorded are exactly the contradictions found. \<open>CandidateConfirmationProps\<close>: a refused
  confirmation changes nothing but the log. \<open>ConfirmationEffects\<close>, \<open>ConfirmationOutcome\<close>,
  \<open>ConfirmationRecords\<close>, \<open>ConfirmationReturns\<close> and \<open>ConfirmationTheorems\<close>: what a confirmation
  that returns adds, that it returns for a candidate that is in order, and that every sequence of
  confirmations and rejections keeps claims, objects and candidates consistent. \<open>GraphBuild\<close>
  (\<^verbatim>\<open>services/graph_build_service.py\<close>, \<^verbatim>\<open>graph/repository.py\<close>) with \<open>GraphBuildProps\<close>,
  \<open>GraphBuildEdges\<close> and \<open>GraphBuildTheorems\<close>: exactly which nodes and edges a build shows, that it
  returns, and that it stays in its workspace.

  \<^bold>\<open>Packages.\<close> \<open>PackageBuild\<close> (\<^verbatim>\<open>services/package_build_service.py\<close>). \<open>PackageGather\<close> says what the
  service reads, \<open>PackageProps\<close> and \<open>PackageTheorems\<close> that the routes of a snapshot refer to nodes
  in it only and never to a private dependency, \<open>PackageReturns\<close> when a build is refused,
  \<open>PackagePublish\<close> when a package can be published and that it is published once in every run.
  \<open>PackageWitnesses\<close> applies these to a workspace.

  \<^bold>\<open>The redis lock.\<close> \<open>RedisLock\<close> (\<^verbatim>\<open>core/lock/redis_distributed_lock.py\<close> under \<^verbatim>\<open>src/backend/src\<close>): the
  three scripts, the manager, the context manager and the decorator. Redis is a parameter, a record of
  its hash commands with their documented laws (locale \<open>redis_hashes\<close>, interpreted on a table of
  hashes); its scripts meet the contract \<open>reentrant_lock\<close>. A call may be lost before or after redis
  runs it and then raises either an \<^verbatim>\<open>OSError\<close>, which the handlers of the file name, or an
  error of the redis client, whose classes derive from \<^verbatim>\<open>Exception\<close> and pass these handlers.
  \<open>RedisLockProps\<close>: mutual exclusion in every run, nested calls that leave the lock as it was, calls that
  are refused, and the lock that is left with a task that never entered its block when redis takes the
  lock and the reply is lost.

  \<^bold>\<open>The message group queue.\<close> \<open>MsgGroupQueue\<close> (\<^verbatim>\<open>core/queue/msg_group_queue\<close> under
  \<^verbatim>\<open>src/backend/src\<close>) is a component of its own: queues, statistics, limits and shutdown of the
  manager. \<open>Traces\<close> has the runs of a step relation. \<open>MsgGroupQueueProps\<close> shows that the blocking
  calls are runs of uninterrupted steps, and by the locale \<open>group_queue\<close> that the messages of a group
  keep their order in every run. \<open>MsgGroupQueueCounts\<close>: the totals account for every message, the
  limit does not bound the messages, and the statistics of the hour show a minute.

  \<^bold>\<open>Bounds and representations.\<close>
  \<^item> A float is the rational number it denotes; each operation rounds to the nearest double. The
    exponent range is left out: the values stay between 0 and 100, or are timestamps.
  \<^item> A character of the store has a code point below 256; texts with other characters are parameters.
    The sources, whose parsing depends on other scripts, are lists of code points.
  \<^item> \<^verbatim>\<open>find_latest_event\<close> reads at most 5000 events: the lemma about it has this bound, and a
    second one shows what happens beyond it.
  \<^item> No fuel is used: every loop of the modelled code runs over a finite list and is structural
    recursion on it, so that the definitions are total. The split of a text into sentences and the matcher
    of expressions recurse on what is left of the text, with a measure.
  \<^item> A conversion the value type cannot express (such as the text of a float) is the error
    \<open>Unmodelled\<close>, never a made up value.

  \<^bold>\<open>Parameters.\<close> The language model with its prompt, the Chinese texts, the clock, the random
  identifiers, and what other tasks do to the store while route generation awaits the summaries
  or a task waits for the lock, the memory bridge, the hash of a chunk, and redis. The
  hypotheses on them are stated in each property: for instance that drawn identifiers are fresh.

  \<^bold>\<open>Not modelled.\<close> The services that mainly drive language models or the EverMemOS bridge
  (extraction and its worker, hypotheses, retrieval, reports), whose results are texts of external
  systems: what the code adds are prompts, calls and the copying of fields. The operations of the store
  for the tables of these services, its schema and migrations. The HTTP controllers, which pass requests
  on. The memory, agentic and business layers, which call vector stores and numeric libraries. The other
  redis adapters, whose Lua scripts are files that redis runs, dependency injection and start-up code.
  Concurrency inside one statement of the store is left to sqlite.
\<close>

end
